(* ===== verification/Prelude.thy ===== *)
theory Prelude
  imports Main "HOL-Library.Product_Lexorder"
begin

text \<open>
  Shared notions of the development: the exception-state monad in which the stateful services
  are written, with its weakest-precondition rules (collection \<open>wp\<close>), insertion-ordered
  dictionaries (collection \<open>dict\<close>), stable sorting with a limit, time values, and the
  string operations of Python that the services use.

  A Python coroutine that may raise becomes a function from the state before to an error or a
  result, paired with the state at the moment it returned or raised: mutations made before an
  exception stay visible, as they do in the program.
\<close>

named_theorems wp "weakest-precondition rules of the exception-state monad"
named_theorems dict "facts on insertion-ordered dictionaries"

section \<open>Programs that may raise\<close>

type_synonym ('s, 'e, 'a) prog = "'s \<Rightarrow> ('e + 'a) \<times> 's"

definition ret :: "'a \<Rightarrow> ('s, 'e, 'a) prog" where
  "ret x s = (Inr x, s)"

definition raise :: "'e \<Rightarrow> ('s, 'e, 'a) prog" where
  "raise e s = (Inl e, s)"

definition bindE :: "('s, 'e, 'a) prog \<Rightarrow> ('a \<Rightarrow> ('s, 'e, 'b) prog) \<Rightarrow> ('s, 'e, 'b) prog" where
  "bindE m f s = (case m s of (Inl e, s') \<Rightarrow> (Inl e, s') | (Inr x, s') \<Rightarrow> f x s')"

definition thenE :: "('s, 'e, 'a) prog \<Rightarrow> ('s, 'e, 'b) prog \<Rightarrow> ('s, 'e, 'b) prog" where
  "thenE m n = bindE m (\<lambda>_. n)"

text \<open>\<open>tryE m h\<close> is \<open>try: m except e: h(e)\<close>; \<open>tryElse m h k\<close> adds the
  continuation \<open>k\<close> that runs outside the protected part.\<close>

definition tryElse :: "('s, 'e, 'a) prog \<Rightarrow> ('e \<Rightarrow> ('s, 'e, 'b) prog) \<Rightarrow>
    ('a \<Rightarrow> ('s, 'e, 'b) prog) \<Rightarrow> ('s, 'e, 'b) prog" where
  "tryElse m h k s = (case m s of (Inl e, s') \<Rightarrow> h e s' | (Inr x, s') \<Rightarrow> k x s')"

definition gets :: "('s \<Rightarrow> 'a) \<Rightarrow> ('s, 'e, 'a) prog" where
  "gets f s = (Inr (f s), s)"

definition modify :: "('s \<Rightarrow> 's) \<Rightarrow> ('s, 'e, unit) prog" where
  "modify f s = (Inr (), f s)"

definition liftE :: "'e + 'a \<Rightarrow> ('s, 'e, 'a) prog" where
  "liftE r s = (r, s)"

definition require :: "bool \<Rightarrow> 'e \<Rightarrow> ('s, 'e, unit) prog" where
  "require b e = (if b then ret () else raise e)"

fun forE :: "'a list \<Rightarrow> ('a \<Rightarrow> ('s, 'e, unit) prog) \<Rightarrow> ('s, 'e, unit) prog" where
  "forE [] f = ret ()"
| "forE (x # xs) f = thenE (f x) (forE xs f)"

fun mapE :: "('a \<Rightarrow> ('s, 'e, 'b) prog) \<Rightarrow> 'a list \<Rightarrow> ('s, 'e, 'b list) prog" where
  "mapE f [] = ret []"
| "mapE f (x # xs) = bindE (f x) (\<lambda>y. bindE (mapE f xs) (\<lambda>ys. ret (y # ys)))"

definition wp :: "('s, 'e, 'a) prog \<Rightarrow> ('a \<Rightarrow> 's \<Rightarrow> bool) \<Rightarrow> ('e \<Rightarrow> 's \<Rightarrow> bool) \<Rightarrow> 's \<Rightarrow> bool" where
  "wp m Q E s = (case m s of (Inl e, s') \<Rightarrow> E e s' | (Inr x, s') \<Rightarrow> Q x s')"

lemma wp_ret [wp]: "wp (ret x) Q E = Q x"
  by (simp add: wp_def ret_def fun_eq_iff)

lemma wp_raise [wp]: "wp (raise e) Q E = E e"
  by (simp add: wp_def raise_def fun_eq_iff)

lemma wp_bindE [wp]: "wp (bindE m f) Q E = wp m (\<lambda>x. wp (f x) Q E) E"
  by (simp add: wp_def bindE_def fun_eq_iff split: prod.splits sum.splits)

lemma wp_thenE [wp]: "wp (thenE m n) Q E = wp m (\<lambda>_. wp n Q E) E"
  by (simp add: thenE_def wp)

lemma wp_tryElse [wp]:
  "wp (tryElse m h k) Q E = wp m (\<lambda>x. wp (k x) Q E) (\<lambda>e. wp (h e) Q E)"
  by (simp add: wp_def tryElse_def fun_eq_iff split: prod.splits sum.splits)

lemma wp_gets [wp]: "wp (gets f) Q E s = Q (f s) s"
  by (simp add: wp_def gets_def)

lemma wp_modify [wp]: "wp (modify f) Q E s = Q () (f s)"
  by (simp add: wp_def modify_def)

lemma wp_liftE [wp]: "wp (liftE r) Q E s = (case r of Inl e \<Rightarrow> E e s | Inr x \<Rightarrow> Q x s)"
  by (simp add: wp_def liftE_def split: sum.splits)

lemma wp_require [wp]: "wp (require b e) Q E s = (if b then Q () s else E e s)"
  by (simp add: require_def wp)

lemma wp_if [wp]: "wp (if b then m else n) Q E s = (if b then wp m Q E s else wp n Q E s)"
  by simp

lemma wp_option [wp]:
  "wp (case x of None \<Rightarrow> m | Some y \<Rightarrow> f y) Q E s =
     (case x of None \<Rightarrow> wp m Q E s | Some y \<Rightarrow> wp (f y) Q E s)"
  by (simp split: option.splits)

lemma wp_sum [wp]:
  "wp (case x of Inl e \<Rightarrow> h e | Inr y \<Rightarrow> f y) Q E s =
     (case x of Inl e \<Rightarrow> wp (h e) Q E s | Inr y \<Rightarrow> wp (f y) Q E s)"
  by (simp split: sum.splits)

lemma wp_let [wp]: "wp (Let x f) Q E s = wp (f x) Q E s"
  by (simp add: Let_def)

lemma wp_mono:
  "wp m Q E s \<Longrightarrow> (\<And>x s'. Q x s' \<Longrightarrow> Q' x s') \<Longrightarrow> (\<And>e s'. E e s' \<Longrightarrow> E' e s') \<Longrightarrow> wp m Q' E' s"
  by (auto simp: wp_def split: prod.splits sum.splits)

lemma wp_result: "wp m Q E s \<Longrightarrow> m s = (Inr x, s') \<Longrightarrow> Q x s'"
  by (simp add: wp_def)

lemma wp_error: "wp m Q E s \<Longrightarrow> m s = (Inl e, s') \<Longrightarrow> E e s'"
  by (simp add: wp_def)

lemma wpI: "(\<And>x s'. m s = (Inr x, s') \<Longrightarrow> Q x s') \<Longrightarrow> (\<And>e s'. m s = (Inl e, s') \<Longrightarrow> E e s') \<Longrightarrow> wp m Q E s"
  by (auto simp: wp_def split: prod.splits sum.splits)

text \<open>An invariant kept on every exit, normal or exceptional.\<close>

definition keeps :: "('s \<Rightarrow> bool) \<Rightarrow> ('s, 'e, 'a) prog \<Rightarrow> bool" where
  "keeps I m \<longleftrightarrow> (\<forall>s. I s \<longrightarrow> wp m (\<lambda>_. I) (\<lambda>_. I) s)"

named_theorems keeps_intro "composition rules for invariants of programs"

lemma keepsD: "keeps I m \<Longrightarrow> I s \<Longrightarrow> I (snd (m s))"
  by (cases "m s") (fastforce simp: keeps_def wp_def split: sum.splits)

lemma keepsI: "(\<And>s. I s \<Longrightarrow> wp m (\<lambda>_. I) (\<lambda>_. I) s) \<Longrightarrow> keeps I m"
  by (simp add: keeps_def)

lemma keeps_wp: "keeps I m \<Longrightarrow> I s \<Longrightarrow> wp m (\<lambda>_. I) (\<lambda>_. I) s"
  by (simp add: keeps_def)

lemma keeps_ret [keeps_intro]: "keeps I (ret x)"
  by (simp add: keeps_def wp)

lemma keeps_raise [keeps_intro]: "keeps I (raise e)"
  by (simp add: keeps_def wp)

lemma keeps_gets [keeps_intro]: "keeps I (gets f)"
  by (simp add: keeps_def wp)

lemma keeps_liftE [keeps_intro]: "keeps I (liftE r)"
  by (simp add: keeps_def wp split: sum.splits)

lemma keeps_require [keeps_intro]: "keeps I (require b e)"
  by (simp add: keeps_def wp)

lemma keeps_bindE [keeps_intro]: "keeps I m \<Longrightarrow> (\<And>x. keeps I (f x)) \<Longrightarrow> keeps I (bindE m f)"
  unfolding keeps_def wp by (blast intro: wp_mono)

lemma keeps_thenE [keeps_intro]: "keeps I m \<Longrightarrow> keeps I n \<Longrightarrow> keeps I (thenE m n)"
  by (simp add: thenE_def keeps_bindE)

lemma keeps_tryElse [keeps_intro]:
  "keeps I m \<Longrightarrow> (\<And>e. keeps I (h e)) \<Longrightarrow> (\<And>x. keeps I (k x)) \<Longrightarrow> keeps I (tryElse m h k)"
  unfolding keeps_def wp by (blast intro: wp_mono)

lemma keeps_if [keeps_intro]: "(b \<Longrightarrow> keeps I m) \<Longrightarrow> (\<not> b \<Longrightarrow> keeps I n) \<Longrightarrow> keeps I (if b then m else n)"
  by simp

lemma keeps_option [keeps_intro]:
  "(x = None \<Longrightarrow> keeps I m) \<Longrightarrow> (\<And>y. x = Some y \<Longrightarrow> keeps I (f y)) \<Longrightarrow>
     keeps I (case x of None \<Rightarrow> m | Some y \<Rightarrow> f y)"
  by (simp split: option.splits)

lemma keeps_sum [keeps_intro]:
  "(\<And>e. keeps I (h e)) \<Longrightarrow> (\<And>y. keeps I (f y)) \<Longrightarrow>
     keeps I (case x of Inl e \<Rightarrow> h e | Inr y \<Rightarrow> f y)"
  by (simp split: sum.splits)

lemma keeps_let [keeps_intro]: "(\<And>y. keeps I (f y)) \<Longrightarrow> keeps I (Let x f)"
  by (simp add: Let_def)

lemma keeps_forE [keeps_intro]: "(\<And>x. keeps I (f x)) \<Longrightarrow> keeps I (forE xs f)"
  by (induction xs) (auto intro: keeps_ret keeps_thenE)

lemma keeps_mapE [keeps_intro]: "(\<And>x. keeps I (f x)) \<Longrightarrow> keeps I (mapE f xs)"
  by (induction xs) (auto intro: keeps_ret keeps_bindE)

text \<open>Loops with an invariant over the elements done and the results so far.\<close>

lemma wp_mapE_aux:
  assumes "\<And>ys y zs rs s. xs = ys @ y # zs \<Longrightarrow> Inv ys rs s \<Longrightarrow>
      wp (f y) (\<lambda>r. Inv (ys @ [y]) (rs @ [r])) E s"
    and "xs = ds @ todo" and "Inv ds rs s"
  shows "wp (mapE f todo) (\<lambda>rs'. Inv xs (rs @ rs')) E s"
  using assms(2,3)
proof (induction todo arbitrary: ds rs s)
  case Nil
  then show ?case by (simp add: wp)
next
  case (Cons y zs)
  have "wp (f y) (\<lambda>r. Inv (ds @ [y]) (rs @ [r])) E s"
    by (rule assms(1) [OF Cons.prems(1,2)])
  then have "wp (f y) (\<lambda>r. wp (mapE f zs) (\<lambda>rs'. Inv xs (rs @ r # rs')) E) E s"
  proof (rule wp_mono)
    fix r s' assume inv: "Inv (ds @ [y]) (rs @ [r]) s'"
    have "wp (mapE f zs) (\<lambda>rs'. Inv xs ((rs @ [r]) @ rs')) E s'"
      by (rule Cons.IH [OF _ inv]) (simp add: Cons.prems(1))
    then show "wp (mapE f zs) (\<lambda>x. Inv xs (rs @ r # x)) E s'" by simp
  qed
  then show ?case by (simp add: wp)
qed

lemma wp_mapE:
  assumes "\<And>ys y zs rs s. xs = ys @ y # zs \<Longrightarrow> Inv ys rs s \<Longrightarrow>
      wp (f y) (\<lambda>r. Inv (ys @ [y]) (rs @ [r])) E s"
    and "Inv [] [] s"
  shows "wp (mapE f xs) (\<lambda>rs. Inv xs rs) E s"
proof -
  have "wp (mapE f xs) (\<lambda>rs'. Inv xs ([] @ rs')) E s"
    by (rule wp_mapE_aux [where ds = "[]"]) (simp_all add: assms)
  then show ?thesis by simp
qed

section \<open>Insertion-ordered dictionaries\<close>

text \<open>A Python \<open>dict\<close> iterates in insertion order, and storing under a key that is
  present keeps the key's place.\<close>

type_synonym ('k, 'v) dict = "('k \<times> 'v) list"

fun dict_set :: "'k \<Rightarrow> 'v \<Rightarrow> ('k, 'v) dict \<Rightarrow> ('k, 'v) dict" where
  "dict_set k v [] = [(k, v)]"
| "dict_set k v ((k', v') # d) = (if k' = k then (k, v) # d else (k', v') # dict_set k v d)"

definition dict_del :: "'k \<Rightarrow> ('k, 'v) dict \<Rightarrow> ('k, 'v) dict" where
  "dict_del k d = filter (\<lambda>(k', _). k' \<noteq> k) d"

definition dict_values :: "('k, 'v) dict \<Rightarrow> 'v list" where
  "dict_values d = map snd d"

definition dict_get_or :: "'v \<Rightarrow> ('k, 'v) dict \<Rightarrow> 'k \<Rightarrow> 'v" where
  "dict_get_or v d k = (case map_of d k of None \<Rightarrow> v | Some x \<Rightarrow> x)"

definition dict_ok :: "('k, 'v) dict \<Rightarrow> bool" where
  "dict_ok d \<longleftrightarrow> distinct (map fst d)"

lemma map_of_dict_set [dict, simp]: "map_of (dict_set k v d) = (map_of d)(k \<mapsto> v)"
  by (induction k v d rule: dict_set.induct) auto

lemma map_of_dict_del [dict, simp]: "map_of (dict_del k d) = (map_of d)(k := None)"
  by (induction d) (auto simp: dict_del_def)

lemma set_fst_dict_set [dict, simp]: "fst ` set (dict_set k v d) = insert k (fst ` set d)"
  by (induction k v d rule: dict_set.induct) auto

lemma dict_ok_Nil [dict, simp]: "dict_ok []"
  by (simp add: dict_ok_def)

lemma dict_ok_set [dict, simp]: "dict_ok d \<Longrightarrow> dict_ok (dict_set k v d)"
  unfolding dict_ok_def
  by (induction k v d rule: dict_set.induct) (auto simp flip: image_set)

lemma dict_ok_del [dict, simp]: "dict_ok d \<Longrightarrow> dict_ok (dict_del k d)"
  unfolding dict_ok_def dict_del_def
  by (induction d) (auto simp: image_iff)

lemma dict_keys_set_present [dict]: "map_of d k = Some x \<Longrightarrow> map fst (dict_set k v d) = map fst d"
  by (induction k v d rule: dict_set.induct) (auto split: if_splits)

lemma dict_values_in [dict]: "dict_ok d \<Longrightarrow> x \<in> set (dict_values d) \<longleftrightarrow> (\<exists>k. map_of d k = Some x)"
  unfolding dict_ok_def dict_values_def
  by (auto simp: image_iff map_of_eq_Some_iff) force

lemma dict_set_in: "(k', x) \<in> set (dict_set k v d) \<Longrightarrow> (k' = k \<and> x = v) \<or> (k', x) \<in> set d"
  by (induction k v d rule: dict_set.induct) (auto split: if_splits)

section \<open>Sorting and limits\<close>

text \<open>\<open>sorted(xs, key=f)\<close> is stable; \<open>xs[:limit]\<close> for a positive limit is
  \<open>take\<close>.\<close>

definition first_n :: "int \<Rightarrow> 'a list \<Rightarrow> 'a list" where
  "first_n limit xs = take (nat limit) xs"

lemma length_first_n: "0 \<le> limit \<Longrightarrow> int (length (first_n limit xs)) \<le> limit"
  by (simp add: first_n_def)

lemma set_first_n: "x \<in> set (first_n limit xs) \<Longrightarrow> x \<in> set xs"
  by (auto simp: first_n_def dest: in_set_takeD)

lemma sorted_take_before:
  fixes f :: "'a \<Rightarrow> 'k::linorder"
  assumes "sorted (map f xs)" and "x \<in> set (take n xs)" and "y \<in> set (drop n xs)"
  shows "f x \<le> f y"
proof -
  have "sorted (map f (take n xs @ drop n xs))" using assms(1) by simp
  then show ?thesis using assms(2,3) by (auto simp only: map_append sorted_append set_map image_iff)
qed

lemma first_n_least:
  fixes f :: "'a \<Rightarrow> 'k::linorder"
  assumes "x \<in> set (first_n n (sort_key f xs))" and "y \<in> set xs"
    and "y \<notin> set (first_n n (sort_key f xs))"
  shows "f x \<le> f y"
proof -
  have "y \<in> set (take (nat n) (sort_key f xs) @ drop (nat n) (sort_key f xs))"
    using assms(2) by simp
  then have "y \<in> set (drop (nat n) (sort_key f xs))"
    using assms(3) unfolding first_n_def by (simp only: set_append) blast
  then show ?thesis
    using assms(1) sorted_take_before [of f "sort_key f xs" x "nat n" y] by (simp add: first_n_def)
qed

lemma find_least:
  fixes f :: "'a \<Rightarrow> 'k::linorder"
  assumes "sorted (map f xs)" and "find P xs = Some x" and "y \<in> set xs" and "P y"
  shows "f x \<le> f y"
  using assms
  by (induction xs) (auto split: if_splits)

lemma find_in: "find P xs = Some x \<Longrightarrow> x \<in> set xs \<and> P x"
  by (induction xs) (auto split: if_splits)

lemma find_none: "find P xs = None \<longleftrightarrow> (\<forall>x \<in> set xs. \<not> P x)"
  by (induction xs) auto

section \<open>Time\<close>

text \<open>An aware \<open>datetime\<close> is its instant, in microseconds; comparison and equality of
  aware values are those of the instants. A naive value has no instant and does not compare
  with an aware one (Python raises \<open>TypeError\<close>). A \<open>timedelta\<close> is a number of
  microseconds.\<close>

type_synonym time = int
type_synonym timedelta = int

datatype datetime = Aware time | Naive int

fun is_aware :: "datetime \<Rightarrow> bool" where
  "is_aware (Aware _) = True"
| "is_aware (Naive _) = False"

fun instant :: "datetime \<Rightarrow> time" where
  "instant (Aware t) = t"
| "instant (Naive t) = t"

fun plus_delay :: "datetime \<Rightarrow> timedelta \<Rightarrow> datetime" where
  "plus_delay (Aware t) d = Aware (t + d)"
| "plus_delay (Naive t) d = Naive (t + d)"

definition seconds :: "int \<Rightarrow> timedelta" where
  "seconds n = n * 1000000"

text \<open>Division of a \<open>timedelta\<close> by two rounds half to even.\<close>

definition td_half :: "timedelta \<Rightarrow> timedelta" where
  "td_half d = (let q = d div 2 in if d mod 2 = 0 \<or> even q then q else q + 1)"

lemma td_half_bound: "d \<le> 2 * td_half d + 1" "2 * td_half d \<le> d + 1"
  by (auto simp: td_half_def Let_def) presburger+

section \<open>Strings\<close>

text \<open>Text is a list of characters read as code points. \<open>strip\<close> removes the ASCII
  white space Python removes; \<open>casefold\<close> is modelled on ASCII letters, where it is the
  map to lower case.\<close>

definition is_space :: "char \<Rightarrow> bool" where
  "is_space c \<longleftrightarrow> (let n = (of_char c :: nat) in (9 \<le> n \<and> n \<le> 13) \<or> (28 \<le> n \<and> n \<le> 32))"

definition py_strip :: "string \<Rightarrow> string" where
  "py_strip s = rev (dropWhile is_space (rev (dropWhile is_space s)))"

definition casefold_char :: "char \<Rightarrow> char" where
  "casefold_char c = (let n = (of_char c :: nat) in if 65 \<le> n \<and> n \<le> 90 then char_of (n + 32) else c)"

definition casefold :: "string \<Rightarrow> string" where
  "casefold s = map casefold_char s"

lemma py_strip_idem_aux: "dropWhile P xs = [] \<or> \<not> P (hd (dropWhile P xs))"
  by (induction xs) auto

lemma dropWhile_fix: "xs = [] \<or> \<not> P (hd xs) \<Longrightarrow> dropWhile P xs = xs"
  by (cases xs) auto

lemma hd_rev_dropWhile_rev:
  assumes "rev (dropWhile P (rev xs)) \<noteq> []"
  shows "hd (rev (dropWhile P (rev xs))) = hd xs"
proof -
  obtain ys where "rev xs = ys @ dropWhile P (rev xs)"
    by (metis takeWhile_dropWhile_id)
  then have "xs = rev (dropWhile P (rev xs)) @ rev ys"
    by (metis rev_append rev_rev_ident)
  then show ?thesis
    using assms by (metis hd_append2)
qed

lemma py_strip_idem [simp]: "py_strip (py_strip s) = py_strip s"
proof -
  let ?l = "dropWhile is_space s"
  let ?r = "rev (dropWhile is_space (rev ?l))"
  have "?r = [] \<or> \<not> is_space (hd ?r)"
  proof (cases "?r = []")
    case False
    then have "hd ?r = hd ?l" by (rule hd_rev_dropWhile_rev)
    moreover have "?l \<noteq> []"
    proof
      assume "?l = []"
      then have "?r = rev (dropWhile is_space (rev []))" by (simp only:)
      with False show False by simp
    qed
    ultimately show ?thesis using py_strip_idem_aux [of is_space s] by auto
  qed simp
  then have l: "dropWhile is_space ?r = ?r" by (rule dropWhile_fix)
  have "dropWhile is_space (rev ?r) = rev ?r"
    using py_strip_idem_aux [of is_space "rev ?l"] by (intro dropWhile_fix) simp
  then show ?thesis by (simp add: py_strip_def l)
qed

text \<open>\<open>p in s\<close>, \<open>s.split(sep)\<close>, and decimal numbers: \<open>str\<close> of a natural
  number and \<open>int\<close> of a text, which may be signed, padded with white space, and have single
  underscores between digits.\<close>

fun py_contains :: "'a list \<Rightarrow> 'a list \<Rightarrow> bool" where
  "py_contains p [] \<longleftrightarrow> p = []"
| "py_contains p (c # s) \<longleftrightarrow> take (length p) (c # s) = p \<or> py_contains p s"

fun split_on :: "char \<Rightarrow> string \<Rightarrow> string list" where
  "split_on sep [] = [[]]"
| "split_on sep (c # s) =
     (if c = sep then [] # split_on sep s
      else (case split_on sep s of [] \<Rightarrow> [[c]] | w # ws \<Rightarrow> (c # w) # ws))"

definition is_digit :: "char \<Rightarrow> bool" where
  "is_digit c \<longleftrightarrow> (let n = (of_char c :: nat) in 48 \<le> n \<and> n \<le> 57)"

definition digit_value :: "char \<Rightarrow> nat" where
  "digit_value c = of_char c - 48"

definition digit_char :: "nat \<Rightarrow> char" where
  "digit_char n = char_of (48 + n)"

fun nat_str :: "nat \<Rightarrow> string" where
  "nat_str n = (if n < 10 then [digit_char n] else nat_str (n div 10) @ [digit_char (n mod 10)])"

declare nat_str.simps [simp del]

definition int_str :: "int \<Rightarrow> string" where
  "int_str n = (if n < 0 then ''-'' @ nat_str (nat (- n)) else nat_str (nat n))"

fun parse_digits :: "nat \<Rightarrow> string \<Rightarrow> nat option" where
  "parse_digits acc [] = Some acc"
| "parse_digits acc (c # s) =
     (if c = CHR ''_'' then
        (case s of [] \<Rightarrow> None
         | d # ds \<Rightarrow> if is_digit d then parse_digits (acc * 10 + digit_value d) ds else None)
      else if is_digit c then parse_digits (acc * 10 + digit_value c) s else None)"

fun parse_nat :: "string \<Rightarrow> nat option" where
  "parse_nat [] = None"
| "parse_nat (c # s) = (if is_digit c then parse_digits (digit_value c) s else None)"

definition py_int :: "string \<Rightarrow> int option" where
  "py_int s =
     (case py_strip s of [] \<Rightarrow> None
      | c # t \<Rightarrow>
          if c = CHR ''-'' then map_option (\<lambda>n. - int n) (parse_nat t)
          else if c = CHR ''+'' then map_option int (parse_nat t)
          else map_option int (parse_nat (c # t)))"

lemma of_digit_char: "n < 10 \<Longrightarrow> (of_char (digit_char n) :: nat) = 48 + n"
  by (simp add: digit_char_def)

lemma digit_char [simp]: "n < 10 \<Longrightarrow> is_digit (digit_char n)" "n < 10 \<Longrightarrow> digit_value (digit_char n) = n"
  by (simp_all add: is_digit_def digit_value_def of_digit_char)

lemma digit_not [simp]:
  "is_digit c \<Longrightarrow> c \<noteq> CHR ''_''" "is_digit c \<Longrightarrow> c \<noteq> CHR ''-''" "is_digit c \<Longrightarrow> c \<noteq> CHR ''+''"
  "is_digit c \<Longrightarrow> \<not> is_space c" "is_digit c \<Longrightarrow> c \<noteq> CHR 0x22" "is_digit c \<Longrightarrow> c \<noteq> CHR '',''"
  by (auto simp: is_digit_def is_space_def Let_def)

lemma nat_str_digits: "\<forall>c \<in> set (nat_str n). is_digit c"
  by (induction n rule: nat_str.induct) (subst nat_str.simps, simp)

lemma nat_str_nonempty [simp]: "nat_str n \<noteq> []"
  by (subst nat_str.simps) simp

lemma parse_digits_append:
  "\<forall>c \<in> set s. is_digit c \<Longrightarrow> parse_digits acc (s @ t) = (case parse_digits acc s of None \<Rightarrow> None | Some n \<Rightarrow> parse_digits n t)"
  by (induction s arbitrary: acc) (auto split: list.split)

lemma parse_nat_str [simp]: "parse_nat (nat_str n) = Some n"
proof (induction n rule: nat_str.induct)
  case (1 n)
  show ?case
  proof (cases "n < 10")
    case True
    then show ?thesis by (subst nat_str.simps) simp
  next
    case False
    then have ih: "parse_nat (nat_str (n div 10)) = Some (n div 10)" using 1 by simp
    obtain c s where cs: "nat_str (n div 10) = c # s" by (cases "nat_str (n div 10)") simp_all
    then have d: "is_digit c" "\<forall>x \<in> set s. is_digit x" using nat_str_digits [of "n div 10"] by simp_all
    have "parse_nat (nat_str n) = parse_nat ((c # s) @ [digit_char (n mod 10)])"
      using False by (subst nat_str.simps) (simp add: cs)
    also have "\<dots> = Some (n div 10 * 10 + n mod 10)"
      using ih d by (simp add: cs parse_digits_append)
    finally show ?thesis by simp
  qed
qed

lemma strip_id: "s = [] \<or> \<not> is_space (hd s) \<and> \<not> is_space (last s) \<Longrightarrow> py_strip s = s"
  using dropWhile_fix [of s is_space] dropWhile_fix [of "rev s" is_space]
  by (cases "s = []") (simp_all add: py_strip_def hd_rev)

lemma strip_digits: "\<forall>c \<in> set s. is_digit c \<Longrightarrow> py_strip s = s"
  by (rule strip_id) (cases s; auto)

lemma py_int_nat_str [simp]: "py_int (nat_str n) = Some (int n)"
proof -
  obtain c s where cs: "nat_str n = c # s" by (cases "nat_str n") simp_all
  then have "is_digit c" using nat_str_digits [of n] by simp
  moreover have "py_strip (nat_str n) = c # s" unfolding strip_digits [OF nat_str_digits] by (rule cs)
  ultimately show ?thesis using parse_nat_str [of n] cs by (simp add: py_int_def)
qed

lemma py_int_str [simp]: "py_int (int_str n) = Some n"
proof (cases "n < 0")
  case True
  let ?s = "nat_str (nat (- n))"
  have "is_digit (last ?s)" using nat_str_digits [of "nat (- n)"] by (simp add: last_in_set)
  then have "py_strip (CHR ''-'' # ?s) = CHR ''-'' # ?s"
    by (intro strip_id) (simp add: is_space_def [of "CHR ''-''"])
  then show ?thesis using True by (simp add: py_int_def int_str_def)
qed (simp add: int_str_def)

lemma split_on_absent: "sep \<notin> set s \<Longrightarrow> split_on sep s = [s]"
  by (induction s) auto

end
