(* ===== verification/Domain.thy ===== *)
theory Domain
  imports Prelude
begin

text \<open>
  The mission domain model: \<open>app/domain/mission.py\<close>, \<open>execution.py\<close>,
  \<open>execution_attempt.py\<close>, \<open>provider.py\<close>, \<open>provider_id.py\<close>,
  \<open>identity.py\<close>. A Pydantic class is a record; its constructor with the validators is a
  function into \<open>exn + record\<close>. The event log of a mission and the rule that checks it
  are at the end, with the lemmas that every recorded event keeps the log valid.
\<close>

section \<open>Identifiers, enumerations, errors\<close>

text \<open>A UUID is its integer value; the nil UUID is 0.\<close>

type_synonym uuid = nat

datatype mission_type = TrainTicket

datatype mission_status =
    Created | Waiting | Paused | Processing | Running | Searching | OptionFound
  | Reserving | RequiresConfirmation | Completed | Failed | Cancelled | Expired

datatype execution_mode = SearchOnly | RequireConfirmation | AutoPurchase

fun status_value :: "mission_status \<Rightarrow> string" where
  "status_value Created = ''created''"
| "status_value Waiting = ''waiting''"
| "status_value Paused = ''paused''"
| "status_value Processing = ''processing''"
| "status_value Running = ''running''"
| "status_value Searching = ''searching''"
| "status_value OptionFound = ''option_found''"
| "status_value Reserving = ''reserving''"
| "status_value RequiresConfirmation = ''requires_confirmation''"
| "status_value Completed = ''completed''"
| "status_value Failed = ''failed''"
| "status_value Cancelled = ''cancelled''"
| "status_value Expired = ''expired''"

fun execution_mode_value :: "execution_mode \<Rightarrow> string" where
  "execution_mode_value SearchOnly = ''search_only''"
| "execution_mode_value RequireConfirmation = ''require_confirmation''"
| "execution_mode_value AutoPurchase = ''auto_purchase''"

definition all_statuses :: "mission_status list" where
  "all_statuses = [Created, Waiting, Paused, Processing, Running, Searching, OptionFound,
     Reserving, RequiresConfirmation, Completed, Failed, Cancelled, Expired]"

text \<open>The exceptions the services raise. \<open>ProcessExit\<close> stands for the three that the
  workers never catch (\<open>CancelledError\<close>, \<open>KeyboardInterrupt\<close>, \<open>SystemExit\<close>);
  \<open>HTTPException n c\<close> for a response with status \<open>n\<close> and error code or detail \<open>c\<close>;
  \<open>OtherError\<close> for any further \<open>Exception\<close> of an adapter.\<close>

datatype exn =
    ValueError string
  | ValidationError
  | TypeError
  | KeyError
  | AssertionError
  | MissionNotFoundError
  | InvalidMissionRunError mission_status
  | MissionNotReadyError string
  | InvalidMissionConfirmationError string
  | InvalidMissionCancellationError string
  | InvalidMissionTransitionError string
  | InvalidMissionEventSequenceError
  | InvalidMissionEventIdError
  | InvalidRepositoryTimeError
  | MissionRetryNotAllowedError mission_status
  | MissionAttemptsExhaustedError
  | InvalidMissionRetryTimeError string
  | MissionSchedulingNotAllowedError mission_status
  | InvalidMissionScheduleError string
  | MissionPauseNotAllowedError mission_status
  | MissionResumeNotAllowedError mission_status
  | MissionUpdateNotAllowedError mission_status
  | InvalidMissionUpdateError
  | MissionProviderSelectionNotAllowedError uuid mission_status
  | UnknownProviderError string
  | InvalidProviderIdError string
  | DuplicateProviderIdError string
  | UnsupportedMissionTypeError string mission_type
  | UnsupportedExecutionModeError execution_mode "string option"
  | NoSupportingProviderError mission_type
  | AmbiguousProviderError mission_type "string list"
  | ProviderOperationError string string bool
  | MissionCommandIdempotencyConflictError
  | MissionCommandInProgressError
  | ResourceCreationConflictError
  | ResourceCreationInProgressError
  | IdentityVersionConflictError
  | AgentTaskVersionConflictError
  | TaskExecutionError string
  | HTTPException nat string
  | ConnectionError
  | TimeoutError
  | VisibleBrowserUnavailableError
  | AgentDecisionProviderError
  | NotImplementedError
  | OtherError string
  | ProcessExit

text \<open>JSON values of event metadata. \<open>JTime t\<close> is the text \<open>t.isoformat()\<close> and
  \<open>JText e\<close> the text \<open>str(e)\<close>.\<close>

datatype json =
    JNull
  | JBool bool
  | JInt int
  | JStr string
  | JTime datetime
  | JText exn
  | JList "json list"
  | JObj "(string \<times> json) list"

type_synonym metadata = "(string, json) dict"

fun json_of_option :: "('a \<Rightarrow> json) \<Rightarrow> 'a option \<Rightarrow> json" where
  "json_of_option f None = JNull"
| "json_of_option f (Some x) = f x"

section \<open>Provider values\<close>

datatype seat_berth = Lower | Upper

record seat =
  carriage_number :: int
  compartment_number :: int
  seat_number :: int
  berth :: seat_berth
  near_toilet :: bool

datatype provider_option_type = TrainOption

record provider_option =
  option_id :: uuid
  option_type :: provider_option_type
  train_number :: string
  option_from_city :: string
  option_to_city :: string
  departure_at :: datetime
  arrival_at :: datetime
  total_price :: int
  seats :: "seat list"
  option_metadata :: metadata

record reservation_result =
  reservation_success :: bool
  result_reservation_id :: "string option"
  requires_confirmation :: bool
  reservation_message :: string

text \<open>\<open>normalize_reservation_id\<close> and \<open>validate_reservation_outcome\<close>.\<close>

definition make_reservation_result :: "bool \<Rightarrow> string option \<Rightarrow> bool \<Rightarrow> string \<Rightarrow> exn + reservation_result" where
  "make_reservation_result success rid confirm message =
     (case rid of
        Some r \<Rightarrow>
          if py_strip r = [] then Inl ValidationError
          else if \<not> success then Inl ValidationError
          else Inr \<lparr>reservation_success = success, result_reservation_id = Some (py_strip r),
                 requires_confirmation = confirm, reservation_message = message\<rparr>
      | None \<Rightarrow>
          if success then Inl ValidationError
          else Inr \<lparr>reservation_success = success, result_reservation_id = None,
                 requires_confirmation = confirm, reservation_message = message\<rparr>)"

record confirmation_result =
  confirmation_success :: bool
  confirmation_message :: string

record cancellation_result =
  cancellation_success :: bool
  cancellation_message :: string

lemma reservation_result_id:
  "make_reservation_result ok rid c msg = Inr r \<Longrightarrow>
     reservation_success r \<longleftrightarrow> result_reservation_id r \<noteq> None"
  by (auto simp: make_reservation_result_def split: option.splits if_splits)

text \<open>\<open>normalize_provider_id\<close>: strip, and refuse an empty identifier.\<close>

definition normalize_provider_id :: "string option \<Rightarrow> exn + string option" where
  "normalize_provider_id value =
     (case value of
        None \<Rightarrow> Inr None
      | Some v \<Rightarrow>
          if py_strip v = [] then Inl (ValueError ''Provider ID must be a non-empty string'')
          else Inr (Some (py_strip v)))"

lemma normalize_provider_id_idem:
  "normalize_provider_id v = Inr w \<Longrightarrow> normalize_provider_id w = Inr w"
  by (auto simp: normalize_provider_id_def split: option.splits if_splits)

section \<open>Identities\<close>

datatype document_type = InternalPassport | InternationalPassport | BirthCertificate

record document =
  document_id :: uuid
  document_type :: document_type
  document_number :: string
  document_expires_at :: "int option"

record train_preferences =
  prefers_lower_berth :: "bool option"
  prefers_avoid_toilet :: "bool option"
  prefer_same_compartment :: "bool option"

datatype notification_channel = Webhook | Email | Telegram

record notification_preferences =
  notifications_enabled :: bool
  channels :: "notification_channel list"
  external_recipient_id :: "string option"

record preferences =
  train_prefs :: train_preferences
  notification_prefs :: notification_preferences

record identity =
  identity_id :: uuid
  identity_version :: int
  display_name :: string
  first_name :: string
  last_name :: string
  birth_date :: int
  documents :: "document list"
  identity_preferences :: preferences

record identity_summary =
  summary_identity_id :: uuid
  summary_display_name :: string

definition identity_summary_of :: "identity \<Rightarrow> identity_summary" where
  "identity_summary_of i =
     \<lparr>summary_identity_id = identity_id i, summary_display_name = display_name i\<rparr>"

definition normalize_external_recipient_id :: "string option \<Rightarrow> exn + string option" where
  "normalize_external_recipient_id value =
     (case value of
        None \<Rightarrow> Inr None
      | Some v \<Rightarrow> if py_strip v = [] then Inl ValidationError else Inr (Some (py_strip v)))"

section \<open>Execution events\<close>

record execution_event =
  event_id :: uuid
  correlation_id :: uuid
  causation_id :: "uuid option"
  event_sequence :: int
  event_timestamp :: datetime
  event_type :: string
  event_message :: string
  event_metadata :: metadata

text \<open>The loop of \<open>validate_event_sequence\<close>, with the previous sequence number and the
  identifiers seen so far; the result is the last sequence number.\<close>

fun check_events :: "int \<Rightarrow> uuid list \<Rightarrow> execution_event list \<Rightarrow> exn + int" where
  "check_events previous seen [] = Inr previous"
| "check_events previous seen (e # es) =
     (if event_sequence e \<le> previous then Inl InvalidMissionEventSequenceError
      else if event_id e = 0 then Inl InvalidMissionEventIdError
      else if event_id e \<in> set seen then Inl InvalidMissionEventIdError
      else if correlation_id e = 0 then Inl InvalidMissionEventIdError
      else (case causation_id e of
          Some c \<Rightarrow>
            if c = 0 \<or> c = event_id e then Inl InvalidMissionEventIdError
            else check_events (event_sequence e) (event_id e # seen) es
        | None \<Rightarrow> check_events (event_sequence e) (event_id e # seen) es))"

definition validate_event_sequence :: "execution_event list \<Rightarrow> int \<Rightarrow> exn + unit" where
  "validate_event_sequence events last_seq =
     (case check_events 0 [] events of
        Inl e \<Rightarrow> Inl e
      | Inr previous \<Rightarrow>
          if last_seq \<noteq> previous then Inl InvalidMissionEventSequenceError else Inr ())"

section \<open>Missions\<close>

record train_constraints =
  from_city :: string
  to_city :: string
  travel_date :: int
  passengers_count :: int
  must_be_same_compartment :: "bool option"
  min_lower_berths :: "int option"
  max_total_price :: "int option"
  avoid_toilet :: "bool option"

record fallback_rules =
  allow_adjacent_compartments :: "bool option"
  allow_any_coupe_seats :: "bool option"
  notify_only_if_no_match :: "bool option"

record train_payload =
  origin :: string
  destination :: string
  departure_date :: int

text \<open>\<open>TrainTicketMissionPayload\<close>: \<open>normalize_city\<close> on both cities and
  \<open>validate_distinct_cities\<close>.\<close>

definition make_train_payload :: "string \<Rightarrow> string \<Rightarrow> int \<Rightarrow> exn + train_payload" where
  "make_train_payload org dst day =
     (if length org > 200 \<or> length dst > 200 then Inl ValidationError
      else if py_strip org = [] \<or> py_strip dst = [] then Inl ValidationError
      else if casefold (py_strip org) = casefold (py_strip dst) then Inl ValidationError
      else Inr \<lparr>origin = py_strip org, destination = py_strip dst, departure_date = day\<rparr>)"

record mission =
  mission_id :: uuid
  legacy_type :: mission_type
  mission_type :: mission_type
  payload :: "train_payload option"
  title :: string
  status :: mission_status
  participant_ids :: "uuid list"
  provider :: string
  execution_mode :: execution_mode
  provider_id :: "string option"
  resolved_provider_id :: "string option"
  reservation_id :: "string option"
  constraints :: train_constraints
  fallback_rules :: fallback_rules
  scheduled_at :: "time option"
  expires_at :: "time option"
  claimed_at :: "time option"
  execution_attempts :: int
  max_execution_attempts :: int
  last_event_sequence :: int
  execution_log :: "execution_event list"
  best_option :: "provider_option option"
  persisted_last_event_sequence :: int

definition has_exhausted_attempts :: "mission \<Rightarrow> bool" where
  "has_exhausted_attempts m \<longleftrightarrow> execution_attempts m \<ge> max_execution_attempts m"

definition can_change_provider_selection :: "mission \<Rightarrow> bool" where
  "can_change_provider_selection m \<longleftrightarrow> status m \<in> {Created, Waiting, Paused}"

text \<open>\<open>validate_datetime_timezone\<close>: the stored timestamps are aware.\<close>

definition validate_datetime_timezone :: "datetime option \<Rightarrow> exn + time option" where
  "validate_datetime_timezone value =
     (case value of
        None \<Rightarrow> Inr None
      | Some (Aware t) \<Rightarrow> Inr (Some t)
      | Some (Naive t) \<Rightarrow> Inl ValidationError)"

definition validate_reservation_id :: "string option \<Rightarrow> exn + string option" where
  "validate_reservation_id value =
     (case value of
        None \<Rightarrow> Inr None
      | Some v \<Rightarrow>
          if length v > 255 \<or> py_strip v = [] then Inl ValidationError else Inr (Some (py_strip v)))"

text \<open>The checks of \<open>validate_claimed_at_for_status\<close> that relate fields.\<close>

definition mission_fields_ok :: "mission \<Rightarrow> bool" where
  "mission_fields_ok m \<longleftrightarrow>
     execution_attempts m \<le> max_execution_attempts m
     \<and> validate_event_sequence (execution_log m) (last_event_sequence m) = Inr ()
     \<and> (status m = Processing \<longleftrightarrow> claimed_at m \<noteq> None)
     \<and> (case (scheduled_at m, expires_at m) of
          (Some s, Some e) \<Rightarrow> s \<le> e
        | _ \<Rightarrow> True)"

text \<open>The field bounds declared with \<open>Field(...)\<close>.\<close>

definition mission_bounds_ok :: "mission \<Rightarrow> bool" where
  "mission_bounds_ok m \<longleftrightarrow>
     participant_ids m \<noteq> [] \<and> provider m \<noteq> [] \<and> 0 \<le> execution_attempts m
     \<and> 1 \<le> max_execution_attempts m \<and> max_execution_attempts m \<le> 100
     \<and> 0 \<le> last_event_sequence m \<and> 1 \<le> passengers_count (constraints m)"

text \<open>\<open>Mission(...)\<close>: the three timestamps come as \<open>datetime\<close> values and the other
  arguments as the record \<open>raw\<close>, whose own timestamps are not looked at.\<close>

definition make_mission :: "mission \<Rightarrow> datetime option \<Rightarrow> datetime option \<Rightarrow> datetime option \<Rightarrow> exn + mission" where
  "make_mission raw scheduled expires claimed =
     (case (validate_datetime_timezone scheduled, validate_datetime_timezone expires,
            validate_datetime_timezone claimed, normalize_provider_id (provider_id raw),
            normalize_provider_id (resolved_provider_id raw),
            validate_reservation_id (reservation_id raw)) of
        (Inr sch, Inr ex, Inr cl, Inr pid, Inr rpid, Inr rid) \<Rightarrow>
          (case (case payload raw of
                   Some p \<Rightarrow> Inr p
                 | None \<Rightarrow> make_train_payload (from_city (constraints raw))
                     (to_city (constraints raw)) (travel_date (constraints raw))) of
             Inl e \<Rightarrow> Inl ValidationError
           | Inr p \<Rightarrow>
               (let m = raw\<lparr>payload := Some p, scheduled_at := sch, expires_at := ex,
                     claimed_at := cl, provider_id := pid, resolved_provider_id := rpid,
                     reservation_id := rid,
                     persisted_last_event_sequence := last_event_sequence raw\<rparr>
                in if mission_bounds_ok m \<and> mission_fields_ok m then Inr m
                   else Inl ValidationError))
      | _ \<Rightarrow> Inl ValidationError)"

text \<open>\<open>Mission.record_event\<close>: the new identifier is what the factory returned.\<close>

definition last_event :: "mission \<Rightarrow> execution_event option" where
  "last_event m = (if execution_log m = [] then None else Some (last (execution_log m)))"

definition record_event ::
  "uuid \<Rightarrow> datetime \<Rightarrow> string \<Rightarrow> string \<Rightarrow> metadata \<Rightarrow> mission \<Rightarrow> exn + mission" where
  "record_event new_id timestamp etype message meta m =
     (if new_id = 0 then Inl (ValueError ''Mission event ID must not be nil'')
      else if \<exists>e \<in> set (execution_log m). event_id e = new_id
      then Inl (ValueError ''Mission event ID must be unique'')
      else if last_event_sequence m + 1 < 1 then Inl ValidationError
      else
        (let ev = \<lparr>event_id = new_id,
               correlation_id = (case last_event m of Some p \<Rightarrow> correlation_id p | None \<Rightarrow> new_id),
               causation_id = (case last_event m of Some p \<Rightarrow> Some (event_id p) | None \<Rightarrow> None),
               event_sequence = last_event_sequence m + 1, event_timestamp = timestamp,
               event_type = etype, event_message = message, event_metadata = meta\<rparr>
         in Inr (m\<lparr>execution_log := execution_log m @ [ev],
                   last_event_sequence := event_sequence ev\<rparr>)))"

definition mark_event_sequence_persisted :: "mission \<Rightarrow> mission" where
  "mark_event_sequence_persisted m = m\<lparr>persisted_last_event_sequence := last_event_sequence m\<rparr>"

text \<open>\<open>Mission.with_provider_selection\<close>. The result pairs the mission with whether it is
  the same object (no copy was made).\<close>

definition with_provider_selection :: "mission \<Rightarrow> string option \<Rightarrow> exn + (mission \<times> bool)" where
  "with_provider_selection m pid =
     (case normalize_provider_id pid of
        Inl e \<Rightarrow> Inl e
      | Inr npid \<Rightarrow>
          if npid = provider_id m then Inr (m, True)
          else Inr (m\<lparr>provider_id := npid, resolved_provider_id := None, reservation_id := None\<rparr>,
                    False))"

record mission_summary =
  summary_id :: uuid
  summary_type :: mission_type
  summary_title :: string
  summary_status :: mission_status
  summary_execution_mode :: execution_mode
  summary_provider_id :: "string option"
  summary_resolved_provider_id :: "string option"
  summary_scheduled_at :: "time option"
  summary_expires_at :: "time option"
  summary_execution_attempts :: int
  summary_max_execution_attempts :: int
  summary_last_event_sequence :: int
  summary_participant_count :: int

definition mission_summary_of :: "mission \<Rightarrow> mission_summary" where
  "mission_summary_of m =
     \<lparr>summary_id = mission_id m, summary_type = legacy_type m, summary_title = title m,
      summary_status = status m, summary_execution_mode = execution_mode m,
      summary_provider_id = provider_id m, summary_resolved_provider_id = resolved_provider_id m,
      summary_scheduled_at = scheduled_at m, summary_expires_at = expires_at m,
      summary_execution_attempts = execution_attempts m,
      summary_max_execution_attempts = max_execution_attempts m,
      summary_last_event_sequence = last_event_sequence m,
      summary_participant_count = int (length (participant_ids m))\<rparr>"

section \<open>Execution attempts\<close>

datatype attempt_status =
  AttemptProcessing | AttemptRequiresConfirmation | AttemptCompleted | AttemptFailed | AttemptRecovered

record attempt =
  attempt_id :: uuid
  attempt_mission_id :: uuid
  attempt_number :: int
  attempt_status :: attempt_status
  attempt_claimed_at :: datetime
  attempt_finished_at :: "datetime option"
  attempt_resolved_provider_id :: "string option"
  attempt_reservation_id :: "string option"

text \<open>\<open>MissionExecutionAttempt(...)\<close> with \<open>validate_lifecycle\<close> and the two
  normalisations.\<close>

definition make_attempt :: "attempt \<Rightarrow> exn + attempt" where
  "make_attempt a =
     (if attempt_number a < 1 then Inl ValidationError
      else if \<not> is_aware (attempt_claimed_at a) then Inl ValidationError
      else if (case attempt_finished_at a of None \<Rightarrow> False | Some t \<Rightarrow> \<not> is_aware t)
      then Inl ValidationError
      else if attempt_status a = AttemptProcessing \<and> attempt_finished_at a \<noteq> None
      then Inl ValidationError
      else if attempt_status a \<noteq> AttemptProcessing \<and> attempt_finished_at a = None
      then Inl ValidationError
      else (case (normalize_provider_id (attempt_resolved_provider_id a),
                  validate_reservation_id (attempt_reservation_id a)) of
          (Inr p, Inr r) \<Rightarrow> Inr (a\<lparr>attempt_resolved_provider_id := p, attempt_reservation_id := r\<rparr>)
        | _ \<Rightarrow> Inl ValidationError))"

end
