(* ===== verification/EventLog.thy ===== *)
theory EventLog
  imports Domain
begin

text \<open>
  The event log of a mission (\<open>app/domain/execution.py\<close> and \<open>Mission.record_event\<close>):
  what \<open>validate_event_sequence\<close> accepts, stated without the loop, and the invariants that
  recording an event keeps: the log stays valid, its sequence numbers have no gaps, and every
  event is caused by the one before it within one correlation.
\<close>

text \<open>What one event must satisfy on its own.\<close>

definition event_ok :: "execution_event \<Rightarrow> bool" where
  "event_ok e \<longleftrightarrow> event_id e \<noteq> 0 \<and> correlation_id e \<noteq> 0
     \<and> causation_id e \<noteq> Some 0 \<and> causation_id e \<noteq> Some (event_id e)"

definition log_spec :: "int \<Rightarrow> uuid list \<Rightarrow> execution_event list \<Rightarrow> bool" where
  "log_spec previous seen es \<longleftrightarrow>
     sorted_wrt (<) (previous # map event_sequence es)
     \<and> distinct (map event_id es) \<and> set (map event_id es) \<inter> set seen = {}
     \<and> (\<forall>e \<in> set es. event_ok e)"

lemma check_events_iff:
  "check_events previous seen es = Inr n \<longleftrightarrow>
     log_spec previous seen es \<and> n = last (previous # map event_sequence es)"
proof (induction previous seen es rule: check_events.induct)
  case (1 previous seen)
  then show ?case by (auto simp: log_spec_def)
next
  case (2 previous seen e es)
  have step: "log_spec previous seen (e # es) \<longleftrightarrow>
      previous < event_sequence e \<and> event_id e \<notin> set seen \<and> event_ok e
      \<and> log_spec (event_sequence e) (event_id e # seen) es"
    by (auto simp: log_spec_def)
  show ?case
    using 2 unfolding step
    by (auto simp: event_ok_def split: option.splits)
qed

lemma log_spec_snoc:
  "log_spec previous seen (es @ [e]) \<longleftrightarrow>
     log_spec previous seen es \<and> last (previous # map event_sequence es) < event_sequence e
     \<and> event_id e \<notin> set (map event_id es) \<and> event_id e \<notin> set seen \<and> event_ok e"
proof -
  have "sorted_wrt (<) (xs @ [y]) \<longleftrightarrow> sorted_wrt (<) xs \<and> (xs \<noteq> [] \<longrightarrow> last xs < y)"
    for xs and y :: int
  proof (cases "xs = []")
    case False
    have "sorted_wrt (<) xs \<Longrightarrow> z \<in> set xs \<Longrightarrow> z \<le> last xs" for z
      by (induction xs) (auto split: if_splits intro: less_imp_le)
    with False show ?thesis by (fastforce simp: sorted_wrt_append)
  qed simp
  from this [of "previous # map event_sequence es" "event_sequence e"]
  show ?thesis by (auto simp: log_spec_def)
qed

lemma validate_iff_check: "validate_event_sequence es n = Inr () \<longleftrightarrow> check_events 0 [] es = Inr n"
  by (auto simp: validate_event_sequence_def split: sum.splits)

definition log_valid :: "mission \<Rightarrow> bool" where
  "log_valid m \<longleftrightarrow> validate_event_sequence (execution_log m) (last_event_sequence m) = Inr ()"

lemma log_valid_iff:
  "log_valid m \<longleftrightarrow> log_spec 0 [] (execution_log m)
     \<and> last_event_sequence m = last (0 # map event_sequence (execution_log m))"
  unfolding log_valid_def validate_iff_check check_events_iff by (rule refl)

lemma log_valid_nonneg: "log_valid m \<Longrightarrow> 0 \<le> last_event_sequence m"
  unfolding log_valid_iff log_spec_def
  by (cases "execution_log m" rule: rev_cases) (auto simp: sorted_wrt_append less_imp_le)

lemma log_valid_event: "log_valid m \<Longrightarrow> e \<in> set (execution_log m) \<Longrightarrow> event_ok e"
  by (auto simp: log_valid_iff log_spec_def)

lemma record_event_cases:
  assumes "record_event i t ty msg meta m = Inr m'"
  obtains ev where "execution_log m' = execution_log m @ [ev]"
    and "m' = m\<lparr>execution_log := execution_log m @ [ev], last_event_sequence := last_event_sequence m + 1\<rparr>"
    and "event_id ev = i" and "event_type ev = ty" and "event_timestamp ev = t"
    and "event_sequence ev = last_event_sequence m + 1" and "event_metadata ev = meta"
    and "correlation_id ev = (case last_event m of Some p \<Rightarrow> correlation_id p | None \<Rightarrow> i)"
    and "causation_id ev = map_option event_id (last_event m)"
    and "i \<noteq> 0" and "i \<notin> event_id ` set (execution_log m)"
proof -
  let ?ev = "\<lparr>event_id = i,
     correlation_id = (case last_event m of Some p \<Rightarrow> correlation_id p | None \<Rightarrow> i),
     causation_id = (case last_event m of Some p \<Rightarrow> Some (event_id p) | None \<Rightarrow> None),
     event_sequence = last_event_sequence m + 1, event_timestamp = t,
     event_type = ty, event_message = msg, event_metadata = meta\<rparr>"
  have "m' = m\<lparr>execution_log := execution_log m @ [?ev], last_event_sequence := last_event_sequence m + 1\<rparr>"
    and "i \<noteq> 0" and "i \<notin> event_id ` set (execution_log m)"
    using assms by (auto simp: record_event_def Let_def split: if_splits)
  then show ?thesis
    by (intro that [of ?ev]) (simp_all split: option.split)
qed

text \<open>Recording succeeds with every fresh identifier.\<close>

lemma record_event_succeeds:
  "log_valid m \<Longrightarrow> i \<noteq> 0 \<Longrightarrow> i \<notin> event_id ` set (execution_log m) \<Longrightarrow>
     \<exists>m'. record_event i t ty msg meta m = Inr m'"
  using log_valid_nonneg [of m] by (auto simp: record_event_def Let_def)

lemma record_event_log_valid:
  assumes "log_valid m" and "record_event i t ty msg meta m = Inr m'"
  shows "log_valid m'"
proof -
  from assms(2) obtain ev where m': "m' = m\<lparr>execution_log := execution_log m @ [ev],
        last_event_sequence := last_event_sequence m + 1\<rparr>"
    and ev: "event_id ev = i" "event_sequence ev = last_event_sequence m + 1"
      "correlation_id ev = (case last_event m of Some p \<Rightarrow> correlation_id p | None \<Rightarrow> i)"
      "causation_id ev = map_option event_id (last_event m)"
    and i: "i \<noteq> 0" "i \<notin> event_id ` set (execution_log m)"
    by (rule record_event_cases)
  have last: "event_id p \<noteq> i \<and> event_ok p" if "last_event m = Some p" for p
    using that i log_valid_event [OF assms(1), of p]
    by (auto simp: last_event_def split: if_splits)
  have "event_ok ev"
    using ev(1,3,4) i(1) last
    by (cases "last_event m") (auto simp: event_ok_def)
  then show ?thesis
    using assms(1) ev i unfolding m' log_valid_iff
    by (auto simp: log_spec_snoc)
qed

text \<open>A log without gaps whose events form one causal chain: event \<open>k\<close> carries sequence
  number \<open>k + 1\<close>, the first event starts the correlation, and each later event is caused by
  its predecessor.\<close>

definition chained :: "execution_event list \<Rightarrow> bool" where
  "chained es \<longleftrightarrow>
     (\<forall>k < length es.
        event_sequence (es ! k) = int k + 1
        \<and> correlation_id (es ! k) = event_id (es ! 0)
        \<and> causation_id (es ! k) = (if k = 0 then None else Some (event_id (es ! (k - 1)))))"

lemma all_less_Suc_snoc: "(\<forall>k < Suc n. P k) \<longleftrightarrow> (\<forall>k < n. P k) \<and> P n"
  by (auto simp: less_Suc_eq)

lemma chained_snoc:
  "chained (es @ [e]) \<longleftrightarrow> chained es
     \<and> event_sequence e = int (length es) + 1
     \<and> correlation_id e = event_id ((es @ [e]) ! 0)
     \<and> causation_id e = (if es = [] then None else Some (event_id (last es)))"
proof -
  have "chained (es @ [e]) \<longleftrightarrow>
      (\<forall>k < length es. event_sequence (es ! k) = int k + 1
        \<and> correlation_id (es ! k) = event_id ((es @ [e]) ! 0)
        \<and> causation_id (es ! k) = (if k = 0 then None else Some (event_id (es ! (k - 1)))))
      \<and> event_sequence e = int (length es) + 1
      \<and> correlation_id e = event_id ((es @ [e]) ! 0)
      \<and> causation_id e = (if es = [] then None else Some (event_id (es ! (length es - 1))))"
    unfolding chained_def length_append list.size One_nat_def add_Suc_right add_0_right all_less_Suc_snoc
    by (auto simp: nth_append)
  then show ?thesis
    by (cases "es = []") (simp_all add: chained_def nth_append last_conv_nth)
qed

definition log_chained :: "mission \<Rightarrow> bool" where
  "log_chained m \<longleftrightarrow> chained (execution_log m) \<and> last_event_sequence m = int (length (execution_log m))"

lemma record_event_chained:
  assumes "log_chained m" and "record_event i t ty msg meta m = Inr m'"
  shows "log_chained m'"
proof -
  from assms(2) obtain ev where m': "m' = m\<lparr>execution_log := execution_log m @ [ev],
        last_event_sequence := last_event_sequence m + 1\<rparr>"
    and ev: "event_id ev = i" "event_sequence ev = last_event_sequence m + 1"
      "correlation_id ev = (case last_event m of Some p \<Rightarrow> correlation_id p | None \<Rightarrow> i)"
      "causation_id ev = map_option event_id (last_event m)"
    by (rule record_event_cases)
  have "execution_log m \<noteq> [] \<Longrightarrow>
      correlation_id (last (execution_log m)) = event_id (execution_log m ! 0)"
    using assms(1) by (simp add: log_chained_def chained_def last_conv_nth)
  then show ?thesis
    using assms(1) ev unfolding m' log_chained_def
    by (auto simp: chained_snoc last_event_def nth_append)
qed

text \<open>Everything but the log is untouched.\<close>

lemma record_event_frame:
  assumes "record_event i t ty msg meta m = Inr m'"
  shows "status m' = status m" "mission_id m' = mission_id m" "claimed_at m' = claimed_at m"
    "scheduled_at m' = scheduled_at m" "expires_at m' = expires_at m"
    "execution_attempts m' = execution_attempts m"
    "max_execution_attempts m' = max_execution_attempts m"
    "provider_id m' = provider_id m" "resolved_provider_id m' = resolved_provider_id m"
    "reservation_id m' = reservation_id m" "best_option m' = best_option m"
    "execution_mode m' = execution_mode m" "participant_ids m' = participant_ids m"
    "constraints m' = constraints m" "fallback_rules m' = fallback_rules m"
    "payload m' = payload m" "mission_type m' = mission_type m" "provider m' = provider m"
    "last_event_sequence m' = last_event_sequence m + 1" "title m' = title m"
  using assms by (auto simp: record_event_def Let_def split: if_splits)

text \<open>The loop of validate_event_sequence accepts exactly the logs whose sequence numbers
  are positive, strictly increasing and end in last_event_sequence, whose event identifiers are
  distinct and not nil, and whose correlation and causation identifiers are well formed.\<close>

theorem validate_event_sequence_spec:
  "validate_event_sequence es n = Inr () \<longleftrightarrow>
     sorted_wrt (<) (0 # map event_sequence es) \<and> distinct (map event_id es)
     \<and> list_all (\<lambda>e. event_id e \<noteq> 0 \<and> correlation_id e \<noteq> 0
          \<and> causation_id e \<noteq> Some 0 \<and> causation_id e \<noteq> Some (event_id e)) es
     \<and> n = last (0 # map event_sequence es)"
  unfolding validate_iff_check check_events_iff log_spec_def event_ok_def list_all_iff by simp

text \<open>Recording an event on a mission whose log is valid and gap-free succeeds for every
  fresh non-nil identifier, and the new log is again valid, gap-free and one causal chain.\<close>

theorem record_event_preserves_log:
  assumes "log_valid m" and "log_chained m" and "i \<noteq> 0" and "i \<notin> event_id ` set (execution_log m)"
  shows "\<exists>m'. record_event i t ty msg meta m = Inr m' \<and> log_valid m' \<and> log_chained m'
     \<and> last_event_sequence m' = last_event_sequence m + 1"
proof -
  obtain m' where m': "record_event i t ty msg meta m = Inr m'"
    using record_event_succeeds [OF assms(1,3,4)] by blast
  have "log_valid m'" by (rule record_event_log_valid [OF assms(1) m'])
  moreover have "log_chained m'" by (rule record_event_chained [OF assms(2) m'])
  moreover have "last_event_sequence m' = last_event_sequence m + 1"
    by (rule record_event_frame(19) [OF m'])
  ultimately show ?thesis using m' by blast
qed

definition sample_constraints :: train_constraints where
  "sample_constraints = \<lparr>from_city = ''Oslo'', to_city = ''Bergen'', travel_date = 739000,
     passengers_count = 4, must_be_same_compartment = Some True, min_lower_berths = Some 2,
     max_total_price = Some 30000, avoid_toilet = Some True\<rparr>"

definition sample_rules :: fallback_rules where
  "sample_rules = \<lparr>allow_adjacent_compartments = None, allow_any_coupe_seats = None,
     notify_only_if_no_match = None\<rparr>"

text \<open>A concrete mission the witnesses of the development use.\<close>

definition sample_mission :: "mission_status \<Rightarrow> mission" where
  "sample_mission st = \<lparr>mission_id = 7, legacy_type = TrainTicket, mission_type = TrainTicket,
     payload = Some \<lparr>origin = ''Oslo'', destination = ''Bergen'', departure_date = 739000\<rparr>,
     title = ''trip'', status = st, participant_ids = [3], provider = ''mock'',
     execution_mode = RequireConfirmation, provider_id = None, resolved_provider_id = None,
     reservation_id = None, constraints = sample_constraints, fallback_rules = sample_rules,
     scheduled_at = None, expires_at = None,
     claimed_at = (if st = Processing then Some 0 else None), execution_attempts = 0,
     max_execution_attempts = 3, last_event_sequence = 0, execution_log = [], best_option = None,
     persisted_last_event_sequence = 0\<rparr>"

lemma sample_fields [simp]:
  "execution_log (sample_mission st) = []" "last_event_sequence (sample_mission st) = 0"
  "status (sample_mission st) = st" "mission_id (sample_mission st) = 7"
  "execution_attempts (sample_mission st) = 0" "max_execution_attempts (sample_mission st) = 3"
  "scheduled_at (sample_mission st) = None" "expires_at (sample_mission st) = None"
  "claimed_at (sample_mission st) = (if st = Processing then Some 0 else None)"
  by (simp_all add: sample_mission_def)

lemma sample_log [simp]: "log_valid (sample_mission st)" "log_chained (sample_mission st)"
  by (simp_all add: log_valid_def validate_event_sequence_def log_chained_def chained_def)

theorem record_event_preserves_log_witness:
  "\<exists>m'. record_event 5 (Aware 0) ''mission_started'' ''m'' [] (sample_mission Created) = Inr m'
     \<and> log_valid m' \<and> log_chained m'
     \<and> last_event_sequence m' = last_event_sequence (sample_mission Created) + 1"
  by (rule record_event_preserves_log) simp_all

end
