(* ===== verification/StateMachine.thy ===== *)
theory StateMachine
  imports EventLog
begin

text \<open>
  The status machine of a mission (\<open>app/services/mission_state_machine.py\<close>) and the outcome
  view built on it (\<open>mission_outcome.py\<close>): the transition table, the guarded transition, the
  retry of a failed and the recovery of a stale mission. The table is also read as a step
  relation, whose forward part is shown to make progress.
\<close>

section \<open>The machine\<close>

fun allowed_transitions :: "mission_status \<Rightarrow> mission_status list" where
  "allowed_transitions Created = [Waiting, Paused, Running, Cancelled, Expired]"
| "allowed_transitions Waiting = [Created, Paused, Processing, Running, Cancelled, Expired]"
| "allowed_transitions Paused = [Created, Waiting, Cancelled, Expired]"
| "allowed_transitions Processing = [RequiresConfirmation, Completed, Failed]"
| "allowed_transitions Running = [Searching, Failed]"
| "allowed_transitions Searching = [OptionFound, Failed]"
| "allowed_transitions OptionFound = [Reserving, Completed, Failed]"
| "allowed_transitions Reserving = [RequiresConfirmation, Completed, Failed]"
| "allowed_transitions RequiresConfirmation = [Completed, Failed, Cancelled]"
| "allowed_transitions Completed = []"
| "allowed_transitions Failed = []"
| "allowed_transitions Cancelled = []"
| "allowed_transitions Expired = []"

definition can_transition :: "mission_status \<Rightarrow> mission_status \<Rightarrow> bool \<Rightarrow> bool \<Rightarrow> bool" where
  "can_transition current target recovery retry =
     (if current = Processing \<and> target = Waiting then recovery
      else if current = Failed \<and> target = Waiting then retry
      else target \<in> set (allowed_transitions current))"

fun require_aware_current_time :: "datetime option \<Rightarrow> exn + unit" where
  "require_aware_current_time None =
     Inl (InvalidMissionTransitionError ''current_time is required for processing transition'')"
| "require_aware_current_time (Some (Naive t)) =
     Inl (InvalidMissionTransitionError ''current_time must be timezone-aware'')"
| "require_aware_current_time (Some (Aware t)) = Inr ()"

definition invalid_transition :: "mission_status \<Rightarrow> mission_status \<Rightarrow> exn" where
  "invalid_transition current target =
     InvalidMissionTransitionError
       (''Invalid mission status transition: '' @ status_value current @ '' -> '' @ status_value target)"

definition transition ::
  "mission \<Rightarrow> mission_status \<Rightarrow> datetime option \<Rightarrow> bool \<Rightarrow> bool \<Rightarrow> exn + mission" where
  "transition m target current_time recovery retry =
     (let current = status m in
      if \<not> can_transition current target recovery retry
      then Inl (invalid_transition current target)
      else
        (case (if (current = Waiting \<and> target = Processing) \<or> recovery \<or> retry
               then require_aware_current_time current_time else Inr ()) of
           Inl e \<Rightarrow> Inl e
         | Inr _ \<Rightarrow>
             Inr (m\<lparr>status := target,
                    claimed_at := (if current = Waiting \<and> target = Processing
                                   then map_option instant current_time else None)\<rparr>)))"

definition retry_failed :: "mission \<Rightarrow> datetime \<Rightarrow> exn + mission" where
  "retry_failed m current_time = transition m Waiting (Some current_time) False True"

text \<open>\<open>recover_stale\<close>; \<open>new_id\<close> is the identifier of the recorded event.\<close>

definition recover_stale :: "uuid \<Rightarrow> mission \<Rightarrow> datetime \<Rightarrow> exn + mission" where
  "recover_stale new_id m current_time =
     (let previous_claimed_at = claimed_at m;
          target = (if has_exhausted_attempts m then Failed else Waiting)
      in case transition m target (Some current_time) True False of
           Inl e \<Rightarrow> Inl e
         | Inr m' \<Rightarrow>
             record_event new_id current_time ''claim_recovered''
               (if target = Failed
                then ''Mission failed after a stale claim because execution attempts are exhausted.''
                else ''Mission recovered after a stale claim.'')
               [(''previous_claimed_at'', json_of_option (\<lambda>t. JTime (Aware t)) previous_claimed_at),
                (''attempts_exhausted'', JBool (target = Failed))]
               m')"

section \<open>The outcome view\<close>

datatype mission_next_action = ActRun | ActWait | ActResume | ActConfirm | ActRetry | ActNone

definition next_action :: "mission \<Rightarrow> mission_next_action" where
  "next_action m =
     (if status m = Created then ActRun
      else if status m = Paused then ActResume
      else if status m = RequiresConfirmation then ActConfirm
      else if status m = Failed \<and> \<not> has_exhausted_attempts m then ActRetry
      else if status m \<in> {Waiting, Processing, Running, Searching, OptionFound, Reserving}
      then ActWait else ActNone)"

record mission_outcome =
  outcome_status :: mission_status
  terminal :: bool
  successful :: bool
  outcome_next_action :: mission_next_action
  selected_option :: "provider_option option"
  outcome_reservation_id :: "string option"

definition terminal_statuses :: "mission_status list" where
  "terminal_statuses = [Completed, Cancelled, Expired]"

definition get_mission_outcome :: "mission \<Rightarrow> mission_outcome" where
  "get_mission_outcome m =
     \<lparr>outcome_status = status m,
      terminal = (status m \<in> set terminal_statuses
                  \<or> (status m = Failed \<and> has_exhausted_attempts m)),
      successful = (status m = Completed),
      outcome_next_action = next_action m,
      selected_option = best_option m,
      outcome_reservation_id = reservation_id m\<rparr>"

section \<open>Facts on transitions\<close>

lemmas transition_defs = transition_def can_transition_def Let_def

lemma require_aware_iff: "require_aware_current_time t = Inr u \<longleftrightarrow> (\<exists>x. t = Some (Aware x))"
  by (cases t rule: require_aware_current_time.cases) auto

lemma transition_Inr:
  "transition m target t recovery retry = Inr m' \<longleftrightarrow>
     can_transition (status m) target recovery retry
     \<and> (status m = Waiting \<and> target = Processing \<or> recovery \<or> retry \<longrightarrow> (\<exists>x. t = Some (Aware x)))
     \<and> m' = m\<lparr>status := target, claimed_at := (if status m = Waiting \<and> target = Processing
            then map_option instant t else None)\<rparr>"
proof -
  have gate: "(case (if c then require_aware_current_time t else Inr ()) of
        Inl e \<Rightarrow> Inl e | Inr _ \<Rightarrow> Inr x) = Inr m' \<longleftrightarrow> (c \<longrightarrow> (\<exists>y. t = Some (Aware y))) \<and> m' = x"
    for c and x :: mission
    by (cases c; cases t rule: require_aware_current_time.cases) auto
  show ?thesis
    unfolding transition_def Let_def
    by (cases "can_transition (status m) target recovery retry")
      (simp_all only: gate not_True_eq_False not_False_eq_True if_True if_False simp_thms sum.distinct)
qed

lemma transition_result:
  assumes "transition m target t recovery retry = Inr m'"
  shows "can_transition (status m) target recovery retry"
    and "m' = m\<lparr>status := target, claimed_at := (if status m = Waiting \<and> target = Processing
            then map_option instant t else None)\<rparr>"
    and "status m = Waiting \<Longrightarrow> target = Processing \<Longrightarrow> \<exists>x. t = Some (Aware x)"
proof -
  note r = assms [unfolded transition_Inr]
  show "can_transition (status m) target recovery retry" by (rule conjunct1 [OF r])
  show "m' = m\<lparr>status := target, claimed_at := (if status m = Waiting \<and> target = Processing
            then map_option instant t else None)\<rparr>"
    by (rule conjunct2 [OF conjunct2 [OF r]])
  show "\<exists>x. t = Some (Aware x)" if "status m = Waiting" "target = Processing"
    using conjunct1 [OF conjunct2 [OF r]] that by simp
qed

lemma transition_succeeds:
  "can_transition (status m) target False False \<Longrightarrow> \<not> (status m = Waiting \<and> target = Processing) \<Longrightarrow>
     transition m target t False False = Inr (m\<lparr>status := target, claimed_at := None\<rparr>)"
  by (cases "status m = Waiting"; cases "target = Processing") (simp_all add: transition_Inr)

lemma transition_frame:
  assumes "transition m target t recovery retry = Inr m'"
  shows "execution_log m' = execution_log m" "last_event_sequence m' = last_event_sequence m"
    "status m' = target" "mission_id m' = mission_id m"
    "execution_attempts m' = execution_attempts m"
    "max_execution_attempts m' = max_execution_attempts m"
    "scheduled_at m' = scheduled_at m" "expires_at m' = expires_at m"
    "log_valid m' = log_valid m" "log_chained m' = log_chained m"
  using transition_result(2) [OF assms] by (simp_all add: log_valid_def log_chained_def)

lemma can_transition_Processing: "can_transition current Processing recovery retry \<longleftrightarrow> current = Waiting"
  by (cases current) (simp_all add: can_transition_def)

text \<open>A claim is held exactly while a mission is being processed.\<close>

definition claim_ok :: "mission \<Rightarrow> bool" where
  "claim_ok m \<longleftrightarrow> (status m = Processing \<longleftrightarrow> claimed_at m \<noteq> None)"

lemma transition_claim_ok_aux: "transition m target t recovery retry = Inr m' \<Longrightarrow> claim_ok m'"
  using transition_result [of m target t recovery retry m']
  by (auto simp: claim_ok_def can_transition_Processing split: if_splits)

text \<open>Every successful transition establishes the claim invariant whatever the mission
  looked like: claimed_at is set exactly when the new status is processing, which is entered
  only from waiting and with an aware current time.\<close>

theorem transition_establishes_claim:
  assumes "transition m target t recovery retry = Inr m'"
  shows "(status m' = Processing \<longleftrightarrow> claimed_at m' \<noteq> None)
     \<and> (status m' = Processing \<longrightarrow> status m = Waiting \<and> (\<exists>x. t = Some (Aware x) \<and> claimed_at m' = Some x))"
  using transition_claim_ok_aux [OF assms] transition_result [OF assms]
  by (auto simp: claim_ok_def can_transition_Processing)

theorem transition_establishes_claim_witness:
  "status (sample_mission Processing) = Processing
   \<and> (\<exists>m'. transition (sample_mission Waiting) Processing (Some (Aware 9)) False False = Inr m'
       \<and> ((status m' = Processing \<longleftrightarrow> claimed_at m' \<noteq> None)
         \<and> (status m' = Processing \<longrightarrow> status (sample_mission Waiting) = Waiting
              \<and> (\<exists>x. Some (Aware 9) = Some (Aware x) \<and> claimed_at m' = Some x))))"
proof -
  have "transition (sample_mission Waiting) Processing (Some (Aware 9)) False False
      = Inr ((sample_mission Waiting)\<lparr>status := Processing, claimed_at := Some 9\<rparr>)"
    by (simp add: transition_defs)
  from this transition_establishes_claim [OF this] show ?thesis by simp
qed

section \<open>The step relation of the table\<close>

text \<open>A status change is forward, a retry, or a recovery.\<close>

inductive status_step :: "mission_status \<Rightarrow> mission_status \<Rightarrow> bool" where
  forward: "t \<in> set (allowed_transitions s) \<Longrightarrow> status_step s t"
| retry: "status_step Failed Waiting"
| recovery: "status_step Processing Waiting"

inductive_cases status_step_CompletedE [elim!]: "status_step Completed t"
inductive_cases status_step_CancelledE [elim!]: "status_step Cancelled t"
inductive_cases status_step_ExpiredE [elim!]: "status_step Expired t"
inductive_cases status_step_FailedE [elim!]: "status_step Failed t"

inductive_simps status_step_iff: "status_step s t"

lemma status_step_can_transition: "status_step s t \<longleftrightarrow> (\<exists>recovery retry. can_transition s t recovery retry)"
  by (cases s; cases t) (auto simp: status_step_iff can_transition_def)

text \<open>Paths through the table.\<close>

inductive status_path :: "mission_status \<Rightarrow> mission_status list \<Rightarrow> mission_status \<Rightarrow> bool" where
  path_refl: "status_path s [] s"
| path_step: "status_step s t \<Longrightarrow> status_path t ts u \<Longrightarrow> status_path s (t # ts) u"

text \<open>Statuses from which nothing is left to do.\<close>

lemma terminal_no_step: "s \<in> {Completed, Cancelled, Expired} \<Longrightarrow> \<not> status_step s t"
  by auto

lemma path_from_terminal:
  "status_path s ts u \<Longrightarrow> s \<in> {Completed, Cancelled, Expired} \<Longrightarrow> ts = [] \<and> u = s"
  by (induction rule: status_path.induct) auto

text \<open>Completion has been prepared: the statuses that guard it.\<close>

lemma step_to_Completed:
  "status_step s Completed \<Longrightarrow> s \<in> {Processing, OptionFound, Reserving, RequiresConfirmation}"
  by (cases s) (auto simp: status_step_iff)

lemma step_into_execution:
  "status_step s t \<Longrightarrow> t \<in> {Processing, Running, Searching, OptionFound, Reserving, RequiresConfirmation, Completed} \<Longrightarrow>
     s \<in> {Created, Waiting} \<and> t \<in> {Processing, Running}
     \<or> s \<in> {Processing, Running, Searching, OptionFound, Reserving, RequiresConfirmation}"
  by (cases s; cases t) (auto simp: status_step_iff)

lemma path_to_Completed_aux:
  "status_path s ts u \<Longrightarrow> u = Completed \<Longrightarrow>
     s \<in> {Created, Waiting, Paused, Failed} \<Longrightarrow> Processing \<in> set ts \<or> Running \<in> set ts"
proof (induction rule: status_path.induct)
  case (path_step s t ts u)
  show ?case
  proof (cases "t \<in> {Created, Waiting, Paused, Failed}")
    case True
    then show ?thesis using path_step by auto
  next
    case False
    from path_step.hyps(1) path_step.prems(2) False
    have "t \<in> {Processing, Running, Cancelled, Expired}"
      by (cases t) (auto simp: status_step_iff)
    then show ?thesis
      using path_from_terminal [OF path_step.hyps(2)] path_step.prems(1) by auto
  qed
qed auto

text \<open>A mission that starts out created can reach completed only through an execution: every
  path of status changes (retries and recoveries included) from created to completed passes
  through processing or running, and completed itself is never left again.\<close>

theorem completion_needs_execution:
  assumes "status_path Created ts Completed"
  shows "(Processing \<in> set ts \<or> Running \<in> set ts)
     \<and> (\<forall>ts' u. status_path Completed ts' u \<longrightarrow> u = Completed \<and> ts' = [])"
  using path_to_Completed_aux [OF assms] path_from_terminal by blast

theorem completion_needs_execution_witness:
  "status_path Created [Waiting, Processing, Completed] Completed
   \<and> Processing \<in> set [Waiting, Processing, Completed]"
proof -
  have p: "status_path Created [Waiting, Processing, Completed] Completed"
    by (intro status_path.intros) (simp_all add: status_step_iff)
  from completion_needs_execution [OF p] p show ?thesis by simp
qed

text \<open>Progress of an execution: without retry and recovery every step leaves a higher rank.\<close>

fun execution_rank :: "mission_status \<Rightarrow> nat" where
  "execution_rank Created = 0"
| "execution_rank Waiting = 0"
| "execution_rank Paused = 0"
| "execution_rank Running = 1"
| "execution_rank Searching = 2"
| "execution_rank OptionFound = 3"
| "execution_rank Processing = 3"
| "execution_rank Reserving = 4"
| "execution_rank RequiresConfirmation = 5"
| "execution_rank Completed = 6"
| "execution_rank Failed = 6"
| "execution_rank Cancelled = 6"
| "execution_rank Expired = 6"

lemma forward_rank:
  "t \<in> set (allowed_transitions s) \<Longrightarrow> s \<notin> {Created, Waiting, Paused} \<Longrightarrow>
     execution_rank s < execution_rank t \<and> t \<notin> {Created, Waiting, Paused}"
  by (cases s; cases t) auto

fun forward_run :: "mission_status \<Rightarrow> mission_status list \<Rightarrow> bool" where
  "forward_run s [] = True"
| "forward_run s (t # ts) = (t \<in> set (allowed_transitions s) \<and> forward_run t ts)"

lemma forward_run_rank:
  "forward_run s ts \<Longrightarrow> s \<notin> {Created, Waiting, Paused} \<Longrightarrow> execution_rank s + length ts \<le> 6"
proof (induction ts arbitrary: s)
  case Nil
  then show ?case by (cases s) auto
next
  case (Cons t ts)
  then have "execution_rank s < execution_rank t" "t \<notin> {Created, Waiting, Paused}"
    using forward_rank [of t s] by auto
  with Cons.IH [of t] Cons.prems(1) show ?case by simp
qed

text \<open>An execution cannot run forever: from a running mission at most five further status
  changes follow, from a claimed one at most three, unless it is retried or recovered.\<close>

theorem execution_terminates:
  "(forward_run Running ts \<longrightarrow> length ts \<le> 5) \<and> (forward_run Processing ts \<longrightarrow> length ts \<le> 3)"
  using forward_run_rank [of Running ts] forward_run_rank [of Processing ts] by auto

theorem execution_terminates_witness:
  "forward_run Running [Searching, OptionFound, Reserving, RequiresConfirmation, Completed]
   \<and> length [Searching, OptionFound, Reserving, RequiresConfirmation, Completed] \<le> 5"
  using execution_terminates [of "[Searching, OptionFound, Reserving, RequiresConfirmation, Completed]"]
  by simp

section \<open>Recovery of a stale claim\<close>

lemma recover_stale_result:
  assumes "recover_stale i m t = Inr m'"
  shows "status m' = (if has_exhausted_attempts m then Failed else Waiting)"
    and "claimed_at m' = None" and "mission_id m' = mission_id m"
    and "execution_attempts m' = execution_attempts m"
    and "max_execution_attempts m' = max_execution_attempts m"
    and "resolved_provider_id m' = resolved_provider_id m" and "reservation_id m' = reservation_id m"
    and "log_valid m \<Longrightarrow> log_valid m'" and "log_chained m \<Longrightarrow> log_chained m'"
    and "scheduled_at m' = scheduled_at m" and "expires_at m' = expires_at m"
proof -
  obtain m1 ty msg meta where t: "transition m (if has_exhausted_attempts m then Failed else Waiting) (Some t) True False = Inr m1"
    and r: "record_event i t ty msg meta m1 = Inr m'"
    using assms by (auto simp: recover_stale_def Let_def split: sum.splits)
  note f = transition_frame [OF t] transition_result(2) [OF t] record_event_frame [OF r]
  show "status m' = (if has_exhausted_attempts m then Failed else Waiting)"
    "claimed_at m' = None" "mission_id m' = mission_id m"
    "execution_attempts m' = execution_attempts m"
    "max_execution_attempts m' = max_execution_attempts m"
    "resolved_provider_id m' = resolved_provider_id m" "reservation_id m' = reservation_id m"
    "scheduled_at m' = scheduled_at m" "expires_at m' = expires_at m"
    using f by (auto split: if_splits)
  show "log_valid m'" if "log_valid m"
    using that f(9) record_event_log_valid [OF _ r] by simp
  show "log_chained m'" if "log_chained m"
    using that f(10) record_event_chained [OF _ r] by simp
qed

lemma recover_stale_succeeds:
  assumes "status m = Processing" and "log_valid m" and "i \<noteq> 0" and "i \<notin> event_id ` set (execution_log m)"
  shows "\<exists>m'. recover_stale i m (Aware t) = Inr m'"
proof -
  let ?target = "if has_exhausted_attempts m then Failed else Waiting"
  have tr: "transition m ?target (Some (Aware t)) True False
      = Inr (m\<lparr>status := ?target, claimed_at := None\<rparr>)"
    using assms(1) by (simp add: transition_def can_transition_def Let_def)
  show ?thesis
    using assms(2-) record_event_succeeds [of "m\<lparr>status := ?target, claimed_at := None\<rparr>" i]
    unfolding recover_stale_def Let_def tr by (simp add: log_valid_def)
qed

text \<open>The outcome view is consistent: a successful or terminal mission asks for no further
  action, the only offered retry is one that the retry service accepts, and a mission is terminal
  exactly when no status change other than a retry beyond its attempts is left.\<close>

theorem outcome_consistent:
  "let r = get_mission_outcome m in
     (successful r \<longrightarrow> terminal r)
     \<and> (terminal r \<longleftrightarrow> outcome_next_action r = ActNone)
     \<and> (outcome_next_action r = ActRetry \<longleftrightarrow> status m = Failed \<and> execution_attempts m < max_execution_attempts m)
     \<and> (terminal r \<longleftrightarrow> (\<forall>t. \<not> can_transition (status m) t False (\<not> has_exhausted_attempts m)))"
proof -
  have "(\<forall>t. \<not> can_transition (status m) t False b) \<longleftrightarrow>
      status m \<in> {Completed, Cancelled, Expired} \<or> (status m = Failed \<and> \<not> b)" for b
    by (cases "status m")
      (auto simp: can_transition_def dest: spec [where x = Failed] spec [where x = Cancelled]
                  spec [where x = Waiting] spec [where x = Completed])
  then show ?thesis
    by (cases "status m")
      (auto simp: get_mission_outcome_def next_action_def terminal_statuses_def
                  has_exhausted_attempts_def Let_def)
qed

theorem outcome_consistent_witness:
  "outcome_next_action (get_mission_outcome (sample_mission Failed)) = ActRetry"
  using outcome_consistent [of "sample_mission Failed"] by (simp add: Let_def)

end
