(* ===== verification/MissionStore.thy ===== *)
theory MissionStore
  imports StateMachine
begin

text \<open>
  The in-memory mission repository (\<open>InMemoryMissionRepository\<close> of
  \<open>app/storage/memory.py\<close>): the missions by identifier, the execution attempts of each, and
  the queries and claims on them. The repository hands out the stored objects themselves, so a
  mission is mutated in place: \<open>on_mission\<close> is a mutation of the object stored under an
  identifier. Identifiers drawn from \<open>uuid4\<close> come from the sequence \<open>fresh\<close>, indexed by
  the number of draws \<open>tick\<close>.

  The operations are atomic here: those that claim, expire and recover run under the
  repository's lock, and the others contain no \<open>await\<close> point.
\<close>

section \<open>State\<close>

record mission_repo =
  missions :: "(uuid, mission) dict"
  attempts :: "(uuid, attempt list) dict"
  fresh :: "nat \<Rightarrow> uuid"
  tick :: nat

definition new_uuid :: "('a mission_repo_scheme, exn, uuid) prog" where
  "new_uuid s = (Inr (fresh s (tick s)), s\<lparr>tick := Suc (tick s)\<rparr>)"

definition get_mission :: "uuid \<Rightarrow> ('a mission_repo_scheme, exn, mission option) prog" where
  "get_mission mid = gets (\<lambda>s. map_of (missions s) mid)"

definition exists_mission :: "uuid \<Rightarrow> ('a mission_repo_scheme, exn, bool) prog" where
  "exists_mission mid = gets (\<lambda>s. map_of (missions s) mid \<noteq> None)"

definition store_mission :: "mission \<Rightarrow> 'a mission_repo_scheme \<Rightarrow> 'a mission_repo_scheme" where
  "store_mission m s = s\<lparr>missions := dict_set (mission_id m) m (missions s)\<rparr>"

definition create_mission :: "mission \<Rightarrow> ('a mission_repo_scheme, exn, mission) prog" where
  "create_mission m = thenE (modify (store_mission m)) (ret m)"

text \<open>In-place mutation of the stored object; nothing is written when the operation raises.\<close>

definition on_mission :: "uuid \<Rightarrow> (mission \<Rightarrow> exn + mission) \<Rightarrow> ('a mission_repo_scheme, exn, mission) prog" where
  "on_mission mid f s =
     (case map_of (missions s) mid of
        None \<Rightarrow> (Inl KeyError, s)
      | Some m \<Rightarrow>
          (case f m of
             Inl e \<Rightarrow> (Inl e, s)
           | Inr m' \<Rightarrow> (Inr m', s\<lparr>missions := dict_set mid m' (missions s)\<rparr>)))"

section \<open>Argument checks\<close>

definition validate_list_due_arguments :: "datetime \<Rightarrow> int \<Rightarrow> exn + unit" where
  "validate_list_due_arguments current_time limit =
     (if \<not> is_aware current_time then Inl InvalidRepositoryTimeError
      else if limit \<le> 0 then Inl (ValueError ''limit must be greater than 0'')
      else Inr ())"

definition validate_stale_processing_arguments :: "datetime \<Rightarrow> timedelta \<Rightarrow> int \<Rightarrow> exn + unit" where
  "validate_stale_processing_arguments current_time claim_timeout limit =
     (case validate_list_due_arguments current_time limit of
        Inl e \<Rightarrow> Inl e
      | Inr _ \<Rightarrow> if claim_timeout \<le> 0 then Inl (ValueError ''claim_timeout must be greater than 0'')
          else Inr ())"

definition mission_event_time :: "mission \<Rightarrow> exn + datetime" where
  "mission_event_time m =
     (if execution_log m \<noteq> [] then Inr (event_timestamp (last (execution_log m)))
      else (case claimed_at m of
          Some t \<Rightarrow> Inr (Aware t)
        | None \<Rightarrow> Inl (ValueError ''cannot close execution attempt without a timestamp'')))"

section \<open>Queries\<close>

definition is_due :: "time \<Rightarrow> mission \<Rightarrow> bool" where
  "is_due now m \<longleftrightarrow>
     status m = Waiting
     \<and> (case scheduled_at m of None \<Rightarrow> False | Some t \<Rightarrow> t \<le> now)
     \<and> (case expires_at m of None \<Rightarrow> True | Some t \<Rightarrow> t > now)
     \<and> \<not> has_exhausted_attempts m"

definition is_expirable :: "time \<Rightarrow> mission \<Rightarrow> bool" where
  "is_expirable now m \<longleftrightarrow>
     status m \<in> {Created, Waiting, Paused} \<and> (case expires_at m of None \<Rightarrow> False | Some t \<Rightarrow> t \<le> now)"

definition is_stale :: "time \<Rightarrow> mission \<Rightarrow> bool" where
  "is_stale before m \<longleftrightarrow>
     status m = Processing \<and> (case claimed_at m of None \<Rightarrow> False | Some t \<Rightarrow> t \<le> before)"

text \<open>\<open>value or default\<close> for an optional time.\<close>

definition time_or :: "time \<Rightarrow> time option \<Rightarrow> time" where
  "time_or d t = (case t of None \<Rightarrow> d | Some x \<Rightarrow> x)"

definition due_missions :: "time \<Rightarrow> int \<Rightarrow> 'a mission_repo_scheme \<Rightarrow> mission list" where
  "due_missions now limit s =
     first_n limit (sort_key (\<lambda>m. time_or now (scheduled_at m))
       (filter (is_due now) (dict_values (missions s))))"

definition expirable_missions :: "time \<Rightarrow> int \<Rightarrow> 'a mission_repo_scheme \<Rightarrow> mission list" where
  "expirable_missions now limit s =
     first_n limit (sort_key (\<lambda>m. time_or now (expires_at m))
       (filter (is_expirable now) (dict_values (missions s))))"

definition stale_missions :: "time \<Rightarrow> timedelta \<Rightarrow> int \<Rightarrow> 'a mission_repo_scheme \<Rightarrow> mission list" where
  "stale_missions now claim_timeout limit s =
     first_n limit (sort_key (\<lambda>m. time_or now (claimed_at m))
       (filter (is_stale (now - claim_timeout)) (dict_values (missions s))))"

definition list_due :: "datetime \<Rightarrow> int \<Rightarrow> ('a mission_repo_scheme, exn, mission list) prog" where
  "list_due current_time limit =
     bindE (liftE (validate_list_due_arguments current_time limit)) (\<lambda>_.
       gets (due_missions (instant current_time) limit))"

definition list_stale_processing ::
  "datetime \<Rightarrow> timedelta \<Rightarrow> int \<Rightarrow> ('a mission_repo_scheme, exn, mission list) prog" where
  "list_stale_processing current_time claim_timeout limit =
     bindE (liftE (validate_stale_processing_arguments current_time claim_timeout limit)) (\<lambda>_.
       gets (stale_missions (instant current_time) claim_timeout limit))"

definition require_limit :: "int \<Rightarrow> ('s, exn, unit) prog" where
  "require_limit limit = require (\<not> limit \<le> 0) (ValueError ''limit must be greater than 0'')"

definition mission_matches :: "mission_status option \<Rightarrow> mission_type option \<Rightarrow> mission \<Rightarrow> bool" where
  "mission_matches st mt m \<longleftrightarrow> (st = None \<or> st = Some (status m)) \<and> (mt = None \<or> mt = Some (legacy_type m))"

definition list_missions ::
  "mission_status option \<Rightarrow> mission_type option \<Rightarrow> int \<Rightarrow> ('a mission_repo_scheme, exn, mission list) prog" where
  "list_missions st mt limit =
     thenE (require_limit limit)
       (gets (\<lambda>s. first_n limit (filter (mission_matches st mt) (dict_values (missions s)))))"

definition list_summaries ::
  "mission_status option \<Rightarrow> mission_type option \<Rightarrow> int \<Rightarrow> ('a mission_repo_scheme, exn, mission_summary list) prog" where
  "list_summaries st mt limit =
     bindE (list_missions st mt limit) (\<lambda>ms. ret (map mission_summary_of ms))"

text \<open>Keyset pagination: missions in the order of their identifiers, after the cursor.\<close>

definition list_summary_page_candidates ::
  "mission_status option \<Rightarrow> mission_type option \<Rightarrow> uuid option \<Rightarrow> int \<Rightarrow> ('a mission_repo_scheme, exn, mission_summary list) prog" where
  "list_summary_page_candidates st mt cursor limit =
     thenE (require_limit limit)
       (gets (\<lambda>s. first_n limit (map mission_summary_of
          (filter (\<lambda>m. (case cursor of None \<Rightarrow> True | Some c \<Rightarrow> mission_id m > c) \<and> mission_matches st mt m)
             (sort_key mission_id (dict_values (missions s)))))))"

definition references_identity :: "uuid \<Rightarrow> ('a mission_repo_scheme, exn, bool) prog" where
  "references_identity iid =
     gets (\<lambda>s. \<exists>m \<in> set (dict_values (missions s)). iid \<in> set (participant_ids m))"

record mission_statistics =
  generated_at :: datetime
  total_missions :: int
  missions_by_status :: "(mission_status, int) dict"
  due_count :: int
  expired_pending_count :: int
  stale_processing_count :: int
  exhausted_waiting_count :: int
  claim_timeout_seconds :: int

definition count_missions :: "(mission \<Rightarrow> bool) \<Rightarrow> 'a mission_repo_scheme \<Rightarrow> int" where
  "count_missions p s = int (length (filter p (dict_values (missions s))))"

definition statistics_of :: "datetime \<Rightarrow> timedelta \<Rightarrow> 'a mission_repo_scheme \<Rightarrow> mission_statistics" where
  "statistics_of current_time claim_timeout s =
     \<lparr>generated_at = current_time,
      total_missions = int (length (missions s)),
      missions_by_status = filter (\<lambda>(_, n). n > 0)
        (map (\<lambda>st. (st, count_missions (\<lambda>m. status m = st) s)) all_statuses),
      due_count = count_missions (is_due (instant current_time)) s,
      expired_pending_count = count_missions (is_expirable (instant current_time)) s,
      stale_processing_count = count_missions (is_stale (instant current_time - claim_timeout)) s,
      exhausted_waiting_count = count_missions (\<lambda>m. status m = Waiting \<and> has_exhausted_attempts m) s,
      claim_timeout_seconds = claim_timeout div 1000000\<rparr>"

definition get_statistics :: "datetime \<Rightarrow> timedelta \<Rightarrow> ('a mission_repo_scheme, exn, mission_statistics) prog" where
  "get_statistics current_time claim_timeout =
     bindE (liftE (validate_stale_processing_arguments current_time claim_timeout 1)) (\<lambda>_.
       bindE (gets (statistics_of current_time claim_timeout)) (\<lambda>r.
         if claim_timeout_seconds r < 1 then raise ValidationError else ret r))"

section \<open>Execution attempts\<close>

definition attempts_of :: "'a mission_repo_scheme \<Rightarrow> uuid \<Rightarrow> attempt list" where
  "attempts_of s mid = dict_get_or [] (attempts s) mid"

definition list_execution_attempts :: "uuid \<Rightarrow> ('a mission_repo_scheme, exn, attempt list) prog" where
  "list_execution_attempts mid = gets (\<lambda>s. attempts_of s mid)"

definition append_attempt :: "uuid \<Rightarrow> attempt \<Rightarrow> 'a mission_repo_scheme \<Rightarrow> 'a mission_repo_scheme" where
  "append_attempt mid a s = s\<lparr>attempts := dict_set mid (attempts_of s mid @ [a]) (attempts s)\<rparr>"

definition has_open_attempt :: "attempt list \<Rightarrow> bool" where
  "has_open_attempt as \<longleftrightarrow> as \<noteq> [] \<and> attempt_status (last as) = AttemptProcessing"

text \<open>Replace the open attempt of a mission, if it has one.\<close>

definition update_open_attempt :: "uuid \<Rightarrow> (attempt \<Rightarrow> attempt) \<Rightarrow> 'a mission_repo_scheme \<Rightarrow> 'a mission_repo_scheme" where
  "update_open_attempt mid f s =
     (if has_open_attempt (attempts_of s mid)
      then s\<lparr>attempts := dict_set mid (butlast (attempts_of s mid) @ [f (last (attempts_of s mid))]) (attempts s)\<rparr>
      else s)"

definition set_open_attempt_provider :: "mission \<Rightarrow> 'a mission_repo_scheme \<Rightarrow> 'a mission_repo_scheme" where
  "set_open_attempt_provider m s =
     (if resolved_provider_id m = None then s
      else update_open_attempt (mission_id m)
             (\<lambda>a. a\<lparr>attempt_resolved_provider_id := resolved_provider_id m\<rparr>) s)"

definition close_execution_attempt ::
  "mission \<Rightarrow> datetime \<Rightarrow> attempt_status \<Rightarrow> 'a mission_repo_scheme \<Rightarrow> 'a mission_repo_scheme" where
  "close_execution_attempt m finished st =
     update_open_attempt (mission_id m)
       (\<lambda>a. a\<lparr>attempt_status := st, attempt_finished_at := Some finished,
             attempt_resolved_provider_id := resolved_provider_id m,
             attempt_reservation_id := reservation_id m\<rparr>)"

fun attempt_status_of :: "mission_status \<Rightarrow> attempt_status option" where
  "attempt_status_of RequiresConfirmation = Some AttemptRequiresConfirmation"
| "attempt_status_of Completed = Some AttemptCompleted"
| "attempt_status_of Failed = Some AttemptFailed"
| "attempt_status_of _ = None"

definition update_mission :: "mission \<Rightarrow> ('a mission_repo_scheme, exn, mission) prog" where
  "update_mission m =
     thenE
       (if status m = Processing then modify (set_open_attempt_provider m)
        else (case attempt_status_of (status m) of
            None \<Rightarrow> ret ()
          | Some st \<Rightarrow>
              bindE (gets (\<lambda>s. has_open_attempt (attempts_of s (mission_id m)))) (\<lambda>open.
                if open then
                  bindE (liftE (mission_event_time m)) (\<lambda>finished.
                    modify (close_execution_attempt m finished st))
                else ret ())))
       (thenE (modify (store_mission m)) (ret m))"

section \<open>Claiming, expiring, recovering\<close>

definition claim_one :: "time \<Rightarrow> mission \<Rightarrow> ('a mission_repo_scheme, exn, mission) prog" where
  "claim_one now m =
     bindE (on_mission (mission_id m)
             (\<lambda>m. Inr (m\<lparr>status := Processing, claimed_at := Some now,
                         execution_attempts := execution_attempts m + 1\<rparr>))) (\<lambda>m'.
     bindE new_uuid (\<lambda>aid.
     bindE (liftE (make_attempt
             \<lparr>attempt_id = aid, attempt_mission_id = mission_id m',
              attempt_number = execution_attempts m', attempt_status = AttemptProcessing,
              attempt_claimed_at = Aware now, attempt_finished_at = None,
              attempt_resolved_provider_id = None, attempt_reservation_id = None\<rparr>)) (\<lambda>a.
     thenE (modify (append_attempt (mission_id m') a))
     (thenE (modify (store_mission m')) (ret m')))))"

definition claim_due :: "datetime \<Rightarrow> int \<Rightarrow> ('a mission_repo_scheme, exn, mission list) prog" where
  "claim_due current_time limit =
     bindE (liftE (validate_list_due_arguments current_time limit)) (\<lambda>_.
       bindE (gets (due_missions (instant current_time) limit)) (\<lambda>claimed.
         mapE (claim_one (instant current_time)) claimed))"

definition expire_one :: "datetime \<Rightarrow> mission \<Rightarrow> ('a mission_repo_scheme, exn, mission) prog" where
  "expire_one current_time m =
     thenE (require (expires_at m \<noteq> None) AssertionError)
     (thenE (on_mission (mission_id m) (\<lambda>m. transition m Expired None False False))
     (bindE new_uuid (\<lambda>eid.
     bindE (on_mission (mission_id m) (\<lambda>m'. record_event eid current_time ''mission_expired''
              ''Mission expired before execution.''
              [(''expires_at'', json_of_option (\<lambda>t. JTime (Aware t)) (expires_at m')),
               (''previous_status'', JStr (status_value (status m)))] m')) (\<lambda>m'.
     thenE (modify (store_mission m')) (ret m')))))"

definition expire_due :: "datetime \<Rightarrow> int \<Rightarrow> ('a mission_repo_scheme, exn, mission list) prog" where
  "expire_due current_time limit =
     bindE (liftE (validate_list_due_arguments current_time limit)) (\<lambda>_.
       bindE (gets (expirable_missions (instant current_time) limit)) (\<lambda>candidates.
         mapE (expire_one current_time) candidates))"

definition recover_one :: "datetime \<Rightarrow> mission \<Rightarrow> ('a mission_repo_scheme, exn, mission) prog" where
  "recover_one current_time m =
     bindE new_uuid (\<lambda>eid.
     bindE (on_mission (mission_id m) (\<lambda>m. recover_stale eid m current_time)) (\<lambda>m'.
     thenE (modify (close_execution_attempt m' current_time
              (if status m' = Failed then AttemptFailed else AttemptRecovered)))
     (thenE (modify (store_mission m')) (ret m'))))"

definition recover_stale_processing ::
  "datetime \<Rightarrow> timedelta \<Rightarrow> int \<Rightarrow> ('a mission_repo_scheme, exn, mission list) prog" where
  "recover_stale_processing current_time claim_timeout limit =
     bindE (liftE (validate_stale_processing_arguments current_time claim_timeout limit)) (\<lambda>_.
       bindE (gets (stale_missions (instant current_time) claim_timeout limit)) (\<lambda>stale.
         mapE (recover_one current_time) stale))"

definition clear_missions :: "('a mission_repo_scheme, exn, unit) prog" where
  "clear_missions = modify (\<lambda>s. s\<lparr>missions := [], attempts := []\<rparr>)"

end
