(* ===== verification/Interfaces.thy ===== *)
theory Interfaces
  imports Prelude
begin

text \<open>
  The interfaces the components rely on, as locales over their operations and laws: a queue of
  claimable work (missions, outbox messages), a store of idempotency receipts (mission commands,
  resource creation), operations recorded by key (the mock provider), and a store with optimistic concurrency (identities, agent tasks). Each is
  interpreted on the model of the component that provides it, in that component's theory.
\<close>

section \<open>Claimable work\<close>

text \<open>Several workers claim one after the other: \<open>claims\<close> collects what they got.\<close>

fun claims :: "('r \<Rightarrow> 's \<Rightarrow> 'k list \<times> 's) \<Rightarrow> 'r list \<Rightarrow> 's \<Rightarrow> 'k list \<times> 's" where
  "claims claim [] s = ([], s)"
| "claims claim (r # rs) s =
     (case claim r s of (ks, s') \<Rightarrow>
        (case claims claim rs s' of (ks', s'') \<Rightarrow> (ks @ ks', s'')))"

locale claim_queue =
  fixes claim :: "'r \<Rightarrow> 's \<Rightarrow> 'k list \<times> 's"
    and busy :: "'s \<Rightarrow> 'k set"
    and inv :: "'s \<Rightarrow> bool"
  assumes claim_inv: "inv s \<Longrightarrow> inv (snd (claim r s))"
    and claim_idle: "inv s \<Longrightarrow> set (fst (claim r s)) \<inter> busy s = {}"
    and claim_busy: "inv s \<Longrightarrow> busy (snd (claim r s)) = busy s \<union> set (fst (claim r s))"
    and claim_distinct: "inv s \<Longrightarrow> distinct (fst (claim r s))"
begin

lemma claims_exclusive:
  "inv s \<Longrightarrow> distinct (fst (claims claim rs s)) \<and> set (fst (claims claim rs s)) \<inter> busy s = {}
     \<and> busy (snd (claims claim rs s)) = busy s \<union> set (fst (claims claim rs s))
     \<and> inv (snd (claims claim rs s))"
proof (induction rs arbitrary: s)
  case Nil
  then show ?case by simp
next
  case (Cons r rs)
  obtain ks s' where c: "claim r s = (ks, s')" by fastforce
  obtain ks' s'' where cs: "claims claim rs s' = (ks', s'')" by fastforce
  have "inv s'" "set ks \<inter> busy s = {}" "busy s' = busy s \<union> set ks" "distinct ks"
    using claim_inv [OF Cons.prems, of r] claim_idle [OF Cons.prems, of r]
      claim_busy [OF Cons.prems, of r] claim_distinct [OF Cons.prems, of r] c by simp_all
  with Cons.IH [of s'] cs c show ?case by auto
qed

end

section \<open>Idempotency receipts\<close>

text \<open>A receipt store answers \<open>begin\<close> for a key and the fingerprint of a request: start the
  work, replay a recorded result, refuse a different request under the same key, or refuse while
  the same request is in progress.\<close>

datatype 'v begin_outcome = Start | Replay 'v | Conflict | InProgress

locale receipt_store =
  fixes begin_op :: "'k \<Rightarrow> 'f \<Rightarrow> 's \<Rightarrow> 'v begin_outcome \<times> 's"
    and complete_op :: "'k \<Rightarrow> 'v \<Rightarrow> 's \<Rightarrow> 's"
    and abort_op :: "'k \<Rightarrow> 'f \<Rightarrow> 's \<Rightarrow> 's"
    and receipt :: "'s \<Rightarrow> 'k \<Rightarrow> ('f \<times> 'v option) option"
  assumes begin_outcome: "fst (begin_op k f s) =
      (case receipt s k of
         None \<Rightarrow> Start
       | Some (f', r) \<Rightarrow> if f' \<noteq> f then Conflict else (case r of None \<Rightarrow> InProgress | Some v \<Rightarrow> Replay v))"
    and begin_receipt: "receipt (snd (begin_op k f s)) =
      (if receipt s k = None then (receipt s)(k \<mapsto> (f, None)) else receipt s)"
    and complete_receipt: "receipt s k = Some (f, r) \<Longrightarrow>
      receipt (complete_op k v s) = (receipt s)(k \<mapsto> (f, Some v))"
    and abort_receipt: "receipt (abort_op k f s) =
      (if receipt s k = Some (f, None) then (receipt s)(k := None) else receipt s)"
begin

text \<open>Two requests under one key never both start.\<close>

lemma second_begin_waits:
  "fst (begin_op k f s) = Start \<Longrightarrow>
     fst (begin_op k f' (snd (begin_op k f s))) = (if f' = f then InProgress else Conflict)"
  by (simp add: begin_outcome begin_receipt split: option.splits prod.splits if_splits)

text \<open>After completion the same request replays its result and is never run again.\<close>

lemma begin_after_complete:
  "fst (begin_op k f s) = Start \<Longrightarrow>
     fst (begin_op k f' (complete_op k v (snd (begin_op k f s)))) = (if f' = f then Replay v else Conflict)"
  by (simp add: begin_outcome begin_receipt complete_receipt [where f = f and r = None]
           split: option.splits prod.splits if_splits)

text \<open>An aborted request can be started again, and a completed one cannot be aborted.\<close>

lemma begin_after_abort:
  "fst (begin_op k f s) = Start \<Longrightarrow> fst (begin_op k f' (abort_op k f (snd (begin_op k f s)))) = Start"
  by (simp add: begin_outcome begin_receipt abort_receipt split: option.splits prod.splits if_splits)

lemma abort_keeps_completed:
  "receipt s k = Some (f', Some v) \<Longrightarrow> receipt (abort_op k f s) = receipt s"
  by (simp add: abort_receipt)

end

section \<open>Operations recorded by key\<close>

text \<open>An operation whose result is recorded under a key, and returned for that key ever after.\<close>

locale recorded_op =
  fixes run_op :: "'k \<Rightarrow> 'a \<Rightarrow> ('s, 'e, 'r) prog"
    and recorded :: "'s \<Rightarrow> 'k \<Rightarrow> 'r option"
  assumes run_again: "recorded s k = Some r \<Longrightarrow> run_op k a s = (Inr r, s)"
    and run_first: "recorded s k = None \<Longrightarrow> \<exists>r s'. run_op k a s = (Inr r, s') \<and> recorded s' = (recorded s)(k \<mapsto> r)"
begin

lemma run_records:
  obtains r s' where "run_op k a s = (Inr r, s')" and "recorded s' k = Some r" and "recorded s \<subseteq>\<^sub>m recorded s'"
proof (cases "recorded s k")
  case None
  then have "recorded s \<subseteq>\<^sub>m (recorded s)(k \<mapsto> r)" for r by (auto simp: map_le_def)
  with run_first [OF None, of a] that show ?thesis by auto
next
  case (Some r)
  with run_again [OF Some, of a] that show ?thesis by auto
qed

text \<open>Whatever happens in between, as long as no record is lost.\<close>

lemma run_replays:
  assumes "run_op k a s = (Inr r, s')" and "recorded s' \<subseteq>\<^sub>m recorded t"
  shows "run_op k a' t = (Inr r, t)"
proof -
  have "recorded s' k = Some r" using run_records [of k a s] assms(1) by (metis Pair_inject sum.inject(2))
  then have "recorded t k = Some r" using assms(2) by (metis domI map_le_def)
  then show ?thesis by (rule run_again)
qed

end

section \<open>Optimistic concurrency\<close>

locale versioned_store =
  fixes lookup :: "'s \<Rightarrow> 'k \<Rightarrow> 'a option"
    and version :: "'a \<Rightarrow> int"
    and update_op :: "'k \<Rightarrow> 'u \<Rightarrow> int \<Rightarrow> 's \<Rightarrow> ('e + 'a option) \<times> 's"
    and conflict :: 'e
  assumes update_missing: "lookup s k = None \<Longrightarrow> update_op k u v s = (Inr None, s)"
    and update_conflict: "lookup s k = Some a \<Longrightarrow> version a \<noteq> v \<Longrightarrow> update_op k u v s = (Inl conflict, s)"
    and update_done: "lookup s k = Some a \<Longrightarrow> version a = v \<Longrightarrow>
      \<exists>b s'. update_op k u v s = (Inr (Some b), s') \<and> version b = v + 1 \<and> lookup s' = (lookup s)(k \<mapsto> b)"
begin

text \<open>Of two writers that read the same version exactly the first succeeds: no update is
  lost.\<close>

lemma no_lost_update:
  assumes "lookup s k = Some a" and "update_op k u (version a) s = (Inr (Some b), s')"
  shows "update_op k u' (version a) s' = (Inl conflict, s') \<and> lookup s' k = Some b \<and> version b = version a + 1"
proof -
  obtain b' s'' where u: "update_op k u (version a) s = (Inr (Some b'), s'')" "version b' = version a + 1"
      "lookup s'' = (lookup s)(k \<mapsto> b')"
    using update_done [OF assms(1) refl] by blast
  with assms(2) have "b' = b" "s'' = s'" by auto
  with u have "lookup s' k = Some b" "version b = version a + 1" by auto
  moreover from this have "update_op k u' (version a) s' = (Inl conflict, s')"
    by (intro update_conflict) auto
  ultimately show ?thesis by blast
qed

text \<open>An update changes no other entry.\<close>

lemma update_frame:
  "update_op k u v s = (r, s') \<Longrightarrow> k' \<noteq> k \<Longrightarrow> lookup s' k' = lookup s k'"
  by (cases "lookup s k"; cases "version (the (lookup s k)) = v")
    (use update_missing [of s k u v] update_conflict [of s k _ v u] update_done [of s k _ v u] in fastforce)+

end

end
