(* ===== verification/MissionLedger.thy ===== *)
theory MissionLedger
  imports MissionStore Interfaces
begin

text \<open>
  The invariant of the mission repository and the contracts of its claim, recovery, expiry and
  update: the attempt ledger of a mission is numbered upwards, only its last entry can be open,
  and it is open exactly while the mission is being processed.
\<close>

section \<open>The invariant\<close>

definition entry_ok :: "uuid \<Rightarrow> mission \<Rightarrow> attempt list \<Rightarrow> bool" where
  "entry_ok k m as \<longleftrightarrow>
     mission_id m = k \<and> claim_ok m \<and> log_valid m
     \<and> 0 \<le> execution_attempts m \<and> execution_attempts m \<le> max_execution_attempts m
     \<and> sorted_wrt (<) (map attempt_number as)
     \<and> (\<forall>a \<in> set as. attempt_mission_id a = k \<and> attempt_number a \<le> execution_attempts m)
     \<and> (\<forall>a \<in> set (butlast as). attempt_status a \<noteq> AttemptProcessing)
     \<and> (has_open_attempt as \<longleftrightarrow> status m = Processing)"

definition repo_ok :: "'a mission_repo_scheme \<Rightarrow> bool" where
  "repo_ok s \<longleftrightarrow> dict_ok (missions s)
     \<and> (\<forall>k. case map_of (missions s) k of
          None \<Rightarrow> attempts_of s k = []
        | Some m \<Rightarrow> entry_ok k m (attempts_of s k))"

text \<open>What the program relies on of \<open>uuid4\<close>: identifiers yet to be drawn are not nil, differ
  from each other and from every event identifier in use.\<close>

definition ids_ok :: "'a mission_repo_scheme \<Rightarrow> bool" where
  "ids_ok s \<longleftrightarrow> inj (fresh s) \<and> (\<forall>n. fresh s n \<noteq> 0)
     \<and> (\<forall>k m n. map_of (missions s) k = Some m \<longrightarrow> tick s \<le> n \<longrightarrow> fresh s n \<notin> event_id ` set (execution_log m))"

lemma repo_ok_entry: "repo_ok s \<Longrightarrow> map_of (missions s) k = Some m \<Longrightarrow> entry_ok k m (attempts_of s k)"
  unfolding repo_ok_def by (metis option.simps(5))

lemma repo_ok_id: "repo_ok s \<Longrightarrow> map_of (missions s) k = Some m \<Longrightarrow> mission_id m = k"
  using repo_ok_entry [of s k m] by (simp add: entry_ok_def)

text \<open>Exchanging one mission and its attempts.\<close>

definition put_entry :: "uuid \<Rightarrow> mission \<Rightarrow> attempt list \<Rightarrow> 'a mission_repo_scheme \<Rightarrow> 'a mission_repo_scheme" where
  "put_entry k m as s = s\<lparr>missions := dict_set k m (missions s), attempts := dict_set k as (attempts s)\<rparr>"

lemma attempts_of_set:
  "attempts_of (s\<lparr>attempts := dict_set k as (attempts s)\<rparr>) k' = (if k' = k then as else attempts_of s k')"
  by (simp add: attempts_of_def dict_get_or_def)

lemma attempts_of_missions [simp]: "attempts_of (s\<lparr>missions := d\<rparr>) k = attempts_of s k"
  by (simp add: attempts_of_def)

lemma attempts_of_tick [simp]: "attempts_of (s\<lparr>tick := n\<rparr>) k = attempts_of s k"
  by (simp add: attempts_of_def)

lemma repo_ok_change:
  assumes "repo_ok s" and "dict_ok (missions s')"
    and "map_of (missions s') = (map_of (missions s))(k \<mapsto> m)"
    and "entry_ok k m (attempts_of s' k)"
    and "\<And>k'. k' \<noteq> k \<Longrightarrow> attempts_of s' k' = attempts_of s k'"
  shows "repo_ok s'"
  unfolding repo_ok_def
proof (intro conjI allI)
  fix k'
  show "case map_of (missions s') k' of None \<Rightarrow> attempts_of s' k' = []
      | Some m' \<Rightarrow> entry_ok k' m' (attempts_of s' k')"
  proof (cases "k' = k")
    case True
    then show ?thesis using assms(3,4) by simp
  next
    case False
    then have "map_of (missions s') k' = map_of (missions s) k'" "attempts_of s' k' = attempts_of s k'"
      using assms(3,5) by simp_all
    moreover have "case map_of (missions s) k' of None \<Rightarrow> attempts_of s k' = []
        | Some m' \<Rightarrow> entry_ok k' m' (attempts_of s k')"
      using assms(1) unfolding repo_ok_def by (rule conjunct2 [THEN spec])
    ultimately show ?thesis by (cases "map_of (missions s) k'") simp_all
  qed
qed (rule assms(2))

lemma dict_set_set: "dict_set k v (dict_set k v' d) = dict_set k v d"
  by (induction d) auto

lemma dict_set_same: "map_of d k = Some v \<Longrightarrow> dict_set k v d = d"
  by (induction d) (auto split: if_splits)

lemma wp_on_mission:
  "map_of (missions s) k = Some m \<Longrightarrow>
     wp (on_mission k f) Q E s =
       (case f m of Inl e \<Rightarrow> E e s | Inr m' \<Rightarrow> Q m' (s\<lparr>missions := dict_set k m' (missions s)\<rparr>))"
  by (simp add: wp_def on_mission_def split: sum.splits)

lemma wp_new_uuid [wp]: "wp new_uuid Q E s = Q (fresh s (tick s)) (s\<lparr>tick := Suc (tick s)\<rparr>)"
  by (simp add: wp_def new_uuid_def)

lemma missions_with:
  assumes "repo_ok s" and "m \<in> set (filter p (dict_values (missions s)))"
  shows "map_of (missions s) (mission_id m) = Some m" and "p m"
  using assms dict_values_in [of "missions s" m] repo_ok_id [OF assms(1)]
  by (auto simp: repo_ok_def)

lemma distinct_mission_ids:
  assumes "repo_ok s"
  shows "distinct (map mission_id (dict_values (missions s)))"
proof -
  have d: "dict_ok (missions s)" using assms by (simp add: repo_ok_def)
  have "mission_id m = k" if "(k, m) \<in> set (missions s)" for k m
    using that d repo_ok_id [OF assms, of k m] by (simp add: dict_ok_def)
  then have "map mission_id (dict_values (missions s)) = map fst (missions s)"
    by (auto simp: dict_values_def)
  then show ?thesis using d by (simp add: dict_ok_def)
qed

text \<open>The missions selected by a query.\<close>

definition selected :: "(mission \<Rightarrow> bool) \<Rightarrow> (mission \<Rightarrow> time) \<Rightarrow> int \<Rightarrow> 'a mission_repo_scheme \<Rightarrow> mission list" where
  "selected p f limit s = first_n limit (sort_key f (filter p (dict_values (missions s))))"

lemma selected_in:
  assumes "repo_ok s" and "m \<in> set (selected p f limit s)"
  shows "map_of (missions s) (mission_id m) = Some m" and "p m"
proof -
  have "m \<in> set (filter p (dict_values (missions s)))"
    using set_first_n [of m limit] assms(2) unfolding selected_def by fastforce
  then show "map_of (missions s) (mission_id m) = Some m" and "p m"
    using missions_with [OF assms(1), of m p] by blast+
qed

lemma selected_distinct:
  assumes "repo_ok s"
  shows "distinct (map mission_id (selected p f limit s))"
proof -
  have "distinct (map mission_id (filter p (dict_values (missions s))))"
    using distinct_mission_ids [OF assms] by (simp add: distinct_map_filter)
  then have "distinct (map mission_id (sort_key f (filter p (dict_values (missions s)))))"
    by (simp add: distinct_map)
  then show ?thesis
    unfolding selected_def first_n_def take_map [symmetric] by (rule distinct_take)
qed

lemma selected_length: "0 < limit \<Longrightarrow> int (length (selected p f limit s)) \<le> limit"
  by (simp add: selected_def length_first_n)

lemma selected_first:
  assumes "repo_ok s" and "x \<in> set (selected p f limit s)" and "map_of (missions s) k = Some y"
    and "p y" and "y \<notin> set (selected p f limit s)"
  shows "f x \<le> f y"
proof -
  have "y \<in> set (filter p (dict_values (missions s)))"
    using assms(1,3,4) dict_values_in [of "missions s" y] by (auto simp: repo_ok_def)
  then show ?thesis using first_n_least [of x limit f] assms(2,5) unfolding selected_def by blast
qed

lemmas query_defs = due_missions_def [folded selected_def] expirable_missions_def [folded selected_def]
  stale_missions_def [folded selected_def]

section \<open>Claiming\<close>

definition claimed :: "time \<Rightarrow> mission \<Rightarrow> mission" where
  "claimed now m = m\<lparr>status := Processing, claimed_at := Some now, execution_attempts := execution_attempts m + 1\<rparr>"

definition claim_attempt :: "time \<Rightarrow> mission \<Rightarrow> uuid \<Rightarrow> attempt" where
  "claim_attempt now m aid =
     \<lparr>attempt_id = aid, attempt_mission_id = mission_id m, attempt_number = execution_attempts m + 1,
      attempt_status = AttemptProcessing, attempt_claimed_at = Aware now, attempt_finished_at = None,
      attempt_resolved_provider_id = None, attempt_reservation_id = None\<rparr>"

lemma claimed_id [simp]: "mission_id (claimed now m) = mission_id m"
  by (simp add: claimed_def)

lemma claimed_status [simp]: "status (claimed now m) = Processing"
  by (simp add: claimed_def)

lemma claimed_attempts [simp]: "execution_attempts (claimed now m) = execution_attempts m + 1"
  by (simp add: claimed_def)

lemma make_claim_attempt:
  "0 \<le> execution_attempts m \<Longrightarrow> make_attempt (claim_attempt now m aid) = Inr (claim_attempt now m aid)"
  by (simp add: make_attempt_def claim_attempt_def normalize_provider_id_def validate_reservation_id_def)

lemma claim_one_eq:
  assumes "map_of (missions s) (mission_id m) = Some m" and "0 \<le> execution_attempts m"
  shows "claim_one now m s =
     (Inr (claimed now m),
      s\<lparr>missions := dict_set (mission_id m) (claimed now m) (missions s), tick := Suc (tick s),
        attempts := dict_set (mission_id m)
          (attempts_of s (mission_id m) @ [claim_attempt now m (fresh s (tick s))]) (attempts s)\<rparr>)"
proof -
  have a: "\<lparr>attempt_id = aid, attempt_mission_id = mission_id m,
      attempt_number = execution_attempts m + 1, attempt_status = AttemptProcessing,
      attempt_claimed_at = Aware now, attempt_finished_at = None,
      attempt_resolved_provider_id = None, attempt_reservation_id = None\<rparr> = claim_attempt now m aid" for aid
    by (simp add: claim_attempt_def)
  have m': "m\<lparr>status := Processing, claimed_at := Some now, execution_attempts := execution_attempts m + 1\<rparr> = claimed now m"
    by (simp add: claimed_def)
  have claim: "on_mission (mission_id m) (\<lambda>m. Inr (m\<lparr>status := Processing, claimed_at := Some now,
                         execution_attempts := execution_attempts m + 1\<rparr>)) s =
      (Inr (claimed now m), s\<lparr>missions := dict_set (mission_id m) (claimed now m) (missions s)\<rparr>)"
    by (simp add: on_mission_def assms(1) m')
  have made: "make_attempt (claim_attempt now m aid) = Inr (claim_attempt now m aid)" for aid
    by (rule make_claim_attempt [OF assms(2)])
  show ?thesis
    by (simp add: claim_one_def bindE_def [of "on_mission x y" for x y] claim)
       (simp add: a made bindE_def new_uuid_def liftE_def thenE_def modify_def ret_def
                  append_attempt_def store_mission_def attempts_of_def dict_set_set)
qed

lemma claim_entry_ok:
  assumes "entry_ok k m as" and "is_due now m"
  shows "entry_ok k (claimed now m) (as @ [claim_attempt now m aid])"
proof -
  have "\<not> has_open_attempt as" using assms by (simp add: entry_ok_def is_due_def)
  then have closed: "\<forall>a \<in> set as. attempt_status a \<noteq> AttemptProcessing"
    using assms(1) by (cases as rule: rev_cases) (auto simp: entry_ok_def has_open_attempt_def)
  have numbers: "sorted_wrt (<) (map attempt_number as @ [execution_attempts m + 1])"
    using assms(1) by (fastforce simp: entry_ok_def sorted_wrt_append)
  show ?thesis
    using assms closed numbers
    by (auto simp: entry_ok_def claimed_def claim_ok_def claim_attempt_def is_due_def
          has_exhausted_attempts_def has_open_attempt_def log_valid_def)
qed

text \<open>The state after the missions \<open>xs\<close> have been claimed.\<close>

definition claimed_state :: "time \<Rightarrow> 'a mission_repo_scheme \<Rightarrow> mission list \<Rightarrow> 'a mission_repo_scheme \<Rightarrow> bool" where
  "claimed_state now s xs s' \<longleftrightarrow>
     repo_ok s' \<and> fresh s' = fresh s \<and> tick s \<le> tick s'
     \<and> map_of (missions s') = (\<lambda>k. if k \<in> mission_id ` set xs then map_option (claimed now) (map_of (missions s) k)
                                   else map_of (missions s) k)"

lemma claim_loop:
  assumes "repo_ok s" and "distinct (map mission_id xs)"
    and "\<And>x. x \<in> set xs \<Longrightarrow> map_of (missions s) (mission_id x) = Some x \<and> is_due now x"
  shows "wp (mapE (claim_one now) xs) (\<lambda>rs s'. rs = map (claimed now) xs \<and> claimed_state now s xs s') E s"
proof (rule wp_mapE [where Inv = "\<lambda>ys rs s'. rs = map (claimed now) ys \<and> claimed_state now s ys s'"])
  fix ys y zs rs s'
  assume xs: "xs = ys @ y # zs" and inv: "rs = map (claimed now) ys \<and> claimed_state now s ys s'"
  let ?k = "mission_id y"
  have y: "map_of (missions s) ?k = Some y" "is_due now y" using assms(3) xs by auto
  have notin: "?k \<notin> mission_id ` set ys" using assms(2) xs by auto
  have here: "map_of (missions s') ?k = Some y" using inv y notin by (simp add: claimed_state_def)
  have ok: "repo_ok s'" using inv by (simp add: claimed_state_def)
  note entry = repo_ok_entry [OF ok here]
  have nonneg: "0 \<le> execution_attempts y" using entry by (simp add: entry_ok_def)
  let ?as = "attempts_of s' ?k @ [claim_attempt now y (fresh s' (tick s'))]"
  let ?s = "s'\<lparr>missions := dict_set ?k (claimed now y) (missions s'), tick := Suc (tick s'),
        attempts := dict_set ?k ?as (attempts s')\<rparr>"
  have "repo_ok ?s"
  proof (rule repo_ok_change [OF ok])
    show "entry_ok ?k (claimed now y) (attempts_of ?s ?k)"
      using claim_entry_ok [OF entry y(2)] by (simp add: attempts_of_def dict_get_or_def)
  qed (use ok in \<open>simp_all add: repo_ok_def attempts_of_def dict_get_or_def\<close>)
  then have "claimed_state now s (ys @ [y]) ?s"
    using inv y notin by (auto simp: claimed_state_def)
  then show "wp (claim_one now y)
       (\<lambda>r s''. rs @ [r] = map (claimed now) (ys @ [y]) \<and> claimed_state now s (ys @ [y]) s'') E s'"
    using inv by (simp add: wp_def claim_one_eq [OF here nonneg])
qed (simp add: claimed_state_def assms(1))

lemma claim_due_result:
  assumes "repo_ok s" and "0 < limit"
  obtains s' where "claim_due (Aware now) limit s = (Inr (map (claimed now) (due_missions now limit s)), s')"
    and "claimed_state now s (due_missions now limit s) s'"
proof -
  let ?xs = "due_missions now limit s"
  have in_xs: "map_of (missions s) (mission_id x) = Some x \<and> is_due now x" if "x \<in> set ?xs" for x
    using selected_in [OF assms(1) that [unfolded query_defs]] by simp
  have "distinct (map mission_id ?xs)" unfolding query_defs by (rule selected_distinct [OF assms(1)])
  from claim_loop [OF assms(1) this in_xs, where E = "\<lambda>_ _. False"]
  obtain s' where "mapE (claim_one now) ?xs s = (Inr (map (claimed now) ?xs), s')"
    and "claimed_state now s ?xs s'"
    by (auto simp: wp_def split: prod.splits sum.splits)
  then show ?thesis
    using that assms(2)
    by (simp add: claim_due_def validate_list_due_arguments_def bindE_def liftE_def gets_def)
qed

section \<open>One mission under way\<close>

text \<open>While an operation works on mission \<open>k\<close> its attempt may already have been decided but not
  yet closed: the status moves first and \<open>update\<close> closes the attempt.\<close>

definition mid_ok :: "uuid \<Rightarrow> mission \<Rightarrow> attempt list \<Rightarrow> bool" where
  "mid_ok k m as \<longleftrightarrow>
     mission_id m = k \<and> claim_ok m \<and> log_valid m
     \<and> 0 \<le> execution_attempts m \<and> execution_attempts m \<le> max_execution_attempts m
     \<and> sorted_wrt (<) (map attempt_number as)
     \<and> (\<forall>a \<in> set as. attempt_mission_id a = k \<and> attempt_number a \<le> execution_attempts m)
     \<and> (\<forall>a \<in> set (butlast as). attempt_status a \<noteq> AttemptProcessing)
     \<and> (status m = Processing \<longrightarrow> has_open_attempt as)
     \<and> (has_open_attempt as \<longrightarrow> status m \<in> {Processing, RequiresConfirmation, Completed, Failed})"

lemma entry_mid: "entry_ok k m as \<Longrightarrow> mid_ok k m as"
  by (simp add: entry_ok_def mid_ok_def)

definition repo_mid :: "uuid \<Rightarrow> 'a mission_repo_scheme \<Rightarrow> bool" where
  "repo_mid k s \<longleftrightarrow> dict_ok (missions s)
     \<and> (\<forall>k'. case map_of (missions s) k' of
          None \<Rightarrow> attempts_of s k' = []
        | Some m \<Rightarrow> (if k' = k then mid_ok k' m (attempts_of s k') else entry_ok k' m (attempts_of s k')))"

lemma repo_ok_mid: "repo_ok s \<Longrightarrow> repo_mid k s"
  unfolding repo_ok_def repo_mid_def
proof (elim conjE, intro conjI allI)
  fix k'
  assume "\<forall>k. case map_of (missions s) k of None \<Rightarrow> attempts_of s k = []
      | Some m \<Rightarrow> entry_ok k m (attempts_of s k)"
  from spec [OF this, of k']
  show "case map_of (missions s) k' of None \<Rightarrow> attempts_of s k' = []
      | Some m \<Rightarrow> (if k' = k then mid_ok k' m (attempts_of s k') else entry_ok k' m (attempts_of s k'))"
    by (cases "map_of (missions s) k'"; cases "k' = k") (simp_all add: entry_mid)
qed

lemma repo_mid_entry: "repo_mid k s \<Longrightarrow> map_of (missions s) k = Some m \<Longrightarrow> mid_ok k m (attempts_of s k)"
  unfolding repo_mid_def by (drule conjunct2, drule spec [of _ k]) simp

lemma repo_mid_other:
  assumes "repo_mid k s" and "k' \<noteq> k"
  shows "case map_of (missions s) k' of None \<Rightarrow> attempts_of s k' = [] | Some m \<Rightarrow> entry_ok k' m (attempts_of s k')"
  using conjunct2 [OF assms(1) [unfolded repo_mid_def], THEN spec, of k'] assms(2)
  by (cases "map_of (missions s) k'") simp_all

lemma repo_mid_change:
  assumes "repo_mid k s" and "dict_ok (missions s')"
    and "map_of (missions s') = (map_of (missions s))(k \<mapsto> m)"
    and "\<And>k'. k' \<noteq> k \<Longrightarrow> attempts_of s' k' = attempts_of s k'"
  shows "mid_ok k m (attempts_of s' k) \<Longrightarrow> repo_mid k s'"
    and "entry_ok k m (attempts_of s' k) \<Longrightarrow> repo_ok s'"
proof -
  have others: "case map_of (missions s') k' of None \<Rightarrow> attempts_of s' k' = []
      | Some m' \<Rightarrow> entry_ok k' m' (attempts_of s' k')" if "k' \<noteq> k" for k'
    using repo_mid_other [OF assms(1) that] assms(3,4) that by (cases "map_of (missions s) k'") simp_all
  show "repo_mid k s'" if "mid_ok k m (attempts_of s' k)"
    unfolding repo_mid_def
  proof (intro conjI allI)
    fix k'
    show "case map_of (missions s') k' of None \<Rightarrow> attempts_of s' k' = []
      | Some m' \<Rightarrow> (if k' = k then mid_ok k' m' (attempts_of s' k') else entry_ok k' m' (attempts_of s' k'))"
      using others [of k'] that assms(3) by (cases "k' = k"; cases "map_of (missions s') k'") simp_all
  qed (rule assms(2))
  show "repo_ok s'" if "entry_ok k m (attempts_of s' k)"
    unfolding repo_ok_def
  proof (intro conjI allI)
    fix k'
    show "case map_of (missions s') k' of None \<Rightarrow> attempts_of s' k' = []
      | Some m' \<Rightarrow> entry_ok k' m' (attempts_of s' k')"
      using others [of k'] that assms(3) by (cases "k' = k") simp_all
  qed (rule assms(2))
qed

lemma mid_ok_status:
  assumes "mid_ok k m as" and "target \<noteq> Processing"
    and "has_open_attempt as \<longrightarrow> target \<in> {RequiresConfirmation, Completed, Failed}"
  shows "mid_ok k (m\<lparr>status := target, claimed_at := None\<rparr>) as"
  using assms by (simp add: mid_ok_def claim_ok_def log_valid_def)

lemma mid_ok_entry: "mid_ok k m as \<Longrightarrow> \<not> has_open_attempt as \<Longrightarrow> entry_ok k m as"
  by (simp add: mid_ok_def entry_ok_def)

text \<open>The invariants look only at the repository part of a state.\<close>

lemma attempts_of_frame: "attempts s' = attempts s \<Longrightarrow> attempts_of s' = attempts_of s"
  by (simp add: attempts_of_def fun_eq_iff)

lemma repo_mid_frame:
  assumes "missions s' = missions s" and "attempts s' = attempts s"
  shows "repo_mid k s' = repo_mid k s"
  unfolding repo_mid_def assms(1) attempts_of_frame [OF assms(2)] by (rule refl)

lemma repo_ok_frame:
  assumes "missions s' = missions s" and "attempts s' = attempts s"
  shows "repo_ok s' = repo_ok s"
  unfolding repo_ok_def assms(1) attempts_of_frame [OF assms(2)] by (rule refl)

lemma ids_ok_frame:
  assumes "missions s' = missions s" and "fresh s' = fresh s" and "tick s' = tick s"
  shows "ids_ok s' = ids_ok s"
  unfolding ids_ok_def assms by (rule refl)

end
