(* ===== verification/MissionWork.thy ===== *)
theory MissionWork
  imports MissionLedger
begin

text \<open>
  The steps from which the mission services are built, with the rules by which they are executed
  symbolically: recording an event, a status transition, an assignment to a field, and
  \<open>update\<close> of the mission under work. The predicate \<open>at\<close> fixes the mission without its log
  (\<open>core\<close>), the types of its events, and whether its attempt is open.
\<close>

section \<open>Steps\<close>

text \<open>The live mission object, read again after other steps.\<close>

definition live :: "uuid \<Rightarrow> ('a mission_repo_scheme, exn, mission) prog" where
  "live k s = (case map_of (missions s) k of None \<Rightarrow> (Inl KeyError, s) | Some m \<Rightarrow> (Inr m, s))"

text \<open>\<open>await mission_repository.update(mission)\<close> on the live object.\<close>

definition update_live :: "uuid \<Rightarrow> ('a mission_repo_scheme, exn, mission) prog" where
  "update_live k = bindE (live k) update_mission"

definition transition_live :: "uuid \<Rightarrow> mission_status \<Rightarrow> ('a mission_repo_scheme, exn, mission) prog" where
  "transition_live k target = on_mission k (\<lambda>m. transition m target None False False)"

definition record_live ::
  "uuid \<Rightarrow> datetime \<Rightarrow> string \<Rightarrow> string \<Rightarrow> metadata \<Rightarrow> ('a mission_repo_scheme, exn, mission) prog" where
  "record_live k timestamp etype message meta =
     bindE new_uuid (\<lambda>eid. on_mission k (record_event eid timestamp etype message meta))"

definition assign_live :: "uuid \<Rightarrow> (mission \<Rightarrow> mission) \<Rightarrow> ('a mission_repo_scheme, exn, mission) prog" where
  "assign_live k f = on_mission k (\<lambda>m. Inr (f m))"

section \<open>Symbolic execution\<close>

definition core :: "mission \<Rightarrow> mission" where
  "core m = m\<lparr>execution_log := [], last_event_sequence := 0\<rparr>"

lemma core_fields [simp]:
  "mission_id (core m) = mission_id m" "legacy_type (core m) = legacy_type m"
  "mission_type (core m) = mission_type m" "payload (core m) = payload m" "title (core m) = title m"
  "status (core m) = status m" "participant_ids (core m) = participant_ids m"
  "provider (core m) = provider m" "execution_mode (core m) = execution_mode m"
  "provider_id (core m) = provider_id m" "resolved_provider_id (core m) = resolved_provider_id m"
  "reservation_id (core m) = reservation_id m" "constraints (core m) = constraints m"
  "fallback_rules (core m) = fallback_rules m" "scheduled_at (core m) = scheduled_at m"
  "expires_at (core m) = expires_at m" "claimed_at (core m) = claimed_at m"
  "execution_attempts (core m) = execution_attempts m"
  "max_execution_attempts (core m) = max_execution_attempts m" "best_option (core m) = best_option m"
  by (simp_all add: core_def)

text \<open>The fields of a mission seen through its core.\<close>

lemma core_D:
  assumes "core m = c"
  shows "mission_id m = mission_id c" "status m = status c" "participant_ids m = participant_ids c"
    "execution_mode m = execution_mode c" "provider_id m = provider_id c" "mission_type m = mission_type c"
    "resolved_provider_id m = resolved_provider_id c" "reservation_id m = reservation_id c"
    "constraints m = constraints c" "fallback_rules m = fallback_rules c"
    "scheduled_at m = scheduled_at c" "expires_at m = expires_at c" "claimed_at m = claimed_at c"
    "execution_attempts m = execution_attempts c" "max_execution_attempts m = max_execution_attempts c"
    "best_option m = best_option c"
  by (simp_all only: assms [symmetric] core_fields)

definition event_types :: "mission \<Rightarrow> string list" where
  "event_types m = map event_type (execution_log m)"

definition at :: "uuid \<Rightarrow> bool \<Rightarrow> mission \<Rightarrow> string list \<Rightarrow> 'a mission_repo_scheme \<Rightarrow> bool" where
  "at k opn c ts s \<longleftrightarrow> repo_mid k s \<and> ids_ok s \<and> has_open_attempt (attempts_of s k) = opn
     \<and> (\<exists>m. map_of (missions s) k = Some m \<and> core m = c \<and> event_types m = ts)"

lemma atE:
  assumes "at k opn c ts s"
  obtains m where "map_of (missions s) k = Some m" and "core m = c" and "event_types m = ts"
    and "mid_ok k m (attempts_of s k)" and "repo_mid k s" and "ids_ok s"
    and "has_open_attempt (attempts_of s k) = opn"
  using assms repo_mid_entry [of k s] unfolding at_def by blast

lemma at_initial:
  "repo_ok s \<Longrightarrow> ids_ok s \<Longrightarrow> map_of (missions s) k = Some m \<Longrightarrow>
     at k (status m = Processing) (core m) (event_types m) s"
  using repo_ok_entry [of s k m] by (simp add: at_def repo_ok_mid entry_ok_def)

text \<open>Replacing the mission under work.\<close>

lemma repo_mid_set:
  assumes "repo_mid k s" and "mid_ok k m (attempts_of s k)"
  shows "repo_mid k (s\<lparr>missions := dict_set k m (missions s)\<rparr>)"
proof (rule repo_mid_change(1) [OF assms(1), where m = m])
  show "dict_ok (missions (s\<lparr>missions := dict_set k m (missions s)\<rparr>))"
    using assms(1) by (simp add: repo_mid_def)
qed (simp_all add: assms(2))

lemma ids_ok_set:
  assumes "ids_ok s" and "map_of (missions s) k = Some m" and "execution_log m' = execution_log m"
  shows "ids_ok (s\<lparr>missions := dict_set k m' (missions s)\<rparr>)"
  using assms by (simp add: ids_ok_def)

lemma wp_assign_live:
  assumes "at k opn c ts s"
    and "\<And>m. core (f m) = f (core m)" and "\<And>m. execution_log (f m) = execution_log m"
    and "\<And>m as. core m = c \<Longrightarrow> mid_ok k m as \<Longrightarrow> mid_ok k (f m) as"
    and "\<And>m' s'. at k opn (f c) ts s' \<Longrightarrow> mission_repo.more s' = mission_repo.more s \<Longrightarrow> core m' = f c \<Longrightarrow> Q m' s'"
  shows "wp (assign_live k f) Q E s"
proof -
  from assms(1) obtain m where m: "map_of (missions s) k = Some m" "core m = c" "event_types m = ts"
      "mid_ok k m (attempts_of s k)" "repo_mid k s" "ids_ok s" "has_open_attempt (attempts_of s k) = opn"
    by (rule atE)
  let ?s = "s\<lparr>missions := dict_set k (f m) (missions s)\<rparr>"
  have "at k opn (f c) ts ?s"
    unfolding at_def
    using repo_mid_set [OF m(5) assms(4) [OF m(2,4)]] ids_ok_set [OF m(6,1) assms(3)] m(3,7)
      assms(2) [of m] m(2) assms(3) [of m]
    by (simp add: event_types_def)
  then have "Q (f m) ?s" using assms(2) [of m] m(2) by (intro assms(5)) simp_all
  then show ?thesis by (simp add: assign_live_def wp_on_mission [OF m(1)])
qed

lemma wp_transition_live:
  assumes "at k opn c ts s"
    and "can_transition (status c) target False False" and "target \<noteq> Processing"
    and "opn \<Longrightarrow> target \<in> {RequiresConfirmation, Completed, Failed}"
    and "\<And>m' s'. at k opn (c\<lparr>status := target, claimed_at := None\<rparr>) ts s' \<Longrightarrow>
           mission_repo.more s' = mission_repo.more s \<Longrightarrow> core m' = c\<lparr>status := target, claimed_at := None\<rparr> \<Longrightarrow> Q m' s'"
  shows "wp (transition_live k target) Q E s"
proof -
  from assms(1) obtain m where m: "map_of (missions s) k = Some m" "core m = c" "event_types m = ts"
      "mid_ok k m (attempts_of s k)" "repo_mid k s" "ids_ok s" "has_open_attempt (attempts_of s k) = opn"
    by (rule atE)
  let ?m = "m\<lparr>status := target, claimed_at := None\<rparr>"
  let ?s = "s\<lparr>missions := dict_set k ?m (missions s)\<rparr>"
  have t: "transition m target None False False = Inr ?m"
    using assms(2,3) m(2) by (intro transition_succeeds) auto
  have mid: "mid_ok k ?m (attempts_of s k)" using mid_ok_status [OF m(4) assms(3)] assms(4) m(7) by blast
  have c: "core ?m = c\<lparr>status := target, claimed_at := None\<rparr>" using m(2) by (auto simp: core_def)
  have "at k opn (c\<lparr>status := target, claimed_at := None\<rparr>) ts ?s"
    unfolding at_def using repo_mid_set [OF m(5) mid] ids_ok_set [OF m(6,1), of ?m] m(3,7) c
    by (simp add: event_types_def)
  then have "Q ?m ?s" using c by (intro assms(5)) simp_all
  then show ?thesis by (simp add: transition_live_def wp_on_mission [OF m(1)] t)
qed

lemma claim_ok_log [simp]: "claim_ok (m\<lparr>execution_log := es, last_event_sequence := n\<rparr>) = claim_ok m"
  by (simp add: claim_ok_def)

lemma ids_ok_event:
  assumes "ids_ok s" and "map_of (missions s) k = Some m"
    and "event_id ` set (execution_log m') \<subseteq> insert (fresh s (tick s)) (event_id ` set (execution_log m))"
  shows "ids_ok (s\<lparr>tick := Suc (tick s), missions := dict_set k m' (missions s)\<rparr>)"
proof -
  have "fresh s n \<noteq> fresh s (tick s)" if "Suc (tick s) \<le> n" for n
    using assms(1) that unfolding ids_ok_def inj_def by (metis Suc_n_not_le_n)
  moreover have "fresh s n \<notin> event_id ` set (execution_log m)" if "tick s \<le> n" for n
    using assms(1,2) that unfolding ids_ok_def by blast
  ultimately have here: "fresh s n \<notin> event_id ` set (execution_log m')" if "Suc (tick s) \<le> n" for n
    using assms(3) that by (metis Suc_leD insertE subsetD)
  have others: "fresh s n \<notin> event_id ` set (execution_log m2)"
    if "map_of (missions s) k2 = Some m2" "Suc (tick s) \<le> n" for k2 m2 n
    using assms(1) that unfolding ids_ok_def by (meson Suc_leD)
  show ?thesis
    unfolding ids_ok_def
  proof (intro conjI allI impI)
    fix k2 m2 n
    let ?s = "s\<lparr>tick := Suc (tick s), missions := dict_set k m' (missions s)\<rparr>"
    assume "map_of (missions ?s) k2 = Some m2" and "tick ?s \<le> n"
    then show "fresh ?s n \<notin> event_id ` set (execution_log m2)"
      using here [of n] others [of k2 m2 n] by (cases "k2 = k") simp_all
  qed (use assms(1) in \<open>simp_all add: ids_ok_def\<close>)
qed

lemma wp_record_live:
  assumes "at k opn c ts s"
    and "\<And>m' s'. at k opn c (ts @ [ty]) s' \<Longrightarrow> mission_repo.more s' = mission_repo.more s \<Longrightarrow> core m' = c \<Longrightarrow> Q m' s'"
  shows "wp (record_live k t ty msg meta) Q E s"
proof -
  from assms(1) obtain m where m: "map_of (missions s) k = Some m" "core m = c" "event_types m = ts"
      "mid_ok k m (attempts_of s k)" "repo_mid k s" "ids_ok s" "has_open_attempt (attempts_of s k) = opn"
    by (rule atE)
  let ?i = "fresh s (tick s)"
  have valid: "log_valid m" using m(4) by (simp add: mid_ok_def)
  have i: "?i \<noteq> 0" "?i \<notin> event_id ` set (execution_log m)" using m(1,6) by (auto simp: ids_ok_def)
  then obtain m' where r: "record_event ?i t ty msg meta m = Inr m'"
    using record_event_succeeds [OF valid] by blast
  from record_event_cases [OF r] obtain ev where log: "execution_log m' = execution_log m @ [ev]"
    and m': "m' = m\<lparr>execution_log := execution_log m @ [ev], last_event_sequence := last_event_sequence m + 1\<rparr>"
    and ev: "event_id ev = ?i" "event_type ev = ty" by metis
  let ?s = "s\<lparr>tick := Suc (tick s), missions := dict_set k m' (missions s)\<rparr>"
  have mid: "mid_ok k m' (attempts_of s k)"
    using m(4) record_event_log_valid [OF valid r] unfolding m' by (simp add: mid_ok_def)
  have c: "core m' = c" using m(2) unfolding m' by (auto simp: core_def)
  have "repo_mid k (s\<lparr>tick := Suc (tick s)\<rparr>)" using m(5) by (simp add: repo_mid_frame [of "s\<lparr>tick := Suc (tick s)\<rparr>" s])
  from repo_mid_set [OF this, of m'] mid have "repo_mid k ?s" by simp
  moreover have "ids_ok ?s" using ids_ok_event [OF m(6,1), of m'] log ev by simp
  ultimately have "at k opn c (ts @ [ty]) ?s"
    unfolding at_def using m(3,7) c log ev by (simp add: event_types_def)
  then have "Q m' ?s" using c by (intro assms(2)) simp_all
  then show ?thesis
    using m(1) by (simp add: record_live_def wp wp_on_mission r)
qed

section \<open>Update closes the attempt\<close>

lemma update_open_attempt_eq:
  assumes "has_open_attempt (attempts_of s k)"
  shows "update_open_attempt k f s =
     s\<lparr>attempts := dict_set k (butlast (attempts_of s k) @ [f (last (attempts_of s k))]) (attempts s)\<rparr>"
  using assms by (simp add: update_open_attempt_def)

definition closed_entry :: "attempt list \<Rightarrow> (attempt \<Rightarrow> attempt) \<Rightarrow> attempt list" where
  "closed_entry as f = butlast as @ [f (last as)]"

lemma closed_entry_mid:
  assumes "mid_ok k m as" and "has_open_attempt as"
    and "\<And>a. attempt_number (f a) = attempt_number a" and "\<And>a. attempt_mission_id (f a) = attempt_mission_id a"
  shows "sorted_wrt (<) (map attempt_number (closed_entry as f))"
    and "\<forall>a \<in> set (closed_entry as f). attempt_mission_id a = k \<and> attempt_number a \<le> execution_attempts m"
    and "\<forall>a \<in> set (butlast (closed_entry as f)). attempt_status a \<noteq> AttemptProcessing"
proof -
  from assms(2) obtain bs b where as: "as = bs @ [b]"
    by (cases as rule: rev_cases) (auto simp: has_open_attempt_def)
  show "sorted_wrt (<) (map attempt_number (closed_entry as f))"
    using assms(1,3) by (simp add: as closed_entry_def mid_ok_def sorted_wrt_append)
  show "\<forall>a \<in> set (closed_entry as f). attempt_mission_id a = k \<and> attempt_number a \<le> execution_attempts m"
    using assms(1,3,4) by (simp add: as closed_entry_def mid_ok_def)
  show "\<forall>a \<in> set (butlast (closed_entry as f)). attempt_status a \<noteq> AttemptProcessing"
    using assms(1) by (simp add: as closed_entry_def mid_ok_def)
qed

lemma open_closed_entry: "has_open_attempt (closed_entry as f) \<longleftrightarrow> attempt_status (f (last as)) = AttemptProcessing"
  by (simp add: has_open_attempt_def closed_entry_def)

lemma closed_entry_ok:
  assumes "mid_ok k m as" and "has_open_attempt as"
    and "\<And>a. attempt_number (f a) = attempt_number a" and "\<And>a. attempt_mission_id (f a) = attempt_mission_id a"
    and "(attempt_status (f (last as)) = AttemptProcessing) = (status m = Processing)"
  shows "entry_ok k m (closed_entry as f)"
  unfolding entry_ok_def open_closed_entry
  using assms(1,5) closed_entry_mid [OF assms(1-4)] by (simp add: mid_ok_def)

lemma store_same:
  "mission_id m = k \<Longrightarrow> map_of (missions s) k = Some m \<Longrightarrow> store_mission m s = s"
  by (simp add: store_mission_def dict_set_same)

text \<open>The state after \<open>update\<close> of a mission under work.\<close>

lemma attempt_status_of_open:
  "st \<in> {RequiresConfirmation, Completed, Failed} \<Longrightarrow> \<exists>x. attempt_status_of st = Some x \<and> x \<noteq> AttemptProcessing"
  by auto

lemma update_closed:
  assumes "map_of (missions s) k = Some m" and "mission_id m = k" and "\<not> has_open_attempt (attempts_of s k)"
    and "status m \<noteq> Processing"
  shows "update_mission m s = (Inr m, s)"
  using assms store_same [OF assms(2,1)]
  by (cases "attempt_status_of (status m)")
    (simp_all add: update_mission_def thenE_def bindE_def ret_def gets_def modify_def)

lemma update_processing:
  assumes "map_of (missions s) k = Some m" and "mission_id m = k" and "has_open_attempt (attempts_of s k)"
    and "status m = Processing"
  shows "update_mission m s = (Inr m, s\<lparr>attempts := dict_set k (closed_entry (attempts_of s k)
      (\<lambda>a. if resolved_provider_id m = None then a
           else a\<lparr>attempt_resolved_provider_id := resolved_provider_id m\<rparr>)) (attempts s)\<rparr>)"
proof -
  have same: "dict_set k (attempts_of s k) (attempts s) = attempts s"
    using assms(3) by (cases "map_of (attempts s) k")
      (simp_all add: attempts_of_def dict_get_or_def has_open_attempt_def dict_set_same)
  have "attempts_of s k \<noteq> []" using assms(3) by (simp add: has_open_attempt_def)
  then have id: "closed_entry (attempts_of s k) (\<lambda>a. a) = attempts_of s k" by (simp add: closed_entry_def)
  show ?thesis
  proof (cases "resolved_provider_id m")
    case None
    then show ?thesis
      using assms store_same [OF assms(2,1)]
      by (simp add: update_mission_def thenE_def bindE_def ret_def modify_def set_open_attempt_provider_def same id)
  next
    case (Some p)
    let ?s = "s\<lparr>attempts := dict_set k (closed_entry (attempts_of s k)
       (\<lambda>a. a\<lparr>attempt_resolved_provider_id := Some p\<rparr>)) (attempts s)\<rparr>"
    have "store_mission m ?s = ?s" using assms(1) by (intro store_same [OF assms(2)]) simp
    then show ?thesis
      using assms Some update_open_attempt_eq [OF assms(3)]
      by (simp add: update_mission_def thenE_def bindE_def ret_def modify_def set_open_attempt_provider_def
                    closed_entry_def)
  qed
qed

lemma update_closes:
  assumes "map_of (missions s) k = Some m" and "mission_id m = k" and "has_open_attempt (attempts_of s k)"
    and "attempt_status_of (status m) = Some st" and "status m \<noteq> Processing" and "execution_log m \<noteq> []"
  shows "update_mission m s = (Inr m, s\<lparr>attempts := dict_set k (closed_entry (attempts_of s k)
      (\<lambda>a. a\<lparr>attempt_status := st, attempt_finished_at := Some (event_timestamp (last (execution_log m))),
             attempt_resolved_provider_id := resolved_provider_id m,
             attempt_reservation_id := reservation_id m\<rparr>)) (attempts s)\<rparr>)"
    (is "_ = (Inr m, ?s)")
proof -
  have "store_mission m ?s = ?s" using assms(1) by (intro store_same [OF assms(2)]) simp
  then show ?thesis
    using assms update_open_attempt_eq [OF assms(3)]
    by (simp add: update_mission_def thenE_def bindE_def ret_def modify_def gets_def liftE_def
                  mission_event_time_def close_execution_attempt_def closed_entry_def)
qed

lemma wp_update_live:
  assumes "at k opn c ts s" and "ts \<noteq> []"
    and "\<And>m s'. at k (status c = Processing) c ts s' \<Longrightarrow> repo_ok s' \<Longrightarrow> map_of (missions s') k = Some m \<Longrightarrow>
        mission_repo.more s' = mission_repo.more s \<Longrightarrow> core m = c \<Longrightarrow> event_types m = ts \<Longrightarrow> Q m s'"
  shows "wp (update_live k) Q E s"
proof -
  from assms(1) obtain m where m: "map_of (missions s) k = Some m" "core m = c" "event_types m = ts"
      "mid_ok k m (attempts_of s k)" "repo_mid k s" "ids_ok s" "has_open_attempt (attempts_of s k) = opn"
    by (rule atE)
  have st: "status m = status c" using core_D [OF m(2)] by simp
  have id: "mission_id m = k" using m(4) by (simp add: mid_ok_def)
  have log: "execution_log m \<noteq> []" using m(3) assms(2) by (auto simp: event_types_def)
  have "\<exists>as. update_mission m s = (Inr m, s\<lparr>attempts := as\<rparr>) \<and> entry_ok k m (attempts_of (s\<lparr>attempts := as\<rparr>) k)
      \<and> (\<forall>k'. k' \<noteq> k \<longrightarrow> attempts_of (s\<lparr>attempts := as\<rparr>) k' = attempts_of s k')"
  proof (cases opn)
    case False
    then have "status m \<noteq> Processing" using m(4,7) by (simp add: mid_ok_def)
    moreover have "entry_ok k m (attempts_of s k)" using mid_ok_entry [OF m(4)] False m(7) by simp
    moreover have "s\<lparr>attempts := attempts s\<rparr> = s" by simp
    ultimately show ?thesis
      using update_closed [OF m(1) id] False m(7) by (intro exI [of _ "attempts s"]) simp
  next
    case True
    then have opened: "has_open_attempt (attempts_of s k)" using m(7) by simp
    show ?thesis
    proof (cases "status m = Processing")
      case True
      have "entry_ok k m (closed_entry (attempts_of s k) (\<lambda>a. if resolved_provider_id m = None then a
           else a\<lparr>attempt_resolved_provider_id := resolved_provider_id m\<rparr>))"
        using True opened by (intro closed_entry_ok [OF m(4) opened]) (simp_all add: has_open_attempt_def)
      then show ?thesis
        using update_processing [OF m(1) id opened True] by (auto simp: attempts_of_set)
    next
      case False
      then have "status m \<in> {RequiresConfirmation, Completed, Failed}" using m(4) opened by (simp add: mid_ok_def)
      then obtain x where x: "attempt_status_of (status m) = Some x" "x \<noteq> AttemptProcessing"
        using attempt_status_of_open by blast
      have "entry_ok k m (closed_entry (attempts_of s k)
        (\<lambda>a. a\<lparr>attempt_status := x, attempt_finished_at := Some (event_timestamp (last (execution_log m))),
             attempt_resolved_provider_id := resolved_provider_id m,
             attempt_reservation_id := reservation_id m\<rparr>))"
        using x(2) False by (intro closed_entry_ok [OF m(4) opened]) simp_all
      then show ?thesis
        using update_closes [OF m(1) id opened x(1) False log] by (auto simp: attempts_of_set)
    qed
  qed
  then obtain as where u: "update_mission m s = (Inr m, s\<lparr>attempts := as\<rparr>)"
    and e: "entry_ok k m (attempts_of (s\<lparr>attempts := as\<rparr>) k)"
    and o: "\<And>k'. k' \<noteq> k \<Longrightarrow> attempts_of (s\<lparr>attempts := as\<rparr>) k' = attempts_of s k'" by blast
  have ok: "repo_ok (s\<lparr>attempts := as\<rparr>)"
    by (rule repo_mid_change(2) [OF m(5) _ _ o e]) (use m(1,5) in \<open>simp_all add: repo_mid_def fun_upd_idem\<close>)
  have ids: "ids_ok (s\<lparr>attempts := as\<rparr>)" using m(6) ids_ok_frame [of "s\<lparr>attempts := as\<rparr>" s] by simp
  from at_initial [OF ok ids, of k m] have "at k (status c = Processing) c ts (s\<lparr>attempts := as\<rparr>)"
    using m(1-3) st by simp
  then have "Q m (s\<lparr>attempts := as\<rparr>)" using ok m(1-3) by (intro assms(3)) simp_all
  then show ?thesis using m(1) by (simp add: update_live_def wp_def bindE_def live_def u)
qed

lemma wp_live:
  assumes "at k opn c ts s" and "\<And>m. core m = c \<Longrightarrow> map_of (missions s) k = Some m \<Longrightarrow> Q m s"
  shows "wp (live k) Q E s"
proof -
  from assms(1) obtain m where m: "map_of (missions s) k = Some m" "core m = c" by (rule atE)
  from assms(2) [OF m(2,1)] show ?thesis by (simp add: wp_def live_def m(1))
qed

lemma at_frame:
  assumes "missions s' = missions s" and "attempts s' = attempts s" and "fresh s' = fresh s" and "tick s' = tick s"
  shows "at k opn c ts s' = at k opn c ts s"
  unfolding at_def repo_mid_frame [OF assms(1,2)] ids_ok_frame [OF assms(1,3,4)]
    attempts_of_frame [OF assms(2)] assms(1) by (rule refl)

end
