(* ===== verification/Providers.thy ===== *)
theory Providers
  imports EventLog
begin

text \<open>
  Provider adapters, the registry and the resolver (\<open>app/adapters/base.py\<close>,
  \<open>registry.py\<close>, \<open>app/services/provider_resolver.py\<close>), the resolution payloads of
  the event log (\<open>app/domain/provider_resolution.py\<close>) and the read-only preview
  (\<open>provider_resolution_preview.py\<close>). An adapter is a record of the methods of the abstract
  class \<open>ProviderAdapter\<close>; its methods act on a state \<open>'w\<close> behind the adapter and may
  raise.
\<close>

section \<open>Adapters and the registry\<close>

record capability =
  capability_mission_type :: mission_type
  supports_auto_purchase :: bool

record 'w adapter =
  adapter_id :: string
  capabilities :: "capability list"
  search_options :: "mission \<Rightarrow> identity list \<Rightarrow> ('w, exn, provider_option list) prog"
  reserve_option :: "provider_option \<Rightarrow> mission \<Rightarrow> string \<Rightarrow> ('w, exn, reservation_result) prog"
  confirm_reservation :: "string \<Rightarrow> mission \<Rightarrow> string \<Rightarrow> ('w, exn, confirmation_result) prog"
  cancel_reservation :: "string \<Rightarrow> mission \<Rightarrow> string \<Rightarrow> ('w, exn, cancellation_result) prog"

definition supports :: "'w adapter \<Rightarrow> mission_type \<Rightarrow> bool" where
  "supports a mt \<longleftrightarrow> (\<exists>c \<in> set (capabilities a). capability_mission_type c = mt)"

definition supports_execution_mode :: "'w adapter \<Rightarrow> mission_type \<Rightarrow> execution_mode \<Rightarrow> bool" where
  "supports_execution_mode a mt mode =
     (if mode \<noteq> AutoPurchase
      then (\<exists>c \<in> set (capabilities a). capability_mission_type c = mt)
      else (\<exists>c \<in> set (capabilities a). capability_mission_type c = mt \<and> supports_auto_purchase c))"

record 'w registry =
  adapters :: "'w adapter list"
  adapters_by_id :: "(string, 'w adapter) dict"

fun register_adapters :: "'w adapter list \<Rightarrow> (string, 'w adapter) dict \<Rightarrow> exn + (string, 'w adapter) dict" where
  "register_adapters [] by_id = Inr by_id"
| "register_adapters (a # as) by_id =
     (if py_strip (adapter_id a) = [] then Inl (InvalidProviderIdError (adapter_id a))
      else if map_of by_id (adapter_id a) \<noteq> None then Inl (DuplicateProviderIdError (adapter_id a))
      else register_adapters as (dict_set (adapter_id a) a by_id))"

definition make_registry :: "'w adapter list \<Rightarrow> exn + 'w registry" where
  "make_registry as =
     (case register_adapters as [] of
        Inl e \<Rightarrow> Inl e
      | Inr by_id \<Rightarrow> Inr \<lparr>adapters = as, adapters_by_id = by_id\<rparr>)"

definition registry_get :: "'w registry \<Rightarrow> string \<Rightarrow> exn + 'w adapter" where
  "registry_get r pid =
     (case map_of (adapters_by_id r) pid of
        Some a \<Rightarrow> Inr a
      | None \<Rightarrow> Inl (UnknownProviderError pid))"

definition list_supporting :: "'w registry \<Rightarrow> mission_type \<Rightarrow> 'w adapter list" where
  "list_supporting r mt = filter (\<lambda>a. supports a mt) (adapters r)"

section \<open>The resolver\<close>

definition check_explicit :: "'w adapter \<Rightarrow> mission_type \<Rightarrow> execution_mode \<Rightarrow> exn + 'w adapter" where
  "check_explicit a mt mode =
     (if \<not> supports a mt then Inl (UnsupportedMissionTypeError (adapter_id a) mt)
      else if \<not> supports_execution_mode a mt mode
      then Inl (UnsupportedExecutionModeError mode (Some (adapter_id a)))
      else Inr a)"

definition resolve :: "'w registry \<Rightarrow> mission \<Rightarrow> exn + 'w adapter" where
  "resolve r m =
     (case provider_id m of
        Some pid \<Rightarrow>
          (case registry_get r pid of
             Inl e \<Rightarrow> Inl e
           | Inr a \<Rightarrow> check_explicit a (mission_type m) (execution_mode m))
      | None \<Rightarrow>
          (let mission_type_adapters = list_supporting r (mission_type m);
               supporting = filter (\<lambda>a. supports_execution_mode a (mission_type m) (execution_mode m))
                 mission_type_adapters
           in if mission_type_adapters \<noteq> [] \<and> supporting = []
              then Inl (UnsupportedExecutionModeError (execution_mode m) None)
              else (case supporting of
                  [] \<Rightarrow> Inl (NoSupportingProviderError (mission_type m))
                | [a] \<Rightarrow> Inr a
                | _ \<Rightarrow> Inl (AmbiguousProviderError (mission_type m) (map adapter_id supporting)))))"

section \<open>Resolution payloads\<close>

datatype selection_mode = Explicit | Automatic

datatype failure_reason =
  UnknownProvider | UnsupportedMissionType | UnsupportedExecutionMode | NoSupportingProvider | AmbiguousProvider

fun selection_mode_value :: "selection_mode \<Rightarrow> string" where
  "selection_mode_value Explicit = ''explicit''"
| "selection_mode_value Automatic = ''automatic''"

fun failure_reason_value :: "failure_reason \<Rightarrow> string" where
  "failure_reason_value UnknownProvider = ''unknown_provider''"
| "failure_reason_value UnsupportedMissionType = ''unsupported_mission_type''"
| "failure_reason_value UnsupportedExecutionMode = ''unsupported_execution_mode''"
| "failure_reason_value NoSupportingProvider = ''no_supporting_provider''"
| "failure_reason_value AmbiguousProvider = ''ambiguous_provider''"

definition selection_mode_for :: "string option \<Rightarrow> selection_mode" where
  "selection_mode_for pid = (if pid \<noteq> None then Explicit else Automatic)"

definition mission_type_value :: "mission_type \<Rightarrow> string" where
  "mission_type_value mt = ''train_ticket''"

text \<open>Every identifier is normalised, then they must be unique.\<close>

definition normalize_candidates :: "string list \<Rightarrow> exn + string list" where
  "normalize_candidates ids =
     (if \<exists>i \<in> set ids. py_strip i = [] then Inl ValidationError
      else if \<not> distinct (map py_strip ids) then Inl ValidationError
      else Inr (map py_strip ids))"

record snapshot =
  snapshot_mode :: selection_mode
  snapshot_requested :: "string option"
  snapshot_resolved :: string
  snapshot_candidates :: "string list"
  snapshot_mission_type :: mission_type

text \<open>\<open>ProviderResolutionSnapshot(...)\<close> with its field validators and
  \<open>validate_snapshot\<close>.\<close>

definition make_snapshot ::
  "selection_mode \<Rightarrow> string option \<Rightarrow> string \<Rightarrow> string list \<Rightarrow> mission_type \<Rightarrow> exn + snapshot" where
  "make_snapshot mode requested resolved candidates mt =
     (case (normalize_provider_id requested, normalize_provider_id (Some resolved),
            normalize_candidates candidates) of
        (Inr req, Inr (Some res), Inr cands) \<Rightarrow>
          if cands = [] then Inl ValidationError
          else if res \<notin> set cands then Inl ValidationError
          else if mode = Automatic \<and> req \<noteq> None then Inl ValidationError
          else if mode \<noteq> Automatic \<and> req \<noteq> Some res then Inl ValidationError
          else Inr \<lparr>snapshot_mode = mode, snapshot_requested = req, snapshot_resolved = res,
                 snapshot_candidates = cands, snapshot_mission_type = mt\<rparr>
      | _ \<Rightarrow> Inl ValidationError)"

definition create_provider_resolution_snapshot :: "mission \<Rightarrow> string \<Rightarrow> string list \<Rightarrow> exn + snapshot" where
  "create_provider_resolution_snapshot m resolved candidates =
     make_snapshot (selection_mode_for (provider_id m)) (provider_id m) resolved candidates (mission_type m)"

record resolved_payload =
  resolved_payload_provider :: string
  resolved_payload_type :: mission_type
  resolved_payload_mode :: selection_mode
  resolved_payload_snapshot :: "snapshot option"

definition make_resolved_payload ::
  "string \<Rightarrow> mission_type \<Rightarrow> selection_mode \<Rightarrow> snapshot option \<Rightarrow> exn + resolved_payload" where
  "make_resolved_payload pid mt mode snap =
     (case normalize_provider_id (Some pid) of
        Inr (Some p) \<Rightarrow>
          (case snap of
             None \<Rightarrow> Inr \<lparr>resolved_payload_provider = p, resolved_payload_type = mt,
                       resolved_payload_mode = mode, resolved_payload_snapshot = None\<rparr>
           | Some s \<Rightarrow>
               if p \<noteq> snapshot_resolved s \<or> mt \<noteq> snapshot_mission_type s \<or> mode \<noteq> snapshot_mode s
               then Inl ValidationError
               else Inr \<lparr>resolved_payload_provider = p, resolved_payload_type = mt,
                      resolved_payload_mode = mode, resolved_payload_snapshot = Some s\<rparr>)
      | _ \<Rightarrow> Inl ValidationError)"

record failed_payload =
  failed_reason :: failure_reason
  failed_mission_type :: mission_type
  failed_requested :: "string option"
  failed_candidates :: "string list"

text \<open>\<open>validate_reason_fields\<close>, branch by branch.\<close>

definition reason_fields_ok :: "failure_reason \<Rightarrow> string option \<Rightarrow> string list \<Rightarrow> bool" where
  "reason_fields_ok reason requested candidates =
     (if reason \<in> {UnknownProvider, UnsupportedMissionType}
      then requested \<noteq> None \<and> candidates = []
      else if reason \<in> {NoSupportingProvider, UnsupportedExecutionMode}
      then (if reason = UnsupportedExecutionMode \<and> requested \<noteq> None then candidates = []
            else requested = None \<and> candidates = [])
      else requested = None \<and> length candidates \<ge> 2)"

definition make_failed_payload ::
  "failure_reason \<Rightarrow> mission_type \<Rightarrow> string option \<Rightarrow> string list \<Rightarrow> exn + failed_payload" where
  "make_failed_payload reason mt requested candidates =
     (case (normalize_provider_id requested, normalize_candidates candidates) of
        (Inr req, Inr cands) \<Rightarrow>
          if reason_fields_ok reason req cands
          then Inr \<lparr>failed_reason = reason, failed_mission_type = mt, failed_requested = req,
                 failed_candidates = cands\<rparr>
          else Inl ValidationError
      | _ \<Rightarrow> Inl ValidationError)"

record selection_payload =
  previous_provider_id :: "string option"
  new_provider_id :: "string option"
  previous_selection_mode :: selection_mode
  new_selection_mode :: selection_mode

definition make_selection_payload ::
  "string option \<Rightarrow> string option \<Rightarrow> selection_mode \<Rightarrow> selection_mode \<Rightarrow> exn + selection_payload" where
  "make_selection_payload previous new pmode nmode =
     (case (normalize_provider_id previous, normalize_provider_id new) of
        (Inr p, Inr n) \<Rightarrow>
          if p = n then Inl ValidationError
          else if pmode \<noteq> selection_mode_for p then Inl ValidationError
          else if nmode \<noteq> selection_mode_for n then Inl ValidationError
          else Inr \<lparr>previous_provider_id = p, new_provider_id = n,
                 previous_selection_mode = pmode, new_selection_mode = nmode\<rparr>
      | _ \<Rightarrow> Inl ValidationError)"

text \<open>\<open>model_dump(mode="json")\<close> of the payloads.\<close>

definition dump_snapshot :: "snapshot \<Rightarrow> json" where
  "dump_snapshot s = JObj
     [(''selection_mode'', JStr (selection_mode_value (snapshot_mode s))),
      (''requested_provider_id'', json_of_option JStr (snapshot_requested s)),
      (''resolved_provider_id'', JStr (snapshot_resolved s)),
      (''candidate_provider_ids'', JList (map JStr (snapshot_candidates s))),
      (''mission_type'', JStr (mission_type_value (snapshot_mission_type s)))]"

definition dump_resolved :: "resolved_payload \<Rightarrow> metadata" where
  "dump_resolved p =
     [(''provider_id'', JStr (resolved_payload_provider p)),
      (''mission_type'', JStr (mission_type_value (resolved_payload_type p))),
      (''selection_mode'', JStr (selection_mode_value (resolved_payload_mode p))),
      (''snapshot'', json_of_option dump_snapshot (resolved_payload_snapshot p))]"

definition dump_failed :: "failed_payload \<Rightarrow> metadata" where
  "dump_failed p =
     [(''reason'', JStr (failure_reason_value (failed_reason p))),
      (''mission_type'', JStr (mission_type_value (failed_mission_type p))),
      (''requested_provider_id'', json_of_option JStr (failed_requested p)),
      (''candidate_provider_ids'', JList (map JStr (failed_candidates p)))]"

definition dump_selection :: "selection_payload \<Rightarrow> metadata" where
  "dump_selection p =
     [(''previous_provider_id'', json_of_option JStr (previous_provider_id p)),
      (''new_provider_id'', json_of_option JStr (new_provider_id p)),
      (''previous_selection_mode'', JStr (selection_mode_value (previous_selection_mode p))),
      (''new_selection_mode'', JStr (selection_mode_value (new_selection_mode p)))]"

text \<open>\<open>create_provider_selection_changed_event\<close>.\<close>

definition create_provider_selection_changed_event ::
  "uuid \<Rightarrow> mission \<Rightarrow> string option \<Rightarrow> string option \<Rightarrow> datetime \<Rightarrow> exn + mission" where
  "create_provider_selection_changed_event new_id m previous new occurred_at =
     (if \<not> is_aware occurred_at then Inl (ValueError ''occurred_at must be timezone-aware'')
      else (case make_selection_payload previous new (selection_mode_for previous) (selection_mode_for new) of
          Inl e \<Rightarrow> Inl e
        | Inr p \<Rightarrow> record_event new_id occurred_at ''provider_selection_changed''
            ''Mission provider selection changed.'' (dump_selection p) m))"

text \<open>\<open>_provider_resolution_failure_payload\<close> of the mission engine. The last branch is the
  code's \<open>else\<close>: the exception is the ambiguity, with the candidates it carries.\<close>

definition provider_resolution_failure_payload :: "mission \<Rightarrow> exn \<Rightarrow> exn + metadata" where
  "provider_resolution_failure_payload m error =
     (case (case error of
          UnknownProviderError _ \<Rightarrow> (UnknownProvider, provider_id m, [])
        | UnsupportedMissionTypeError _ _ \<Rightarrow> (UnsupportedMissionType, provider_id m, [])
        | UnsupportedExecutionModeError _ _ \<Rightarrow> (UnsupportedExecutionMode, provider_id m, [])
        | NoSupportingProviderError _ \<Rightarrow> (NoSupportingProvider, None, [])
        | AmbiguousProviderError _ ids \<Rightarrow> (AmbiguousProvider, None, ids)
        | _ \<Rightarrow> (AmbiguousProvider, None, [])) of
        (reason, requested, candidates) \<Rightarrow>
          map_sum id dump_failed (make_failed_payload reason (mission_type m) requested candidates))"

section \<open>The preview\<close>

datatype preview_outcome = PreviewResolved | PreviewFailed failure_reason

record preview =
  preview_mission_id :: uuid
  preview_mission_type :: mission_type
  preview_mode :: selection_mode
  preview_requested :: "string option"
  preview_outcome :: preview_outcome
  preview_resolved :: "string option"
  preview_candidates :: "string list"
  preview_failure :: "failure_reason option"

text \<open>\<open>ProviderResolutionPreview.validate_outcome\<close>.\<close>

definition preview_ok :: "preview \<Rightarrow> bool" where
  "preview_ok p \<longleftrightarrow>
     preview_mode p = selection_mode_for (preview_requested p) \<and>
     (case preview_outcome p of
        PreviewResolved \<Rightarrow>
          (case preview_resolved p of
             None \<Rightarrow> False
           | Some pid \<Rightarrow> preview_failure p = None \<and> preview_candidates p = [pid])
      | PreviewFailed reason \<Rightarrow>
          preview_resolved p = None \<and> preview_failure p = Some reason \<and>
          (if reason \<in> {UnknownProvider, UnsupportedMissionType}
           then preview_requested p \<noteq> None \<and> preview_candidates p = []
           else if reason = UnsupportedExecutionMode then preview_candidates p = []
           else if reason = NoSupportingProvider
           then preview_requested p = None \<and> preview_candidates p = []
           else preview_requested p = None \<and> length (preview_candidates p) \<ge> 2))"

definition make_preview :: "preview \<Rightarrow> exn + preview" where
  "make_preview p = (if preview_ok p then Inr p else Inl ValidationError)"

definition failure_preview :: "mission \<Rightarrow> failure_reason \<Rightarrow> string list \<Rightarrow> exn + preview" where
  "failure_preview m reason candidates = make_preview
     \<lparr>preview_mission_id = mission_id m, preview_mission_type = mission_type m,
      preview_mode = selection_mode_for (provider_id m), preview_requested = provider_id m,
      preview_outcome = PreviewFailed reason, preview_resolved = None,
      preview_candidates = candidates, preview_failure = Some reason\<rparr>"

text \<open>\<open>PreviewMissionProviderResolution.execute\<close> on the mission the repository returned.\<close>

definition preview_resolution :: "'w registry \<Rightarrow> mission option \<Rightarrow> exn + preview" where
  "preview_resolution r found =
     (case found of
        None \<Rightarrow> Inl MissionNotFoundError
      | Some m \<Rightarrow>
          (case resolve r m of
             Inl (UnknownProviderError _) \<Rightarrow> failure_preview m UnknownProvider []
           | Inl (UnsupportedMissionTypeError _ _) \<Rightarrow> failure_preview m UnsupportedMissionType []
           | Inl (UnsupportedExecutionModeError _ _) \<Rightarrow> failure_preview m UnsupportedExecutionMode []
           | Inl (NoSupportingProviderError _) \<Rightarrow> failure_preview m NoSupportingProvider []
           | Inl (AmbiguousProviderError _ ids) \<Rightarrow> failure_preview m AmbiguousProvider ids
           | Inl e \<Rightarrow> Inl e
           | Inr a \<Rightarrow> make_preview
               \<lparr>preview_mission_id = mission_id m, preview_mission_type = mission_type m,
                preview_mode = selection_mode_for (provider_id m), preview_requested = provider_id m,
                preview_outcome = PreviewResolved, preview_resolved = Some (adapter_id a),
                preview_candidates = [adapter_id a], preview_failure = None\<rparr>))"

section \<open>Facts on the registry\<close>

lemma register_adapters_iff:
  "register_adapters as by_id = Inr d \<longleftrightarrow>
     d = by_id @ map (\<lambda>a. (adapter_id a, a)) as
     \<and> distinct (map adapter_id as) \<and> (\<forall>a \<in> set as. py_strip (adapter_id a) \<noteq> [])
     \<and> set (map adapter_id as) \<inter> fst ` set by_id = {}"
proof (induction as by_id rule: register_adapters.induct)
  case (2 a as by_id)
  have new: "dict_set k v d = d @ [(k, v)]" if "map_of d k = None" for k :: string and v :: "'a adapter" and d
    using that by (induction k v d rule: dict_set.induct) (auto split: if_splits)
  show ?case
    using 2 by (auto simp: new map_of_eq_None_iff)
qed auto

lemma make_registry_iff:
  "make_registry as = Inr r \<longleftrightarrow>
     adapters r = as \<and> adapters_by_id r = map (\<lambda>a. (adapter_id a, a)) as
     \<and> distinct (map adapter_id as) \<and> (\<forall>a \<in> set as. py_strip (adapter_id a) \<noteq> [])"
proof -
  have "make_registry as = Inr r \<longleftrightarrow>
      register_adapters as [] = Inr (adapters_by_id r) \<and> adapters r = as"
    by (cases "register_adapters as []"; cases r) (auto simp: make_registry_def)
  then show ?thesis by (auto simp: register_adapters_iff)
qed

text \<open>A registry as its constructor builds it.\<close>

definition registry_ok :: "'w registry \<Rightarrow> bool" where
  "registry_ok r \<longleftrightarrow> make_registry (adapters r) = Inr r"

lemma registry_ok_get:
  assumes "registry_ok r"
  shows "registry_get r pid = Inr a \<longleftrightarrow> a \<in> set (adapters r) \<and> adapter_id a = pid"
proof -
  have by_id: "adapters_by_id r = map (\<lambda>a. (adapter_id a, a)) (adapters r)"
    and d: "distinct (map adapter_id (adapters r))"
    using assms by (auto simp: registry_ok_def make_registry_iff)
  have keys: "map fst (adapters_by_id r) = map adapter_id (adapters r)"
    by (simp add: by_id comp_def)
  have "map_of (adapters_by_id r) pid = Some a \<longleftrightarrow> (pid, a) \<in> set (adapters_by_id r)"
    using d keys by (intro map_of_eq_Some_iff) simp
  then show ?thesis
    by (auto simp: registry_get_def by_id split: option.splits)
qed

lemma registry_get_error: "registry_get r pid = Inl e \<Longrightarrow> e = UnknownProviderError pid"
  by (auto simp: registry_get_def split: option.splits)

lemma registry_get_unknown:
  assumes "registry_ok r"
  shows "registry_get r pid = Inl e \<longleftrightarrow> e = UnknownProviderError pid \<and> pid \<notin> adapter_id ` set (adapters r)"
proof (cases "registry_get r pid")
  case (Inl e')
  then have "pid \<notin> adapter_id ` set (adapters r)"
    using registry_ok_get [OF assms, of pid] by auto
  then show ?thesis using Inl registry_get_error [OF Inl] by auto
next
  case (Inr a)
  then show ?thesis using registry_ok_get [OF assms, of pid a] by auto
qed

section \<open>Facts on the resolver\<close>

text \<open>The adapters that qualify for a mission.\<close>

definition qualifies :: "'w adapter \<Rightarrow> mission \<Rightarrow> bool" where
  "qualifies a m \<longleftrightarrow> supports a (mission_type m) \<and> supports_execution_mode a (mission_type m) (execution_mode m)"

lemma supports_mode_supports: "supports_execution_mode a mt mode \<Longrightarrow> supports a mt"
  by (auto simp: supports_execution_mode_def supports_def split: if_splits)

lemma check_explicit_Inr: "check_explicit a (mission_type m) (execution_mode m) = Inr b \<longleftrightarrow> b = a \<and> qualifies a m"
  by (auto simp: check_explicit_def qualifies_def)

lemma supporting_filter:
  "filter (\<lambda>a. supports_execution_mode a (mission_type m) (execution_mode m)) (list_supporting r (mission_type m))
     = filter (\<lambda>a. qualifies a m) (adapters r)"
  by (simp add: list_supporting_def qualifies_def conj_commute)

lemma resolve_automatic:
  assumes "provider_id m = None"
  shows "resolve r m = Inr a \<longleftrightarrow> filter (\<lambda>a. qualifies a m) (adapters r) = [a]"
  using assms
  by (auto simp: resolve_def supporting_filter Let_def split: list.splits)

lemma resolve_automatic_ambiguous:
  assumes "provider_id m = None" and "resolve r m = Inl (AmbiguousProviderError mt ids)"
  shows "ids = map adapter_id (filter (\<lambda>a. qualifies a m) (adapters r)) \<and> length ids \<ge> 2"
  using assms
  by (auto simp: resolve_def supporting_filter Let_def split: list.splits if_splits)

lemma resolve_explicit:
  assumes "registry_ok r" and "provider_id m = Some pid"
  shows "resolve r m = Inr a \<longleftrightarrow> a \<in> set (adapters r) \<and> adapter_id a = pid \<and> qualifies a m"
proof (cases "registry_get r pid")
  case (Inl e)
  then show ?thesis using assms registry_get_unknown [OF assms(1), of pid e] by (auto simp: resolve_def)
next
  case (Inr b)
  then have b: "b \<in> set (adapters r)" "adapter_id b = pid" using registry_ok_get [OF assms(1)] by auto
  have "a = b" if "a \<in> set (adapters r)" "adapter_id a = pid"
    using Inr that registry_ok_get [OF assms(1), of pid a] by simp
  with b Inr show ?thesis using assms(2) by (auto simp: resolve_def check_explicit_Inr)
qed

lemma resolve_qualifies:
  assumes "registry_ok r" and "resolve r m = Inr a"
  shows "a \<in> set (adapters r) \<and> qualifies a m \<and> (provider_id m = None \<or> provider_id m = Some (adapter_id a))"
proof (cases "provider_id m")
  case None
  then have "filter (\<lambda>a. qualifies a m) (adapters r) = [a]" using assms(2) resolve_automatic by blast
  then have "a \<in> set (filter (\<lambda>a. qualifies a m) (adapters r))" by simp
  then show ?thesis using None by simp
next
  case (Some pid)
  then show ?thesis using assms resolve_explicit [OF assms(1) Some, of a] by simp
qed

text \<open>The five errors the resolver raises, which are those that \<open>run_mission\<close> records.\<close>

fun resolution_error :: "exn \<Rightarrow> bool" where
  "resolution_error (UnknownProviderError _) = True"
| "resolution_error (UnsupportedMissionTypeError _ _) = True"
| "resolution_error (UnsupportedExecutionModeError _ _) = True"
| "resolution_error (NoSupportingProviderError _) = True"
| "resolution_error (AmbiguousProviderError _ _) = True"
| "resolution_error _ = False"

lemma resolve_error_cases:
  assumes "resolve r m = Inl e"
  shows "(\<exists>pid. provider_id m = Some pid \<and>
            (e = UnknownProviderError pid \<or> (\<exists>p. e = UnsupportedMissionTypeError p (mission_type m))
              \<or> (\<exists>p. e = UnsupportedExecutionModeError (execution_mode m) (Some p))))
     \<or> (provider_id m = None \<and>
            (e = UnsupportedExecutionModeError (execution_mode m) None
             \<or> e = NoSupportingProviderError (mission_type m)
             \<or> (\<exists>ids. e = AmbiguousProviderError (mission_type m) ids \<and> length ids \<ge> 2
                   \<and> ids = map adapter_id (filter (\<lambda>a. qualifies a m) (adapters r)))))"
proof (cases "provider_id m")
  case None
  with assms show ?thesis
    by (auto simp: resolve_def supporting_filter Let_def split: if_splits list.splits)
next
  case (Some pid)
  with assms show ?thesis
    by (auto simp: resolve_def check_explicit_def split: sum.splits if_splits dest: registry_get_error)
qed

lemma resolve_resolution_error: "resolve r m = Inl e \<Longrightarrow> resolution_error e"
  using resolve_error_cases [of r m e] by auto

text \<open>The constructor of the registry accepts exactly the adapter lists whose identifiers are
  non-blank and pairwise different, and then lookup by identifier finds precisely the registered
  adapters.\<close>

theorem registry_lookup:
  "((\<exists>r. make_registry as = Inr r) \<longleftrightarrow>
      distinct (map adapter_id as) \<and> list_all (\<lambda>a. py_strip (adapter_id a) \<noteq> []) as)
   \<and> (make_registry as = Inr r \<longrightarrow>
        (registry_get r pid = Inr a \<longleftrightarrow> a \<in> set as \<and> adapter_id a = pid))"
proof
  let ?r = "\<lparr>adapters = as, adapters_by_id = map (\<lambda>a. (adapter_id a, a)) as\<rparr>"
  show "(\<exists>r. make_registry as = Inr r) \<longleftrightarrow>
     distinct (map adapter_id as) \<and> list_all (\<lambda>a. py_strip (adapter_id a) \<noteq> []) as"
  proof
    assume "\<exists>r. make_registry as = Inr r"
    then show "distinct (map adapter_id as) \<and> list_all (\<lambda>a. py_strip (adapter_id a) \<noteq> []) as"
      by (auto simp: make_registry_iff list_all_iff)
  next
    assume "distinct (map adapter_id as) \<and> list_all (\<lambda>a. py_strip (adapter_id a) \<noteq> []) as"
    then have "make_registry as = Inr ?r" by (simp add: make_registry_iff list_all_iff)
    then show "\<exists>r. make_registry as = Inr r" by (rule exI)
  qed
  show "make_registry as = Inr r \<longrightarrow> (registry_get r pid = Inr a \<longleftrightarrow> a \<in> set as \<and> adapter_id a = pid)"
  proof
    assume r: "make_registry as = Inr r"
    then have "adapters r = as" by (simp add: make_registry_iff)
    with r show "registry_get r pid = Inr a \<longleftrightarrow> a \<in> set as \<and> adapter_id a = pid"
      using registry_ok_get [of r pid a] by (simp add: registry_ok_def)
  qed
qed

definition demo_adapter :: "string \<Rightarrow> bool \<Rightarrow> unit adapter" where
  "demo_adapter pid auto =
     \<lparr>adapter_id = pid,
      capabilities = [\<lparr>capability_mission_type = TrainTicket, supports_auto_purchase = auto\<rparr>],
      search_options = (\<lambda>_ _. ret []), reserve_option = (\<lambda>_ _ _. raise NotImplementedError),
      confirm_reservation = (\<lambda>_ _ _. raise NotImplementedError),
      cancel_reservation = (\<lambda>_ _ _. raise NotImplementedError)\<rparr>"

definition demo_registry :: "unit registry" where
  "demo_registry =
     \<lparr>adapters = [demo_adapter ''a'' True],
      adapters_by_id = [(''a'', demo_adapter ''a'' True)]\<rparr>"

lemma demo_registry_made: "make_registry [demo_adapter ''a'' True] = Inr demo_registry"
  by (simp add: make_registry_def demo_adapter_def demo_registry_def py_strip_def is_space_def Let_def)

theorem registry_lookup_witness:
  "registry_get demo_registry ''a'' = Inr (demo_adapter ''a'' True)"
  using registry_lookup [of "[demo_adapter ''a'' True]" demo_registry "''a''" "demo_adapter ''a'' True"]
    demo_registry_made
  by (simp add: demo_adapter_def)

text \<open>The resolver returns an adapter exactly when it is the one the policy determines: the
  registered adapter the mission names, provided it supports the mission type and execution
  mode, or, when the mission names none, the only registered adapter that does. It never picks
  one of several, and whatever it raises is one of the five resolution errors.\<close>

theorem resolve_policy:
  assumes "registry_ok r"
  shows "(resolve r m = Inr a \<longleftrightarrow>
            (case provider_id m of
               Some pid \<Rightarrow> a \<in> set (adapters r) \<and> adapter_id a = pid \<and> qualifies a m
             | None \<Rightarrow> filter (\<lambda>a. qualifies a m) (adapters r) = [a]))
     \<and> (case resolve r m of Inl e \<Rightarrow> resolution_error e | Inr _ \<Rightarrow> True)"
proof
  show "resolve r m = Inr a \<longleftrightarrow>
            (case provider_id m of
               Some pid \<Rightarrow> a \<in> set (adapters r) \<and> adapter_id a = pid \<and> qualifies a m
             | None \<Rightarrow> filter (\<lambda>a. qualifies a m) (adapters r) = [a])"
    using resolve_automatic [of m r a] resolve_explicit [OF assms, of m _ a]
    by (cases "provider_id m") simp_all
  show "case resolve r m of Inl e \<Rightarrow> resolution_error e | Inr _ \<Rightarrow> True"
    using resolve_resolution_error [of r m] by (cases "resolve r m") simp_all
qed

lemma demo_registry_ok: "registry_ok demo_registry"
  using demo_registry_made by (simp add: registry_ok_def demo_registry_def)

theorem resolve_policy_witness:
  "resolve demo_registry (sample_mission Created) = Inr (demo_adapter ''a'' True)"
proof -
  have q: "filter (\<lambda>a. qualifies a (sample_mission Created)) (adapters demo_registry) = [demo_adapter ''a'' True]"
    by (simp add: demo_registry_def qualifies_def supports_def supports_execution_mode_def
                  demo_adapter_def sample_mission_def)
  show ?thesis
    using resolve_policy [OF demo_registry_ok, of "sample_mission Created" "demo_adapter ''a'' True"] q
    by (simp add: sample_mission_def)
qed

section \<open>Facts on payloads and the preview\<close>

text \<open>Provider identifiers without surrounding white space, as the adapters of the program
  declare them.\<close>

definition stripped_ids :: "'w registry \<Rightarrow> bool" where
  "stripped_ids r \<longleftrightarrow> (\<forall>a \<in> set (adapters r). py_strip (adapter_id a) = adapter_id a)"

lemma normalize_stripped: "py_strip v = v \<Longrightarrow> v \<noteq> [] \<Longrightarrow> normalize_provider_id (Some v) = Inr (Some v)"
  by (simp add: normalize_provider_id_def)

lemma map_stripped: "(\<forall>i \<in> set ids. py_strip i = i) \<Longrightarrow> map py_strip ids = ids"
  by (induction ids) auto

lemma normalize_candidates_ok:
  "\<forall>i \<in> set ids. py_strip i = i \<and> i \<noteq> [] \<Longrightarrow> distinct ids \<Longrightarrow> normalize_candidates ids = Inr ids"
  by (simp add: normalize_candidates_def map_stripped)

lemma registry_ok_ids:
  assumes "registry_ok r" and "stripped_ids r"
  shows "distinct (map adapter_id (adapters r))"
    and "a \<in> set (adapters r) \<Longrightarrow> adapter_id a \<noteq> [] \<and> py_strip (adapter_id a) = adapter_id a"
  using assms by (auto simp: registry_ok_def stripped_ids_def make_registry_iff)

lemma make_snapshot_single:
  assumes "py_strip pid = pid" and "pid \<noteq> []" and "requested = None \<or> requested = Some pid"
  shows "make_snapshot (selection_mode_for requested) requested pid [pid] mt =
     Inr \<lparr>snapshot_mode = selection_mode_for requested, snapshot_requested = requested,
          snapshot_resolved = pid, snapshot_candidates = [pid], snapshot_mission_type = mt\<rparr>"
  using assms normalize_stripped [OF assms(1,2)] normalize_candidates_ok [of "[pid]"]
  by (auto simp: make_snapshot_def selection_mode_for_def)
    (auto simp: normalize_provider_id_def)

lemma make_resolved_payload_ok:
  assumes "py_strip pid = pid" and "pid \<noteq> []" and "snapshot_resolved s = pid"
  shows "make_resolved_payload pid (snapshot_mission_type s) (snapshot_mode s) (Some s) =
     Inr \<lparr>resolved_payload_provider = pid, resolved_payload_type = snapshot_mission_type s,
          resolved_payload_mode = snapshot_mode s, resolved_payload_snapshot = Some s\<rparr>"
  using assms normalize_stripped [OF assms(1,2)] by (simp add: make_resolved_payload_def)

lemma failure_payload_ok:
  assumes "registry_ok r" and "stripped_ids r" and "normalize_provider_id (provider_id m) = Inr (provider_id m)"
    and "resolve r m = Inl e"
  shows "\<exists>meta. provider_resolution_failure_payload m e = Inr meta"
proof (cases "provider_id m")
  case None
  have cands: "normalize_candidates ids = Inr ids"
    if "ids = map adapter_id (filter (\<lambda>a. qualifies a m) (adapters r))" for ids
    using registry_ok_ids [OF assms(1,2)] that
    by (intro normalize_candidates_ok) (auto simp: distinct_map_filter)
  from None resolve_error_cases [OF assms(4)] show ?thesis
    using cands
    by (auto simp: provider_resolution_failure_payload_def make_failed_payload_def
          normalize_provider_id_def normalize_candidates_def reason_fields_ok_def)
next
  case (Some pid)
  then have "normalize_provider_id (Some pid) = Inr (Some pid)" using assms(3) by simp
  with Some resolve_error_cases [OF assms(4)] show ?thesis
    by (auto simp: provider_resolution_failure_payload_def make_failed_payload_def
          normalize_candidates_def reason_fields_ok_def)
qed

text \<open>With stripped provider identifiers the audit payload of a resolution is always
  accepted by its own validators: a failed resolution yields a failure payload, and a successful
  one a snapshot and a payload that name the adapter. So recording a resolution never raises a
  validation error of its own.\<close>

theorem resolution_payload_total:
  assumes "registry_ok r" and "stripped_ids r" and "normalize_provider_id (provider_id m) = Inr (provider_id m)"
  shows "case resolve r m of
      Inl e \<Rightarrow> (\<exists>meta. provider_resolution_failure_payload m e = Inr meta)
    | Inr a \<Rightarrow> (\<exists>s p. create_provider_resolution_snapshot m (adapter_id a) [adapter_id a] = Inr s
          \<and> make_resolved_payload (adapter_id a) (mission_type m) (selection_mode_for (provider_id m)) (Some s) = Inr p
          \<and> resolved_payload_provider p = adapter_id a \<and> snapshot_candidates s = [adapter_id a])"
proof (cases "resolve r m")
  case (Inl e)
  then show ?thesis using failure_payload_ok [OF assms Inl] by simp
next
  case (Inr a)
  from resolve_qualifies [OF assms(1) Inr]
  have a: "a \<in> set (adapters r)" "provider_id m = None \<or> provider_id m = Some (adapter_id a)" by auto
  have ids: "py_strip (adapter_id a) = adapter_id a" "adapter_id a \<noteq> []"
    using registry_ok_ids(2) [OF assms(1,2) a(1)] by auto
  let ?s = "\<lparr>snapshot_mode = selection_mode_for (provider_id m), snapshot_requested = provider_id m,
     snapshot_resolved = adapter_id a, snapshot_candidates = [adapter_id a],
     snapshot_mission_type = mission_type m\<rparr>"
  have "create_provider_resolution_snapshot m (adapter_id a) [adapter_id a] = Inr ?s"
    unfolding create_provider_resolution_snapshot_def by (rule make_snapshot_single [OF ids a(2)])
  moreover have "make_resolved_payload (adapter_id a) (mission_type m) (selection_mode_for (provider_id m)) (Some ?s)
      = Inr \<lparr>resolved_payload_provider = adapter_id a, resolved_payload_type = mission_type m,
          resolved_payload_mode = selection_mode_for (provider_id m), resolved_payload_snapshot = Some ?s\<rparr>"
    using make_resolved_payload_ok [OF ids, of ?s] by simp
  ultimately show ?thesis using Inr by simp
qed

theorem resolution_payload_total_witness:
  "\<exists>s. create_provider_resolution_snapshot (sample_mission Created) ''a'' [''a''] = Inr s"
proof -
  have st: "stripped_ids demo_registry"
    by (simp add: stripped_ids_def demo_registry_def demo_adapter_def py_strip_def is_space_def Let_def)
  have n: "normalize_provider_id (provider_id (sample_mission Created)) = Inr (provider_id (sample_mission Created))"
    by (simp add: sample_mission_def normalize_provider_id_def)
  have r: "resolve demo_registry (sample_mission Created) = Inr (demo_adapter ''a'' True)"
    by (simp add: resolve_def list_supporting_def demo_registry_def supports_def
                  supports_execution_mode_def demo_adapter_def sample_mission_def)
  from resolution_payload_total [OF demo_registry_ok st n] show ?thesis
    unfolding r by (auto simp: demo_adapter_def)
qed

text \<open>The preview of a stored mission is always accepted by its validator, changes nothing,
  and agrees with the resolver: it reports an adapter exactly when resolving would return it, and
  otherwise the reason that belongs to the error resolving would raise.\<close>

theorem preview_agrees_with_resolver:
  "\<exists>p. preview_resolution r (Some m) = Inr p \<and> preview_mission_id p = mission_id m
     \<and> (case resolve r m of
          Inr a \<Rightarrow> preview_outcome p = PreviewResolved \<and> preview_resolved p = Some (adapter_id a)
        | Inl e \<Rightarrow> preview_resolved p = None \<and> preview_outcome p = PreviewFailed
            (case e of UnknownProviderError _ \<Rightarrow> UnknownProvider
             | UnsupportedMissionTypeError _ _ \<Rightarrow> UnsupportedMissionType
             | UnsupportedExecutionModeError _ _ \<Rightarrow> UnsupportedExecutionMode
             | NoSupportingProviderError _ \<Rightarrow> NoSupportingProvider
             | _ \<Rightarrow> AmbiguousProvider))"
proof (cases "resolve r m")
  case (Inl e)
  from resolve_error_cases [OF Inl] Inl show ?thesis
    by (auto simp: preview_resolution_def failure_preview_def make_preview_def preview_ok_def
             split: exn.split)
next
  case (Inr a)
  then show ?thesis by (simp add: preview_resolution_def make_preview_def preview_ok_def)
qed

end
