(* ===== verification/Runtime.thy ===== *)
theory Runtime
  imports MissionWork Providers
begin

text \<open>
  The state of the running program as the mission services see it: the mission repository, the
  identities, the world behind the provider adapters (a parameter), and the clock of
  \<open>app/services/clock.py\<close>, whose successive readings are the sequence \<open>now_of\<close>. The rules of
  \<open>exec\<close> lift those of \<open>at\<close> to this state.
\<close>

record 'w sys = mission_repo +
  identities :: "(uuid, identity) dict"
  world :: 'w
  now_of :: "nat \<Rightarrow> time"
  now_tick :: nat

definition utc_now :: "('w sys, exn, datetime) prog" where
  "utc_now s = (Inr (Aware (now_of s (now_tick s))), s\<lparr>now_tick := Suc (now_tick s)\<rparr>)"

text \<open>\<open>current_time or utc_now()\<close>.\<close>

definition time_or_now :: "datetime option \<Rightarrow> ('w sys, exn, datetime) prog" where
  "time_or_now current_time = (case current_time of Some t \<Rightarrow> ret t | None \<Rightarrow> utc_now)"

text \<open>\<open>_add_event\<close> of the engine.\<close>

definition add_event :: "uuid \<Rightarrow> string \<Rightarrow> string \<Rightarrow> metadata \<Rightarrow> ('w sys, exn, mission) prog" where
  "add_event k etype message meta = bindE utc_now (\<lambda>t. record_live k t etype message meta)"

text \<open>A call of an adapter runs on the world behind it.\<close>

definition call :: "('w, exn, 'a) prog \<Rightarrow> ('w sys, exn, 'a) prog" where
  "call f s = (case f (world s) of (r, w) \<Rightarrow> (r, s\<lparr>world := w\<rparr>))"

text \<open>\<open>t > now\<close> for a stored time: comparing with a naive value raises.\<close>

fun time_gt :: "time \<Rightarrow> datetime \<Rightarrow> exn + bool" where
  "time_gt t (Aware n) = Inr (t > n)"
| "time_gt t (Naive n) = Inl TypeError"

text \<open>\<open>expire_mission_if_due\<close> of \<open>app/services/mission_expiration.py\<close>.\<close>

definition expire_mission :: "uuid \<Rightarrow> datetime \<Rightarrow> time \<Rightarrow> mission_status \<Rightarrow> ('a mission_repo_scheme, exn, bool) prog" where
  "expire_mission k current_time expires previous =
     thenE (transition_live k Expired)
     (thenE (record_live k current_time ''mission_expired'' ''Mission expired before execution.''
        [(''expires_at'', JTime (Aware expires)), (''previous_status'', JStr (status_value previous))])
     (thenE (update_live k) (ret True)))"

definition expire_mission_if_due :: "uuid \<Rightarrow> datetime \<Rightarrow> ('a mission_repo_scheme, exn, bool) prog" where
  "expire_mission_if_due k current_time =
     bindE (live k) (\<lambda>m.
       if status m \<notin> {Created, Waiting, Paused} then ret False
       else (case expires_at m of
           None \<Rightarrow> ret False
         | Some e \<Rightarrow>
             bindE (liftE (time_gt e current_time)) (\<lambda>later.
               if later then ret False else expire_mission k current_time e (status m))))"

definition expire_due_missions :: "datetime \<Rightarrow> int \<Rightarrow> ('a mission_repo_scheme, exn, mission list) prog" where
  "expire_due_missions current_time limit =
     thenE (require (is_aware current_time) (ValueError ''current_time must be timezone-aware''))
     (thenE (require (\<not> limit < 1) (ValueError ''limit must be at least one''))
     (expire_due current_time limit))"

section \<open>Symbolic execution on the system state\<close>

definition exec :: "uuid \<Rightarrow> ('w \<Rightarrow> bool) \<Rightarrow> bool \<Rightarrow> mission \<Rightarrow> string list \<Rightarrow> 'w sys \<Rightarrow> bool" where
  "exec k W opn c ts s \<longleftrightarrow> at k opn c ts s \<and> W (world s)"

lemma execD: "exec k W opn c ts s \<Longrightarrow> at k opn c ts s" "exec k W opn c ts s \<Longrightarrow> W (world s)"
  by (simp_all add: exec_def)

lemma more_world:
  fixes s s' :: "'w sys"
  shows "mission_repo.more s' = mission_repo.more s \<Longrightarrow> world s' = world s"
  by (cases s; cases s') simp

lemma exec_more:
  "at k opn c ts s' \<Longrightarrow> mission_repo.more s' = mission_repo.more s \<Longrightarrow> exec k W opn' c' ts' s \<Longrightarrow> exec k W opn c ts s'"
  using more_world [of s' s] by (simp add: exec_def)

lemma exec_utc_now:
  assumes "exec k W opn c ts s" and "\<And>t s'. exec k W opn c ts s' \<Longrightarrow> Q (Aware t) s'"
  shows "wp utc_now Q E s"
proof -
  have "exec k W opn c ts (s\<lparr>now_tick := Suc (now_tick s)\<rparr>)"
    using assms(1) at_frame [of "s\<lparr>now_tick := Suc (now_tick s)\<rparr>" s k opn c ts] by (simp add: exec_def)
  from assms(2) [OF this] show ?thesis by (simp add: wp_def utc_now_def)
qed

lemma exec_record:
  assumes "exec k W opn c ts s" and "\<And>m s'. exec k W opn c (ts @ [ty]) s' \<Longrightarrow> core m = c \<Longrightarrow> Q m s'"
  shows "wp (record_live k t ty msg meta) Q E s"
  by (rule wp_record_live [OF execD(1) [OF assms(1)]]) (rule assms(2) [OF exec_more [OF _ _ assms(1)]])

lemma exec_add_event:
  assumes "exec k W opn c ts s" and "\<And>m s'. exec k W opn c (ts @ [ty]) s' \<Longrightarrow> core m = c \<Longrightarrow> Q m s'"
  shows "wp (add_event k ty msg meta) Q E s"
  unfolding add_event_def wp
  by (rule exec_utc_now [OF assms(1)]) (erule exec_record, erule (1) assms(2))

lemma exec_transition:
  assumes "exec k W opn c ts s"
    and "can_transition (status c) target False False" and "target \<noteq> Processing"
    and "opn \<Longrightarrow> target \<in> {RequiresConfirmation, Completed, Failed}"
    and "\<And>m s'. exec k W opn (c\<lparr>status := target, claimed_at := None\<rparr>) ts s' \<Longrightarrow> Q m s'"
  shows "wp (transition_live k target) Q E s"
  by (rule wp_transition_live [OF execD(1) [OF assms(1)] assms(2-4)])
    (assumption, rule assms(5) [OF exec_more [OF _ _ assms(1)]])

lemma exec_assign:
  assumes "exec k W opn c ts s"
    and "\<And>m. core (f m) = f (core m)" and "\<And>m. execution_log (f m) = execution_log m"
    and "\<And>m as. core m = c \<Longrightarrow> mid_ok k m as \<Longrightarrow> mid_ok k (f m) as"
    and "\<And>m s'. exec k W opn (f c) ts s' \<Longrightarrow> Q m s'"
  shows "wp (assign_live k f) Q E s"
  by (rule wp_assign_live [OF execD(1) [OF assms(1)] assms(2-4)])
    (assumption, assumption, rule assms(5) [OF exec_more [OF _ _ assms(1)]])

lemma exec_live:
  assumes "exec k W opn c ts s" and "\<And>m. core m = c \<Longrightarrow> map_of (missions s) k = Some m \<Longrightarrow> Q m s"
  shows "wp (live k) Q E s"
  by (rule wp_live [OF execD(1) [OF assms(1)]]) (rule assms(2))

lemma exec_update:
  assumes "exec k W opn c ts s" and "ts \<noteq> []"
    and "\<And>m s'. exec k W (status c = Processing) c ts s' \<Longrightarrow> repo_ok s' \<Longrightarrow> map_of (missions s') k = Some m \<Longrightarrow>
           core m = c \<Longrightarrow> event_types m = ts \<Longrightarrow> Q m s'"
  shows "wp (update_live k) Q E s"
  by (rule wp_update_live [OF execD(1) [OF assms(1)] assms(2)]) (rule assms(3) [OF exec_more [OF _ _ assms(1)]])

lemma exec_call:
  assumes "exec k W opn c ts s" and "wp f (\<lambda>_. W) (\<lambda>_. W) (world s)"
    and "\<And>x s'. exec k W opn c ts s' \<Longrightarrow> Q x s'" and "\<And>e s'. exec k W opn c ts s' \<Longrightarrow> E e s'"
  shows "wp (call f) Q E s"
proof -
  obtain r w where f: "f (world s) = (r, w)" by fastforce
  have "W w" using assms(2) f by (simp add: wp_def split: sum.splits)
  then have "exec k W opn c ts (s\<lparr>world := w\<rparr>)"
    using assms(1) at_frame [of "s\<lparr>world := w\<rparr>" s k opn c ts] by (simp add: exec_def)
  then show ?thesis using assms(3,4) by (simp add: wp_def call_def f split: sum.splits)
qed

lemma exec_gets:
  assumes "exec k W opn c ts s" and "Q (f s) s"
  shows "wp (gets f) Q E s"
  using assms(2) by (simp add: wp)

lemma claim_log_assign [simp]:
  "claim_ok (m\<lparr>resolved_provider_id := p\<rparr>) = claim_ok m" "log_valid (m\<lparr>resolved_provider_id := p\<rparr>) = log_valid m"
  "claim_ok (m\<lparr>reservation_id := r\<rparr>) = claim_ok m" "log_valid (m\<lparr>reservation_id := r\<rparr>) = log_valid m"
  "claim_ok (m\<lparr>best_option := b\<rparr>) = claim_ok m" "log_valid (m\<lparr>best_option := b\<rparr>) = log_valid m"
  "claim_ok (m\<lparr>scheduled_at := t\<rparr>) = claim_ok m" "log_valid (m\<lparr>scheduled_at := t\<rparr>) = log_valid m"
  by (simp_all add: claim_ok_def log_valid_def)

lemma mid_ok_assign [simp]:
  "mid_ok k m as \<Longrightarrow> mid_ok k (m\<lparr>resolved_provider_id := p\<rparr>) as"
  "mid_ok k m as \<Longrightarrow> mid_ok k (m\<lparr>reservation_id := r\<rparr>) as"
  "mid_ok k m as \<Longrightarrow> mid_ok k (m\<lparr>best_option := b\<rparr>) as"
  "mid_ok k m as \<Longrightarrow> mid_ok k (m\<lparr>scheduled_at := t\<rparr>) as"
  by (simp_all add: mid_ok_def)

lemma core_assign [simp]:
  "core (m\<lparr>resolved_provider_id := p\<rparr>) = (core m)\<lparr>resolved_provider_id := p\<rparr>"
  "core (m\<lparr>reservation_id := r\<rparr>) = (core m)\<lparr>reservation_id := r\<rparr>"
  "core (m\<lparr>best_option := b\<rparr>) = (core m)\<lparr>best_option := b\<rparr>"
  "core (m\<lparr>scheduled_at := t\<rparr>) = (core m)\<lparr>scheduled_at := t\<rparr>"
  by (simp_all add: core_def)

end
