(* ===== verification/RuleEngine.thy ===== *)
theory RuleEngine
  imports EventLog "HOL-Library.Multiset"
begin

text \<open>
  The rule engine (\<open>app/services/rule_engine.py\<close>): scoring of train options against the
  constraints of a mission, the ranking, and the choice of the best option as \<open>run_mission\<close>
  makes it.
\<close>

section \<open>The engine\<close>

record scored_option =
  scored :: provider_option
  score :: int
  reasons :: "string list"
  violations :: "string list"

text \<open>The set of (carriage, compartment) pairs of an option, as a list without repetition.\<close>

definition compartments :: "provider_option \<Rightarrow> (int \<times> int) list" where
  "compartments option = remdups (map (\<lambda>s. (carriage_number s, compartment_number s)) (seats option))"

definition is_same_compartment :: "provider_option \<Rightarrow> bool" where
  "is_same_compartment option \<longleftrightarrow> length (compartments option) = 1"

definition is_adjacent_compartments :: "provider_option \<Rightarrow> bool" where
  "is_adjacent_compartments option =
     (case sort (compartments option) of
        [first, second] \<Rightarrow> fst first = fst second \<and> \<bar>snd first - snd second\<bar> = 1
      | _ \<Rightarrow> False)"

definition count_lower_berths :: "provider_option \<Rightarrow> int" where
  "count_lower_berths option = int (length (filter (\<lambda>s. berth s = Lower) (seats option)))"

definition has_near_toilet_seat :: "provider_option \<Rightarrow> bool" where
  "has_near_toilet_seat option \<longleftrightarrow> (\<exists>s \<in> set (seats option). near_toilet s)"

text \<open>The body of \<open>_evaluate_train_option\<close> updates the running score, the reasons and the
  violations in six consecutive \<open>if\<close> statements; each is one function on the triple.\<close>

type_synonym tally = "int \<times> string list \<times> string list"

fun award :: "int \<Rightarrow> string \<Rightarrow> tally \<Rightarrow> tally" where
  "award n reason (sc, re, vi) = (sc + n, re @ [reason], vi)"

fun violate :: "int \<Rightarrow> string \<Rightarrow> tally \<Rightarrow> tally" where
  "violate n violation (sc, re, vi) = (sc - n, re, vi @ [violation])"

definition tally_same_compartment :: "provider_option \<Rightarrow> tally \<Rightarrow> tally" where
  "tally_same_compartment option t =
     (if is_same_compartment option
      then award 40 ''All seats are in the same compartment'' t else t)"

definition tally_must_be_same :: "provider_option \<Rightarrow> mission \<Rightarrow> tally \<Rightarrow> tally" where
  "tally_must_be_same option m t =
     (if must_be_same_compartment (constraints m) = Some True \<and> \<not> is_same_compartment option
      then if allow_adjacent_compartments (fallback_rules m) = Some True
              \<and> is_adjacent_compartments option
        then award 20 ''Seats are in adjacent compartments'' t
        else violate 0 ''Seats are not in the same compartment'' t
      else t)"

definition tally_lower_berths :: "provider_option \<Rightarrow> mission \<Rightarrow> tally \<Rightarrow> tally" where
  "tally_lower_berths option m t =
     (case min_lower_berths (constraints m) of
        None \<Rightarrow> t
      | Some n \<Rightarrow> if count_lower_berths option \<ge> n
          then award 20 ''Required lower berths count is satisfied'' t else t)"

definition tally_budget :: "provider_option \<Rightarrow> mission \<Rightarrow> tally \<Rightarrow> tally" where
  "tally_budget option m t =
     (case max_total_price (constraints m) of
        None \<Rightarrow> t
      | Some n \<Rightarrow> if total_price option \<le> n then award 20 ''Option is within budget'' t else t)"

definition tally_toilet :: "provider_option \<Rightarrow> mission \<Rightarrow> tally \<Rightarrow> tally" where
  "tally_toilet option m t =
     (if avoid_toilet (constraints m) = Some True \<and> has_near_toilet_seat option
      then violate 30 ''At least one seat is near toilet'' t else t)"

definition tally_passengers :: "provider_option \<Rightarrow> mission \<Rightarrow> tally \<Rightarrow> tally" where
  "tally_passengers option m t =
     (if int (length (seats option)) = passengers_count (constraints m)
      then award 20 ''Passenger count matches seats count'' t else t)"

definition tally_option :: "provider_option \<Rightarrow> mission \<Rightarrow> tally" where
  "tally_option option m =
     tally_passengers option m (tally_toilet option m (tally_budget option m
       (tally_lower_berths option m (tally_must_be_same option m
         (tally_same_compartment option (0, [], []))))))"

definition evaluate_train_option :: "provider_option \<Rightarrow> mission \<Rightarrow> scored_option" where
  "evaluate_train_option option m =
     (case tally_option option m of
        (sc, re, vi) \<Rightarrow>
          \<lparr>scored = option, score = max 0 (min sc 100), reasons = re, violations = vi\<rparr>)"

definition rank_key :: "scored_option \<Rightarrow> bool \<times> int" where
  "rank_key s = (violations s \<noteq> [], - score s)"

definition evaluate_train_options :: "provider_option list \<Rightarrow> mission \<Rightarrow> scored_option list" where
  "evaluate_train_options options m =
     sort_key rank_key (map (\<lambda>option. evaluate_train_option option m) options)"

text \<open>\<open>next((s for s in scored_options if not s.violations), None)\<close> of \<open>run_mission\<close>.\<close>

definition best_scored_option :: "provider_option list \<Rightarrow> mission \<Rightarrow> scored_option option" where
  "best_scored_option options m = find (\<lambda>s. violations s = []) (evaluate_train_options options m)"

section \<open>Facts on one evaluation\<close>

text \<open>When an option breaks the rules of a mission.\<close>

definition breaks_rules :: "provider_option \<Rightarrow> mission \<Rightarrow> bool" where
  "breaks_rules option m \<longleftrightarrow>
     (must_be_same_compartment (constraints m) = Some True \<and> \<not> is_same_compartment option
       \<and> \<not> (allow_adjacent_compartments (fallback_rules m) = Some True \<and> is_adjacent_compartments option))
     \<or> (avoid_toilet (constraints m) = Some True \<and> has_near_toilet_seat option)"

lemma evaluate_scored [simp]: "scored (evaluate_train_option option m) = option"
  by (simp add: evaluate_train_option_def split: prod.split)

lemma evaluate_score_range:
  "0 \<le> score (evaluate_train_option option m)" "score (evaluate_train_option option m) \<le> 100"
  by (simp_all add: evaluate_train_option_def split: prod.split)

lemma violations_award [simp]: "snd (snd (award n r t)) = snd (snd t)"
  by (cases t) simp

lemma violations_violate [simp]: "snd (snd (violate n v t)) = snd (snd t) @ [v]"
  by (cases t) simp

lemmas tally_defs = tally_same_compartment_def tally_must_be_same_def tally_lower_berths_def
  tally_budget_def tally_toilet_def tally_passengers_def

lemma tally_violations:
  "snd (snd (tally_same_compartment option t)) = snd (snd t)"
  "snd (snd (tally_lower_berths option m t)) = snd (snd t)"
  "snd (snd (tally_budget option m t)) = snd (snd t)"
  "snd (snd (tally_passengers option m t)) = snd (snd t)"
  "snd (snd (tally_must_be_same option m t)) = snd (snd t) @
     (if must_be_same_compartment (constraints m) = Some True \<and> \<not> is_same_compartment option
        \<and> \<not> (allow_adjacent_compartments (fallback_rules m) = Some True \<and> is_adjacent_compartments option)
      then [''Seats are not in the same compartment''] else [])"
  "snd (snd (tally_toilet option m t)) = snd (snd t) @
     (if avoid_toilet (constraints m) = Some True \<and> has_near_toilet_seat option
      then [''At least one seat is near toilet''] else [])"
  by (simp_all add: tally_defs split: option.split)

lemma evaluate_violations:
  "violations (evaluate_train_option option m) =
     (if must_be_same_compartment (constraints m) = Some True \<and> \<not> is_same_compartment option
        \<and> \<not> (allow_adjacent_compartments (fallback_rules m) = Some True \<and> is_adjacent_compartments option)
      then [''Seats are not in the same compartment''] else [])
     @ (if avoid_toilet (constraints m) = Some True \<and> has_near_toilet_seat option
        then [''At least one seat is near toilet''] else [])"
proof -
  have "violations (evaluate_train_option option m) = snd (snd (tally_option option m))"
    by (simp add: evaluate_train_option_def split: prod.split)
  then show ?thesis by (simp only: tally_option_def tally_violations) simp
qed

lemma violations_iff: "violations (evaluate_train_option option m) \<noteq> [] \<longleftrightarrow> breaks_rules option m"
  by (simp add: evaluate_violations breaks_rules_def)

lemma adjacent_iff:
  "is_adjacent_compartments option \<longleftrightarrow>
     (\<exists>c n. set (compartments option) = {(c, n), (c, n + 1)})"
proof
  assume "is_adjacent_compartments option"
  then obtain p q where s: "sort (compartments option) = [p, q]" "fst p = fst q" "\<bar>snd p - snd q\<bar> = 1"
    by (auto simp: is_adjacent_compartments_def split: list.splits)
  have "set (compartments option) = {p, q}"
    using arg_cong [where f = set, OF s(1)] by simp
  moreover have "snd q = snd p + 1 \<or> snd p = snd q + 1" using s(3) by linarith
  ultimately show "\<exists>c n. set (compartments option) = {(c, n), (c, n + 1)}"
    using s(2) by (cases p; cases q) (auto simp: insert_commute)
next
  assume "\<exists>c n. set (compartments option) = {(c, n), (c, n + 1)}"
  then obtain c n where s: "set (compartments option) = {(c, n), (c, n + 1)}" by blast
  have "distinct (compartments option)" by (simp add: compartments_def)
  then have "sort (compartments option) = [(c, n), (c, n + 1)]"
    using s by (intro sorted_distinct_set_unique) auto
  then show "is_adjacent_compartments option" by (simp add: is_adjacent_compartments_def)
qed

section \<open>Ranking and choice\<close>

lemma mset_evaluate: "mset (evaluate_train_options options m) = mset (map (\<lambda>option. evaluate_train_option option m) options)"
  by (simp add: evaluate_train_options_def)

lemma set_evaluate: "set (evaluate_train_options options m) = (\<lambda>option. evaluate_train_option option m) ` set options"
  by (simp add: evaluate_train_options_def)

lemma sorted_evaluate: "sorted (map rank_key (evaluate_train_options options m))"
  by (simp add: evaluate_train_options_def)

lemma best_Some:
  assumes "best_scored_option options m = Some b"
  shows "b \<in> set (evaluate_train_options options m)" "violations b = []"
    "scored b \<in> set options" "b = evaluate_train_option (scored b) m" "\<not> breaks_rules (scored b) m"
proof -
  show b: "b \<in> set (evaluate_train_options options m)" and v: "violations b = []"
    using assms find_in unfolding best_scored_option_def by fast+
  from b obtain x where x: "x \<in> set options" "b = evaluate_train_option x m"
    by (auto simp: set_evaluate)
  then show "scored b \<in> set options" and eq: "b = evaluate_train_option (scored b) m" by simp_all
  show "\<not> breaks_rules (scored b) m" using v violations_iff [of "scored b" m] eq by simp
qed

lemma best_None: "best_scored_option options m = None \<longleftrightarrow> (\<forall>x \<in> set options. breaks_rules x m)"
  by (auto simp: best_scored_option_def find_none set_evaluate violations_iff)

lemma best_maximal:
  assumes "best_scored_option options m = Some b" and "x \<in> set options" and "\<not> breaks_rules x m"
  shows "score (evaluate_train_option x m) \<le> score b"
proof -
  let ?s = "evaluate_train_option x m"
  have "?s \<in> set (evaluate_train_options options m)" using assms(2) by (simp add: set_evaluate)
  moreover have v: "violations ?s = []" using assms(3) violations_iff by blast
  ultimately have "rank_key b \<le> rank_key ?s"
    using find_least [OF sorted_evaluate] assms(1) unfolding best_scored_option_def by blast
  then show ?thesis using v best_Some(2) [OF assms(1)] by (simp add: rank_key_def less_eq_prod_def)
qed

text \<open>C21: the option chosen for a reservation is one of the provider's options, breaks none of
  the mission's rules, and no other admissible option scores higher; nothing is chosen exactly
  when every option breaks a rule.\<close>

theorem best_option_optimal:
  "(case best_scored_option options m of
      Some b \<Rightarrow> scored b \<in> set options \<and> \<not> breaks_rules (scored b) m
        \<and> Ball (set options) (\<lambda>x. breaks_rules x m \<or> score (evaluate_train_option x m) \<le> score b)
    | None \<Rightarrow> Ball (set options) (\<lambda>x. breaks_rules x m))"
proof (cases "best_scored_option options m")
  case None
  then show ?thesis using best_None [of options m] by simp
next
  case (Some b)
  then show ?thesis
    using best_Some(3,5) [OF Some] best_maximal [OF Some] by simp blast
qed

definition quiet_option :: provider_option where
  "quiet_option =
     \<lparr>option_id = 9, option_type = TrainOption, train_number = ''61'', option_from_city = ''Oslo'',
      option_to_city = ''Bergen'', departure_at = Aware 0, arrival_at = Aware 1, total_price = 20000,
      seats = [\<lparr>carriage_number = 1, compartment_number = 2, seat_number = 1, berth = Lower, near_toilet = False\<rparr>],
      option_metadata = []\<rparr>"

theorem best_option_optimal_witness:
  "\<exists>b. best_scored_option [quiet_option] (sample_mission Created) = Some b \<and> scored b = quiet_option"
proof -
  have "\<not> breaks_rules quiet_option (sample_mission Created)"
    by (simp add: breaks_rules_def quiet_option_def is_same_compartment_def compartments_def has_near_toilet_seat_def)
  then show ?thesis
    using best_option_optimal [of "[quiet_option]" "sample_mission Created"] by (auto split: option.splits)
qed

text \<open>The ranking is a permutation of the evaluated options, with the admissible ones first
  and higher scores before lower ones, and options that tie keep the provider's order; every
  score lies between 0 and 100.\<close>

theorem ranking_stable:
  "mset (evaluate_train_options options m) = mset (map (\<lambda>x. evaluate_train_option x m) options)
   \<and> sorted (map (\<lambda>s. (violations s \<noteq> [], - score s)) (evaluate_train_options options m))
   \<and> filter (\<lambda>s. rank_key s = k) (evaluate_train_options options m)
       = filter (\<lambda>s. rank_key s = k) (map (\<lambda>x. evaluate_train_option x m) options)
   \<and> list_all (\<lambda>s. 0 \<le> score s \<and> score s \<le> 100) (evaluate_train_options options m)"
proof (intro conjI)
  show "sorted (map (\<lambda>s. (violations s \<noteq> [], - score s)) (evaluate_train_options options m))"
    using sorted_evaluate [of options m] unfolding rank_key_def .
  show "filter (\<lambda>s. rank_key s = k) (evaluate_train_options options m)
       = filter (\<lambda>s. rank_key s = k) (map (\<lambda>x. evaluate_train_option x m) options)"
    unfolding evaluate_train_options_def by (rule sort_key_stable)
qed (auto simp: mset_evaluate list_all_iff set_evaluate evaluate_score_range)

end
