(* ===== verification/Engine.thy ===== *)
theory Engine
  imports Runtime RuleEngine
begin

text \<open>
  The mission engine (\<open>app/services/mission_engine.py\<close>): \<open>run_mission\<close>,
  \<open>confirm_mission\<close> and \<open>cancel_mission\<close> with their helpers. Each \<open>await\<close> of an adapter
  is \<open>call\<close>; only \<open>ProviderOperationError\<close> is handled, by \<open>try_provider\<close>. The stages of
  the long body of \<open>run_mission\<close> are one function each, ending in the next.
\<close>

section \<open>Idempotency keys\<close>

text \<open>\<open>str(UUID)\<close>: 32 hexadecimal digits in five groups.\<close>

definition hex_digit :: "nat \<Rightarrow> char" where
  "hex_digit n = ''0123456789abcdef'' ! (n mod 16)"

fun hex_digits :: "nat \<Rightarrow> nat \<Rightarrow> string" where
  "hex_digits 0 n = []"
| "hex_digits (Suc d) n = hex_digits d (n div 16) @ [hex_digit n]"

lemma length_hex_digits [simp]: "length (hex_digits d n) = d"
  by (induction d arbitrary: n) simp_all

definition uuid_str :: "uuid \<Rightarrow> string" where
  "uuid_str u = (let h = hex_digits 32 u in
     take 8 h @ ''-'' @ take 4 (drop 8 h) @ ''-'' @ take 4 (drop 12 h) @ ''-'' @
     take 4 (drop 16 h) @ ''-'' @ drop 20 h)"

definition reservation_idempotency_key :: "mission \<Rightarrow> string" where
  "reservation_idempotency_key m = ''mission:'' @ uuid_str (mission_id m)"

definition confirmation_idempotency_key :: "mission \<Rightarrow> string" where
  "confirmation_idempotency_key m = ''mission:'' @ uuid_str (mission_id m) @ '':confirmation''"

definition cancellation_idempotency_key :: "mission \<Rightarrow> string" where
  "cancellation_idempotency_key m = ''mission:'' @ uuid_str (mission_id m) @ '':cancellation''"

section \<open>Failing\<close>

definition fail_with :: "uuid \<Rightarrow> string \<Rightarrow> string \<Rightarrow> metadata \<Rightarrow> ('w sys, exn, mission) prog" where
  "fail_with k etype message meta =
     thenE (transition_live k Failed) (thenE (add_event k etype message meta) (update_live k))"

definition fail_provider_operation :: "uuid \<Rightarrow> string \<Rightarrow> string \<Rightarrow> bool \<Rightarrow> ('w sys, exn, mission) prog" where
  "fail_provider_operation k pid operation retryable =
     fail_with k ''provider_operation_failed'' ''Provider operation failed.''
       [(''provider_id'', JStr pid), (''operation'', JStr operation), (''retryable'', JBool retryable)]"

fun operation_error :: "exn \<Rightarrow> bool option" where
  "operation_error (ProviderOperationError _ _ retryable) = Some retryable"
| "operation_error _ = None"

definition try_provider ::
  "('w, exn, 'a) prog \<Rightarrow> (bool \<Rightarrow> ('w sys, exn, 'b) prog) \<Rightarrow> ('a \<Rightarrow> ('w sys, exn, 'b) prog) \<Rightarrow> ('w sys, exn, 'b) prog" where
  "try_provider f handler cont =
     tryElse (call f)
       (\<lambda>e. case operation_error e of Some retryable \<Rightarrow> handler retryable | None \<Rightarrow> raise e) cont"

section \<open>Running\<close>

text \<open>\<open>if not is_processing_run: state_machine.transition(...)\<close>.\<close>

definition advance :: "bool \<Rightarrow> uuid \<Rightarrow> mission_status \<Rightarrow> ('w sys, exn, mission) prog" where
  "advance processing k target = (if \<not> processing then transition_live k target else live k)"

definition provider_metadata :: "'w adapter \<Rightarrow> metadata" where
  "provider_metadata a = [(''provider_id'', JStr (adapter_id a))]"

definition mode_metadata :: "mission \<Rightarrow> metadata" where
  "mode_metadata m = [(''execution_mode'', JStr (execution_mode_value (execution_mode m)))]"

definition complete_run :: "uuid \<Rightarrow> ('w sys, exn, mission) prog" where
  "complete_run k =
     bindE (transition_live k Completed) (\<lambda>m.
     thenE (add_event k ''mission_completed'' ''Mission completed automatically.'' (mode_metadata m))
     (update_live k))"

definition confirm_automatically :: "uuid \<Rightarrow> 'w adapter \<Rightarrow> string \<Rightarrow> ('w sys, exn, mission) prog" where
  "confirm_automatically k a rid =
     bindE (add_event k ''automatic_confirmation_started'' ''Automatic reservation confirmation started.''
              (provider_metadata a)) (\<lambda>m.
     try_provider (confirm_reservation a rid m (confirmation_idempotency_key m))
       (fail_provider_operation k (adapter_id a) ''automatic_confirmation'')
       (\<lambda>r. if \<not> confirmation_success r
            then fail_with k ''automatic_confirmation_failed''
                   ''Automatic reservation confirmation failed.'' (provider_metadata a)
            else thenE (add_event k ''automatic_confirmation_succeeded''
                   ''Automatic reservation confirmation succeeded.'' (provider_metadata a))
                 (complete_run k)))"

definition await_confirmation :: "uuid \<Rightarrow> reservation_result \<Rightarrow> ('w sys, exn, mission) prog" where
  "await_confirmation k r =
     bindE (transition_live k RequiresConfirmation) (\<lambda>m.
     thenE (add_event k ''waiting_for_user_confirmation'' ''Waiting for user confirmation.''
        (mode_metadata m @ [(''provider_requires_confirmation'', JBool (requires_confirmation r))]))
     (update_live k))"

definition record_reservation :: "uuid \<Rightarrow> 'w adapter \<Rightarrow> reservation_result \<Rightarrow> string \<Rightarrow> ('w sys, exn, mission) prog" where
  "record_reservation k a r rid =
     thenE (assign_live k (\<lambda>m. m\<lparr>reservation_id := Some rid\<rparr>))
     (bindE (add_event k ''reservation_succeeded'' ''Reservation succeeded.''
         [(''reservation_id'', JStr rid),
          (''requires_confirmation'', JBool (requires_confirmation r))]) (\<lambda>m.
      if execution_mode m = RequireConfirmation then await_confirmation k r
      else if requires_confirmation r then confirm_automatically k a rid
      else complete_run k))"

definition finish_reservation :: "uuid \<Rightarrow> 'w adapter \<Rightarrow> reservation_result \<Rightarrow> ('w sys, exn, mission) prog" where
  "finish_reservation k a r =
     (if \<not> reservation_success r
      then fail_with k ''reservation_failed'' ''Reservation failed.'' (provider_metadata a)
      else (case result_reservation_id r of
          None \<Rightarrow> raise AssertionError
        | Some rid \<Rightarrow> record_reservation k a r rid))"

definition run_reservation :: "bool \<Rightarrow> uuid \<Rightarrow> 'w adapter \<Rightarrow> provider_option \<Rightarrow> ('w sys, exn, mission) prog" where
  "run_reservation processing k a best =
     thenE (advance processing k Reserving)
     (bindE (add_event k ''reservation_started'' ''Reservation started.'' []) (\<lambda>m.
      try_provider (reserve_option a best m (reservation_idempotency_key m))
        (fail_provider_operation k (adapter_id a) ''reservation'')
        (finish_reservation k a)))"

definition complete_search :: "uuid \<Rightarrow> ('w sys, exn, mission) prog" where
  "complete_search k =
     bindE (transition_live k Completed) (\<lambda>m.
     thenE (add_event k ''mission_search_completed''
        ''Mission completed without creating a reservation.'' (mode_metadata m))
     (update_live k))"

definition use_option :: "bool \<Rightarrow> uuid \<Rightarrow> 'w adapter \<Rightarrow> scored_option \<Rightarrow> ('w sys, exn, mission) prog" where
  "use_option processing k a best =
     thenE (advance processing k OptionFound)
     (thenE (assign_live k (\<lambda>m. m\<lparr>best_option := Some (scored best)\<rparr>))
     (bindE (add_event k ''best_option_selected'' ''Best option selected.''
        [(''score'', JInt (score best)), (''reasons'', JList (map JStr (reasons best)))]) (\<lambda>m.
      if execution_mode m = SearchOnly then complete_search k
      else run_reservation processing k a (scored best))))"

definition run_selection :: "bool \<Rightarrow> uuid \<Rightarrow> 'w adapter \<Rightarrow> provider_option list \<Rightarrow> ('w sys, exn, mission) prog" where
  "run_selection processing k a options =
     bindE (add_event k ''options_found'' ''Provider options found.''
        [(''count'', JInt (int (length options)))]) (\<lambda>m.
     case best_scored_option options m of
       None \<Rightarrow> fail_with k ''no_valid_option_found'' ''No valid option found.'' []
     | Some best \<Rightarrow> use_option processing k a best)"

definition run_search :: "bool \<Rightarrow> uuid \<Rightarrow> 'w adapter \<Rightarrow> identity list \<Rightarrow> ('w sys, exn, mission) prog" where
  "run_search processing k a participants =
     thenE (add_event k ''mission_started'' ''Mission started.'' [])
     (thenE (advance processing k Searching)
     (bindE (add_event k ''search_started'' ''Provider option search started.'' []) (\<lambda>m.
      try_provider (search_options a m participants)
        (fail_provider_operation k (adapter_id a) ''search'')
        (run_selection processing k a))))"

text \<open>\<open>_get_participants\<close>: the identities that exist, in the order of the participants.\<close>

definition get_participants :: "mission \<Rightarrow> ('w sys, exn, identity list) prog" where
  "get_participants m = gets (\<lambda>s. List.map_filter (map_of (identities s)) (participant_ids m))"

definition run_execution :: "bool \<Rightarrow> uuid \<Rightarrow> 'w adapter \<Rightarrow> ('w sys, exn, mission) prog" where
  "run_execution processing k a =
     bindE (advance processing k Running) (\<lambda>m.
     bindE (get_participants m) (\<lambda>participants.
       if length participants \<noteq> length (participant_ids m)
       then fail_with k ''participant_missing'' ''At least one mission participant was not found.'' []
       else run_search processing k a participants))"

definition resolution_payload :: "mission \<Rightarrow> 'w adapter \<Rightarrow> exn + resolved_payload" where
  "resolution_payload m a =
     (case create_provider_resolution_snapshot m (adapter_id a) [adapter_id a] of
        Inl e \<Rightarrow> Inl e
      | Inr snap \<Rightarrow> make_resolved_payload (adapter_id a) (mission_type m)
          (selection_mode_for (provider_id m)) (Some snap))"

definition run_resolved :: "uuid \<Rightarrow> 'w adapter \<Rightarrow> ('w sys, exn, mission) prog" where
  "run_resolved k a =
     bindE (assign_live k (\<lambda>m. m\<lparr>resolved_provider_id := Some (adapter_id a)\<rparr>)) (\<lambda>m.
     bindE (liftE (resolution_payload m a)) (\<lambda>p.
     thenE (add_event k ''provider_resolved'' ''Provider resolved for mission execution.'' (dump_resolved p))
     (bindE (update_live k) (\<lambda>m. run_execution (status m = Processing) k a))))"

definition run_unresolved :: "uuid \<Rightarrow> mission \<Rightarrow> exn \<Rightarrow> ('w sys, exn, mission) prog" where
  "run_unresolved k m error =
     bindE (liftE (provider_resolution_failure_payload m error)) (\<lambda>meta.
     thenE (add_event k ''provider_resolution_failed'' ''Provider resolution failed.'' meta)
     (thenE (update_live k) (raise error)))"

text \<open>\<open>_is_scheduled_for_future\<close>.\<close>

definition is_scheduled_for_future :: "mission \<Rightarrow> datetime \<Rightarrow> exn + bool" where
  "is_scheduled_for_future m now =
     (case scheduled_at m of None \<Rightarrow> Inr False | Some t \<Rightarrow> time_gt t now)"

definition run_ready :: "uuid \<Rightarrow> 'w registry \<Rightarrow> datetime \<Rightarrow> ('w sys, exn, mission) prog" where
  "run_ready k registry now =
     bindE (live k) (\<lambda>m.
     bindE (if status m = Waiting then liftE (is_scheduled_for_future m now) else ret False) (\<lambda>future.
       if future then raise (MissionNotReadyError ''Mission is scheduled for a future time'')
       else (case resolve registry m of
           Inl e \<Rightarrow> if resolution_error e then run_unresolved k m e else raise e
         | Inr a \<Rightarrow> run_resolved k a)))"

definition run_mission ::
  "uuid \<Rightarrow> 'w registry \<Rightarrow> datetime option \<Rightarrow> bool \<Rightarrow> ('w sys, exn, mission) prog" where
  "run_mission k registry current_time allow_processing =
     bindE (get_mission k) (\<lambda>found.
       case found of
         None \<Rightarrow> raise MissionNotFoundError
       | Some m \<Rightarrow>
           if status m \<notin> {Created, Waiting} \<union> (if allow_processing then {Processing} else {})
           then raise (InvalidMissionRunError (status m))
           else
             bindE (time_or_now current_time) (\<lambda>now.
             bindE (expire_mission_if_due k now) (\<lambda>expired.
               if expired then raise (MissionNotReadyError ''Mission has expired'')
               else run_ready k registry now)))"

section \<open>Confirming\<close>

definition requires_provider_confirmation :: "mission \<Rightarrow> exn + bool" where
  "requires_provider_confirmation m =
     (if resolved_provider_id m = None \<and> reservation_id m = None then Inr False
      else if resolved_provider_id m = None \<or> reservation_id m = None
      then Inl (InvalidMissionConfirmationError ''Mission reservation metadata is incomplete'')
      else Inr True)"

definition complete_confirmed :: "uuid \<Rightarrow> ('w sys, exn, mission) prog" where
  "complete_confirmed k =
     thenE (transition_live k Completed)
     (thenE (add_event k ''mission_confirmed'' ''Mission confirmed by user'' [])
     (thenE (add_event k ''mission_completed'' ''Mission completed'' [])
     (update_live k)))"

definition confirm_with :: "uuid \<Rightarrow> 'w adapter \<Rightarrow> string \<Rightarrow> ('w sys, exn, mission) prog" where
  "confirm_with k a rid =
     bindE (add_event k ''confirmation_started'' ''Reservation confirmation started.'' []) (\<lambda>m.
     try_provider (confirm_reservation a rid m (confirmation_idempotency_key m))
       (fail_provider_operation k (adapter_id a) ''confirmation'')
       (\<lambda>r. if \<not> confirmation_success r
            then fail_with k ''confirmation_failed'' ''Reservation confirmation failed.'' (provider_metadata a)
            else thenE (add_event k ''confirmation_succeeded'' ''Reservation confirmed.'' (provider_metadata a))
                 (complete_confirmed k)))"

text \<open>The reserving provider is looked up by the identifier stored at resolution time.\<close>

definition reserving_adapter :: "'w registry \<Rightarrow> mission \<Rightarrow> exn \<Rightarrow> exn + ('w adapter \<times> string)" where
  "reserving_adapter registry m unavailable =
     (case (resolved_provider_id m, reservation_id m) of
        (Some pid, Some rid) \<Rightarrow>
          (case registry_get registry pid of Inl e \<Rightarrow> Inl unavailable | Inr a \<Rightarrow> Inr (a, rid))
      | _ \<Rightarrow> Inl AssertionError)"

definition confirm_mission :: "uuid \<Rightarrow> 'w registry \<Rightarrow> ('w sys, exn, mission) prog" where
  "confirm_mission k registry =
     bindE (get_mission k) (\<lambda>found.
       case found of
         None \<Rightarrow> raise MissionNotFoundError
       | Some m \<Rightarrow>
           if status m \<noteq> RequiresConfirmation
           then raise (InvalidMissionConfirmationError
                  (''Mission cannot be confirmed from status '' @ status_value (status m)))
           else bindE (liftE (requires_provider_confirmation m)) (\<lambda>needed.
             if needed then
               bindE (liftE (reserving_adapter registry m (InvalidMissionConfirmationError
                   ''The provider for this reservation is unavailable''))) (\<lambda>(a, rid). confirm_with k a rid)
             else complete_confirmed k))"

section \<open>Cancelling\<close>

definition cancel_with :: "uuid \<Rightarrow> 'w adapter \<Rightarrow> string \<Rightarrow> ('w sys, exn, bool) prog" where
  "cancel_with k a rid =
     bindE (add_event k ''cancellation_started'' ''Reservation cancellation started.'' []) (\<lambda>m.
     try_provider (cancel_reservation a rid m (cancellation_idempotency_key m))
       (\<lambda>retryable. thenE (fail_provider_operation k (adapter_id a) ''cancellation'' retryable) (ret False))
       (\<lambda>r. if \<not> cancellation_success r
            then thenE (fail_with k ''cancellation_failed'' ''Reservation cancellation failed.''
                    (provider_metadata a)) (ret False)
            else thenE (add_event k ''cancellation_succeeded'' ''Reservation cancelled.'' (provider_metadata a))
                 (ret True)))"

definition cancel_provider_reservation :: "uuid \<Rightarrow> mission \<Rightarrow> 'w registry \<Rightarrow> ('w sys, exn, bool) prog" where
  "cancel_provider_reservation k m registry =
     (case requires_provider_confirmation m of
        Inl e \<Rightarrow> raise (InvalidMissionCancellationError ''Mission reservation metadata is incomplete'')
      | Inr needed \<Rightarrow>
          if \<not> needed then ret True
          else bindE (liftE (reserving_adapter registry m (InvalidMissionCancellationError
                   ''The provider for this reservation is unavailable''))) (\<lambda>(a, rid). cancel_with k a rid))"

definition cancel_now :: "uuid \<Rightarrow> ('w sys, exn, mission) prog" where
  "cancel_now k =
     thenE (transition_live k Cancelled)
     (thenE (add_event k ''mission_cancelled'' ''Mission cancelled.'' []) (update_live k))"

definition cancel_mission :: "uuid \<Rightarrow> 'w registry \<Rightarrow> ('w sys, exn, mission) prog" where
  "cancel_mission k registry =
     bindE (get_mission k) (\<lambda>found.
       case found of
         None \<Rightarrow> raise MissionNotFoundError
       | Some m \<Rightarrow>
           if status m \<notin> {Created, Waiting, Paused, RequiresConfirmation}
           then raise (InvalidMissionCancellationError
                  (''Mission cannot be cancelled from status '' @ status_value (status m)))
           else
             bindE (if status m = RequiresConfirmation then cancel_provider_reservation k m registry
                    else ret True) (\<lambda>cancelled.
               if \<not> cancelled then live k else cancel_now k))"

end
