(* ===== verification/EngineRun.thy ===== *)
theory EngineRun
  imports Engine
begin

text \<open>
  The contract of \<open>run_mission\<close>, stage by stage from the last to the first: what the mission,
  its events and the repository look like when a stage returns (\<open>run_done\<close>), and what remains
  true when an exception of an adapter passes through (\<open>interrupted\<close>).
\<close>

section \<open>Outcomes\<close>

definition interrupted :: "uuid \<Rightarrow> ('w \<Rightarrow> bool) \<Rightarrow> 'w sys \<Rightarrow> bool" where
  "interrupted k W s \<longleftrightarrow> repo_mid k s \<and> ids_ok s \<and> W (world s)"

definition finished :: "uuid \<Rightarrow> ('w \<Rightarrow> bool) \<Rightarrow> (mission \<Rightarrow> bool) \<Rightarrow> mission \<Rightarrow> 'w sys \<Rightarrow> bool" where
  "finished k W P m s \<longleftrightarrow>
     repo_ok s \<and> ids_ok s \<and> W (world s) \<and> map_of (missions s) k = Some m \<and> P m"

lemma exec_interrupted: "exec k W opn c ts s \<Longrightarrow> interrupted k W s"
  by (simp add: exec_def at_def interrupted_def)

text \<open>The fields that identify a request; an execution changes none of them.\<close>

definition same_request :: "mission \<Rightarrow> mission \<Rightarrow> bool" where
  "same_request c m \<longleftrightarrow>
     mission_id m = mission_id c \<and> participant_ids m = participant_ids c
     \<and> execution_mode m = execution_mode c \<and> provider_id m = provider_id c
     \<and> mission_type m = mission_type c \<and> resolved_provider_id m = resolved_provider_id c
     \<and> constraints m = constraints c \<and> fallback_rules m = fallback_rules c
     \<and> scheduled_at m = scheduled_at c \<and> expires_at m = expires_at c
     \<and> execution_attempts m = execution_attempts c \<and> max_execution_attempts m = max_execution_attempts c"

lemma same_request_refl [simp]: "same_request c c"
  by (simp add: same_request_def)

lemma same_request_assign [simp]:
  "same_request c (m\<lparr>status := st, claimed_at := cl\<rparr>) = same_request c m"
  "same_request c (m\<lparr>reservation_id := r\<rparr>) = same_request c m"
  "same_request c (m\<lparr>best_option := b\<rparr>) = same_request c m"
  by (simp_all add: same_request_def)

lemma same_request_core: "core m = c \<Longrightarrow> same_request c0 c \<Longrightarrow> same_request c0 m"
  using core_D [of m c] by (simp add: same_request_def)

lemma breaks_rules_same: "same_request c m \<Longrightarrow> breaks_rules option m = breaks_rules option c"
  by (simp add: same_request_def breaks_rules_def)

lemma breaks_rules_core: "core m = c \<Longrightarrow> breaks_rules option m = breaks_rules option c"
  using core_D [of m c] by (simp add: breaks_rules_def)

text \<open>The event types of a successful execution after its provider was resolved.\<close>

definition search_trace :: "string list" where
  "search_trace = [''mission_started'', ''search_started'', ''options_found'', ''best_option_selected'']"

definition reserve_trace :: "string list" where
  "reserve_trace = search_trace @ [''reservation_started'', ''reservation_succeeded'']"

fun success_traces :: "execution_mode \<Rightarrow> string list list" where
  "success_traces SearchOnly = [search_trace @ [''mission_search_completed'']]"
| "success_traces RequireConfirmation = [reserve_trace @ [''waiting_for_user_confirmation'']]"
| "success_traces AutoPurchase =
     [reserve_trace @ [''mission_completed''],
      reserve_trace @ [''automatic_confirmation_started'', ''automatic_confirmation_succeeded'', ''mission_completed'']]"

definition failure_events :: "string list" where
  "failure_events = [''participant_missing'', ''provider_operation_failed'', ''no_valid_option_found'',
     ''reservation_failed'', ''automatic_confirmation_failed'']"

definition trace_ok :: "execution_mode \<Rightarrow> mission_status \<Rightarrow> string list \<Rightarrow> bool" where
  "trace_ok mode st new \<longleftrightarrow>
     (if st = Failed then new \<noteq> [] \<and> last new \<in> set failure_events
      else new \<in> set (success_traces mode))"

fun success_status :: "execution_mode \<Rightarrow> mission_status" where
  "success_status SearchOnly = Completed"
| "success_status RequireConfirmation = RequiresConfirmation"
| "success_status AutoPurchase = Completed"

text \<open>How an execution may end, given the core \<open>c\<close> of the mission after resolution.\<close>

definition outcome_ok :: "mission \<Rightarrow> mission \<Rightarrow> bool" where
  "outcome_ok c m \<longleftrightarrow>
     (status m = Failed
      \<or> status m = success_status (execution_mode c)
        \<and> (case best_option m of None \<Rightarrow> False | Some b \<Rightarrow> \<not> breaks_rules b c)
        \<and> (execution_mode c \<noteq> SearchOnly \<longrightarrow> reservation_id m \<noteq> None))
     \<and> (execution_mode c = SearchOnly \<longrightarrow> reservation_id m = reservation_id c)"

definition run_done :: "mission \<Rightarrow> string list \<Rightarrow> mission \<Rightarrow> bool" where
  "run_done c ts m \<longleftrightarrow> same_request c m \<and> outcome_ok c m
     \<and> (\<exists>new. event_types m = ts @ new \<and> trace_ok (execution_mode c) (status m) new)"

lemma outcome_ok_core: "core m = c' \<Longrightarrow> outcome_ok c c' \<Longrightarrow> outcome_ok c m"
  using core_D [of m c'] by (simp add: outcome_ok_def)

lemma run_doneI:
  assumes "core m = c'" and "same_request c c'" and "outcome_ok c c'" and "event_types m = ts @ new"
    and "trace_ok (execution_mode c) (status c') new"
  shows "run_done c ts m"
  using same_request_core [OF assms(1,2)] outcome_ok_core [OF assms(1,3)] assms(4,5) core_D(2) [OF assms(1)]
  by (auto simp: run_done_def)

section \<open>Closing steps\<close>

lemma finish_wp:
  assumes "exec k W opn c ts s" and "can_transition (status c) target False False" and "target \<noteq> Processing"
    and "opn \<Longrightarrow> target \<in> {RequiresConfirmation, Completed, Failed}"
    and "\<And>m. core m = c\<lparr>status := target, claimed_at := None\<rparr> \<Longrightarrow> event_types m = ts @ [ty] \<Longrightarrow> P m"
  shows "wp (bindE (transition_live k target) (\<lambda>m. thenE (add_event k ty msg (f m)) (update_live k)))
           (finished k W P) E s"
  unfolding wp
proof (rule exec_transition [OF assms(1,2,3)])
  show "target \<in> {RequiresConfirmation, Completed, Failed}" if opn using assms(4) that by blast
next
  fix m s1 assume "exec k W opn (c\<lparr>status := target, claimed_at := None\<rparr>) ts s1"
  then show "wp (add_event k ty msg (f m)) (\<lambda>_. wp (update_live k) (finished k W P) E) E s1"
  proof (rule exec_add_event)
    fix m' s2 assume "exec k W opn (c\<lparr>status := target, claimed_at := None\<rparr>) (ts @ [ty]) s2"
    then show "wp (update_live k) (finished k W P) E s2"
    proof (rule exec_update)
      fix m s' assume "exec k W (status (c\<lparr>status := target, claimed_at := None\<rparr>) = Processing)
          (c\<lparr>status := target, claimed_at := None\<rparr>) (ts @ [ty]) s'"
        and "repo_ok s'" "map_of (missions s') k = Some m" "core m = c\<lparr>status := target, claimed_at := None\<rparr>"
          "event_types m = ts @ [ty]"
      then show "finished k W P m s'" using assms(5) by (simp add: finished_def exec_def at_def)
    qed simp
  qed
qed

lemma fail_with_eq:
  "fail_with k ty msg meta =
     bindE (transition_live k Failed) (\<lambda>m. thenE (add_event k ty msg meta) (update_live k))"
  by (simp add: fail_with_def thenE_def)

text \<open>The status in which a stage runs: unchanged for a claimed mission, the stage's own
  otherwise; the attempt is open exactly in the first case.\<close>

definition phase :: "bool \<Rightarrow> mission_status \<Rightarrow> mission \<Rightarrow> bool" where
  "phase p st c \<longleftrightarrow> status c = (if p then Processing else st)"

definition active_statuses :: "mission_status list" where
  "active_statuses = [Running, Searching, OptionFound, Reserving]"

lemma phase_can_fail: "phase p st c \<Longrightarrow> st \<in> set active_statuses \<Longrightarrow> can_transition (status c) Failed False False"
  by (cases p; cases st) (simp_all add: phase_def active_statuses_def can_transition_def)

lemma phase_can_finish:
  "phase p st c \<Longrightarrow> st \<in> {OptionFound, Reserving} \<Longrightarrow> can_transition (status c) Completed False False"
  by (cases p; cases st) (simp_all add: phase_def can_transition_def)

lemma outcome_Failed:
  "execution_mode c = SearchOnly \<longrightarrow> reservation_id c' = reservation_id c \<Longrightarrow>
     outcome_ok c (c'\<lparr>status := Failed, claimed_at := None\<rparr>)"
  by (simp add: outcome_ok_def)

lemma fail_with_wp:
  assumes "exec k W p c' (ts @ new) s" and "phase p st c'" and "st \<in> set active_statuses"
    and "same_request c c'" and "execution_mode c = SearchOnly \<longrightarrow> reservation_id c' = reservation_id c"
    and "ty \<in> set failure_events"
  shows "wp (fail_with k ty msg meta) (finished k W (run_done c ts)) E s"
  unfolding fail_with_eq
proof (rule finish_wp [OF assms(1) phase_can_fail [OF assms(2,3)]])
  fix m assume m: "core m = c'\<lparr>status := Failed, claimed_at := None\<rparr>" "event_types m = (ts @ new) @ [ty]"
  show "run_done c ts m"
    by (rule run_doneI [OF m(1), where new = "new @ [ty]"])
       (use assms(4,6) outcome_Failed [OF assms(5)] m(2) in \<open>simp_all add: trace_ok_def\<close>)
qed simp_all

lemma try_provider_wp:
  assumes "exec k W p c' ts s" and "wp f (\<lambda>_. W) (\<lambda>_. W) (world s)"
    and "\<And>r s'. exec k W p c' ts s' \<Longrightarrow> wp (handler r) Q (\<lambda>_. interrupted k W) s'"
    and "\<And>x s'. exec k W p c' ts s' \<Longrightarrow> wp (cont x) Q (\<lambda>_. interrupted k W) s'"
  shows "wp (try_provider f handler cont) Q (\<lambda>_. interrupted k W) s"
  unfolding try_provider_def wp
  by (rule exec_call [OF assms(1,2)])
    (simp_all add: wp assms(3,4) exec_interrupted split: option.split)

lemma advance_wp:
  assumes "exec k W p c ts s" and "phase p st c" and "\<not> p \<longrightarrow> can_transition st target False False"
    and "target \<noteq> Processing"
    and "\<And>m c' s'. exec k W p c' ts s' \<Longrightarrow> core m = c' \<Longrightarrow> phase p target c' \<Longrightarrow> same_request c c' \<Longrightarrow>
          reservation_id c' = reservation_id c \<Longrightarrow> best_option c' = best_option c \<Longrightarrow> Q m s'"
  shows "wp (advance p k target) Q E s"
proof (cases p)
  case True
  then have "phase p target c" using assms(2) by (simp add: phase_def)
  then show ?thesis
    unfolding advance_def using True
    by (simp add: wp exec_live [OF assms(1)] assms(5) [OF assms(1)])
next
  case False
  have c: "can_transition (status c) target False False" using assms(2,3) False by (simp add: phase_def)
  have "wp (transition_live k target) Q E s"
  proof (rule wp_transition_live [OF execD(1) [OF assms(1)] c assms(4)])
    show "target \<in> {RequiresConfirmation, Completed, Failed}" if p using that False by simp
    fix m s' assume a: "at k p (c\<lparr>status := target, claimed_at := None\<rparr>) ts s'"
      "mission_repo.more s' = mission_repo.more s" "core m = c\<lparr>status := target, claimed_at := None\<rparr>"
    show "Q m s'"
      by (rule assms(5) [OF exec_more [OF a(1,2) assms(1)] a(3)])
         (use False in \<open>simp_all add: phase_def same_request_def\<close>)
  qed
  then show ?thesis using False by (simp add: advance_def)
qed

section \<open>The stages\<close>

text \<open>A stage of an execution: the mission under work belongs to the request \<open>c\<close> and has
  recorded \<open>new\<close> since its provider was resolved.\<close>

definition stage :: "uuid \<Rightarrow> ('w \<Rightarrow> bool) \<Rightarrow> bool \<Rightarrow> mission_status \<Rightarrow> mission \<Rightarrow> string list \<Rightarrow>
    string list \<Rightarrow> mission \<Rightarrow> 'w sys \<Rightarrow> bool" where
  "stage k W p st c ts new c' s \<longleftrightarrow>
     exec k W p c' (ts @ new) s \<and> phase p st c' \<and> same_request c c'
     \<and> (execution_mode c = SearchOnly \<longrightarrow> reservation_id c' = reservation_id c)"

lemma stageD:
  assumes "stage k W p st c ts new c' s"
  shows "exec k W p c' (ts @ new) s" and "phase p st c'" and "same_request c c'"
    and "execution_mode c = SearchOnly \<longrightarrow> reservation_id c' = reservation_id c"
    and "execution_mode c' = execution_mode c"
  using assms by (simp_all add: stage_def same_request_def)

lemma stage_exec:
  "exec k W p c' (ts @ new') s' \<Longrightarrow> stage k W p st c ts new c' s \<Longrightarrow> stage k W p st c ts new' c' s'"
  by (simp add: stage_def)

lemma stage_event:
  assumes "stage k W p st c ts new c' s"
    and "\<And>m s'. stage k W p st c ts (new @ [ty]) c' s' \<Longrightarrow> core m = c' \<Longrightarrow> Q m s'"
  shows "wp (add_event k ty msg meta) Q E s"
proof (rule exec_add_event [OF stageD(1) [OF assms(1)]])
  fix m s' assume "exec k W p c' ((ts @ new) @ [ty]) s'" and "core m = c'"
  then show "Q m s'" by (intro assms(2) stage_exec [OF _ assms(1)]) simp_all
qed

lemma stage_advance:
  assumes "stage k W p st c ts new c' s" and "\<not> p \<longrightarrow> can_transition st target False False" and "target \<noteq> Processing"
    and "\<And>m c'' s'. stage k W p target c ts new c'' s' \<Longrightarrow> core m = c'' \<Longrightarrow>
          reservation_id c'' = reservation_id c' \<Longrightarrow> best_option c'' = best_option c' \<Longrightarrow> Q m s'"
  shows "wp (advance p k target) Q E s"
proof (rule advance_wp [OF stageD(1,2) [OF assms(1)] assms(2,3)])
  fix m c'' s' assume a: "exec k W p c'' (ts @ new) s'" "core m = c''" "phase p target c''" "same_request c' c''"
      "reservation_id c'' = reservation_id c'" "best_option c'' = best_option c'"
  have "stage k W p target c ts new c'' s'"
    using a assms(1) by (simp add: stage_def same_request_def)
  then show "Q m s'" using a(2,5,6) by (rule assms(4))
qed

lemma stage_try:
  assumes "stage k W p st c ts new c' s" and "wp f (\<lambda>_. W) (\<lambda>_. W) (world s)"
    and "\<And>r s'. stage k W p st c ts new c' s' \<Longrightarrow> wp (handler r) Q (\<lambda>_. interrupted k W) s'"
    and "\<And>x s'. stage k W p st c ts new c' s' \<Longrightarrow> wp (cont x) Q (\<lambda>_. interrupted k W) s'"
  shows "wp (try_provider f handler cont) Q (\<lambda>_. interrupted k W) s"
  by (rule try_provider_wp [OF stageD(1) [OF assms(1)] assms(2)])
     (blast intro: assms(3,4) stage_exec [OF _ assms(1)])+

lemma stage_fail:
  assumes "stage k W p st c ts new c' s" and "st \<in> set active_statuses" and "ty \<in> set failure_events"
  shows "wp (fail_with k ty msg meta) (finished k W (run_done c ts)) E s"
  by (rule fail_with_wp [OF stageD(1,2) [OF assms(1)] assms(2) stageD(3,4) [OF assms(1)] assms(3)])

lemma stage_fail_provider:
  assumes "stage k W p st c ts new c' s" and "st \<in> set active_statuses"
  shows "wp (fail_provider_operation k pid operation r) (finished k W (run_done c ts)) E s"
  unfolding fail_provider_operation_def
  by (rule stage_fail [OF assms]) (simp add: failure_events_def)

text \<open>Success: one of the traces of the execution mode has been recorded.\<close>

lemma stage_success:
  assumes "stage k W p st c ts new c' s" and "can_transition (status c') target False False"
    and "target = success_status (execution_mode c)" and "new @ [ty] \<in> set (success_traces (execution_mode c))"
    and "best_option c' = Some b" and "\<not> breaks_rules b c"
    and "execution_mode c \<noteq> SearchOnly \<longrightarrow> reservation_id c' \<noteq> None"
  shows "wp (bindE (transition_live k target) (\<lambda>m. thenE (add_event k ty msg (f m)) (update_live k)))
     (finished k W (run_done c ts)) E s"
proof (rule finish_wp [OF stageD(1) [OF assms(1)] assms(2)])
  have t: "target \<in> {RequiresConfirmation, Completed}" using assms(3) by (cases "execution_mode c") auto
  then show "target \<noteq> Processing" "target \<in> {RequiresConfirmation, Completed, Failed}" by auto
  fix m assume m: "core m = c'\<lparr>status := target, claimed_at := None\<rparr>" "event_types m = (ts @ new) @ [ty]"
  show "run_done c ts m"
  proof (rule run_doneI [OF m(1), where new = "new @ [ty]"])
    show "trace_ok (execution_mode c) (status (c'\<lparr>status := target, claimed_at := None\<rparr>)) (new @ [ty])"
      using t assms(4) by (auto simp: trace_ok_def)
    show "outcome_ok c (c'\<lparr>status := target, claimed_at := None\<rparr>)"
      using assms(3,5,6,7) stageD(4) [OF assms(1)] by (simp add: outcome_ok_def)
  qed (use m(2) stageD(3) [OF assms(1)] in simp_all)
qed

lemma complete_run_wp:
  assumes "stage k W p Reserving c ts new c' s" and "execution_mode c = AutoPurchase"
    and "new @ [''mission_completed''] \<in> set (success_traces AutoPurchase)"
    and "best_option c' = Some b" and "\<not> breaks_rules b c" and "reservation_id c' \<noteq> None"
  shows "wp (complete_run k) (finished k W (run_done c ts)) E s"
  unfolding complete_run_def
  by (rule stage_success [OF assms(1) phase_can_finish [OF stageD(2) [OF assms(1)]] _ _ assms(4,5)])
     (use assms(2,3,6) in simp_all)

lemma confirm_automatically_wp:
  assumes "stage k W p Reserving c ts reserve_trace c' s" and "execution_mode c = AutoPurchase"
    and "best_option c' = Some b" and "\<not> breaks_rules b c" and "reservation_id c' \<noteq> None"
    and "\<And>m key w. W w \<Longrightarrow> wp (confirm_reservation a rid m key) (\<lambda>_. W) (\<lambda>_. W) w"
  shows "wp (confirm_automatically k a rid) (finished k W (run_done c ts)) (\<lambda>_. interrupted k W) s"
  unfolding confirm_automatically_def wp
proof (rule stage_event [OF assms(1)])
  fix m s1
  assume s1: "stage k W p Reserving c ts (reserve_trace @ [''automatic_confirmation_started'']) c' s1"
  show "wp (try_provider (confirm_reservation a rid m (confirmation_idempotency_key m))
       (fail_provider_operation k (adapter_id a) ''automatic_confirmation'')
       (\<lambda>r. if \<not> confirmation_success r
            then fail_with k ''automatic_confirmation_failed''
                   ''Automatic reservation confirmation failed.'' (provider_metadata a)
            else thenE (add_event k ''automatic_confirmation_succeeded''
                   ''Automatic reservation confirmation succeeded.'' (provider_metadata a))
                 (complete_run k)))
     (finished k W (run_done c ts)) (\<lambda>_. interrupted k W) s1"
  proof (rule stage_try [OF s1 assms(6) [OF execD(2) [OF stageD(1) [OF s1]]]])
    fix r s2 assume s2: "stage k W p Reserving c ts (reserve_trace @ [''automatic_confirmation_started'']) c' s2"
    show "wp (fail_provider_operation k (adapter_id a) ''automatic_confirmation'' r)
       (finished k W (run_done c ts)) (\<lambda>_. interrupted k W) s2"
      by (rule stage_fail_provider [OF s2]) (simp add: active_statuses_def)
  next
    fix r s2 assume s2: "stage k W p Reserving c ts (reserve_trace @ [''automatic_confirmation_started'']) c' s2"
    have "wp (fail_with k ''automatic_confirmation_failed'' msg (provider_metadata a))
       (finished k W (run_done c ts)) (\<lambda>_. interrupted k W) s2" for msg
      by (rule stage_fail [OF s2]) (simp_all add: active_statuses_def failure_events_def)
    moreover have "wp (thenE (add_event k ''automatic_confirmation_succeeded'' msg (provider_metadata a)) (complete_run k))
       (finished k W (run_done c ts)) (\<lambda>_. interrupted k W) s2" for msg
      unfolding wp
      by (rule stage_event [OF s2], rule complete_run_wp [OF _ assms(2) _ assms(3-5)], assumption) simp
    ultimately show "wp (if \<not> confirmation_success r
            then fail_with k ''automatic_confirmation_failed''
                   ''Automatic reservation confirmation failed.'' (provider_metadata a)
            else thenE (add_event k ''automatic_confirmation_succeeded''
                   ''Automatic reservation confirmation succeeded.'' (provider_metadata a))
                 (complete_run k)) (finished k W (run_done c ts)) (\<lambda>_. interrupted k W) s2"
      by simp
  qed
qed

text \<open>What the adapter must keep for the calls that an execution of the given mode makes.\<close>

definition calls_keep :: "('w \<Rightarrow> bool) \<Rightarrow> execution_mode \<Rightarrow> 'w adapter \<Rightarrow> bool" where
  "calls_keep W mode a \<longleftrightarrow>
     (\<forall>m ids w. W w \<longrightarrow> wp (search_options a m ids) (\<lambda>_. W) (\<lambda>_. W) w)
     \<and> (mode \<noteq> SearchOnly \<longrightarrow>
          (\<forall>b m key w. W w \<longrightarrow> wp (reserve_option a b m key) (\<lambda>_. W) (\<lambda>_. W) w))
     \<and> (mode = AutoPurchase \<longrightarrow>
          (\<forall>rid m key w. W w \<longrightarrow> wp (confirm_reservation a rid m key) (\<lambda>_. W) (\<lambda>_. W) w))"

lemma await_confirmation_wp:
  assumes "stage k W p Reserving c ts reserve_trace c' s" and "execution_mode c = RequireConfirmation"
    and "best_option c' = Some b" and "\<not> breaks_rules b c" and "reservation_id c' \<noteq> None"
  shows "wp (await_confirmation k r) (finished k W (run_done c ts)) E s"
  unfolding await_confirmation_def
proof (rule stage_success [OF assms(1) _ _ _ assms(3,4)])
  show "can_transition (status c') RequiresConfirmation False False"
    using stageD(2) [OF assms(1)] by (cases p) (simp_all add: phase_def can_transition_def)
qed (use assms(2,5) in simp_all)

lemma record_reservation_wp:
  assumes "stage k W p Reserving c ts (search_trace @ [''reservation_started'']) c' s"
    and "execution_mode c \<noteq> SearchOnly" and "best_option c' = Some b" and "\<not> breaks_rules b c"
    and "calls_keep W (execution_mode c) a"
  shows "wp (record_reservation k a r rid) (finished k W (run_done c ts)) (\<lambda>_. interrupted k W) s"
  unfolding record_reservation_def wp_bindE wp_thenE
proof (rule exec_assign [OF stageD(1) [OF assms(1)]])
  let ?c = "c'\<lparr>reservation_id := Some rid\<rparr>"
  fix m s1
  assume "exec k W p ?c (ts @ search_trace @ [''reservation_started'']) s1"
  then have s1: "stage k W p Reserving c ts (search_trace @ [''reservation_started'']) ?c s1"
    using assms(1,2) by (simp add: stage_def phase_def)
  have b: "best_option ?c = Some b" "reservation_id ?c \<noteq> None" using assms(3) by simp_all
  show "wp (add_event k ''reservation_succeeded'' ''Reservation succeeded.''
         [(''reservation_id'', JStr rid), (''requires_confirmation'', JBool (requires_confirmation r))])
     (\<lambda>m. wp (if execution_mode m = RequireConfirmation then await_confirmation k r
      else if requires_confirmation r then confirm_automatically k a rid
      else complete_run k) (finished k W (run_done c ts)) (\<lambda>_. interrupted k W)) (\<lambda>_. interrupted k W) s1"
  proof (rule stage_event [OF s1])
    fix m s2
    assume "stage k W p Reserving c ts ((search_trace @ [''reservation_started'']) @ [''reservation_succeeded'']) ?c s2"
      and "core m = ?c"
    then have s2: "stage k W p Reserving c ts reserve_trace ?c s2" and m: "execution_mode m = execution_mode c"
      using core_D(4) [of m ?c] stageD(5) [OF assms(1)] by (simp_all add: reserve_trace_def)
    show "wp (if execution_mode m = RequireConfirmation then await_confirmation k r
         else if requires_confirmation r then confirm_automatically k a rid
         else complete_run k) (finished k W (run_done c ts)) (\<lambda>_. interrupted k W) s2"
    proof (cases "execution_mode c")
      case SearchOnly
      then show ?thesis using assms(2) by simp
    next
      case RequireConfirmation
      then show ?thesis using m await_confirmation_wp [OF s2 RequireConfirmation b(1) assms(4) b(2)] by simp
    next
      case AutoPurchase
      have "wp (complete_run k) (finished k W (run_done c ts)) (\<lambda>_. interrupted k W) s2"
        by (rule complete_run_wp [OF s2 AutoPurchase _ b(1) assms(4) b(2)]) simp
      moreover have "wp (confirm_automatically k a rid) (finished k W (run_done c ts)) (\<lambda>_. interrupted k W) s2"
        by (rule confirm_automatically_wp [OF s2 AutoPurchase b(1) assms(4) b(2)])
           (use assms(5) AutoPurchase in \<open>simp add: calls_keep_def\<close>)
      ultimately show ?thesis using m AutoPurchase by simp
    qed
  qed
qed simp_all

lemma finish_reservation_wp:
  assumes "stage k W p Reserving c ts (search_trace @ [''reservation_started'']) c' s"
    and "execution_mode c \<noteq> SearchOnly" and "best_option c' = Some b" and "\<not> breaks_rules b c"
    and "calls_keep W (execution_mode c) a"
  shows "wp (finish_reservation k a r) (finished k W (run_done c ts)) (\<lambda>_. interrupted k W) s"
proof -
  have "wp (fail_with k ''reservation_failed'' ''Reservation failed.'' (provider_metadata a))
      (finished k W (run_done c ts)) (\<lambda>_. interrupted k W) s"
    by (rule stage_fail [OF assms(1)]) (simp_all add: active_statuses_def failure_events_def)
  then show ?thesis
    using record_reservation_wp [OF assms] exec_interrupted [OF stageD(1) [OF assms(1)]]
    by (simp add: finish_reservation_def wp split: option.split)
qed

lemma run_reservation_wp:
  assumes "stage k W p OptionFound c ts search_trace c' s"
    and "execution_mode c \<noteq> SearchOnly" and "best_option c' = Some b" and "\<not> breaks_rules b c"
    and "calls_keep W (execution_mode c) a"
  shows "wp (run_reservation p k a b) (finished k W (run_done c ts)) (\<lambda>_. interrupted k W) s"
  unfolding run_reservation_def wp
proof (rule stage_advance [OF assms(1)])
  fix m c2 s1 assume s1: "stage k W p Reserving c ts search_trace c2 s1" and b: "best_option c2 = best_option c'"
  show "wp (add_event k ''reservation_started'' ''Reservation started.'' [])
     (\<lambda>m. wp (try_provider (reserve_option a b m (reservation_idempotency_key m))
        (fail_provider_operation k (adapter_id a) ''reservation'')
        (finish_reservation k a)) (finished k W (run_done c ts)) (\<lambda>_. interrupted k W))
     (\<lambda>_. interrupted k W) s1"
  proof (rule stage_event [OF s1])
    fix m s2 assume s2: "stage k W p Reserving c ts (search_trace @ [''reservation_started'']) c2 s2"
    show "wp (try_provider (reserve_option a b m (reservation_idempotency_key m))
        (fail_provider_operation k (adapter_id a) ''reservation'')
        (finish_reservation k a)) (finished k W (run_done c ts)) (\<lambda>_. interrupted k W) s2"
    proof (rule stage_try [OF s2])
      show "wp (reserve_option a b m (reservation_idempotency_key m)) (\<lambda>_. W) (\<lambda>_. W) (world s2)"
        using assms(2,5) execD(2) [OF stageD(1) [OF s2]] by (simp add: calls_keep_def)
    next
      fix r s3 assume s3: "stage k W p Reserving c ts (search_trace @ [''reservation_started'']) c2 s3"
      show "wp (fail_provider_operation k (adapter_id a) ''reservation'' r)
          (finished k W (run_done c ts)) (\<lambda>_. interrupted k W) s3"
        by (rule stage_fail_provider [OF s3]) (simp add: active_statuses_def)
    next
      fix r s3 assume s3: "stage k W p Reserving c ts (search_trace @ [''reservation_started'']) c2 s3"
      show "wp (finish_reservation k a r) (finished k W (run_done c ts)) (\<lambda>_. interrupted k W) s3"
        using finish_reservation_wp [OF s3 assms(2) _ assms(4,5)] b assms(3) by simp
    qed
  qed
qed (simp_all add: can_transition_def)

lemma use_option_wp:
  assumes "stage k W p Searching c ts [''mission_started'', ''search_started'', ''options_found''] c' s"
    and "calls_keep W (execution_mode c) a" and "\<not> breaks_rules (scored best) c"
  shows "wp (use_option p k a best) (finished k W (run_done c ts)) (\<lambda>_. interrupted k W) s"
  unfolding use_option_def wp_bindE wp_thenE
proof (rule stage_advance [OF assms(1)])
  let ?b = "scored best"
  fix m c2 s2
  assume s2: "stage k W p OptionFound c ts [''mission_started'', ''search_started'', ''options_found''] c2 s2"
  let ?c = "c2\<lparr>best_option := Some ?b\<rparr>"
  show "wp (assign_live k (\<lambda>m. m\<lparr>best_option := Some ?b\<rparr>))
   (\<lambda>_. wp (add_event k ''best_option_selected'' ''Best option selected.''
        [(''score'', JInt (score best)), (''reasons'', JList (map JStr (reasons best)))])
     (\<lambda>m. wp (if execution_mode m = SearchOnly then complete_search k
      else run_reservation p k a ?b) (finished k W (run_done c ts)) (\<lambda>_. interrupted k W))
     (\<lambda>_. interrupted k W)) (\<lambda>_. interrupted k W) s2"
  proof (rule exec_assign [OF stageD(1) [OF s2]])
    fix m s3 assume "exec k W p ?c (ts @ [''mission_started'', ''search_started'', ''options_found'']) s3"
    then have s3: "stage k W p OptionFound c ts [''mission_started'', ''search_started'', ''options_found''] ?c s3"
      using s2 by (simp add: stage_def phase_def)
    show "wp (add_event k ''best_option_selected'' ''Best option selected.''
        [(''score'', JInt (score best)), (''reasons'', JList (map JStr (reasons best)))])
     (\<lambda>m. wp (if execution_mode m = SearchOnly then complete_search k
      else run_reservation p k a ?b) (finished k W (run_done c ts)) (\<lambda>_. interrupted k W))
     (\<lambda>_. interrupted k W) s3"
    proof (rule stage_event [OF s3])
      fix m s4
      assume "stage k W p OptionFound c ts
          ([''mission_started'', ''search_started'', ''options_found''] @ [''best_option_selected'']) ?c s4"
        and "core m = ?c"
      then have s4: "stage k W p OptionFound c ts search_trace ?c s4" and m: "execution_mode m = execution_mode c"
        using core_D(4) [of m ?c] stageD(5) [OF s2] by (simp_all add: search_trace_def)
      have "wp (complete_search k) (finished k W (run_done c ts)) (\<lambda>_. interrupted k W) s4"
        if "execution_mode c = SearchOnly"
        unfolding complete_search_def
        by (rule stage_success [OF s4 phase_can_finish [OF stageD(2) [OF s4]] _ _ _ assms(3)]) (simp_all add: that)
      moreover have "wp (run_reservation p k a ?b) (finished k W (run_done c ts)) (\<lambda>_. interrupted k W) s4"
        if "execution_mode c \<noteq> SearchOnly"
        by (rule run_reservation_wp [OF s4 that _ assms(3,2)]) simp
      ultimately show "wp (if execution_mode m = SearchOnly then complete_search k
          else run_reservation p k a ?b) (finished k W (run_done c ts)) (\<lambda>_. interrupted k W) s4"
        using m by simp
    qed
  qed simp_all
qed (simp_all add: can_transition_def)

lemma run_selection_wp:
  assumes "stage k W p Searching c ts [''mission_started'', ''search_started''] c' s"
    and "calls_keep W (execution_mode c) a"
  shows "wp (run_selection p k a options) (finished k W (run_done c ts)) (\<lambda>_. interrupted k W) s"
  unfolding run_selection_def wp_bindE
proof (rule stage_event [OF assms(1)])
  fix m s1
  assume "stage k W p Searching c ts ([''mission_started'', ''search_started''] @ [''options_found'']) c' s1"
    and m: "core m = c'"
  then have s1: "stage k W p Searching c ts [''mission_started'', ''search_started'', ''options_found''] c' s1" by simp
  have fail: "wp (fail_with k ''no_valid_option_found'' ''No valid option found.'' [])
       (finished k W (run_done c ts)) (\<lambda>_. interrupted k W) s1"
    by (rule stage_fail [OF s1]) (simp_all add: active_statuses_def failure_events_def)
  show "wp (case best_scored_option options m of
       None \<Rightarrow> fail_with k ''no_valid_option_found'' ''No valid option found.'' []
     | Some best \<Rightarrow> use_option p k a best) (finished k W (run_done c ts)) (\<lambda>_. interrupted k W) s1"
  proof (cases "best_scored_option options m")
    case None
    then show ?thesis using fail by simp
  next
    case (Some best)
    have "\<not> breaks_rules (scored best) c"
      using best_Some(5) [OF Some] breaks_rules_core [OF m] breaks_rules_same [OF stageD(3) [OF s1]] by simp
    then show ?thesis using use_option_wp [OF s1 assms(2)] Some by simp
  qed
qed

lemma run_search_wp:
  assumes "stage k W p Running c ts [] c' s" and "calls_keep W (execution_mode c) a"
  shows "wp (run_search p k a ids) (finished k W (run_done c ts)) (\<lambda>_. interrupted k W) s"
  unfolding run_search_def wp_bindE wp_thenE
proof (rule stage_event [OF assms(1)])
  fix m s1 assume s1: "stage k W p Running c ts ([] @ [''mission_started'']) c' s1"
  show "wp (advance p k Searching) (\<lambda>_. wp (add_event k ''search_started'' ''Provider option search started.'' [])
     (\<lambda>m. wp (try_provider (search_options a m ids) (fail_provider_operation k (adapter_id a) ''search'')
        (run_selection p k a)) (finished k W (run_done c ts)) (\<lambda>_. interrupted k W))
     (\<lambda>_. interrupted k W)) (\<lambda>_. interrupted k W) s1"
  proof (rule stage_advance [OF s1])
    fix m c2 s2 assume s2: "stage k W p Searching c ts ([] @ [''mission_started'']) c2 s2"
    show "wp (add_event k ''search_started'' ''Provider option search started.'' [])
     (\<lambda>m. wp (try_provider (search_options a m ids) (fail_provider_operation k (adapter_id a) ''search'')
        (run_selection p k a)) (finished k W (run_done c ts)) (\<lambda>_. interrupted k W))
     (\<lambda>_. interrupted k W) s2"
    proof (rule stage_event [OF s2])
      fix m s3 assume "stage k W p Searching c ts (([] @ [''mission_started'']) @ [''search_started'']) c2 s3"
      then have s3: "stage k W p Searching c ts [''mission_started'', ''search_started''] c2 s3" by simp
      show "wp (try_provider (search_options a m ids) (fail_provider_operation k (adapter_id a) ''search'')
        (run_selection p k a)) (finished k W (run_done c ts)) (\<lambda>_. interrupted k W) s3"
      proof (rule stage_try [OF s3])
        show "wp (search_options a m ids) (\<lambda>_. W) (\<lambda>_. W) (world s3)"
          using assms(2) execD(2) [OF stageD(1) [OF s3]] by (simp add: calls_keep_def)
      next
        fix r s4 assume s4: "stage k W p Searching c ts [''mission_started'', ''search_started''] c2 s4"
        show "wp (fail_provider_operation k (adapter_id a) ''search'' r)
            (finished k W (run_done c ts)) (\<lambda>_. interrupted k W) s4"
          by (rule stage_fail_provider [OF s4]) (simp add: active_statuses_def)
      next
        fix x s4 assume s4: "stage k W p Searching c ts [''mission_started'', ''search_started''] c2 s4"
        show "wp (run_selection p k a x) (finished k W (run_done c ts)) (\<lambda>_. interrupted k W) s4"
          by (rule run_selection_wp [OF s4 assms(2)])
      qed
    qed
  qed (simp_all add: can_transition_def)
qed

lemma run_execution_wp:
  assumes "exec k W p c ts s" and "phase p st c" and "st \<in> {Created, Waiting}"
    and "calls_keep W (execution_mode c) a"
  shows "wp (run_execution p k a) (finished k W (run_done c ts)) (\<lambda>_. interrupted k W) s"
  unfolding run_execution_def wp_bindE
proof (rule advance_wp [OF assms(1,2)])
  fix m c' s1
  assume "exec k W p c' ts s1" "phase p Running c'" "same_request c c'" "reservation_id c' = reservation_id c"
  then have s1: "stage k W p Running c ts [] c' s1" by (simp add: stage_def)
  have "wp (fail_with k ''participant_missing'' msg []) (finished k W (run_done c ts)) (\<lambda>_. interrupted k W) s1" for msg
    by (rule stage_fail [OF s1]) (simp_all add: active_statuses_def failure_events_def)
  then show "wp (get_participants m)
     (\<lambda>ids. wp (if length ids \<noteq> length (participant_ids m)
       then fail_with k ''participant_missing'' ''At least one mission participant was not found.'' []
       else run_search p k a ids) (finished k W (run_done c ts)) (\<lambda>_. interrupted k W)) (\<lambda>_. interrupted k W) s1"
    using run_search_wp [OF s1 assms(4)] by (simp add: get_participants_def wp)
qed (use assms(3) in \<open>auto simp: can_transition_def\<close>)

section \<open>Resolution and readiness\<close>

lemma run_resolved_wp:
  assumes "exec k W p c ts s" and "phase p st c" and "st \<in> {Created, Waiting}"
    and "calls_keep W (execution_mode c) a"
  shows "wp (run_resolved k a)
     (finished k W (run_done (c\<lparr>resolved_provider_id := Some (adapter_id a)\<rparr>) (ts @ [''provider_resolved''])))
     (\<lambda>_. interrupted k W) s"
  unfolding run_resolved_def wp_bindE wp_thenE
proof (rule exec_assign [OF assms(1)])
  let ?c = "c\<lparr>resolved_provider_id := Some (adapter_id a)\<rparr>"
  let ?ts = "ts @ [''provider_resolved'']"
  fix m s1 assume s1: "exec k W p ?c ts s1"
  have resolved: "wp (add_event k ''provider_resolved'' ''Provider resolved for mission execution.'' meta)
      (\<lambda>_. wp (update_live k) (\<lambda>m. wp (run_execution (status m = Processing) k a)
          (finished k W (run_done ?c ?ts)) (\<lambda>_. interrupted k W)) (\<lambda>_. interrupted k W))
      (\<lambda>_. interrupted k W) s1" for meta
  proof (rule exec_add_event [OF s1])
    fix m s2 assume "exec k W p ?c ?ts s2"
    then show "wp (update_live k) (\<lambda>m. wp (run_execution (status m = Processing) k a)
          (finished k W (run_done ?c ?ts)) (\<lambda>_. interrupted k W)) (\<lambda>_. interrupted k W) s2"
    proof (rule exec_update)
      fix m s3 assume "exec k W (status ?c = Processing) ?c ?ts s3" and m: "core m = ?c"
      moreover have "(status ?c = Processing) = p" using assms(2,3) by (auto simp: phase_def)
      moreover have "status m = status ?c" by (rule core_D(2) [OF m])
      ultimately show "wp (run_execution (status m = Processing) k a)
          (finished k W (run_done ?c ?ts)) (\<lambda>_. interrupted k W) s3"
        using run_execution_wp [of k W p ?c ?ts s3 st a] assms(2-4) by (simp add: phase_def)
    qed simp
  qed
  show "wp (liftE (resolution_payload m a))
     (\<lambda>x. wp (add_event k ''provider_resolved'' ''Provider resolved for mission execution.'' (dump_resolved x))
        (\<lambda>_. wp (update_live k) (\<lambda>m. wp (run_execution (status m = Processing) k a)
          (finished k W (run_done ?c ?ts)) (\<lambda>_. interrupted k W)) (\<lambda>_. interrupted k W))
        (\<lambda>_. interrupted k W)) (\<lambda>_. interrupted k W) s1"
    using resolved exec_interrupted [OF s1] by (simp add: wp_liftE split: sum.split)
qed simp_all

lemma resolve_core:
  assumes "core m = core m'"
  shows "resolve r m = resolve r m'"
proof -
  have e: "provider_id m = provider_id m'" "mission_type m = mission_type m'" "execution_mode m = execution_mode m'"
    using core_D [OF assms] by simp_all
  show ?thesis unfolding resolve_def e by (rule refl)
qed

text \<open>The state after a refusal: the mission is unchanged but for recorded events.\<close>

lemma run_unresolved_wp:
  assumes "exec k W p c ts s"
    and "\<And>s'. exec k W (status c = Processing) c (ts @ [''provider_resolution_failed'']) s' \<Longrightarrow> repo_ok s' \<Longrightarrow> E e s'"
    and "\<And>err. provider_resolution_failure_payload m e = Inl err \<Longrightarrow> E err s"
  shows "wp (run_unresolved k m e) Q E s"
proof -
  have "wp (add_event k ''provider_resolution_failed'' msg meta)
     (\<lambda>_. wp (update_live k) (\<lambda>_. wp (raise e) Q E) E) E s" for msg meta
  proof (rule exec_add_event [OF assms(1)])
    fix m s1 assume "exec k W p c (ts @ [''provider_resolution_failed'']) s1"
    then show "wp (update_live k) (\<lambda>_. wp (raise e) Q E) E s1"
      by (rule exec_update) (simp_all add: wp assms(2))
  qed
  then show ?thesis
    using assms(3) by (simp add: run_unresolved_def wp_bindE wp_thenE wp_liftE split: sum.split)
qed

lemma expire_mission_wp:
  assumes "exec k W opn c ts s" and "status c \<in> {Created, Waiting, Paused}" and "\<not> opn"
  shows "wp (expire_mission k now e st)
     (\<lambda>b s'. b \<and> (\<exists>m. finished k W (\<lambda>m. core m = c\<lparr>status := Expired, claimed_at := None\<rparr>
         \<and> event_types m = ts @ [''mission_expired'']) m s')) E s"
  unfolding expire_mission_def wp_bindE wp_thenE
proof (rule exec_transition [OF assms(1)])
  let ?c = "c\<lparr>status := Expired, claimed_at := None\<rparr>"
  let ?Q = "\<lambda>b s'. b \<and> (\<exists>m. finished k W (\<lambda>m. core m = ?c \<and> event_types m = ts @ [''mission_expired'']) m s')"
  show "can_transition (status c) Expired False False" using assms(2) by (auto simp: can_transition_def)
  fix m s1 assume "exec k W opn ?c ts s1"
  then show "wp (record_live k now ''mission_expired'' ''Mission expired before execution.''
        [(''expires_at'', JTime (Aware e)), (''previous_status'', JStr (status_value st))])
      (\<lambda>_. wp (update_live k) (\<lambda>_. wp (ret True) ?Q E) E) E s1"
  proof (rule exec_record)
    fix m s2 assume "exec k W opn ?c (ts @ [''mission_expired'']) s2"
    then show "wp (update_live k) (\<lambda>_. wp (ret True) ?Q E) E s2"
      by (rule exec_update) (auto simp: wp finished_def exec_def at_def)
  qed
qed (use assms(3) in simp_all)

lemma expire_mission_if_due_wp:
  assumes "exec k W p c ts s" and "p \<longleftrightarrow> status c = Processing"
    and "\<And>s'. exec k W p c ts s' \<Longrightarrow> Q False s'"
    and "\<And>m s'. status c \<in> {Created, Waiting, Paused} \<Longrightarrow> expires_at c \<noteq> None \<Longrightarrow>
           finished k W (\<lambda>m. core m = c\<lparr>status := Expired, claimed_at := None\<rparr> \<and> event_types m = ts @ [''mission_expired'']) m s' \<Longrightarrow> Q True s'"
    and "E TypeError s"
  shows "wp (expire_mission_if_due k now) Q E s"
  unfolding expire_mission_if_due_def wp_bindE
proof (rule exec_live [OF assms(1)])
  fix m assume m: "core m = c"
  show "wp (if status m \<notin> {Created, Waiting, Paused} then ret False
       else (case expires_at m of
           None \<Rightarrow> ret False
         | Some e \<Rightarrow>
             bindE (liftE (time_gt e now)) (\<lambda>later.
               if later then ret False else expire_mission k now e (status m)))) Q E s"
  proof (cases "status m \<in> {Created, Waiting, Paused}")
    case False
    then have "(if status m \<notin> {Created, Waiting, Paused} then ret False else f) = ret False" for f :: "('a sys, exn, bool) prog"
      by simp
    then show ?thesis by (simp only: wp_ret assms(3) [OF assms(1)])
  next
    case True
    have st: "status c \<in> {Created, Waiting, Paused}" and e: "expires_at m = expires_at c"
      using True core_D [OF m] by simp_all
    have ex: "wp (expire_mission k now e (status m)) Q E s" if "expires_at c = Some e" for e
      by (rule wp_mono [OF expire_mission_wp [OF assms(1) st]])
         (use assms(2,4) st that in auto)
    show ?thesis
    proof (cases "expires_at c")
      case None
      then show ?thesis using True e assms(3) [OF assms(1)] by (simp add: wp)
    next
      case (Some x)
      then show ?thesis using True e ex assms(3) [OF assms(1)] assms(5)
        by (cases now) (simp_all add: wp)
    qed
  qed
qed

section \<open>The whole run\<close>

text \<open>What \<open>run_mission\<close> returns for the stored mission \<open>m0\<close>, and how it fails.\<close>

definition run_returns :: "'w registry \<Rightarrow> mission \<Rightarrow> mission \<Rightarrow> bool" where
  "run_returns r m0 m \<longleftrightarrow> (\<exists>a. resolve r m0 = Inr a
     \<and> run_done ((core m0)\<lparr>resolved_provider_id := Some (adapter_id a)\<rparr>)
         (event_types m0 @ [''provider_resolved'']) m)"

lemma run_ready_wp:
  assumes "exec k W p (core m0) (event_types m0) s" and "p \<longleftrightarrow> status m0 = Processing"
    and "status m0 \<in> {Created, Waiting, Processing}"
    and "\<And>a. resolve r m0 = Inr a \<Longrightarrow> calls_keep W (execution_mode m0) a"
  shows "wp (run_ready k r now) (finished k W (run_returns r m0)) (\<lambda>_. interrupted k W) s"
  unfolding run_ready_def wp_bindE
proof (rule exec_live [OF assms(1)])
  fix m assume m: "core m = core m0"
  have failed: "wp (run_unresolved k m e) (finished k W (run_returns r m0)) (\<lambda>_. interrupted k W) s" for e
    by (rule run_unresolved_wp [OF assms(1)]) (use assms(1) in \<open>blast intro: exec_interrupted\<close>)+
  have ph: "phase p (if status m0 = Waiting then Waiting else Created) (core m0)"
    using assms(2,3) by (auto simp: phase_def)
  have resolved: "wp (run_resolved k a) (finished k W (run_returns r m0)) (\<lambda>_. interrupted k W) s"
    if "resolve r m0 = Inr a" for a
    by (rule wp_mono [OF run_resolved_wp [OF assms(1) ph]])
       (use assms(4) that in \<open>auto simp: finished_def run_returns_def\<close>)
  have "wp (case resolve r m of
           Inl e \<Rightarrow> if resolution_error e then run_unresolved k m e else raise e
         | Inr a \<Rightarrow> run_resolved k a) (finished k W (run_returns r m0)) (\<lambda>_. interrupted k W) s"
    using failed resolved exec_interrupted [OF assms(1)] resolve_core [OF m, of r]
    by (simp add: wp split: sum.split)
  then show "wp (if status m = Waiting then liftE (is_scheduled_for_future m now) else ret False)
     (\<lambda>future. wp (if future then raise (MissionNotReadyError ''Mission is scheduled for a future time'')
       else (case resolve r m of
           Inl e \<Rightarrow> if resolution_error e then run_unresolved k m e else raise e
         | Inr a \<Rightarrow> run_resolved k a)) (finished k W (run_returns r m0)) (\<lambda>_. interrupted k W))
     (\<lambda>_. interrupted k W) s"
    using exec_interrupted [OF assms(1)]
    by (simp add: wp_if wp_ret wp_liftE wp_raise split: sum.split)
qed

lemma finished_interrupted: "finished k W P m s \<Longrightarrow> interrupted k W s"
  by (simp add: finished_def interrupted_def repo_ok_mid)

lemma initial_exec:
  "repo_ok s \<Longrightarrow> ids_ok s \<Longrightarrow> W (world s) \<Longrightarrow> map_of (missions s) k = Some m \<Longrightarrow>
     exec k W (status m = Processing) (core m) (event_types m) s"
  using at_initial [of s k m] by (simp add: exec_def)

lemma time_or_now_wp:
  assumes "exec k W p c ts s" and "\<And>t s'. exec k W p c ts s' \<Longrightarrow> Q t s'"
  shows "wp (time_or_now t) Q E s"
proof (cases t)
  case None
  then show ?thesis using exec_utc_now [OF assms(1), of Q E] assms(2) by (simp add: time_or_now_def)
next
  case (Some x)
  then show ?thesis using assms(1,2) by (simp add: time_or_now_def wp)
qed

lemma run_mission_wp:
  assumes "repo_ok s" and "ids_ok s" and "W (world s)"
    and "\<And>m a. map_of (missions s) k = Some m \<Longrightarrow> resolve r m = Inr a \<Longrightarrow> calls_keep W (execution_mode m) a"
  shows "wp (run_mission k r t allow)
     (\<lambda>m s'. \<exists>m0. map_of (missions s) k = Some m0 \<and> finished k W (run_returns r m0) m s')
     (\<lambda>_. interrupted k W) s"
proof (cases "map_of (missions s) k")
  case None
  then show ?thesis
    using repo_ok_mid [OF assms(1), of k] assms(2,3)
    by (simp add: run_mission_def get_mission_def wp interrupted_def)
next
  case (Some m)
  note start = initial_exec [where W = W, OF assms(1-3) Some]
  show ?thesis
  proof (cases "status m \<in> {Created, Waiting} \<union> (if allow then {Processing} else {})")
    case False
    then show ?thesis
      using Some exec_interrupted [OF start] by (simp add: run_mission_def get_mission_def wp)
  next
    case True
    then have st: "status m \<in> {Created, Waiting, Processing}" by (auto split: if_splits)
    have "wp (time_or_now t) (\<lambda>now. wp (expire_mission_if_due k now)
        (\<lambda>expired. wp (if expired then raise (MissionNotReadyError ''Mission has expired'') else run_ready k r now)
           (finished k W (run_returns r m)) (\<lambda>_. interrupted k W)) (\<lambda>_. interrupted k W)) (\<lambda>_. interrupted k W) s"
    proof (rule time_or_now_wp [OF start])
      fix now s1 assume s1: "exec k W (status m = Processing) (core m) (event_types m) s1"
      show "wp (expire_mission_if_due k now)
        (\<lambda>expired. wp (if expired then raise (MissionNotReadyError ''Mission has expired'') else run_ready k r now)
           (finished k W (run_returns r m)) (\<lambda>_. interrupted k W)) (\<lambda>_. interrupted k W) s1"
        by (rule expire_mission_if_due_wp [OF s1])
           (use run_ready_wp [OF _ refl st, of k W _ r now] assms(4) [OF Some] exec_interrupted [OF s1]
             finished_interrupted in \<open>simp_all add: wp_raise\<close>)
    qed
    then show ?thesis
      using True Some by (simp add: run_mission_def get_mission_def wp_bindE wp_gets wp_option wp_if)
  qed
qed

section \<open>Decisions\<close>

text \<open>A decision on a mission ends with a status and a given continuation of its trail.\<close>

definition decided :: "mission \<Rightarrow> mission_status \<Rightarrow> string list \<Rightarrow> mission \<Rightarrow> bool" where
  "decided m0 st new m \<longleftrightarrow> core m = (core m0)\<lparr>status := st, claimed_at := None\<rparr> \<and> event_types m = event_types m0 @ new"

lemma exec_status_cases:
  assumes "exec k W False (core m0) ts s" and "can_transition (status m0) target False False" and "target \<noteq> Processing"
    and "\<And>m s'. exec k W False ((core m0)\<lparr>status := target, claimed_at := None\<rparr>) ts s' \<Longrightarrow> Q m s'"
  shows "wp (transition_live k target) Q E s"
  by (rule exec_transition [OF assms(1) _ assms(3) _ assms(4)]) (use assms(2) in simp_all)

lemma decided_wp:
  assumes "exec k W False (core m0) (event_types m0 @ new) s" and "can_transition (status m0) target False False"
    and "target \<noteq> Processing"
  shows "wp (thenE (transition_live k target) (thenE (add_event k ty msg meta) (update_live k)))
     (finished k W (decided m0 target (new @ [ty]))) E s"
  unfolding thenE_def [of "transition_live k target"]
  by (rule finish_wp [OF assms(1) _ assms(3)]) (use assms(2) in \<open>simp_all add: decided_def\<close>)

lemma exec_finished: "exec k W p c ts s \<Longrightarrow> repo_ok s \<Longrightarrow> map_of (missions s) k = Some m \<Longrightarrow> P m \<Longrightarrow> finished k W P m s"
  by (simp add: finished_def exec_def at_def)

lemma finished_mono: "finished k W P m s \<Longrightarrow> (\<And>m. P m \<Longrightarrow> P' m) \<Longrightarrow> finished k W P' m s"
  by (simp add: finished_def)

end
