(* ===== verification/Demo.thy ===== *)
theory Demo
  imports EngineRun
begin

text \<open>
  A concrete system on which the theorems about the services are instantiated: one mission, one
  identity, and an adapter whose world counts the reservations it made.
\<close>

definition demo_identity :: identity where
  "demo_identity =
     \<lparr>identity_id = 3, identity_version = 1, display_name = ''Kari'', first_name = ''Kari'',
      last_name = ''Moe'', birth_date = 700000, documents = [],
      identity_preferences = \<lparr>train_prefs = \<lparr>prefers_lower_berth = None, prefers_avoid_toilet = None,
          prefer_same_compartment = None\<rparr>,
        notification_prefs = \<lparr>notifications_enabled = False, channels = [], external_recipient_id = None\<rparr>\<rparr>\<rparr>"

definition demo_seat :: "int \<Rightarrow> seat" where
  "demo_seat n = \<lparr>carriage_number = 1, compartment_number = 2, seat_number = n, berth = Lower, near_toilet = False\<rparr>"

definition demo_option :: provider_option where
  "demo_option =
     \<lparr>option_id = 9, option_type = TrainOption, train_number = ''61'', option_from_city = ''Oslo'',
      option_to_city = ''Bergen'', departure_at = Aware 0, arrival_at = Aware 1, total_price = 20000,
      seats = [demo_seat 1, demo_seat 2], option_metadata = []\<rparr>"

definition booking_adapter :: "nat adapter" where
  "booking_adapter =
     \<lparr>adapter_id = ''mock'',
      capabilities = [\<lparr>capability_mission_type = TrainTicket, supports_auto_purchase = True\<rparr>],
      search_options = (\<lambda>_ _. ret [demo_option]),
      reserve_option = (\<lambda>_ _ _. thenE (modify Suc) (ret \<lparr>reservation_success = True,
        result_reservation_id = Some ''R1'', requires_confirmation = True, reservation_message = ''''\<rparr>)),
      confirm_reservation = (\<lambda>_ _ _. ret \<lparr>confirmation_success = True, confirmation_message = ''''\<rparr>),
      cancel_reservation = (\<lambda>_ _ _. ret \<lparr>cancellation_success = True, cancellation_message = ''''\<rparr>)\<rparr>"

definition booking_registry :: "nat registry" where
  "booking_registry = \<lparr>adapters = [booking_adapter], adapters_by_id = [(''mock'', booking_adapter)]\<rparr>"

definition demo_sys :: "mission \<Rightarrow> nat sys" where
  "demo_sys m =
     \<lparr>missions = [(mission_id m, m)], attempts = [], fresh = (\<lambda>n. n + 100), tick = 0,
      identities = [(3, demo_identity)], world = 0, now_of = int, now_tick = 0\<rparr>"

lemma booking_registry_ok: "registry_ok booking_registry"
  by (simp add: registry_ok_def make_registry_def booking_registry_def booking_adapter_def
                py_strip_def is_space_def Let_def)

lemma demo_sys_mission [simp]: "map_of (missions (demo_sys m)) (mission_id m) = Some m"
  by (simp add: demo_sys_def)

lemma demo_entry_ok: "st \<noteq> Processing \<Longrightarrow> entry_ok 7 (sample_mission st) []"
  by (simp add: entry_ok_def claim_ok_def has_open_attempt_def)

lemma repo_ok_single:
  assumes "missions s = [(k, m)]" and "attempts s = []" and "entry_ok k m []"
  shows "repo_ok s"
  using assms by (simp add: repo_ok_def attempts_of_def dict_get_or_def dict_ok_def)

lemma ids_ok_single:
  assumes "missions s = [(k, m)]" and "execution_log m = []" and "fresh s = (\<lambda>n. n + 100)"
  shows "ids_ok s"
  using assms by (simp add: ids_ok_def inj_def)

lemma demo_sys_ok:
  assumes "mission_id m = 7" and "entry_ok 7 m []" and "execution_log m = []"
  shows "repo_ok (demo_sys m)" "ids_ok (demo_sys m)"
  using repo_ok_single [of "demo_sys m" 7 m] ids_ok_single [of "demo_sys m" 7 m] assms
  by (simp_all add: demo_sys_def)

lemma demo_resolve: "resolve booking_registry (sample_mission st) = Inr booking_adapter"
  by (simp add: resolve_def list_supporting_def booking_registry_def supports_def
                supports_execution_mode_def booking_adapter_def sample_mission_def)

text \<open>A complete run, evaluated.\<close>

definition run_summary :: "(exn + mission) \<times> nat sys \<Rightarrow> (mission_status \<times> string list \<times> string option) option" where
  "run_summary r = (case r of (Inl e, s) \<Rightarrow> None
     | (Inr m, s) \<Rightarrow> Some (status m, event_types m, reservation_id m))"

end
