(* ===== verification/Lifecycle.thy ===== *)
theory Lifecycle
  imports EngineRun
begin

text \<open>
  The lifecycle services around the engine: pause and resume
  (\<open>app/services/mission_pause.py\<close>), scheduling (\<open>mission_scheduling.py\<close>), retry
  (\<open>mission_retry.py\<close>), configuration update (\<open>mission_update.py\<close>) and the choice of a
  provider (\<open>mission_provider_selection.py\<close>). \<open>with_mission\<close> is their common beginning.
\<close>

section \<open>Services\<close>

definition with_mission :: "uuid \<Rightarrow> (mission \<Rightarrow> ('a mission_repo_scheme, exn, mission) prog) \<Rightarrow> ('a mission_repo_scheme, exn, mission) prog" where
  "with_mission k f =
     bindE (get_mission k) (\<lambda>found. case found of None \<Rightarrow> raise MissionNotFoundError | Some m \<Rightarrow> f m)"

definition pause_mission :: "uuid \<Rightarrow> ('w sys, exn, mission) prog" where
  "pause_mission k =
     with_mission k (\<lambda>m.
       if status m \<notin> {Created, Waiting} then raise (MissionPauseNotAllowedError (status m))
       else
         thenE (transition_live k Paused)
         (thenE (add_event k ''mission_paused'' ''Mission paused.''
            [(''previous_status'', JStr (status_value (status m)))])
         (update_live k)))"

definition resume_target :: "mission \<Rightarrow> mission_status" where
  "resume_target m = (if scheduled_at m \<noteq> None then Waiting else Created)"

definition resume_mission :: "uuid \<Rightarrow> ('w sys, exn, mission) prog" where
  "resume_mission k =
     with_mission k (\<lambda>m.
       if status m \<noteq> Paused then raise (MissionResumeNotAllowedError (status m))
       else
         thenE (transition_live k (resume_target m))
         (thenE (add_event k ''mission_resumed'' ''Mission resumed.''
            [(''resumed_status'', JStr (status_value (resume_target m)))])
         (update_live k)))"

text \<open>\<open>_validate_schedule_time\<close>.\<close>

definition validate_schedule_time :: "datetime \<Rightarrow> datetime \<Rightarrow> exn + unit" where
  "validate_schedule_time scheduled current_time =
     (if \<not> is_aware scheduled \<or> \<not> is_aware current_time
      then Inl (InvalidMissionScheduleError ''schedule times must be timezone-aware'')
      else if instant scheduled \<le> instant current_time
      then Inl (InvalidMissionScheduleError ''scheduled_at must be in the future'')
      else Inr ())"

definition previous_schedule :: "mission \<Rightarrow> metadata" where
  "previous_schedule m = [(''previous_scheduled_at'', json_of_option (\<lambda>t. JTime (Aware t)) (scheduled_at m))]"

definition unschedule :: "uuid \<Rightarrow> mission \<Rightarrow> datetime \<Rightarrow> ('w sys, exn, mission) prog" where
  "unschedule k m now =
     (if status m = Created then live k
      else
        thenE (if status m = Waiting then transition_live k Created else live k)
        (thenE (assign_live k (\<lambda>m. m\<lparr>scheduled_at := None\<rparr>))
        (thenE (record_live k now ''mission_unscheduled'' ''Mission schedule removed.'' (previous_schedule m))
        (update_live k))))"

definition reschedule :: "uuid \<Rightarrow> mission \<Rightarrow> datetime \<Rightarrow> datetime \<Rightarrow> ('w sys, exn, mission) prog" where
  "reschedule k m scheduled now =
     thenE (liftE (validate_schedule_time scheduled now))
     (if (case expires_at m of None \<Rightarrow> False | Some e \<Rightarrow> instant scheduled > e)
      then raise (InvalidMissionScheduleError ''scheduled_at must not be after expires_at'')
      else
        thenE (assign_live k (\<lambda>m. m\<lparr>scheduled_at := Some (instant scheduled)\<rparr>))
        (thenE (if status m = Created then transition_live k Waiting else live k)
        (thenE (record_live k now ''mission_scheduled'' ''Mission scheduled.''
           (previous_schedule m @ [(''scheduled_at'', JTime scheduled)]))
        (update_live k))))"

definition schedule_mission :: "uuid \<Rightarrow> datetime option \<Rightarrow> datetime option \<Rightarrow> ('w sys, exn, mission) prog" where
  "schedule_mission k scheduled current_time =
     bindE (time_or_now current_time) (\<lambda>now.
       with_mission k (\<lambda>m.
         if status m \<notin> {Created, Waiting, Paused} then raise (MissionSchedulingNotAllowedError (status m))
         else if map_option Aware (scheduled_at m) = scheduled then ret m
         else (case scheduled of
             None \<Rightarrow> unschedule k m now
           | Some t \<Rightarrow> reschedule k m t now)))"

text \<open>Retry of a failed mission.\<close>

datatype retry_trigger = Manual | AutomaticTrigger

fun retry_trigger_value :: "retry_trigger \<Rightarrow> string" where
  "retry_trigger_value Manual = ''manual''"
| "retry_trigger_value AutomaticTrigger = ''automatic''"

definition retry_metadata :: "mission \<Rightarrow> datetime \<Rightarrow> retry_trigger \<Rightarrow> string option \<Rightarrow> metadata" where
  "retry_metadata m retry_time trigger reason =
     [(''retry_at'', JTime retry_time), (''execution_attempts'', JInt (execution_attempts m)),
      (''max_execution_attempts'', JInt (max_execution_attempts m)),
      (''previous_resolved_provider_id'', json_of_option JStr (resolved_provider_id m)),
      (''previous_reservation_id'', json_of_option JStr (reservation_id m)),
      (''trigger'', JStr (retry_trigger_value trigger)), (''reason'', json_of_option JStr reason)]"

definition schedule_retry ::
  "uuid \<Rightarrow> mission \<Rightarrow> datetime \<Rightarrow> datetime \<Rightarrow> retry_trigger \<Rightarrow> string option \<Rightarrow> ('w sys, exn, mission) prog" where
  "schedule_retry k m retry_time now trigger reason =
     thenE (on_mission k (\<lambda>m. retry_failed m now))
     (thenE (assign_live k (\<lambda>m. m\<lparr>scheduled_at := Some (instant retry_time), resolved_provider_id := None,
                                 reservation_id := None, best_option := None\<rparr>))
     (thenE (record_live k now ''mission_retry_scheduled'' ''Mission scheduled for another execution attempt.''
        (retry_metadata m retry_time trigger reason))
     (update_live k)))"

definition retry_mission ::
  "uuid \<Rightarrow> datetime option \<Rightarrow> datetime option \<Rightarrow> retry_trigger \<Rightarrow> string option \<Rightarrow> ('w sys, exn, mission) prog" where
  "retry_mission k retry_at current_time trigger reason =
     bindE (time_or_now current_time) (\<lambda>now.
     thenE (require (is_aware now) (InvalidMissionRetryTimeError ''current_time must be timezone-aware''))
     (let retry_time = (case retry_at of None \<Rightarrow> now | Some t \<Rightarrow> t) in
      thenE (require (is_aware retry_time) (InvalidMissionRetryTimeError ''retry_at must be timezone-aware''))
      (thenE (require (\<not> instant retry_time < instant now) (InvalidMissionRetryTimeError ''retry_at must not be in the past''))
      (with_mission k (\<lambda>m.
         if status m \<noteq> Failed then raise (MissionRetryNotAllowedError (status m))
         else if has_exhausted_attempts m then raise MissionAttemptsExhaustedError
         else schedule_retry k m retry_time now trigger reason)))))"

text \<open>Configuration update: each given value that differs is applied and reported.\<close>

definition dump_rules :: "fallback_rules \<Rightarrow> json" where
  "dump_rules f = JObj
     [(''allow_adjacent_compartments'', json_of_option JBool (allow_adjacent_compartments f)),
      (''allow_any_coupe_seats'', json_of_option JBool (allow_any_coupe_seats f)),
      (''notify_only_if_no_match'', json_of_option JBool (notify_only_if_no_match f))]"

record mission_changes =
  new_title :: "string option"
  new_rules :: "fallback_rules option"
  new_mode :: "execution_mode option"
  new_max_attempts :: "int option"

text \<open>\<open>_apply_change\<close>: the value after the change, and the entry (field, previous, current)
  it adds to the report.\<close>

definition changed :: "'b option \<Rightarrow> 'b \<Rightarrow> 'b" where
  "changed v old = (case v of None \<Rightarrow> old | Some x \<Rightarrow> x)"

definition change_entry :: "string \<Rightarrow> ('b \<Rightarrow> json) \<Rightarrow> 'b option \<Rightarrow> 'b \<Rightarrow> (string \<times> json \<times> json) list" where
  "change_entry field f v old =
     (case v of None \<Rightarrow> [] | Some x \<Rightarrow> if x = old then [] else [(field, f old, f x)])"

definition change_report :: "mission_changes \<Rightarrow> mission \<Rightarrow> (string \<times> json \<times> json) list" where
  "change_report c m =
     change_entry ''title'' JStr (new_title c) (title m)
     @ change_entry ''fallback_rules'' dump_rules (new_rules c) (fallback_rules m)
     @ change_entry ''execution_mode'' (\<lambda>x. JStr (execution_mode_value x)) (new_mode c) (execution_mode m)
     @ change_entry ''max_execution_attempts'' JInt (new_max_attempts c) (max_execution_attempts m)"

definition apply_changes :: "mission_changes \<Rightarrow> mission \<Rightarrow> mission" where
  "apply_changes c m =
     m\<lparr>title := changed (new_title c) (title m), fallback_rules := changed (new_rules c) (fallback_rules m),
       execution_mode := changed (new_mode c) (execution_mode m),
       max_execution_attempts := changed (new_max_attempts c) (max_execution_attempts m)\<rparr>"

text \<open>The names in \<open>sorted(current)\<close>: the four fields in alphabetical order.\<close>

definition sorted_fields :: "(string \<times> json \<times> json) list \<Rightarrow> json list" where
  "sorted_fields es = map JStr (filter (\<lambda>f. f \<in> fst ` set es)
     [''execution_mode'', ''fallback_rules'', ''max_execution_attempts'', ''title''])"

definition change_metadata :: "(string \<times> json \<times> json) list \<Rightarrow> metadata" where
  "change_metadata es =
     [(''changed_fields'', JList (sorted_fields es)),
      (''previous'', JObj (map (\<lambda>(f, old, _). (f, old)) es)),
      (''current'', JObj (map (\<lambda>(f, _, new). (f, new)) es))]"

definition check_changes :: "mission_changes \<Rightarrow> 'w registry \<Rightarrow> mission \<Rightarrow> exn + unit" where
  "check_changes c registry m =
     (if status m \<notin> {Created, Waiting, Paused} then Inl (MissionUpdateNotAllowedError (status m))
      else if (case new_max_attempts c of None \<Rightarrow> False | Some n \<Rightarrow> n < execution_attempts m)
      then Inl InvalidMissionUpdateError
      else (case (new_mode c, provider_id m) of
          (Some mode, Some pid) \<Rightarrow>
            if mode = execution_mode m then Inr ()
            else (case registry_get registry pid of
                Inl e \<Rightarrow> Inl e
              | Inr a \<Rightarrow>
                  if \<not> supports_execution_mode a (mission_type m) mode
                  then Inl (UnsupportedExecutionModeError mode (Some (adapter_id a))) else Inr ())
        | _ \<Rightarrow> Inr ()))"

definition update_mission_config :: "uuid \<Rightarrow> 'w registry \<Rightarrow> mission_changes \<Rightarrow> ('w sys, exn, mission) prog" where
  "update_mission_config k registry c =
     with_mission k (\<lambda>m.
       thenE (liftE (check_changes c registry m))
       (if change_report c m = [] then ret m
        else
          thenE (assign_live k (apply_changes c))
          (thenE (add_event k ''mission_updated'' ''Mission configuration updated.''
             (change_metadata (change_report c m)))
          (update_live k))))"

text \<open>Choice of a provider: the changed copy of the mission replaces the stored one.\<close>

definition check_selection :: "'w registry \<Rightarrow> mission \<Rightarrow> string option \<Rightarrow> exn + unit" where
  "check_selection registry m pid =
     (case pid of
        None \<Rightarrow> Inr ()
      | Some p \<Rightarrow>
          (case registry_get registry p of
             Inl e \<Rightarrow> Inl e
           | Inr a \<Rightarrow>
               (case check_explicit a (mission_type m) (execution_mode m) of Inl e \<Rightarrow> Inl e | Inr _ \<Rightarrow> Inr ())))"

definition set_mission_provider :: "uuid \<Rightarrow> 'w registry \<Rightarrow> string option \<Rightarrow> ('w sys, exn, mission) prog" where
  "set_mission_provider k registry pid =
     with_mission k (\<lambda>m.
       if \<not> can_change_provider_selection m
       then raise (MissionProviderSelectionNotAllowedError (mission_id m) (status m))
       else
         bindE (liftE (normalize_provider_id pid)) (\<lambda>npid.
         thenE (liftE (check_selection registry m npid))
         (bindE (liftE (with_provider_selection m npid)) (\<lambda>(m', same).
            if same then ret m
            else
              bindE utc_now (\<lambda>t.
              bindE new_uuid (\<lambda>eid.
              bindE (liftE (create_provider_selection_changed_event eid m' (provider_id m) npid t)) (\<lambda>m2.
              update_mission m2)))))))"

section \<open>Contracts\<close>

text \<open>A service either refuses and leaves missions, attempts, identities and world as they were,
  having at most read the clock or drawn an identifier, or finishes with a sound repository.\<close>

definition refused :: "'w sys \<Rightarrow> exn \<Rightarrow> 'w sys \<Rightarrow> bool" where
  "refused s e s' \<longleftrightarrow> missions s' = missions s \<and> attempts s' = attempts s \<and> identities s' = identities s
     \<and> world s' = world s \<and> fresh s' = fresh s \<and> tick s \<le> tick s'"

lemma refused_same [simp]: "refused s e s"
  by (simp add: refused_def)

lemma refused_ok:
  assumes "refused s e s'" and "repo_ok s" and "ids_ok s"
  shows "repo_ok s'" and "ids_ok s'"
proof -
  have f: "missions s' = missions s" "attempts s' = attempts s" "fresh s' = fresh s" "tick s \<le> tick s'"
    using assms(1) by (simp_all add: refused_def)
  show "repo_ok s'" using repo_ok_frame [OF f(1,2)] assms(2) by simp
  have ids: "fresh s n \<notin> event_id ` set (execution_log m)" if "map_of (missions s) k = Some m" "tick s \<le> n" for k m n
    using assms(3) that unfolding ids_ok_def by blast
  show "ids_ok s'"
    unfolding ids_ok_def f(1,3)
    using assms(3) ids f(4) le_trans by (intro conjI allI impI) (auto simp: ids_ok_def)
qed

lemma with_mission_wp:
  assumes "repo_ok s" and "ids_ok s" and "W (world s)"
    and "\<And>m. map_of (missions s) k = Some m \<Longrightarrow>
      exec k W (status m = Processing) (core m) (event_types m) s \<Longrightarrow> wp (f m) Q E s"
    and "map_of (missions s) k = None \<Longrightarrow> E MissionNotFoundError s"
  shows "wp (with_mission k f) Q E s"
proof (cases "map_of (missions s) k")
  case None
  then show ?thesis using assms(5) by (simp add: with_mission_def get_mission_def wp)
next
  case (Some m)
  from assms(4) [OF Some initial_exec [where W = W, OF assms(1-3) Some]] Some show ?thesis
    by (simp add: with_mission_def get_mission_def wp_bindE wp_gets)
qed

lemma pause_wp:
  assumes "repo_ok s" and "ids_ok s" and "W (world s)"
  shows "wp (pause_mission k)
     (\<lambda>m s'. \<exists>m0. map_of (missions s) k = Some m0 \<and> status m0 \<in> {Created, Waiting}
        \<and> finished k W (decided m0 Paused [''mission_paused'']) m s')
     (\<lambda>e s'. s' = s \<and> (case map_of (missions s) k of None \<Rightarrow> e = MissionNotFoundError
        | Some m0 \<Rightarrow> status m0 \<notin> {Created, Waiting} \<and> e = MissionPauseNotAllowedError (status m0))) s"
  unfolding pause_mission_def
proof (rule with_mission_wp [where W = W, OF assms])
  fix m assume m: "map_of (missions s) k = Some m"
    and x: "exec k W (status m = Processing) (core m) (event_types m) s"
  let ?Q = "\<lambda>m' s'. \<exists>m0. map_of (missions s) k = Some m0 \<and> status m0 \<in> {Created, Waiting}
        \<and> finished k W (decided m0 Paused [''mission_paused'']) m' s'"
  let ?E = "\<lambda>e s'. s' = s \<and> (case map_of (missions s) k of None \<Rightarrow> e = MissionNotFoundError
        | Some m0 \<Rightarrow> status m0 \<notin> {Created, Waiting} \<and> e = MissionPauseNotAllowedError (status m0))"
  show "wp (if status m \<notin> {Created, Waiting} then raise (MissionPauseNotAllowedError (status m))
       else thenE (transition_live k Paused)
         (thenE (add_event k ''mission_paused'' ''Mission paused.''
            [(''previous_status'', JStr (status_value (status m)))]) (update_live k))) ?Q ?E s"
  proof (cases "status m \<in> {Created, Waiting}")
    case True
    then have x': "exec k W False (core m) (event_types m @ []) s" using x by auto
    have t: "can_transition (status m) Paused False False" using True by (auto simp: can_transition_def)
    have "wp (thenE (transition_live k Paused)
         (thenE (add_event k ''mission_paused'' ''Mission paused.''
            [(''previous_status'', JStr (status_value (status m)))]) (update_live k))) ?Q ?E s"
      by (rule wp_mono [OF decided_wp [OF x' t]]) (use m True in simp_all)
    then show ?thesis using True by simp
  qed (simp add: wp_raise m)
qed simp

lemma resume_target_cases: "resume_target m \<in> {Waiting, Created}"
  by (simp add: resume_target_def)

lemma resume_wp:
  assumes "repo_ok s" and "ids_ok s" and "W (world s)"
  shows "wp (resume_mission k)
     (\<lambda>m s'. \<exists>m0. map_of (missions s) k = Some m0 \<and> status m0 = Paused
        \<and> finished k W (decided m0 (resume_target m0) [''mission_resumed'']) m s')
     (\<lambda>e s'. s' = s \<and> (case map_of (missions s) k of None \<Rightarrow> e = MissionNotFoundError
        | Some m0 \<Rightarrow> status m0 \<noteq> Paused \<and> e = MissionResumeNotAllowedError (status m0))) s"
  unfolding resume_mission_def
proof (rule with_mission_wp [where W = W, OF assms])
  fix m assume m: "map_of (missions s) k = Some m"
    and x: "exec k W (status m = Processing) (core m) (event_types m) s"
  let ?Q = "\<lambda>m' s'. \<exists>m0. map_of (missions s) k = Some m0 \<and> status m0 = Paused
        \<and> finished k W (decided m0 (resume_target m0) [''mission_resumed'']) m' s'"
  let ?E = "\<lambda>e s'. s' = s \<and> (case map_of (missions s) k of None \<Rightarrow> e = MissionNotFoundError
        | Some m0 \<Rightarrow> status m0 \<noteq> Paused \<and> e = MissionResumeNotAllowedError (status m0))"
  show "wp (if status m \<noteq> Paused then raise (MissionResumeNotAllowedError (status m))
       else thenE (transition_live k (resume_target m))
         (thenE (add_event k ''mission_resumed'' ''Mission resumed.''
            [(''resumed_status'', JStr (status_value (resume_target m)))]) (update_live k))) ?Q ?E s"
  proof (cases "status m = Paused")
    case True
    then have x': "exec k W False (core m) (event_types m @ []) s" using x by auto
    have t: "can_transition (status m) (resume_target m) False False"
      using True resume_target_cases [of m] by (auto simp: can_transition_def)
    have np: "resume_target m \<noteq> Processing" using resume_target_cases [of m] by auto
    have "wp (thenE (transition_live k (resume_target m))
         (thenE (add_event k ''mission_resumed'' ''Mission resumed.''
            [(''resumed_status'', JStr (status_value (resume_target m)))]) (update_live k))) ?Q ?E s"
      by (rule wp_mono [OF decided_wp [OF x' t np]]) (use m True in simp_all)
    then show ?thesis using True by simp
  qed (simp add: wp_raise m)
qed simp

subsection \<open>Retry\<close>

definition retried :: "mission \<Rightarrow> time \<Rightarrow> mission \<Rightarrow> bool" where
  "retried m0 t m \<longleftrightarrow>
     core m = (core m0)\<lparr>status := Waiting, claimed_at := None, scheduled_at := Some t,
        resolved_provider_id := None, reservation_id := None, best_option := None\<rparr>
     \<and> event_types m = event_types m0 @ [''mission_retry_scheduled'']"

lemma exec_retry:
  assumes "exec k W False c ts s" and "status c = Failed"
    and "\<And>m s'. exec k W False (c\<lparr>status := Waiting, claimed_at := None\<rparr>) ts s' \<Longrightarrow> Q m s'"
  shows "wp (on_mission k (\<lambda>m. retry_failed m (Aware t))) Q E s"
proof -
  from execD(1) [OF assms(1)] obtain m where m: "map_of (missions s) k = Some m" "core m = c" "event_types m = ts"
      "mid_ok k m (attempts_of s k)" "repo_mid k s" "ids_ok s" "has_open_attempt (attempts_of s k) = False"
    by (rule atE)
  let ?m = "m\<lparr>status := Waiting, claimed_at := None\<rparr>"
  let ?s = "s\<lparr>missions := dict_set k ?m (missions s)\<rparr>"
  have st: "status m = Failed" using core_D(2) [OF m(2)] assms(2) by simp
  have t: "retry_failed m (Aware t) = Inr ?m"
    using st by (simp add: retry_failed_def transition_def can_transition_def)
  have mid: "mid_ok k ?m (attempts_of s k)" using mid_ok_status [OF m(4)] m(7) by simp
  have c: "core ?m = c\<lparr>status := Waiting, claimed_at := None\<rparr>" using m(2) by (auto simp: core_def)
  have "at k False (c\<lparr>status := Waiting, claimed_at := None\<rparr>) ts ?s"
    unfolding at_def using repo_mid_set [OF m(5) mid] ids_ok_set [OF m(6,1), of ?m] m(3,7) c
    by (simp add: event_types_def)
  then have "exec k W False (c\<lparr>status := Waiting, claimed_at := None\<rparr>) ts ?s"
    by (rule exec_more [OF _ _ assms(1)]) simp
  then show ?thesis using assms(3) by (simp add: wp_on_mission [OF m(1)] t)
qed

lemma schedule_retry_wp:
  assumes "exec k W False (core m0) (event_types m0) s" and "status m0 = Failed"
  shows "wp (schedule_retry k m0 (Aware t) (Aware now) trigger reason) (finished k W (retried m0 t)) E s"
  unfolding schedule_retry_def wp_thenE
proof (rule exec_retry [OF assms(1)])
  let ?f = "\<lambda>m. m\<lparr>scheduled_at := Some (instant (Aware t)), resolved_provider_id := None,
                                 reservation_id := None, best_option := None\<rparr>"
  let ?c = "(core m0)\<lparr>status := Waiting, claimed_at := None\<rparr>"
  fix m s1 assume "exec k W False ?c (event_types m0) s1"
  then show "wp (assign_live k ?f)
     (\<lambda>_. wp (record_live k (Aware now) ''mission_retry_scheduled'' ''Mission scheduled for another execution attempt.''
        (retry_metadata m0 (Aware t) trigger reason))
        (\<lambda>_. wp (update_live k) (finished k W (retried m0 t)) E) E) E s1"
  proof (rule exec_assign)
    fix m s2 assume "exec k W False (?f ?c) (event_types m0) s2"
    then show "wp (record_live k (Aware now) ''mission_retry_scheduled'' ''Mission scheduled for another execution attempt.''
        (retry_metadata m0 (Aware t) trigger reason))
        (\<lambda>_. wp (update_live k) (finished k W (retried m0 t)) E) E s2"
    proof (rule exec_record)
      fix m s3 assume "exec k W False (?f ?c) (event_types m0 @ [''mission_retry_scheduled'']) s3"
      then show "wp (update_live k) (finished k W (retried m0 t)) E s3"
        by (rule exec_update) (simp, rule exec_finished, assumption+, simp add: retried_def)
    qed
  qed simp_all
qed (simp add: assms(2))

lemma time_or_now_clock:
  assumes "repo_ok s" and "ids_ok s" and "W (world s)"
    and "\<And>t s'. repo_ok s' \<Longrightarrow> ids_ok s' \<Longrightarrow> W (world s') \<Longrightarrow> missions s' = missions s \<Longrightarrow>
      (case current of None \<Rightarrow> is_aware t | Some x \<Rightarrow> t = x) \<Longrightarrow> refused s e s' \<Longrightarrow> wp (f t) Q E s'"
  shows "wp (bindE (time_or_now current) f) Q E s"
proof (cases current)
  case None
  let ?s = "s\<lparr>now_tick := Suc (now_tick s)\<rparr>"
  have "repo_ok ?s" "ids_ok ?s"
    using assms(1,2) repo_ok_frame [of ?s s] ids_ok_frame [of ?s s] by simp_all
  moreover have "refused s e ?s" by (simp add: refused_def)
  ultimately have "wp (f (Aware (now_of s (now_tick s)))) Q E ?s" using assms(3,4) None by simp
  then show ?thesis using None by (simp add: time_or_now_def wp_def bindE_def utc_now_def)
next
  case (Some x)
  then show ?thesis using assms(4) [of s x] assms(1-3) by (simp add: time_or_now_def wp)
qed

lemma retry_wp:
  assumes "repo_ok s" and "ids_ok s" and "W (world s)"
  shows "wp (retry_mission k retry_at current trigger reason)
     (\<lambda>m s'. \<exists>m0 t now. map_of (missions s) k = Some m0 \<and> status m0 = Failed
        \<and> execution_attempts m0 < max_execution_attempts m0 \<and> now \<le> t
        \<and> (retry_at = None \<and> t = now \<or> retry_at = Some (Aware t))
        \<and> (current = None \<or> current = Some (Aware now))
        \<and> finished k W (retried m0 t) m s')
     (refused s) s"
  unfolding retry_mission_def
proof (rule time_or_now_clock [where W = W, OF assms])
  fix now s1
  assume s1: "repo_ok s1" "ids_ok s1" "W (world s1)" "missions s1 = missions s"
    and now: "case current of None \<Rightarrow> is_aware now | Some x \<Rightarrow> now = x" and r: "refused s e s1"
  let ?Q = "\<lambda>m s'. \<exists>m0 t now. map_of (missions s) k = Some m0 \<and> status m0 = Failed
        \<and> execution_attempts m0 < max_execution_attempts m0 \<and> now \<le> t
        \<and> (retry_at = None \<and> t = now \<or> retry_at = Some (Aware t))
        \<and> (current = None \<or> current = Some (Aware now))
        \<and> finished k W (retried m0 t) m s'"
  let ?t = "case retry_at of None \<Rightarrow> now | Some t \<Rightarrow> t"
  have refuse: "refused s e s1" for e using r by (simp add: refused_def)
  have body: "wp (with_mission k (\<lambda>m.
         if status m \<noteq> Failed then raise (MissionRetryNotAllowedError (status m))
         else if has_exhausted_attempts m then raise MissionAttemptsExhaustedError
         else schedule_retry k m ?t now trigger reason)) ?Q (refused s) s1"
    if aware: "is_aware now" "is_aware ?t" "\<not> instant ?t < instant now"
  proof (rule with_mission_wp [where W = W, OF s1(1-3)])
    fix m assume m: "map_of (missions s1) k = Some m"
      and x: "exec k W (status m = Processing) (core m) (event_types m) s1"
    obtain n where n: "now = Aware n" using aware(1) by (cases now) simp_all
    obtain t where t: "?t = Aware t" using aware(2) by (cases ?t) simp_all
    have Q: "?Q m' s'" if "status m = Failed" "\<not> has_exhausted_attempts m" "finished k W (retried m t) m' s'" for m' s'
      using that m s1(4) now n t aware(3)
      by (intro exI [of _ m] exI [of _ t] exI [of _ n]) (auto simp: has_exhausted_attempts_def split: option.splits)
    have "wp (schedule_retry k m ?t now trigger reason) ?Q (refused s) s1"
      if "status m = Failed" "\<not> has_exhausted_attempts m"
      unfolding t unfolding n
      by (rule wp_mono [OF schedule_retry_wp]) (use x that Q in auto)
    then show "wp (if status m \<noteq> Failed then raise (MissionRetryNotAllowedError (status m))
         else if has_exhausted_attempts m then raise MissionAttemptsExhaustedError
         else schedule_retry k m ?t now trigger reason) ?Q (refused s) s1"
      using refuse by (simp add: wp_raise)
  qed (rule refuse)
  show "wp (thenE (require (is_aware now) (InvalidMissionRetryTimeError ''current_time must be timezone-aware''))
     (let retry_time = ?t in
      thenE (require (is_aware retry_time) (InvalidMissionRetryTimeError ''retry_at must be timezone-aware''))
      (thenE (require (\<not> instant retry_time < instant now) (InvalidMissionRetryTimeError ''retry_at must not be in the past''))
      (with_mission k (\<lambda>m.
         if status m \<noteq> Failed then raise (MissionRetryNotAllowedError (status m))
         else if has_exhausted_attempts m then raise MissionAttemptsExhaustedError
         else schedule_retry k m retry_time now trigger reason))))) ?Q (refused s) s1"
    using body refuse by (simp add: wp_thenE wp_require Let_def)
qed

subsection \<open>Scheduling\<close>

text \<open>The mission after a change of schedule: status, schedule, and one event.\<close>

definition scheduled_as :: "mission \<Rightarrow> mission_status \<Rightarrow> time option \<Rightarrow> string \<Rightarrow> mission \<Rightarrow> bool" where
  "scheduled_as m0 st t ty m \<longleftrightarrow>
     core m = (core m0)\<lparr>status := st, claimed_at := None, scheduled_at := t\<rparr>
     \<and> event_types m = event_types m0 @ [ty]"

lemma core_unclaimed:
  "claimed_at m = None \<Longrightarrow> (core m)\<lparr>status := status m, claimed_at := None\<rparr> = core m"
  by (cases m) (simp add: core_def)

text \<open>The closing steps shared by both changes: assign, record, update.\<close>

lemma record_update_wp:
  assumes "exec k W False c ts s" and "\<And>m. core m = c \<Longrightarrow> event_types m = ts @ [ty] \<Longrightarrow> P m"
  shows "wp (thenE (record_live k now ty msg meta) (update_live k)) (finished k W P) E s"
  unfolding wp_thenE
proof (rule exec_record [OF assms(1)])
  fix m s1 assume "exec k W False c (ts @ [ty]) s1"
  then show "wp (update_live k) (finished k W P) E s1"
    by (rule exec_update) (simp, rule exec_finished, assumption+, rule assms(2))
qed

lemma maybe_transition_wp:
  assumes "exec k W False c ts s" and "b \<Longrightarrow> can_transition (status c) target False False" and "target \<noteq> Processing"
    and "\<And>m s'. exec k W False (if b then c\<lparr>status := target, claimed_at := None\<rparr> else c) ts s' \<Longrightarrow> Q m s'"
  shows "wp (if b then transition_live k target else live k) Q E s"
proof (cases b)
  case True
  then have "wp (transition_live k target) Q E s"
    using assms(4) by (intro exec_transition [OF assms(1,2,3)]) simp_all
  then show ?thesis using True by simp
next
  case False
  then have "wp (live k) Q E s" using assms(1,4) by (intro exec_live [OF assms(1)]) simp
  then show ?thesis using False by simp
qed

lemma unschedule_wp:
  assumes "exec k W False (core m0) (event_types m0) s" and "status m0 \<in> {Waiting, Paused}" and "claimed_at m0 = None"
  shows "wp (unschedule k m0 now)
     (finished k W (scheduled_as m0 (if status m0 = Waiting then Created else status m0) None ''mission_unscheduled'')) E s"
proof -
  let ?b = "status m0 = Waiting"
  let ?P = "scheduled_as m0 (if ?b then Created else status m0) None ''mission_unscheduled''"
  let ?c = "if ?b then (core m0)\<lparr>status := Created, claimed_at := None\<rparr> else core m0"
  have c: "?c\<lparr>scheduled_at := None\<rparr> = (core m0)\<lparr>status := if ?b then Created else status m0, claimed_at := None, scheduled_at := None\<rparr>"
    using core_unclaimed [OF assms(3)] by (cases ?b) simp_all
  have "wp (if ?b then transition_live k Created else live k)
     (\<lambda>_. wp (assign_live k (\<lambda>m. m\<lparr>scheduled_at := None\<rparr>))
       (\<lambda>_. wp (thenE (record_live k now ''mission_unscheduled'' ''Mission schedule removed.'' (previous_schedule m0))
         (update_live k)) (finished k W ?P) E) E) E s"
  proof (rule maybe_transition_wp [OF assms(1)])
    fix m s1 assume "exec k W False ?c (event_types m0) s1"
    then show "wp (assign_live k (\<lambda>m. m\<lparr>scheduled_at := None\<rparr>))
       (\<lambda>_. wp (thenE (record_live k now ''mission_unscheduled'' ''Mission schedule removed.'' (previous_schedule m0))
         (update_live k)) (finished k W ?P) E) E s1"
    proof (rule exec_assign)
      fix m s2 assume "exec k W False (?c\<lparr>scheduled_at := None\<rparr>) (event_types m0) s2"
      then show "wp (thenE (record_live k now ''mission_unscheduled'' ''Mission schedule removed.'' (previous_schedule m0))
         (update_live k)) (finished k W ?P) E s2"
        by (rule record_update_wp) (simp only: scheduled_as_def c)
    qed simp_all
  qed (simp_all add: can_transition_def)
  then show ?thesis using assms(2) by (auto simp: unschedule_def wp_thenE)
qed

lemma reschedule_wp:
  assumes "exec k W False (core m0) (event_types m0) s" and "status m0 \<in> {Created, Waiting, Paused}" and "claimed_at m0 = None"
    and "E (InvalidMissionScheduleError ''schedule times must be timezone-aware'') s"
    and "E (InvalidMissionScheduleError ''scheduled_at must be in the future'') s"
    and "E (InvalidMissionScheduleError ''scheduled_at must not be after expires_at'') s"
    and "\<And>t n m s'. scheduled = Aware t \<Longrightarrow> now = Aware n \<Longrightarrow> n < t \<Longrightarrow>
        (case expires_at m0 of None \<Rightarrow> True | Some e \<Rightarrow> t \<le> e) \<Longrightarrow>
        finished k W (scheduled_as m0 (if status m0 = Created then Waiting else status m0) (Some t) ''mission_scheduled'') m s' \<Longrightarrow> Q m s'"
  shows "wp (reschedule k m0 scheduled now) Q E s"
proof -
  let ?b = "status m0 = Created"
  let ?t = "instant scheduled"
  let ?P = "scheduled_as m0 (if ?b then Waiting else status m0) (Some ?t) ''mission_scheduled''"
  let ?c1 = "(core m0)\<lparr>scheduled_at := Some ?t\<rparr>"
  let ?c = "if ?b then ?c1\<lparr>status := Waiting, claimed_at := None\<rparr> else ?c1"
  let ?meta = "previous_schedule m0 @ [(''scheduled_at'', JTime scheduled)]"
  have c: "?c = (core m0)\<lparr>status := if ?b then Waiting else status m0, claimed_at := None, scheduled_at := Some ?t\<rparr>"
    using core_unclaimed [OF assms(3)] by (cases ?b) simp_all
  have run: "wp (thenE (assign_live k (\<lambda>m. m\<lparr>scheduled_at := Some ?t\<rparr>))
        (thenE (if ?b then transition_live k Waiting else live k)
        (thenE (record_live k now ''mission_scheduled'' ''Mission scheduled.'' ?meta) (update_live k))))
     (finished k W ?P) E s"
    unfolding wp_thenE [of "assign_live k f" for f] wp_thenE [of "if b then p else q" for b p q]
  proof (rule exec_assign [OF assms(1)])
    fix m s1 assume "exec k W False ?c1 (event_types m0) s1"
    then show "wp (if ?b then transition_live k Waiting else live k)
       (\<lambda>_. wp (thenE (record_live k now ''mission_scheduled'' ''Mission scheduled.'' ?meta) (update_live k))
         (finished k W ?P) E) E s1"
    proof (rule maybe_transition_wp)
      fix m s2 assume "exec k W False ?c (event_types m0) s2"
      then show "wp (thenE (record_live k now ''mission_scheduled'' ''Mission scheduled.'' ?meta) (update_live k))
         (finished k W ?P) E s2"
        by (rule record_update_wp) (simp only: scheduled_as_def c)
    qed (simp_all add: can_transition_def)
  qed simp_all
  show ?thesis
  proof (cases "validate_schedule_time scheduled now")
    case (Inl e)
    then show ?thesis
      using assms(4,5) by (simp add: reschedule_def wp validate_schedule_time_def split: if_splits)
  next
    case (Inr u)
    then obtain t n where t: "scheduled = Aware t" "now = Aware n" "n < t"
      by (cases scheduled; cases now) (simp_all add: validate_schedule_time_def split: if_splits)
    show ?thesis
    proof (cases "case expires_at m0 of None \<Rightarrow> False | Some e \<Rightarrow> ?t > e")
      case True
      then show ?thesis using Inr assms(6) by (simp add: reschedule_def wp_thenE wp_liftE wp_if wp_raise)
    next
      case False
      then have e: "case expires_at m0 of None \<Rightarrow> True | Some e \<Rightarrow> t \<le> e" using t by (auto split: option.splits)
      have "Q m s'" if "finished k W ?P m s'" for m s'
        by (rule assms(7) [OF t e]) (use that t in simp)
      then show ?thesis
        using False Inr wp_mono [OF run] by (simp only: reschedule_def wp_thenE wp_liftE sum.case if_False)
    qed
  qed
qed

definition schedule_result :: "mission \<Rightarrow> datetime option \<Rightarrow> mission \<Rightarrow> bool" where
  "schedule_result m0 scheduled m \<longleftrightarrow>
     (case scheduled of
        None \<Rightarrow> m = m0 \<or> scheduled_as m0 (if status m0 = Waiting then Created else status m0) None ''mission_unscheduled'' m
      | Some (Naive x) \<Rightarrow> False
      | Some (Aware t) \<Rightarrow>
          (m = m0 \<and> scheduled_at m0 = Some t)
          \<or> (case expires_at m0 of None \<Rightarrow> True | Some e \<Rightarrow> t \<le> e)
             \<and> scheduled_as m0 (if status m0 = Created then Waiting else status m0) (Some t) ''mission_scheduled'' m)"

lemma unclaimed:
  assumes "repo_ok s" and "map_of (missions s) k = Some m" and "status m \<noteq> Processing"
  shows "claimed_at m = None"
  using repo_ok_entry [OF assms(1,2)] assms(3) by (auto simp: entry_ok_def claim_ok_def)

lemma schedule_wp:
  assumes "repo_ok s" and "ids_ok s" and "W (world s)"
  shows "wp (schedule_mission k scheduled current)
     (\<lambda>m s'. \<exists>m0. map_of (missions s) k = Some m0 \<and> status m0 \<in> {Created, Waiting, Paused}
        \<and> finished k W (schedule_result m0 scheduled) m s')
     (refused s) s"
  unfolding schedule_mission_def
proof (rule time_or_now_clock [where W = W, OF assms])
  fix now s1
  assume s1: "repo_ok s1" "ids_ok s1" "W (world s1)" "missions s1 = missions s" and r: "refused s e s1"
  let ?Q = "\<lambda>m s'. \<exists>m0. map_of (missions s) k = Some m0 \<and> status m0 \<in> {Created, Waiting, Paused}
        \<and> finished k W (schedule_result m0 scheduled) m s'"
  have refuse: "refused s e s1" for e using r by (simp add: refused_def)
  show "wp (with_mission k (\<lambda>m.
         if status m \<notin> {Created, Waiting, Paused} then raise (MissionSchedulingNotAllowedError (status m))
         else if map_option Aware (scheduled_at m) = scheduled then ret m
         else (case scheduled of None \<Rightarrow> unschedule k m now | Some t \<Rightarrow> reschedule k m t now))) ?Q (refused s) s1"
  proof (rule with_mission_wp [where W = W, OF s1(1-3)])
    fix m assume m1: "map_of (missions s1) k = Some m"
      and x: "exec k W (status m = Processing) (core m) (event_types m) s1"
    have m: "map_of (missions s) k = Some m" using m1 s1(4) by simp
    show "wp (if status m \<notin> {Created, Waiting, Paused} then raise (MissionSchedulingNotAllowedError (status m))
         else if map_option Aware (scheduled_at m) = scheduled then ret m
         else (case scheduled of None \<Rightarrow> unschedule k m now | Some t \<Rightarrow> reschedule k m t now)) ?Q (refused s) s1"
    proof (cases "status m \<in> {Created, Waiting, Paused}")
      case False
      then have "(if status m \<notin> {Created, Waiting, Paused} then raise (MissionSchedulingNotAllowedError (status m))
         else f) = raise (MissionSchedulingNotAllowedError (status m))" for f :: "('a sys, exn, mission) prog" by simp
      then show ?thesis using refuse by (simp only: wp_raise)
    next
      case st: True
      have x': "exec k W False (core m) (event_types m) s1" using x st by auto
      have cl: "claimed_at m = None" using unclaimed [OF s1(1) m1] st by auto
      have same: "?Q m s1" if "map_option Aware (scheduled_at m) = scheduled"
        using that m st exec_finished [OF x' s1(1) m1, of "schedule_result m scheduled"]
        by (cases "scheduled_at m") (auto simp: schedule_result_def)
      have un: "wp (unschedule k m now) ?Q (refused s) s1" if "scheduled = None"
      proof (cases "status m = Created")
        case True
        have "wp (live k) ?Q (refused s) s1"
          using exec_finished [OF x' s1(1) m1, of "schedule_result m scheduled"] m st that
          by (simp add: wp_def live_def m1 schedule_result_def)
        then show ?thesis using True by (simp add: unschedule_def)
      next
        case False
        then have "status m \<in> {Waiting, Paused}" using st by simp
        from unschedule_wp [OF x' this cl] show ?thesis
          by (rule wp_mono) (use m st that in \<open>auto simp: schedule_result_def elim!: finished_mono\<close>)
      qed
      have re: "wp (reschedule k m t now) ?Q (refused s) s1" if "scheduled = Some t" for t
      proof (rule reschedule_wp [OF x' st cl])
        fix u n m' s'
        assume "t = Aware u" "now = Aware n" "n < u"
          and e: "case expires_at m of None \<Rightarrow> True | Some e \<Rightarrow> u \<le> e"
          and f: "finished k W (scheduled_as m (if status m = Created then Waiting else status m) (Some u) ''mission_scheduled'') m' s'"
        then have "finished k W (schedule_result m scheduled) m' s'"
          by (intro finished_mono [OF f]) (simp add: schedule_result_def that)
        then show "?Q m' s'" using m st by blast
      qed (rule refuse)+
      show ?thesis using st same un re by (simp add: wp_ret split: option.split)
    qed
  qed (rule refuse)
qed

subsection \<open>Configuration\<close>

definition configured :: "mission_changes \<Rightarrow> mission \<Rightarrow> mission \<Rightarrow> bool" where
  "configured c m0 m \<longleftrightarrow>
     m = m0 \<and> change_report c m0 = []
     \<or> core m = apply_changes c (core m0) \<and> event_types m = event_types m0 @ [''mission_updated'']"

lemma core_apply_changes: "core (apply_changes c m) = apply_changes c (core m)"
  by (simp add: core_def apply_changes_def)

lemma apply_changes_fields [simp]:
  "claim_ok (apply_changes c m) = claim_ok m" "log_valid (apply_changes c m) = log_valid m"
  "mission_id (apply_changes c m) = mission_id m" "status (apply_changes c m) = status m"
  "execution_attempts (apply_changes c m) = execution_attempts m"
  "max_execution_attempts (apply_changes c m) = changed (new_max_attempts c) (max_execution_attempts m)"
  by (simp_all add: apply_changes_def claim_ok_def log_valid_def)

lemma check_changes_Inr:
  assumes "check_changes c r m = Inr u"
  shows "status m \<in> {Created, Waiting, Paused}"
    and "execution_attempts m \<le> changed (new_max_attempts c) (max_execution_attempts m) \<or> max_execution_attempts m < execution_attempts m"
  using assms by (auto simp: check_changes_def changed_def split: if_splits option.splits)

lemma update_config_wp:
  assumes "repo_ok s" and "ids_ok s" and "W (world s)"
  shows "wp (update_mission_config k r c)
     (\<lambda>m s'. \<exists>m0. map_of (missions s) k = Some m0 \<and> status m0 \<in> {Created, Waiting, Paused}
        \<and> check_changes c r m0 = Inr () \<and> finished k W (configured c m0) m s')
     (\<lambda>e s'. s' = s) s"
  unfolding update_mission_config_def
proof (rule with_mission_wp [where W = W, OF assms])
  let ?Q = "\<lambda>m s'. \<exists>m0. map_of (missions s) k = Some m0 \<and> status m0 \<in> {Created, Waiting, Paused}
        \<and> check_changes c r m0 = Inr () \<and> finished k W (configured c m0) m s'"
  let ?E = "\<lambda>e s'. s' = s"
  fix m assume m: "map_of (missions s) k = Some m"
    and x: "exec k W (status m = Processing) (core m) (event_types m) s"
  show "wp (thenE (liftE (check_changes c r m))
       (if change_report c m = [] then ret m
        else thenE (assign_live k (apply_changes c))
          (thenE (add_event k ''mission_updated'' ''Mission configuration updated.'' (change_metadata (change_report c m)))
          (update_live k)))) ?Q ?E s"
  proof (cases "check_changes c r m")
    case (Inl e)
    then show ?thesis by (simp add: wp_thenE wp_liftE)
  next
    case (Inr u)
    note ok = check_changes_Inr [OF Inr]
    have x': "exec k W False (core m) (event_types m) s" using x ok(1) by auto
    have mx: "execution_attempts m \<le> changed (new_max_attempts c) (max_execution_attempts m)"
      using ok(2) repo_ok_entry [OF assms(1) m] by (auto simp: entry_ok_def)
    have fin: "?Q m' s'" if "finished k W (configured c m) m' s'" for m' s'
      using that m ok(1) Inr by (intro exI [of _ m]) simp
    have same: "?Q m s" if "change_report c m = []"
      by (rule fin [OF exec_finished [OF x' assms(1) m]]) (use that in \<open>simp add: configured_def\<close>)
    have change: "wp (thenE (assign_live k (apply_changes c))
          (thenE (add_event k ''mission_updated'' ''Mission configuration updated.'' meta) (update_live k))) ?Q ?E s" for meta
      unfolding wp_thenE
    proof (rule exec_assign [OF x', where f = "apply_changes c"])
      fix m' as assume "core m' = core m" and "mid_ok k m' as"
      then show "mid_ok k (apply_changes c m') as"
        using mx core_D(14,15) [of m' "core m"]
        by (simp add: mid_ok_def)
    next
      fix m' s1 assume "exec k W False (apply_changes c (core m)) (event_types m) s1"
      then show "wp (add_event k ''mission_updated'' ''Mission configuration updated.'' meta)
         (\<lambda>_. wp (update_live k) ?Q ?E) ?E s1"
      proof (rule exec_add_event)
        fix m' s2 assume "exec k W False (apply_changes c (core m)) (event_types m @ [''mission_updated'']) s2"
        then show "wp (update_live k) ?Q ?E s2"
          by (rule exec_update) (simp, rule fin, rule exec_finished, assumption+, simp add: configured_def)
      qed
    qed (simp add: core_apply_changes, simp add: apply_changes_def)
    show ?thesis
      using Inr same change by (simp add: wp_thenE [of "liftE q" for q] wp_liftE wp_ret)
  qed
qed simp

subsection \<open>Provider selection\<close>

definition reselected :: "mission \<Rightarrow> string option \<Rightarrow> mission \<Rightarrow> bool" where
  "reselected m0 pid m \<longleftrightarrow>
     m = m0 \<and> provider_id m0 = pid
     \<or> core m = (core m0)\<lparr>provider_id := pid, resolved_provider_id := None, reservation_id := None\<rparr>
       \<and> event_types m = event_types m0 @ [''provider_selection_changed'']"

lemma update_unstarted:
  "status m \<in> {Created, Waiting, Paused} \<Longrightarrow> update_mission m s = (Inr m, store_mission m s)"
  by (auto simp: update_mission_def thenE_def bindE_def ret_def modify_def)

lemma selection_event:
  assumes "create_provider_selection_changed_event i m prev new (Aware t) = Inr m'" and "log_valid m"
  obtains ev where "m' = m\<lparr>execution_log := execution_log m @ [ev], last_event_sequence := last_event_sequence m + 1\<rparr>"
    and "event_id ev = i" and "event_type ev = ''provider_selection_changed''"
    and "log_valid m'"
proof -
  from assms(1) obtain msg meta where r: "record_event i (Aware t) ''provider_selection_changed'' msg meta m = Inr m'"
    by (auto simp: create_provider_selection_changed_event_def split: sum.splits)
  from record_event_cases [OF r] obtain ev where
    "m' = m\<lparr>execution_log := execution_log m @ [ev], last_event_sequence := last_event_sequence m + 1\<rparr>"
    "event_id ev = i" "event_type ev = ''provider_selection_changed''" by metis
  then show ?thesis using that record_event_log_valid [OF assms(2) r] by blast
qed

lemma store_selected:
  assumes "repo_ok s" and "ids_ok s" and "W (world s)" and "map_of (missions s) k = Some m0"
    and "status m0 \<in> {Created, Waiting, Paused}"
    and "m = m0\<lparr>provider_id := pid, resolved_provider_id := None, reservation_id := None\<rparr>"
    and "create_provider_selection_changed_event (fresh s (tick s)) m prev new (Aware t) = Inr m'"
  shows "wp (update_mission m') (finished k W (reselected m0 pid)) E (s\<lparr>tick := Suc (tick s)\<rparr>)"
proof -
  note entry = repo_ok_entry [OF assms(1,4)]
  have valid: "log_valid m" using entry by (simp add: assms(6) entry_ok_def log_valid_def)
  obtain ev where m': "m' = m\<lparr>execution_log := execution_log m @ [ev], last_event_sequence := last_event_sequence m + 1\<rparr>"
    and ev: "event_id ev = fresh s (tick s)" "event_type ev = ''provider_selection_changed''"
    and v: "log_valid m'"
    by (rule selection_event [OF assms(7) valid])
  have id: "mission_id m0 = k" using entry by (simp add: entry_ok_def)
  let ?s = "s\<lparr>tick := Suc (tick s), missions := dict_set k m' (missions s)\<rparr>"
  have run: "update_mission m' (s\<lparr>tick := Suc (tick s)\<rparr>) = (Inr m', ?s)"
    using assms(5) id by (subst update_unstarted) (simp_all add: m' assms(6) store_mission_def)
  have "entry_ok k m' (attempts_of s k)"
    using entry v by (simp add: m' assms(6) entry_ok_def claim_ok_def)
  then have "repo_ok ?s"
    by (intro repo_ok_change [OF assms(1), where k = k and m = m'])
       (use assms(1) in \<open>simp_all add: repo_ok_def attempts_of_def\<close>)
  moreover have "ids_ok ?s" using ids_ok_event [OF assms(2,4), of m'] ev by (simp add: m' assms(6))
  moreover have "reselected m0 pid m'"
    using ev(2) by (simp add: reselected_def m' assms(6) core_def event_types_def)
  ultimately show ?thesis using assms(3) by (simp add: wp_def run finished_def)
qed

lemma set_provider_wp:
  assumes "repo_ok s" and "ids_ok s" and "W (world s)"
  shows "wp (set_mission_provider k r pid)
     (\<lambda>m s'. \<exists>m0 npid. map_of (missions s) k = Some m0 \<and> status m0 \<in> {Created, Waiting, Paused}
        \<and> normalize_provider_id pid = Inr npid \<and> check_selection r m0 npid = Inr ()
        \<and> finished k W (reselected m0 npid) m s')
     (refused s) s"
  unfolding set_mission_provider_def
proof (rule with_mission_wp [where W = W, OF assms])
  let ?Q = "\<lambda>m s'. \<exists>m0 npid. map_of (missions s) k = Some m0 \<and> status m0 \<in> {Created, Waiting, Paused}
        \<and> normalize_provider_id pid = Inr npid \<and> check_selection r m0 npid = Inr ()
        \<and> finished k W (reselected m0 npid) m s'"
  fix m assume m: "map_of (missions s) k = Some m"
    and x: "exec k W (status m = Processing) (core m) (event_types m) s"
  let ?s1 = "s\<lparr>now_tick := Suc (now_tick s)\<rparr>"
  have s1: "repo_ok ?s1" "ids_ok ?s1" "W (world ?s1)" "map_of (missions ?s1) k = Some m"
    using assms m repo_ok_frame [of ?s1 s] ids_ok_frame [of ?s1 s] by simp_all
  have change: "wp (case with_provider_selection m npid of Inl e \<Rightarrow> raise e | Inr (m', same) \<Rightarrow>
            if same then ret m
            else
              bindE utc_now (\<lambda>t.
              bindE new_uuid (\<lambda>eid.
              bindE (liftE (create_provider_selection_changed_event eid m' (provider_id m) npid t)) (\<lambda>m2.
              update_mission m2)))) ?Q (refused s) s"
    if st: "status m \<in> {Created, Waiting, Paused}" and n: "normalize_provider_id pid = Inr npid"
      and ok: "check_selection r m npid = Inr ()" for npid
  proof -
    have Q: "?Q m' s'" if "finished k W (reselected m npid) m' s'" for m' s'
      using that m st n ok by blast
    have nn: "normalize_provider_id npid = Inr npid" by (rule normalize_provider_id_idem [OF n])
    have x': "exec k W False (core m) (event_types m) s" using x st by auto
    show ?thesis
    proof (cases "npid = provider_id m")
      case True
      have "?Q m s" by (rule Q, rule exec_finished [OF x' assms(1) m]) (simp add: reselected_def True)
      then show ?thesis using True nn by (simp add: with_provider_selection_def wp)
    next
      case False
      let ?m = "m\<lparr>provider_id := npid, resolved_provider_id := None, reservation_id := None\<rparr>"
      have w: "with_provider_selection m npid = Inr (?m, False)"
        using False nn by (simp add: with_provider_selection_def)
      have ev: "wp (bindE (liftE (create_provider_selection_changed_event (fresh s (tick s)) ?m (provider_id m) npid (Aware t)))
          update_mission) ?Q (refused s) (?s1\<lparr>tick := Suc (tick ?s1)\<rparr>)" for t
      proof (cases "create_provider_selection_changed_event (fresh s (tick s)) ?m (provider_id m) npid (Aware t)")
        case (Inl e)
        then show ?thesis by (simp add: wp refused_def)
      next
        case (Inr m')
        have "wp (update_mission m') (finished k W (reselected m npid)) (refused s) (?s1\<lparr>tick := Suc (tick ?s1)\<rparr>)"
          by (rule store_selected [where W = W and s = ?s1 and pid = npid, OF s1 st refl]) (use Inr in simp)
        then have "wp (update_mission m') ?Q (refused s) (?s1\<lparr>tick := Suc (tick ?s1)\<rparr>)"
          by (rule wp_mono) (rule Q)
        then show ?thesis using Inr by (simp only: wp_bindE wp_liftE sum.case)
      qed
      have utc: "utc_now s = (Inr (Aware (now_of s (now_tick s))), ?s1)" by (simp add: utc_now_def)
      show ?thesis using ev [of "now_of s (now_tick s)"]
        by (simp add: w wp_bindE wp_new_uuid wp_def [of utc_now] utc)
    qed
  qed
  show "wp (if \<not> can_change_provider_selection m
       then raise (MissionProviderSelectionNotAllowedError (mission_id m) (status m))
       else
         bindE (liftE (normalize_provider_id pid)) (\<lambda>npid.
         thenE (liftE (check_selection r m npid))
         (bindE (liftE (with_provider_selection m npid)) (\<lambda>(m', same).
            if same then ret m
            else
              bindE utc_now (\<lambda>t.
              bindE new_uuid (\<lambda>eid.
              bindE (liftE (create_provider_selection_changed_event eid m' (provider_id m) npid t)) (\<lambda>m2.
              update_mission m2))))))) ?Q (refused s) s"
    using change
    by (auto simp: can_change_provider_selection_def wp_raise wp_bindE [of "liftE x" for x] wp_liftE
        wp_thenE [of "liftE x" for x] split: sum.splits prod.splits)
qed simp

end
