(* ===== verification/RunFrame.thy ===== *)
theory RunFrame
  imports Lifecycle
begin

text \<open>
  What the services leave alone: an operation on one mission changes no other mission and no
  other mission's attempts, it neither adds nor removes a mission, and it opens no attempt. The
  rules are composed by the collection \<open>keeps_intro\<close>.
\<close>

text \<open>What an operation under way keeps of the mission itself: the fields it never assigns, and that the
  version of the mission counts the events of its log.\<close>

definition quota :: "mission \<Rightarrow> uuid \<times> int \<times> int \<times> time option \<times> int" where
  "quota m = (mission_id m, execution_attempts m, max_execution_attempts m, expires_at m,
     last_event_sequence m - int (length (execution_log m)))"

definition others :: "uuid \<Rightarrow> 'w sys \<Rightarrow> 'w sys \<Rightarrow> bool" where
  "others k s0 s \<longleftrightarrow>
     (\<forall>k'. k' \<noteq> k \<longrightarrow> map_of (missions s) k' = map_of (missions s0) k' \<and> attempts_of s k' = attempts_of s0 k')
     \<and> map_option quota (map_of (missions s) k) = map_option quota (map_of (missions s0) k)
     \<and> (\<forall>m. map_of (missions s) k = Some m \<longrightarrow> mission_id m = k)
     \<and> (has_open_attempt (attempts_of s0 k) \<or> attempts_of s k = attempts_of s0 k)"

lemma others_refl: "repo_ok s \<Longrightarrow> others k s s"
  by (auto simp: others_def repo_ok_id)

lemma others_frame: "missions s' = missions s \<Longrightarrow> attempts s' = attempts s \<Longrightarrow> others k s0 s \<Longrightarrow> others k s0 s'"
  by (simp add: others_def attempts_of_def)

lemma others_quota:
  "others k s0 s \<Longrightarrow> map_of (missions s0) k = Some m0 \<Longrightarrow> \<exists>m. map_of (missions s) k = Some m \<and> quota m = quota m0"
  by (cases "map_of (missions s) k") (simp_all add: others_def)

lemma others_exists: "others k s0 s \<Longrightarrow> map_of (missions s) k = None \<longleftrightarrow> map_of (missions s0) k = None"
  by (cases "map_of (missions s) k"; cases "map_of (missions s0) k") (simp_all add: others_def)

lemma others_set:
  "others k s0 s \<Longrightarrow> map_of (missions s) k = Some m \<Longrightarrow> quota m' = quota m \<Longrightarrow>
     others k s0 (s\<lparr>missions := dict_set k m' (missions s)\<rparr>)"
  by (auto simp: others_def quota_def attempts_of_def)

lemma others_attempts:
  "others k s0 s \<Longrightarrow> has_open_attempt (attempts_of s k) \<Longrightarrow> others k s0 (s\<lparr>attempts := dict_set k as (attempts s)\<rparr>)"
  by (auto simp: others_def attempts_of_def dict_get_or_def)

text \<open>A decided mission whose attempt is not open is in order again.\<close>

lemma repo_mid_closed:
  assumes "repo_mid k s" and "\<not> has_open_attempt (attempts_of s k)"
  shows "repo_ok s"
proof -
  have "entry_ok k m (attempts_of s k)" if "mid_ok k m (attempts_of s k)" for m
    using that assms(2) unfolding mid_ok_def entry_ok_def by blast
  then have "case map_of (missions s) k' of None \<Rightarrow> attempts_of s k' = [] | Some m \<Rightarrow> entry_ok k' m (attempts_of s k')" for k'
    using assms(1) unfolding repo_mid_def by (cases "map_of (missions s) k'") (auto dest!: spec [of _ k'] split: if_splits)
  then show ?thesis using assms(1) by (simp add: repo_mid_def repo_ok_def)
qed

lemma others_closed:
  assumes "others k s0 s" and "repo_mid k s" and "\<not> has_open_attempt (attempts_of s0 k)"
  shows "repo_ok s"
  by (rule repo_mid_closed [OF assms(2)]) (use assms(1,3) in \<open>simp add: others_def\<close>)

lemma keeps_utc_now [keeps_intro]: "keeps (others k s0) utc_now"
  by (rule keepsI) (simp add: wp_def utc_now_def others_frame)

lemma keeps_new_uuid [keeps_intro]: "keeps (others k s0) new_uuid"
  by (rule keepsI) (simp add: wp others_frame)

lemma keeps_call [keeps_intro]: "keeps (others k s0) (call f)"
  by (rule keepsI) (auto simp: wp_def call_def others_frame split: prod.split sum.split)

lemma keeps_live [keeps_intro]: "keeps (others k s0) (live k')"
  by (rule keepsI) (simp add: wp_def live_def split: option.split)

lemma keeps_on_mission:
  assumes "\<And>m m'. f m = Inr m' \<Longrightarrow> quota m' = quota m"
  shows "keeps (others k s0) (on_mission k f)"
proof (rule keepsI)
  fix s assume o: "others k s0 s"
  show "wp (on_mission k f) (\<lambda>_. others k s0) (\<lambda>_. others k s0) s"
  proof (cases "map_of (missions s) k")
    case None
    then show ?thesis using o by (simp add: wp_def on_mission_def)
  next
    case (Some m)
    have "others k s0 (s\<lparr>missions := dict_set k m' (missions s)\<rparr>)" if "f m = Inr m'" for m'
      by (rule others_set [OF o Some assms [OF that]])
    then show ?thesis using o by (simp add: wp_on_mission [OF Some] split: sum.split)
  qed
qed

lemma transition_quota: "transition m target t recovery retry = Inr m' \<Longrightarrow> quota m' = quota m"
  using transition_frame [of m target t recovery retry m'] by (simp add: quota_def)

lemma record_event_quota: "record_event i t ty msg meta m = Inr m' \<Longrightarrow> quota m' = quota m"
  by (erule record_event_cases) (simp add: quota_def)

lemma keeps_transition [keeps_intro]: "keeps (others k s0) (transition_live k target)"
  unfolding transition_live_def by (rule keeps_on_mission) (rule transition_quota)

lemma keeps_record [keeps_intro]: "keeps (others k s0) (record_live k t ty msg meta)"
  unfolding record_live_def
  by (rule keeps_bindE [OF keeps_new_uuid keeps_on_mission]) (rule record_event_quota)

lemma keeps_retry_failed [keeps_intro]: "keeps (others k s0) (on_mission k (\<lambda>m. retry_failed m t))"
  unfolding retry_failed_def by (rule keeps_on_mission) (rule transition_quota)

lemma keeps_assign:
  "(\<And>m. quota (f m) = quota m) \<Longrightarrow> keeps (others k s0) (assign_live k f)"
  unfolding assign_live_def by (rule keeps_on_mission) auto

lemma others_open_attempt:
  "others k s0 s \<Longrightarrow> others k s0 (update_open_attempt k f s)"
  by (auto simp: update_open_attempt_def others_attempts)

lemma update_mission_others:
  assumes "others k s0 s" and "map_of (missions s) k = Some m"
  shows "wp (update_mission m) (\<lambda>_. others k s0) (\<lambda>_. others k s0) s"
proof -
  have id: "mission_id m = k" using assms by (simp add: others_def)
  have store: "wp (thenE (modify (store_mission m)) (ret m)) (\<lambda>_. others k s0) (\<lambda>_. others k s0) s'"
    if "others k s0 s'" for s'
  proof -
    have "map_option quota (map_of (missions s') k) = Some (quota m)"
      using that assms by (simp add: others_def)
    then obtain m1 where "map_of (missions s') k = Some m1" "quota m = quota m1" by auto
    from others_set [OF that this] show ?thesis by (simp add: wp store_mission_def id)
  qed
  have "others k s0 (set_open_attempt_provider m s)" "others k s0 (close_execution_attempt m t st s)" for t st
    using others_open_attempt [OF assms(1)] assms(1)
    by (simp_all add: set_open_attempt_provider_def close_execution_attempt_def id)
  then have "wp (if status m = Processing then modify (set_open_attempt_provider m)
        else (case attempt_status_of (status m) of
            None \<Rightarrow> ret ()
          | Some st \<Rightarrow>
              bindE (gets (\<lambda>s. has_open_attempt (attempts_of s (mission_id m)))) (\<lambda>open.
                if open then
                  bindE (liftE (mission_event_time m)) (\<lambda>finished.
                    modify (close_execution_attempt m finished st))
                else ret ()))) (\<lambda>_. others k s0) (\<lambda>_. others k s0) s"
    using assms(1) by (auto simp: wp split: option.split sum.split)
  then show ?thesis
    unfolding update_mission_def wp_thenE
    by (rule wp_mono) (use store in \<open>simp_all add: wp\<close>)
qed

lemma keeps_update_live [keeps_intro]: "keeps (others k s0) (update_live k)"
proof (rule keepsI)
  fix s assume o: "others k s0 s"
  show "wp (update_live k) (\<lambda>_. others k s0) (\<lambda>_. others k s0) s"
    using update_mission_others [OF o] o
    by (cases "map_of (missions s) k") (simp_all add: update_live_def wp_def bindE_def live_def)
qed

lemma keeps_add_event [keeps_intro]: "keeps (others k s0) (add_event k ty msg meta)"
  unfolding add_event_def by (intro keeps_intro)

lemma keeps_time_or_now [keeps_intro]: "keeps (others k s0) (time_or_now t)"
  unfolding time_or_now_def by (intro keeps_intro)

lemma keeps_get_mission [keeps_intro]: "keeps (others k s0) (get_mission k')"
  unfolding get_mission_def by (intro keeps_intro)

lemma keeps_advance [keeps_intro]: "keeps (others k s0) (advance p k target)"
  unfolding advance_def by (intro keeps_intro)

lemma keeps_fail_with [keeps_intro]: "keeps (others k s0) (fail_with k ty msg meta)"
  unfolding fail_with_def by (intro keeps_intro)

lemma keeps_try_provider [keeps_intro]:
  "(\<And>b. keeps (others k s0) (h b)) \<Longrightarrow> (\<And>x. keeps (others k s0) (c x)) \<Longrightarrow> keeps (others k s0) (try_provider f h c)"
  unfolding try_provider_def by (intro keeps_intro)

lemma keeps_complete_run [keeps_intro]: "keeps (others k s0) (complete_run k)"
  unfolding complete_run_def by (intro keeps_intro)

lemma keeps_confirm_automatically [keeps_intro]: "keeps (others k s0) (confirm_automatically k a rid)"
  unfolding confirm_automatically_def fail_provider_operation_def by (intro keeps_intro)

lemma keeps_await_confirmation [keeps_intro]: "keeps (others k s0) (await_confirmation k r)"
  unfolding await_confirmation_def by (intro keeps_intro)

lemma keeps_finish_reservation [keeps_intro]: "keeps (others k s0) (finish_reservation k a r)"
  unfolding finish_reservation_def record_reservation_def by (intro keeps_intro keeps_assign) (simp_all add: quota_def)

lemma keeps_run_reservation [keeps_intro]: "keeps (others k s0) (run_reservation p k a b)"
  unfolding run_reservation_def fail_provider_operation_def by (intro keeps_intro)

lemma keeps_use_option [keeps_intro]: "keeps (others k s0) (use_option p k a best)"
  unfolding use_option_def complete_search_def by (intro keeps_intro keeps_assign) (simp add: quota_def)

lemma keeps_run_execution [keeps_intro]: "keeps (others k s0) (run_execution p k a)"
  unfolding run_execution_def run_search_def run_selection_def get_participants_def fail_provider_operation_def
  by (intro keeps_intro)

lemma keeps_run_resolved [keeps_intro]: "keeps (others k s0) (run_resolved k a)"
  unfolding run_resolved_def by (intro keeps_intro keeps_assign) (simp add: quota_def)

lemma keeps_run_ready [keeps_intro]: "keeps (others k s0) (run_ready k r now)"
  unfolding run_ready_def run_unresolved_def by (intro keeps_intro)

lemma keeps_expire_if_due [keeps_intro]: "keeps (others k s0) (expire_mission_if_due k now)"
  unfolding expire_mission_if_due_def expire_mission_def by (intro keeps_intro)

lemma keeps_run_mission [keeps_intro]: "keeps (others k s0) (run_mission k r t allow)"
  unfolding run_mission_def by (intro keeps_intro)

lemma keeps_with_mission [keeps_intro]: "(\<And>m. keeps (others k s0) (f m)) \<Longrightarrow> keeps (others k s0) (with_mission k f)"
  unfolding with_mission_def by (intro keeps_intro)

lemma keeps_retry_mission [keeps_intro]: "keeps (others k s0) (retry_mission k t now trigger reason)"
  unfolding retry_mission_def schedule_retry_def by (intro keeps_intro keeps_assign) (simp add: quota_def)

section \<open>The other services\<close>

lemma keeps_pair [keeps_intro]: "(\<And>a b. x = (a, b) \<Longrightarrow> keeps I (f a b)) \<Longrightarrow> keeps I (case x of (a, b) \<Rightarrow> f a b)"
  by (cases x) simp

lemma keeps_pause [keeps_intro]: "keeps (others k s0) (pause_mission k)"
  unfolding pause_mission_def by (intro keeps_intro)

lemma keeps_resume [keeps_intro]: "keeps (others k s0) (resume_mission k)"
  unfolding resume_mission_def by (intro keeps_intro)

lemma keeps_complete_confirmed [keeps_intro]: "keeps (others k s0) (complete_confirmed k)"
  unfolding complete_confirmed_def by (intro keeps_intro)

lemma keeps_confirm_with [keeps_intro]: "keeps (others k s0) (confirm_with k a rid)"
  unfolding confirm_with_def fail_provider_operation_def by (intro keeps_intro)

lemma keeps_confirm_mission [keeps_intro]: "keeps (others k s0) (confirm_mission k r)"
  unfolding confirm_mission_def by (intro keeps_intro)

lemma keeps_cancel_with [keeps_intro]: "keeps (others k s0) (cancel_with k a rid)"
  unfolding cancel_with_def fail_provider_operation_def by (intro keeps_intro)

lemma keeps_cancel_provider [keeps_intro]: "keeps (others k s0) (cancel_provider_reservation k m r)"
  unfolding cancel_provider_reservation_def by (intro keeps_intro)

lemma keeps_cancel_mission [keeps_intro]: "keeps (others k s0) (cancel_mission k r)"
  unfolding cancel_mission_def cancel_now_def by (intro keeps_intro)

text \<open>A service that lengthens the log of its mission raises the version by as much.\<close>

lemma version_grows:
  assumes "keeps (others k s) f" and "repo_ok s" and "map_of (missions s) k = Some m0"
    and "f s = (Inr x, s')" and "map_of (missions s') k = Some m" and "length (execution_log m0) < length (execution_log m)"
  shows "mission_id m = k" and "last_event_sequence m0 < last_event_sequence m"
proof -
  have "others k s s'"
    using wp_result [OF keeps_wp [OF assms(1) others_refl [OF assms(2)]] assms(4)] by simp
  from others_quota [OF this assms(3)] have "quota m = quota m0" using assms(5) by simp
  moreover have "mission_id m0 = k" by (rule repo_ok_id [OF assms(2,3)])
  ultimately show "mission_id m = k" and "last_event_sequence m0 < last_event_sequence m"
    using assms(6) by (simp_all add: quota_def)
qed

end
