(* ===== verification/EngineContracts.thy ===== *)
theory EngineContracts
  imports Demo RunFrame
begin

text \<open>
  What the mission engine guarantees to its callers: the outcome of a run, the audit trail, the
  attempt ledger, what a search-only mission never does, and the decisions on a reserved mission
  (confirm, cancel).
\<close>

section \<open>Running\<close>

lemma run_result:
  assumes "repo_ok s" and "ids_ok s" and "run_mission k r t allow s = (Inr m, s')"
  obtains m0 a where "map_of (missions s) k = Some m0" and "resolve r m0 = Inr a"
    and "run_done ((core m0)\<lparr>resolved_provider_id := Some (adapter_id a)\<rparr>) (event_types m0 @ [''provider_resolved'']) m"
    and "repo_ok s'" and "ids_ok s'" and "map_of (missions s') k = Some m"
proof -
  have "calls_keep (\<lambda>_. True) mode a" for mode and a :: "'a adapter"
    by (simp add: calls_keep_def wp_def split: prod.split sum.split)
  then have "wp (run_mission k r t allow)
     (\<lambda>m s'. \<exists>m0. map_of (missions s) k = Some m0 \<and> finished k (\<lambda>_. True) (run_returns r m0) m s')
     (\<lambda>_. interrupted k (\<lambda>_. True)) s"
    by (intro run_mission_wp [OF assms(1,2)]) simp_all
  from wp_result [OF this assms(3)] show ?thesis
    using that by (auto simp: finished_def run_returns_def)
qed

lemma run_done_trace:
  "run_done c ts m \<Longrightarrow> \<exists>new. event_types m = ts @ new \<and> trace_ok (execution_mode c) (status m) new"
  by (simp add: run_done_def)

lemma calls_keep_True: "calls_keep (\<lambda>_. True) mode a"
  by (simp add: calls_keep_def wp_def split: prod.split sum.split)

text \<open>C1: a run that returns leaves the mission stored with the resolved provider, and either
  failed or in the one status its execution mode aims at (completed for search-only and automatic
  purchase, waiting for confirmation otherwise). Unless it failed, the chosen option breaks none
  of the mission's rules, and a reservation exists whenever the mode asks for one.\<close>

theorem run_mission_outcome:
  assumes "repo_ok s" and "ids_ok s"
  shows "case run_mission k r t allow s of
      (Inl e, s') \<Rightarrow> True
    | (Inr m, s') \<Rightarrow> map_of (missions s') k = Some m
        \<and> (\<exists>m0 a. map_of (missions s) k = Some m0 \<and> resolve r m0 = Inr a
            \<and> resolved_provider_id m = Some (adapter_id a)
            \<and> (status m = Failed
               \<or> status m = success_status (execution_mode m0)
                  \<and> (case best_option m of None \<Rightarrow> False | Some b \<Rightarrow> \<not> breaks_rules b m0)
                  \<and> (execution_mode m0 = SearchOnly \<or> reservation_id m \<noteq> None)))"
proof (cases "run_mission k r t allow s")
  case (Pair res s')
  show ?thesis
  proof (cases res)
    case (Inr m)
    from run_result [OF assms, of k r t allow m s'] Pair Inr
    obtain m0 a where m0: "map_of (missions s) k = Some m0" "resolve r m0 = Inr a" "map_of (missions s') k = Some m"
      and d: "run_done ((core m0)\<lparr>resolved_provider_id := Some (adapter_id a)\<rparr>) (event_types m0 @ [''provider_resolved'']) m"
      by blast
    have b: "breaks_rules b ((core m0)\<lparr>resolved_provider_id := p\<rparr>) = breaks_rules b m0" for b p
      by (simp add: breaks_rules_def)
    show ?thesis
      using Pair Inr m0 d by (auto simp: run_done_def outcome_ok_def same_request_def b split: option.splits)
  qed (simp add: Pair)
qed

theorem run_mission_outcome_witness:
  "case run_mission 7 booking_registry None False (demo_sys (sample_mission Created)) of
      (Inl e, s') \<Rightarrow> True
    | (Inr m, s') \<Rightarrow> map_of (missions s') 7 = Some m
        \<and> (\<exists>m0 a. map_of (missions (demo_sys (sample_mission Created))) 7 = Some m0 \<and> resolve booking_registry m0 = Inr a
            \<and> resolved_provider_id m = Some (adapter_id a)
            \<and> (status m = Failed
               \<or> status m = success_status (execution_mode m0)
                  \<and> (case best_option m of None \<Rightarrow> False | Some b \<Rightarrow> \<not> breaks_rules b m0)
                  \<and> (execution_mode m0 = SearchOnly \<or> reservation_id m \<noteq> None)))"
  using run_mission_outcome [OF demo_sys_ok [of "sample_mission Created"], of 7 booking_registry None False]
  by (simp add: demo_entry_ok)

text \<open>C2: every run, whatever the adapters do, leaves the repository sound: identifiers stay unique, and no
  other mission and no other mission's attempts change. A run that returns keeps the invariant of the
  repository, leaves no attempt of its mission open, and its log is valid. A run that raises keeps the
  invariant as well when its mission had no open attempt; of a mission with an open attempt, one a
  worker has claimed, it may leave the attempt open although the status is decided (\<open>repo_mid\<close>).\<close>

theorem run_mission_keeps_ledger:
  assumes "repo_ok s" and "ids_ok s"
  shows "case run_mission k r t allow s of (res, s') \<Rightarrow>
     ids_ok s' \<and> repo_mid k s' \<and> (has_open_attempt (attempts_of s k) \<or> repo_ok s')
     \<and> (\<forall>k'. k' \<noteq> k \<longrightarrow> map_of (missions s') k' = map_of (missions s) k' \<and> attempts_of s' k' = attempts_of s k')
     \<and> (case res of Inl e \<Rightarrow> True
        | Inr m \<Rightarrow> repo_ok s' \<and> map_of (missions s') k = Some m \<and> log_valid m \<and> \<not> has_open_attempt (attempts_of s' k))"
proof (cases "run_mission k r t allow s")
  case (Pair res s')
  have w: "wp (run_mission k r t allow)
     (\<lambda>m s'. \<exists>m0. map_of (missions s) k = Some m0 \<and> finished k (\<lambda>_. True) (run_returns r m0) m s')
     (\<lambda>_. interrupted k (\<lambda>_. True)) s"
    by (intro run_mission_wp [OF assms]) (simp_all add: calls_keep_True)
  have o: "others k s s'" using keepsD [OF keeps_run_mission others_refl [OF assms(1)], of k r t allow] Pair by simp
  then have frame: "\<forall>k'. k' \<noteq> k \<longrightarrow> map_of (missions s') k' = map_of (missions s) k' \<and> attempts_of s' k' = attempts_of s k'"
    by (simp add: others_def)
  show ?thesis
  proof (cases res)
    case (Inl e)
    have "repo_mid k s' \<and> ids_ok s'" using wp_error [OF w, of e s'] Pair Inl by (simp add: interrupted_def)
    then show ?thesis using frame others_closed [OF o] Pair Inl by auto
  next
    case (Inr m)
    with Pair have run: "run_mission k r t allow s = (Inr m, s')" by simp
    from run_result [OF assms run] obtain c ts where ok: "repo_ok s'" "ids_ok s'" "map_of (missions s') k = Some m"
      and "run_done c ts m" by metis
    then have "status m \<noteq> Processing"
      by (cases "execution_mode c") (auto simp: run_done_def outcome_ok_def)
    with repo_ok_entry [OF ok(1,3)] have "log_valid m \<and> \<not> has_open_attempt (attempts_of s' k)"
      by (simp add: entry_ok_def)
    then show ?thesis using Pair Inr ok frame repo_ok_mid [OF ok(1)] by simp
  qed
qed

theorem run_mission_keeps_ledger_witness:
  "case run_mission 7 booking_registry None False (demo_sys (sample_mission Waiting)) of (res, s') \<Rightarrow>
     ids_ok s' \<and> repo_ok s' \<and> map_of (missions s') 8 = None"
proof -
  have "attempts_of (demo_sys (sample_mission Waiting)) 7 = []" "map_of (missions (demo_sys (sample_mission Waiting))) 8 = None"
    by (simp_all add: demo_sys_def attempts_of_def dict_get_or_def)
  then show ?thesis
    using run_mission_keeps_ledger [OF demo_sys_ok [of "sample_mission Waiting"], of 7 booking_registry None False]
    by (auto simp: demo_entry_ok has_open_attempt_def split: prod.splits)
qed

text \<open>C7: the log of a mission is append-only and tells the outcome: a run that returns has
  recorded the resolution of the provider and then exactly the events of a successful execution
  of the mission's mode, or a trail that ends with a failure event.\<close>

theorem run_mission_audit_trail:
  assumes "repo_ok s" and "ids_ok s"
  shows "case run_mission k r t allow s of
      (Inl e, s') \<Rightarrow> True
    | (Inr m, s') \<Rightarrow> (\<exists>m0 new. map_of (missions s) k = Some m0
        \<and> map event_type (execution_log m) = map event_type (execution_log m0) @ ''provider_resolved'' # new
        \<and> (if status m = Failed then new \<noteq> [] \<and> last new \<in> set failure_events
           else new \<in> set (success_traces (execution_mode m0))))"
proof (cases "run_mission k r t allow s")
  case (Pair res s')
  show ?thesis
  proof (cases res)
    case (Inr m)
    with Pair have run: "run_mission k r t allow s = (Inr m, s')" by simp
    obtain m0 a where m0: "map_of (missions s) k = Some m0" and "resolve r m0 = Inr a"
      and d: "run_done ((core m0)\<lparr>resolved_provider_id := Some (adapter_id a)\<rparr>) (event_types m0 @ [''provider_resolved'']) m"
      and "repo_ok s'" "ids_ok s'" "map_of (missions s') k = Some m"
      by (rule run_result [OF assms run])
    from run_done_trace [OF d] obtain new
      where n: "event_types m = (event_types m0 @ [''provider_resolved'']) @ new"
        "trace_ok (execution_mode ((core m0)\<lparr>resolved_provider_id := Some (adapter_id a)\<rparr>)) (status m) new"
      by (elim exE conjE)
    have "event_types m = event_types m0 @ ''provider_resolved'' # new" "trace_ok (execution_mode m0) (status m) new"
      using n by simp_all
    then show ?thesis
      unfolding Pair Inr prod.case sum.case trace_ok_def event_types_def
      by (intro exI [of _ m0] exI [of _ new] conjI m0)
  qed (simp add: Pair)
qed

theorem run_mission_audit_trail_witness:
  "case run_mission 7 booking_registry None False (demo_sys (sample_mission Created)) of
      (Inl e, s') \<Rightarrow> True
    | (Inr m, s') \<Rightarrow> (\<exists>m0 new. map_of (missions (demo_sys (sample_mission Created))) 7 = Some m0
        \<and> map event_type (execution_log m) = map event_type (execution_log m0) @ ''provider_resolved'' # new
        \<and> (if status m = Failed then new \<noteq> [] \<and> last new \<in> set failure_events
           else new \<in> set (success_traces (execution_mode m0))))"
  using run_mission_audit_trail [OF demo_sys_ok [of "sample_mission Created"], of 7 booking_registry None False]
  by (simp add: demo_entry_ok)

text \<open>C6: a search-only mission never touches a reservation: whatever reserving, confirming or
  cancelling would do to the provider's world, running the mission preserves every property of
  the world that searching preserves, and leaves the mission's reservation as it was.\<close>

theorem search_only_never_reserves:
  assumes "repo_ok s" and "ids_ok s" and "registry_ok r"
    and "map_of (missions s) k = Some m0" and "execution_mode m0 = SearchOnly"
    and "W (world s)"
    and "\<And>a m ids w. a \<in> set (adapters r) \<Longrightarrow> W w \<Longrightarrow> W (snd (search_options a m ids w))"
  shows "W (world (snd (run_mission k r t allow s)))
     \<and> (case fst (run_mission k r t allow s) of Inl e \<Rightarrow> True | Inr m \<Rightarrow> reservation_id m = reservation_id m0)"
proof -
  have keep: "calls_keep W (execution_mode m) a" if "map_of (missions s) k = Some m" "resolve r m = Inr a" for m a
  proof -
    have a: "a \<in> set (adapters r)" using resolve_qualifies [OF assms(3) that(2)] by blast
    have "wp (search_options a m' ids) (\<lambda>_. W) (\<lambda>_. W) w" if "W w" for m' ids w
      using assms(7) [OF a that, of m' ids]
      by (cases "search_options a m' ids w") (simp add: wp_def split: sum.split)
    then show ?thesis using that(1) assms(4,5) by (simp add: calls_keep_def)
  qed
  have w: "wp (run_mission k r t allow)
     (\<lambda>m s'. \<exists>m0. map_of (missions s) k = Some m0 \<and> finished k W (run_returns r m0) m s')
     (\<lambda>_. interrupted k W) s"
    by (rule run_mission_wp [where W = W, OF assms(1,2,6) keep])
  obtain res s' where run: "run_mission k r t allow s = (res, s')" by fastforce
  show ?thesis
  proof (cases res)
    case (Inl e)
    then show ?thesis using wp_error [OF w, of e s'] run by (simp add: interrupted_def)
  next
    case (Inr m)
    from wp_result [OF w, of m s'] run Inr have "finished k W (run_returns r m0) m s'" using assms(4) by simp
    then show ?thesis
      using run Inr assms(5) by (auto simp: finished_def run_returns_def run_done_def outcome_ok_def)
  qed
qed

theorem search_only_never_reserves_witness:
  "world (snd (run_mission 7 booking_registry None False
      (demo_sys ((sample_mission Created)\<lparr>execution_mode := SearchOnly\<rparr>)))) = 0"
proof -
  let ?m = "(sample_mission Created)\<lparr>execution_mode := SearchOnly\<rparr>"
  have e: "entry_ok 7 ?m []" by (simp add: entry_ok_def claim_ok_def has_open_attempt_def log_valid_def validate_event_sequence_def)
  have ok: "repo_ok (demo_sys ?m)" "ids_ok (demo_sys ?m)" by (rule demo_sys_ok; simp add: e)+
  have "map_of (missions (demo_sys ?m)) 7 = Some ?m" by (simp add: demo_sys_def)
  from search_only_never_reserves [OF ok booking_registry_ok this, where W = "\<lambda>w. w = 0"] show ?thesis
    by (simp add: demo_sys_def booking_registry_def booking_adapter_def ret_def)
qed

section \<open>Confirming and cancelling\<close>

lemma complete_confirmed_wp:
  assumes "exec k W False (core m0) (event_types m0 @ new) s" and "status m0 = RequiresConfirmation"
  shows "wp (complete_confirmed k)
     (finished k W (decided m0 Completed (new @ [''mission_confirmed'', ''mission_completed'']))) E s"
  unfolding complete_confirmed_def wp_thenE
proof (rule exec_status_cases [OF assms(1)])
  let ?c = "(core m0)\<lparr>status := Completed, claimed_at := None\<rparr>"
  let ?P = "decided m0 Completed (new @ [''mission_confirmed'', ''mission_completed''])"
  fix m s1 assume "exec k W False ?c (event_types m0 @ new) s1"
  then show "wp (add_event k ''mission_confirmed'' ''Mission confirmed by user'' [])
     (\<lambda>_. wp (add_event k ''mission_completed'' ''Mission completed'' []) (\<lambda>_. wp (update_live k) (finished k W ?P) E) E) E s1"
  proof (rule exec_add_event)
    fix m s2 assume "exec k W False ?c ((event_types m0 @ new) @ [''mission_confirmed'']) s2"
    then show "wp (add_event k ''mission_completed'' ''Mission completed'' [])
        (\<lambda>_. wp (update_live k) (finished k W ?P) E) E s2"
    proof (rule exec_add_event)
      fix m s3 assume "exec k W False ?c (((event_types m0 @ new) @ [''mission_confirmed'']) @ [''mission_completed'']) s3"
      then show "wp (update_live k) (finished k W ?P) E s3"
        by (rule exec_update) (auto intro!: exec_finished simp: decided_def)
    qed
  qed
qed (simp_all add: assms(2) can_transition_def)

text \<open>What the provider is asked, with the mission as the run under way has it: its core is that
  of the mission found at the start. Its reply is a result, a \<open>ProviderOperationError\<close>, which
  the engine handles, or any other exception, which passes through.\<close>

definition asked :: "(mission \<Rightarrow> ('w, exn, 'a) prog) \<Rightarrow> mission \<Rightarrow> 'w \<Rightarrow> exn + 'a \<Rightarrow> 'w \<Rightarrow> bool" where
  "asked ask m0 w reply w' \<longleftrightarrow> (\<exists>m. core m = core m0 \<and> ask m w = (reply, w'))"

definition settled ::
  "(mission \<Rightarrow> ('w, exn, 'a) prog) \<Rightarrow> string \<Rightarrow> ('a \<Rightarrow> mission \<Rightarrow> bool) \<Rightarrow> mission \<Rightarrow> 'w \<Rightarrow> 'w \<Rightarrow> mission \<Rightarrow> bool" where
  "settled ask started verdict m0 w w' m \<longleftrightarrow> (\<exists>reply. asked ask m0 w reply w' \<and>
     (case reply of
        Inr x \<Rightarrow> verdict x m
      | Inl e \<Rightarrow> operation_error e \<noteq> None \<and> decided m0 Failed [started, ''provider_operation_failed''] m))"

definition unanswered :: "(mission \<Rightarrow> ('w, exn, 'a) prog) \<Rightarrow> mission \<Rightarrow> 'w \<Rightarrow> exn \<Rightarrow> 'w \<Rightarrow> bool" where
  "unanswered ask m0 w e w' \<longleftrightarrow> operation_error e = None \<and> asked ask m0 w (Inl e) w'"

definition reserved_with :: "'w registry \<Rightarrow> mission \<Rightarrow> 'w adapter \<Rightarrow> string \<Rightarrow> bool" where
  "reserved_with r m a rid \<longleftrightarrow>
     (\<exists>pid. resolved_provider_id m = Some pid \<and> reservation_id m = Some rid \<and> registry_get r pid = Inr a)"

lemma reserving_adapter_D: "reserving_adapter r m e = Inr (a, rid) \<Longrightarrow> reserved_with r m a rid"
  by (auto simp: reserving_adapter_def reserved_with_def split: option.splits sum.splits)

lemma asked_keeps:
  assumes "asked ask m0 w reply w'" and "\<And>m. wp (ask m) (\<lambda>_. W) (\<lambda>_. W) w"
  shows "W w'"
proof -
  from assms(1) obtain m where "ask m w = (reply, w')" by (auto simp: asked_def)
  with assms(2) [of m] show ?thesis by (cases reply) (simp_all add: wp_def)
qed

lemma settledE:
  assumes "settled ask started verdict m0 w w' m"
  obtains (replied) x where "asked ask m0 w (Inr x) w'" and "verdict x m"
    | (refused) e where "asked ask m0 w (Inl e) w'" and "operation_error e \<noteq> None"
        and "decided m0 Failed [started, ''provider_operation_failed''] m"
proof -
  from assms obtain reply where r: "asked ask m0 w reply w'"
      "case reply of Inr x \<Rightarrow> verdict x m
        | Inl e \<Rightarrow> operation_error e \<noteq> None \<and> decided m0 Failed [started, ''provider_operation_failed''] m"
    unfolding settled_def by blast
  show thesis using r replied refused by (cases reply) simp_all
qed

lemma decided_status: "decided m0 st new m \<Longrightarrow> status m = st"
  using core_D(2) [of m] by (simp add: decided_def)

lemma settled_asked: "settled ask started verdict m0 w w' m \<Longrightarrow> \<exists>reply. asked ask m0 w reply w'"
  by (auto simp: settled_def)

lemma finished_world:
  "finished k (\<lambda>v. v = w) P m s \<Longrightarrow> W w \<Longrightarrow> (\<And>m. P m \<Longrightarrow> P' m) \<Longrightarrow> finished k W P' m s"
  by (auto simp: finished_def)

lemma interrupted_world: "interrupted k (\<lambda>v. v = w) s \<Longrightarrow> W w \<Longrightarrow> interrupted k W s"
  by (auto simp: interrupted_def)

text \<open>The state in which each reply leaves the call: the world is the one the reply came with.\<close>

lemma try_provider_reply:
  assumes "exec k W p c ts s"
    and "\<And>e w b s'. f (world s) = (Inl e, w) \<Longrightarrow> operation_error e = Some b \<Longrightarrow>
       exec k (\<lambda>v. v = w) p c ts s' \<Longrightarrow> wp (handler b) Q E s'"
    and "\<And>e w s'. f (world s) = (Inl e, w) \<Longrightarrow> operation_error e = None \<Longrightarrow>
       exec k (\<lambda>v. v = w) p c ts s' \<Longrightarrow> E e s'"
    and "\<And>x w s'. f (world s) = (Inr x, w) \<Longrightarrow> exec k (\<lambda>v. v = w) p c ts s' \<Longrightarrow> wp (cont x) Q E s'"
  shows "wp (try_provider f handler cont) Q E s"
proof -
  obtain reply w where f: "f (world s) = (reply, w)" by (cases "f (world s)")
  have s': "exec k (\<lambda>v. v = w) p c ts (s\<lparr>world := w\<rparr>)"
    using assms(1) at_frame [of "s\<lparr>world := w\<rparr>" s k p c ts] by (simp add: exec_def)
  show ?thesis
  proof (cases reply)
    case (Inl e)
    have h: "wp (handler b) Q E (s\<lparr>world := w\<rparr>)" if "operation_error e = Some b" for b
      by (rule assms(2) [OF _ that s']) (simp add: f Inl)
    have u: "E e (s\<lparr>world := w\<rparr>)" if "operation_error e = None"
      by (rule assms(3) [OF _ that s']) (simp add: f Inl)
    have "wp (case operation_error e of Some b \<Rightarrow> handler b | None \<Rightarrow> raise e) Q E (s\<lparr>world := w\<rparr>)"
      using h u by (cases "operation_error e") (simp_all add: wp_raise)
    then show ?thesis
      by (simp add: try_provider_def wp_tryElse wp_def [of "call f"] call_def f Inl)
  next
    case (Inr x)
    have "wp (cont x) Q E (s\<lparr>world := w\<rparr>)" by (rule assms(4) [OF _ s']) (simp add: f Inr)
    then show ?thesis
      by (simp add: try_provider_def wp_tryElse wp_def [of "call f"] call_def f Inr)
  qed
qed

definition confirm_verdict :: "mission \<Rightarrow> confirmation_result \<Rightarrow> mission \<Rightarrow> bool" where
  "confirm_verdict m0 x m \<longleftrightarrow>
     (if confirmation_success x
      then decided m0 Completed
         [''confirmation_started'', ''confirmation_succeeded'', ''mission_confirmed'', ''mission_completed''] m
      else decided m0 Failed [''confirmation_started'', ''confirmation_failed''] m)"

definition confirm_request :: "'w adapter \<Rightarrow> string \<Rightarrow> mission \<Rightarrow> ('w, exn, confirmation_result) prog" where
  "confirm_request a rid m = confirm_reservation a rid m (confirmation_idempotency_key m)"

definition confirmed :: "'w registry \<Rightarrow> mission \<Rightarrow> 'w \<Rightarrow> 'w \<Rightarrow> mission \<Rightarrow> bool" where
  "confirmed r m0 w w' m \<longleftrightarrow>
     (if resolved_provider_id m0 = None
      then w' = w \<and> decided m0 Completed [''mission_confirmed'', ''mission_completed''] m
      else (\<exists>a rid. reserved_with r m0 a rid
             \<and> settled (confirm_request a rid) ''confirmation_started'' (confirm_verdict m0) m0 w w' m))"

lemma confirm_with_reply:
  assumes "exec k (\<lambda>v. v = w) False (core m0) (event_types m0) s" and "status m0 = RequiresConfirmation"
  shows "wp (confirm_with k a rid)
     (\<lambda>m s'. \<exists>w'. finished k (\<lambda>v. v = w')
        (settled (confirm_request a rid) ''confirmation_started'' (confirm_verdict m0) m0 w w') m s')
     (\<lambda>e s'. \<exists>w'. interrupted k (\<lambda>v. v = w') s' \<and> unanswered (confirm_request a rid) m0 w e w') s"
    (is "wp _ ?Q ?E s")
  unfolding confirm_with_def wp_bindE
proof (rule exec_add_event [OF assms(1)])
  fix m s1
  assume s1: "exec k (\<lambda>v. v = w) False (core m0) (event_types m0 @ [''confirmation_started'']) s1" and m: "core m = core m0"
  have cf: "can_transition (status m0) Failed False False" using assms(2) by (simp add: can_transition_def)
  have fail: "wp (fail_with k ty msg meta) ?Q E s2"
    if "exec k (\<lambda>v. v = w') False (core m0) (event_types m0 @ [''confirmation_started'']) s2"
      and "\<And>m. decided m0 Failed [''confirmation_started'', ty] m \<Longrightarrow>
         settled (confirm_request a rid) ''confirmation_started'' (confirm_verdict m0) m0 w w' m" for ty msg meta s2 w' E
    unfolding fail_with_def
    by (rule wp_mono [OF decided_wp [OF that(1) cf]]) (auto intro!: exI [of _ w'] elim!: finished_mono that(2))
  let ?f = "confirm_reservation a rid m (confirmation_idempotency_key m)"
  show "wp (try_provider ?f
       (fail_provider_operation k (adapter_id a) ''confirmation'')
       (\<lambda>r. if \<not> confirmation_success r
            then fail_with k ''confirmation_failed'' ''Reservation confirmation failed.'' (provider_metadata a)
            else thenE (add_event k ''confirmation_succeeded'' ''Reservation confirmed.'' (provider_metadata a))
                 (complete_confirmed k))) ?Q ?E s1"
  proof (rule try_provider_reply [OF s1])
    fix e w' b s2
    assume r: "?f (world s1) = (Inl e, w')" "operation_error e = Some b"
      and s2: "exec k (\<lambda>v. v = w') False (core m0) (event_types m0 @ [''confirmation_started'']) s2"
    have "asked (confirm_request a rid) m0 w (Inl e) w'"
      using r(1) m execD(2) [OF s1] by (auto simp: asked_def confirm_request_def)
    then show "wp (fail_provider_operation k (adapter_id a) ''confirmation'' b) ?Q ?E s2"
      unfolding fail_provider_operation_def
      by (intro fail [OF s2]) (use r(2) in \<open>auto simp: settled_def intro!: exI [of _ "Inl e"]\<close>)
  next
    fix e w' s2
    assume r: "?f (world s1) = (Inl e, w')" "operation_error e = None"
      and s2: "exec k (\<lambda>v. v = w') False (core m0) (event_types m0 @ [''confirmation_started'']) s2"
    have "asked (confirm_request a rid) m0 w (Inl e) w'"
      using r(1) m execD(2) [OF s1] by (auto simp: asked_def confirm_request_def)
    then show "?E e s2" using exec_interrupted [OF s2] r(2) by (auto simp: unanswered_def)
  next
    fix x w' s2
    assume r: "?f (world s1) = (Inr x, w')"
      and s2: "exec k (\<lambda>v. v = w') False (core m0) (event_types m0 @ [''confirmation_started'']) s2"
    have ask: "asked (confirm_request a rid) m0 w (Inr x) w'"
      using r m execD(2) [OF s1] by (auto simp: asked_def confirm_request_def)
    show "wp (if \<not> confirmation_success x
            then fail_with k ''confirmation_failed'' ''Reservation confirmation failed.'' (provider_metadata a)
            else thenE (add_event k ''confirmation_succeeded'' ''Reservation confirmed.'' (provider_metadata a))
                 (complete_confirmed k)) ?Q ?E s2"
    proof (cases "confirmation_success x")
      case False
      have "wp (fail_with k ''confirmation_failed'' ''Reservation confirmation failed.'' (provider_metadata a)) ?Q ?E s2"
        by (rule fail [OF s2]) (use ask False in \<open>auto simp: settled_def confirm_verdict_def intro!: exI [of _ "Inr x"]\<close>)
      then show ?thesis using False by simp
    next
      case True
      have verdict: "settled (confirm_request a rid) ''confirmation_started'' (confirm_verdict m0) m0 w w' m'"
        if "decided m0 Completed ([''confirmation_started'', ''confirmation_succeeded''] @
              [''mission_confirmed'', ''mission_completed'']) m'" for m'
        using ask True that by (auto simp: settled_def confirm_verdict_def intro!: exI [of _ "Inr x"])
      have "wp (add_event k ''confirmation_succeeded'' ''Reservation confirmed.'' (provider_metadata a))
          (\<lambda>_. wp (complete_confirmed k) ?Q ?E) ?E s2"
      proof (rule exec_add_event [OF s2])
        fix m s3
        assume "exec k (\<lambda>v. v = w') False (core m0) ((event_types m0 @ [''confirmation_started'']) @ [''confirmation_succeeded'']) s3"
        then have "exec k (\<lambda>v. v = w') False (core m0) (event_types m0 @ [''confirmation_started'', ''confirmation_succeeded'']) s3"
          by simp
        from complete_confirmed_wp [OF this assms(2)]
        show "wp (complete_confirmed k) ?Q ?E s3"
          by (rule wp_mono) (auto intro!: exI [of _ w'] elim!: finished_mono verdict [simplified])
      qed
      then show ?thesis using True by (simp add: wp_thenE)
    qed
  qed
qed

lemma requires_confirmation_cases:
  assumes "requires_provider_confirmation m = Inr b"
  shows "b \<longleftrightarrow> resolved_provider_id m \<noteq> None"
  using assms by (auto simp: requires_provider_confirmation_def split: if_splits)

text \<open>Which call a confirmation leads to.\<close>

lemma confirm_mission_asks:
  assumes "map_of (missions s) k = Some m0" and "status m0 = RequiresConfirmation"
    and "reserved_with r m0 a rid" and "wp (confirm_with k a rid) Q E s"
  shows "wp (confirm_mission k r) Q E s"
  using assms
  by (auto simp: confirm_mission_def get_mission_def wp_bindE wp_gets wp_option wp_liftE wp_if
        requires_provider_confirmation_def reserving_adapter_def reserved_with_def)

lemma confirm_mission_cases:
  assumes "map_of (missions s) k = Some m0" and "status m0 = RequiresConfirmation"
    and "resolved_provider_id m0 = None \<Longrightarrow> wp (complete_confirmed k) Q E s"
    and "\<And>a rid. reserved_with r m0 a rid \<Longrightarrow> wp (confirm_with k a rid) Q E s" and "\<And>e. E e s"
  shows "wp (confirm_mission k r) Q E s"
proof -
  have pair: "wp (case x of (a, rid) \<Rightarrow> confirm_with k a rid) Q E s" if "reserving_adapter r m0 e = Inr x" for x e
    using assms(4) reserving_adapter_D [of r m0 e] that by (cases x) simp
  show ?thesis
  proof (cases "requires_provider_confirmation m0")
    case (Inr b)
    then have "\<not> b \<Longrightarrow> wp (complete_confirmed k) Q E s" using assms(3) requires_confirmation_cases by blast
    then show ?thesis
      using Inr assms(1,2,5) pair
      by (simp add: confirm_mission_def get_mission_def wp_bindE wp_gets wp_option wp_liftE split: sum.split)
  qed (use assms(1,2,5) in \<open>simp add: confirm_mission_def get_mission_def wp_bindE wp_gets wp_option wp_liftE\<close>)
qed

lemma confirm_mission_reply:
  assumes "repo_ok s" and "ids_ok s"
  shows "wp (confirm_mission k r)
     (\<lambda>m s'. \<exists>m0 w'. map_of (missions s) k = Some m0 \<and> status m0 = RequiresConfirmation
        \<and> finished k (\<lambda>v. v = w') (confirmed r m0 (world s) w') m s')
     (\<lambda>e s'. s' = s \<or> (\<exists>m0 a rid w'. map_of (missions s) k = Some m0 \<and> reserved_with r m0 a rid
        \<and> interrupted k (\<lambda>v. v = w') s' \<and> unanswered (confirm_request a rid) m0 (world s) e w')) s"
    (is "wp _ ?Q ?E s")
proof (cases "map_of (missions s) k")
  case None
  then show ?thesis by (simp add: confirm_mission_def get_mission_def wp)
next
  case (Some m0)
  note start = initial_exec [where W = "\<lambda>v. v = world s", OF assms refl Some]
  show ?thesis
  proof (cases "status m0 = RequiresConfirmation")
    case False
    then show ?thesis using Some by (simp add: confirm_mission_def get_mission_def wp)
  next
    case True
    then have s0: "exec k (\<lambda>v. v = world s) False (core m0) (event_types m0) s" using start by simp
    have plain: "wp (complete_confirmed k) ?Q ?E s" if "resolved_provider_id m0 = None"
      by (rule wp_mono [OF complete_confirmed_wp [of k _ m0 "[]", OF _ True]])
         (use s0 that True Some in \<open>auto simp: confirmed_def intro!: exI [of _ "world s"] elim!: finished_mono\<close>)
    have asked: "wp (confirm_with k a rid) ?Q ?E s"
      if r: "reserved_with r m0 a rid" for a rid
    proof (rule wp_mono [OF confirm_with_reply [OF s0 True]])
      have p: "resolved_provider_id m0 \<noteq> None" using r by (auto simp: reserved_with_def)
      fix m s'
      assume "\<exists>w'. finished k (\<lambda>v. v = w') (settled (confirm_request a rid) ''confirmation_started''
          (confirm_verdict m0) m0 (world s) w') m s'"
      then obtain w' where "finished k (\<lambda>v. v = w') (settled (confirm_request a rid) ''confirmation_started''
          (confirm_verdict m0) m0 (world s) w') m s'" by blast
      then have "finished k (\<lambda>v. v = w') (confirmed r m0 (world s) w') m s'"
        by (rule finished_mono) (use r p in \<open>auto simp: confirmed_def\<close>)
      then show "?Q m s'" using Some True by blast
    next
      fix e s'
      assume "\<exists>w'. interrupted k (\<lambda>v. v = w') s' \<and> unanswered (confirm_request a rid) m0 (world s) e w'"
      then show "?E e s'" using Some r by blast
    qed
    show ?thesis by (rule confirm_mission_cases [OF Some True plain asked]) simp_all
  qed
qed

text \<open>Coarser: the events a confirmation may leave, and what a predicate of the world that the
  provider's confirmations keep says afterwards.\<close>

definition confirm_result :: "mission \<Rightarrow> bool \<Rightarrow> mission \<Rightarrow> bool" where
  "confirm_result m0 asks m \<longleftrightarrow>
     decided m0 Completed ((if asks then [''confirmation_started'', ''confirmation_succeeded''] else [])
        @ [''mission_confirmed'', ''mission_completed'']) m
     \<or> asks \<and> (decided m0 Failed [''confirmation_started'', ''confirmation_failed''] m
                \<or> decided m0 Failed [''confirmation_started'', ''provider_operation_failed''] m)"

lemma confirmed_result: "confirmed r m0 w w' m \<Longrightarrow> confirm_result m0 (resolved_provider_id m0 \<noteq> None) m"
  unfolding confirmed_def
  by (cases "resolved_provider_id m0 = None")
     (auto simp: confirm_result_def confirm_verdict_def elim!: settledE split: if_split_asm)

lemma confirm_mission_wp:
  assumes "repo_ok s" and "ids_ok s" and "W (world s)"
    and "\<And>m pid a rid m' key w. map_of (missions s) k = Some m \<Longrightarrow> resolved_provider_id m = Some pid \<Longrightarrow>
       registry_get r pid = Inr a \<Longrightarrow> W w \<Longrightarrow> wp (confirm_reservation a rid m' key) (\<lambda>_. W) (\<lambda>_. W) w"
  shows "wp (confirm_mission k r)
     (\<lambda>m s'. \<exists>m0. map_of (missions s) k = Some m0 \<and> status m0 = RequiresConfirmation
        \<and> finished k W (confirm_result m0 (resolved_provider_id m0 \<noteq> None)) m s')
     (\<lambda>_. interrupted k W) s"
proof (rule wp_mono [OF confirm_mission_reply [OF assms(1,2)]])
  have W: "W w'" if "map_of (missions s) k = Some m0" and "reserved_with r m0 a rid"
    and "asked (confirm_request a rid) m0 (world s) reply w'" for m0 a rid reply w'
    by (rule asked_keeps [OF that(3)])
       (use that(1,2) assms(3,4) in \<open>auto simp: confirm_request_def reserved_with_def\<close>)
  {
    fix m s'
    assume "\<exists>m0 w'. map_of (missions s) k = Some m0 \<and> status m0 = RequiresConfirmation
        \<and> finished k (\<lambda>v. v = w') (confirmed r m0 (world s) w') m s'"
    then obtain m0 w' where m0: "map_of (missions s) k = Some m0" "status m0 = RequiresConfirmation"
      and f: "finished k (\<lambda>v. v = w') (confirmed r m0 (world s) w') m s'" by blast
    have "confirmed r m0 (world s) w' m" using f by (simp add: finished_def)
    then have "W w'" using W [OF m0(1)] assms(3) by (auto simp: confirmed_def dest: settled_asked split: if_splits)
    then have "finished k W (confirm_result m0 (resolved_provider_id m0 \<noteq> None)) m s'"
      by (rule finished_world [where w = w' and W = W, OF f _ confirmed_result])
    with m0 show "\<exists>m0. map_of (missions s) k = Some m0 \<and> status m0 = RequiresConfirmation
        \<and> finished k W (confirm_result m0 (resolved_provider_id m0 \<noteq> None)) m s'" by blast
  }
  fix e s'
  assume "s' = s \<or> (\<exists>m0 a rid w'. map_of (missions s) k = Some m0 \<and> reserved_with r m0 a rid
      \<and> interrupted k (\<lambda>v. v = w') s' \<and> unanswered (confirm_request a rid) m0 (world s) e w')"
  then show "interrupted k W s'"
    using repo_ok_mid [OF assms(1), of k] assms(2,3) W interrupted_world [of k _ s' W]
    by (auto simp: interrupted_def unanswered_def)
qed

text \<open>C12: confirming a mission that waits for confirmation ends it as the provider that holds its
  reservation answers: with the provider's world after the call, the mission is completed exactly
  when the provider reported success, and failed when it refused the confirmation or reported an
  operation error; a mission without a reservation is completed without a call. Exactly the
  corresponding events are appended and nothing else of the mission changes. A confirmation that
  raises was refused and left the state as it was, or passes on an exception of the provider that
  is no operation error.\<close>

theorem confirm_mission_outcome:
  assumes "repo_ok s" and "ids_ok s"
  shows "case confirm_mission k r s of
      (Inl e, s') \<Rightarrow> repo_mid k s' \<and> ids_ok s' \<and>
        (s' = s \<or> (\<exists>m0 a rid. map_of (missions s) k = Some m0 \<and> reserved_with r m0 a rid
            \<and> unanswered (confirm_request a rid) m0 (world s) e (world s')))
    | (Inr m, s') \<Rightarrow> repo_ok s' \<and> ids_ok s' \<and> map_of (missions s') k = Some m
        \<and> (\<exists>m0. map_of (missions s) k = Some m0 \<and> status m0 = RequiresConfirmation
            \<and> confirmed r m0 (world s) (world s') m)"
  using confirm_mission_reply [OF assms, of k r] repo_ok_mid [OF assms(1), of k] assms(2)
  by (auto simp: wp_def finished_def interrupted_def split: prod.splits sum.splits)

text \<open>At a mission with a reservation: the accepting provider completes it, one that refuses
  every confirmation fails it.\<close>

definition reserved_mission :: mission where
  "reserved_mission = (sample_mission RequiresConfirmation)
     \<lparr>resolved_provider_id := Some ''mock'', reservation_id := Some ''R1''\<rparr>"

definition refusing_adapter :: "nat adapter" where
  "refusing_adapter = booking_adapter
     \<lparr>confirm_reservation := (\<lambda>_ _ _. ret \<lparr>confirmation_success = False, confirmation_message = ''''\<rparr>),
      cancel_reservation := (\<lambda>_ _ _. ret \<lparr>cancellation_success = False, cancellation_message = ''''\<rparr>)\<rparr>"

definition refusing_registry :: "nat registry" where
  "refusing_registry = \<lparr>adapters = [refusing_adapter], adapters_by_id = [(''mock'', refusing_adapter)]\<rparr>"

lemma demo_reserved_ok: "repo_ok (demo_sys reserved_mission)" "ids_ok (demo_sys reserved_mission)"
  by (rule demo_sys_ok; simp add: reserved_mission_def entry_ok_def claim_ok_def has_open_attempt_def
        log_valid_def validate_event_sequence_def)+

lemma demo_reserved:
  "map_of (missions (demo_sys reserved_mission)) 7 = Some reserved_mission" "world (demo_sys reserved_mission) = 0"
  "status reserved_mission = RequiresConfirmation" "resolved_provider_id reserved_mission = Some ''mock''"
  "reservation_id reserved_mission = Some ''R1''"
  by (simp_all add: demo_sys_def reserved_mission_def)

lemma reserved_with_booking: "reserved_with booking_registry reserved_mission a rid \<longleftrightarrow> a = booking_adapter \<and> rid = ''R1''"
  by (auto simp: reserved_with_def demo_reserved registry_get_def booking_registry_def)

lemma reserved_with_refusing:
  "reserved_with refusing_registry reserved_mission a rid \<longleftrightarrow> a = refusing_adapter \<and> rid = ''R1''"
  by (auto simp: reserved_with_def demo_reserved registry_get_def refusing_registry_def)

theorem confirm_mission_outcome_witness:
  "(case confirm_mission 7 booking_registry (demo_sys reserved_mission) of
      (Inl e, s') \<Rightarrow> False
    | (Inr m, s') \<Rightarrow> status m = Completed)
   \<and> (case confirm_mission 7 refusing_registry (demo_sys reserved_mission) of
      (Inl e, s') \<Rightarrow> False
    | (Inr m, s') \<Rightarrow> status m = Failed)"
proof -
  note found = demo_reserved(1,3)
  have start: "exec 7 (\<lambda>v. v = 0) False (core reserved_mission) (event_types reserved_mission) (demo_sys reserved_mission)"
    using initial_exec [where W = "\<lambda>v. v = 0", OF demo_reserved_ok demo_reserved(2,1)] by (simp add: demo_reserved)
  have ended: "case confirm_mission 7 r (demo_sys reserved_mission) of (Inl e, s') \<Rightarrow> False | (Inr m, s') \<Rightarrow> status m = st"
    if a: "\<And>a' rid'. reserved_with r reserved_mission a' rid' \<longleftrightarrow> a' = a \<and> rid' = ''R1''"
      and ans: "\<And>rid m. confirm_request a rid m = ret x" and st: "\<And>m. confirm_verdict reserved_mission x m \<Longrightarrow> status m = st"
    for r a x st
  proof -
    have "wp (confirm_mission 7 r) (\<lambda>_ _. True) (\<lambda>_ _. False) (demo_sys reserved_mission)"
      by (rule confirm_mission_asks [OF found _ wp_mono [OF confirm_with_reply [OF start found(2)]], of r a "''R1''"])
         (simp_all add: a unanswered_def asked_def ans ret_def)
    moreover have "status m = st" if "confirmed r reserved_mission 0 w m" for m w
      using that by (auto simp: confirmed_def demo_reserved a asked_def ans ret_def st elim!: settledE)
    ultimately show ?thesis
      using confirm_mission_outcome [OF demo_reserved_ok, of 7 r]
      by (auto simp: wp_def demo_reserved split: prod.splits sum.splits)
  qed
  have "status m = Completed" if "confirm_verdict reserved_mission \<lparr>confirmation_success = True, confirmation_message = ''''\<rparr> m" for m
    using that by (simp add: confirm_verdict_def decided_status)
  moreover have "status m = Failed" if "confirm_verdict reserved_mission \<lparr>confirmation_success = False, confirmation_message = ''''\<rparr> m" for m
    using that by (simp add: confirm_verdict_def decided_status)
  ultimately show ?thesis
    using ended [OF reserved_with_booking, where x = "\<lparr>confirmation_success = True, confirmation_message = ''''\<rparr>"]
      ended [OF reserved_with_refusing, where x = "\<lparr>confirmation_success = False, confirmation_message = ''''\<rparr>"]
    by (simp add: confirm_request_def booking_adapter_def refusing_adapter_def)
qed

text \<open>A confirmation that cannot be carried out changes nothing at all: an unknown mission, a
  mission in another status, one whose reservation metadata is incomplete, and one whose provider
  is no longer registered are each refused with their error in the state they were in.\<close>

theorem confirm_mission_refusals:
  "(map_of (missions s) k = None \<longrightarrow> confirm_mission k r s = (Inl MissionNotFoundError, s))
   \<and> (map_of (missions s) k = Some m \<longrightarrow> status m \<noteq> RequiresConfirmation \<longrightarrow>
        confirm_mission k r s = (Inl (InvalidMissionConfirmationError
          (''Mission cannot be confirmed from status '' @ status_value (status m))), s))
   \<and> (map_of (missions s) k = Some m \<longrightarrow> status m = RequiresConfirmation \<longrightarrow>
        (resolved_provider_id m = None) \<noteq> (reservation_id m = None) \<longrightarrow>
        confirm_mission k r s = (Inl (InvalidMissionConfirmationError
          ''Mission reservation metadata is incomplete''), s))
   \<and> (map_of (missions s) k = Some m \<longrightarrow> status m = RequiresConfirmation \<longrightarrow>
        resolved_provider_id m = Some pid \<longrightarrow> reservation_id m = Some rid \<longrightarrow>
        map_of (adapters_by_id r) pid = None \<longrightarrow>
        confirm_mission k r s = (Inl (InvalidMissionConfirmationError
          ''The provider for this reservation is unavailable''), s))"
  by (auto simp: confirm_mission_def get_mission_def bindE_def gets_def raise_def liftE_def
        requires_provider_confirmation_def reserving_adapter_def registry_get_def)

theorem confirm_mission_refusals_witness:
  "confirm_mission 7 booking_registry (demo_sys (sample_mission Created)) =
     (Inl (InvalidMissionConfirmationError ''Mission cannot be confirmed from status created''),
      demo_sys (sample_mission Created))"
  using confirm_mission_refusals [of "demo_sys (sample_mission Created)" 7 booking_registry "sample_mission Created"]
  by (simp add: demo_sys_def)

definition cancel_verdict :: "mission \<Rightarrow> cancellation_result \<Rightarrow> mission \<Rightarrow> bool" where
  "cancel_verdict m0 x m \<longleftrightarrow>
     (if cancellation_success x
      then decided m0 Cancelled [''cancellation_started'', ''cancellation_succeeded'', ''mission_cancelled''] m
      else decided m0 Failed [''cancellation_started'', ''cancellation_failed''] m)"

definition cancel_request :: "'w adapter \<Rightarrow> string \<Rightarrow> mission \<Rightarrow> ('w, exn, cancellation_result) prog" where
  "cancel_request a rid m = cancel_reservation a rid m (cancellation_idempotency_key m)"

definition cancel_asks :: "mission \<Rightarrow> bool" where
  "cancel_asks m \<longleftrightarrow> status m = RequiresConfirmation \<and> resolved_provider_id m \<noteq> None"

definition cancelled :: "'w registry \<Rightarrow> mission \<Rightarrow> 'w \<Rightarrow> 'w \<Rightarrow> mission \<Rightarrow> bool" where
  "cancelled r m0 w w' m \<longleftrightarrow>
     (if cancel_asks m0
      then (\<exists>a rid. reserved_with r m0 a rid
             \<and> settled (cancel_request a rid) ''cancellation_started'' (cancel_verdict m0) m0 w w' m)
      else w' = w \<and> decided m0 Cancelled [''mission_cancelled''] m)"

lemma cancel_now_wp:
  assumes "exec k W False (core m0) (event_types m0 @ new) s" and "can_transition (status m0) Cancelled False False"
    and "\<And>m. decided m0 Cancelled (new @ [''mission_cancelled'']) m \<Longrightarrow> P m"
  shows "wp (cancel_now k) (finished k W P) E s"
  unfolding cancel_now_def
  by (rule wp_mono [OF decided_wp [OF assms(1,2)]]) (use assms(3) in \<open>auto elim!: finished_mono\<close>)

text \<open>The end of \<open>cancel_mission\<close>: the flag is the provider's agreement.\<close>

abbreviation cancel_end :: "uuid \<Rightarrow> bool \<Rightarrow> ('w sys, exn, mission) prog" where
  "cancel_end k agreed \<equiv> (if \<not> agreed then live k else cancel_now k)"

lemma cancel_with_reply:
  assumes "exec k (\<lambda>v. v = w) False (core m0) (event_types m0) s" and "status m0 = RequiresConfirmation"
    and "\<And>m w' s'. finished k (\<lambda>v. v = w')
        (settled (cancel_request a rid) ''cancellation_started'' (cancel_verdict m0) m0 w w') m s' \<Longrightarrow> Q m s'"
    and "\<And>e w' s'. interrupted k (\<lambda>v. v = w') s' \<Longrightarrow> unanswered (cancel_request a rid) m0 w e w' \<Longrightarrow> E e s'"
  shows "wp (cancel_with k a rid) (\<lambda>agreed. wp (cancel_end k agreed) Q E) E s"
  unfolding cancel_with_def wp_bindE
proof (rule exec_add_event [OF assms(1)])
  fix m s1
  assume s1: "exec k (\<lambda>v. v = w) False (core m0) (event_types m0 @ [''cancellation_started'']) s1" and m: "core m = core m0"
  have cf: "can_transition (status m0) Failed False False" using assms(2) by (simp add: can_transition_def)
  have cc: "can_transition (status m0) Cancelled False False" using assms(2) by (simp add: can_transition_def)
  have fail: "wp (thenE (fail_with k ty msg meta) (ret False)) (\<lambda>agreed. wp (cancel_end k agreed) Q E) E s2"
    if "exec k (\<lambda>v. v = w') False (core m0) (event_types m0 @ [''cancellation_started'']) s2"
      and "\<And>m. decided m0 Failed [''cancellation_started'', ty] m \<Longrightarrow>
         settled (cancel_request a rid) ''cancellation_started'' (cancel_verdict m0) m0 w w' m" for ty msg meta s2 w'
    unfolding fail_with_def wp_thenE [of _ "ret False"] wp_ret
  proof (rule wp_mono [OF decided_wp [OF that(1) cf]])
    fix m s3 assume f: "finished k (\<lambda>v. v = w') (decided m0 Failed ([''cancellation_started''] @ [ty])) m s3"
    have "Q m s3" by (rule assms(3), rule finished_mono [OF f], rule that(2)) simp
    moreover have "live k s3 = (Inr m, s3)" using f by (simp add: live_def finished_def)
    ultimately show "wp (cancel_end k False) Q E s3" by (simp add: wp_def)
  qed simp_all
  let ?f = "cancel_reservation a rid m (cancellation_idempotency_key m)"
  show "wp (try_provider ?f
       (\<lambda>retryable. thenE (fail_provider_operation k (adapter_id a) ''cancellation'' retryable) (ret False))
       (\<lambda>r. if \<not> cancellation_success r
            then thenE (fail_with k ''cancellation_failed'' ''Reservation cancellation failed.''
                    (provider_metadata a)) (ret False)
            else thenE (add_event k ''cancellation_succeeded'' ''Reservation cancelled.'' (provider_metadata a))
                 (ret True))) (\<lambda>agreed. wp (cancel_end k agreed) Q E) E s1"
  proof (rule try_provider_reply [OF s1])
    fix e w' b s2
    assume r: "?f (world s1) = (Inl e, w')" "operation_error e = Some b"
      and s2: "exec k (\<lambda>v. v = w') False (core m0) (event_types m0 @ [''cancellation_started'']) s2"
    have "asked (cancel_request a rid) m0 w (Inl e) w'"
      using r(1) m execD(2) [OF s1] by (auto simp: asked_def cancel_request_def)
    then show "wp (thenE (fail_provider_operation k (adapter_id a) ''cancellation'' b) (ret False))
        (\<lambda>agreed. wp (cancel_end k agreed) Q E) E s2"
      unfolding fail_provider_operation_def
      by (intro fail [OF s2]) (use r(2) in \<open>auto simp: settled_def intro!: exI [of _ "Inl e"]\<close>)
  next
    fix e w' s2
    assume r: "?f (world s1) = (Inl e, w')" "operation_error e = None"
      and s2: "exec k (\<lambda>v. v = w') False (core m0) (event_types m0 @ [''cancellation_started'']) s2"
    have "asked (cancel_request a rid) m0 w (Inl e) w'"
      using r(1) m execD(2) [OF s1] by (auto simp: asked_def cancel_request_def)
    then show "E e s2" using assms(4) [OF exec_interrupted [OF s2]] r(2) by (simp add: unanswered_def)
  next
    fix x w' s2
    assume r: "?f (world s1) = (Inr x, w')"
      and s2: "exec k (\<lambda>v. v = w') False (core m0) (event_types m0 @ [''cancellation_started'']) s2"
    have ask: "asked (cancel_request a rid) m0 w (Inr x) w'"
      using r m execD(2) [OF s1] by (auto simp: asked_def cancel_request_def)
    show "wp (if \<not> cancellation_success x
            then thenE (fail_with k ''cancellation_failed'' ''Reservation cancellation failed.''
                    (provider_metadata a)) (ret False)
            else thenE (add_event k ''cancellation_succeeded'' ''Reservation cancelled.'' (provider_metadata a))
                 (ret True)) (\<lambda>agreed. wp (cancel_end k agreed) Q E) E s2"
    proof (cases "cancellation_success x")
      case False
      have "wp (thenE (fail_with k ''cancellation_failed'' ''Reservation cancellation failed.'' (provider_metadata a))
          (ret False)) (\<lambda>agreed. wp (cancel_end k agreed) Q E) E s2"
        by (rule fail [OF s2]) (use ask False in \<open>auto simp: settled_def cancel_verdict_def intro!: exI [of _ "Inr x"]\<close>)
      then show ?thesis using False by simp
    next
      case True
      have verdict: "settled (cancel_request a rid) ''cancellation_started'' (cancel_verdict m0) m0 w w' m'"
        if "decided m0 Cancelled ([''cancellation_started'', ''cancellation_succeeded''] @ [''mission_cancelled'']) m'" for m'
        using ask True that by (auto simp: settled_def cancel_verdict_def intro!: exI [of _ "Inr x"])
      have "wp (add_event k ''cancellation_succeeded'' ''Reservation cancelled.'' (provider_metadata a))
          (\<lambda>_. wp (cancel_now k) Q E) E s2"
      proof (rule exec_add_event [OF s2])
        fix m s3
        assume "exec k (\<lambda>v. v = w') False (core m0) ((event_types m0 @ [''cancellation_started'']) @ [''cancellation_succeeded'']) s3"
        then have "exec k (\<lambda>v. v = w') False (core m0) (event_types m0 @ [''cancellation_started'', ''cancellation_succeeded'']) s3"
          by simp
        then show "wp (cancel_now k) Q E s3"
          by (rule wp_mono [OF cancel_now_wp [where E = E, OF _ cc verdict] assms(3)])
      qed
      then show ?thesis using True by (simp add: wp_thenE wp_ret)
    qed
  qed
qed

text \<open>Which call a cancellation leads to.\<close>

lemma cancel_mission_asks:
  assumes "map_of (missions s) k = Some m0" and "status m0 = RequiresConfirmation"
    and "reserved_with r m0 a rid" and "wp (cancel_with k a rid) (\<lambda>agreed. wp (cancel_end k agreed) Q E) E s"
  shows "wp (cancel_mission k r) Q E s"
  using assms
  by (auto simp: cancel_mission_def cancel_provider_reservation_def get_mission_def wp_bindE wp_gets wp_option wp_liftE
        requires_provider_confirmation_def reserving_adapter_def reserved_with_def)

lemma cancel_mission_cases:
  assumes "map_of (missions s) k = Some m0" and "status m0 \<in> {Created, Waiting, Paused, RequiresConfirmation}"
    and "\<not> cancel_asks m0 \<Longrightarrow> wp (cancel_now k) Q E s"
    and "\<And>a rid. cancel_asks m0 \<Longrightarrow> reserved_with r m0 a rid \<Longrightarrow>
       wp (cancel_with k a rid) (\<lambda>agreed. wp (cancel_end k agreed) Q E) E s" and "\<And>e. E e s"
  shows "wp (cancel_mission k r) Q E s"
proof -
  have "wp (if status m0 = RequiresConfirmation then cancel_provider_reservation k m0 r else ret True)
      (\<lambda>agreed. wp (cancel_end k agreed) Q E) E s"
  proof (cases "status m0 = RequiresConfirmation")
    case True
    have pair: "wp (case x of (a, rid) \<Rightarrow> cancel_with k a rid) (\<lambda>agreed. wp (cancel_end k agreed) Q E) E s"
      if "reserving_adapter r m0 e = Inr x" and "cancel_asks m0" for x e
      using assms(4) reserving_adapter_D [of r m0 e] that by (cases x) simp
    have "wp (cancel_provider_reservation k m0 r) (\<lambda>agreed. wp (cancel_end k agreed) Q E) E s"
    proof (cases "requires_provider_confirmation m0")
      case (Inr b)
      then have b: "b \<longleftrightarrow> cancel_asks m0" using requires_confirmation_cases True by (auto simp: cancel_asks_def)
      show ?thesis
        using Inr b assms(3,5) pair
        by (cases b) (simp_all add: cancel_provider_reservation_def wp_bindE wp_liftE wp_ret split: sum.split)
    qed (use assms(5) in \<open>simp add: cancel_provider_reservation_def wp_raise\<close>)
    then show ?thesis using True by simp
  next
    case False
    then show ?thesis using assms(3) by (simp add: cancel_asks_def wp_ret)
  qed
  then show ?thesis
    using assms(1,2) by (simp add: cancel_mission_def get_mission_def wp_bindE wp_gets wp_option)
qed

lemma cancel_mission_reply:
  assumes "repo_ok s" and "ids_ok s"
  shows "wp (cancel_mission k r)
     (\<lambda>m s'. \<exists>m0 w'. map_of (missions s) k = Some m0 \<and> status m0 \<in> {Created, Waiting, Paused, RequiresConfirmation}
        \<and> finished k (\<lambda>v. v = w') (cancelled r m0 (world s) w') m s')
     (\<lambda>e s'. s' = s \<or> (\<exists>m0 a rid w'. map_of (missions s) k = Some m0 \<and> reserved_with r m0 a rid
        \<and> interrupted k (\<lambda>v. v = w') s' \<and> unanswered (cancel_request a rid) m0 (world s) e w')) s"
    (is "wp _ ?Q ?E s")
proof (cases "map_of (missions s) k")
  case None
  then show ?thesis by (simp add: cancel_mission_def get_mission_def wp)
next
  case (Some m0)
  note start = initial_exec [where W = "\<lambda>v. v = world s", OF assms refl Some]
  show ?thesis
  proof (cases "status m0 \<in> {Created, Waiting, Paused, RequiresConfirmation}")
    case False
    then show ?thesis using Some by (simp add: cancel_mission_def get_mission_def wp)
  next
    case True
    then have s0: "exec k (\<lambda>v. v = world s) False (core m0) (event_types m0) s" using start by auto
    have cc: "can_transition (status m0) Cancelled False False" using True by (auto simp: can_transition_def)
    show ?thesis
    proof (rule cancel_mission_cases [OF Some True])
      assume n: "\<not> cancel_asks m0"
      have "wp (cancel_now k) (finished k (\<lambda>v. v = world s) (cancelled r m0 (world s) (world s))) ?E s"
        by (rule cancel_now_wp [of k _ m0 "[]", OF _ cc]) (use s0 n in \<open>simp_all add: cancelled_def\<close>)
      then show "wp (cancel_now k) ?Q ?E s" by (rule wp_mono) (use Some True in blast)+
    next
      fix a rid assume c: "cancel_asks m0" and r: "reserved_with r m0 a rid"
      show "wp (cancel_with k a rid) (\<lambda>agreed. wp (cancel_end k agreed) ?Q ?E) ?E s"
      proof (rule cancel_with_reply [OF s0])
        show "status m0 = RequiresConfirmation" using c by (simp add: cancel_asks_def)
      next
        fix m w' s'
        assume "finished k (\<lambda>v. v = w') (settled (cancel_request a rid) ''cancellation_started''
          (cancel_verdict m0) m0 (world s) w') m s'"
        then have "finished k (\<lambda>v. v = w') (cancelled r m0 (world s) w') m s'"
          by (rule finished_mono) (use r c in \<open>auto simp: cancelled_def\<close>)
        then show "?Q m s'" using Some True by blast
      next
        fix e w' s'
        assume "interrupted k (\<lambda>v. v = w') s'" and "unanswered (cancel_request a rid) m0 (world s) e w'"
        then show "?E e s'" using Some r by blast
      qed
    qed simp
  qed
qed

definition cancel_result :: "mission \<Rightarrow> bool \<Rightarrow> mission \<Rightarrow> bool" where
  "cancel_result m0 asks m \<longleftrightarrow>
     decided m0 Cancelled ((if asks then [''cancellation_started'', ''cancellation_succeeded''] else [])
        @ [''mission_cancelled'']) m
     \<or> asks \<and> (decided m0 Failed [''cancellation_started'', ''cancellation_failed''] m
                \<or> decided m0 Failed [''cancellation_started'', ''provider_operation_failed''] m)"

lemma cancelled_result: "cancelled r m0 w w' m \<Longrightarrow> cancel_result m0 (cancel_asks m0) m"
  unfolding cancelled_def
  by (cases "cancel_asks m0")
     (auto simp: cancel_result_def cancel_verdict_def elim!: settledE split: if_split_asm)

lemma cancel_mission_wp:
  assumes "repo_ok s" and "ids_ok s" and "W (world s)"
    and "\<And>m pid a rid m' key w. map_of (missions s) k = Some m \<Longrightarrow> resolved_provider_id m = Some pid \<Longrightarrow>
       registry_get r pid = Inr a \<Longrightarrow> W w \<Longrightarrow> wp (cancel_reservation a rid m' key) (\<lambda>_. W) (\<lambda>_. W) w"
  shows "wp (cancel_mission k r)
     (\<lambda>m s'. \<exists>m0. map_of (missions s) k = Some m0
        \<and> status m0 \<in> {Created, Waiting, Paused, RequiresConfirmation}
        \<and> finished k W (cancel_result m0 (cancel_asks m0)) m s')
     (\<lambda>_. interrupted k W) s"
proof (rule wp_mono [OF cancel_mission_reply [OF assms(1,2)]])
  have W: "W w'" if "map_of (missions s) k = Some m0" and "reserved_with r m0 a rid"
    and "asked (cancel_request a rid) m0 (world s) reply w'" for m0 a rid reply w'
    by (rule asked_keeps [OF that(3)])
       (use that(1,2) assms(3,4) in \<open>auto simp: cancel_request_def reserved_with_def\<close>)
  {
    fix m s'
    assume "\<exists>m0 w'. map_of (missions s) k = Some m0 \<and> status m0 \<in> {Created, Waiting, Paused, RequiresConfirmation}
        \<and> finished k (\<lambda>v. v = w') (cancelled r m0 (world s) w') m s'"
    then obtain m0 w' where m0: "map_of (missions s) k = Some m0" "status m0 \<in> {Created, Waiting, Paused, RequiresConfirmation}"
      and f: "finished k (\<lambda>v. v = w') (cancelled r m0 (world s) w') m s'" by blast
    have "cancelled r m0 (world s) w' m" using f by (simp add: finished_def)
    then have "W w'" using W [OF m0(1)] assms(3) by (auto simp: cancelled_def dest: settled_asked split: if_splits)
    then have "finished k W (cancel_result m0 (cancel_asks m0)) m s'"
      by (rule finished_world [where w = w' and W = W, OF f _ cancelled_result])
    with m0 show "\<exists>m0. map_of (missions s) k = Some m0
        \<and> status m0 \<in> {Created, Waiting, Paused, RequiresConfirmation}
        \<and> finished k W (cancel_result m0 (cancel_asks m0)) m s'" by blast
  }
  fix e s'
  assume "s' = s \<or> (\<exists>m0 a rid w'. map_of (missions s) k = Some m0 \<and> reserved_with r m0 a rid
      \<and> interrupted k (\<lambda>v. v = w') s' \<and> unanswered (cancel_request a rid) m0 (world s) e w')"
  then show "interrupted k W s'"
    using repo_ok_mid [OF assms(1), of k] assms(2,3) W interrupted_world [of k _ s' W]
    by (auto simp: interrupted_def unanswered_def)
qed

text \<open>C11: cancelling ends a mission that has not been executed, or one that waits for
  confirmation: a mission that holds a reservation is cancelled exactly when its own provider
  answered that it cancelled that reservation, and is failed instead when the provider refused or
  reported an operation error, so that no mission is cancelled while its reservation stands; a
  mission without a reservation is cancelled without a call. Exactly the corresponding events are
  appended and nothing else of the mission changes. A cancellation that raises was refused and
  left the state as it was, or passes on an exception of the provider that is no operation error.\<close>

theorem cancel_mission_outcome:
  assumes "repo_ok s" and "ids_ok s"
  shows "case cancel_mission k r s of
      (Inl e, s') \<Rightarrow> repo_mid k s' \<and> ids_ok s' \<and>
        (s' = s \<or> (\<exists>m0 a rid. map_of (missions s) k = Some m0 \<and> reserved_with r m0 a rid
            \<and> unanswered (cancel_request a rid) m0 (world s) e (world s')))
    | (Inr m, s') \<Rightarrow> repo_ok s' \<and> ids_ok s' \<and> map_of (missions s') k = Some m
        \<and> (\<exists>m0. map_of (missions s) k = Some m0
            \<and> status m0 \<in> {Created, Waiting, Paused, RequiresConfirmation}
            \<and> cancelled r m0 (world s) (world s') m)"
  using cancel_mission_reply [OF assms, of k r] repo_ok_mid [OF assms(1), of k] assms(2)
  by (auto simp: wp_def finished_def interrupted_def split: prod.splits sum.splits)

theorem cancel_mission_outcome_witness:
  "(case cancel_mission 7 booking_registry (demo_sys reserved_mission) of
      (Inl e, s') \<Rightarrow> False
    | (Inr m, s') \<Rightarrow> status m = Cancelled)
   \<and> (case cancel_mission 7 refusing_registry (demo_sys reserved_mission) of
      (Inl e, s') \<Rightarrow> False
    | (Inr m, s') \<Rightarrow> status m = Failed)"
proof -
  note found = demo_reserved(1,3)
  have asks: "cancel_asks reserved_mission" by (simp add: cancel_asks_def demo_reserved)
  have start: "exec 7 (\<lambda>v. v = 0) False (core reserved_mission) (event_types reserved_mission) (demo_sys reserved_mission)"
    using initial_exec [where W = "\<lambda>v. v = 0", OF demo_reserved_ok demo_reserved(2,1)] by (simp add: demo_reserved)
  have ended: "case cancel_mission 7 r (demo_sys reserved_mission) of (Inl e, s') \<Rightarrow> False | (Inr m, s') \<Rightarrow> status m = st"
    if a: "\<And>a' rid'. reserved_with r reserved_mission a' rid' \<longleftrightarrow> a' = a \<and> rid' = ''R1''"
      and ans: "\<And>rid m. cancel_request a rid m = ret x" and st: "\<And>m. cancel_verdict reserved_mission x m \<Longrightarrow> status m = st"
    for r a x st
  proof -
    have "wp (cancel_mission 7 r) (\<lambda>_ _. True) (\<lambda>_ _. False) (demo_sys reserved_mission)"
      by (rule cancel_mission_asks [OF found _ cancel_with_reply [OF start found(2)], of r a "''R1''"])
         (simp_all add: a unanswered_def asked_def ans ret_def)
    moreover have "status m = st" if "cancelled r reserved_mission 0 w m" for m w
      using that by (auto simp: cancelled_def asks a asked_def ans ret_def st elim!: settledE)
    ultimately show ?thesis
      using cancel_mission_outcome [OF demo_reserved_ok, of 7 r]
      by (auto simp: wp_def demo_reserved split: prod.splits sum.splits)
  qed
  have "status m = Cancelled" if "cancel_verdict reserved_mission \<lparr>cancellation_success = True, cancellation_message = ''''\<rparr> m" for m
    using that by (simp add: cancel_verdict_def decided_status)
  moreover have "status m = Failed" if "cancel_verdict reserved_mission \<lparr>cancellation_success = False, cancellation_message = ''''\<rparr> m" for m
    using that by (simp add: cancel_verdict_def decided_status)
  ultimately show ?thesis
    using ended [OF reserved_with_booking, where x = "\<lparr>cancellation_success = True, cancellation_message = ''''\<rparr>"]
      ended [OF reserved_with_refusing, where x = "\<lparr>cancellation_success = False, cancellation_message = ''''\<rparr>"]
    by (simp add: cancel_request_def booking_adapter_def refusing_adapter_def)
qed

section \<open>Idempotency keys\<close>

lemma hex_digit_inj: "n < 16 \<Longrightarrow> m < 16 \<Longrightarrow> hex_digit n = hex_digit m \<Longrightarrow> n = m"
  using nth_eq_iff_index_eq [of "''0123456789abcdef''" n m] by (simp add: hex_digit_def)

lemma hex_digits_inj: "n < 16 ^ d \<Longrightarrow> m < 16 ^ d \<Longrightarrow> hex_digits d n = hex_digits d m \<Longrightarrow> n = m"
proof (induction d arbitrary: n m)
  case (Suc d)
  have "n div 16 < 16 ^ d" "m div 16 < 16 ^ d" using Suc.prems(1,2) by (simp_all add: less_mult_imp_div_less mult.commute)
  moreover have "hex_digits d (n div 16) = hex_digits d (m div 16)" "hex_digit (n mod 16) = hex_digit (m mod 16)"
    using Suc.prems(3) by (simp_all add: hex_digit_def)
  ultimately have "n div 16 = m div 16" "n mod 16 = m mod 16"
    using Suc.IH hex_digit_inj [of "n mod 16" "m mod 16"] by auto
  then show ?case by (metis div_mult_mod_eq)
qed simp

lemma uuid_str_hex: "take 8 h @ x # take 4 (drop 8 h) @ y # take 4 (drop 12 h) @ z # take 4 (drop 16 h) @ w # drop 20 h
    = take 8 g @ x # take 4 (drop 8 g) @ y # take 4 (drop 12 g) @ z # take 4 (drop 16 g) @ w # drop 20 g \<Longrightarrow>
    length h = 32 \<Longrightarrow> length g = 32 \<Longrightarrow> h = g"
proof -
  assume e: "take 8 h @ x # take 4 (drop 8 h) @ y # take 4 (drop 12 h) @ z # take 4 (drop 16 h) @ w # drop 20 h
    = take 8 g @ x # take 4 (drop 8 g) @ y # take 4 (drop 12 g) @ z # take 4 (drop 16 g) @ w # drop 20 g"
    and l: "length h = 32" "length g = 32"
  have parts: "xs = take 8 xs @ take 4 (drop 8 xs) @ take 4 (drop 12 xs) @ take 4 (drop 16 xs) @ drop 20 xs"
    for xs :: "'a list"
  proof -
    have "take 4 (drop 16 xs) @ drop 20 xs = drop 16 xs" using append_take_drop_id [of 4 "drop 16 xs"] by simp
    moreover have "take 4 (drop 12 xs) @ drop 16 xs = drop 12 xs" using append_take_drop_id [of 4 "drop 12 xs"] by simp
    moreover have "take 4 (drop 8 xs) @ drop 12 xs = drop 8 xs" using append_take_drop_id [of 4 "drop 8 xs"] by simp
    ultimately show ?thesis by simp
  qed
  from e l have "take 8 h = take 8 g \<and> take 4 (drop 8 h) = take 4 (drop 8 g) \<and> take 4 (drop 12 h) = take 4 (drop 12 g)
      \<and> take 4 (drop 16 h) = take 4 (drop 16 g) \<and> drop 20 h = drop 20 g"
    by (simp add: append_eq_append_conv)
  then show "h = g" using parts [of h] parts [of g] by metis
qed

lemma uuid_str_inj: "u < 2 ^ 128 \<Longrightarrow> v < 2 ^ 128 \<Longrightarrow> uuid_str u = uuid_str v \<Longrightarrow> u = v"
proof -
  assume b: "u < 2 ^ 128" "v < 2 ^ 128" and e: "uuid_str u = uuid_str v"
  have p: "(2::nat) ^ 128 = 16 ^ 32" by simp
  from e have "hex_digits 32 u = hex_digits 32 v"
    unfolding uuid_str_def Let_def append.simps by (rule uuid_str_hex) simp_all
  then show "u = v" using b unfolding p by (intro hex_digits_inj [of u 32 v])
qed

lemma length_uuid_str [simp]: "length (uuid_str u) = 36"
  by (simp add: uuid_str_def Let_def)

text \<open>The idempotency keys sent to a provider identify the operation: for 128-bit mission
  identifiers two keys are equal only if they belong to the same mission and to the same kind of
  operation (reserve, confirm, cancel), so a provider that deduplicates by key never confuses two
  operations, and a repeated operation is always sent under the same key.\<close>

theorem idempotency_keys_unique:
  assumes "mission_id m < 2 ^ 128" and "mission_id n < 2 ^ 128"
  shows "(reservation_idempotency_key m = reservation_idempotency_key n \<longleftrightarrow> mission_id m = mission_id n)
     \<and> (confirmation_idempotency_key m = confirmation_idempotency_key n \<longleftrightarrow> mission_id m = mission_id n)
     \<and> (cancellation_idempotency_key m = cancellation_idempotency_key n \<longleftrightarrow> mission_id m = mission_id n)
     \<and> reservation_idempotency_key m \<noteq> confirmation_idempotency_key n
     \<and> reservation_idempotency_key m \<noteq> cancellation_idempotency_key n
     \<and> confirmation_idempotency_key m \<noteq> cancellation_idempotency_key n"
proof -
  have l: "length (reservation_idempotency_key x) = 44" "length (confirmation_idempotency_key x) = 57"
    "length (cancellation_idempotency_key x) = 57" for x
    by (simp_all add: reservation_idempotency_key_def confirmation_idempotency_key_def cancellation_idempotency_key_def)
  have "reservation_idempotency_key m \<noteq> confirmation_idempotency_key n"
    "reservation_idempotency_key m \<noteq> cancellation_idempotency_key n"
    using l [of m] l [of n] by (metis num.simps numeral_eq_iff semiring_norm)+
  moreover have "confirmation_idempotency_key m \<noteq> cancellation_idempotency_key n"
    by (simp add: confirmation_idempotency_key_def cancellation_idempotency_key_def append_eq_append_conv)
  moreover have "uuid_str (mission_id m) = uuid_str (mission_id n) \<longleftrightarrow> mission_id m = mission_id n"
    using uuid_str_inj [OF assms] by auto
  ultimately show ?thesis
    by (simp add: reservation_idempotency_key_def confirmation_idempotency_key_def cancellation_idempotency_key_def)
qed

theorem idempotency_keys_unique_witness:
  "reservation_idempotency_key (sample_mission Created) \<noteq> confirmation_idempotency_key (sample_mission Created)"
  using idempotency_keys_unique [of "sample_mission Created" "sample_mission Created"] by simp

end
