(* ===== verification/ClaimContracts.thy ===== *)
theory ClaimContracts
  imports MissionWork
begin

text \<open>
  The contracts of the repository operations that run under its lock: claiming due missions,
  recovering stale claims, expiring. The mission repository is shown to be a queue of claimable
  work in the sense of \<open>claim_queue\<close>.
\<close>

section \<open>Claiming due missions\<close>

definition due_ids :: "time \<Rightarrow> int \<Rightarrow> 'a mission_repo_scheme \<Rightarrow> uuid set" where
  "due_ids now limit s = mission_id ` set (due_missions now limit s)"

lemma due_missions_selected: "due_missions now limit s = selected (is_due now) (\<lambda>m. time_or now (scheduled_at m)) limit s"
  by (simp add: due_missions_def selected_def)

lemma due_in:
  "repo_ok s \<Longrightarrow> m \<in> set (due_missions now limit s) \<Longrightarrow> map_of (missions s) (mission_id m) = Some m \<and> is_due now m"
  using selected_in unfolding due_missions_selected by blast

lemma is_due_scheduled: "is_due now m \<Longrightarrow> scheduled_at m \<noteq> None"
  by (auto simp: is_due_def split: option.splits)

lemma claim_due_step:
  assumes "repo_ok s" and "0 < limit"
  shows "\<exists>s'. claim_due (Aware now) limit s = (Inr (map (claimed now) (due_missions now limit s)), s')
     \<and> repo_ok s' \<and> map_of (missions s') = (\<lambda>k. if k \<in> due_ids now limit s
          then map_option (claimed now) (map_of (missions s) k) else map_of (missions s) k)"
  by (rule claim_due_result [OF assms, of now]) (simp add: claimed_state_def due_ids_def)

text \<open>Claiming takes, among the missions that are waiting, due, not expired and not out of
  attempts, the earliest scheduled ones, at most as many as asked for; each is now being processed
  with one more attempt and an open ledger entry, and every other mission is untouched. A naive
  current time or a limit below one is refused without any change.\<close>

theorem claim_due_contract:
  assumes "repo_ok s" and "0 < limit"
  shows "(\<exists>ms s'. claim_due (Aware now) limit s = (Inr (map (claimed now) ms), s')
       \<and> repo_ok s' \<and> int (length ms) \<le> limit
       \<and> Ball (set ms) (\<lambda>m. map_of (missions s) (mission_id m) = Some m \<and> is_due now m
            \<and> map_of (missions s') (mission_id m) = Some (claimed now m))
       \<and> (\<forall>k. map_of (missions s') k = map_of (missions s) k \<or> k \<in> mission_id ` set ms)
       \<and> Ball (set ms) (\<lambda>m. \<forall>k y. map_of (missions s) k = Some y \<longrightarrow> is_due now y \<longrightarrow> y \<notin> set ms \<longrightarrow>
            the (scheduled_at m) \<le> the (scheduled_at y)))
     \<and> claim_due (Naive x) limit s = (Inl InvalidRepositoryTimeError, s)
     \<and> claim_due (Aware now) (- limit) s = (Inl (ValueError ''limit must be greater than 0''), s)"
proof (intro conjI)
  let ?ms = "due_missions now limit s"
  obtain s' where c: "claim_due (Aware now) limit s = (Inr (map (claimed now) ?ms), s')" "repo_ok s'"
    and m: "map_of (missions s') = (\<lambda>k. if k \<in> due_ids now limit s
          then map_option (claimed now) (map_of (missions s) k) else map_of (missions s) k)"
    using claim_due_step [OF assms] by blast
  have len: "int (length ?ms) \<le> limit" using assms(2) by (simp add: due_missions_selected selected_length)
  have first: "the (scheduled_at m) \<le> the (scheduled_at y)"
    if "m \<in> set ?ms" "map_of (missions s) k = Some y" "is_due now y" "y \<notin> set ?ms" for m k y
    using selected_first [OF assms(1), of m "is_due now" "\<lambda>m. time_or now (scheduled_at m)" limit k y] that
      is_due_scheduled [of now m] is_due_scheduled [of now y] due_in [OF assms(1), of m now limit]
    unfolding due_missions_selected by (auto simp: time_or_def)
  show "\<exists>ms s'. claim_due (Aware now) limit s = (Inr (map (claimed now) ms), s')
       \<and> repo_ok s' \<and> int (length ms) \<le> limit
       \<and> Ball (set ms) (\<lambda>m. map_of (missions s) (mission_id m) = Some m \<and> is_due now m
            \<and> map_of (missions s') (mission_id m) = Some (claimed now m))
       \<and> (\<forall>k. map_of (missions s') k = map_of (missions s) k \<or> k \<in> mission_id ` set ms)
       \<and> Ball (set ms) (\<lambda>m. \<forall>k y. map_of (missions s) k = Some y \<longrightarrow> is_due now y \<longrightarrow> y \<notin> set ms \<longrightarrow>
            the (scheduled_at m) \<le> the (scheduled_at y))"
    using c len first due_in [OF assms(1), of _ now limit]
    by (intro exI [of _ ?ms] exI [of _ s']) (simp add: m due_ids_def)
  show "claim_due (Naive x) limit s = (Inl InvalidRepositoryTimeError, s)"
    by (simp add: claim_due_def validate_list_due_arguments_def bindE_def liftE_def)
  show "claim_due (Aware now) (- limit) s = (Inl (ValueError ''limit must be greater than 0''), s)"
    using assms(2) by (simp add: claim_due_def validate_list_due_arguments_def bindE_def liftE_def)
qed

definition demo_repo :: "mission \<Rightarrow> mission_repo" where
  "demo_repo m = \<lparr>missions = [(mission_id m, m)], attempts = [], fresh = (\<lambda>n. n + 100), tick = 0\<rparr>"

definition due_mission :: mission where
  "due_mission = (sample_mission Waiting)\<lparr>scheduled_at := Some 5\<rparr>"

lemma demo_repo_ok: "mission_id m = 7 \<Longrightarrow> entry_ok 7 m [] \<Longrightarrow> repo_ok (demo_repo m)"
  by (simp add: repo_ok_def demo_repo_def attempts_of_def dict_get_or_def dict_ok_def)

lemma due_mission_ok: "repo_ok (demo_repo due_mission)"
  by (rule demo_repo_ok)
     (simp_all add: due_mission_def entry_ok_def claim_ok_def has_open_attempt_def log_valid_def validate_event_sequence_def)

theorem claim_due_contract_witness:
  "\<exists>ms s'. claim_due (Aware 9) 3 (demo_repo due_mission) = (Inr (map (claimed 9) ms), s') \<and> repo_ok s'"
  using claim_due_contract [OF due_mission_ok, of 3 9 0] by auto

section \<open>Workers do not share missions\<close>

definition claim_ids :: "time \<times> int \<Rightarrow> 'a mission_repo_scheme \<Rightarrow> uuid list \<times> 'a mission_repo_scheme" where
  "claim_ids r s = (case claim_due (Aware (fst r)) (snd r) s of
     (Inl e, s') \<Rightarrow> ([], s') | (Inr ms, s') \<Rightarrow> (map mission_id ms, s'))"

definition processing_ids :: "'a mission_repo_scheme \<Rightarrow> uuid set" where
  "processing_ids s = {k. \<exists>m. map_of (missions s) k = Some m \<and> status m = Processing}"

lemma claim_ids_cases:
  assumes "repo_ok s"
  shows "repo_ok (snd (claim_ids r s))"
    and "set (fst (claim_ids r s)) \<inter> processing_ids s = {}"
    and "processing_ids (snd (claim_ids r s)) = processing_ids s \<union> set (fst (claim_ids r s))"
    and "distinct (fst (claim_ids r s))"
proof -
  obtain now limit where r: "r = (now, limit)" by fastforce
  have all: "repo_ok (snd (claim_ids r s)) \<and> set (fst (claim_ids r s)) \<inter> processing_ids s = {}
     \<and> processing_ids (snd (claim_ids r s)) = processing_ids s \<union> set (fst (claim_ids r s))
     \<and> distinct (fst (claim_ids r s))"
  proof (cases "0 < limit")
    case False
    then have "claim_ids r s = ([], s)"
      by (simp add: r claim_ids_def claim_due_def validate_list_due_arguments_def bindE_def liftE_def)
    then show ?thesis using assms by simp
  next
    case True
    obtain s' where c: "claim_due (Aware now) limit s = (Inr (map (claimed now) (due_missions now limit s)), s')" "repo_ok s'"
      and m: "map_of (missions s') = (\<lambda>k. if k \<in> due_ids now limit s
          then map_option (claimed now) (map_of (missions s) k) else map_of (missions s) k)"
      using claim_due_step [OF assms True] by blast
    have ids: "claim_ids r s = (map mission_id (due_missions now limit s), s')"
      using c by (simp add: r claim_ids_def comp_def)
    have waiting: "\<exists>m. map_of (missions s) k = Some m \<and> status m = Waiting" if "k \<in> due_ids now limit s" for k
      using that due_in [OF assms] by (auto simp: due_ids_def is_due_def)
    have "set (fst (claim_ids r s)) = due_ids now limit s" by (simp add: ids due_ids_def)
    moreover have "due_ids now limit s \<inter> processing_ids s = {}"
      using waiting by (fastforce simp: processing_ids_def)
    moreover have "k \<in> processing_ids s' \<longleftrightarrow> k \<in> processing_ids s \<union> due_ids now limit s" for k
      using waiting [of k] by (cases "k \<in> due_ids now limit s") (auto simp: processing_ids_def m)
    moreover have "distinct (map mission_id (due_missions now limit s))"
      unfolding due_missions_selected by (rule selected_distinct [OF assms])
    ultimately show ?thesis using c(2) ids by auto
  qed
  then show "repo_ok (snd (claim_ids r s))" "set (fst (claim_ids r s)) \<inter> processing_ids s = {}"
    "processing_ids (snd (claim_ids r s)) = processing_ids s \<union> set (fst (claim_ids r s))"
    "distinct (fst (claim_ids r s))" by blast+
qed

interpretation mq: claim_queue "claim_ids :: time \<times> int \<Rightarrow> 'a mission_repo_scheme \<Rightarrow> _" processing_ids repo_ok
  by unfold_locales (simp_all add: claim_ids_cases)

text \<open>C13: any number of workers claiming one after the other, with whatever clocks and limits,
  never receive the same mission twice, and never one that was already being processed; together
  they leave exactly the missions they received in processing, besides those that were.\<close>

theorem claims_are_exclusive:
  assumes "repo_ok (s :: 'a mission_repo_scheme)"
  shows "distinct (fst (claims claim_ids rs s))
     \<and> set (fst (claims claim_ids rs s)) \<inter> processing_ids s = {}
     \<and> processing_ids (snd (claims claim_ids rs s)) = processing_ids s \<union> set (fst (claims claim_ids rs s))
     \<and> repo_ok (snd (claims claim_ids rs s))"
  by (rule mq.claims_exclusive [OF assms])

theorem claims_are_exclusive_witness:
  "distinct (fst (claims claim_ids [(9, 1), (9, 1)] (demo_repo due_mission)))"
  using claims_are_exclusive [OF due_mission_ok, of "[(9, 1), (9, 1)]"] by blast

section \<open>Loops over selected missions\<close>

text \<open>An operation applied to each of a list of stored missions.\<close>

definition processed :: "(mission \<Rightarrow> mission \<Rightarrow> bool) \<Rightarrow> 'a mission_repo_scheme \<Rightarrow> mission list \<Rightarrow> mission list \<Rightarrow>
    'a mission_repo_scheme \<Rightarrow> bool" where
  "processed P s xs rs s' \<longleftrightarrow>
     repo_ok s' \<and> ids_ok s' \<and> list_all2 P xs rs \<and> map mission_id rs = map mission_id xs
     \<and> (\<forall>k. k \<notin> mission_id ` set xs \<longrightarrow> map_of (missions s') k = map_of (missions s) k)
     \<and> (\<forall>r \<in> set rs. map_of (missions s') (mission_id r) = Some r)"

definition steps_one :: "(mission \<Rightarrow> mission \<Rightarrow> bool) \<Rightarrow> mission \<Rightarrow> ('a mission_repo_scheme, exn, mission) prog \<Rightarrow>
    'a mission_repo_scheme \<Rightarrow> bool" where
  "steps_one P x op s \<longleftrightarrow> (\<exists>r s'. op s = (Inr r, s') \<and> P x r \<and> mission_id r = mission_id x \<and> repo_ok s' \<and> ids_ok s'
     \<and> map_of (missions s') = (map_of (missions s))(mission_id x \<mapsto> r))"

lemma list_all2_right: "list_all2 P xs ys \<Longrightarrow> y \<in> set ys \<Longrightarrow> \<exists>x. x \<in> set xs \<and> P x y"
  by (induction rule: list_all2_induct) auto

lemma processed_loop:
  assumes "repo_ok s" and "ids_ok s" and "distinct (map mission_id xs)"
    and "\<And>x. x \<in> set xs \<Longrightarrow> map_of (missions s) (mission_id x) = Some x"
    and "\<And>x s1. x \<in> set xs \<Longrightarrow> repo_ok s1 \<Longrightarrow> ids_ok s1 \<Longrightarrow> map_of (missions s1) (mission_id x) = Some x \<Longrightarrow>
       steps_one P x (op x) s1"
  shows "wp (mapE op xs) (processed P s xs) E s"
proof (rule wp_mapE [where Inv = "processed P s"])
  fix ys y zs rs s1
  assume xs: "xs = ys @ y # zs" and inv: "processed P s ys rs s1"
  have y: "y \<in> set xs" and out: "mission_id y \<notin> mission_id ` set ys" using xs assms(3) by auto
  have "map_of (missions s1) (mission_id y) = Some y"
    using inv out assms(4) [OF y] by (simp add: processed_def)
  then have "steps_one P y (op y) s1" using inv assms(5) [OF y] by (simp add: processed_def)
  then obtain r s2 where r: "op y s1 = (Inr r, s2)" "P y r" "mission_id r = mission_id y" "repo_ok s2" "ids_ok s2"
      "map_of (missions s2) = (map_of (missions s1))(mission_id y \<mapsto> r)"
    unfolding steps_one_def by (elim exE conjE)
  have "mission_id x \<noteq> mission_id y" if "x \<in> set rs" for x
  proof -
    have "mission_id x \<in> set (map mission_id rs)" using that by simp
    also have "set (map mission_id rs) = mission_id ` set ys" using inv by (simp add: processed_def del: set_map flip: set_map)
    finally show ?thesis using out by metis
  qed
  then have "processed P s (ys @ [y]) (rs @ [r]) s2"
    using inv r(2-6) by (simp add: processed_def list_all2_appendI)
  then show "wp (op y) (\<lambda>r. processed P s (ys @ [y]) (rs @ [r])) E s1" by (simp add: wp_def r(1))
qed (simp add: processed_def assms(1,2))

lemma processed_selected:
  assumes "repo_ok s" and "ids_ok s"
    and "\<And>x s1. p x \<Longrightarrow> repo_ok s1 \<Longrightarrow> ids_ok s1 \<Longrightarrow> map_of (missions s1) (mission_id x) = Some x \<Longrightarrow>
       steps_one P x (op x) s1"
  obtains rs s' where "mapE op (selected p f limit s) s = (Inr rs, s')" and "processed P s (selected p f limit s) rs s'"
proof -
  have "wp (mapE op (selected p f limit s)) (processed P s (selected p f limit s)) (\<lambda>_ _. False) s"
    by (rule processed_loop [OF assms(1,2) selected_distinct [OF assms(1)]])
       (use selected_in [OF assms(1)] assms(3) in blast)+
  then show ?thesis using that by (auto simp: wp_def split: prod.splits sum.splits)
qed

section \<open>Recovering stale claims\<close>

definition recovered :: "datetime \<Rightarrow> mission \<Rightarrow> mission \<Rightarrow> bool" where
  "recovered t m m' \<longleftrightarrow>
     status m' = (if has_exhausted_attempts m then Failed else Waiting) \<and> claimed_at m' = None
     \<and> execution_attempts m' = execution_attempts m \<and> max_execution_attempts m' = max_execution_attempts m
     \<and> event_types m' = event_types m @ [''claim_recovered'']"

lemma recover_stale_events:
  assumes "recover_stale i m t = Inr m'"
  obtains ev where "execution_log m' = execution_log m @ [ev]" and "event_id ev = i" and "event_type ev = ''claim_recovered''"
proof -
  from assms obtain m1 msg meta where t: "transition m (if has_exhausted_attempts m then Failed else Waiting) (Some t) True False = Inr m1"
    and r: "record_event i t ''claim_recovered'' msg meta m1 = Inr m'"
    by (auto simp: recover_stale_def Let_def split: sum.splits)
  from record_event_cases [OF r] transition_frame(1) [OF t] show ?thesis using that by metis
qed

lemma recover_entry_ok:
  assumes "entry_ok k m as" and "status m = Processing" and "recover_stale i m t = Inr m'"
    and "st \<noteq> AttemptProcessing"
  shows "entry_ok k m' (closed_entry as
     (\<lambda>a. a\<lparr>attempt_status := st, attempt_finished_at := Some u, attempt_resolved_provider_id := p, attempt_reservation_id := r\<rparr>))"
proof -
  have open1: "has_open_attempt as" using assms(1,2) by (simp add: entry_ok_def)
  note res = recover_stale_result [OF assms(3)]
  let ?f = "\<lambda>a. a\<lparr>attempt_status := st, attempt_finished_at := Some u, attempt_resolved_provider_id := p,
      attempt_reservation_id := r\<rparr>"
  have mid: "mid_ok k m as" by (rule entry_mid [OF assms(1)])
  have c: "sorted_wrt (<) (map attempt_number (closed_entry as ?f))"
    "\<forall>a \<in> set (closed_entry as ?f). attempt_mission_id a = k \<and> attempt_number a \<le> execution_attempts m"
    "\<forall>a \<in> set (butlast (closed_entry as ?f)). attempt_status a \<noteq> AttemptProcessing"
    by (rule closed_entry_mid [OF mid open1]; simp)+
  have ok: "mission_id m = k" "log_valid m" "0 \<le> execution_attempts m" "execution_attempts m \<le> max_execution_attempts m"
    using assms(1) by (simp_all add: entry_ok_def)
  have claim: "claim_ok m'" using res(1,2) by (simp add: claim_ok_def)
  have np: "status m' \<noteq> Processing" using res(1) by simp
  show ?thesis
    unfolding entry_ok_def open_closed_entry res(3-5)
    using c claim np res(8) [OF ok(2)] ok assms(4) by simp
qed

lemma recover_one_step:
  assumes "is_stale b x" and "repo_ok s" and "ids_ok s" and "map_of (missions s) (mission_id x) = Some x"
  shows "steps_one (recovered (Aware t)) x (recover_one (Aware t) x) s"
proof -
  let ?k = "mission_id x" and ?i = "fresh s (tick s)"
  note entry = repo_ok_entry [OF assms(2,4)]
  have st: "status x = Processing" using assms(1) by (simp add: is_stale_def)
  have valid: "log_valid x" and opened: "has_open_attempt (attempts_of s ?k)" using entry st by (simp_all add: entry_ok_def)
  have i: "?i \<noteq> 0" "?i \<notin> event_id ` set (execution_log x)" using assms(3,4) by (auto simp: ids_ok_def)
  obtain m' where r: "recover_stale ?i x (Aware t) = Inr m'"
    using recover_stale_succeeds [OF st valid i] by blast
  obtain ev where ev: "execution_log m' = execution_log x @ [ev]" "event_id ev = ?i" "event_type ev = ''claim_recovered''"
    by (rule recover_stale_events [OF r])
  note res = recover_stale_result [OF r]
  define stt where "stt = (if status m' = Failed then AttemptFailed else AttemptRecovered)"
  let ?f = "\<lambda>a. a\<lparr>attempt_status := stt, attempt_finished_at := Some (Aware t),
        attempt_resolved_provider_id := resolved_provider_id m', attempt_reservation_id := reservation_id m'\<rparr>"
  let ?s1 = "s\<lparr>tick := Suc (tick s), missions := dict_set ?k m' (missions s)\<rparr>"
  let ?s2 = "?s1\<lparr>attempts := dict_set ?k (closed_entry (attempts_of s ?k) ?f) (attempts s)\<rparr>"
  have run: "recover_one (Aware t) x s = (Inr m', ?s2)"
  proof -
    have a1: "attempts_of ?s1 ?k = attempts_of s ?k" by simp
    have "close_execution_attempt m' (Aware t) stt ?s1 = ?s2"
      unfolding close_execution_attempt_def res(3)
      using update_open_attempt_eq [of ?s1 ?k ?f] opened a1 by (simp add: closed_entry_def)
    moreover have "store_mission m' ?s2 = ?s2" by (rule store_same [where k = ?k]) (simp_all add: res(3))
    ultimately show ?thesis
      using assms(4) r by (simp add: recover_one_def bindE_def new_uuid_def on_mission_def thenE_def modify_def ret_def
          flip: stt_def)
  qed
  have "repo_ok ?s2"
  proof (rule repo_ok_change [OF assms(2)])
    show "entry_ok ?k m' (attempts_of ?s2 ?k)"
      using recover_entry_ok [OF entry st r, of stt] by (simp add: attempts_of_def dict_get_or_def stt_def)
  qed (use assms(2) in \<open>simp_all add: repo_ok_def attempts_of_def dict_get_or_def\<close>)
  moreover have "ids_ok ?s2"
    using ids_ok_event [OF assms(3,4), of m'] ev ids_ok_frame [of ?s2 ?s1] by simp
  moreover have "recovered (Aware t) x m'"
    using res(1,2,4,5) ev by (simp add: recovered_def event_types_def)
  ultimately show ?thesis
    unfolding steps_one_def using run res(3) by (intro exI [of _ m'] exI [of _ ?s2]) simp
qed

text \<open>A mission the query matches is left out only when the batch is full.\<close>

lemma selected_full:
  assumes "repo_ok s" and "0 < limit" and "map_of (missions s) k = Some y" and "p y" and "y \<notin> set (selected p f limit s)"
  shows "int (length (selected p f limit s)) = limit"
proof (rule ccontr)
  let ?ys = "sort_key f (filter p (dict_values (missions s)))"
  assume "int (length (selected p f limit s)) \<noteq> limit"
  then have "length ?ys < nat limit" using assms(2) by (auto simp: selected_def first_n_def)
  then have "selected p f limit s = ?ys" using assms(2) by (simp add: selected_def first_n_def)
  moreover have "y \<in> set ?ys" using assms(1,3,4) dict_values_in [of "missions s" y] by (auto simp: repo_ok_def)
  ultimately show False using assms(5) by simp
qed

text \<open>C20: recovery takes exactly the processing missions whose claim is at least the timeout old, up
  to the limit and oldest claim first: a stale claim is left out only when the batch is full of
  claims that are at least as old. Each mission taken goes back to waiting, or fails when it is out
  of attempts, its open attempt is closed, and one event is recorded; every other mission is
  untouched, and a mission claimed more recently than the timeout is never taken from its worker.\<close>

theorem recover_stale_contract:
  assumes "repo_ok s" and "ids_ok s" and "0 < limit" and "0 < timeout"
  shows "\<exists>ms rs s'. recover_stale_processing (Aware now) timeout limit s = (Inr rs, s')
     \<and> repo_ok s' \<and> int (length ms) \<le> limit \<and> distinct (map mission_id ms)
     \<and> list_all2 (recovered (Aware now)) ms rs \<and> map mission_id rs = map mission_id ms
     \<and> Ball (set ms) (\<lambda>m. map_of (missions s) (mission_id m) = Some m \<and> status m = Processing
          \<and> the (claimed_at m) + timeout \<le> now)
     \<and> (\<forall>k m u. map_of (missions s) k = Some m \<longrightarrow> status m = Processing \<longrightarrow> claimed_at m = Some u \<longrightarrow>
          u + timeout \<le> now \<longrightarrow> m \<notin> set ms \<longrightarrow>
          int (length ms) = limit \<and> Ball (set ms) (\<lambda>x. the (claimed_at x) \<le> u))
     \<and> Ball (set rs) (\<lambda>r. map_of (missions s') (mission_id r) = Some r \<and> \<not> has_open_attempt (attempts_of s' (mission_id r)))
     \<and> (\<forall>k. map_of (missions s') k = map_of (missions s) k \<or> k \<in> mission_id ` set ms)"
proof -
  let ?p = "is_stale (now - timeout)" and ?f = "\<lambda>m. time_or now (claimed_at m)"
  let ?ms = "selected ?p ?f limit s"
  obtain rs s' where run: "mapE (recover_one (Aware now)) ?ms s = (Inr rs, s')"
    and pr: "processed (recovered (Aware now)) s ?ms rs s'"
    by (rule processed_selected [OF assms(1,2), of ?p "recovered (Aware now)" "recover_one (Aware now)" ?f limit])
       (rule recover_one_step)
  have q: "stale_missions now timeout limit s = ?ms" by (simp add: stale_missions_def selected_def)
  have "recover_stale_processing (Aware now) timeout limit s = (Inr rs, s')"
    using run assms(3,4) by (simp add: recover_stale_processing_def validate_stale_processing_arguments_def
        validate_list_due_arguments_def bindE_def liftE_def gets_def q)
  moreover have stale: "map_of (missions s) (mission_id m) = Some m \<and> status m = Processing
      \<and> the (claimed_at m) + timeout \<le> now" if "m \<in> set ?ms" for m
    using selected_in [OF assms(1) that] by (auto simp: is_stale_def split: option.splits)
  moreover have "int (length ?ms) = limit \<and> Ball (set ?ms) (\<lambda>x. the (claimed_at x) \<le> u)"
    if m: "map_of (missions s) k = Some m" "m \<notin> set ?ms"
      and c: "status m = Processing" "claimed_at m = Some u" "u + timeout \<le> now" for k m u
  proof -
    have p: "?p m" using c by (simp add: is_stale_def)
    have "the (claimed_at x) \<le> u" if x: "x \<in> set ?ms" for x
    proof -
      have "claimed_at x \<noteq> None" using selected_in(2) [OF assms(1) x] by (auto simp: is_stale_def split: option.splits)
      then show ?thesis using selected_first [OF assms(1) x m(1) p m(2)] c(2) by (auto simp: time_or_def)
    qed
    then show ?thesis using selected_full [OF assms(1,3) m(1) p m(2)] by blast
  qed
  moreover have "distinct (map mission_id ?ms)" by (rule selected_distinct [OF assms(1)])
  moreover have "\<not> has_open_attempt (attempts_of s' (mission_id r))" if r: "r \<in> set rs" for r
  proof -
    have "map_of (missions s') (mission_id r) = Some r" "repo_ok s'" using pr r by (simp_all add: processed_def)
    then have "entry_ok (mission_id r) r (attempts_of s' (mission_id r))" by (intro repo_ok_entry)
    moreover obtain m where "recovered (Aware now) m r"
      using list_all2_right [of "recovered (Aware now)" ?ms rs r] pr r unfolding processed_def by blast
    then have "status r \<noteq> Processing" by (simp add: recovered_def)
    ultimately show ?thesis by (simp add: entry_ok_def)
  qed
  moreover have "int (length ?ms) \<le> limit" by (rule selected_length [OF assms(3)])
  ultimately show ?thesis
    using pr unfolding processed_def
    by - (rule exI [of _ ?ms], rule exI [of _ rs], rule exI [of _ s'], intro conjI allI impI; blast?)
qed

definition stale_mission :: mission where
  "stale_mission = (sample_mission Processing)\<lparr>execution_attempts := 1\<rparr>"

definition stale_repo :: mission_repo where
  "stale_repo = (demo_repo stale_mission)\<lparr>attempts := [(7, [claim_attempt 0 (sample_mission Waiting) 50])]\<rparr>"

lemma stale_repo_ok: "repo_ok stale_repo" "ids_ok stale_repo"
proof -
  have "entry_ok 7 stale_mission [claim_attempt 0 (sample_mission Waiting) 50]"
    by (simp add: stale_mission_def entry_ok_def claim_ok_def has_open_attempt_def log_valid_def
                  validate_event_sequence_def claim_attempt_def)
  then show "repo_ok stale_repo"
    by (simp add: repo_ok_def stale_repo_def demo_repo_def stale_mission_def attempts_of_def dict_get_or_def dict_ok_def)
  show "ids_ok stale_repo"
    by (simp add: ids_ok_def stale_repo_def demo_repo_def stale_mission_def inj_def)
qed

theorem recover_stale_contract_witness:
  "\<exists>r s'. recover_stale_processing (Aware 900) 300 5 stale_repo = (Inr [r], s') \<and> repo_ok s'
     \<and> mission_id r = 7 \<and> status r = Waiting \<and> map_of (missions s') 7 = Some r"
proof -
  have m: "map_of (missions stale_repo) k = Some m \<longleftrightarrow> k = 7 \<and> m = stale_mission" for k m
    by (auto simp: stale_repo_def demo_repo_def stale_mission_def)
  have st: "status stale_mission = Processing" "claimed_at stale_mission = Some 0" "mission_id stale_mission = 7"
      "\<not> has_exhausted_attempts stale_mission"
    by (simp_all add: stale_mission_def has_exhausted_attempts_def)
  obtain ms rs s' where run: "recover_stale_processing (Aware 900) 300 5 stale_repo = (Inr rs, s')"
    and ms: "repo_ok s'" "distinct (map mission_id ms)" "list_all2 (recovered (Aware 900)) ms rs"
      "map mission_id rs = map mission_id ms" "\<And>x. x \<in> set ms \<Longrightarrow> map_of (missions stale_repo) (mission_id x) = Some x"
      "\<And>r. r \<in> set rs \<Longrightarrow> map_of (missions s') (mission_id r) = Some r"
    and all: "\<And>k m u. map_of (missions stale_repo) k = Some m \<Longrightarrow> status m = Processing \<Longrightarrow> claimed_at m = Some u \<Longrightarrow>
          u + 300 \<le> 900 \<Longrightarrow> m \<notin> set ms \<Longrightarrow> int (length ms) = 5"
    using recover_stale_contract [OF stale_repo_ok, of 5 300 900] by fastforce
  have sub: "set ms \<subseteq> {stale_mission}" using ms(5) m by blast
  then have "length ms \<le> 1" using ms(2) card_mono [OF _ sub] distinct_card [of ms] by (simp add: distinct_map)
  then have "stale_mission \<in> set ms" using all [of 7 stale_mission 0] m st by auto
  then have "ms = [stale_mission]" using \<open>length ms \<le> 1\<close> by (cases ms) auto
  with ms(3,4,6) run st ms(1) show ?thesis
    by (auto simp: list_all2_Cons1 recovered_def)
qed

section \<open>Expiring\<close>

definition expired_from :: "mission \<Rightarrow> mission \<Rightarrow> bool" where
  "expired_from m m' \<longleftrightarrow> core m' = (core m)\<lparr>status := Expired, claimed_at := None\<rparr>
     \<and> event_types m' = event_types m @ [''mission_expired'']"

lemma expire_one_step:
  assumes "is_expirable b x" and "repo_ok s" and "ids_ok s" and "map_of (missions s) (mission_id x) = Some x"
  shows "steps_one expired_from x (expire_one t x) s"
proof -
  let ?k = "mission_id x" and ?i = "fresh s (tick s)"
  let ?m1 = "x\<lparr>status := Expired, claimed_at := None\<rparr>"
  note entry = repo_ok_entry [OF assms(2,4)]
  have ex: "expires_at x \<noteq> None" and st: "status x \<in> {Created, Waiting, Paused}"
    using assms(1) by (auto simp: is_expirable_def split: option.splits)
  have tr: "transition x Expired None False False = Inr ?m1"
    using st by (intro transition_succeeds) (auto simp: can_transition_def)
  have valid: "log_valid ?m1" using entry by (simp add: entry_ok_def log_valid_def)
  have i: "?i \<noteq> 0" "?i \<notin> event_id ` set (execution_log ?m1)" using assms(3,4) by (auto simp: ids_ok_def)
  let ?meta = "[(''expires_at'', json_of_option (\<lambda>t. JTime (Aware t)) (expires_at ?m1)),
     (''previous_status'', JStr (status_value (status x)))]"
  obtain m' where r: "record_event ?i t ''mission_expired'' ''Mission expired before execution.'' ?meta ?m1 = Inr m'"
    using record_event_succeeds [OF valid i] by blast
  from record_event_cases [OF r] obtain ev where log: "execution_log m' = execution_log ?m1 @ [ev]"
    and m': "m' = ?m1\<lparr>execution_log := execution_log ?m1 @ [ev], last_event_sequence := last_event_sequence ?m1 + 1\<rparr>"
    and id: "event_id ev = ?i" "event_type ev = ''mission_expired''" by metis
  have ev: "execution_log m' = execution_log x @ [ev]" using log by simp
  let ?s2 = "s\<lparr>tick := Suc (tick s), missions := dict_set ?k m' (missions s)\<rparr>"
  have mid: "mission_id m' = ?k" unfolding m' by simp
  have run: "expire_one t x s = (Inr m', ?s2)"
  proof -
    have same: "dict_set ?k m' (dict_set ?k ?m1 (missions s)) = dict_set ?k m' (missions s)" by (rule dict_set_set)
    have "store_mission m' ?s2 = ?s2" by (rule store_same [where k = ?k]) (simp_all add: mid)
    then show ?thesis
      using assms(4) ex r tr same
      by (simp add: expire_one_def bindE_def new_uuid_def on_mission_def thenE_def modify_def ret_def require_def)
  qed
  have closed: "\<not> has_open_attempt (attempts_of s ?k)" using entry st by (auto simp: entry_ok_def)
  have "entry_ok ?k m' (attempts_of s ?k)"
    using entry closed record_event_log_valid [OF valid r] unfolding m' by (simp add: entry_ok_def claim_ok_def)
  then have "repo_ok ?s2"
    by (intro repo_ok_change [OF assms(2), where k = ?k and m = m'])
       (use assms(2) in \<open>simp_all add: repo_ok_def attempts_of_def\<close>)
  moreover have "ids_ok ?s2" using ids_ok_event [OF assms(3,4), of m'] ev id by simp
  moreover have "expired_from x m'"
    using ev id unfolding m' by (auto simp: expired_from_def core_def event_types_def)
  ultimately show ?thesis
    unfolding steps_one_def using run mid by (intro exI [of _ m'] exI [of _ ?s2]) simp
qed

text \<open>Expiry takes the missions whose deadline has passed and that have not been started, at
  most as many as asked for, and each becomes expired with one event and nothing else changed;
  missions being executed, decided ones and all others are untouched.\<close>

theorem expire_due_contract:
  assumes "repo_ok s" and "ids_ok s" and "0 < limit"
  shows "\<exists>ms rs s'. expire_due (Aware now) limit s = (Inr rs, s')
     \<and> repo_ok s' \<and> int (length ms) \<le> limit \<and> list_all2 expired_from ms rs
     \<and> Ball (set ms) (\<lambda>m. map_of (missions s) (mission_id m) = Some m
          \<and> status m \<in> {Created, Waiting, Paused} \<and> the (expires_at m) \<le> now)
     \<and> Ball (set rs) (\<lambda>r. map_of (missions s') (mission_id r) = Some r)
     \<and> (\<forall>k. map_of (missions s') k = map_of (missions s) k \<or> k \<in> mission_id ` set ms)"
proof -
  let ?p = "is_expirable now" and ?f = "\<lambda>m. time_or now (expires_at m)"
  let ?ms = "selected ?p ?f limit s"
  obtain rs s' where run: "mapE (expire_one (Aware now)) ?ms s = (Inr rs, s')"
    and pr: "processed expired_from s ?ms rs s'"
    by (rule processed_selected [OF assms(1,2), of ?p expired_from "expire_one (Aware now)" ?f limit])
       (rule expire_one_step)
  have q: "expirable_missions now limit s = ?ms" by (simp add: expirable_missions_def selected_def)
  have "expire_due (Aware now) limit s = (Inr rs, s')"
    using run assms(3) by (simp add: expire_due_def validate_list_due_arguments_def bindE_def liftE_def gets_def q)
  moreover have "map_of (missions s) (mission_id m) = Some m \<and> status m \<in> {Created, Waiting, Paused}
      \<and> the (expires_at m) \<le> now" if "m \<in> set ?ms" for m
    using selected_in [OF assms(1) that] by (auto simp: is_expirable_def split: option.splits)
  moreover have "int (length ?ms) \<le> limit" by (rule selected_length [OF assms(3)])
  ultimately show ?thesis
    using pr unfolding processed_def
    by - (rule exI [of _ ?ms], rule exI [of _ rs], rule exI [of _ s'], auto)
qed

definition overdue_mission :: mission where
  "overdue_mission = (sample_mission Paused)\<lparr>expires_at := Some 5\<rparr>"

theorem expire_due_contract_witness:
  "\<exists>rs s'. expire_due (Aware 9) 5 (demo_repo overdue_mission) = (Inr rs, s') \<and> repo_ok s'"
proof -
  have "repo_ok (demo_repo overdue_mission)"
    by (rule demo_repo_ok)
       (simp_all add: overdue_mission_def entry_ok_def claim_ok_def has_open_attempt_def log_valid_def validate_event_sequence_def)
  moreover have "ids_ok (demo_repo overdue_mission)" by (simp add: ids_ok_def demo_repo_def overdue_mission_def inj_def)
  ultimately show ?thesis using expire_due_contract [of "demo_repo overdue_mission" 5 9] by auto
qed

end
