(* ===== verification/LifecycleContracts.thy ===== *)
theory LifecycleContracts
  imports Lifecycle Demo
begin

text \<open>
  What the lifecycle services guarantee: every one of them keeps the repository sound or refuses
  without a change, pausing and resuming gives the mission back, and each decides exactly as its
  status guards say.
\<close>

section \<open>All services\<close>

datatype lifecycle_request =
    PauseRequest
  | ResumeRequest
  | ScheduleRequest "datetime option" "datetime option"
  | RetryRequest "datetime option" "datetime option" retry_trigger "string option"
  | UpdateRequest mission_changes
  | ProviderRequest "string option"

fun serve :: "'w registry \<Rightarrow> uuid \<Rightarrow> lifecycle_request \<Rightarrow> ('w sys, exn, mission) prog" where
  "serve r k PauseRequest = pause_mission k"
| "serve r k ResumeRequest = resume_mission k"
| "serve r k (ScheduleRequest t now) = schedule_mission k t now"
| "serve r k (RetryRequest t now trigger reason) = retry_mission k t now trigger reason"
| "serve r k (UpdateRequest c) = update_mission_config k r c"
| "serve r k (ProviderRequest pid) = set_mission_provider k r pid"

lemma serve_wp:
  assumes "repo_ok s" and "ids_ok s" and "W (world s)"
  shows "wp (serve r k q)
     (\<lambda>m s'. \<exists>m0. map_of (missions s) k = Some m0 \<and> finished k W (\<lambda>m. status m \<in> {Created, Waiting, Paused}) m s')
     (refused s) s"
proof (cases q)
  case PauseRequest
  show ?thesis unfolding PauseRequest serve.simps
    by (rule wp_mono [OF pause_wp [where W = W, OF assms]])
       (auto simp: decided_def dest!: core_D(2) elim!: finished_mono)
next
  case ResumeRequest
  show ?thesis unfolding ResumeRequest serve.simps
    by (rule wp_mono [OF resume_wp [where W = W, OF assms]])
       (auto simp: decided_def resume_target_def dest!: core_D(2) elim!: finished_mono split: if_splits)
next
  case (ScheduleRequest t now)
  show ?thesis unfolding ScheduleRequest serve.simps
    by (rule wp_mono [OF schedule_wp [where W = W, OF assms]])
       (auto simp: schedule_result_def scheduled_as_def dest!: core_D(2) elim!: finished_mono
          split: option.splits datetime.splits if_splits)
next
  case (RetryRequest t now trigger reason)
  show ?thesis unfolding RetryRequest serve.simps
    by (rule wp_mono [OF retry_wp [where W = W, OF assms]])
       (auto simp: retried_def dest!: core_D(2) elim!: finished_mono)
next
  case (UpdateRequest c)
  show ?thesis unfolding UpdateRequest serve.simps
    by (rule wp_mono [OF update_config_wp [where W = W, OF assms]])
       (auto simp: configured_def dest!: core_D(2) elim!: finished_mono)
next
  case (ProviderRequest pid)
  show ?thesis unfolding ProviderRequest serve.simps
    by (rule wp_mono [OF set_provider_wp [where W = W, OF assms]])
       (auto simp: reselected_def dest!: core_D(2) elim!: finished_mono)
qed

lemma serve_cases:
  assumes "repo_ok s" and "ids_ok s"
  shows "case serve r k q s of
      (Inl e, s') \<Rightarrow> refused s e s'
    | (Inr m, s') \<Rightarrow> repo_ok s' \<and> ids_ok s' \<and> world s' = world s \<and> map_of (missions s') k = Some m
        \<and> status m \<in> {Created, Waiting, Paused} \<and> map_of (missions s) k \<noteq> None"
  using serve_wp [where W = "\<lambda>w. w = world s" and r = r and k = k and q = q, OF assms refl]
  by (auto simp: wp_def finished_def split: prod.splits sum.splits)

text \<open>C39: each of the six lifecycle services, asked for any mission with any arguments, either
  refuses and leaves missions, attempts and the provider's world as they were, or returns a mission
  that is stored, not under execution, and holds no open attempt, in a repository that is still
  sound. None of them ever calls a provider.\<close>

theorem lifecycle_keeps_ledger:
  assumes "repo_ok s" and "ids_ok s"
  shows "case serve r k q s of
      (Inl e, s') \<Rightarrow> missions s' = missions s \<and> attempts s' = attempts s \<and> world s' = world s
        \<and> repo_ok s' \<and> ids_ok s'
    | (Inr m, s') \<Rightarrow> repo_ok s' \<and> ids_ok s' \<and> world s' = world s \<and> map_of (missions s') k = Some m
        \<and> status m \<in> {Created, Waiting, Paused} \<and> \<not> has_open_attempt (attempts_of s' k)"
proof (cases "serve r k q s")
  case (Pair res s')
  note c = serve_cases [where r = r and k = k and q = q, OF assms, unfolded Pair]
  show ?thesis
  proof (cases res)
    case (Inl e)
    then have f: "refused s e s'" using c by simp
    then show ?thesis using Inl Pair refused_ok [OF f assms] by (simp add: refused_def)
  next
    case (Inr m)
    then have ok: "repo_ok s'" "map_of (missions s') k = Some m" "status m \<in> {Created, Waiting, Paused}"
      using c by simp_all
    have "\<not> has_open_attempt (attempts_of s' k)"
      using repo_ok_entry [OF ok(1,2)] ok(3) by (auto simp: entry_ok_def)
    then show ?thesis using c Inr Pair by simp
  qed
qed

theorem lifecycle_keeps_ledger_witness:
  "case serve booking_registry 7 PauseRequest (demo_sys (sample_mission Waiting)) of
      (Inl e, s') \<Rightarrow> missions s' = missions (demo_sys (sample_mission Waiting))
        \<and> attempts s' = attempts (demo_sys (sample_mission Waiting)) \<and> world s' = world (demo_sys (sample_mission Waiting))
        \<and> repo_ok s' \<and> ids_ok s'
    | (Inr m, s') \<Rightarrow> repo_ok s' \<and> ids_ok s' \<and> world s' = world (demo_sys (sample_mission Waiting))
        \<and> map_of (missions s') 7 = Some m
        \<and> status m \<in> {Created, Waiting, Paused} \<and> \<not> has_open_attempt (attempts_of s' 7)"
  by (rule lifecycle_keeps_ledger [OF demo_sys_ok [of "sample_mission Waiting"]]) (simp_all add: demo_entry_ok)

section \<open>Pausing and resuming\<close>

lemma pause_succeeds:
  assumes "repo_ok s" and "ids_ok s" and "map_of (missions s) k = Some m0" and "status m0 \<in> {Created, Waiting}"
  obtains m s' where "pause_mission k s = (Inr m, s')" and "finished k (\<lambda>w. w = world s) (decided m0 Paused [''mission_paused'']) m s'"
proof -
  from pause_wp [where W = "\<lambda>w. w = world s" and k = k, OF assms(1,2) refl] assms(3,4) that show ?thesis
    by (cases "pause_mission k s") (auto simp: wp_def split: sum.splits)
qed

lemma resume_succeeds:
  assumes "repo_ok s" and "ids_ok s" and "map_of (missions s) k = Some m0" and "status m0 = Paused"
  obtains m s' where "resume_mission k s = (Inr m, s')"
    and "finished k (\<lambda>w. w = world s) (decided m0 (resume_target m0) [''mission_resumed'']) m s'"
proof -
  from resume_wp [where W = "\<lambda>w. w = world s" and k = k, OF assms(1,2) refl] assms(3,4) that show ?thesis
    by (cases "resume_mission k s") (auto simp: wp_def split: sum.splits)
qed

text \<open>Pausing is undone by resuming: a created mission without a schedule or a waiting
  mission with one can be paused, the paused mission can be resumed, and the mission that comes
  back differs from the one paused in two log entries only.\<close>

theorem pause_resume_roundtrip:
  assumes "repo_ok s" and "ids_ok s" and "map_of (missions s) k = Some m0"
    and "status m0 = Created \<and> scheduled_at m0 = None \<or> status m0 = Waiting \<and> scheduled_at m0 \<noteq> None"
  shows "case pause_mission k s of
      (Inl e, s1) \<Rightarrow> False
    | (Inr m1, s1) \<Rightarrow> status m1 = Paused \<and> (case resume_mission k s1 of
          (Inl e, s2) \<Rightarrow> False
        | (Inr m2, s2) \<Rightarrow> map_of (missions s2) k = Some m2
            \<and> m2 = m0\<lparr>execution_log := execution_log m2, last_event_sequence := last_event_sequence m2\<rparr>
            \<and> map event_type (execution_log m2)
                = map event_type (execution_log m0) @ [''mission_paused'', ''mission_resumed''])"
proof -
  have st: "status m0 \<in> {Created, Waiting}" using assms(4) by auto
  have cl: "claimed_at m0 = None" by (rule unclaimed [OF assms(1,3)]) (use st in auto)
  obtain m1 s1 where p: "pause_mission k s = (Inr m1, s1)"
    and f1: "finished k (\<lambda>w. w = world s) (decided m0 Paused [''mission_paused'']) m1 s1"
    by (rule pause_succeeds [OF assms(1-3) st])
  have ok1: "repo_ok s1" "ids_ok s1" "map_of (missions s1) k = Some m1"
    and c1: "core m1 = (core m0)\<lparr>status := Paused, claimed_at := None\<rparr>"
    and e1: "event_types m1 = event_types m0 @ [''mission_paused'']"
    using f1 by (simp_all add: finished_def decided_def)
  have st1: "status m1 = Paused" and sch: "scheduled_at m1 = scheduled_at m0"
    using core_D(2,11) [OF c1] by simp_all
  obtain m2 s2 where r: "resume_mission k s1 = (Inr m2, s2)"
    and f2: "finished k (\<lambda>w. w = world s1) (decided m1 (resume_target m1) [''mission_resumed'']) m2 s2"
    by (rule resume_succeeds [OF ok1 st1])
  have target: "resume_target m1 = status m0" using assms(4) sch by (auto simp: resume_target_def)
  have "core m2 = (core m1)\<lparr>status := status m0, claimed_at := None\<rparr>"
    using f2 target by (simp add: finished_def decided_def)
  then have c2: "core m2 = core m0" using core_unclaimed [OF cl] by (simp add: c1)
  then have m2: "m2 = m0\<lparr>execution_log := execution_log m2, last_event_sequence := last_event_sequence m2\<rparr>"
    by (cases m0; cases m2) (simp add: core_def)
  have "event_types m2 = event_types m0 @ [''mission_paused'', ''mission_resumed'']"
    using f2 e1 by (simp add: finished_def decided_def)
  then show ?thesis using p r st1 f2 m2 by (simp add: finished_def event_types_def)
qed

theorem pause_resume_roundtrip_witness:
  "case pause_mission 7 (demo_sys (sample_mission Created)) of
      (Inl e, s1) \<Rightarrow> False
    | (Inr m1, s1) \<Rightarrow> status m1 = Paused \<and> (case resume_mission 7 s1 of
          (Inl e, s2) \<Rightarrow> False
        | (Inr m2, s2) \<Rightarrow> map_of (missions s2) 7 = Some m2
            \<and> m2 = (sample_mission Created)\<lparr>execution_log := execution_log m2, last_event_sequence := last_event_sequence m2\<rparr>
            \<and> map event_type (execution_log m2)
                = map event_type (execution_log (sample_mission Created)) @ [''mission_paused'', ''mission_resumed''])"
proof (rule pause_resume_roundtrip)
  have m: "mission_id (sample_mission Created) = 7" "execution_log (sample_mission Created) = []"
    by (simp_all add: sample_mission_def)
  show "repo_ok (demo_sys (sample_mission Created))" "ids_ok (demo_sys (sample_mission Created))"
    using demo_sys_ok [OF m(1) _ m(2)] by (simp_all add: demo_entry_ok)
  show "map_of (missions (demo_sys (sample_mission Created))) 7 = Some (sample_mission Created)"
    using demo_sys_mission [of "sample_mission Created"] m(1) by simp
qed (simp add: sample_mission_def)

section \<open>Scheduling and retrying\<close>

text \<open>A mission's schedule changes only while it has not been executed. A given time is
  accepted exactly if it is aware, in the future and not after the expiry; the mission then waits
  for it (or stays paused) and nothing but status, schedule and one log entry changes. Removing
  the schedule of a waiting mission makes it created again. On a refusal no mission changes.\<close>

theorem schedule_mission_contract:
  assumes "repo_ok s" and "ids_ok s"
  shows "case schedule_mission k scheduled current s of
      (Inl e, s') \<Rightarrow> missions s' = missions s \<and> attempts s' = attempts s
    | (Inr m, s') \<Rightarrow> repo_ok s' \<and> map_of (missions s') k = Some m
        \<and> (\<exists>m0. map_of (missions s) k = Some m0 \<and> status m0 \<in> {Created, Waiting, Paused}
            \<and> schedule_result m0 scheduled m)"
  using schedule_wp [where W = "\<lambda>_. True" and k = k and scheduled = scheduled and current = current, OF assms]
  by (auto simp: wp_def finished_def refused_def split: prod.splits sum.splits)

theorem schedule_mission_contract_witness:
  "case schedule_mission 7 (Some (Aware 50)) (Some (Aware 10)) (demo_sys (sample_mission Created)) of
      (Inl e, s') \<Rightarrow> missions s' = missions (demo_sys (sample_mission Created))
        \<and> attempts s' = attempts (demo_sys (sample_mission Created))
    | (Inr m, s') \<Rightarrow> repo_ok s' \<and> map_of (missions s') 7 = Some m
        \<and> (\<exists>m0. map_of (missions (demo_sys (sample_mission Created))) 7 = Some m0 \<and> status m0 \<in> {Created, Waiting, Paused}
            \<and> schedule_result m0 (Some (Aware 50)) m)"
  by (rule schedule_mission_contract [OF demo_sys_ok [of "sample_mission Created"]]) (simp_all add: demo_entry_ok)

text \<open>Only a failed mission that has an attempt left is retried, at a time that is not in the
  past: it waits for that time with provider, reservation and option forgotten, so that the next
  execution starts afresh, its attempt counter unchanged. On a refusal no mission changes.\<close>

theorem retry_mission_contract:
  assumes "repo_ok s" and "ids_ok s"
  shows "case retry_mission k retry_at current trigger reason s of
      (Inl e, s') \<Rightarrow> missions s' = missions s \<and> attempts s' = attempts s
    | (Inr m, s') \<Rightarrow> repo_ok s' \<and> map_of (missions s') k = Some m
        \<and> (\<exists>m0 t now. map_of (missions s) k = Some m0 \<and> status m0 = Failed
            \<and> execution_attempts m0 < max_execution_attempts m0 \<and> now \<le> t
            \<and> (retry_at = None \<and> t = now \<or> retry_at = Some (Aware t))
            \<and> (current = None \<or> current = Some (Aware now))
            \<and> retried m0 t m)"
proof -
  note w = retry_wp [where W = "\<lambda>_. True" and k = k and retry_at = retry_at and current = current
    and trigger = trigger and reason = reason, OF assms]
  show ?thesis
  proof (cases "retry_mission k retry_at current trigger reason s")
    case (Pair res s')
    show ?thesis
    proof (cases res)
      case (Inl e)
      with w Pair have "refused s e s'" by (simp add: wp_def)
      then show ?thesis using Pair Inl by (simp add: refused_def)
    next
      case (Inr m)
      with w Pair obtain m0 t now where x: "map_of (missions s) k = Some m0" "status m0 = Failed"
          "execution_attempts m0 < max_execution_attempts m0" "now \<le> t"
          "retry_at = None \<and> t = now \<or> retry_at = Some (Aware t)"
          "current = None \<or> current = Some (Aware now)" "finished k (\<lambda>_. True) (retried m0 t) m s'"
        by (auto simp: wp_def)
      then have "repo_ok s' \<and> map_of (missions s') k = Some m \<and> retried m0 t m" by (simp add: finished_def)
      then show ?thesis unfolding Pair Inr prod.case sum.case using x(1-6) by metis
    qed
  qed
qed

theorem retry_mission_contract_witness:
  "case retry_mission 7 (Some (Aware 50)) (Some (Aware 10)) Manual None (demo_sys (sample_mission Failed)) of
      (Inl e, s') \<Rightarrow> missions s' = missions (demo_sys (sample_mission Failed))
        \<and> attempts s' = attempts (demo_sys (sample_mission Failed))
    | (Inr m, s') \<Rightarrow> repo_ok s' \<and> map_of (missions s') 7 = Some m
        \<and> (\<exists>m0 t now. map_of (missions (demo_sys (sample_mission Failed))) 7 = Some m0 \<and> status m0 = Failed
            \<and> execution_attempts m0 < max_execution_attempts m0 \<and> now \<le> t
            \<and> (Some (Aware 50) = None \<and> t = now \<or> Some (Aware 50) = Some (Aware t))
            \<and> (Some (Aware 10) = None \<or> Some (Aware 10) = Some (Aware now))
            \<and> retried m0 t m)"
  by (rule retry_mission_contract [OF demo_sys_ok [of "sample_mission Failed"]]) (simp_all add: demo_entry_ok)

lemma retry_succeeds:
  assumes "repo_ok s" and "ids_ok s" and "W (world s)" and m: "map_of (missions s) k = Some m0"
    and st: "status m0 = Failed" and "\<not> has_exhausted_attempts m0" and "now \<le> t"
  shows "wp (retry_mission k (Some (Aware t)) (Some (Aware now)) trigger reason) (finished k W (retried m0 t)) E s"
proof -
  have "wp (schedule_retry k m0 (Aware t) (Aware now) trigger reason) (finished k W (retried m0 t)) E s"
    by (rule schedule_retry_wp) (use initial_exec [where W = W, OF assms(1-3) m] st in simp_all)
  then have "wp (with_mission k (\<lambda>m.
         if status m \<noteq> Failed then raise (MissionRetryNotAllowedError (status m))
         else if has_exhausted_attempts m then raise MissionAttemptsExhaustedError
         else schedule_retry k m (Aware t) (Aware now) trigger reason)) (finished k W (retried m0 t)) E s"
    using m st assms(6) by (simp add: with_mission_def get_mission_def wp_bindE wp_gets)
  then show ?thesis
    using assms(7) by (simp add: retry_mission_def time_or_now_def wp_bindE wp_ret wp_thenE wp_require Let_def)
qed

text \<open>Unlike scheduling, a retry does not look at the expiry: asked for a time after it, the
  retry of a failed mission returns and stores a mission whose schedule is after its expiry, which
  the validator of \<open>Mission\<close> refuses.\<close>

theorem retry_ignores_expiry:
  assumes "repo_ok s" and "ids_ok s" and "map_of (missions s) k = Some m0" and "status m0 = Failed"
    and "execution_attempts m0 < max_execution_attempts m0" and "expires_at m0 = Some e" and "e < t" and "now \<le> t"
  shows "case retry_mission k (Some (Aware t)) (Some (Aware now)) trigger reason s of
      (Inl err, s') \<Rightarrow> False
    | (Inr m, s') \<Rightarrow> map_of (missions s') k = Some m \<and> scheduled_at m = Some t \<and> expires_at m = Some e
        \<and> \<not> mission_fields_ok m"
proof -
  have "\<not> has_exhausted_attempts m0" using assms(5) by (simp add: has_exhausted_attempts_def)
  then have w: "wp (retry_mission k (Some (Aware t)) (Some (Aware now)) trigger reason)
      (finished k (\<lambda>_. True) (retried m0 t)) (\<lambda>_ _. False) s"
    by (intro retry_succeeds assms(1,2,3,4,8) TrueI)
  have late: "scheduled_at m = Some t \<and> expires_at m = Some e \<and> \<not> mission_fields_ok m" if "retried m0 t m" for m
  proof -
    have "scheduled_at m = Some t" "expires_at m = Some e"
      using that assms(6) by (auto simp: retried_def dest: core_D(11,12))
    then show ?thesis using assms(7) by (simp add: mission_fields_ok_def)
  qed
  show ?thesis
    using w by (auto simp: wp_def finished_def late split: prod.splits sum.splits)
qed

theorem retry_ignores_expiry_witness:
  "case retry_mission 7 (Some (Aware 9)) (Some (Aware 1)) Manual None (demo_sys ((sample_mission Failed)\<lparr>expires_at := Some 5\<rparr>)) of
      (Inl err, s') \<Rightarrow> False
    | (Inr m, s') \<Rightarrow> map_of (missions s') 7 = Some m \<and> scheduled_at m = Some 9 \<and> expires_at m = Some 5
        \<and> \<not> mission_fields_ok m"
proof (rule retry_ignores_expiry)
  let ?m = "(sample_mission Failed)\<lparr>expires_at := Some 5\<rparr>"
  have m: "mission_id ?m = 7" "execution_log ?m = []"
    by (simp_all add: sample_mission_def)
  have e: "entry_ok 7 ?m []"
    by (simp add: entry_ok_def claim_ok_def has_open_attempt_def log_valid_def validate_event_sequence_def sample_mission_def)
  show "repo_ok (demo_sys ?m)" "ids_ok (demo_sys ?m)" using demo_sys_ok [OF m(1) e m(2)] .
  show "map_of (missions (demo_sys ?m)) 7 = Some ?m" using demo_sys_mission [of ?m] m(1) by simp
qed (simp_all add: sample_mission_def)

end
