(* ===== verification/DueProcessor.thy ===== *)
theory DueProcessor
  imports RunFrame LifecycleContracts ClaimContracts EngineContracts
begin

text \<open>
  The retry policy (\<open>app/services/mission_retry_policy.py\<close>), the batch processor of due missions
  (\<open>due_mission_processor.py\<close>), and the polling loop around it (\<open>mission_worker.py\<close>).
\<close>

section \<open>Retry policy\<close>

record retry_policy =
  initial_delay :: timedelta
  maximum_delay :: timedelta
  multiplier :: int

definition make_retry_policy :: "timedelta \<Rightarrow> timedelta \<Rightarrow> int \<Rightarrow> exn + retry_policy" where
  "make_retry_policy init maxi factor =
     (if init \<le> 0 then Inl (ValueError ''initial_delay must be greater than zero'')
      else if maxi < init then Inl (ValueError ''maximum_delay must be greater than or equal to initial_delay'')
      else if factor < 1 then Inl (ValueError ''multiplier must be at least one'')
      else Inr \<lparr>initial_delay = init, maximum_delay = maxi, multiplier = factor\<rparr>)"

definition default_mission_retry_policy :: retry_policy where
  "default_mission_retry_policy =
     \<lparr>initial_delay = seconds 30, maximum_delay = seconds (15 * 60), multiplier = 2\<rparr>"

text \<open>The body of the loop in \<open>delay_after_attempt\<close>, run \<open>n\<close> times.\<close>

fun delay_loop :: "retry_policy \<Rightarrow> nat \<Rightarrow> timedelta \<Rightarrow> timedelta" where
  "delay_loop p 0 delay = delay"
| "delay_loop p (Suc n) delay = delay_loop p n (min (delay * multiplier p) (maximum_delay p))"

definition delay_after_attempt :: "retry_policy \<Rightarrow> int \<Rightarrow> exn + timedelta" where
  "delay_after_attempt p number =
     (if number < 1 then Inl (ValueError ''attempt_number must be at least one'')
      else Inr (delay_loop p (nat (number - 1)) (initial_delay p)))"

definition should_retry_mission :: "mission \<Rightarrow> bool" where
  "should_retry_mission m \<longleftrightarrow>
     (if has_exhausted_attempts m \<or> execution_log m = [] then False
      else (let event = last (execution_log m) in
        event_type event = ''no_valid_option_found''
        \<or> (event_type event = ''provider_operation_failed''
            \<and> map_of (event_metadata event) ''retryable'' = Some (JBool True))))"

text \<open>\<open>isinstance(error, (ConnectionError, TimeoutError))\<close>, with \<open>type(error).__name__\<close>.\<close>

fun should_retry_exception :: "exn \<Rightarrow> string option" where
  "should_retry_exception ConnectionError = Some ''ConnectionError''"
| "should_retry_exception TimeoutError = Some ''TimeoutError''"
| "should_retry_exception _ = None"

definition policy_ok :: "retry_policy \<Rightarrow> bool" where
  "policy_ok p \<longleftrightarrow> 0 < initial_delay p \<and> initial_delay p \<le> maximum_delay p \<and> 1 \<le> multiplier p"

lemma make_retry_policy_ok: "make_retry_policy i mx mu = Inr p \<Longrightarrow> policy_ok p"
  by (auto simp: make_retry_policy_def policy_ok_def split: if_splits)

lemma delay_loop_closed:
  assumes "1 \<le> multiplier p" and "0 < d" and "d \<le> maximum_delay p"
  shows "delay_loop p n d = min (d * multiplier p ^ n) (maximum_delay p)"
  using assms(2,3)
proof (induction n arbitrary: d)
  case 0
  then show ?case by simp
next
  case (Suc n)
  let ?m = "multiplier p" and ?x = "maximum_delay p"
  have pos: "0 < d * ?m" using Suc.prems(1) assms(1) by simp
  have pw: "1 \<le> ?m ^ n" using assms(1) by (rule one_le_power)
  show ?case
  proof (cases "d * ?m \<le> ?x")
    case True
    with Suc.IH [OF pos] show ?thesis by (simp add: mult.assoc)
  next
    case False
    have x: "0 < ?x" using Suc.prems by simp
    have "?x * 1 \<le> ?x * ?m ^ n" using x pw by (intro mult_left_mono) simp_all
    moreover have "?x \<le> d * ?m * ?m ^ n"
    proof -
      have "d * ?m * 1 \<le> d * ?m * ?m ^ n" using pos pw by (intro mult_left_mono) simp_all
      then show ?thesis using False by simp
    qed
    ultimately show ?thesis using False Suc.IH [OF x order.refl] by (simp add: mult.assoc)
  qed
qed

text \<open>For every policy its constructor accepts, the delay after attempt \<open>n\<close> is the initial
  delay times the multiplier to the power \<open>n - 1\<close>, cut off at the maximum; so it lies between the
  initial and the maximum delay and never shrinks from one attempt to the next. An attempt number
  below one is refused.\<close>

theorem retry_delay_bounds:
  assumes "make_retry_policy init maxi factor = Inr p" and "1 \<le> n" and "n \<le> n'"
  shows "\<exists>d d'. delay_after_attempt p n = Inr d \<and> delay_after_attempt p n' = Inr d'
     \<and> d = min (init * factor ^ nat (n - 1)) maxi
     \<and> init \<le> d \<and> d \<le> d' \<and> d' \<le> maxi
     \<and> delay_after_attempt p (1 - n) = Inl (ValueError ''attempt_number must be at least one'')"
proof -
  have p: "p = \<lparr>initial_delay = init, maximum_delay = maxi, multiplier = factor\<rparr>"
    and ok: "0 < init" "init \<le> maxi" "1 \<le> factor"
    using assms(1) by (auto simp: make_retry_policy_def split: if_splits)
  have d: "delay_after_attempt p i = Inr (min (init * factor ^ nat (i - 1)) maxi)" if "1 \<le> i" for i
    using that ok delay_loop_closed [of p init "nat (i - 1)"] by (simp add: delay_after_attempt_def p)
  have "1 \<le> factor ^ nat (n - 1)" using ok(3) by (rule one_le_power)
  then have "init * 1 \<le> init * factor ^ nat (n - 1)" using ok(1) by (intro mult_left_mono) simp_all
  moreover have "init * factor ^ nat (n - 1) \<le> init * factor ^ nat (n' - 1)"
    using ok assms(2,3) by (intro mult_left_mono power_increasing) simp_all
  moreover have "delay_after_attempt p (1 - n) = Inl (ValueError ''attempt_number must be at least one'')"
    using assms(2) by (simp add: delay_after_attempt_def)
  ultimately show ?thesis
    using d [of n] d [of n'] assms(2,3) ok(2) by auto
qed

theorem retry_delay_bounds_witness:
  "delay_after_attempt default_mission_retry_policy 3 = Inr (seconds 120)"
proof -
  have "make_retry_policy (seconds 30) (seconds 900) 2 = Inr default_mission_retry_policy"
    by (simp add: make_retry_policy_def default_mission_retry_policy_def seconds_def)
  from retry_delay_bounds [OF this, of 3 3] obtain d
    where "delay_after_attempt default_mission_retry_policy 3 = Inr d" "d = min (seconds 30 * 2 ^ nat (3 - 1)) (seconds 900)"
    by auto
  then show ?thesis by (simp add: seconds_def)
qed

section \<open>Batch processing\<close>

record due_result =
  processed_count :: int
  expired_mission_ids :: "uuid list"
  succeeded_mission_ids :: "uuid list"
  failed_mission_ids :: "uuid list"
  retry_scheduled_mission_ids :: "uuid list"
  result_errors :: "(uuid, exn) dict"

text \<open>The text \<open>str(exc)\<close> that ends the value of \<open>result_errors\<close> is represented by the exception.\<close>

definition record_terminal_failure :: "uuid \<Rightarrow> mission \<Rightarrow> datetime \<Rightarrow> ('w sys, exn, mission) prog" where
  "record_terminal_failure k m now =
     thenE (record_live k now ''mission_failed'' ''Mission execution ended without another retry.''
        [(''reason'', JStr (if execution_log m \<noteq> [] then event_type (last (execution_log m)) else ''unknown'')),
         (''execution_attempts'', JInt (execution_attempts m)),
         (''max_execution_attempts'', JInt (max_execution_attempts m)),
         (''attempts_exhausted'', JBool (has_exhausted_attempts m))])
     (update_live k)"

definition mark_claimed_mission_failed :: "mission \<Rightarrow> exn \<Rightarrow> ('w sys, exn, mission) prog" where
  "mark_claimed_mission_failed m e =
     bindE (get_mission (mission_id m)) (\<lambda>stored.
       case stored of
         Some _ \<Rightarrow>
           thenE (assign_live (mission_id m) (\<lambda>m. m\<lparr>status := Failed, claimed_at := None\<rparr>))
           (thenE (add_event (mission_id m) ''mission_processing_failed'' ''Mission processing failed.'' [(''message'', JText e)])
           (update_live (mission_id m)))
       | None \<Rightarrow>
           bindE utc_now (\<lambda>t.
           bindE new_uuid (\<lambda>eid.
           bindE (liftE (record_event eid t ''mission_processing_failed'' ''Mission processing failed.'' [(''message'', JText e)]
              (m\<lparr>status := Failed, claimed_at := None\<rparr>))) update_mission)))"

text \<open>\<open>min(retry_at, mission.expires_at)\<close>: comparing with a naive time raises.\<close>

definition cap_at_expiry :: "datetime \<Rightarrow> mission \<Rightarrow> exn + datetime" where
  "cap_at_expiry retry_at m =
     (case expires_at m of
        None \<Rightarrow> Inr retry_at
      | Some e \<Rightarrow> (case retry_at of Naive _ \<Rightarrow> Inl TypeError | Aware t \<Rightarrow> Inr (Aware (min t e))))"

definition schedule_automatic_retry :: "mission \<Rightarrow> datetime \<Rightarrow> retry_policy \<Rightarrow> string \<Rightarrow> ('w sys, exn, mission) prog" where
  "schedule_automatic_retry m now policy reason =
     bindE (liftE (delay_after_attempt policy (execution_attempts m))) (\<lambda>delay.
     bindE (liftE (cap_at_expiry (plus_delay now delay) m)) (\<lambda>retry_at.
     retry_mission (mission_id m) (Some retry_at) (Some now) AutomaticTrigger (Some reason)))"

text \<open>The \<open>except Exception\<close> part of the loop; the three exceptions of \<open>ProcessExit\<close> pass.\<close>

definition processing_raised ::
  "datetime \<Rightarrow> retry_policy \<Rightarrow> mission \<Rightarrow> due_result \<Rightarrow> exn \<Rightarrow> ('w sys, exn, due_result) prog" where
  "processing_raised now policy m res e =
     (if e = ProcessExit then raise e
      else
        bindE (mark_claimed_mission_failed m e) (\<lambda>failed.
        let res = res\<lparr>result_errors := dict_set (mission_id m) e (result_errors res)\<rparr> in
        (case should_retry_exception e of
           Some reason \<Rightarrow>
             thenE (schedule_automatic_retry failed now policy reason)
               (ret (res\<lparr>retry_scheduled_mission_ids := retry_scheduled_mission_ids res @ [mission_id m]\<rparr>))
         | None \<Rightarrow> ret (res\<lparr>failed_mission_ids := failed_mission_ids res @ [mission_id m]\<rparr>))))"

definition processing_returned ::
  "datetime \<Rightarrow> retry_policy \<Rightarrow> due_result \<Rightarrow> mission \<Rightarrow> ('w sys, exn, due_result) prog" where
  "processing_returned now policy res m =
     (if status m \<in> {RequiresConfirmation, Completed}
      then ret (res\<lparr>succeeded_mission_ids := succeeded_mission_ids res @ [mission_id m]\<rparr>)
      else if status m = Failed then
        (if should_retry_mission m then
           thenE (schedule_automatic_retry m now policy (event_type (last (execution_log m))))
             (ret (res\<lparr>retry_scheduled_mission_ids := retry_scheduled_mission_ids res @ [mission_id m]\<rparr>))
         else
           thenE (record_terminal_failure (mission_id m) m now)
             (ret (res\<lparr>failed_mission_ids := failed_mission_ids res @ [mission_id m]\<rparr>)))
      else ret res)"

definition process_one ::
  "'w registry \<Rightarrow> datetime \<Rightarrow> retry_policy \<Rightarrow> mission \<Rightarrow> due_result \<Rightarrow> ('w sys, exn, due_result) prog" where
  "process_one registry now policy m res =
     tryElse (run_mission (mission_id m) registry (Some now) True)
       (processing_raised now policy m res)
       (processing_returned now policy res)"

fun process_claimed ::
  "'w registry \<Rightarrow> datetime \<Rightarrow> retry_policy \<Rightarrow> mission list \<Rightarrow> due_result \<Rightarrow> ('w sys, exn, due_result) prog" where
  "process_claimed registry now policy [] res = ret res"
| "process_claimed registry now policy (m # ms) res =
     bindE (process_one registry now policy m res) (process_claimed registry now policy ms)"

definition start_result :: "mission list \<Rightarrow> mission list \<Rightarrow> due_result" where
  "start_result expired taken =
     \<lparr>processed_count = int (length taken), expired_mission_ids = map mission_id expired,
      succeeded_mission_ids = [], failed_mission_ids = [], retry_scheduled_mission_ids = [], result_errors = []\<rparr>"

definition process_due_missions ::
  "'w registry \<Rightarrow> datetime \<Rightarrow> int \<Rightarrow> retry_policy \<Rightarrow> ('w sys, exn, due_result) prog" where
  "process_due_missions registry now limit policy =
     bindE (expire_due_missions now limit) (\<lambda>expired.
     bindE (claim_due now limit) (\<lambda>taken.
     process_claimed registry now policy taken (start_result expired taken)))"

section \<open>What processing a claimed mission guarantees\<close>

definition filed :: "uuid \<Rightarrow> due_result \<Rightarrow> due_result \<Rightarrow> mission_status \<Rightarrow> bool" where
  "filed k res res' st \<longleftrightarrow>
     processed_count res' = processed_count res \<and> expired_mission_ids res' = expired_mission_ids res
     \<and> (st \<in> {RequiresConfirmation, Completed}
          \<and> succeeded_mission_ids res' = succeeded_mission_ids res @ [k]
          \<and> failed_mission_ids res' = failed_mission_ids res
          \<and> retry_scheduled_mission_ids res' = retry_scheduled_mission_ids res
        \<or> st = Failed
          \<and> succeeded_mission_ids res' = succeeded_mission_ids res
          \<and> failed_mission_ids res' = failed_mission_ids res @ [k]
          \<and> retry_scheduled_mission_ids res' = retry_scheduled_mission_ids res
        \<or> st = Waiting
          \<and> succeeded_mission_ids res' = succeeded_mission_ids res
          \<and> failed_mission_ids res' = failed_mission_ids res
          \<and> retry_scheduled_mission_ids res' = retry_scheduled_mission_ids res @ [k])"

text \<open>The state after one mission: sound, with only that mission changed, and it is stored in a
  status that satisfies \<open>P\<close>.\<close>

definition settled :: "uuid \<Rightarrow> (mission_status \<Rightarrow> bool) \<Rightarrow> 'w sys \<Rightarrow> 'w sys \<Rightarrow> bool" where
  "settled k P s0 s \<longleftrightarrow> repo_ok s \<and> ids_ok s \<and> others k s0 s
     \<and> (\<exists>m. map_of (missions s) k = Some m \<and> P (status m))"

definition stopped :: "uuid \<Rightarrow> 'w sys \<Rightarrow> exn \<Rightarrow> 'w sys \<Rightarrow> bool" where
  "stopped k s0 e s \<longleftrightarrow> repo_mid k s \<and> ids_ok s \<and> others k s0 s
     \<and> (e \<noteq> ProcessExit \<longrightarrow> settled k (\<lambda>st. st = Failed) s0 s)"

lemma settled_stopped: "settled k (\<lambda>st. st = Failed) s0 s \<Longrightarrow> stopped k s0 e s"
  by (simp add: stopped_def settled_def repo_ok_mid)

lemma keeps_others:
  assumes "wp p Q E s" and "keeps (others k s0) p" and "others k s0 s"
  shows "wp p (\<lambda>x s'. Q x s' \<and> others k s0 s') (\<lambda>e s'. E e s' \<and> others k s0 s') s"
  using assms(1) keeps_wp [OF assms(2,3)] by (auto simp: wp_def split: prod.splits sum.splits)

lemma interrupted_exec:
  assumes "interrupted k W s" and "map_of (missions s) k = Some m"
  shows "exec k W (has_open_attempt (attempts_of s k)) (core m) (event_types m) s"
  using assms by (simp add: interrupted_def exec_def at_def)

lemma mark_failed_wp:
  assumes "interrupted k (\<lambda>_. True) s" and "others k s0 s" and "map_of (missions s) k \<noteq> None" and "mission_id m = k"
  shows "wp (mark_claimed_mission_failed m e)
     (\<lambda>m' s'. finished k (\<lambda>_. True) (\<lambda>m'. status m' = Failed \<and> mission_id m' = k) m' s' \<and> others k s0 s') E s"
proof -
  obtain m1 where m1: "map_of (missions s) k = Some m1" using assms(3) by auto
  let ?f = "\<lambda>m. m\<lparr>status := Failed, claimed_at := None\<rparr>"
  let ?c = "core m1" and ?ts = "event_types m1" and ?opn = "has_open_attempt (attempts_of s k)"
  let ?P = "\<lambda>m'. status m' = Failed \<and> mission_id m' = k"
  have id: "mission_id m1 = k" using assms(2) m1 by (simp add: others_def)
  let ?p = "thenE (assign_live k ?f) (thenE (add_event k ''mission_processing_failed'' ''Mission processing failed.'' [(''message'', JText e)])
      (update_live k))"
  have run: "wp ?p (finished k (\<lambda>_. True) ?P) (\<lambda>_ _. False) s"
    unfolding wp_thenE
  proof (rule exec_assign [OF interrupted_exec [OF assms(1) m1]])
    fix m' as assume "mid_ok k m' as"
    then show "mid_ok k (?f m') as" by (rule mid_ok_status) simp_all
  next
    fix m' s1 assume "exec k (\<lambda>_. True) ?opn (?f ?c) ?ts s1"
    then show "wp (add_event k ''mission_processing_failed'' ''Mission processing failed.'' [(''message'', JText e)])
       (\<lambda>_. wp (update_live k) (finished k (\<lambda>_. True) ?P) (\<lambda>_ _. False)) (\<lambda>_ _. False) s1"
    proof (rule exec_add_event)
      fix m' s2 assume "exec k (\<lambda>_. True) ?opn (?f ?c) (?ts @ [''mission_processing_failed'']) s2"
      then show "wp (update_live k) (finished k (\<lambda>_. True) ?P) (\<lambda>_ _. False) s2"
        by (rule exec_update) (simp, rule exec_finished, assumption+, frule core_D(1), drule core_D(2), simp add: id)
    qed
  qed (simp_all add: core_def)
  have "keeps (others k s0) ?p" by (intro keeps_intro keeps_assign) (simp add: quota_def)
  from keeps_others [OF run this assms(2)]
  have "wp ?p (\<lambda>m' s'. finished k (\<lambda>_. True) ?P m' s' \<and> others k s0 s') E s"
    by (rule wp_mono) (assumption, erule conjunct1 [THEN FalseE])
  then show ?thesis
    using m1 by (simp only: mark_claimed_mission_failed_def get_mission_def wp_bindE wp_gets assms(4) option.case)
qed

lemma automatic_retry_wp:
  assumes "finished k (\<lambda>_. True) (\<lambda>m'. status m' = Failed \<and> mission_id m' = k) m s" and "others k s0 s"
  shows "wp (schedule_automatic_retry m now policy reason)
     (\<lambda>_. settled k (\<lambda>st. st = Waiting) s0) (\<lambda>e. settled k (\<lambda>st. st = Failed) s0) s"
proof -
  have ok: "repo_ok s" "ids_ok s" and m: "map_of (missions s) k = Some m" "status m = Failed" "mission_id m = k"
    using assms(1) by (simp_all add: finished_def)
  have here: "settled k (\<lambda>st. st = Failed) s0 s" using ok m assms(2) by (simp add: settled_def)
  have retry: "wp (retry_mission k t (Some now) AutomaticTrigger (Some reason))
     (\<lambda>_. settled k (\<lambda>st. st = Waiting) s0) (\<lambda>e. settled k (\<lambda>st. st = Failed) s0) s" for t
  proof (rule wp_mono [OF keeps_others [OF retry_wp [where W = "\<lambda>_. True", OF ok TrueI] keeps_retry_mission assms(2)]])
    fix m' s' assume x: "(\<exists>m0 ta na. map_of (missions s) k = Some m0 \<and> status m0 = Failed
        \<and> execution_attempts m0 < max_execution_attempts m0 \<and> na \<le> ta
        \<and> (t = None \<and> ta = na \<or> t = Some (Aware ta))
        \<and> (Some now = None \<or> Some now = Some (Aware na))
        \<and> finished k (\<lambda>_. True) (retried m0 ta) m' s') \<and> others k s0 s'"
    then obtain m0 ta where "finished k (\<lambda>_. True) (retried m0 ta) m' s'" by blast
    then show "settled k (\<lambda>st. st = Waiting) s0 s'"
      using x by (auto simp: finished_def settled_def retried_def dest!: core_D(2))
  next
    fix e s' assume x: "refused s e s' \<and> others k s0 s'"
    then have "missions s' = missions s" by (simp add: refused_def)
    then show "settled k (\<lambda>st. st = Failed) s0 s'"
      using x refused_ok [OF _ ok, of e s'] m by (simp add: settled_def)
  qed
  show ?thesis
    using here retry by (simp add: schedule_automatic_retry_def wp_bindE wp_liftE m(3) split: sum.split)
qed

lemma terminal_failure_wp:
  assumes "finished k (\<lambda>_. True) (\<lambda>m'. status m' = Failed \<and> mission_id m' = k) m s" and "others k s0 s"
  shows "wp (record_terminal_failure k m now) (\<lambda>_. settled k (\<lambda>st. st = Failed) s0) (\<lambda>e. settled k (\<lambda>st. st = Failed) s0) s"
proof -
  have ok: "repo_ok s" "ids_ok s" and m: "map_of (missions s) k = Some m" "status m = Failed" "mission_id m = k"
    using assms(1) by (simp_all add: finished_def)
  have x: "exec k (\<lambda>_. True) False (core m) (event_types m) s"
    using initial_exec [where W = "\<lambda>_. True", OF ok TrueI m(1)] m(2) by simp
  have "wp (record_terminal_failure k m now) (finished k (\<lambda>_. True) (\<lambda>m'. core m' = core m)) (\<lambda>_ _. False) s"
    unfolding record_terminal_failure_def by (rule record_update_wp [OF x])
  moreover have "keeps (others k s0) (record_terminal_failure k m now)"
    unfolding record_terminal_failure_def by (intro keeps_intro)
  ultimately show ?thesis
  proof (rule wp_mono [OF keeps_others [OF _ _ assms(2)]])
    fix m' s' assume "finished k (\<lambda>_. True) (\<lambda>m'. core m' = core m) m' s' \<and> others k s0 s'"
    then show "settled k (\<lambda>st. st = Failed) s0 s'"
      using m(2) by (auto simp: finished_def settled_def dest!: core_D(2))
  qed blast
qed

lemma process_one_wp:
  assumes "repo_ok s" and "ids_ok s" and "mission_id m = k" and "map_of (missions s) k \<noteq> None"
  shows "wp (process_one r now policy m res)
     (\<lambda>res' s'. \<exists>st. settled k (\<lambda>st'. st' = st) s s' \<and> filed k res res' st) (stopped k s) s"
proof -
  let ?Q = "\<lambda>res' s'. \<exists>st. settled k (\<lambda>st'. st' = st) s s' \<and> filed k res res' st"
  have run: "wp (run_mission k r (Some now) True)
     (\<lambda>m s'. \<exists>m0. map_of (missions s) k = Some m0 \<and> finished k (\<lambda>_. True) (run_returns r m0) m s')
     (\<lambda>_. interrupted k (\<lambda>_. True)) s"
    by (rule run_mission_wp [OF assms(1,2)]) (simp_all add: calls_keep_True)
  have failed: "wp (thenE (schedule_automatic_retry m' now policy reason)
      (ret (res2\<lparr>retry_scheduled_mission_ids := retry_scheduled_mission_ids res2 @ [k]\<rparr>))) ?Q (stopped k s) s'"
    if "finished k (\<lambda>_. True) (\<lambda>m'. status m' = Failed \<and> mission_id m' = k) m' s'" and "others k s s'"
      and "filed k res (res2\<lparr>retry_scheduled_mission_ids := retry_scheduled_mission_ids res2 @ [k]\<rparr>) Waiting"
    for m' s' reason and res2 :: due_result
    unfolding wp_thenE
    by (rule wp_mono [OF automatic_retry_wp [OF that(1,2)]])
       (use that(3) settled_stopped in \<open>auto simp: wp_ret\<close>)
  have raised: "wp (processing_raised now policy m res e) ?Q (stopped k s) s'"
    if "interrupted k (\<lambda>_. True) s'" and "others k s s'" for e s'
  proof (cases "e = ProcessExit")
    case True
    then show ?thesis using that by (simp add: processing_raised_def wp_raise stopped_def interrupted_def)
  next
    case False
    have "map_of (missions s') k \<noteq> None" using others_exists [OF that(2)] assms(4) by simp
    note mark = mark_failed_wp [OF that this assms(3), where e = e and E = "stopped k s"]
    let ?res = "res\<lparr>result_errors := dict_set k e (result_errors res)\<rparr>"
    have "wp (processing_raised now policy m res e) ?Q (stopped k s) s' \<longleftrightarrow>
      wp (mark_claimed_mission_failed m e) (\<lambda>failed. wp (case should_retry_exception e of
           Some reason \<Rightarrow> thenE (schedule_automatic_retry failed now policy reason)
               (ret (?res\<lparr>retry_scheduled_mission_ids := retry_scheduled_mission_ids ?res @ [k]\<rparr>))
         | None \<Rightarrow> ret (?res\<lparr>failed_mission_ids := failed_mission_ids ?res @ [k]\<rparr>)) ?Q (stopped k s)) (stopped k s) s'"
      unfolding processing_raised_def if_not_P [OF False] wp_bindE Let_def assms(3) ..
    also have "\<dots>"
    proof (rule wp_mono [OF mark])
      fix m' s2
      assume f: "finished k (\<lambda>_. True) (\<lambda>m'. status m' = Failed \<and> mission_id m' = k) m' s2 \<and> others k s s2"
      have set2: "settled k (\<lambda>st. st = Failed) s s2" using f by (auto simp: finished_def settled_def)
      show "wp (case should_retry_exception e of
           Some reason \<Rightarrow> thenE (schedule_automatic_retry m' now policy reason)
               (ret (?res\<lparr>retry_scheduled_mission_ids := retry_scheduled_mission_ids ?res @ [k]\<rparr>))
         | None \<Rightarrow> ret (?res\<lparr>failed_mission_ids := failed_mission_ids ?res @ [k]\<rparr>)) ?Q (stopped k s) s2"
      proof (cases "should_retry_exception e")
        case None
        have "filed k res (?res\<lparr>failed_mission_ids := failed_mission_ids ?res @ [k]\<rparr>) Failed" by (simp add: filed_def)
        then show ?thesis using None set2 by (auto simp: wp_ret)
      next
        case (Some reason)
        have "filed k res (?res\<lparr>retry_scheduled_mission_ids := retry_scheduled_mission_ids ?res @ [k]\<rparr>) Waiting"
          by (simp add: filed_def)
        from failed [OF conjunct1 [OF f] conjunct2 [OF f] this] Some show ?thesis by simp
      qed
    qed
    finally show ?thesis .
  qed
  have returned: "wp (processing_returned now policy res m') ?Q (stopped k s) s'"
    if "finished k (\<lambda>_. True) (run_returns r m0) m' s'" and "others k s s'" for m0 m' s'
  proof -
    have id: "mission_id m' = k" using that(1) repo_ok_id by (auto simp: finished_def)
    have "success_status mode \<in> {RequiresConfirmation, Completed}" for mode by (cases mode) simp_all
    then have st: "status m' = Failed \<or> status m' \<in> {RequiresConfirmation, Completed}"
      using that(1) unfolding finished_def run_returns_def run_done_def outcome_ok_def by metis
    show ?thesis
    proof (cases "status m' = Failed")
      case True
      then have f: "finished k (\<lambda>_. True) (\<lambda>m'. status m' = Failed \<and> mission_id m' = k) m' s'"
        using that(1) id by (simp add: finished_def)
      have "wp (thenE (record_terminal_failure k m' now)
             (ret (res\<lparr>failed_mission_ids := failed_mission_ids res @ [k]\<rparr>))) ?Q (stopped k s) s'"
        unfolding wp_thenE
        by (rule wp_mono [OF terminal_failure_wp [OF f that(2)]])
           (auto simp: wp_ret filed_def settled_stopped)
      moreover have "filed k res (res\<lparr>retry_scheduled_mission_ids := retry_scheduled_mission_ids res @ [k]\<rparr>) Waiting"
        by (simp add: filed_def)
      note failed [OF f that(2) this, of "event_type (last (execution_log m'))"]
      ultimately show ?thesis using True by (simp add: processing_returned_def id)
    next
      case False
      then have ok: "status m' \<in> {RequiresConfirmation, Completed}" using st by simp
      have "settled k (\<lambda>st'. st' = status m') s s'" using that by (auto simp: finished_def settled_def)
      moreover have "filed k res (res\<lparr>succeeded_mission_ids := succeeded_mission_ids res @ [k]\<rparr>) (status m')"
        using ok by (simp add: filed_def)
      ultimately show ?thesis using ok by (auto simp: processing_returned_def id wp_ret)
    qed
  qed
  show ?thesis
    unfolding process_one_def assms(3) wp_tryElse
    by (rule wp_mono [OF keeps_others [OF run keeps_run_mission others_refl [OF assms(1)]]])
       (use raised returned in blast)+
qed

section \<open>The whole batch\<close>

definition status_in :: "'w sys \<Rightarrow> uuid \<Rightarrow> mission_status option" where
  "status_in s k = map_option status (map_of (missions s) k)"

definition batch_filed :: "uuid list \<Rightarrow> due_result \<Rightarrow> due_result \<Rightarrow> 'w sys \<Rightarrow> bool" where
  "batch_filed ks res res' s \<longleftrightarrow>
     processed_count res' = processed_count res \<and> expired_mission_ids res' = expired_mission_ids res
     \<and> (\<forall>k \<in> set ks. status_in s k \<in> {Some RequiresConfirmation, Some Completed, Some Failed, Some Waiting})
     \<and> succeeded_mission_ids res' = succeeded_mission_ids res
          @ filter (\<lambda>k. status_in s k \<in> {Some RequiresConfirmation, Some Completed}) ks
     \<and> failed_mission_ids res' = failed_mission_ids res @ filter (\<lambda>k. status_in s k = Some Failed) ks
     \<and> retry_scheduled_mission_ids res' = retry_scheduled_mission_ids res @ filter (\<lambda>k. status_in s k = Some Waiting) ks"

definition untouched :: "uuid set \<Rightarrow> 'w sys \<Rightarrow> 'w sys \<Rightarrow> bool" where
  "untouched ks s s' \<longleftrightarrow> (\<forall>k. k \<notin> ks \<longrightarrow> map_of (missions s') k = map_of (missions s) k)"

lemma others_untouched: "others k s s' \<Longrightarrow> untouched {k} s s'"
  by (simp add: others_def untouched_def)

lemma untouched_trans: "untouched A s s1 \<Longrightarrow> untouched B s1 s2 \<Longrightarrow> untouched (A \<union> B) s s2"
  by (simp add: untouched_def)

lemma untouched_status: "untouched ks s s' \<Longrightarrow> k \<notin> ks \<Longrightarrow> status_in s' k = status_in s k"
  by (simp add: untouched_def status_in_def)

lemma batch_filed_Cons:
  assumes "filed k res res1 st" and "status_in s k = Some st" and "batch_filed ks res1 res' s"
  shows "batch_filed (k # ks) res res' s"
  using assms by (auto simp: filed_def batch_filed_def)

lemma process_claimed_wp:
  assumes "repo_ok s" and "ids_ok s" and "distinct (map mission_id ms)"
    and "\<And>m. m \<in> set ms \<Longrightarrow> map_of (missions s) (mission_id m) \<noteq> None"
  shows "wp (process_claimed r now policy ms res)
     (\<lambda>res' s'. repo_ok s' \<and> ids_ok s' \<and> untouched (mission_id ` set ms) s s' \<and> batch_filed (map mission_id ms) res res' s')
     (\<lambda>e s'. ids_ok s' \<and> untouched (mission_id ` set ms) s s' \<and> (e \<noteq> ProcessExit \<longrightarrow> repo_ok s')) s"
  using assms
proof (induction ms arbitrary: s res)
  case Nil
  then show ?case by (simp add: wp_ret untouched_def batch_filed_def)
next
  case (Cons m ms)
  let ?k = "mission_id m"
  let ?all = "mission_id ` set (m # ms)"
  have k: "map_of (missions s) ?k \<noteq> None" using Cons.prems(4) by simp
  show ?case
    unfolding process_claimed.simps wp_bindE
  proof (rule wp_mono [OF process_one_wp [OF Cons.prems(1,2) refl k]])
    fix res1 s1 assume "\<exists>st. settled ?k (\<lambda>st'. st' = st) s s1 \<and> filed ?k res res1 st"
    then obtain st where set1: "settled ?k (\<lambda>st'. st' = st) s s1" and f: "filed ?k res res1 st" by blast
    have ok1: "repo_ok s1" "ids_ok s1" and u1: "untouched {?k} s s1" and st: "status_in s1 ?k = Some st"
      using set1 others_untouched by (auto simp: settled_def status_in_def)
    have d: "distinct (map mission_id ms)" using Cons.prems(3) by simp
    have out: "?k \<notin> mission_id ` set ms" using Cons.prems(3) by simp
    have in1: "map_of (missions s1) (mission_id x) \<noteq> None" if "x \<in> set ms" for x
    proof -
      have "mission_id x \<in> mission_id ` set ms" using that by (rule imageI)
      then have "mission_id x \<notin> {?k}" using out by (metis singletonD)
      then show ?thesis using u1 Cons.prems(4) [of x] that by (simp add: untouched_def)
    qed
    have all: "{?k} \<union> mission_id ` set ms = ?all" by simp
    show "wp (process_claimed r now policy ms res1)
        (\<lambda>res' s'. repo_ok s' \<and> ids_ok s' \<and> untouched ?all s s' \<and> batch_filed (map mission_id (m # ms)) res res' s')
        (\<lambda>e s'. ids_ok s' \<and> untouched ?all s s' \<and> (e \<noteq> ProcessExit \<longrightarrow> repo_ok s')) s1"
    proof (rule wp_mono [OF Cons.IH [OF ok1 d in1]])
      fix res' s' assume x: "repo_ok s' \<and> ids_ok s' \<and> untouched (mission_id ` set ms) s1 s' \<and> batch_filed (map mission_id ms) res1 res' s'"
      then have "status_in s' ?k = Some st" using untouched_status [of "mission_id ` set ms" s1 s' ?k] out st by simp
      then show "repo_ok s' \<and> ids_ok s' \<and> untouched ?all s s' \<and> batch_filed (map mission_id (m # ms)) res res' s'"
        using x f batch_filed_Cons untouched_trans [OF u1] unfolding all [symmetric] by auto
    qed (use untouched_trans [OF u1] all in auto)
  next
    fix e s' assume "stopped ?k s e s'"
    then have "ids_ok s'" "untouched {?k} s s'" "e \<noteq> ProcessExit \<longrightarrow> repo_ok s'"
      using others_untouched by (auto simp: stopped_def settled_def)
    then show "ids_ok s' \<and> untouched ?all s s' \<and> (e \<noteq> ProcessExit \<longrightarrow> repo_ok s')"
      by (auto simp: untouched_def)
  qed
qed

lemma claimed_ids_ok:
  assumes "ids_ok s" and "claimed_state now s xs s'"
  shows "ids_ok s'"
proof -
  have logs: "\<exists>m0. map_of (missions s) k = Some m0 \<and> execution_log m = execution_log m0"
    if "map_of (missions s') k = Some m" for k m
    using that assms(2) by (auto simp: claimed_state_def claimed_def split: if_splits)
  have f: "fresh s' = fresh s" "tick s \<le> tick s'" using assms(2) by (simp_all add: claimed_state_def)
  have "fresh s n \<notin> event_id ` set (execution_log m)" if here: "map_of (missions s') k = Some m" "tick s' \<le> n" for k m n
  proof -
    from logs [OF here(1)] obtain m0 where "map_of (missions s) k = Some m0" "execution_log m = execution_log m0" by blast
    moreover have "tick s \<le> n" using f(2) here(2) by simp
    ultimately show ?thesis using assms(1) unfolding ids_ok_def by metis
  qed
  then show ?thesis using assms(1) by (simp add: ids_ok_def f(1))
qed

lemma expire_step:
  assumes "repo_ok s" and "ids_ok s" and "0 < limit"
  obtains ms :: "mission list" and rs s' where "expire_due (Aware now) limit s = (Inr rs, s')" and "repo_ok s'" and "ids_ok s'"
    and "map mission_id rs = map mission_id ms"
    and "untouched (mission_id ` set ms) s s'"
    and "\<And>r. r \<in> set rs \<Longrightarrow> map_of (missions s') (mission_id r) = Some r \<and> status r = Expired"
proof -
  let ?p = "is_expirable now" and ?f = "\<lambda>m. time_or now (expires_at m)"
  let ?ms = "selected ?p ?f limit s"
  obtain rs s' where run: "mapE (expire_one (Aware now)) ?ms s = (Inr rs, s')"
    and pr: "processed expired_from s ?ms rs s'"
    by (rule processed_selected [OF assms(1,2), of ?p expired_from "expire_one (Aware now)" ?f limit])
       (rule expire_one_step)
  have q: "expirable_missions now limit s = ?ms" by (simp add: expirable_missions_def selected_def)
  have "expire_due (Aware now) limit s = (Inr rs, s')"
    using run assms(3) by (simp add: expire_due_def validate_list_due_arguments_def bindE_def liftE_def gets_def q)
  moreover have "status r = Expired" if in_rs: "r \<in> set rs" for r
  proof -
    have "list_all2 expired_from ?ms rs" using pr unfolding processed_def by (elim conjE)
    from list_all2_right [OF this in_rs] obtain x where "expired_from x r" by (elim exE conjE)
    then show ?thesis by (auto simp: expired_from_def dest!: core_D(2))
  qed
  ultimately show ?thesis
    using that [of rs s'] pr unfolding processed_def untouched_def by metis
qed

lemma process_due_wp:
  assumes "repo_ok s" and "ids_ok s"
  shows "wp (process_due_missions r now limit policy)
     (\<lambda>res s'. repo_ok s' \<and> ids_ok s' \<and> (\<exists>ks. distinct ks \<and> int (length ks) \<le> limit
        \<and> processed_count res = int (length ks) \<and> batch_filed ks (res\<lparr>succeeded_mission_ids := [],
             failed_mission_ids := [], retry_scheduled_mission_ids := []\<rparr>) res s'
        \<and> (\<forall>k. k \<notin> set ks \<longrightarrow> k \<notin> set (expired_mission_ids res) \<longrightarrow> map_of (missions s') k = map_of (missions s) k)
        \<and> (\<forall>k \<in> set (expired_mission_ids res). status_in s' k = Some Expired)))
     (\<lambda>e s'. ids_ok s' \<and> (e \<noteq> ProcessExit \<longrightarrow> repo_ok s')) s"
proof (cases "is_aware now \<and> \<not> limit < 1")
  case False
  then show ?thesis
    using assms by (auto simp: process_due_missions_def expire_due_missions_def wp)
next
  case True
  then obtain t where now: "now = Aware t" and pos: "0 < limit" by (cases now) auto
  obtain xs :: "mission list" and rs s1 where ex: "expire_due (Aware t) limit s = (Inr rs, s1)" and ok1: "repo_ok s1" "ids_ok s1"
    and ids: "map mission_id rs = map mission_id xs" and u1: "untouched (mission_id ` set xs) s s1"
    and exp: "\<And>r. r \<in> set rs \<Longrightarrow> map_of (missions s1) (mission_id r) = Some r \<and> status r = Expired"
    using expire_step [OF assms pos, of t] by metis
  let ?xs = "due_missions t limit s1"
  let ?ms = "map (claimed t) ?xs"
  obtain s2 where cl: "claim_due (Aware t) limit s1 = (Inr ?ms, s2)" and st2: "claimed_state t s1 ?xs s2"
    by (rule claim_due_result [OF ok1(1) pos])
  have ok2: "repo_ok s2" "ids_ok s2" using st2 claimed_ids_ok [OF ok1(2) st2] by (simp_all add: claimed_state_def)
  have keys: "map mission_id ?ms = map mission_id ?xs" by simp
  have len: "int (length ?xs) \<le> limit" by (simp add: due_missions_selected selected_length [OF pos])
  have dist0: "distinct (map mission_id ?xs)"
    unfolding due_missions_selected by (rule selected_distinct [OF ok1(1)])
  then have dist: "distinct (map mission_id ?ms)" by (simp only: keys)
  have due: "map_of (missions s1) (mission_id m) = Some m \<and> is_due t m" if "m \<in> set ?xs" for m
    by (rule due_in [OF ok1(1) that])
  have m2: "map_of (missions s2) = (\<lambda>k. if k \<in> mission_id ` set ?xs then map_option (claimed t) (map_of (missions s1) k)
        else map_of (missions s1) k)"
    using st2 by (simp add: claimed_state_def)
  have in2: "map_of (missions s2) (mission_id m) \<noteq> None" if "m \<in> set ?ms" for m
    using that due by (auto simp: m2)
  have early: "mission_id r \<notin> mission_id ` set ?xs" if "r \<in> set rs" for r
    using exp [OF that] due by (auto simp: is_due_def)
  show ?thesis
    unfolding process_due_missions_def wp_bindE
  proof -
    let ?E = "\<lambda>e s'. ids_ok s' \<and> (e \<noteq> ProcessExit \<longrightarrow> repo_ok s')"
    let ?Q = "\<lambda>res s'. repo_ok s' \<and> ids_ok s' \<and> (\<exists>ks. distinct ks \<and> int (length ks) \<le> limit
        \<and> processed_count res = int (length ks) \<and> batch_filed ks (res\<lparr>succeeded_mission_ids := [],
             failed_mission_ids := [], retry_scheduled_mission_ids := []\<rparr>) res s'
        \<and> (\<forall>k. k \<notin> set ks \<longrightarrow> k \<notin> set (expired_mission_ids res) \<longrightarrow> map_of (missions s') k = map_of (missions s) k)
        \<and> (\<forall>k \<in> set (expired_mission_ids res). status_in s' k = Some Expired))"
    have "wp (process_claimed r now policy ?ms (start_result rs ?ms)) ?Q ?E s2"
    proof (rule wp_mono [OF process_claimed_wp [OF ok2 dist in2]])
      fix res s' assume x: "repo_ok s' \<and> ids_ok s' \<and> untouched (mission_id ` set ?ms) s2 s'
          \<and> batch_filed (map mission_id ?ms) (start_result rs ?ms) res s'"
      let ?ks = "map mission_id ?xs"
      have b: "batch_filed ?ks (start_result rs ?ms) res s'" using x by (simp only: keys)
      have kset: "mission_id ` set ?ms = set ?ks" by (simp only: set_map [symmetric] keys)
      have u2: "untouched (set ?ks) s2 s'" using x by (simp only: kset)
      have counts: "processed_count res = int (length ?ks)" "expired_mission_ids res = map mission_id rs"
        using b by (simp_all add: batch_filed_def start_result_def)
      have b': "batch_filed ?ks (res\<lparr>succeeded_mission_ids := [], failed_mission_ids := [], retry_scheduled_mission_ids := []\<rparr>) res s'"
        using b by (simp add: batch_filed_def start_result_def)
      have same: "map_of (missions s') k = map_of (missions s) k"
        if "k \<notin> set ?ks" "k \<notin> set (expired_mission_ids res)" for k
      proof -
        have "k \<notin> mission_id ` set xs" using that(2) ids unfolding counts(2) by simp
        then show ?thesis using u1 u2 that(1) by (simp add: untouched_def m2)
      qed
      have ex': "status_in s' k = Some Expired" if "k \<in> set (expired_mission_ids res)" for k
      proof -
        obtain r where r: "r \<in> set rs" "k = mission_id r" using \<open>k \<in> set (expired_mission_ids res)\<close> unfolding counts(2) by auto
        have "k \<notin> set ?ks" using early [OF r(1)] r(2) by simp
        then show ?thesis using u2 exp [OF r(1)] r(2) by (simp add: untouched_def status_in_def m2)
      qed
      show "?Q res s'" using x dist0 b' counts len same ex' by (intro conjI exI [of _ ?ks]) simp_all
    next
      fix e and s' :: "'a sys"
      assume "ids_ok s' \<and> untouched (mission_id ` set ?ms) s2 s' \<and> (e \<noteq> ProcessExit \<longrightarrow> repo_ok s')"
      then show "?E e s'" by (elim conjE, intro conjI)
    qed
    then show "wp (expire_due_missions now limit)
      (\<lambda>expired. wp (claim_due now limit) (\<lambda>taken. wp (process_claimed r now policy taken (start_result expired taken)) ?Q ?E) ?E) ?E s"
      using pos by (simp add: now expire_due_missions_def wp_thenE wp_require wp_def [of "expire_due x y" for x y] ex
          wp_def [of "claim_due x y" for x y] cl)
  qed
qed

text \<open>C27: a batch that returns has settled every mission it claimed: each is filed exactly once, in
  claim order, under what became of it, and is stored with the matching status (waiting for
  confirmation or completed, failed, or waiting again for a scheduled retry), so none is left
  processing. The expired missions it reports are expired, all other missions are unchanged, and
  the repository is sound. A batch that raises keeps it sound unless the process is being stopped.\<close>

theorem process_due_missions_outcome:
  assumes "repo_ok s" and "ids_ok s"
  shows "case process_due_missions r now limit policy s of
      (Inl e, s') \<Rightarrow> ids_ok s' \<and> (e = ProcessExit \<or> repo_ok s')
    | (Inr res, s') \<Rightarrow> repo_ok s' \<and> ids_ok s' \<and> (\<exists>ks. distinct ks \<and> int (length ks) \<le> limit
        \<and> processed_count res = int (length ks)
        \<and> succeeded_mission_ids res = filter (\<lambda>k. status_in s' k \<in> {Some RequiresConfirmation, Some Completed}) ks
        \<and> failed_mission_ids res = filter (\<lambda>k. status_in s' k = Some Failed) ks
        \<and> retry_scheduled_mission_ids res = filter (\<lambda>k. status_in s' k = Some Waiting) ks
        \<and> Ball (set ks) (\<lambda>k. status_in s' k \<in> {Some RequiresConfirmation, Some Completed, Some Failed, Some Waiting})
        \<and> Ball (set (expired_mission_ids res)) (\<lambda>k. status_in s' k = Some Expired)
        \<and> (\<forall>k. k \<in> set ks \<union> set (expired_mission_ids res) \<or> map_of (missions s') k = map_of (missions s) k))"
proof (cases "process_due_missions r now limit policy s")
  case (Pair out s')
  note w = process_due_wp [OF assms, of r now limit policy]
  show ?thesis
  proof (cases out)
    case (Inl e)
    then show ?thesis using wp_error [OF w, of e s'] Pair by auto
  next
    case (Inr res)
    with Pair have run: "process_due_missions r now limit policy s = (Inr res, s')" by simp
    from wp_result [OF w run] obtain ks where "repo_ok s'" "ids_ok s'" "distinct ks" "int (length ks) \<le> limit"
        "processed_count res = int (length ks)"
      and b: "batch_filed ks (res\<lparr>succeeded_mission_ids := [], failed_mission_ids := [], retry_scheduled_mission_ids := []\<rparr>) res s'"
      and "\<forall>k. k \<notin> set ks \<longrightarrow> k \<notin> set (expired_mission_ids res) \<longrightarrow> map_of (missions s') k = map_of (missions s) k"
        "\<forall>k \<in> set (expired_mission_ids res). status_in s' k = Some Expired"
      by (elim conjE exE)
    then show ?thesis
      unfolding Pair Inr prod.case sum.case
      by (intro conjI exI [of _ ks]) (auto simp: batch_filed_def)
  qed
qed

definition due_demo :: mission where
  "due_demo = (sample_mission Waiting)\<lparr>scheduled_at := Some 5\<rparr>"

theorem process_due_missions_outcome_witness:
  "case process_due_missions booking_registry (Aware 9) 3 default_mission_retry_policy (demo_sys due_demo) of
      (Inl e, s') \<Rightarrow> ids_ok s' \<and> (e = ProcessExit \<or> repo_ok s')
    | (Inr res, s') \<Rightarrow> repo_ok s' \<and> ids_ok s' \<and> (\<exists>ks. distinct ks \<and> int (length ks) \<le> 3
        \<and> processed_count res = int (length ks)
        \<and> succeeded_mission_ids res = filter (\<lambda>k. status_in s' k \<in> {Some RequiresConfirmation, Some Completed}) ks
        \<and> failed_mission_ids res = filter (\<lambda>k. status_in s' k = Some Failed) ks
        \<and> retry_scheduled_mission_ids res = filter (\<lambda>k. status_in s' k = Some Waiting) ks
        \<and> Ball (set ks) (\<lambda>k. status_in s' k \<in> {Some RequiresConfirmation, Some Completed, Some Failed, Some Waiting})
        \<and> Ball (set (expired_mission_ids res)) (\<lambda>k. status_in s' k = Some Expired)
        \<and> (\<forall>k. k \<in> set ks \<union> set (expired_mission_ids res)
              \<or> map_of (missions s') k = map_of (missions (demo_sys due_demo)) k))"
proof (rule process_due_missions_outcome)
  have m: "mission_id due_demo = 7" "execution_log due_demo = []" by (simp_all add: due_demo_def)
  have e: "entry_ok 7 due_demo []"
    by (simp add: due_demo_def entry_ok_def claim_ok_def has_open_attempt_def log_valid_def validate_event_sequence_def)
  show "repo_ok (demo_sys due_demo)" "ids_ok (demo_sys due_demo)" using demo_sys_ok [OF m(1) e m(2)] .
qed

section \<open>A batch cut short\<close>

lemma exhausted_retry_raises:
  assumes "status m = Failed" and "has_exhausted_attempts m" and "map_of (missions s) k = Some m" and "mission_id m = k"
    and "1 \<le> execution_attempts m" and "policy_ok policy"
    and "case expires_at m of None \<Rightarrow> True | Some e \<Rightarrow> t \<le> e"
  shows "schedule_automatic_retry m (Aware t) policy reason s = (Inl MissionAttemptsExhaustedError, s)"
proof -
  have p: "1 \<le> multiplier policy" "0 < initial_delay policy" "initial_delay policy \<le> maximum_delay policy"
    using assms(6) by (simp_all add: policy_ok_def)
  have "0 < multiplier policy ^ n" for n using p(1) by simp
  then have "0 < delay_loop policy n (initial_delay policy)" for n
    using p by (simp add: delay_loop_closed [OF p])
  then obtain d where d: "delay_after_attempt policy (execution_attempts m) = Inr d" "0 < d"
    using assms(5) by (auto simp: delay_after_attempt_def)
  obtain u where u: "cap_at_expiry (Aware (t + d)) m = Inr (Aware u)" "t \<le> u"
    using assms(7) d(2) by (cases "expires_at m") (auto simp: cap_at_expiry_def)
  show ?thesis
    using d u assms(1-4)
    by (simp add: schedule_automatic_retry_def bindE_def liftE_def retry_mission_def time_or_now_def ret_def thenE_def
        require_def with_mission_def get_mission_def gets_def raise_def Let_def)
qed

text \<open>C28: the handler of a failed run schedules an automatic retry after a connection error or a
  timeout without asking whether attempts are left, as it does for a run that returns. When they
  are exhausted the retry service refuses, and its error leaves the whole batch: the missions
  claimed after this one are not run at all and stay as they were, claimed and processing.\<close>

theorem exhausted_retry_aborts_batch:
  assumes "repo_ok s" and "ids_ok s" and "map_of (missions s) (mission_id m) = Some m"
    and "execution_attempts m = max_execution_attempts m" and "1 \<le> execution_attempts m"
    and "case expires_at m of None \<Rightarrow> True | Some x \<Rightarrow> t \<le> x" and "policy_ok policy"
    and "e \<in> {ConnectionError, TimeoutError}"
    and "fst (run_mission (mission_id m) r (Some (Aware t)) True s) = Inl e"
  shows "fst (process_claimed r (Aware t) policy (m # ms) res s) = Inl MissionAttemptsExhaustedError
     \<and> (\<forall>k. k = mission_id m \<or> map_of (missions (snd (process_claimed r (Aware t) policy (m # ms) res s))) k = map_of (missions s) k)"
proof -
  let ?k = "mission_id m"
  let ?E = "\<lambda>e s'. e = MissionAttemptsExhaustedError \<and> others ?k s s'"
  obtain s1 where run: "run_mission ?k r (Some (Aware t)) True s = (Inl e, s1)"
    using assms(9) by (cases "run_mission ?k r (Some (Aware t)) True s") simp
  have "wp (run_mission ?k r (Some (Aware t)) True)
     (\<lambda>m s'. \<exists>m0. map_of (missions s) ?k = Some m0 \<and> finished ?k (\<lambda>_. True) (run_returns r m0) m s')
     (\<lambda>_. interrupted ?k (\<lambda>_. True)) s"
    by (rule run_mission_wp [OF assms(1,2)]) (simp_all add: calls_keep_True)
  from wp_error [OF keeps_others [OF this keeps_run_mission others_refl [OF assms(1)]] run]
  have s1: "interrupted ?k (\<lambda>_. True) s1" "others ?k s s1" by simp_all
  have ex1: "map_of (missions s1) ?k \<noteq> None" using others_exists [OF s1(2)] assms(3) by simp
  obtain reason where reason: "should_retry_exception e = Some reason" using assms(8) by auto
  have w: "wp (process_one r (Aware t) policy m res) (\<lambda>_ _. False) ?E s"
    unfolding process_one_def wp_tryElse wp_def [of "run_mission x y z u" for x y z u] run prod.case sum.case
  proof -
    have "wp (mark_claimed_mission_failed m e) (\<lambda>m'. wp (schedule_automatic_retry m' (Aware t) policy reason) G ?E) ?E s1" for G
    proof (rule wp_mono [OF mark_failed_wp [OF s1 ex1 refl, where E = ?E]])
      fix m' s2
      assume f: "finished ?k (\<lambda>_. True) (\<lambda>m'. status m' = Failed \<and> mission_id m' = ?k) m' s2 \<and> others ?k s s2"
      then have here: "map_of (missions s2) ?k = Some m'" "status m' = Failed" "mission_id m' = ?k"
        by (simp_all add: finished_def)
      have "quota m' = quota m" using others_quota [OF conjunct2 [OF f] assms(3)] here(1) by simp
      then have "has_exhausted_attempts m'" "1 \<le> execution_attempts m'" "expires_at m' = expires_at m"
        using assms(4,5) by (simp_all add: quota_def has_exhausted_attempts_def)
      then have "schedule_automatic_retry m' (Aware t) policy reason s2 = (Inl MissionAttemptsExhaustedError, s2)"
        by (intro exhausted_retry_raises [OF here(2) _ here(1,3) _ assms(7)]) (use assms(6) in simp_all)
      then show "wp (schedule_automatic_retry m' (Aware t) policy reason) G ?E s2"
        using f by (simp add: wp_def)
    qed
    moreover have "e \<noteq> ProcessExit" using assms(8) by auto
    ultimately show "wp (processing_raised (Aware t) policy m res e) (\<lambda>_ _. False) ?E s1"
      using reason by (simp add: processing_raised_def wp_bindE wp_thenE Let_def)
  qed
  obtain out s2 where p1: "process_one r (Aware t) policy m res s = (out, s2)" by fastforce
  from w have "case out of Inl e \<Rightarrow> ?E e s2 | Inr _ \<Rightarrow> False" unfolding wp_def p1 prod.case .
  then have out: "out = Inl MissionAttemptsExhaustedError" and o: "others ?k s s2"
    by (simp_all split: sum.splits)
  have same: "k = ?k \<or> map_of (missions s2) k = map_of (missions s) k" for k
    using others_untouched [OF o] by (auto simp only: untouched_def)
  have run2: "process_claimed r (Aware t) policy (m # ms) res s = (Inl MissionAttemptsExhaustedError, s2)"
    unfolding process_claimed.simps bindE_def p1 out prod.case sum.case ..
  show ?thesis unfolding run2 fst_conv snd_conv using same by blast
qed

text \<open>A provider that cannot be reached, and a mission on its last attempt.\<close>

definition unreachable_adapter :: "nat adapter" where
  "unreachable_adapter = booking_adapter\<lparr>search_options := (\<lambda>_ _. raise ConnectionError)\<rparr>"

definition unreachable_registry :: "nat registry" where
  "unreachable_registry = \<lparr>adapters = [unreachable_adapter], adapters_by_id = [(''mock'', unreachable_adapter)]\<rparr>"

definition last_try :: mission where
  "last_try = (sample_mission Processing)\<lparr>execution_attempts := 3, claimed_at := Some 0\<rparr>"

definition last_try_sys :: "nat sys" where
  "last_try_sys = (demo_sys last_try)\<lparr>attempts := [(7, [claim_attempt 0 (last_try\<lparr>execution_attempts := 2\<rparr>) 1])]\<rparr>"

definition error_of :: "(exn + 'a) \<times> 's \<Rightarrow> exn option" where
  "error_of r = (case fst r of Inl e \<Rightarrow> Some e | Inr x \<Rightarrow> None)"

lemma error_of_Some: "error_of r = Some e \<longleftrightarrow> fst r = Inl e"
  by (simp add: error_of_def split: sum.split)

theorem exhausted_retry_aborts_batch_witness:
  "fst (process_claimed unreachable_registry (Aware 9) default_mission_retry_policy [last_try] (start_result [] [last_try]) last_try_sys)
     = Inl MissionAttemptsExhaustedError"
proof -
  have id: "mission_id last_try = 7" by (simp add: last_try_def)
  have m: "map_of (missions last_try_sys) (mission_id last_try) = Some last_try" by (simp add: last_try_sys_def)
  have "entry_ok 7 last_try [claim_attempt 0 (last_try\<lparr>execution_attempts := 2\<rparr>) 1]"
    by (simp add: last_try_def claim_attempt_def entry_ok_def claim_ok_def has_open_attempt_def log_valid_def
        validate_event_sequence_def)
  then have ok: "repo_ok last_try_sys"
    by (simp add: repo_ok_def last_try_sys_def demo_sys_def attempts_of_def dict_get_or_def dict_ok_def id)
  have ids: "ids_ok last_try_sys"
    by (simp add: ids_ok_def last_try_sys_def demo_sys_def inj_def last_try_def)
  have "error_of (run_mission (mission_id last_try) unreachable_registry (Some (Aware 9)) True last_try_sys) = Some ConnectionError"
    by code_simp
  then have run: "fst (run_mission (mission_id last_try) unreachable_registry (Some (Aware 9)) True last_try_sys) = Inl ConnectionError"
    by (simp only: error_of_Some)
  show ?thesis
    by (rule conjunct1 [OF exhausted_retry_aborts_batch [OF ok ids m _ _ _ _ _ run]])
       (simp_all add: last_try_def policy_ok_def default_mission_retry_policy_def seconds_def)
qed

end
