(* ===== verification/MissionWorker.thy ===== *)
theory MissionWorker
  imports DueProcessor
begin

text \<open>
  The polling loop of the mission worker (\<open>app/services/mission_worker.py\<close>). The cycle, the two
  handlers, the stop event and the wait are parameters, as they are in the code; without a bound on
  the cycles the loop may run forever, so it is a partial function: \<open>None\<close> is never returning.
\<close>

text \<open>One pass of the loop's body up to the counters: \<open>True\<close> for a completed cycle, \<open>False\<close> for
  one whose error was handled.\<close>

definition worker_cycle ::
  "('s, exn, 'r) prog \<Rightarrow> ('r \<Rightarrow> ('s, exn, unit) prog) \<Rightarrow> (exn \<Rightarrow> ('s, exn, unit) prog) \<Rightarrow> ('s, exn, bool) prog" where
  "worker_cycle process_cycle on_result on_error =
     tryElse process_cycle
       (\<lambda>e. if e = ProcessExit then raise e else thenE (on_error e) (ret False))
       (\<lambda>r. thenE (on_result r) (ret True))"

partial_function (option) worker_loop ::
  "('s \<Rightarrow> bool) \<Rightarrow> ('s, exn, bool) prog \<Rightarrow> ('s, exn, unit) prog \<Rightarrow> int option \<Rightarrow> int \<Rightarrow> int \<Rightarrow> int \<Rightarrow> 's
     \<Rightarrow> ((exn + int \<times> int) \<times> 's) option" where
  "worker_loop is_set cycle wait max_cycles completed failed attempted s =
     (if is_set s then Some (Inr (completed, failed), s)
      else (case cycle s of
          (Inl e, s1) \<Rightarrow> Some (Inl e, s1)
        | (Inr ok, s1) \<Rightarrow>
            (if (case max_cycles of None \<Rightarrow> False | Some n \<Rightarrow> attempted + 1 \<ge> n)
             then Some (Inr (if ok then completed + 1 else completed, if ok then failed else failed + 1), s1)
             else (case wait s1 of
                 (Inl e, s2) \<Rightarrow> Some (Inl e, s2)
               | (Inr _, s2) \<Rightarrow> worker_loop is_set cycle wait max_cycles
                     (if ok then completed + 1 else completed) (if ok then failed else failed + 1) (attempted + 1) s2))))"

definition run_mission_worker ::
  "('s \<Rightarrow> bool) \<Rightarrow> ('s, exn, 'r) prog \<Rightarrow> ('r \<Rightarrow> ('s, exn, unit) prog) \<Rightarrow> (exn \<Rightarrow> ('s, exn, unit) prog) \<Rightarrow>
     ('s, exn, unit) prog \<Rightarrow> timedelta \<Rightarrow> int option \<Rightarrow> 's \<Rightarrow> ((exn + int \<times> int) \<times> 's) option" where
  "run_mission_worker is_set process_cycle on_result on_error wait poll_interval max_cycles s =
     (if poll_interval \<le> 0 then Some (Inl (ValueError ''poll_interval must be greater than zero''), s)
      else if (case max_cycles of None \<Rightarrow> False | Some n \<Rightarrow> n < 1)
      then Some (Inl (ValueError ''max_cycles must be at least one''), s)
      else worker_loop is_set (worker_cycle process_cycle on_result on_error) wait max_cycles 0 0 0 s)"

definition never_raises :: "('s, exn, 'a) prog \<Rightarrow> bool" where
  "never_raises p \<longleftrightarrow> (\<forall>s. \<exists>x s'. p s = (Inr x, s'))"

definition worker_ok :: "('s \<Rightarrow> bool) \<Rightarrow> int \<Rightarrow> ((exn + int \<times> int) \<times> 's) \<Rightarrow> bool" where
  "worker_ok is_set n r \<longleftrightarrow>
     (case r of (Inl e, s') \<Rightarrow> True
      | (Inr (c, f), s') \<Rightarrow> 0 \<le> c \<and> 0 \<le> f \<and> c + f \<le> n \<and> (c + f = n \<or> is_set s'))"

lemma worker_loop_bounded:
  assumes "completed + failed = attempted" and "attempted < n" and "0 \<le> completed" and "0 \<le> failed"
  shows "\<exists>r. worker_loop is_set cycle wait (Some n) completed failed attempted s = Some r \<and> worker_ok is_set n r
     \<and> (never_raises cycle \<longrightarrow> never_raises wait \<longrightarrow> (\<exists>x. fst r = Inr x))"
  using assms
proof (induction "nat (n - attempted)" arbitrary: completed failed attempted s rule: less_induct)
  case less
  show ?case
  proof (cases "is_set s")
    case True
    then show ?thesis using less.prems by (subst worker_loop.simps) (simp add: worker_ok_def)
  next
    case run: False
    obtain out s1 where c: "cycle s = (out, s1)" by fastforce
    show ?thesis
    proof (cases out)
      case (Inl e)
      then show ?thesis
        using run c by (subst worker_loop.simps) (auto simp: worker_ok_def never_raises_def dest: spec [of _ s])
    next
      case (Inr ok)
      let ?c = "if ok then completed + 1 else completed" and ?f = "if ok then failed else failed + 1"
      have sum: "?c + ?f = attempted + 1" "0 \<le> ?c" "0 \<le> ?f" using less.prems by simp_all
      show ?thesis
      proof (cases "attempted + 1 \<ge> n")
        case True
        then show ?thesis
          using run c Inr sum less.prems by (subst worker_loop.simps) (simp add: worker_ok_def)
      next
        case False
        obtain wo s2 where w: "wait s1 = (wo, s2)" by fastforce
        show ?thesis
        proof (cases wo)
          case (Inl e)
          then show ?thesis
            using run c Inr w False
            by (subst worker_loop.simps) (auto simp: worker_ok_def never_raises_def intro: exI [of _ s1])
        next
          case (Inr u)
          have "nat (n - (attempted + 1)) < nat (n - attempted)" using less.prems(2) by simp
          from less.hyps [OF this sum(1) _ sum(2,3), of s2] False
          show ?thesis
            using run c \<open>out = Inr ok\<close> w Inr by (subst worker_loop.simps) simp
        qed
      qed
    qed
  qed
qed

lemma worker_cycle_quiet:
  assumes "\<And>s. \<exists>r s'. process_cycle s = (r, s') \<and> r \<noteq> Inl ProcessExit"
    and "\<And>r. never_raises (on_result r)" and "\<And>e. never_raises (on_error e)"
  shows "never_raises (worker_cycle process_cycle on_result on_error)"
  unfolding never_raises_def
proof
  fix s
  obtain out s1 where c: "process_cycle s = (out, s1)" "out \<noteq> Inl ProcessExit" using assms(1) by blast
  show "\<exists>x s'. worker_cycle process_cycle on_result on_error s = (Inr x, s')"
  proof (cases out)
    case (Inl e)
    obtain x s2 where "on_error e s1 = (Inr x, s2)" using assms(3) unfolding never_raises_def by blast
    then show ?thesis using c Inl by (auto simp: worker_cycle_def tryElse_def thenE_def bindE_def ret_def)
  next
    case (Inr r)
    obtain x s2 where "on_result r s1 = (Inr x, s2)" using assms(2) unfolding never_raises_def by blast
    then show ?thesis using c Inr by (auto simp: worker_cycle_def tryElse_def thenE_def bindE_def ret_def)
  qed
qed

text \<open>A worker with a bound on its cycles returns, having tried exactly that many cycles unless
  it was told to stop, each counted once as completed or failed. A failing cycle never ends it:
  as long as the process is not being stopped and its handlers do not raise, it returns its
  counters and no exception.\<close>

theorem mission_worker_finishes:
  assumes "0 < poll_interval" and "1 \<le> n"
    and "\<And>s. \<exists>r s'. process_cycle s = (r, s') \<and> r \<noteq> Inl ProcessExit"
    and "\<And>r. never_raises (on_result r)" and "\<And>e. never_raises (on_error e)" and "never_raises wait"
  shows "\<exists>completed failed s'.
     run_mission_worker is_set process_cycle on_result on_error wait poll_interval (Some n) s = Some (Inr (completed, failed), s')
     \<and> 0 \<le> completed \<and> 0 \<le> failed \<and> completed + failed \<le> n \<and> (completed + failed = n \<or> is_set s')"
proof -
  have "never_raises (worker_cycle process_cycle on_result on_error)"
    by (rule worker_cycle_quiet [OF assms(3-5)])
  moreover obtain r where r: "worker_loop is_set (worker_cycle process_cycle on_result on_error) wait (Some n) 0 0 0 s = Some r"
      "worker_ok is_set n r"
      "never_raises (worker_cycle process_cycle on_result on_error) \<longrightarrow> never_raises wait \<longrightarrow> (\<exists>x. fst r = Inr x)"
    using worker_loop_bounded [of 0 0 0 n] assms(2) by force
  ultimately obtain x where "fst r = Inr x" using assms(6) by blast
  then show ?thesis
    using r(1,2) assms(1,2)
    by (cases r; cases x) (simp add: run_mission_worker_def worker_ok_def)
qed

theorem mission_worker_finishes_witness:
  "\<exists>completed failed s'. run_mission_worker (\<lambda>_. False) (raise TimeoutError :: (nat, exn, unit) prog) (\<lambda>_. ret ()) (\<lambda>_. modify Suc)
     (ret ()) (seconds 5) (Some 3) 0 = Some (Inr (completed, failed), s') \<and> completed + failed = 3"
proof -
  have q: "never_raises (\<lambda>s. (Inr x, s))" "never_raises (modify f)" for x :: unit and f :: "nat \<Rightarrow> nat"
    by (auto simp: never_raises_def modify_def)
  have r: "never_raises (ret () :: (nat, exn, unit) prog)" by (simp add: never_raises_def ret_def)
  have "\<exists>completed failed s'. run_mission_worker (\<lambda>_. False) (raise TimeoutError :: (nat, exn, unit) prog) (\<lambda>_. ret ()) (\<lambda>_. modify Suc)
     (ret ()) (seconds 5) (Some 3) 0 = Some (Inr (completed, failed), s')
     \<and> 0 \<le> completed \<and> 0 \<le> failed \<and> completed + failed \<le> 3 \<and> (completed + failed = 3 \<or> False)"
    by (rule mission_worker_finishes [where is_set = "\<lambda>_. False"]) (auto simp: seconds_def raise_def q r)
  then show ?thesis by auto
qed

end
