(* ===== verification/Receipts.thy ===== *)
theory Receipts
  imports MissionLedger
begin

text \<open>
  Idempotency receipts: the in-memory stores for mission commands
  (\<open>app/storage/mission_command_idempotency.py\<close>) and for the creation of resources
  (\<open>app/storage/resource_creation_idempotency.py\<close>), both shown to be receipt stores in the sense
  of the interface \<open>receipt_store\<close>, and the wrapper of the HTTP API that runs a mission command
  at most once per key (\<open>_execute_idempotent_mission_command\<close> of \<open>app/api/routes/missions.py\<close>).
\<close>

section \<open>Mission commands\<close>

datatype mission_command = RunCommand | ConfirmCommand | CancelCommand | RetryCommand | PauseCommand | ResumeCommand

type_synonym command_receipts = "(string, uuid \<times> mission_command \<times> uuid option) dict"

definition begin_command :: "string \<Rightarrow> uuid \<Rightarrow> mission_command \<Rightarrow> (command_receipts, exn, uuid option) prog" where
  "begin_command key mid command d =
     (case map_of d key of
        None \<Rightarrow> (Inr None, dict_set key (mid, command, None) d)
      | Some (stored_mission, stored_command, result) \<Rightarrow>
          if (stored_mission, stored_command) \<noteq> (mid, command)
          then (Inl MissionCommandIdempotencyConflictError, d)
          else (case result of None \<Rightarrow> (Inl MissionCommandInProgressError, d) | Some r \<Rightarrow> (Inr (Some r), d)))"

definition complete_command :: "string \<Rightarrow> uuid \<Rightarrow> (command_receipts, exn, unit) prog" where
  "complete_command key mid d =
     (case map_of d key of
        None \<Rightarrow> (Inl KeyError, d)
      | Some (stored_mission, command, _) \<Rightarrow> (Inr (), dict_set key (stored_mission, command, Some mid) d))"

definition abort_command :: "string \<Rightarrow> uuid \<Rightarrow> mission_command \<Rightarrow> (command_receipts, exn, unit) prog" where
  "abort_command key mid command d =
     (if map_of d key = Some (mid, command, None) then (Inr (), dict_del key d) else (Inr (), d))"

section \<open>Creation of resources\<close>

datatype creation_scope = IdentityScope | MissionScope

type_synonym creation_receipts = "(creation_scope \<times> string, string \<times> uuid option) dict"

definition begin_creation :: "creation_scope \<Rightarrow> string \<Rightarrow> string \<Rightarrow> (creation_receipts, exn, uuid option) prog" where
  "begin_creation scope key fingerprint d =
     (case map_of d (scope, key) of
        None \<Rightarrow> (Inr None, dict_set (scope, key) (fingerprint, None) d)
      | Some (stored_fingerprint, resource_id) \<Rightarrow>
          if stored_fingerprint \<noteq> fingerprint then (Inl ResourceCreationConflictError, d)
          else (case resource_id of None \<Rightarrow> (Inl ResourceCreationInProgressError, d) | Some r \<Rightarrow> (Inr (Some r), d)))"

definition complete_creation :: "creation_scope \<Rightarrow> string \<Rightarrow> uuid \<Rightarrow> (creation_receipts, exn, unit) prog" where
  "complete_creation scope key resource_id d =
     (case map_of d (scope, key) of
        None \<Rightarrow> (Inl KeyError, d)
      | Some (fingerprint, _) \<Rightarrow> (Inr (), dict_set (scope, key) (fingerprint, Some resource_id) d))"

definition abort_creation :: "creation_scope \<Rightarrow> string \<Rightarrow> string \<Rightarrow> (creation_receipts, exn, unit) prog" where
  "abort_creation scope key fingerprint d =
     (if map_of d (scope, key) = Some (fingerprint, None) then (Inr (), dict_del (scope, key) d) else (Inr (), d))"

section \<open>Both are receipt stores\<close>

text \<open>The answer of \<open>begin\<close>, an exception being one of the two refusals.\<close>

fun outcome_of :: "exn + uuid option \<Rightarrow> uuid begin_outcome" where
  "outcome_of (Inr None) = Start"
| "outcome_of (Inr (Some r)) = Replay r"
| "outcome_of (Inl MissionCommandInProgressError) = InProgress"
| "outcome_of (Inl ResourceCreationInProgressError) = InProgress"
| "outcome_of (Inl _) = Conflict"

definition command_begin :: "string \<Rightarrow> uuid \<times> mission_command \<Rightarrow> command_receipts \<Rightarrow> uuid begin_outcome \<times> command_receipts" where
  "command_begin key f d = map_prod outcome_of id (begin_command key (fst f) (snd f) d)"

definition command_complete :: "string \<Rightarrow> uuid \<Rightarrow> command_receipts \<Rightarrow> command_receipts" where
  "command_complete key r d = snd (complete_command key r d)"

definition command_abort :: "string \<Rightarrow> uuid \<times> mission_command \<Rightarrow> command_receipts \<Rightarrow> command_receipts" where
  "command_abort key f d = snd (abort_command key (fst f) (snd f) d)"

definition command_receipt :: "command_receipts \<Rightarrow> string \<Rightarrow> ((uuid \<times> mission_command) \<times> uuid option) option" where
  "command_receipt d key = map_option (\<lambda>(m, c, r). ((m, c), r)) (map_of d key)"

lemma command_receipt_cases:
  "command_receipt d key = Some ((m, c), r) \<longleftrightarrow> map_of d key = Some (m, c, r)"
  "command_receipt d key = None \<longleftrightarrow> map_of d key = None"
  by (auto simp: command_receipt_def)

interpretation commands: receipt_store command_begin command_complete command_abort command_receipt
proof
  fix key and f :: "uuid \<times> mission_command" and s v r
  obtain m c where f: "f = (m, c)" by fastforce
  show "fst (command_begin key f s) = (case command_receipt s key of None \<Rightarrow> Start
      | Some (f', r) \<Rightarrow> if f' \<noteq> f then Conflict else case r of None \<Rightarrow> InProgress | Some v \<Rightarrow> Replay v)"
    by (auto simp: f command_begin_def begin_command_def command_receipt_def split: option.split)
  show "command_receipt (snd (command_begin key f s))
      = (if command_receipt s key = None then (command_receipt s)(key \<mapsto> (f, None)) else command_receipt s)"
    by (auto simp: f command_begin_def begin_command_def command_receipt_def fun_eq_iff split: option.split)
  show "command_receipt (command_complete key v s) = (command_receipt s)(key \<mapsto> (f, Some v))"
    if "command_receipt s key = Some (f, r)"
    using that
    by (auto simp: f command_complete_def complete_command_def command_receipt_def fun_eq_iff)
  show "command_receipt (command_abort key f s)
      = (if command_receipt s key = Some (f, None) then (command_receipt s)(key := None) else command_receipt s)"
    unfolding f command_receipt_cases
    by (simp add: command_abort_def abort_command_def command_receipt_def fun_eq_iff)
qed

definition creation_begin :: "creation_scope \<times> string \<Rightarrow> string \<Rightarrow> creation_receipts \<Rightarrow> uuid begin_outcome \<times> creation_receipts" where
  "creation_begin k f d = map_prod outcome_of id (begin_creation (fst k) (snd k) f d)"

definition creation_complete :: "creation_scope \<times> string \<Rightarrow> uuid \<Rightarrow> creation_receipts \<Rightarrow> creation_receipts" where
  "creation_complete k r d = snd (complete_creation (fst k) (snd k) r d)"

definition creation_abort :: "creation_scope \<times> string \<Rightarrow> string \<Rightarrow> creation_receipts \<Rightarrow> creation_receipts" where
  "creation_abort k f d = snd (abort_creation (fst k) (snd k) f d)"

interpretation creations: receipt_store creation_begin creation_complete creation_abort "map_of :: creation_receipts \<Rightarrow> _"
proof
  fix k :: "creation_scope \<times> string" and f :: string and s :: creation_receipts and v r
  show "fst (creation_begin k f s) = (case map_of s k of None \<Rightarrow> Start
      | Some (f', r) \<Rightarrow> if f' \<noteq> f then Conflict else case r of None \<Rightarrow> InProgress | Some v \<Rightarrow> Replay v)"
    by (auto simp: creation_begin_def begin_creation_def split: option.split)
  show "map_of (snd (creation_begin k f s))
      = (if map_of s k = None then (map_of s)(k \<mapsto> (f, None)) else map_of s)"
    by (auto simp: creation_begin_def begin_creation_def split: option.split)
  show "map_of (creation_complete k v s) = (map_of s)(k \<mapsto> (f, Some v))" if "map_of s k = Some (f, r)"
    using that by (simp add: creation_complete_def complete_creation_def)
  show "map_of (creation_abort k f s) = (if map_of s k = Some (f, None) then (map_of s)(k := None) else map_of s)"
    by (simp add: creation_abort_def abort_creation_def)
qed

section \<open>A command runs at most once per key\<close>

text \<open>The program state is the receipts beside the state \<open>'s\<close> of the services.\<close>

definition on_receipts :: "('r, exn, 'a) prog \<Rightarrow> ('r \<times> 's, exn, 'a) prog" where
  "on_receipts p s = (case p (fst s) of (x, d) \<Rightarrow> (x, (d, snd s)))"

definition on_services :: "('s, exn, 'a) prog \<Rightarrow> ('r \<times> 's, exn, 'a) prog" where
  "on_services p s = (case p (snd s) of (x, t) \<Rightarrow> (x, (fst s, t)))"

definition execute_idempotent_mission_command ::
  "uuid \<Rightarrow> mission_command \<Rightarrow> string \<Rightarrow> ('s \<Rightarrow> uuid \<Rightarrow> mission option) \<Rightarrow> ('s, exn, mission) prog
     \<Rightarrow> (command_receipts \<times> 's, exn, mission) prog" where
  "execute_idempotent_mission_command mid command key get execute =
     bindE (on_receipts (begin_command key mid command)) (\<lambda>previous.
       case previous of
         Some pid \<Rightarrow> bindE (gets (\<lambda>s. get (snd s) pid)) (\<lambda>result.
           case result of None \<Rightarrow> raise AssertionError | Some m \<Rightarrow> ret m)
       | None \<Rightarrow>
           tryElse (bindE (on_services execute) (\<lambda>result.
                    thenE (on_receipts (complete_command key (mission_id result))) (ret result)))
             (\<lambda>e. thenE (on_receipts (abort_command key mid command)) (raise e))
             ret)"

lemma execute_started:
  assumes "map_of d key = None" and "execute t = (Inr m, t')"
  shows "execute_idempotent_mission_command mid command key get execute (d, t)
     = (Inr m, dict_set key (mid, command, Some (mission_id m)) d, t')"
  using assms
  by (simp add: execute_idempotent_mission_command_def bindE_def on_receipts_def begin_command_def on_services_def
      thenE_def complete_command_def ret_def tryElse_def dict_set_set)

lemma execute_refused:
  assumes "map_of d key = Some (mid', command', r)" and "(mid', command') \<noteq> (mid, command)"
  shows "execute_idempotent_mission_command mid command key get execute (d, t)
     = (Inl MissionCommandIdempotencyConflictError, d, t)"
  using assms by (auto simp: execute_idempotent_mission_command_def bindE_def on_receipts_def begin_command_def)

lemma execute_busy:
  assumes "map_of d key = Some (mid, command, None)"
  shows "execute_idempotent_mission_command mid command key get execute (d, t)
     = (Inl MissionCommandInProgressError, d, t)"
  using assms by (simp add: execute_idempotent_mission_command_def bindE_def on_receipts_def begin_command_def)

lemma execute_replayed:
  assumes "map_of d key = Some (mid, command, Some pid)"
  shows "execute_idempotent_mission_command mid command key get execute (d, t)
     = (case get t pid of None \<Rightarrow> Inl AssertionError | Some m \<Rightarrow> Inr m, d, t)"
  using assms
  by (simp add: execute_idempotent_mission_command_def bindE_def on_receipts_def begin_command_def gets_def
      raise_def ret_def split: option.split)

text \<open>C26: a mission command runs at most once per idempotency key. Once it has succeeded, the same
  request answers with the stored mission and never runs again, whatever has happened to the
  services' state since; any other command or mission under that key is refused. A request whose
  key is being worked on is refused too. None of these later requests changes anything.\<close>

theorem command_runs_once:
  assumes "execute_idempotent_mission_command mid command key get execute (d, t) = (Inr m, d', t')"
    and "map_of d key = None"
  shows "execute t = (Inr m, t')
     \<and> execute_idempotent_mission_command mid command key get execute' (d', u)
         = (case get u (mission_id m) of None \<Rightarrow> Inl AssertionError | Some m' \<Rightarrow> Inr m', d', u)
     \<and> ((mid2, command2) = (mid, command)
        \<or> execute_idempotent_mission_command mid2 command2 key get execute' (d', u)
            = (Inl MissionCommandIdempotencyConflictError, d', u))
     \<and> execute_idempotent_mission_command mid command key get execute' (snd (command_begin key (mid, command) d), u)
         = (Inl MissionCommandInProgressError, snd (command_begin key (mid, command) d), u)"
proof -
  obtain x t1 where ex: "execute t = (x, t1)" by fastforce
  have "x = Inr m \<and> t1 = t' \<and> d' = dict_set key (mid, command, Some (mission_id m)) d"
  proof (cases x)
    case (Inl e)
    then have "fst (execute_idempotent_mission_command mid command key get execute (d, t)) = Inl e"
      using ex assms(2)
      by (simp add: execute_idempotent_mission_command_def bindE_def on_receipts_def begin_command_def on_services_def
          tryElse_def thenE_def abort_command_def raise_def)
    then show ?thesis using assms(1) by simp
  next
    case (Inr m1)
    then show ?thesis using execute_started [OF assms(2), of execute t m1 t1] ex assms(1) by auto
  qed
  then have d': "map_of d' key = Some (mid, command, Some (mission_id m))" and run: "execute t = (Inr m, t')"
    using ex by simp_all
  have "map_of (snd (command_begin key (mid, command) d)) key = Some (mid, command, None)"
    using commands.begin_receipt [of key "(mid, command)" d] command_receipt_cases assms(2)
    by (metis (mono_tags, lifting) fun_upd_same)
  then show ?thesis
    using run execute_replayed [OF d', of get execute' u] execute_refused [OF d', of mid2 command2 get execute' u]
      execute_busy by auto
qed

theorem command_runs_once_witness:
  "execute_idempotent_mission_command 7 PauseCommand ''k'' (\<lambda>n _. Some (sample_mission Paused))
      (raise TypeError) ([(''k'', 7, PauseCommand, Some 7)], 5 :: nat)
     = (Inr (sample_mission Paused), [(''k'', 7, PauseCommand, Some 7)], 5)"
proof -
  have "execute_idempotent_mission_command 7 PauseCommand ''k'' (\<lambda>n _. Some (sample_mission Paused))
      (ret (sample_mission Paused)) ([], 4 :: nat) = (Inr (sample_mission Paused), [(''k'', 7, PauseCommand, Some 7)], 4)"
    by (simp add: execute_started ret_def)
  from command_runs_once [OF this, of "raise TypeError" 5] show ?thesis by simp
qed

end
