(* ===== verification/Identities.thy ===== *)
theory Identities
  imports Receipts
begin

text \<open>
  Identities: the request models of \<open>app/schemas/identity.py\<close>, the in-memory repository
  (\<open>InMemoryIdentityRepository\<close> of \<open>app/storage/memory.py\<close>) with its version check, the entity
  tags of \<open>app/services/http_preconditions.py\<close>, and the endpoints of
  \<open>app/api/routes/identities.py\<close>. A response is the body with its entity tag; a refused request is
  an \<open>HTTPException\<close>. The repository is a versioned store in the sense of \<open>versioned_store\<close>.
\<close>

section \<open>Repository\<close>

type_synonym identity_repo = "(uuid, identity) dict"

definition create_identity :: "identity \<Rightarrow> (identity_repo, exn, identity) prog" where
  "create_identity i d = (Inr i, dict_set (identity_id i) i d)"

definition normalize_query :: "string option \<Rightarrow> exn + string option" where
  "normalize_query query =
     (case query of
        None \<Rightarrow> Inr None
      | Some q \<Rightarrow>
          if casefold (py_strip q) = [] then Inl (ValueError ''query must not be blank'')
          else Inr (Some (casefold (py_strip q))))"

definition identity_matches :: "string option \<Rightarrow> identity \<Rightarrow> bool" where
  "identity_matches normalized i \<longleftrightarrow>
     (case normalized of
        None \<Rightarrow> True
      | Some n \<Rightarrow> list_ex (\<lambda>value. py_contains n (casefold value)) [display_name i, first_name i, last_name i])"

definition list_identities :: "string option \<Rightarrow> int \<Rightarrow> (identity_repo, exn, identity list) prog" where
  "list_identities query limit =
     thenE (require_limit limit)
     (bindE (liftE (normalize_query query)) (\<lambda>normalized.
        gets (\<lambda>d. first_n limit (filter (identity_matches normalized) (dict_values d)))))"

definition get_identity :: "uuid \<Rightarrow> (identity_repo, exn, identity option) prog" where
  "get_identity k = gets (\<lambda>d. map_of d k)"

definition list_identity_summaries :: "string option \<Rightarrow> int \<Rightarrow> (identity_repo, exn, identity_summary list) prog" where
  "list_identity_summaries query limit = bindE (list_identities query limit) (\<lambda>is. ret (map identity_summary_of is))"

definition update_preferences :: "uuid \<Rightarrow> preferences \<Rightarrow> int \<Rightarrow> (identity_repo, exn, identity option) prog" where
  "update_preferences k prefs expected_version d =
     (case map_of d k of
        None \<Rightarrow> (Inr None, d)
      | Some i \<Rightarrow>
          if identity_version i \<noteq> expected_version then (Inl IdentityVersionConflictError, d)
          else (let i' = i\<lparr>identity_preferences := prefs, identity_version := identity_version i + 1\<rparr>
                in (Inr (Some i'), dict_set k i' d)))"

definition update_identity :: "identity \<Rightarrow> int \<Rightarrow> (identity_repo, exn, identity option) prog" where
  "update_identity i expected_version d =
     (case map_of d (identity_id i) of
        None \<Rightarrow> (Inr None, d)
      | Some current \<Rightarrow>
          if identity_version current \<noteq> expected_version then (Inl IdentityVersionConflictError, d)
          else (let updated = i\<lparr>identity_version := expected_version + 1\<rparr>
                in (Inr (Some updated), dict_set (identity_id i) updated d)))"

definition delete_identity :: "uuid \<Rightarrow> int \<Rightarrow> (identity_repo, exn, bool) prog" where
  "delete_identity k expected_version d =
     (case map_of d k of
        None \<Rightarrow> (Inr False, d)
      | Some i \<Rightarrow>
          if identity_version i \<noteq> expected_version then (Inl IdentityVersionConflictError, d)
          else (Inr True, dict_del k d))"

definition list_identity_page_candidates ::
  "string option \<Rightarrow> uuid option \<Rightarrow> int \<Rightarrow> (identity_repo, exn, identity_summary list) prog" where
  "list_identity_page_candidates query cursor limit =
     thenE (require_limit limit)
     (bindE (liftE (normalize_query query)) (\<lambda>normalized.
        gets (\<lambda>d. first_n limit (map identity_summary_of
          (filter (\<lambda>i. (case cursor of None \<Rightarrow> True | Some c \<Rightarrow> identity_id i > c) \<and> identity_matches normalized i)
             (sort_key identity_id (dict_values d)))))))"

definition clear_identities :: "(identity_repo, exn, unit) prog" where
  "clear_identities = modify (\<lambda>_. [])"

interpretation prefs: versioned_store map_of identity_version update_preferences IdentityVersionConflictError
proof
  fix d :: identity_repo and k a u v
  assume "map_of d k = Some a" "identity_version a = v"
  then show "\<exists>b d'. update_preferences k u v d = (Inr (Some b), d') \<and> identity_version b = v + 1 \<and> map_of d' = (map_of d)(k \<mapsto> b)"
    by (simp add: update_preferences_def Let_def)
qed (simp_all add: update_preferences_def)

interpretation idents: versioned_store map_of identity_version "\<lambda>k u. update_identity (u\<lparr>identity_id := k\<rparr>)" IdentityVersionConflictError
proof
  fix d :: identity_repo and k a u v
  assume "map_of d k = Some a" "identity_version a = v"
  then show "\<exists>b d'. update_identity (u\<lparr>identity_id := k\<rparr>) v d = (Inr (Some b), d') \<and> identity_version b = v + 1
      \<and> map_of d' = (map_of d)(k \<mapsto> b)"
    by (simp add: update_identity_def Let_def)
qed (simp_all add: update_identity_def)

section \<open>Request models\<close>

text \<open>\<open>normalize_name\<close> with the length bound of its field.\<close>

definition normalize_name :: "nat \<Rightarrow> string \<Rightarrow> exn + string" where
  "normalize_name bound value =
     (if length value < 1 \<or> bound < length value then Inl ValidationError
      else if py_strip value = [] then Inl ValidationError else Inr (py_strip value))"

record document_create =
  new_document_type :: document_type
  new_document_number :: string
  new_document_expires :: "int option"

definition make_document_create :: "document_create \<Rightarrow> exn + document_create" where
  "make_document_create raw =
     (case normalize_name 100 (new_document_number raw) of
        Inl e \<Rightarrow> Inl e | Inr n \<Rightarrow> Inr (raw\<lparr>new_document_number := n\<rparr>))"

definition document_to_domain :: "document_create \<Rightarrow> ('a mission_repo_scheme, exn, document) prog" where
  "document_to_domain dc =
     bindE new_uuid (\<lambda>i. ret \<lparr>document_id = i, document_type = new_document_type dc,
        document_number = new_document_number dc, document_expires_at = new_document_expires dc\<rparr>)"

record identity_create =
  new_display_name :: string
  new_first_name :: string
  new_last_name :: string
  new_birth_date :: int
  new_documents :: "document_create list"
  new_preferences :: preferences

definition make_identity_create :: "identity_create \<Rightarrow> exn + identity_create" where
  "make_identity_create raw =
     (case (normalize_name 200 (new_display_name raw), normalize_name 100 (new_first_name raw),
            normalize_name 100 (new_last_name raw)) of
        (Inr d, Inr f, Inr l) \<Rightarrow> Inr (raw\<lparr>new_display_name := d, new_first_name := f, new_last_name := l\<rparr>)
      | _ \<Rightarrow> Inl ValidationError)"

definition identity_to_domain :: "identity_create \<Rightarrow> ('a mission_repo_scheme, exn, identity) prog" where
  "identity_to_domain c =
     bindE new_uuid (\<lambda>i.
     bindE (mapE document_to_domain (new_documents c)) (\<lambda>ds.
     ret \<lparr>identity_id = i, identity_version = 0, display_name = new_display_name c,
          first_name = new_first_name c, last_name = new_last_name c, birth_date = new_birth_date c,
          documents = ds, identity_preferences = new_preferences c\<rparr>))"

text \<open>A field of an update is not given (\<open>None\<close>) or given; a given \<open>null\<close> is refused.\<close>

record identity_update =
  set_display_name :: "string option"
  set_first_name :: "string option"
  set_last_name :: "string option"
  set_birth_date :: "int option"
  set_documents :: "document_create list option"

definition normalize_optional_name :: "nat \<Rightarrow> string option option \<Rightarrow> exn + string option option" where
  "normalize_optional_name bound value =
     (case value of
        None \<Rightarrow> Inr None
      | Some None \<Rightarrow> Inr (Some None)
      | Some (Some v) \<Rightarrow> (case normalize_name bound v of Inl e \<Rightarrow> Inl e | Inr n \<Rightarrow> Inr (Some (Some n))))"

definition flatten_given :: "'a option option \<Rightarrow> 'a option" where
  "flatten_given v = (case v of None \<Rightarrow> None | Some x \<Rightarrow> x)"

definition make_identity_update ::
  "string option option \<Rightarrow> string option option \<Rightarrow> string option option \<Rightarrow> int option option \<Rightarrow>
     document_create list option option \<Rightarrow> exn + identity_update" where
  "make_identity_update dn fn ln bd ds =
     (case (normalize_optional_name 200 dn, normalize_optional_name 100 fn, normalize_optional_name 100 ln) of
        (Inr dn', Inr fn', Inr ln') \<Rightarrow>
          if dn' = None \<and> fn' = None \<and> ln' = None \<and> bd = None \<and> ds = None then Inl ValidationError
          else if dn' = Some None \<or> fn' = Some None \<or> ln' = Some None \<or> bd = Some None \<or> ds = Some None
          then Inl ValidationError
          else Inr \<lparr>set_display_name = flatten_given dn', set_first_name = flatten_given fn',
                 set_last_name = flatten_given ln', set_birth_date = flatten_given bd,
                 set_documents = flatten_given ds\<rparr>
      | _ \<Rightarrow> Inl ValidationError)"

definition given_or :: "'a option \<Rightarrow> 'a \<Rightarrow> 'a" where
  "given_or v old = (case v of None \<Rightarrow> old | Some x \<Rightarrow> x)"

definition apply_identity_update :: "identity_update \<Rightarrow> identity \<Rightarrow> ('a mission_repo_scheme, exn, identity) prog" where
  "apply_identity_update u i =
     bindE (case set_documents u of None \<Rightarrow> ret (documents i) | Some ds \<Rightarrow> mapE document_to_domain ds) (\<lambda>ds.
     ret (i\<lparr>display_name := given_or (set_display_name u) (display_name i),
            first_name := given_or (set_first_name u) (first_name i),
            last_name := given_or (set_last_name u) (last_name i),
            birth_date := given_or (set_birth_date u) (birth_date i), documents := ds\<rparr>))"

section \<open>Entity tags\<close>

definition identity_etag :: "identity \<Rightarrow> string" where
  "identity_etag i = CHR 0x22 # int_str (identity_version i) @ [CHR 0x22]"

definition if_none_match_matches :: "string option \<Rightarrow> string \<Rightarrow> bool" where
  "if_none_match_matches header current =
     (case header of
        None \<Rightarrow> False
      | Some h \<Rightarrow> list_ex (\<lambda>candidate.
          let normalized = py_strip candidate;
              weak = (if take 2 normalized = ''W/'' then py_strip (drop 2 normalized) else normalized)
          in normalized = ''*'' \<or> weak = current) (split_on CHR '','' h))"

definition identity_version_conflict :: exn where
  "identity_version_conflict = HTTPException 412 ''identity_version_conflict''"

definition require_identity_version :: "string option \<Rightarrow> identity \<Rightarrow> exn + int" where
  "require_identity_version if_match i =
     (case if_match of
        None \<Rightarrow> Inl (HTTPException 428 ''identity_version_required'')
      | Some h \<Rightarrow>
          let normalized = py_strip h in
          if length normalized < 2 \<or> \<not> (hd normalized = CHR 0x22 \<and> last normalized = CHR 0x22)
          then Inl (HTTPException 422 ''invalid_identity_version'')
          else (case py_int (butlast (tl normalized)) of
              None \<Rightarrow> Inl (HTTPException 422 ''invalid_identity_version'')
            | Some expected_version \<Rightarrow>
                if expected_version \<noteq> identity_version i then Inl identity_version_conflict
                else Inr expected_version))"

section \<open>Endpoints\<close>

record api_state = mission_repo +
  identity_store :: identity_repo
  creation_store :: creation_receipts

definition on_identities :: "(identity_repo, exn, 'a) prog \<Rightarrow> (api_state, exn, 'a) prog" where
  "on_identities p s = (case p (identity_store s) of (r, d) \<Rightarrow> (r, s\<lparr>identity_store := d\<rparr>))"

definition on_creations :: "(creation_receipts, exn, 'a) prog \<Rightarrow> (api_state, exn, 'a) prog" where
  "on_creations p s = (case p (creation_store s) of (r, d) \<Rightarrow> (r, s\<lparr>creation_store := d\<rparr>))"

definition tagged :: "identity \<Rightarrow> identity \<times> string" where
  "tagged i = (i, identity_etag i)"

definition create_identity_new :: "identity_create \<Rightarrow> (api_state, exn, identity) prog" where
  "create_identity_new req = bindE (identity_to_domain req) (\<lambda>i. on_identities (create_identity i))"

definition replay_identity :: "uuid \<Rightarrow> (api_state, exn, identity) prog" where
  "replay_identity pid =
     bindE (on_identities (get_identity pid)) (\<lambda>previous.
       case previous of None \<Rightarrow> raise (HTTPException 410 ''idempotent_resource_gone'') | Some i \<Rightarrow> ret i)"

text \<open>The \<open>except\<close> clauses of both creation endpoints.\<close>

definition creation_failed :: "creation_scope \<Rightarrow> string \<Rightarrow> string \<Rightarrow> exn \<Rightarrow> (api_state, exn, 'a) prog" where
  "creation_failed scope key fingerprint e =
     (if e = ResourceCreationConflictError then raise (HTTPException 409 ''idempotency_key_conflict'')
      else if e = ResourceCreationInProgressError then raise (HTTPException 409 ''idempotent_request_in_progress'')
      else thenE (on_creations (abort_creation scope key fingerprint)) (raise e))"

text \<open>\<open>fingerprint\<close> is the digest \<open>creation_fingerprint(identity)\<close> of the request.\<close>

definition create_identity_endpoint ::
  "identity_create \<Rightarrow> string \<Rightarrow> string option \<Rightarrow> (api_state, exn, identity \<times> string) prog" where
  "create_identity_endpoint req fingerprint idempotency_key =
     (case idempotency_key of
        None \<Rightarrow> bindE (create_identity_new req) (\<lambda>i. ret (tagged i))
      | Some key \<Rightarrow>
          tryElse
            (bindE (on_creations (begin_creation IdentityScope key fingerprint)) (\<lambda>previous.
               case previous of
                 Some pid \<Rightarrow> replay_identity pid
               | None \<Rightarrow> bindE (create_identity_new req) (\<lambda>created.
                   thenE (on_creations (complete_creation IdentityScope key (identity_id created))) (ret created))))
            (creation_failed IdentityScope key fingerprint)
            (\<lambda>i. ret (tagged i)))"

text \<open>The query of the listing endpoints: stripped, and not blank.\<close>

definition checked_query :: "string option \<Rightarrow> exn + string option" where
  "checked_query query =
     (case query of
        None \<Rightarrow> Inr None
      | Some q \<Rightarrow> if py_strip q = [] then Inl (HTTPException 422 ''q must not be blank'') else Inr (Some (py_strip q)))"

definition list_identities_endpoint :: "string option \<Rightarrow> int \<Rightarrow> (api_state, exn, identity list) prog" where
  "list_identities_endpoint query limit =
     bindE (liftE (checked_query query)) (\<lambda>q. on_identities (list_identities q limit))"

definition list_identity_summaries_endpoint :: "string option \<Rightarrow> int \<Rightarrow> (api_state, exn, identity_summary list) prog" where
  "list_identity_summaries_endpoint query limit =
     bindE (liftE (checked_query query)) (\<lambda>q. on_identities (list_identity_summaries q limit))"

record identity_summary_page =
  page_items :: "identity_summary list"
  page_has_more :: bool
  page_next_cursor :: "uuid option"

definition page_of :: "int \<Rightarrow> identity_summary list \<Rightarrow> identity_summary_page" where
  "page_of limit candidates =
     (let has_more = int (length candidates) > limit; items = first_n limit candidates in
      \<lparr>page_items = items, page_has_more = has_more,
       page_next_cursor = (if has_more then Some (summary_identity_id (last items)) else None)\<rparr>)"

definition page_identity_summaries :: "string option \<Rightarrow> int \<Rightarrow> uuid option \<Rightarrow> (api_state, exn, identity_summary_page) prog" where
  "page_identity_summaries query limit cursor =
     bindE (liftE (checked_query query)) (\<lambda>q.
     bindE (on_identities (list_identity_page_candidates q cursor (limit + 1))) (\<lambda>candidates.
     ret (page_of limit candidates)))"

datatype 'a get_response = NotModified string | Full 'a string

definition get_identity_endpoint :: "uuid \<Rightarrow> string option \<Rightarrow> (api_state, exn, identity get_response) prog" where
  "get_identity_endpoint k if_none_match =
     bindE (on_identities (get_identity k)) (\<lambda>found.
       case found of
         None \<Rightarrow> raise (HTTPException 404 ''Identity not found'')
       | Some i \<Rightarrow>
           if if_none_match_matches if_none_match (identity_etag i) then ret (NotModified (identity_etag i))
           else ret (Full i (identity_etag i)))"

text \<open>The part of \<open>PUT\<close>, \<open>PATCH\<close> and \<open>DELETE\<close> before the change, and the answers of the
  repository turned into responses.\<close>

definition guarded_identity :: "uuid \<Rightarrow> string option \<Rightarrow> (identity \<Rightarrow> int \<Rightarrow> (api_state, exn, 'a) prog) \<Rightarrow> (api_state, exn, 'a) prog" where
  "guarded_identity k if_match f =
     bindE (on_identities (get_identity k)) (\<lambda>found.
       case found of
         None \<Rightarrow> raise (HTTPException 404 ''Identity not found'')
       | Some i \<Rightarrow> bindE (liftE (require_identity_version if_match i)) (\<lambda>v. f i v))"

definition version_conflict_response :: "exn \<Rightarrow> exn" where
  "version_conflict_response e = (if e = IdentityVersionConflictError then identity_version_conflict else e)"

definition updated_response :: "(api_state, exn, identity option) prog \<Rightarrow> (api_state, exn, identity \<times> string) prog" where
  "updated_response p =
     tryElse p (\<lambda>e. raise (version_conflict_response e))
       (\<lambda>updated. case updated of None \<Rightarrow> raise (HTTPException 404 ''Identity not found'') | Some i \<Rightarrow> ret (tagged i))"

definition update_identity_preferences_endpoint ::
  "uuid \<Rightarrow> preferences \<Rightarrow> string option \<Rightarrow> (api_state, exn, identity \<times> string) prog" where
  "update_identity_preferences_endpoint k p if_match =
     guarded_identity k if_match (\<lambda>i v. updated_response (on_identities (update_preferences k p v)))"

definition update_identity_endpoint ::
  "uuid \<Rightarrow> identity_update \<Rightarrow> string option \<Rightarrow> (api_state, exn, identity \<times> string) prog" where
  "update_identity_endpoint k u if_match =
     guarded_identity k if_match (\<lambda>i v.
       updated_response (bindE (apply_identity_update u i) (\<lambda>i'. on_identities (update_identity i' v))))"

definition delete_identity_endpoint :: "uuid \<Rightarrow> string option \<Rightarrow> (api_state, exn, unit) prog" where
  "delete_identity_endpoint k if_match =
     guarded_identity k if_match (\<lambda>i v.
       bindE (references_identity k) (\<lambda>used.
         if used then raise (HTTPException 409 ''identity_in_use'')
         else tryElse (on_identities (delete_identity k v)) (\<lambda>e. raise (version_conflict_response e))
           (\<lambda>deleted. if \<not> deleted then raise (HTTPException 404 ''Identity not found'') else ret ())))"

end
