(* ===== verification/Pagination.thy ===== *)
theory Pagination
  imports Prelude
begin

text \<open>
  Pages of a listing that are followed by cursors. The interface \<open>cursor_pages\<close> states what a page
  promises about the rows that are left, and \<open>follow\<close> is a client that takes every page; the
  listings of identities, missions and events are instances of it. \<open>keyset_rows\<close> is the listing that
  continues after the key of the last row of a page.
\<close>

fun follow :: "('c \<Rightarrow> 'a list \<times> 'c option) \<Rightarrow> nat \<Rightarrow> 'c \<Rightarrow> 'a list" where
  "follow page 0 c = []"
| "follow page (Suc n) c = (case page c of (items, None) \<Rightarrow> items | (items, Some c') \<Rightarrow> items @ follow page n c')"

locale cursor_pages =
  fixes page :: "nat \<Rightarrow> 'c \<Rightarrow> 's \<Rightarrow> 'a list \<times> 'c option"
    and rows :: "'c \<Rightarrow> 's \<Rightarrow> 'a list"
    and sound :: "'s \<Rightarrow> bool"
  assumes page_items: "sound s \<Longrightarrow> 0 < k \<Longrightarrow> fst (page k c s) = take k (rows c s)"
    and page_end: "sound s \<Longrightarrow> 0 < k \<Longrightarrow> snd (page k c s) = None \<longleftrightarrow> length (rows c s) \<le> k"
    and page_next: "sound s \<Longrightarrow> 0 < k \<Longrightarrow> snd (page k c s) = Some c' \<Longrightarrow> rows c' s = drop k (rows c s)"
begin

text \<open>Following the cursors yields every row once, in order, and then stops.\<close>

lemma follow_rows:
  assumes "sound s" and "0 < k"
  shows "length (rows c s) < n \<Longrightarrow> follow (\<lambda>c. page k c s) n c = rows c s"
proof (induction n arbitrary: c)
  case (Suc n c)
  obtain items after where p: "page k c s = (items, after)" by fastforce
  have items: "items = take k (rows c s)" using page_items [OF assms, of c] p by simp
  show ?case
  proof (cases "after")
    case None
    then have "length (rows c s) \<le> k" using page_end [OF assms, of c] p by simp
    then show ?thesis using p None items by simp
  next
    case (Some c')
    then have r: "rows c' s = drop k (rows c s)" and l: "\<not> length (rows c s) \<le> k"
      using page_next [OF assms, of c c'] page_end [OF assms, of c] p by auto
    have "follow (\<lambda>c. page k c s) n c' = rows c' s" by (rule Suc.IH) (use Suc.prems assms(2) l r in simp)
    then show ?thesis using p Some items r by simp
  qed
qed simp

end

section \<open>Keyset pagination\<close>

definition above :: "'k :: linorder option \<Rightarrow> 'k \<Rightarrow> bool" where
  "above c k \<longleftrightarrow> (case c of None \<Rightarrow> True | Some x \<Rightarrow> x < k)"

text \<open>Rows in the strict order of their keys.\<close>

lemma strict_keys:
  fixes key :: "'a \<Rightarrow> 'k :: linorder"
  assumes "distinct (map key xs)"
  shows "sorted_wrt (<) (map key (sort_key key xs))"
proof -
  have "distinct (map key (sort_key key xs))" using assms by (simp add: distinct_map)
  then show ?thesis by (simp add: strict_sorted_iff)
qed

lemma split_after:
  fixes key :: "'a \<Rightarrow> 'k :: linorder"
  assumes "sorted_wrt (<) (map key A)" and "0 < k" and "k < length A"
  shows "filter (\<lambda>x. key (last (take k A)) < key x) A = drop k A"
proof -
  let ?x = "key (last (take k A))"
  have s: "sorted_wrt (<) (map key (take k A @ drop k A))" using assms(1) by simp
  have ne: "take k A \<noteq> []" using assms(2,3) by (cases A) simp_all
  have gt: "?x < key b" if "b \<in> set (drop k A)" for b
    using s ne that unfolding map_append sorted_wrt_append by auto
  have le: "key a \<le> ?x" if "a \<in> set (take k A)" for a
  proof -
    have "sorted_wrt (<) (map key (take k A))" using s by (simp only: map_append sorted_wrt_append)
    then have "sorted_wrt (<) (map key (butlast (take k A) @ [last (take k A)]))" using ne by simp
    then have "key b \<le> ?x" if "b \<in> set (butlast (take k A) @ [last (take k A)])" for b
      using that unfolding map_append sorted_wrt_append by (auto simp: less_imp_le)
    then show ?thesis using that append_butlast_last_id [OF ne] by simp
  qed
  have "filter (\<lambda>x. ?x < key x) A = filter (\<lambda>x. ?x < key x) (take k A) @ filter (\<lambda>x. ?x < key x) (drop k A)"
    by (simp flip: filter_append)
  also have "\<dots> = drop k A" using le gt by (auto simp: filter_empty_conv filter_id_conv not_less)
  finally show ?thesis .
qed

lemma keyset_next:
  fixes key :: "'a \<Rightarrow> 'k :: linorder"
  assumes "sorted_wrt (<) (map key xs)" and "A = filter (\<lambda>x. above c (key x) \<and> P x) xs" and "0 < k" and "k < length A"
  shows "filter (\<lambda>x. above (Some (key (last (take k A)))) (key x) \<and> P x) xs = drop k A"
proof -
  let ?x = "key (last (take k A))"
  have "take k A \<noteq> []" using assms(3,4) by (cases A) simp_all
  then have "last (take k A) \<in> set A" by (meson in_set_takeD last_in_set)
  then have up: "above c ?x" unfolding assms(2) by simp
  have "above (Some ?x) (key x) \<and> P x \<longleftrightarrow> (above c (key x) \<and> P x) \<and> ?x < key x" for x
    using up by (cases c) (auto simp: above_def)
  then have "filter (\<lambda>x. above (Some ?x) (key x) \<and> P x) xs = filter (\<lambda>x. ?x < key x) A"
    unfolding assms(2) filter_filter by (intro filter_cong refl) blast
  moreover have "sorted_wrt (<) (map key A)"
    using assms(1) unfolding assms(2) by (simp add: sorted_wrt_map sorted_wrt_filter)
  ultimately show ?thesis using split_after [OF _ assms(3,4)] by simp
qed

end
