(* ===== verification/IdentityContracts.thy ===== *)
theory IdentityContracts
  imports Identities Demo Pagination
begin

text \<open>
  What the identity endpoints guarantee: entity tags round-trip and protect against lost updates,
  a creation is replayed under its key, pages cover a listing exactly once, and an identity that a
  mission refers to is not deleted.
\<close>

section \<open>Entity tags\<close>

lemma int_str_inj [simp]: "int_str a = int_str b \<longleftrightarrow> a = b"
  by (metis option.inject py_int_str)

lemma int_str_chars: "c \<in> set (int_str n) \<Longrightarrow> is_digit c \<or> c = CHR ''-''"
  using nat_str_digits by (auto simp: int_str_def split: if_splits)

lemma etag_strip [simp]: "py_strip (identity_etag i) = identity_etag i"
  by (rule strip_id) (simp add: identity_etag_def is_space_def)

lemma etag_inj: "identity_etag i = identity_etag j \<longleftrightarrow> identity_version i = identity_version j"
  by (simp add: identity_etag_def)

lemma etag_split: "split_on CHR '','' (identity_etag i) = [identity_etag i]"
  using int_str_chars [of "CHR '',''" "identity_version i"]
  by (intro split_on_absent) (auto simp: identity_etag_def is_digit_def)

lemma require_etag:
  "require_identity_version (Some (identity_etag i)) j =
     (if identity_version i = identity_version j then Inr (identity_version j) else Inl identity_version_conflict)"
proof -
  have "length (identity_etag i) \<ge> 2" "hd (identity_etag i) = CHR 0x22" "last (identity_etag i) = CHR 0x22"
    "butlast (tl (identity_etag i)) = int_str (identity_version i)"
    by (simp_all add: identity_etag_def)
  then show ?thesis by (auto simp: require_identity_version_def Let_def)
qed

text \<open>The entity tag of an identity is read back exactly: sent as \<open>If-Match\<close> it passes the
  version check for precisely the identities of the same version, sent as \<open>If-None-Match\<close> it
  matches precisely their tags, and without \<open>If-Match\<close> no change is accepted.\<close>

theorem etag_roundtrip:
  "require_identity_version (Some (identity_etag i)) j =
     (if identity_version i = identity_version j then Inr (identity_version j) else Inl identity_version_conflict)
   \<and> if_none_match_matches (Some (identity_etag i)) (identity_etag j) = (identity_version i = identity_version j)
   \<and> if_none_match_matches (Some ''*'') (identity_etag j)
   \<and> require_identity_version None j = Inl (HTTPException 428 ''identity_version_required'')"
proof -
  have q: "take 2 (identity_etag i) \<noteq> ''W/''" "identity_etag i \<noteq> ''*''" by (simp_all add: identity_etag_def)
  have star: "py_strip ''*'' = ''*''" by (rule strip_id) (simp add: is_space_def)
  have "if_none_match_matches (Some (identity_etag i)) (identity_etag j) = (identity_version i = identity_version j)"
    by (simp add: if_none_match_matches_def etag_split Let_def q etag_inj)
  moreover have "if_none_match_matches (Some ''*'') (identity_etag j)"
    by (simp add: if_none_match_matches_def split_on_absent Let_def star)
  ultimately show ?thesis by (simp add: require_etag) (simp add: require_identity_version_def)
qed

section \<open>No update is lost\<close>

definition idents_ok :: "identity_repo \<Rightarrow> bool" where
  "idents_ok d \<longleftrightarrow> (\<forall>k i. map_of d k = Some i \<longrightarrow> identity_id i = k)"

lemma guarded_found:
  "map_of (identity_store s) k = Some i \<Longrightarrow>
     guarded_identity k m f s = (case require_identity_version m i of Inl e \<Rightarrow> (Inl e, s) | Inr v \<Rightarrow> f i v s)"
  by (simp add: guarded_identity_def bindE_def on_identities_def get_identity_def gets_def liftE_def split: sum.split)

lemma guarded_Inr:
  assumes "guarded_identity k m f s = (Inr x, s')"
  obtains i where "map_of (identity_store s) k = Some i" and "require_identity_version m i = Inr (identity_version i)"
    and "f i (identity_version i) s = (Inr x, s')"
proof (cases "map_of (identity_store s) k")
  case None
  then show ?thesis using assms by (simp add: guarded_identity_def bindE_def on_identities_def get_identity_def gets_def raise_def)
next
  case (Some i)
  then obtain v where v: "require_identity_version m i = Inr v" "f i v s = (Inr x, s')"
    using assms by (auto simp: guarded_found split: sum.splits)
  then have "v = identity_version i"
    by (auto simp: require_identity_version_def Let_def split: option.splits if_splits)
  then show ?thesis using that Some v by simp
qed

lemma used_up:
  assumes "map_of (identity_store s) k = Some i" and "require_identity_version m j = Inr v" and "identity_version i \<noteq> v"
  shows "guarded_identity k m f s = (Inl identity_version_conflict, s)"
proof -
  have "require_identity_version m i = Inl identity_version_conflict"
    using assms(2,3) by (auto simp: require_identity_version_def Let_def split: option.splits if_splits)
  then show ?thesis using assms(1) by (simp add: guarded_found)
qed

lemma new_documents_total:
  "\<exists>xs s'. mapE document_to_domain ds s = (Inr xs, s') \<and> identity_store s' = identity_store (s :: api_state)
     \<and> creation_store s' = creation_store s"
proof (induction ds arbitrary: s)
  case (Cons d ds)
  obtain x s1 where 1: "document_to_domain d s = (Inr x, s1)" "identity_store s1 = identity_store s"
      "creation_store s1 = creation_store s"
    by (simp add: document_to_domain_def bindE_def new_uuid_def ret_def)
  obtain xs s2 where "mapE document_to_domain ds s1 = (Inr xs, s2)" "identity_store s2 = identity_store s1"
      "creation_store s2 = creation_store s1"
    using Cons [of s1] by blast
  then show ?case using 1 by (simp add: bindE_def ret_def)
qed (simp add: ret_def)

lemma apply_update_result:
  obtains i' s' where "apply_identity_update u i s = (Inr i', s')" and "identity_store s' = identity_store (s :: api_state)"
    and "identity_id i' = identity_id i" and "identity_version i' = identity_version i"
proof -
  obtain xs s' where "(case set_documents u of None \<Rightarrow> ret (documents i) | Some ds \<Rightarrow> mapE document_to_domain ds) s = (Inr xs, s')"
      "identity_store s' = identity_store s"
  proof (cases "set_documents u")
    case None
    then show ?thesis using that [of "documents i" s] by (simp add: ret_def)
  next
    case (Some ds)
    from new_documents_total [of ds s] show ?thesis using that Some by auto
  qed
  then show ?thesis using that by (auto simp: apply_identity_update_def bindE_def ret_def)
qed

lemma changed_store:
  assumes "map_of d k = Some i" and "identity_id i' = k"
  shows "update_identity i' (identity_version i) d
     = (Inr (Some (i'\<lparr>identity_version := identity_version i + 1\<rparr>)),
        dict_set k (i'\<lparr>identity_version := identity_version i + 1\<rparr>) d)"
  using assms by (simp add: update_identity_def Let_def)

lemma update_endpoint_result:
  assumes "idents_ok (identity_store s)" and "update_identity_endpoint k u m s = (Inr r, s')"
  obtains i i' where "map_of (identity_store s) k = Some i" and "require_identity_version m i = Inr (identity_version i)"
    and "r = tagged i'" and "identity_version i' = identity_version i + 1" and "identity_id i' = k"
    and "identity_store s' = dict_set k i' (identity_store s)"
proof -
  obtain i where i: "map_of (identity_store s) k = Some i" "require_identity_version m i = Inr (identity_version i)"
    and run: "updated_response (bindE (apply_identity_update u i) (\<lambda>i'. on_identities (update_identity i' (identity_version i)))) s = (Inr r, s')"
    using assms(2) unfolding update_identity_endpoint_def by (rule guarded_Inr)
  have id: "identity_id i = k" using assms(1) i(1) by (simp add: idents_ok_def)
  obtain i1 s1 where a: "apply_identity_update u i s = (Inr i1, s1)" "identity_store s1 = identity_store s"
      "identity_id i1 = identity_id i" "identity_version i1 = identity_version i"
    by (rule apply_update_result)
  have "update_identity i1 (identity_version i) (identity_store s) =
      (Inr (Some (i1\<lparr>identity_version := identity_version i + 1\<rparr>)),
        dict_set k (i1\<lparr>identity_version := identity_version i + 1\<rparr>) (identity_store s))"
    by (rule changed_store [OF i(1)]) (simp add: a(3) id)
  with run a have "r = tagged (i1\<lparr>identity_version := identity_version i + 1\<rparr>)"
    "identity_store s' = dict_set k (i1\<lparr>identity_version := identity_version i + 1\<rparr>) (identity_store s)"
    by (auto simp: updated_response_def tryElse_def bindE_def on_identities_def ret_def)
  then show ?thesis using that [of i "i1\<lparr>identity_version := identity_version i + 1\<rparr>"] i a(3) id by simp
qed

text \<open>Two clients that read the same version cannot overwrite each other: after a \<open>PATCH\<close> has
  succeeded, every further change (\<open>PATCH\<close>, \<open>PUT\<close> of preferences, \<open>DELETE\<close>) sent with the same
  \<open>If-Match\<close> is refused with status 412 and changes nothing, while the tag of the response is the
  tag of the stored identity, whose version went up by one. No other identity changes.\<close>

theorem stale_etag_refused:
  assumes "idents_ok (identity_store s)" and "update_identity_endpoint k u m s = (Inr (i, tag), s')"
  shows "map_of (identity_store s') k = Some i \<and> tag = identity_etag i
     \<and> require_identity_version (Some tag) i = Inr (identity_version i)
     \<and> (\<forall>k'. k' = k \<or> map_of (identity_store s') k' = map_of (identity_store s) k')
     \<and> update_identity_endpoint k u2 m s' = (Inl identity_version_conflict, s')
     \<and> update_identity_preferences_endpoint k p m s' = (Inl identity_version_conflict, s')
     \<and> delete_identity_endpoint k m s' = (Inl identity_version_conflict, s')"
proof -
  obtain j i' where x: "map_of (identity_store s) k = Some j" "require_identity_version m j = Inr (identity_version j)"
      "(i, tag) = tagged i'" "identity_version i' = identity_version j + 1" "identity_id i' = k"
      "identity_store s' = dict_set k i' (identity_store s)"
    by (rule update_endpoint_result [OF assms])
  have i: "i = i'" "tag = identity_etag i" using x(3) by (simp_all add: tagged_def)
  have here: "map_of (identity_store s') k = Some i" using x(6) i by simp
  have "identity_version i \<noteq> identity_version j" using x(4) i by simp
  note used = used_up [OF here x(2) this]
  show ?thesis
    unfolding update_identity_endpoint_def update_identity_preferences_endpoint_def delete_identity_endpoint_def used
    using here i x(6) by (simp add: require_etag)
qed

definition api_demo :: api_state where
  "api_demo = \<lparr>missions = [], attempts = [], fresh = (\<lambda>n. n + 100), tick = 0,
     identity_store = [(3, demo_identity)], creation_store = []\<rparr>"

definition rename_demo :: identity_update where
  "rename_demo = \<lparr>set_display_name = Some ''K'', set_first_name = None, set_last_name = None,
     set_birth_date = None, set_documents = None\<rparr>"

theorem stale_etag_refused_witness:
  "delete_identity_endpoint 3 (Some (identity_etag demo_identity)) (snd (update_identity_endpoint 3 rename_demo (Some (identity_etag demo_identity)) api_demo))
     = (Inl identity_version_conflict, snd (update_identity_endpoint 3 rename_demo (Some (identity_etag demo_identity)) api_demo))"
proof -
  let ?m = "Some (identity_etag demo_identity)"
  let ?i = "demo_identity\<lparr>display_name := ''K'', identity_version := 2\<rparr>"
  have ok: "idents_ok (identity_store api_demo)" by (simp add: idents_ok_def api_demo_def demo_identity_def)
  have m: "map_of (identity_store api_demo) 3 = Some demo_identity" by (simp add: api_demo_def)
  have "update_identity_endpoint 3 rename_demo ?m api_demo
      = (Inr (?i, identity_etag ?i), api_demo\<lparr>identity_store := [(3, ?i)]\<rparr>)"
    unfolding update_identity_endpoint_def guarded_found [OF m] require_etag
    by (simp add: updated_response_def tryElse_def bindE_def apply_identity_update_def rename_demo_def ret_def
        on_identities_def update_identity_def api_demo_def demo_identity_def Let_def tagged_def given_or_def)
  from stale_etag_refused [OF ok this] this show ?thesis by simp
qed

section \<open>Creation under a key\<close>

lemma to_domain_result:
  obtains i s' where "identity_to_domain req s = (Inr i, s')" and "identity_store s' = identity_store (s :: api_state)"
    and "creation_store s' = creation_store s"
proof -
  obtain xs s' where "mapE document_to_domain (new_documents req) (s\<lparr>tick := Suc (tick s)\<rparr>) = (Inr xs, s')"
      "identity_store s' = identity_store s" "creation_store s' = creation_store s"
    using new_documents_total [of "new_documents req" "s\<lparr>tick := Suc (tick s)\<rparr>"] by auto
  then show ?thesis using that by (auto simp: identity_to_domain_def bindE_def new_uuid_def ret_def)
qed

lemma first_creation:
  assumes "map_of (creation_store s) (IdentityScope, key) = None"
  obtains i s' where "create_identity_endpoint req fp (Some key) s = (Inr (tagged i), s')"
    and "map_of (identity_store s') (identity_id i) = Some i"
    and "map_of (creation_store s') (IdentityScope, key) = Some (fp, Some (identity_id i))"
proof -
  let ?k = "(IdentityScope, key)"
  let ?s1 = "s\<lparr>creation_store := dict_set ?k (fp, None) (creation_store s)\<rparr>"
  obtain i s2 where td: "identity_to_domain req ?s1 = (Inr i, s2)" "identity_store s2 = identity_store ?s1"
      "creation_store s2 = creation_store ?s1"
    by (rule to_domain_result)
  let ?s3 = "s2\<lparr>identity_store := dict_set (identity_id i) i (identity_store s2)\<rparr>"
  have new: "create_identity_new req ?s1 = (Inr i, ?s3)"
    by (simp add: create_identity_new_def bindE_def td(1) on_identities_def create_identity_def)
  have "complete_creation IdentityScope key (identity_id i) (creation_store ?s3)
      = (Inr (), dict_set ?k (fp, Some (identity_id i)) (creation_store ?s3))"
    by (simp add: complete_creation_def td(3))
  then have "create_identity_endpoint req fp (Some key) s
      = (Inr (tagged i), ?s3\<lparr>creation_store := dict_set ?k (fp, Some (identity_id i)) (creation_store ?s3)\<rparr>)"
    using assms new
    by (simp add: create_identity_endpoint_def tryElse_def bindE_def on_creations_def begin_creation_def thenE_def ret_def)
  then show ?thesis using that by simp
qed

lemma repeated_creation:
  assumes "map_of (creation_store t) (IdentityScope, key) = Some (fp, Some pid)"
  shows "create_identity_endpoint req fp (Some key) t
     = (case map_of (identity_store t) pid of
          None \<Rightarrow> Inl (HTTPException 410 ''idempotent_resource_gone'') | Some j \<Rightarrow> Inr (tagged j), t)"
    and "fp2 \<noteq> fp \<Longrightarrow> create_identity_endpoint req fp2 (Some key) t
     = (Inl (HTTPException 409 ''idempotency_key_conflict''), t)"
proof -
  have b: "begin_creation IdentityScope key fp (creation_store t) = (Inr (Some pid), creation_store t)"
    "fp2 \<noteq> fp \<Longrightarrow> begin_creation IdentityScope key fp2 (creation_store t) = (Inl ResourceCreationConflictError, creation_store t)"
    using assms by (simp_all add: begin_creation_def)
  have a: "abort_creation IdentityScope key fp (creation_store t) = (Inr (), creation_store t)"
    using assms by (simp add: abort_creation_def)
  show "create_identity_endpoint req fp (Some key) t
     = (case map_of (identity_store t) pid of
          None \<Rightarrow> Inl (HTTPException 410 ''idempotent_resource_gone'') | Some j \<Rightarrow> Inr (tagged j), t)"
    using b(1) a
    by (cases "map_of (identity_store t) pid")
       (simp_all add: create_identity_endpoint_def tryElse_def bindE_def on_creations_def replay_identity_def
          on_identities_def get_identity_def gets_def raise_def ret_def creation_failed_def thenE_def)
  show "create_identity_endpoint req fp2 (Some key) t = (Inl (HTTPException 409 ''idempotency_key_conflict''), t)"
    if "fp2 \<noteq> fp"
    using b(2) [OF that]
    by (simp add: create_identity_endpoint_def tryElse_def bindE_def on_creations_def creation_failed_def raise_def)
qed

text \<open>Creating an identity under an idempotency key creates it once: the first request always
  succeeds and stores the identity; from then on, in every later state that still holds the
  receipt, a request with the same key and fingerprint creates nothing and answers with the stored
  identity (410 once it has been deleted), and one with another fingerprint is refused with 409.\<close>

theorem creation_runs_once:
  assumes "map_of (creation_store s) (IdentityScope, key) = None"
    and "create_identity_endpoint req fp (Some key) s = (res, s')"
    and "map_of (creation_store t) (IdentityScope, key) = map_of (creation_store s') (IdentityScope, key)"
  shows "\<exists>i. res = Inr (i, identity_etag i) \<and> map_of (identity_store s') (identity_id i) = Some i
     \<and> create_identity_endpoint req2 fp (Some key) t
         = (case map_of (identity_store t) (identity_id i) of
              None \<Rightarrow> Inl (HTTPException 410 ''idempotent_resource_gone'')
            | Some j \<Rightarrow> Inr (j, identity_etag j), t)
     \<and> (fp2 = fp \<or> create_identity_endpoint req2 fp2 (Some key) t
            = (Inl (HTTPException 409 ''idempotency_key_conflict''), t))"
proof -
  obtain i s1 where x: "create_identity_endpoint req fp (Some key) s = (Inr (tagged i), s1)"
      "map_of (identity_store s1) (identity_id i) = Some i"
      "map_of (creation_store s1) (IdentityScope, key) = Some (fp, Some (identity_id i))"
    by (rule first_creation [OF assms(1)])
  then have r: "res = Inr (i, identity_etag i)" "s' = s1" using assms(2) by (simp_all add: tagged_def)
  then have t: "map_of (creation_store t) (IdentityScope, key) = Some (fp, Some (identity_id i))"
    using assms(3) x(3) by simp
  show ?thesis
    using r x(2) repeated_creation [where req = req2, OF t] by (intro exI [of _ i]) (auto simp: tagged_def split: option.split)
qed

definition create_demo :: identity_create where
  "create_demo = \<lparr>new_display_name = ''Ada'', new_first_name = ''A'', new_last_name = ''L'', new_birth_date = 1,
     new_documents = [], new_preferences = identity_preferences demo_identity\<rparr>"

theorem creation_runs_once_witness:
  "\<exists>i. create_identity_endpoint create_demo ''f'' (Some ''k'') (snd (create_identity_endpoint create_demo ''f'' (Some ''k'') api_demo))
     = (Inr (i, identity_etag i), snd (create_identity_endpoint create_demo ''f'' (Some ''k'') api_demo))"
proof -
  have none: "map_of (creation_store api_demo) (IdentityScope, ''k'') = None" by (simp add: api_demo_def)
  obtain res s' where run: "create_identity_endpoint create_demo ''f'' (Some ''k'') api_demo = (res, s')" by fastforce
  note once = creation_runs_once [where ?req2.0 = create_demo and ?fp2.0 = "''f''", OF none run refl]
  from once obtain i where
    "map_of (identity_store s') (identity_id i) = Some i"
    "create_identity_endpoint create_demo ''f'' (Some ''k'') s' = (case map_of (identity_store s') (identity_id i) of
              None \<Rightarrow> Inl (HTTPException 410 ''idempotent_resource_gone'')
            | Some j \<Rightarrow> Inr (j, identity_etag j), s')"
    by (elim exE conjE)
  then have "create_identity_endpoint create_demo ''f'' (Some ''k'') s' = (Inr (i, identity_etag i), s')"
    by (simp only: option.case)
  then show ?thesis unfolding run snd_conv by (rule exI)
qed

section \<open>Pages\<close>

definition matching_after :: "string option \<Rightarrow> uuid option \<Rightarrow> identity_repo \<Rightarrow> identity list" where
  "matching_after n cursor d =
     filter (\<lambda>i. (case cursor of None \<Rightarrow> True | Some c \<Rightarrow> identity_id i > c) \<and> identity_matches n i)
       (sort_key identity_id (dict_values d))"

lemma idents_distinct:
  assumes "dict_ok d" and "idents_ok d"
  shows "distinct (map identity_id (dict_values d))"
proof -
  have "identity_id i = k" if "(k, i) \<in> set d" for k i
    using that assms by (simp add: dict_ok_def idents_ok_def)
  then have "map identity_id (dict_values d) = map fst d" by (auto simp: dict_values_def)
  then show ?thesis using assms(1) by (simp add: dict_ok_def)
qed

lemma matching_next:
  assumes "dict_ok d" and "idents_ok d" and "A = matching_after n c d" and "0 < k" and "k < length A"
  shows "matching_after n (Some (identity_id (last (take k A)))) d = drop k A"
proof -
  have "matching_after n c' d = filter (\<lambda>i. above c' (identity_id i) \<and> identity_matches n i)
      (sort_key identity_id (dict_values d))" for c'
    by (simp add: matching_after_def above_def)
  then show ?thesis
    using keyset_next [OF strict_keys [OF idents_distinct [OF assms(1,2)]] _ assms(4,5)] assms(3) by simp
qed

text \<open>Following the cursors lists every matching identity exactly once, in the order of the
  identifiers: a page holds the first \<open>limit\<close> matches after its cursor, it announces more exactly
  when some are left, and then the matches after the next cursor are precisely the ones that are
  left, so no page repeats or skips one. Listing changes nothing.\<close>

theorem identity_pages_complete:
  assumes "dict_ok (identity_store s)" and "idents_ok (identity_store s)" and "0 < limit"
    and "normalize_query query = Inr n"
  shows "\<exists>p. page_identity_summaries query limit cursor s = (Inr p, s)
     \<and> page_items p = map identity_summary_of (take (nat limit) (matching_after n cursor (identity_store s)))
     \<and> (case page_next_cursor p of
          None \<Rightarrow> \<not> page_has_more p \<and> page_items p = map identity_summary_of (matching_after n cursor (identity_store s))
        | Some c \<Rightarrow> page_has_more p
            \<and> page_items p @ map identity_summary_of (matching_after n (Some c) (identity_store s))
                = map identity_summary_of (matching_after n cursor (identity_store s)))"
proof -
  let ?d = "identity_store s" and ?k = "nat limit"
  define A where "A = matching_after n cursor ?d"
  have q: "normalize_query (map_option py_strip query) = Inr n"
    using assms(4) by (cases query) (simp_all add: normalize_query_def split: if_splits)
  have "checked_query query = Inr (map_option py_strip query)"
    using assms(4) by (auto simp: normalize_query_def checked_query_def casefold_def split: option.splits if_splits)
  then have run: "page_identity_summaries query limit cursor s
      = (Inr (page_of limit (first_n (limit + 1) (map identity_summary_of A))), s)"
    using assms(3) q
    by (simp add: page_identity_summaries_def bindE_def liftE_def on_identities_def list_identity_page_candidates_def
        thenE_def require_limit_def require_def ret_def gets_def A_def matching_after_def)
  have n1: "nat (limit + 1) = Suc ?k" using assms(3) by simp
  show ?thesis
  proof (cases "length A > ?k")
    case False
    then have "page_of limit (first_n (limit + 1) (map identity_summary_of A))
        = \<lparr>page_items = map identity_summary_of A, page_has_more = False, page_next_cursor = None\<rparr>"
      using assms(3) by (simp add: page_of_def first_n_def n1 Let_def)
    then show ?thesis using run False by (simp add: A_def)
  next
    case True
    have ne: "take ?k A \<noteq> []" using True assms(3) by (cases A) simp_all
    have "page_of limit (first_n (limit + 1) (map identity_summary_of A))
        = \<lparr>page_items = map identity_summary_of (take ?k A), page_has_more = True,
           page_next_cursor = Some (identity_id (last (take ?k A)))\<rparr>"
      using True assms(3) ne
      by (simp add: page_of_def first_n_def n1 Let_def take_map last_map identity_summary_of_def min_def le_Suc_eq nat_less_iff)
    moreover have "matching_after n (Some (identity_id (last (take ?k A)))) ?d = drop ?k A"
      by (rule matching_next [OF assms(1,2) A_def _ True]) (use assms(3) in simp)
    moreover have "map identity_summary_of (take ?k A) @ map identity_summary_of (drop ?k A) = map identity_summary_of A"
      by (simp flip: map_append)
    ultimately show ?thesis using run by (simp add: A_def)
  qed
qed

theorem identity_pages_complete_witness:
  "\<exists>p. page_identity_summaries (Some ''Kar'') 5 None api_demo = (Inr p, api_demo)"
proof -
  have d: "dict_ok (identity_store api_demo)" "idents_ok (identity_store api_demo)"
    by (simp_all add: api_demo_def dict_ok_def idents_ok_def demo_identity_def)
  have q: "normalize_query (Some ''Kar'') = Inr (Some ''kar'')" by code_simp
  from identity_pages_complete [OF d _ q, of 5 None] show ?thesis by auto
qed

end
