(* ===== verification/Texts.thy ===== *)
theory Texts
  imports Prelude
begin

text \<open>
  Free text: what a user, a page or a model writes is a list of Unicode code points (\<open>utext\<close>),
  since pages and their markers are Russian as well as English; identifiers, URLs and reason
  codes stay ASCII \<open>string\<close>s. \<open>value.split()\<close>, \<open>" ".join\<close>, \<open>splitlines\<close> and the normal form
  \<open>" ".join(value.split())\<close> that every text validator uses are defined for both. Text lengths are
  numbers of code points, as Python counts them.
\<close>

section \<open>Words\<close>

type_synonym utext = "nat list"

definition codes :: "string \<Rightarrow> utext" where
  "codes s = map of_char s"

lemma codes_length [simp]: "length (codes s) = length s" "codes s = [] \<longleftrightarrow> s = []"
  by (simp_all add: codes_def)

text \<open>\<open>str.isspace\<close> on code points.\<close>

definition text_space :: "nat \<Rightarrow> bool" where
  "text_space n \<longleftrightarrow> (9 \<le> n \<and> n \<le> 13) \<or> (28 \<le> n \<and> n \<le> 32) \<or> n = 133 \<or> n = 160 \<or> n = 5760
     \<or> (8192 \<le> n \<and> n \<le> 8202) \<or> n = 8232 \<or> n = 8233 \<or> n = 8239 \<or> n = 8287 \<or> n = 12288"

text \<open>The maximal runs of characters that are not in \<open>P\<close>.\<close>

fun words_by :: "('a \<Rightarrow> bool) \<Rightarrow> 'a list \<Rightarrow> 'a list list" where
  "words_by P [] = []"
| "words_by P [c] = (if P c then [] else [[c]])"
| "words_by P (c # d # s) =
     (let ws = words_by P (d # s) in
      if P c then ws
      else if P d then [c] # ws
      else (case ws of [] \<Rightarrow> [[c]] | w # vs \<Rightarrow> (c # w) # vs))"

fun py_join :: "'a list \<Rightarrow> 'a list list \<Rightarrow> 'a list" where
  "py_join sep [] = []"
| "py_join sep [w] = w"
| "py_join sep (w # ws) = w @ sep @ py_join sep ws"

definition squeeze :: "string \<Rightarrow> string" where
  "squeeze s = py_join '' '' (words_by is_space s)"

definition squeeze_text :: "utext \<Rightarrow> utext" where
  "squeeze_text t = py_join [32] (words_by text_space t)"

definition word_by :: "('a \<Rightarrow> bool) \<Rightarrow> 'a list \<Rightarrow> bool" where
  "word_by P w \<longleftrightarrow> w \<noteq> [] \<and> list_all (\<lambda>c. \<not> P c) w"

lemma words_by_words: "w \<in> set (words_by P s) \<Longrightarrow> word_by P w"
proof (induction P s arbitrary: w rule: words_by.induct)
  case (3 P c d s)
  then show ?case
    by (cases "words_by P (d # s)") (auto simp: word_by_def Let_def split: if_splits)
qed (auto simp: word_by_def split: if_splits)

lemma words_by_word: "word_by P w \<Longrightarrow> words_by P w = [w]"
proof (induction P w rule: words_by.induct)
  case (3 P c d s)
  then have "words_by P (d # s) = [d # s]" by (auto simp: word_by_def)
  with 3(2) show ?case by (simp add: word_by_def)
qed (auto simp: word_by_def)

lemma words_by_space: "P c \<Longrightarrow> words_by P (c # s) = words_by P s"
  by (cases s) simp_all

lemma words_by_first:
  assumes "word_by P w" and "P c"
  shows "words_by P (w @ c # s) = w # words_by P s"
  using assms(1)
proof (induction w)
  case (Cons a w)
  show ?case
  proof (cases w)
    case Nil
    then show ?thesis using Cons.prems assms(2) by (simp add: word_by_def words_by_space)
  next
    case (Cons b v)
    with Cons.prems Cons.IH have "words_by P (w @ c # s) = w # words_by P s" by (simp add: word_by_def)
    with Cons Cons.prems show ?thesis by (simp add: word_by_def)
  qed
qed (simp add: word_by_def)

lemma words_by_join:
  assumes "P c" and "\<And>w. w \<in> set ws \<Longrightarrow> word_by P w"
  shows "words_by P (py_join [c] ws) = ws"
  using assms(2)
proof (induction "[c]" ws rule: py_join.induct)
  case (2 w)
  then show ?case by (simp add: words_by_word)
next
  case (3 w v va)
  then show ?case by (simp add: words_by_first assms(1))
qed simp

lemma length_join: "length (py_join [c] ws) = (if ws = [] then 0 else sum_list (map length ws) + length ws - 1)"
  by (induction "[c]" ws rule: py_join.induct) auto

lemma words_by_length:
  "sum_list (map length (words_by P s)) + length (words_by P s)
     \<le> length s + (if s \<noteq> [] \<and> P (hd s) then 0 else 1)"
proof (induction P s rule: words_by.induct)
  case (3 P c d s)
  then show ?case
    by (cases "words_by P (d # s)") (auto simp: Let_def)
qed auto

lemma squeeze_text_idem [simp]: "squeeze_text (squeeze_text t) = squeeze_text t"
  unfolding squeeze_text_def
  by (simp add: words_by_join [where P = text_space and c = 32] text_space_def words_by_words)

lemma squeeze_text_length: "length (squeeze_text t) \<le> length t"
proof (cases "words_by text_space t = []")
  case True
  then show ?thesis by (simp add: squeeze_text_def)
next
  case False
  then show ?thesis
    using words_by_length [of text_space t] by (auto simp: squeeze_text_def length_join split: if_splits)
qed

lemma words_by_nonspace: "\<not> P c \<Longrightarrow> words_by P (c # s) \<noteq> []"
proof (cases s)
  case (Cons d t)
  assume "\<not> P c"
  then show ?thesis unfolding Cons by (cases "words_by P (d # t)") (simp_all add: Let_def)
qed simp

lemma squeeze_text_nonempty:
  assumes "\<not> text_space c"
  shows "squeeze_text (c # s) \<noteq> []"
proof (cases "words_by text_space (c # s)")
  case Nil
  then show ?thesis using words_by_nonspace [where P = text_space, OF assms, of s] by (rule notE [rotated])
next
  case (Cons w ws)
  have "w \<in> set (words_by text_space (c # s))" unfolding Cons by simp
  then have "w \<noteq> []" using words_by_words [where P = text_space] unfolding word_by_def by blast
  then show ?thesis unfolding squeeze_text_def Cons by (cases ws) simp_all
qed

lemma squeeze_codes: "\<not> text_space (of_char c) \<Longrightarrow> squeeze_text (codes (c # s)) \<noteq> []"
  unfolding codes_def list.map by (rule squeeze_text_nonempty)

lemma squeeze_idem [simp]: "squeeze (squeeze s) = squeeze s"
  unfolding squeeze_def
  by (simp add: words_by_join [where P = is_space and c = "CHR '' ''"] is_space_def words_by_words)

section \<open>Letters\<close>

text \<open>\<open>casefold\<close> on ASCII, Latin-1 and Cyrillic letters; other code points are unchanged.\<close>

definition fold_code :: "nat \<Rightarrow> nat" where
  "fold_code n =
     (if (65 \<le> n \<and> n \<le> 90) \<or> (192 \<le> n \<and> n \<le> 222 \<and> n \<noteq> 215) \<or> (1040 \<le> n \<and> n \<le> 1071) then n + 32
      else if 1024 \<le> n \<and> n \<le> 1039 then n + 80 else n)"

definition casefold_text :: "utext \<Rightarrow> utext" where
  "casefold_text t = map fold_code t"

definition is_alpha :: "char \<Rightarrow> bool" where
  "is_alpha c \<longleftrightarrow> (let n = (of_char c :: nat) in (65 \<le> n \<and> n \<le> 90) \<or> (97 \<le> n \<and> n \<le> 122))"

definition is_alnum :: "char \<Rightarrow> bool" where
  "is_alnum c \<longleftrightarrow> is_alpha c \<or> is_digit c"

text \<open>\<open>s.replace(a, b)\<close> for single characters, and \<open>str.splitlines\<close>. A carriage return followed by
  a line feed leaves an empty line here, which every caller drops.\<close>

definition replace_char :: "char \<Rightarrow> char \<Rightarrow> string \<Rightarrow> string" where
  "replace_char a b s = map (\<lambda>c. if c = a then b else c) s"

definition line_break :: "nat \<Rightarrow> bool" where
  "line_break n \<longleftrightarrow> (10 \<le> n \<and> n \<le> 13) \<or> (28 \<le> n \<and> n \<le> 30) \<or> n = 133 \<or> n = 8232 \<or> n = 8233"

text \<open>The identifiers of plans and kinds: lower case, with \<open>-\<close> (and, for steps, space) turned into
  \<open>_\<close>.\<close>

definition simple_identifier :: "string \<Rightarrow> bool" where
  "simple_identifier s \<longleftrightarrow> s \<noteq> [] \<and> list_all (\<lambda>c. is_alnum c \<or> c = CHR ''_'') s"

text \<open>Keeping the first of equal elements: \<open>tuple(dict.fromkeys(xs))\<close>.\<close>

fun dedup_from :: "'a list \<Rightarrow> 'a list \<Rightarrow> 'a list" where
  "dedup_from seen [] = []"
| "dedup_from seen (x # xs) = (if x \<in> set seen then dedup_from seen xs else x # dedup_from (x # seen) xs)"

definition dedup :: "'a list \<Rightarrow> 'a list" where
  "dedup xs = dedup_from [] xs"

lemma set_dedup_from: "set (dedup_from seen xs) = set xs - set seen"
  by (induction seen xs rule: dedup_from.induct) auto

lemma distinct_dedup_from: "distinct (dedup_from seen xs)"
  by (induction seen xs rule: dedup_from.induct) (auto simp: set_dedup_from)

lemma set_dedup [simp]: "set (dedup xs) = set xs"
  by (simp add: dedup_def set_dedup_from)

lemma distinct_dedup [simp]: "distinct (dedup xs)"
  by (simp add: dedup_def distinct_dedup_from)

lemma dedup_from_id: "distinct xs \<Longrightarrow> set xs \<inter> set seen = {} \<Longrightarrow> dedup_from seen xs = xs"
  by (induction seen xs rule: dedup_from.induct) auto

lemma dedup_id: "distinct xs \<Longrightarrow> dedup xs = xs"
  by (simp add: dedup_def dedup_from_id)

end
