(* ===== verification/BrowserPage.thy ===== *)
theory BrowserPage
  imports Texts Domain
begin

text \<open>
  What the browser shows, and what is to be filled in: \<open>app/domain/browser_page.py\<close> and
  \<open>app/domain/page_fill_plan.py\<close>. Each Pydantic class is a record; \<open>make_C\<close> is its constructor, which
  checks the fields and brings them into the normal form of the validators. Parts that are objects
  already are not checked again, so for a class with parts \<open>C_ok\<close> is what the constructor checks and
  \<open>C_valid\<close> what is checked when the whole object is read back from stored data.
\<close>

definition accept :: "bool \<Rightarrow> 'a \<Rightarrow> exn + 'a" where
  "accept ok x = (if ok then Inr x else Inl ValidationError)"

lemma accept_Inr [simp]: "accept ok x = Inr y \<longleftrightarrow> ok \<and> y = x"
  by (auto simp: accept_def)

section \<open>Controls\<close>

datatype control_kind =
    TextKind | DateKind | EmailKind | TelKind | NumberKind | SelectKind | RadioKind | CheckboxKind
  | ButtonKind | LinkKind | ClickableKind | CanvasKind | SvgKind | OtherKind

record page_control =
  control_id :: string
  frame_index :: int
  frame_url :: "string option"
  kind_of_control :: control_kind
  label :: utext
  field_name :: "utext option"
  control_role :: "utext option"
  nearby_text :: "utext option"
  control_required :: bool
  control_disabled :: bool
  checked :: "bool option"
  selected :: "bool option"
  expanded :: "bool option"
  pressed :: "bool option"
  options :: "utext list"

text \<open>The pattern \<open>^control_[1-9][0-9]*$\<close> with its length bound.\<close>

definition control_id_ok :: "string \<Rightarrow> bool" where
  "control_id_ok s \<longleftrightarrow> take 8 s = ''control_''
     \<and> (case drop 8 s of [] \<Rightarrow> False | d # ds \<Rightarrow> is_digit d \<and> d \<noteq> CHR ''0'' \<and> list_all is_digit ds)
     \<and> length s \<le> 32"

definition fits :: "nat \<Rightarrow> 'a list option \<Rightarrow> bool" where
  "fits bound v \<longleftrightarrow> (case v of None \<Rightarrow> True | Some x \<Rightarrow> length x \<le> bound)"

text \<open>\<open>" ".join(value.split()) or None\<close>.\<close>

definition squeeze_or_none :: "utext option \<Rightarrow> utext option" where
  "squeeze_or_none v =
     (case v of None \<Rightarrow> None | Some t \<Rightarrow> if squeeze_text t = [] then None else Some (squeeze_text t))"

definition squeeze_url_or_none :: "string option \<Rightarrow> string option" where
  "squeeze_url_or_none v =
     (case v of None \<Rightarrow> None | Some t \<Rightarrow> if squeeze t = [] then None else Some (squeeze t))"

definition normalize_options :: "utext list \<Rightarrow> utext list" where
  "normalize_options os = dedup (filter (\<lambda>o'. o' \<noteq> []) (map (\<lambda>o'. take 200 (squeeze_text o')) os))"

definition page_control_valid :: "page_control \<Rightarrow> bool" where
  "page_control_valid c \<longleftrightarrow>
     control_id_ok (control_id c)
     \<and> 0 \<le> frame_index c \<and> frame_index c \<le> 9 \<and> fits 2048 (frame_url c)
     \<and> label c \<noteq> [] \<and> length (label c) \<le> 200 \<and> squeeze_text (label c) \<noteq> []
     \<and> fits 200 (field_name c) \<and> fits 64 (control_role c) \<and> fits 600 (nearby_text c)
     \<and> length (options c) \<le> 100"

definition make_page_control :: "page_control \<Rightarrow> exn + page_control" where
  "make_page_control c =
     accept (page_control_valid c)
       (c\<lparr>frame_url := squeeze_url_or_none (frame_url c), label := squeeze_text (label c),
          field_name := squeeze_or_none (field_name c), control_role := squeeze_or_none (control_role c),
          nearby_text := squeeze_or_none (nearby_text c), options := normalize_options (options c)\<rparr>)"

section \<open>Snapshots\<close>

record page_snapshot =
  snapshot_url :: string
  snapshot_title :: utext
  captured_at :: datetime
  controls :: "page_control list"
  visible_text :: utext

definition normalize_title :: "utext \<Rightarrow> utext" where
  "normalize_title t =
     (let s = take 300 (squeeze_text t) in if s = [] then codes ''Untitled page'' else s)"

text \<open>Blank lines are dropped, and a long page keeps its first 5,995 and last 6,000 characters
  around an ellipsis in brackets on a line of its own.\<close>

definition normalize_visible_text :: "utext \<Rightarrow> utext" where
  "normalize_visible_text t =
     (let normalized = py_join [10] (filter (\<lambda>l. l \<noteq> []) (map squeeze_text (words_by line_break t))) in
      if length normalized \<le> 12000 then normalized
      else take 5995 normalized @ [10, 91, 8230, 93, 10] @ drop (length normalized - 6000) normalized)"

definition page_snapshot_ok :: "page_snapshot \<Rightarrow> bool" where
  "page_snapshot_ok p \<longleftrightarrow>
     snapshot_url p \<noteq> [] \<and> length (snapshot_url p) \<le> 2048
     \<and> snapshot_title p \<noteq> [] \<and> length (snapshot_title p) \<le> 300
     \<and> is_aware (captured_at p) \<and> length (controls p) \<le> 300"

definition page_snapshot_valid :: "page_snapshot \<Rightarrow> bool" where
  "page_snapshot_valid p \<longleftrightarrow> page_snapshot_ok p \<and> list_all page_control_valid (controls p)"

definition make_page_snapshot :: "page_snapshot \<Rightarrow> exn + page_snapshot" where
  "make_page_snapshot p =
     accept (page_snapshot_ok p)
       (p\<lparr>snapshot_title := normalize_title (snapshot_title p),
          visible_text := normalize_visible_text (visible_text p)\<rparr>)"

lemma visible_text_bounded: "length (normalize_visible_text t) \<le> 12000"
  by (simp add: normalize_visible_text_def Let_def)

section \<open>Fill plans\<close>

datatype profile_field = FirstNameField | LastNameField | BirthDateField | DocumentNumberField

datatype intent_field =
    OriginField | DestinationField | RequestedDateField | EarliestTimeField | LatestTimeField
  | RequestedQuantityField | SearchTermField

record field_binding =
  bound_control :: string
  profile_field :: profile_field
  person_id :: uuid
  sensitive :: bool

record intent_binding =
  intent_control :: string
  intent_field :: intent_field
  search_term_index :: "int option"

definition field_binding_valid :: "field_binding \<Rightarrow> bool" where
  "field_binding_valid b \<longleftrightarrow> control_id_ok (bound_control b)"

definition intent_binding_valid :: "intent_binding \<Rightarrow> bool" where
  "intent_binding_valid b \<longleftrightarrow>
     control_id_ok (intent_control b)
     \<and> (case search_term_index b of None \<Rightarrow> True | Some i \<Rightarrow> 0 \<le> i \<and> i \<le> 19)
     \<and> ((intent_field b = SearchTermField) \<longleftrightarrow> search_term_index b \<noteq> None)"

record page_fill_plan =
  fill_url :: string
  fill_created_at :: datetime
  bindings :: "field_binding list"
  intent_bindings :: "intent_binding list"
  unmatched_required_controls :: "string list"

definition bound_controls :: "page_fill_plan \<Rightarrow> string list" where
  "bound_controls f = map bound_control (bindings f) @ map intent_control (intent_bindings f)"

definition fill_plan_ok :: "page_fill_plan \<Rightarrow> bool" where
  "fill_plan_ok f \<longleftrightarrow>
     fill_url f \<noteq> [] \<and> length (fill_url f) \<le> 2048 \<and> is_aware (fill_created_at f)
     \<and> length (bindings f) \<le> 300 \<and> length (intent_bindings f) \<le> 300
     \<and> length (unmatched_required_controls f) \<le> 300 \<and> distinct (unmatched_required_controls f)
     \<and> distinct (bound_controls f)
     \<and> list_all (\<lambda>c. c \<notin> set (unmatched_required_controls f)) (bound_controls f)
     \<and> distinct (map (\<lambda>b. (intent_field b, search_term_index b)) (intent_bindings f))"

definition fill_plan_valid :: "page_fill_plan \<Rightarrow> bool" where
  "fill_plan_valid f \<longleftrightarrow>
     fill_plan_ok f \<and> list_all field_binding_valid (bindings f) \<and> list_all intent_binding_valid (intent_bindings f)"

definition make_fill_plan :: "page_fill_plan \<Rightarrow> exn + page_fill_plan" where
  "make_fill_plan f = accept (fill_plan_ok f) f"

end
