(* ===== verification/TaskPlans.thy ===== *)
theory TaskPlans
  imports BrowserPage
begin

text \<open>
  The plan of an agent task: browser actions and the permission policy
  (\<open>app/domain/task_permission.py\<close>), plan steps, plans, one-time approvals and the execution
  journal (\<open>app/domain/task_plan.py\<close>), the facts of an instruction
  (\<open>app/domain/task_intent.py\<close>), and \<open>append_task_journal_entry\<close>.
\<close>

section \<open>Actions and permissions\<close>

datatype browser_action =
    Navigate | ReadPage | FillBasicProfile | FillSensitiveProfile | SelectOption | PrepareReview
  | CreateFreeReservation | SubmitOrder | Authenticate | SolveCaptcha | Pay

record permission_policy =
  allow_navigation :: bool
  allow_reading_pages :: bool
  allow_basic_profile_filling :: bool
  allow_option_selection :: bool
  allow_review_preparation :: bool
  allow_free_reservation :: bool
  require_approval_for_sensitive_data :: bool
  require_approval_for_cross_origin_navigation :: bool

definition default_policy :: permission_policy where
  "default_policy =
     \<lparr>allow_navigation = True, allow_reading_pages = True, allow_basic_profile_filling = True,
      allow_option_selection = True, allow_review_preparation = True, allow_free_reservation = False,
      require_approval_for_sensitive_data = True, require_approval_for_cross_origin_navigation = True\<rparr>"

record action_request =
  request_action :: browser_action
  request_target :: "string option"
  request_charges :: bool
  request_reversible :: bool

record permission_decision =
  allowed :: bool
  requires_user :: bool
  decision_reason :: string

section \<open>Steps\<close>

record plan_step =
  step_id :: string
  step_action :: browser_action
  step_summary :: utext
  depends_on :: "string list"
  step_target :: "string option"
  creates_charge :: bool
  reversible :: bool
  requested_fields :: "string list"

definition step_slug :: "string \<Rightarrow> string" where
  "step_slug s = replace_char CHR '' '' CHR ''_'' (replace_char CHR ''-'' CHR ''_'' (casefold (py_strip s)))"

definition plan_step_valid :: "plan_step \<Rightarrow> bool" where
  "plan_step_valid s \<longleftrightarrow>
     step_id s \<noteq> [] \<and> length (step_id s) \<le> 64 \<and> simple_identifier (step_slug (step_id s))
     \<and> step_summary s \<noteq> [] \<and> length (step_summary s) \<le> 300
     \<and> list_all (\<lambda>d. step_slug d \<noteq> []) (depends_on s) \<and> distinct (map step_slug (depends_on s))
     \<and> fits 2048 (step_target s)
     \<and> length (requested_fields s) \<le> 100 \<and> list_all (\<lambda>f. py_strip f \<noteq> []) (requested_fields s)
     \<and> distinct (map py_strip (requested_fields s))"

definition make_plan_step :: "plan_step \<Rightarrow> exn + plan_step" where
  "make_plan_step s =
     accept (plan_step_valid s)
       (s\<lparr>step_id := step_slug (step_id s), step_summary := squeeze_text (step_summary s),
          depends_on := map step_slug (depends_on s), requested_fields := map py_strip (requested_fields s)\<rparr>)"

definition to_action_request :: "plan_step \<Rightarrow> action_request" where
  "to_action_request s =
     \<lparr>request_action = step_action s, request_target = step_target s,
      request_charges = creates_charge s, request_reversible = reversible s\<rparr>"

section \<open>Plans\<close>

record task_plan =
  plan_task :: uuid
  plan_version :: int
  plan_created_at :: datetime
  steps :: "plan_step list"

text \<open>\<open>validate_step_graph\<close>: the loop over the steps with the identifiers seen so far.\<close>

fun check_step_graph :: "string list \<Rightarrow> plan_step list \<Rightarrow> bool" where
  "check_step_graph seen [] = True"
| "check_step_graph seen (s # ss) =
     (if step_id s \<in> set seen then False
      else if step_id s \<in> set (depends_on s) then False
      else if \<not> list_all (\<lambda>d. d \<in> set seen) (depends_on s) then False
      else check_step_graph (step_id s # seen) ss)"

definition plan_ok :: "task_plan \<Rightarrow> bool" where
  "plan_ok p \<longleftrightarrow>
     1 \<le> plan_version p \<and> is_aware (plan_created_at p)
     \<and> 1 \<le> length (steps p) \<and> length (steps p) \<le> 200 \<and> check_step_graph [] (steps p)"

definition plan_valid :: "task_plan \<Rightarrow> bool" where
  "plan_valid p \<longleftrightarrow> plan_ok p \<and> list_all plan_step_valid (steps p)"

definition make_plan :: "task_plan \<Rightarrow> exn + task_plan" where
  "make_plan p = accept (plan_ok p) p"

text \<open>The loop accepts exactly the plans whose step identifiers are distinct and whose
  dependencies are identifiers of earlier steps.\<close>

lemma check_step_graph_spec:
  "check_step_graph seen ss \<longleftrightarrow>
     distinct (map step_id ss) \<and> set (map step_id ss) \<inter> set seen = {}
     \<and> (\<forall>i < length ss. \<forall>d \<in> set (depends_on (ss ! i)). d \<in> set seen \<union> step_id ` set (take i ss))"
proof (induction seen ss rule: check_step_graph.induct)
  case (2 seen s ss)
  have split: "(\<forall>i < length (s # ss). P i) \<longleftrightarrow> P 0 \<and> (\<forall>i < length ss. P (Suc i))" for P
    by (auto simp: less_Suc_eq_0_disj)
  show ?case
    unfolding split using 2 by (auto simp: list_all_iff)
qed simp

section \<open>Approvals\<close>

record step_approval =
  approval_id :: uuid
  approved_version :: int
  approved_step :: string
  approval_reason :: string
  approved_at :: datetime
  consumed_at :: "datetime option"

definition reason_slug :: "string \<Rightarrow> string" where
  "reason_slug s = casefold (py_strip s)"

text \<open>Only aware times reach the comparison of \<open>validate_consumed_time\<close>.\<close>

definition approval_valid :: "step_approval \<Rightarrow> bool" where
  "approval_valid a \<longleftrightarrow>
     1 \<le> approved_version a
     \<and> approved_step a \<noteq> [] \<and> length (approved_step a) \<le> 64 \<and> simple_identifier (step_slug (approved_step a))
     \<and> approval_reason a \<noteq> [] \<and> length (approval_reason a) \<le> 100 \<and> simple_identifier (reason_slug (approval_reason a))
     \<and> is_aware (approved_at a)
     \<and> (case consumed_at a of None \<Rightarrow> True | Some t \<Rightarrow> is_aware t \<and> instant (approved_at a) \<le> instant t)"

definition make_approval :: "step_approval \<Rightarrow> exn + step_approval" where
  "make_approval a =
     accept (approval_valid a)
       (a\<lparr>approved_step := step_slug (approved_step a), approval_reason := reason_slug (approval_reason a)\<rparr>)"

section \<open>The journal\<close>

datatype journal_outcome = Started | Succeeded | Blocked | FailedStep

record journal_entry =
  entry_id :: uuid
  sequence :: int
  entry_time :: datetime
  entry_step :: string
  outcome :: journal_outcome
  entry_message :: utext
  reason_code :: "string option"

definition journal_entry_valid :: "journal_entry \<Rightarrow> bool" where
  "journal_entry_valid e \<longleftrightarrow>
     1 \<le> sequence e \<and> is_aware (entry_time e)
     \<and> entry_message e \<noteq> [] \<and> length (entry_message e) \<le> 500 \<and> fits 100 (reason_code e)"

definition make_journal_entry :: "journal_entry \<Rightarrow> exn + journal_entry" where
  "make_journal_entry e = accept (journal_entry_valid e) (e\<lparr>entry_message := squeeze_text (entry_message e)\<rparr>)"

record task_journal =
  journal_task :: uuid
  entries :: "journal_entry list"

text \<open>\<open>validate_entries\<close>: the loop of \<open>enumerate(self.entries, start=1)\<close>.\<close>

fun check_entries :: "uuid list \<Rightarrow> int \<Rightarrow> journal_entry list \<Rightarrow> bool" where
  "check_entries seen expected [] = True"
| "check_entries seen expected (e # es) =
     (if entry_id e \<in> set seen then False
      else if sequence e \<noteq> expected then False
      else check_entries (entry_id e # seen) (expected + 1) es)"

definition journal_valid :: "task_journal \<Rightarrow> bool" where
  "journal_valid j \<longleftrightarrow> list_all journal_entry_valid (entries j) \<and> check_entries [] 1 (entries j)"

definition make_journal :: "task_journal \<Rightarrow> exn + task_journal" where
  "make_journal j = accept (check_entries [] 1 (entries j)) j"

lemma check_entries_append:
  "check_entries seen n (es @ [e]) \<longleftrightarrow>
     check_entries seen n es \<and> entry_id e \<notin> set seen \<union> entry_id ` set es \<and> sequence e = n + int (length es)"
  by (induction seen n es rule: check_entries.induct) auto

section \<open>The facts of an instruction\<close>

datatype intent_issue = InvalidDate | InvalidTimeWindow | QuantityMismatch

text \<open>A date is its ordinal, a time of day its minutes.\<close>

record task_intent =
  origin :: "utext option"
  destination :: "utext option"
  requested_date :: "int option"
  earliest_time :: "int option"
  latest_time :: "int option"
  requested_quantity :: "int option"
  participant_count :: int
  search_terms :: "utext list"
  issues :: "intent_issue list"

definition strip_codes :: "nat list \<Rightarrow> utext \<Rightarrow> utext" where
  "strip_codes cs t = rev (dropWhile (\<lambda>c. c \<in> set cs) (rev (dropWhile (\<lambda>c. c \<in> set cs) t)))"

text \<open>\<open>value.strip(" ,.;:\<dots>-")\<close>, with an em dash (8212) among the characters.\<close>

definition normalize_place :: "utext option \<Rightarrow> utext option" where
  "normalize_place v =
     (case v of
        None \<Rightarrow> None
      | Some t \<Rightarrow>
          let n = take 200 (squeeze_text (strip_codes [32, 44, 46, 59, 58, 8212, 45] t))
          in if n = [] then None else Some n)"

definition intent_valid :: "task_intent \<Rightarrow> bool" where
  "intent_valid i \<longleftrightarrow>
     fits 200 (origin i) \<and> fits 200 (destination i)
     \<and> (case requested_quantity i of None \<Rightarrow> True | Some q \<Rightarrow> 1 \<le> q \<and> q \<le> 100)
     \<and> 1 \<le> participant_count i \<and> participant_count i \<le> 100
     \<and> length (search_terms i) \<le> 20 \<and> length (issues i) \<le> 20"

definition make_intent :: "task_intent \<Rightarrow> exn + task_intent" where
  "make_intent i =
     accept (intent_valid i)
       (i\<lparr>origin := normalize_place (origin i), destination := normalize_place (destination i),
          search_terms := normalize_options (search_terms i)\<rparr>)"

end
