(* ===== verification/Urls.thy ===== *)
theory Urls
  imports Texts
begin

text \<open>
  The functions of \<open>urllib.parse\<close> the program uses, on ASCII texts: \<open>urlsplit\<close> with the
  attributes of its result (\<open>hostname\<close>, \<open>port\<close>, user information) and \<open>urlunsplit\<close>. \<open>None\<close> is the \<open>ValueError\<close> of a malformed URL.
\<close>

section \<open>Partition\<close>

text \<open>\<open>s.partition(c)\<close>: what precedes the first \<open>c\<close>, and what follows it if there is one.\<close>

fun partition_at :: "char \<Rightarrow> string \<Rightarrow> string \<times> string option" where
  "partition_at c [] = ([], None)"
| "partition_at c (d # s) =
     (if d = c then ([], Some s) else (case partition_at c s of (a, b) \<Rightarrow> (d # a, b)))"

definition after_last :: "char \<Rightarrow> string \<Rightarrow> string \<times> string option" where
  "after_last c s =
     (case partition_at c (rev s) of
        (a, None) \<Rightarrow> (rev a, None)
      | (a, Some b) \<Rightarrow> (rev a, Some (rev b)))"

section \<open>Bracketed hosts\<close>

definition is_hex :: "char \<Rightarrow> bool" where
  "is_hex c \<longleftrightarrow> is_digit c \<or> casefold_char c \<in> set ''abcdef''"

definition ipv4_ok :: "string \<Rightarrow> bool" where
  "ipv4_ok s \<longleftrightarrow>
     (let parts = split_on CHR ''.'' s in
      length parts = 4
      \<and> list_all (\<lambda>p. p \<noteq> [] \<and> length p \<le> 3 \<and> list_all is_digit p \<and> (p = ''0'' \<or> hd p \<noteq> CHR ''0'')
           \<and> (case parse_nat p of None \<Rightarrow> False | Some n \<Rightarrow> n \<le> 255)) parts)"

text \<open>The parts of an IPv6 address, an IPv4 tail counting as two.\<close>

definition ipv6_parts :: "string \<Rightarrow> string list option" where
  "ipv6_parts s =
     (let parts = split_on CHR '':'' s in
      if length parts < 3 then None
      else if CHR ''.'' \<in> set (last parts)
      then (if ipv4_ok (last parts) then Some (butlast parts @ [''0'', ''0'']) else None)
      else Some parts)"

definition hextets_ok :: "string list \<Rightarrow> bool" where
  "hextets_ok ps \<longleftrightarrow> list_all (\<lambda>p. p \<noteq> [] \<and> length p \<le> 4 \<and> list_all is_hex p) ps"

definition ipv6_address_ok :: "string \<Rightarrow> bool" where
  "ipv6_address_ok s \<longleftrightarrow>
     (case ipv6_parts s of
        None \<Rightarrow> False
      | Some ps \<Rightarrow>
          length ps \<le> 9
          \<and> (case filter (\<lambda>i. ps ! i = []) [1..<length ps - 1] of
               [] \<Rightarrow> length ps = 8 \<and> hextets_ok ps
             | [i] \<Rightarrow>
                 let hi = (if hd ps = [] then i - 1 else i);
                     lo = (if last ps = [] then length ps - i - 2 else length ps - i - 1) in
                 (hd ps = [] \<longrightarrow> hi = 0) \<and> (last ps = [] \<longrightarrow> lo = 0) \<and> hi + lo < 8
                 \<and> hextets_ok (take hi ps) \<and> hextets_ok (drop (length ps - lo) ps)
             | _ \<Rightarrow> False))"

definition bracketed_host_ok :: "string \<Rightarrow> bool" where
  "bracketed_host_ok h \<longleftrightarrow>
     (if h \<noteq> [] \<and> hd h = CHR ''v'' then
        (case partition_at CHR ''.'' (tl h) of
           (v, Some rest) \<Rightarrow> v \<noteq> [] \<and> list_all is_hex v \<and> rest \<noteq> []
         | _ \<Rightarrow> False)
      else (case partition_at CHR ''%'' h of
          (a, None) \<Rightarrow> ipv6_address_ok a
        | (a, Some zone) \<Rightarrow> zone \<noteq> [] \<and> CHR ''%'' \<notin> set zone \<and> ipv6_address_ok a))"

section \<open>Splitting\<close>

record url_parts =
  url_scheme :: string
  url_netloc :: string
  url_path :: string
  url_query :: string
  url_fragment :: string

definition scheme_char :: "char \<Rightarrow> bool" where
  "scheme_char c \<longleftrightarrow> is_alnum c \<or> c \<in> set ''+-.''"

definition split_scheme :: "string \<Rightarrow> string \<times> string" where
  "split_scheme s =
     (case partition_at CHR '':'' s of
        (a, Some rest) \<Rightarrow>
          if a \<noteq> [] \<and> is_alpha (hd a) \<and> list_all scheme_char a then (casefold a, rest) else ([], s)
      | (_, None) \<Rightarrow> ([], s))"

definition split_netloc :: "string \<Rightarrow> string \<times> string" where
  "split_netloc s =
     (if take 2 s = ''//'' then
        (takeWhile (\<lambda>c. c \<notin> set ''/?#'') (drop 2 s), dropWhile (\<lambda>c. c \<notin> set ''/?#'') (drop 2 s))
      else ([], s))"

definition brackets_ok :: "string \<Rightarrow> bool" where
  "brackets_ok netloc \<longleftrightarrow>
     (CHR ''['' \<in> set netloc \<longleftrightarrow> CHR '']'' \<in> set netloc)
     \<and> (CHR ''['' \<in> set netloc \<longrightarrow>
          (case partition_at CHR ''['' netloc of
             (_, Some b) \<Rightarrow> bracketed_host_ok (fst (partition_at CHR '']'' b)) | _ \<Rightarrow> False))"

definition urlsplit :: "string \<Rightarrow> url_parts option" where
  "urlsplit url =
     (let u = filter (\<lambda>c. c \<notin> {CHR 0x09, CHR 0x0A, CHR 0x0D}) (dropWhile (\<lambda>c. (of_char c :: nat) \<le> 32) url);
          (scheme, r1) = split_scheme u;
          (netloc, r2) = split_netloc r1;
          (r3, fragment) = partition_at CHR ''#'' r2;
          (path, query) = partition_at CHR ''?'' r3 in
      if \<not> brackets_ok netloc then None
      else Some \<lparr>url_scheme = scheme, url_netloc = netloc, url_path = path,
             url_query = (case query of None \<Rightarrow> [] | Some q \<Rightarrow> q),
             url_fragment = (case fragment of None \<Rightarrow> [] | Some f \<Rightarrow> f)\<rparr>)"

definition host_info :: "url_parts \<Rightarrow> string \<times> string" where
  "host_info p =
     (let info = fst (after_last CHR ''@'' (url_netloc p)) in
      case partition_at CHR ''['' info of
        (_, Some bracketed) \<Rightarrow>
          (case partition_at CHR '']'' bracketed of
             (host, rest) \<Rightarrow>
               (host, case snd (partition_at CHR '':'' (case rest of None \<Rightarrow> [] | Some r \<Rightarrow> r)) of
                        None \<Rightarrow> [] | Some port \<Rightarrow> port))
      | (_, None) \<Rightarrow>
          (case partition_at CHR '':'' info of
             (host, port) \<Rightarrow> (host, case port of None \<Rightarrow> [] | Some q \<Rightarrow> q)))"

definition url_hostname :: "url_parts \<Rightarrow> string option" where
  "url_hostname p =
     (let h = fst (host_info p) in
      if h = [] then None
      else (case partition_at CHR ''%'' h of
          (a, None) \<Rightarrow> Some (casefold a)
        | (a, Some zone) \<Rightarrow> Some (casefold a @ ''%'' @ zone)))"

text \<open>\<open>port\<close>: the outer \<open>None\<close> is the \<open>ValueError\<close> of a port that is no number up to 65535.\<close>

definition url_port :: "url_parts \<Rightarrow> nat option option" where
  "url_port p =
     (let q = snd (host_info p) in
      if q = [] then Some None
      else if list_all is_digit q then
        (case parse_nat q of None \<Rightarrow> None | Some n \<Rightarrow> if n \<le> 65535 then Some (Some n) else None)
      else None)"

definition url_has_user :: "url_parts \<Rightarrow> bool" where
  "url_has_user p \<longleftrightarrow> snd (after_last CHR ''@'' (url_netloc p)) \<noteq> None"

text \<open>\<open>urlunsplit\<close> for a URL with a network location.\<close>

definition urlunsplit :: "url_parts \<Rightarrow> string" where
  "urlunsplit p =
     (let path = (if url_path p \<noteq> [] \<and> hd (url_path p) \<noteq> CHR ''/'' then ''/'' @ url_path p else url_path p) in
      (if url_scheme p \<noteq> [] then url_scheme p @ '':'' else [])
      @ ''//'' @ url_netloc p @ path
      @ (if url_query p \<noteq> [] then ''?'' @ url_query p else [])
      @ (if url_fragment p \<noteq> [] then ''#'' @ url_fragment p else []))"

section \<open>Facts on splitting\<close>

text \<open>A lower-case scheme, a network location and the rest are found again.\<close>

lemma partition_at_absent: "c \<notin> set a \<Longrightarrow> partition_at c a = (a, None)"
  by (induction c a rule: partition_at.induct) auto

lemma partition_at_found: "c \<notin> set a \<Longrightarrow> partition_at c (a @ c # b) = (a, Some b)"
  by (induction c a rule: partition_at.induct) auto

lemma partition_at_parts:
  assumes "partition_at c s = (a, b)"
  shows "c \<notin> set a \<and> (case b of None \<Rightarrow> s = a | Some r \<Rightarrow> s = a @ c # r)"
  using assms
  by (induction c s arbitrary: a b rule: partition_at.induct) (fastforce split: if_splits prod.splits option.splits)+

lemma after_last_none: "snd (after_last c s) = None \<longleftrightarrow> c \<notin> set s"
  using partition_at_parts [of c "rev s"]
  by (cases "partition_at c (rev s)") (auto simp: after_last_def split: option.splits
        dest: arg_cong [where f = set])

lemma after_last_absent: "c \<notin> set s \<Longrightarrow> after_last c s = (s, None)"
  by (simp add: after_last_def partition_at_absent)

lemma casefold_char_idem [simp]: "casefold_char (casefold_char c) = casefold_char c"
  by (auto simp: casefold_char_def Let_def)

lemma casefold_idem [simp]: "casefold (casefold s) = casefold s"
  by (simp add: casefold_def)

lemma casefold_append [simp]: "casefold (s @ t) = casefold s @ casefold t"
  by (simp add: casefold_def)

text \<open>A character that is no lower-case letter stays absent.\<close>

lemma casefold_absent: "c \<notin> set s \<Longrightarrow> \<not> (97 \<le> (of_char c :: nat) \<and> (of_char c :: nat) \<le> 122) \<Longrightarrow> c \<notin> set (casefold s)"
  by (auto simp: casefold_def casefold_char_def Let_def split: if_splits)

lemma takeWhile_all: "list_all P a \<Longrightarrow> r = [] \<or> \<not> P (hd r) \<Longrightarrow> takeWhile P (a @ r) = a \<and> dropWhile P (a @ r) = r"
  by (induction a) (cases r; auto)+

definition http_scheme :: "string \<Rightarrow> bool" where
  "http_scheme s \<longleftrightarrow> s = ''http'' \<or> s = ''https''"

definition no_break :: "char \<Rightarrow> bool" where
  "no_break c \<longleftrightarrow> c \<notin> {CHR 0x09, CHR 0x0A, CHR 0x0D}"

definition netloc_char :: "char \<Rightarrow> bool" where
  "netloc_char c \<longleftrightarrow> no_break c \<and> c \<notin> set ''/?#[]@''"

lemma split_http:
  assumes "http_scheme s"
  shows "split_scheme (s @ CHR '':'' # r) = (s, r)"
proof -
  have "CHR '':'' \<notin> set s" using assms by (auto simp: http_scheme_def)
  then show ?thesis
    using assms
    by (auto simp: split_scheme_def partition_at_found http_scheme_def casefold_def casefold_char_def
        is_alpha_def is_alnum_def scheme_char_def)
qed

lemma urlsplit_again:
  assumes "http_scheme s" and "list_all netloc_char n" and "hd r = CHR ''/''" and "r \<noteq> []"
    and "list_all no_break r" and "CHR ''#'' \<notin> set r"
  shows "urlsplit (s @ '':'' @ ''//'' @ n @ r) =
     (case partition_at CHR ''?'' r of (path, query) \<Rightarrow>
        Some \<lparr>url_scheme = s, url_netloc = n, url_path = path,
           url_query = (case query of None \<Rightarrow> [] | Some q \<Rightarrow> q), url_fragment = []\<rparr>)"
proof -
  let ?u = "s @ '':'' @ ''//'' @ n @ r"
  have hd: "dropWhile (\<lambda>c. (of_char c :: nat) \<le> 32) ?u = ?u"
    using assms(1) by (auto simp: http_scheme_def)
  have "list_all no_break n" using assms(2) unfolding netloc_char_def list_all_iff by blast
  moreover have "list_all no_break s"
    using assms(1) unfolding http_scheme_def by (elim disjE) (simp_all add: no_break_def)
  ultimately have all: "list_all no_break ?u" using assms(5) by (simp add: no_break_def)
  have f: "filter (\<lambda>c. c \<notin> {CHR 0x09, CHR 0x0A, CHR 0x0D}) ?u = ?u"
    using all unfolding filter_id_conv list_all_iff no_break_def by blast
  have sch: "split_scheme ?u = (s, ''//'' @ n @ r)" using split_http [OF assms(1)] by simp
  have "list_all (\<lambda>c. c \<notin> set ''/?#'') n" using assms(2) unfolding netloc_char_def list_all_iff by simp
  moreover have "r = [] \<or> \<not> (\<lambda>c. c \<notin> set ''/?#'') (hd r)" using assms(3) by simp
  ultimately have net: "split_netloc (''//'' @ n @ r) = (n, r)"
    using takeWhile_all [of "\<lambda>c. c \<notin> set ''/?#''" n r] by (simp add: split_netloc_def)
  have "CHR ''['' \<notin> set n" "CHR '']'' \<notin> set n" using assms(2) unfolding netloc_char_def list_all_iff by auto
  then have br: "brackets_ok n" by (simp add: brackets_ok_def)
  show ?thesis
    unfolding urlsplit_def hd f Let_def sch net prod.case partition_at_absent [OF assms(6)] option.case
    by (simp add: br split: prod.splits)
qed

lemma split_scheme_rest: "split_scheme u = (sch, r) \<Longrightarrow> set r \<subseteq> set u"
proof (cases "partition_at CHR '':'' u")
  case (Pair a b)
  assume "split_scheme u = (sch, r)"
  then show ?thesis
    using partition_at_parts [OF Pair] by (cases b) (auto simp: split_scheme_def Pair split: if_splits)
qed

lemma split_netloc_rest:
  assumes "split_netloc u = (n, r)"
  shows "set n \<union> set r \<subseteq> set u" and "list_all (\<lambda>c. c \<notin> set ''/?#'') n"
    and "n \<noteq> [] \<Longrightarrow> r = [] \<or> hd r \<in> set ''/?#''"
proof -
  have "set (drop 2 u) \<subseteq> set u" by (rule set_drop_subset)
  then show "set n \<union> set r \<subseteq> set u"
    using assms by (auto simp: split_netloc_def split: if_splits dest!: set_takeWhileD set_dropWhileD)
  show "list_all (\<lambda>c. c \<notin> set ''/?#'') n"
    using assms unfolding split_netloc_def list_all_iff
    by (cases "take 2 u = ''//''") (auto dest: set_takeWhileD)
  show "r = [] \<or> hd r \<in> set ''/?#''" if "n \<noteq> []"
    using assms that hd_dropWhile [of "\<lambda>c. c \<notin> set ''/?#''" "drop 2 u"]
    unfolding split_netloc_def by (cases "take 2 u = ''//''") auto
qed

text \<open>The parts of a split URL whose host is not bracketed.\<close>

lemma urlsplit_parts:
  assumes "urlsplit u = Some p"
  shows "set (url_netloc p) \<union> set (url_path p) \<union> set (url_query p) \<subseteq> set u"
    and "list_all no_break (url_netloc p @ url_path p @ url_query p)"
    and "list_all (\<lambda>c. c \<notin> set ''/?#'') (url_netloc p)"
    and "CHR ''#'' \<notin> set (url_path p) \<and> CHR ''?'' \<notin> set (url_path p) \<and> CHR ''#'' \<notin> set (url_query p)"
    and "url_netloc p \<noteq> [] \<Longrightarrow> url_path p = [] \<or> hd (url_path p) = CHR ''/''"
    and "brackets_ok (url_netloc p)"
proof -
  let ?u = "filter (\<lambda>c. c \<notin> {CHR 0x09, CHR 0x0A, CHR 0x0D}) (dropWhile (\<lambda>c. (of_char c :: nat) \<le> 32) u)"
  obtain sch r1 where 1: "split_scheme ?u = (sch, r1)" by fastforce
  obtain n r2 where 2: "split_netloc r1 = (n, r2)" by fastforce
  obtain r3 fr where 3: "partition_at CHR ''#'' r2 = (r3, fr)" by fastforce
  obtain pa q where 4: "partition_at CHR ''?'' r3 = (pa, q)" by fastforce
  have p: "brackets_ok n" "p = \<lparr>url_scheme = sch, url_netloc = n, url_path = pa,
      url_query = (case q of None \<Rightarrow> [] | Some q \<Rightarrow> q), url_fragment = (case fr of None \<Rightarrow> [] | Some f \<Rightarrow> f)\<rparr>"
    using assms unfolding urlsplit_def Let_def 1 prod.case 2 3 4 by (simp_all split: if_splits)
  have u: "set ?u \<subseteq> set u" by (auto dest: set_dropWhileD)
  have nb: "list_all no_break ?u" by (simp add: list_all_iff no_break_def)
  have s1: "set r1 \<subseteq> set ?u" by (rule split_scheme_rest [OF 1])
  note s2 = split_netloc_rest(1) [OF 2] and n = split_netloc_rest(2) [OF 2] and r2 = split_netloc_rest(3) [OF 2]
  note p3 = partition_at_parts [OF 3] and p4 = partition_at_parts [OF 4]
  have s3: "set r3 \<subseteq> set r2" using p3 by (auto split: option.splits)
  have s4: "set pa \<union> set (case q of None \<Rightarrow> [] | Some q \<Rightarrow> q) \<subseteq> set r3" using p4 by (auto split: option.splits)
  show sub: "set (url_netloc p) \<union> set (url_path p) \<union> set (url_query p) \<subseteq> set u"
    unfolding p(2) url_parts.simps using u s1 s2 s3 s4 by blast
  have "set (url_netloc p @ url_path p @ url_query p) \<subseteq> set ?u"
    unfolding p(2) url_parts.simps set_append using s1 s2 s3 s4 by blast
  then show "list_all no_break (url_netloc p @ url_path p @ url_query p)"
    using nb unfolding list_all_iff by blast
  show "list_all (\<lambda>c. c \<notin> set ''/?#'') (url_netloc p)" unfolding p(2) using n by simp
  have "CHR ''#'' \<notin> set r3" "CHR ''?'' \<notin> set pa" using p3 p4 by auto
  then show "CHR ''#'' \<notin> set (url_path p) \<and> CHR ''?'' \<notin> set (url_path p) \<and> CHR ''#'' \<notin> set (url_query p)"
    unfolding p(2) using s4 by auto
  show "brackets_ok (url_netloc p)" unfolding p(2) using p(1) by simp
  show "url_path p = [] \<or> hd (url_path p) = CHR ''/''" if ne: "url_netloc p \<noteq> []"
  proof -
    from ne have "r2 = [] \<or> hd r2 \<in> set ''/?#''" using r2 unfolding p(2) by simp
    then have "r3 = [] \<or> hd r3 = CHR ''/'' \<or> hd r3 = CHR ''?''"
      using p3 by (cases r3) (auto split: option.splits)
    then have "pa = [] \<or> hd pa = CHR ''/''"
      using p4 by (cases pa) (auto split: option.splits)
    then show ?thesis unfolding p(2) by simp
  qed
qed

end
