(* ===== verification/AgentRuns.thy ===== *)
theory AgentRuns
  imports BrowserPage Urls Complex_Main
begin

text \<open>
  The agent's commands, decisions and runs: \<open>app/domain/browser_command.py\<close> and
  \<open>app/domain/agent_run.py\<close> with \<open>merge_agent_loop_results\<close>. A float of the program is the rational
  number it denotes; the decimal bounds of the validators are the doubles Python reads them as.
\<close>

section \<open>Commands\<close>

datatype fill_source =
    LiteralSource | FirstNameSource | LastNameSource | BirthDateSource | DocumentNumberSource

datatype finish_outcome = ReadyForUser | GoalReached | NoMatchFound | NeedsUser

datatype zoom_direction = ZoomIn | ZoomOut

datatype scroll_direction = ScrollUp | ScrollDown

datatype browser_command =
    ClickCommand string
  | ClickVisualCommand string rat rat
  | HoverVisualCommand string rat rat
  | DragVisualCommand string rat rat rat rat
  | ZoomVisualCommand string zoom_direction int
  | FillCommand string fill_source "utext option"
  | SelectCommand string utext
  | ScrollCommand scroll_direction int
  | WaitCommand rat
  | GoBackCommand
  | OpenUrlCommand string
  | AskUserCommand utext
  | FinishCommand finish_outcome utext

text \<open>\<open>ge=0.05, le=0.95\<close>; a drag shorter than \<open>0.1\<close> is refused, where the subtraction of the two
  doubles rounds to nearest: it yields at least the double \<open>0.1\<close> from half a unit below it on.\<close>

definition ratio_ok :: "rat \<Rightarrow> bool" where
  "ratio_ok r \<longleftrightarrow> 3602879701896397 / 2 ^ 56 \<le> r \<and> r \<le> 4278419646001971 / 2 ^ 52"

definition drag_long_enough :: "rat \<Rightarrow> rat \<Rightarrow> rat \<Rightarrow> rat \<Rightarrow> bool" where
  "drag_long_enough sx sy ex ey \<longleftrightarrow> max \<bar>ex - sx\<bar> \<bar>ey - sy\<bar> \<ge> 14411518807585587 / 2 ^ 57"

definition bounded_text :: "nat \<Rightarrow> utext \<Rightarrow> bool" where
  "bounded_text bound t \<longleftrightarrow> 1 \<le> length t \<and> length t \<le> bound \<and> squeeze_text t \<noteq> []"

text \<open>\<open>OpenUrlCommand.validate_url\<close>.\<close>

definition open_url_ok :: "string \<Rightarrow> bool" where
  "open_url_ok u \<longleftrightarrow>
     (case urlsplit (py_strip u) of
        None \<Rightarrow> False
      | Some p \<Rightarrow> url_scheme p \<in> {''http'', ''https''} \<and> url_hostname p \<noteq> None
          \<and> \<not> url_has_user p \<and> url_fragment p = [])"

fun command_valid :: "browser_command \<Rightarrow> bool" where
  "command_valid (ClickCommand c) \<longleftrightarrow> control_id_ok c"
| "command_valid (ClickVisualCommand c x y) \<longleftrightarrow> control_id_ok c \<and> ratio_ok x \<and> ratio_ok y"
| "command_valid (HoverVisualCommand c x y) \<longleftrightarrow> control_id_ok c \<and> ratio_ok x \<and> ratio_ok y"
| "command_valid (DragVisualCommand c sx sy ex ey) \<longleftrightarrow>
     control_id_ok c \<and> ratio_ok sx \<and> ratio_ok sy \<and> ratio_ok ex \<and> ratio_ok ey \<and> drag_long_enough sx sy ex ey"
| "command_valid (ZoomVisualCommand c d n) \<longleftrightarrow> control_id_ok c \<and> 1 \<le> n \<and> n \<le> 3"
| "command_valid (FillCommand c src v) \<longleftrightarrow>
     control_id_ok c \<and> fits 500 v
     \<and> (if src = LiteralSource then (case v of None \<Rightarrow> False | Some t \<Rightarrow> squeeze_text t \<noteq> []) else v = None)"
| "command_valid (SelectCommand c t) \<longleftrightarrow> control_id_ok c \<and> bounded_text 200 t"
| "command_valid (ScrollCommand d n) \<longleftrightarrow> 100 \<le> n \<and> n \<le> 2000"
| "command_valid (WaitCommand r) \<longleftrightarrow> 3602879701896397 / 2 ^ 55 \<le> r \<and> r \<le> 10"
| "command_valid GoBackCommand \<longleftrightarrow> True"
| "command_valid (OpenUrlCommand u) \<longleftrightarrow> u \<noteq> [] \<and> length u \<le> 2048 \<and> open_url_ok u"
| "command_valid (AskUserCommand q) \<longleftrightarrow> bounded_text 500 q"
| "command_valid (FinishCommand out t) \<longleftrightarrow> bounded_text 500 t"

fun normal_command :: "browser_command \<Rightarrow> browser_command" where
  "normal_command (SelectCommand c t) = SelectCommand c (squeeze_text t)"
| "normal_command (OpenUrlCommand u) = OpenUrlCommand (py_strip u)"
| "normal_command (AskUserCommand q) = AskUserCommand (squeeze_text q)"
| "normal_command (FinishCommand out t) = FinishCommand out (squeeze_text t)"
| "normal_command c = c"

definition make_command :: "browser_command \<Rightarrow> exn + browser_command" where
  "make_command c = accept (command_valid c) (normal_command c)"

section \<open>Decisions and results\<close>

record agent_decision =
  command :: browser_command
  rationale :: utext
  expected_result :: utext

definition decision_ok :: "agent_decision \<Rightarrow> bool" where
  "decision_ok d \<longleftrightarrow> bounded_text 500 (rationale d) \<and> bounded_text 500 (expected_result d)"

definition decision_valid :: "agent_decision \<Rightarrow> bool" where
  "decision_valid d \<longleftrightarrow> decision_ok d \<and> command_valid (command d)"

definition make_decision :: "agent_decision \<Rightarrow> exn + agent_decision" where
  "make_decision d =
     accept (decision_ok d)
       (d\<lparr>rationale := squeeze_text (rationale d), expected_result := squeeze_text (expected_result d)\<rparr>)"

text \<open>The pattern \<open>^[a-z][a-z0-9_]*$\<close> of reason codes.\<close>

definition is_lower :: "char \<Rightarrow> bool" where
  "is_lower c \<longleftrightarrow> (let n = (of_char c :: nat) in 97 \<le> n \<and> n \<le> 122)"

definition reason_code_ok :: "string \<Rightarrow> bool" where
  "reason_code_ok s \<longleftrightarrow>
     s \<noteq> [] \<and> is_lower (hd s) \<and> list_all (\<lambda>c. is_lower c \<or> is_digit c \<or> c = CHR ''_'') s \<and> length s \<le> 100"

record command_result =
  command_succeeded :: bool
  command_reason :: string
  command_snapshot :: "page_snapshot option"
  needs_user :: bool

definition snapshot_option_valid :: "page_snapshot option \<Rightarrow> bool" where
  "snapshot_option_valid v \<longleftrightarrow> (case v of None \<Rightarrow> True | Some p \<Rightarrow> page_snapshot_valid p)"

definition command_result_valid :: "command_result \<Rightarrow> bool" where
  "command_result_valid r \<longleftrightarrow> reason_code_ok (command_reason r) \<and> snapshot_option_valid (command_snapshot r)"

section \<open>Runs\<close>

datatype loop_status = LoopCompleted | LoopWaiting | LoopNoMatch | LoopExhausted | LoopStalled

record decision_metadata =
  metadata_provider :: string
  metadata_model :: string
  duration_ms :: int
  fallback_used :: bool
  attempted_models :: "string list"

definition metadata_valid :: "decision_metadata \<Rightarrow> bool" where
  "metadata_valid m \<longleftrightarrow>
     metadata_provider m \<noteq> [] \<and> is_lower (hd (metadata_provider m))
     \<and> list_all (\<lambda>c. is_lower c \<or> is_digit c \<or> c = CHR ''_'' \<or> c = CHR ''-'') (metadata_provider m)
     \<and> length (metadata_provider m) \<le> 32
     \<and> 1 \<le> length (metadata_model m) \<and> length (metadata_model m) \<le> 100
     \<and> 0 \<le> duration_ms m \<and> duration_ms m \<le> 600000 \<and> length (attempted_models m) \<le> 3"

record loop_step =
  step_sequence :: int
  step_decision :: agent_decision
  step_metadata :: "decision_metadata option"
  step_result :: command_result

definition loop_step_valid :: "loop_step \<Rightarrow> bool" where
  "loop_step_valid s \<longleftrightarrow>
     1 \<le> step_sequence s \<and> decision_valid (step_decision s)
     \<and> (case step_metadata s of None \<Rightarrow> True | Some m \<Rightarrow> metadata_valid m)
     \<and> command_result_valid (step_result s)"

record loop_result =
  loop_status :: loop_status
  loop_reason :: string
  loop_snapshot :: page_snapshot
  loop_steps :: "loop_step list"

definition loop_result_valid :: "loop_result \<Rightarrow> bool" where
  "loop_result_valid r \<longleftrightarrow>
     reason_code_ok (loop_reason r) \<and> page_snapshot_valid (loop_snapshot r)
     \<and> list_all loop_step_valid (loop_steps r)"

definition make_loop_result :: "loop_result \<Rightarrow> exn + loop_result" where
  "make_loop_result r = accept (reason_code_ok (loop_reason r)) r"

text \<open>\<open>xs[-n:]\<close> for a positive \<open>n\<close>.\<close>

definition last_n :: "nat \<Rightarrow> 'a list \<Rightarrow> 'a list" where
  "last_n n xs = drop (length xs - n) xs"

text \<open>\<open>enumerate(retained, start=1)\<close>.\<close>

fun renumber :: "int \<Rightarrow> loop_step list \<Rightarrow> loop_step list" where
  "renumber n [] = []"
| "renumber n (s # ss) = s\<lparr>step_sequence := n\<rparr> # renumber (n + 1) ss"

definition merge_agent_loop_results :: "loop_result option \<Rightarrow> loop_result \<Rightarrow> int \<Rightarrow> exn + loop_result" where
  "merge_agent_loop_results previous current max_steps =
     (if max_steps < 1 then Inl (ValueError ''max_steps must be at least one'')
      else
        let previous_steps = (case previous of None \<Rightarrow> [] | Some p \<Rightarrow> loop_steps p);
            retained = last_n (nat max_steps) (previous_steps @ loop_steps current)
        in Inr (current\<lparr>loop_steps := renumber 1 retained\<rparr>))"

lemma length_last_n [simp]: "length (last_n n xs) = min n (length xs)"
  by (simp add: last_n_def)

lemma set_last_n: "x \<in> set (last_n n xs) \<Longrightarrow> x \<in> set xs"
  by (auto simp: last_n_def dest: in_set_dropD)

lemma length_renumber [simp]: "length (renumber n ss) = length ss"
  by (induction n ss rule: renumber.induct) auto

lemma renumber_nth: "i < length ss \<Longrightarrow> renumber n ss ! i = (ss ! i)\<lparr>step_sequence := n + int i\<rparr>"
  by (induction n ss arbitrary: i rule: renumber.induct) (auto simp: nth_Cons split: nat.splits)

lemma renumber_valid: "list_all loop_step_valid ss \<Longrightarrow> 1 \<le> n \<Longrightarrow> list_all loop_step_valid (renumber n ss)"
  by (induction n ss rule: renumber.induct) (auto simp: loop_step_valid_def)

end
