(* ===== verification/AgentTasks.thy ===== *)
theory AgentTasks
  imports TaskPlans AgentRuns Interfaces
begin

text \<open>
  The agent task: the record with its constructor and validators (\<open>app/domain/task.py\<close>) and the
  in-memory repository (\<open>app/storage/task.py\<close>), an instance of \<open>versioned_store\<close>.
  \<open>agent_task_valid\<close> is what the constructor accepts; the SQL repository reads every stored task back
  through it, so a stored task that is not valid cannot be loaded any more.
\<close>

section \<open>Enumerations\<close>

datatype task_status =
    Draft | Ready | RunningTask | Monitoring | WaitingForUser | Prepared | CompletedTask | FailedTask
  | PausedTask | CancelledTask

fun task_status_value :: "task_status \<Rightarrow> string" where
  "task_status_value Draft = ''draft''"
| "task_status_value Ready = ''ready''"
| "task_status_value RunningTask = ''running''"
| "task_status_value Monitoring = ''monitoring''"
| "task_status_value WaitingForUser = ''waiting_for_user''"
| "task_status_value Prepared = ''prepared''"
| "task_status_value CompletedTask = ''completed''"
| "task_status_value FailedTask = ''failed''"
| "task_status_value PausedTask = ''paused''"
| "task_status_value CancelledTask = ''cancelled''"

datatype control_mode = PlanOnly | StepByStep | SafeAuto

datatype user_action_reason =
    AuthenticationRequired | CaptchaRequired | ConfirmationRequired | PaymentRequired
  | SensitiveDataApprovalRequired | ClarificationRequired

fun reason_value :: "user_action_reason \<Rightarrow> string" where
  "reason_value AuthenticationRequired = ''authentication_required''"
| "reason_value CaptchaRequired = ''captcha_required''"
| "reason_value ConfirmationRequired = ''confirmation_required''"
| "reason_value PaymentRequired = ''payment_required''"
| "reason_value SensitiveDataApprovalRequired = ''sensitive_data_approval_required''"
| "reason_value ClarificationRequired = ''clarification_required''"

definition all_reasons :: "user_action_reason list" where
  "all_reasons = [AuthenticationRequired, CaptchaRequired, ConfirmationRequired, PaymentRequired,
     SensitiveDataApprovalRequired, ClarificationRequired]"

text \<open>\<open>UserActionReason(value)\<close>.\<close>

definition reason_of_value :: "string \<Rightarrow> exn + user_action_reason" where
  "reason_of_value v =
     (case find (\<lambda>r. reason_value r = v) all_reasons of
        None \<Rightarrow> Inl (ValueError ''not a valid UserActionReason'') | Some r \<Rightarrow> Inr r)"

lemma reason_of_value_value [simp]: "reason_of_value (reason_value r) = Inr r"
  by (cases r) (simp_all add: reason_of_value_def all_reasons_def)

section \<open>Clarifications\<close>

record clarification =
  question :: utext
  answer :: utext
  clarified_at :: datetime

definition clarification_valid :: "clarification \<Rightarrow> bool" where
  "clarification_valid c \<longleftrightarrow>
     bounded_text 500 (question c) \<and> bounded_text 2000 (answer c) \<and> is_aware (clarified_at c)"

definition make_clarification :: "clarification \<Rightarrow> exn + clarification" where
  "make_clarification c =
     accept (clarification_valid c)
       (c\<lparr>question := squeeze_text (question c), answer := squeeze_text (answer c)\<rparr>)"

section \<open>The task\<close>

record agent_task =
  task_id :: uuid
  task_version :: int
  instruction :: utext
  target_url :: string
  person_ids :: "uuid list"
  task_status :: task_status
  control_mode :: control_mode
  inferred_kind :: "string option"
  intent :: "task_intent option"
  waiting_reason :: "user_action_reason option"
  permissions :: permission_policy
  plan :: "task_plan option"
  journal :: "task_journal option"
  approvals :: "step_approval list"
  page :: "page_snapshot option"
  fill_plan :: "page_fill_plan option"
  agent_run :: "loop_result option"
  clarifications :: "clarification list"
  task_created_at :: datetime

text \<open>\<open>None\<close> is a refusal.\<close>

definition normalize_target_url :: "string \<Rightarrow> string option" where
  "normalize_target_url value =
     (case urlsplit (py_strip value) of
        None \<Rightarrow> None
      | Some parsed \<Rightarrow>
          (case url_hostname parsed of
             None \<Rightarrow> None
           | Some host \<Rightarrow>
               if url_scheme parsed \<notin> {''http'', ''https''} then None
               else if url_has_user parsed then None
               else if url_fragment parsed \<noteq> [] then None
               else
                 let hostname = casefold host in
                 if url_scheme parsed = ''http'' \<and> hostname \<notin> {''localhost'', ''127.0.0.1'', ''::1''} then None
                 else (case url_port parsed of
                     None \<Rightarrow> None
                   | Some port \<Rightarrow>
                       Some (urlunsplit
                         \<lparr>url_scheme = url_scheme parsed,
                          url_netloc = (case port of None \<Rightarrow> hostname | Some n \<Rightarrow> hostname @ '':'' @ nat_str n),
                          url_path = (if url_path parsed = [] then ''/'' else url_path parsed),
                          url_query = url_query parsed, url_fragment = []\<rparr>))))"

definition kind_slug :: "string \<Rightarrow> string" where
  "kind_slug s = replace_char CHR ''-'' CHR ''_'' (casefold (py_strip s))"

definition kind_ok :: "string option \<Rightarrow> bool" where
  "kind_ok v \<longleftrightarrow> (case v of None \<Rightarrow> True | Some k \<Rightarrow> length k \<le> 64 \<and> simple_identifier (kind_slug k))"

definition waiting_ok :: "agent_task \<Rightarrow> bool" where
  "waiting_ok t \<longleftrightarrow> (task_status t = WaitingForUser \<longleftrightarrow> waiting_reason t \<noteq> None)"

text \<open>The loop of \<open>validate_execution_artifacts\<close> over the approvals.\<close>

fun check_approvals :: "int option \<Rightarrow> string list \<Rightarrow> uuid list \<Rightarrow> string list \<Rightarrow> step_approval list \<Rightarrow> bool" where
  "check_approvals version step_ids seen active [] = True"
| "check_approvals version step_ids seen active (a # as) =
     (if approval_id a \<in> set seen then False
      else if version \<noteq> None \<and> version \<noteq> Some (approved_version a) then False
      else if approved_step a \<notin> set step_ids then False
      else if consumed_at a = None then
        (if approved_step a \<in> set active then False
         else check_approvals version step_ids (approval_id a # seen) (approved_step a # active) as)
      else check_approvals version step_ids (approval_id a # seen) active as)"

definition plan_step_ids :: "agent_task \<Rightarrow> string list" where
  "plan_step_ids t = (case plan t of None \<Rightarrow> [] | Some p \<Rightarrow> map step_id (steps p))"

definition artifacts_ok :: "agent_task \<Rightarrow> bool" where
  "artifacts_ok t \<longleftrightarrow>
     (case plan t of None \<Rightarrow> True | Some p \<Rightarrow> plan_task p = task_id t)
     \<and> (case journal t of None \<Rightarrow> True | Some j \<Rightarrow> journal_task j = task_id t \<and> plan t \<noteq> None)
     \<and> (approvals t = [] \<or> plan t \<noteq> None)
     \<and> (case fill_plan t of
          None \<Rightarrow> True
        | Some f \<Rightarrow> (case page t of None \<Rightarrow> False | Some p \<Rightarrow> fill_url f = snapshot_url p))
     \<and> check_approvals (map_option plan_version (plan t)) (plan_step_ids t) [] [] (approvals t)"

definition opt_all :: "('a \<Rightarrow> bool) \<Rightarrow> 'a option \<Rightarrow> bool" where
  "opt_all P v \<longleftrightarrow> (case v of None \<Rightarrow> True | Some x \<Rightarrow> P x)"

lemma opt_all_simps [simp]: "opt_all P None" "opt_all P (Some x) = P x"
  by (simp_all add: opt_all_def)

text \<open>The fields that are set once when the task is created, and those its execution changes.\<close>

definition request_fields_ok :: "agent_task \<Rightarrow> bool" where
  "request_fields_ok t \<longleftrightarrow>
     0 \<le> task_version t
     \<and> bounded_text 4000 (instruction t)
     \<and> 1 \<le> length (target_url t) \<and> length (target_url t) \<le> 2048 \<and> normalize_target_url (target_url t) \<noteq> None
     \<and> 1 \<le> length (person_ids t) \<and> length (person_ids t) \<le> 100 \<and> distinct (person_ids t)
     \<and> is_aware (task_created_at t)"

definition work_fields_ok :: "agent_task \<Rightarrow> bool" where
  "work_fields_ok t \<longleftrightarrow>
     kind_ok (inferred_kind t)
     \<and> opt_all intent_valid (intent t) \<and> opt_all plan_valid (plan t) \<and> opt_all journal_valid (journal t)
     \<and> list_all approval_valid (approvals t)
     \<and> opt_all page_snapshot_valid (page t) \<and> opt_all fill_plan_valid (fill_plan t)
     \<and> opt_all loop_result_valid (agent_run t)
     \<and> length (clarifications t) \<le> 50 \<and> list_all clarification_valid (clarifications t)"

definition agent_task_valid :: "agent_task \<Rightarrow> bool" where
  "agent_task_valid t \<longleftrightarrow> request_fields_ok t \<and> work_fields_ok t \<and> waiting_ok t \<and> artifacts_ok t"

definition make_agent_task :: "agent_task \<Rightarrow> exn + agent_task" where
  "make_agent_task t =
     accept (agent_task_valid t)
       (t\<lparr>instruction := squeeze_text (instruction t),
          target_url := the (normalize_target_url (target_url t)),
          inferred_kind := map_option kind_slug (inferred_kind t)\<rparr>)"

text \<open>\<open>target_origin\<close>; \<open>None\<close> is the \<open>ValueError\<close> of a URL that cannot be split.\<close>

definition target_origin :: "agent_task \<Rightarrow> string option" where
  "target_origin t =
     map_option (\<lambda>p. urlunsplit \<lparr>url_scheme = url_scheme p, url_netloc = url_netloc p, url_path = [],
        url_query = [], url_fragment = []\<rparr>) (urlsplit (target_url t))"

section \<open>Repository\<close>

type_synonym task_repo = "(uuid, agent_task) dict"

definition create_agent_task :: "agent_task \<Rightarrow> (task_repo, exn, agent_task) prog" where
  "create_agent_task t d = (Inr t, dict_set (task_id t) t d)"

definition get_agent_task :: "uuid \<Rightarrow> (task_repo, exn, agent_task option) prog" where
  "get_agent_task k = gets (\<lambda>d. map_of d k)"

definition task_order :: "agent_task \<Rightarrow> time \<times> uuid" where
  "task_order t = (instant (task_created_at t), task_id t)"

definition list_agent_tasks :: "int \<Rightarrow> (task_repo, exn, agent_task list) prog" where
  "list_agent_tasks limit =
     thenE (require (0 < limit) (ValueError ''limit must be greater than 0''))
       (gets (\<lambda>d. first_n limit (sort_key task_order (dict_values d))))"

definition update_agent_task :: "agent_task \<Rightarrow> int \<Rightarrow> (task_repo, exn, agent_task option) prog" where
  "update_agent_task t expected_version d =
     (case map_of d (task_id t) of
        None \<Rightarrow> (Inr None, d)
      | Some current \<Rightarrow>
          if task_version current \<noteq> expected_version then (Inl AgentTaskVersionConflictError, d)
          else (let updated = t\<lparr>task_version := expected_version + 1\<rparr>
                in (Inr (Some updated), dict_set (task_id t) updated d)))"

definition clear_agent_tasks :: "(task_repo, exn, unit) prog" where
  "clear_agent_tasks = modify (\<lambda>_. [])"

interpretation agent_tasks: versioned_store map_of task_version "\<lambda>k u. update_agent_task (u\<lparr>task_id := k\<rparr>)"
  AgentTaskVersionConflictError
proof
  fix d :: task_repo and k a u v
  assume "map_of d k = Some a" "task_version a = v"
  then show "\<exists>b d'. update_agent_task (u\<lparr>task_id := k\<rparr>) v d = (Inr (Some b), d') \<and> task_version b = v + 1
      \<and> map_of d' = (map_of d)(k \<mapsto> b)"
    by (simp add: update_agent_task_def Let_def)
qed (simp_all add: update_agent_task_def)

section \<open>Approvals of a valid task\<close>

text \<open>What the loop over the approvals establishes.\<close>

definition active_steps :: "step_approval list \<Rightarrow> string list" where
  "active_steps as = map approved_step (filter (\<lambda>a. consumed_at a = None) as)"

definition approval_fits :: "int option \<Rightarrow> string list \<Rightarrow> step_approval \<Rightarrow> bool" where
  "approval_fits version step_ids a \<longleftrightarrow>
     (version = None \<or> version = Some (approved_version a)) \<and> approved_step a \<in> set step_ids"

lemma check_approvals_Cons:
  "check_approvals v ids seen active (a # as) \<longleftrightarrow>
     approval_id a \<notin> set seen \<and> approval_fits v ids a \<and> (consumed_at a = None \<longrightarrow> approved_step a \<notin> set active)
     \<and> check_approvals v ids (approval_id a # seen)
         (if consumed_at a = None then approved_step a # active else active) as"
  by (auto simp: approval_fits_def)

lemma active_steps_Cons:
  "active_steps (a # as) = (if consumed_at a = None then approved_step a # active_steps as else active_steps as)"
  by (simp add: active_steps_def)

lemma check_approvals_spec:
  "check_approvals v ids seen active as \<longleftrightarrow>
     distinct (map approval_id as) \<and> set (map approval_id as) \<inter> set seen = {}
     \<and> list_all (approval_fits v ids) as
     \<and> distinct (active_steps as) \<and> set (active_steps as) \<inter> set active = {}"
proof (induction as arbitrary: seen active)
  case (Cons a as)
  show ?case
  proof (cases "consumed_at a = None")
    case True
    show ?thesis
      unfolding check_approvals_Cons active_steps_Cons Cons if_P [OF True] list.map(2) list.set(2) distinct.simps(2)
        list_all_iff list.set(2) ball_simps(7)
      using True by blast
  next
    case False
    show ?thesis
      unfolding check_approvals_Cons active_steps_Cons Cons if_not_P [OF False] list.map(2) list.set(2)
        distinct.simps(2) list_all_iff ball_simps(7)
      using False by blast
  qed
qed (simp add: active_steps_def)

end
