(* ===== verification/TaskExecutor.thy ===== *)
theory TaskExecutor
  imports AgentTasks
begin

text \<open>
  Executing a plan: the permission gate (\<open>app/services/task_permission.py\<close>), the journal
  (\<open>app/services/task_journal.py\<close>) and \<open>execute_task_plan\<close> (\<open>app/services/task_executor.py\<close>). The
  runner that drives the browser is a parameter that acts on a world \<open>'w\<close> of its own; time and new
  identifiers come from the environment \<open>exec_env\<close>.
\<close>

section \<open>Permissions\<close>

definition allow_action :: "string \<Rightarrow> permission_decision" where
  "allow_action reason = \<lparr>allowed = True, requires_user = False, decision_reason = reason\<rparr>"

definition deny_action :: "string \<Rightarrow> permission_decision" where
  "deny_action reason = \<lparr>allowed = False, requires_user = False, decision_reason = reason\<rparr>"

definition ask_user :: "user_action_reason \<Rightarrow> permission_decision" where
  "ask_user reason = \<lparr>allowed = False, requires_user = True, decision_reason = reason_value reason\<rparr>"

text \<open>\<open>_origin\<close>: an error for a URL that cannot be split, \<open>None\<close> for one that is not an absolute
  HTTP(S) URL.\<close>

definition url_origin :: "string \<Rightarrow> exn + string option" where
  "url_origin value =
     (case urlsplit (py_strip value) of
        None \<Rightarrow> Inl (ValueError ''Invalid URL'')
      | Some p \<Rightarrow>
          if url_scheme p \<notin> {''http'', ''https''} \<or> url_netloc p = [] then Inr None
          else Inr (Some (urlunsplit \<lparr>url_scheme = casefold (url_scheme p), url_netloc = casefold (url_netloc p),
            url_path = [], url_query = [], url_fragment = []\<rparr>)))"

definition evaluate_navigation :: "agent_task \<Rightarrow> string option \<Rightarrow> exn + permission_decision" where
  "evaluate_navigation task wanted =
     (if \<not> allow_navigation (permissions task) then Inr (deny_action ''navigation_not_allowed'')
      else (case wanted of
          None \<Rightarrow> Inr (deny_action ''navigation_target_required'')
        | Some url \<Rightarrow>
            (case url_origin url of
               Inl e \<Rightarrow> Inl e
             | Inr None \<Rightarrow> Inr (deny_action ''invalid_navigation_target'')
             | Inr (Some there) \<Rightarrow>
                 (case target_origin task of
                    None \<Rightarrow> Inl (ValueError ''Invalid URL'')
                  | Some own \<Rightarrow>
                      if there \<noteq> own \<and> require_approval_for_cross_origin_navigation (permissions task)
                      then Inr (ask_user ConfirmationRequired)
                      else Inr (allow_action ''navigation_allowed'')))))"

definition evaluate_browser_action :: "agent_task \<Rightarrow> action_request \<Rightarrow> exn + permission_decision" where
  "evaluate_browser_action task request =
     (let policy = permissions task; action = request_action request in
      if action = Pay \<or> request_charges request then Inr (ask_user PaymentRequired)
      else if action = SolveCaptcha then Inr (ask_user CaptchaRequired)
      else if action = Authenticate then Inr (ask_user AuthenticationRequired)
      else if action = SubmitOrder \<or> \<not> request_reversible request then Inr (ask_user ConfirmationRequired)
      else (case action of
          FillSensitiveProfile \<Rightarrow>
            Inr (if require_approval_for_sensitive_data policy then ask_user SensitiveDataApprovalRequired
                 else allow_action ''sensitive_data_preapproved'')
        | Navigate \<Rightarrow> evaluate_navigation task (request_target request)
        | ReadPage \<Rightarrow>
            Inr (if allow_reading_pages policy then allow_action ''page_reading_allowed''
                 else deny_action ''page_reading_not_allowed'')
        | FillBasicProfile \<Rightarrow>
            Inr (if allow_basic_profile_filling policy then allow_action ''basic_profile_filling_allowed''
                 else deny_action ''basic_profile_filling_not_allowed'')
        | SelectOption \<Rightarrow>
            Inr (if allow_option_selection policy then allow_action ''option_selection_allowed''
                 else deny_action ''option_selection_not_allowed'')
        | PrepareReview \<Rightarrow>
            Inr (if allow_review_preparation policy then allow_action ''review_preparation_allowed''
                 else deny_action ''review_preparation_not_allowed'')
        | CreateFreeReservation \<Rightarrow>
            Inr (if allow_free_reservation policy then allow_action ''free_reservation_allowed''
                 else ask_user ConfirmationRequired)
        | _ \<Rightarrow> Inr (deny_action ''unsupported_action'')))"

section \<open>Environment\<close>

record 'w exec_env =
  browser :: 'w
  id_source :: "nat \<Rightarrow> uuid"
  id_tick :: nat
  clock :: "nat \<Rightarrow> time"
  clock_tick :: nat

definition draw_uuid :: "(('w, 'z) exec_env_scheme, exn, uuid) prog" where
  "draw_uuid s = (Inr (id_source s (id_tick s)), s\<lparr>id_tick := Suc (id_tick s)\<rparr>)"

definition read_clock :: "(('w, 'z) exec_env_scheme, exn, datetime) prog" where
  "read_clock s = (Inr (Aware (clock s (clock_tick s))), s\<lparr>clock_tick := Suc (clock_tick s)\<rparr>)"

definition in_browser :: "('w, exn, 'a) prog \<Rightarrow> (('w, 'z) exec_env_scheme, exn, 'a) prog" where
  "in_browser f s = (case f (browser s) of (r, w) \<Rightarrow> (r, s\<lparr>browser := w\<rparr>))"

section \<open>Journal\<close>

definition append_task_journal_entry ::
  "task_journal \<Rightarrow> task_plan \<Rightarrow> string \<Rightarrow> journal_outcome \<Rightarrow> string \<Rightarrow> datetime \<Rightarrow> string option \<Rightarrow> uuid option
     \<Rightarrow> (('w, 'z) exec_env_scheme, exn, task_journal) prog" where
  "append_task_journal_entry j p sid out message timestamp reason given =
     thenE (require (journal_task j = plan_task p) (ValueError ''journal and plan must belong to the same task''))
     (thenE (require (sid \<in> set (map step_id (steps p))) (ValueError ''journal step must exist in the task plan''))
     (bindE (case given of None \<Rightarrow> draw_uuid | Some i \<Rightarrow> ret i) (\<lambda>i.
      bindE (liftE (make_journal_entry \<lparr>entry_id = i, sequence = int (length (entries j)) + 1, entry_time = timestamp,
         entry_step = sid, outcome = out, entry_message = codes message, reason_code = reason\<rparr>)) (\<lambda>e.
      liftE (make_journal \<lparr>journal_task = journal_task j, entries = entries j @ [e]\<rparr>)))))"

section \<open>Execution\<close>

record step_result =
  step_succeeded :: bool
  result_reason :: "string option"
  result_page :: "page_snapshot option"
  result_fill :: "page_fill_plan option"

text \<open>What the constructor of \<open>BrowserStepResult\<close> checks.\<close>

definition step_result_ok :: "step_result \<Rightarrow> bool" where
  "step_result_ok r \<longleftrightarrow> opt_all reason_code_ok (result_reason r)"

definition browser_step_exception :: step_result where
  "browser_step_exception =
     \<lparr>step_succeeded = False, result_reason = Some ''browser_step_exception'', result_page = None, result_fill = None\<rparr>"

type_synonym 'w runner = "agent_task \<Rightarrow> plan_step \<Rightarrow> ('w, exn, step_result) prog"

definition usable_approval :: "int \<Rightarrow> string \<Rightarrow> string \<Rightarrow> step_approval \<Rightarrow> bool" where
  "usable_approval version sid reason a \<longleftrightarrow>
     approved_version a = version \<and> approved_step a = sid \<and> approval_reason a = reason \<and> consumed_at a = None"

definition consume_approval :: "step_approval \<Rightarrow> datetime \<Rightarrow> step_approval list \<Rightarrow> step_approval list" where
  "consume_approval approval t as =
     map (\<lambda>a. if approval_id a = approval_id approval then approval\<lparr>consumed_at := Some t\<rparr> else a) as"

text \<open>Stopping before a step: for the user, or because the policy denies it.\<close>

definition stop_for_user ::
  "task_plan \<Rightarrow> plan_step \<Rightarrow> permission_decision \<Rightarrow> task_journal \<Rightarrow> agent_task
     \<Rightarrow> (('w, 'z) exec_env_scheme, exn, agent_task) prog" where
  "stop_for_user p step decision j current =
     bindE read_clock (\<lambda>t.
     bindE (append_task_journal_entry j p (step_id step) Blocked ''Execution paused for a required user action''
        t (Some (decision_reason decision)) None) (\<lambda>j'.
     bindE (liftE (reason_of_value (decision_reason decision))) (\<lambda>reason.
     ret (current\<lparr>task_status := WaitingForUser, waiting_reason := Some reason, journal := Some j'\<rparr>))))"

definition stop_denied ::
  "task_plan \<Rightarrow> plan_step \<Rightarrow> permission_decision \<Rightarrow> task_journal \<Rightarrow> agent_task
     \<Rightarrow> (('w, 'z) exec_env_scheme, exn, agent_task) prog" where
  "stop_denied p step decision j current =
     bindE read_clock (\<lambda>t.
     bindE (append_task_journal_entry j p (step_id step) FailedStep ''Execution denied by the task permission policy''
        t (Some (decision_reason decision)) None) (\<lambda>j'.
     ret (current\<lparr>task_status := FailedTask, journal := Some j'\<rparr>)))"

text \<open>The pages and fill plans of a result replace those of the task.\<close>

definition absorb_result :: "step_result \<Rightarrow> agent_task \<Rightarrow> agent_task" where
  "absorb_result r t =
     (let t1 = (case result_page r of None \<Rightarrow> t | Some p \<Rightarrow> t\<lparr>page := Some p, fill_plan := None\<rparr>)
      in (case result_fill r of None \<Rightarrow> t1 | Some f \<Rightarrow> t1\<lparr>fill_plan := Some f\<rparr>))"

text \<open>The journal entry of the outcome, and the result in the task.\<close>

definition report_step ::
  "task_plan \<Rightarrow> plan_step \<Rightarrow> task_journal \<Rightarrow> agent_task \<Rightarrow> step_result
     \<Rightarrow> (('w, 'z) exec_env_scheme, exn, task_journal \<times> agent_task \<times> step_result) prog" where
  "report_step p step j current result =
     bindE read_clock (\<lambda>t.
     bindE (append_task_journal_entry j p (step_id step) (if step_succeeded result then Succeeded else FailedStep)
        (if step_succeeded result then ''Browser step completed'' else ''Browser step failed'')
        t (result_reason result) None) (\<lambda>j'.
     ret (j', absorb_result result (current\<lparr>journal := Some j'\<rparr>), result)))"

definition with_consumed :: "step_approval option \<Rightarrow> datetime \<Rightarrow> agent_task \<Rightarrow> agent_task" where
  "with_consumed approval t current =
     (case approval of
        None \<Rightarrow> current
      | Some a \<Rightarrow> current\<lparr>approvals := consume_approval a t (approvals current)\<rparr>)"

definition start_reason :: "permission_decision \<Rightarrow> step_approval option \<Rightarrow> string" where
  "start_reason decision approval =
     (if requires_user decision \<and> approval \<noteq> None then ''user_approved'' else decision_reason decision)"

text \<open>From the consumption of the approval to the journal entry of the outcome. An exception of the
  runner that is an \<open>Exception\<close> is a failed result.\<close>

definition run_step ::
  "'w runner \<Rightarrow> task_plan \<Rightarrow> plan_step \<Rightarrow> permission_decision \<Rightarrow> step_approval option \<Rightarrow> task_journal \<Rightarrow> agent_task
     \<Rightarrow> (('w, 'z) exec_env_scheme, exn, task_journal \<times> agent_task \<times> step_result) prog" where
  "run_step runner p step decision approval j current =
     bindE read_clock (\<lambda>started_at.
     bindE (append_task_journal_entry j p (step_id step) Started ''Browser step started'' started_at
        (Some (start_reason decision approval)) None) (\<lambda>j1.
     let current1 = (with_consumed approval started_at current)\<lparr>journal := Some j1\<rparr> in
     tryElse (in_browser (runner current1 step))
       (\<lambda>e. if e = ProcessExit then raise e else report_step p step j1 current1 browser_step_exception)
       (\<lambda>result. report_step p step j1 current1 result)))"

text \<open>What follows a step that was run: stopping at a failure or at the step limit, or going on.\<close>

definition settle_step ::
  "int option \<Rightarrow> int \<Rightarrow> (task_journal \<Rightarrow> agent_task \<Rightarrow> (('w, 'z) exec_env_scheme, exn, agent_task) prog)
     \<Rightarrow> task_journal \<times> agent_task \<times> step_result \<Rightarrow> (('w, 'z) exec_env_scheme, exn, agent_task) prog" where
  "settle_step max_steps executed continue x =
     (case x of (j, current, result) \<Rightarrow>
        if \<not> step_succeeded result then
          ret (current\<lparr>task_status :=
            (if result_reason result = Some ''review_action_not_available'' then Monitoring else FailedTask)\<rparr>)
        else if (case max_steps of None \<Rightarrow> False | Some n \<Rightarrow> n \<le> executed) then ret (current\<lparr>task_status := Ready\<rparr>)
        else continue j current)"

fun execute_steps ::
  "'w runner \<Rightarrow> task_plan \<Rightarrow> int option \<Rightarrow> plan_step list \<Rightarrow> string list \<Rightarrow> int \<Rightarrow> task_journal \<Rightarrow> agent_task
     \<Rightarrow> (('w, 'z) exec_env_scheme, exn, agent_task) prog" where
  "execute_steps runner p max_steps [] succeeded executed j current = ret (current\<lparr>task_status := Prepared\<rparr>)"
| "execute_steps runner p max_steps (step # rest) succeeded executed j current =
     (if step_id step \<in> set succeeded then execute_steps runner p max_steps rest succeeded executed j current
      else bindE (liftE (evaluate_browser_action current (to_action_request step))) (\<lambda>decision.
        let approval = find (usable_approval (plan_version p) (step_id step) (decision_reason decision)) (approvals current);
            approved = requires_user decision \<and> approval \<noteq> None in
        if requires_user decision \<and> \<not> approved then stop_for_user p step decision j current
        else if \<not> allowed decision \<and> \<not> approved then stop_denied p step decision j current
        else bindE (run_step runner p step decision approval j current)
          (settle_step max_steps (executed + 1) (\<lambda>j' current'.
             execute_steps runner p max_steps rest (step_id step # succeeded) (executed + 1) j' current'))))"

definition succeeded_ids :: "task_journal \<Rightarrow> string list" where
  "succeeded_ids j = map entry_step (filter (\<lambda>e. outcome e = Succeeded) (entries j))"

text \<open>\<open>task.journal or TaskExecutionJournal(task_id=task.id)\<close>.\<close>

definition initial_journal :: "agent_task \<Rightarrow> task_journal" where
  "initial_journal task =
     (case journal task of None \<Rightarrow> \<lparr>journal_task = task_id task, entries = []\<rparr> | Some j \<Rightarrow> j)"

definition execute_task_plan ::
  "agent_task \<Rightarrow> 'w runner \<Rightarrow> int option \<Rightarrow> (('w, 'z) exec_env_scheme, exn, agent_task) prog" where
  "execute_task_plan task runner max_steps =
     (case plan task of
        None \<Rightarrow> raise (TaskExecutionError ''task must have a plan before execution'')
      | Some p \<Rightarrow>
          if task_status task \<notin> {Ready, RunningTask} then
            raise (TaskExecutionError (''task in '' @ task_status_value (task_status task) @ '' state cannot be executed''))
          else
            let j = initial_journal task
            in execute_steps runner p max_steps (steps p) (succeeded_ids j) 0 j
                 (task\<lparr>task_status := RunningTask, waiting_reason := None, journal := Some j\<rparr>))"

end
