(* ===== verification/TaskUrls.thy ===== *)
theory TaskUrls
  imports AgentTasks
begin

text \<open>
  The normal form of target URLs (\<open>AgentTask.normalize_target_url\<close>): a URL the constructor has stored
  is accepted again when the task is read back, unless its host is an IPv6 address, whose brackets
  the normal form drops.
\<close>

lemma url_hostname_fold:
  assumes "url_hostname p = Some h"
  shows "casefold h = casefold (fst (host_info p))" and "fst (host_info p) \<noteq> []"
proof -
  obtain a z where pz: "partition_at CHR ''%'' (fst (host_info p)) = (a, z)" by fastforce
  have "Some h = (case z of None \<Rightarrow> Some (casefold a) | Some zone \<Rightarrow> Some (casefold a @ ''%'' @ zone))"
    using assms by (cases z) (simp_all add: url_hostname_def Let_def pz split: if_splits)
  moreover have "case z of None \<Rightarrow> fst (host_info p) = a | Some r \<Rightarrow> fst (host_info p) = a @ CHR ''%'' # r"
    using partition_at_parts [OF pz] by simp
  ultimately show "casefold h = casefold (fst (host_info p))"
    by (cases z) (simp_all add: casefold_def)
  show "fst (host_info p) \<noteq> []" using assms by (auto simp: url_hostname_def Let_def)
qed

lemma url_hostname_some: "fst (host_info p) \<noteq> [] \<Longrightarrow> url_hostname p \<noteq> None"
  by (auto simp: url_hostname_def Let_def split: option.splits prod.splits)

lemma host_info_plain:
  assumes "CHR ''@'' \<notin> set (url_netloc p)" and "CHR ''['' \<notin> set (url_netloc p)"
  shows "host_info p = (case partition_at CHR '':'' (url_netloc p) of
     (host, port) \<Rightarrow> (host, case port of None \<Rightarrow> [] | Some q \<Rightarrow> q))"
  using assms by (simp add: host_info_def Let_def after_last_absent partition_at_absent)

definition local_hosts :: "string set" where
  "local_hosts = {''localhost'', ''127.0.0.1'', ''::1''}"

definition host_form :: "string \<Rightarrow> string \<Rightarrow> string \<Rightarrow> bool" where
  "host_form s h n \<longleftrightarrow>
     h \<noteq> [] \<and> casefold h = h \<and> CHR '':'' \<notin> set h \<and> (s = ''http'' \<longrightarrow> h \<in> local_hosts)
     \<and> (n = h \<or> (\<exists>k. k \<le> 65535 \<and> n = h @ '':'' @ nat_str k))"

lemma netloc_absent:
  "list_all netloc_char h \<longleftrightarrow>
     list_all (\<lambda>c. c \<notin> set h) ([CHR 0x09, CHR 0x0A, CHR 0x0D] @ ''/?#[]@'')"
  by (auto simp: list_all_iff netloc_char_def no_break_def)

lemma casefold_netloc: "list_all netloc_char h \<Longrightarrow> list_all netloc_char (casefold h)"
  unfolding netloc_absent by (simp add: casefold_absent)

lemma digits_netloc: "list_all netloc_char (nat_str k)"
  using nat_str_digits [of k] by (auto simp: list_all_iff netloc_char_def no_break_def is_digit_def Let_def)

lemma normalize_target_url_form:
  assumes "normalize_target_url v = Some u" and "CHR ''['' \<notin> set v"
  obtains s h n path q where "http_scheme s" and "host_form s h n" and "list_all netloc_char n"
    and "path \<noteq> []" and "hd path = CHR ''/''" and "CHR ''?'' \<notin> set path"
    and "CHR ''#'' \<notin> set (path @ q)" and "list_all no_break (path @ q)"
    and "u = s @ '':'' @ ''//'' @ n @ path @ (if q = [] then [] else CHR ''?'' # q)"
proof -
  obtain p where p: "urlsplit (py_strip v) = Some p"
    using assms(1) by (auto simp: normalize_target_url_def split: option.splits)
  obtain h0 where h0: "url_hostname p = Some h0"
    using assms(1) by (auto simp: normalize_target_url_def p split: option.splits)
  obtain port where port: "url_port p = Some port"
    using assms(1) by (auto simp: normalize_target_url_def p h0 Let_def split: option.splits if_splits)
  have g: "url_scheme p \<in> {''http'', ''https''}" "\<not> url_has_user p"
      "url_scheme p = ''http'' \<longrightarrow> casefold h0 \<in> local_hosts"
    using assms(1) by (auto simp: normalize_target_url_def p h0 port Let_def local_hosts_def split: if_splits)
  have u: "u = urlunsplit \<lparr>url_scheme = url_scheme p,
      url_netloc = (case port of None \<Rightarrow> casefold h0 | Some n \<Rightarrow> casefold h0 @ '':'' @ nat_str n),
      url_path = (if url_path p = [] then ''/'' else url_path p), url_query = url_query p, url_fragment = []\<rparr>"
    using assms(1) by (auto simp: normalize_target_url_def p h0 port Let_def split: if_splits)
  note parts = urlsplit_parts [OF p]
  have at: "CHR ''@'' \<notin> set (url_netloc p)" using g(2) by (simp add: url_has_user_def after_last_none)
  have "set (py_strip v) \<subseteq> set v" by (auto simp: py_strip_def dest!: set_dropWhileD)
  then have br: "CHR ''['' \<notin> set (url_netloc p)" using parts(1) assms(2) by blast
  then have br': "CHR '']'' \<notin> set (url_netloc p)" using parts(6) by (simp add: brackets_ok_def)
  have net: "list_all netloc_char (url_netloc p)"
    using parts(2,3) at br br' unfolding list_all_iff netloc_char_def by auto
  obtain hh pp where hp: "partition_at CHR '':'' (url_netloc p) = (hh, pp)" by fastforce
  have hi: "host_info p = (hh, case pp of None \<Rightarrow> [] | Some q \<Rightarrow> q)"
    by (simp add: host_info_plain [OF at br] hp)
  have hh: "hh \<noteq> []" "casefold h0 = casefold hh" using url_hostname_fold [OF h0] by (simp_all add: hi)
  have "set hh \<subseteq> set (url_netloc p)" using partition_at_parts [OF hp] by (auto split: option.splits)
  then have hn: "list_all netloc_char hh" using net unfolding list_all_iff by blast
  have "CHR '':'' \<notin> set hh" using partition_at_parts [OF hp] by simp
  then have colon: "CHR '':'' \<notin> set (casefold hh)" by (rule casefold_absent) simp
  let ?h = "casefold hh"
  let ?n = "case port of None \<Rightarrow> ?h | Some n \<Rightarrow> ?h @ '':'' @ nat_str n"
  let ?path = "if url_path p = [] then ''/'' else url_path p"
  have ne: "url_netloc p \<noteq> []" using hh(1) partition_at_parts [OF hp] by (auto split: option.splits)
  have path: "?path \<noteq> []" "hd ?path = CHR ''/''" using parts(5) [OF ne] by auto
  show ?thesis
  proof (rule that [of "url_scheme p" ?h ?n ?path "url_query p"])
    show "http_scheme (url_scheme p)" using g(1) by (simp add: http_scheme_def)
    have "k \<le> 65535" if "port = Some k" for k
      using port that by (auto simp: url_port_def Let_def split: if_splits option.splits)
    then show "host_form (url_scheme p) ?h ?n"
      using g(3) hh colon by (auto simp: host_form_def casefold_def split: option.splits)
    show "list_all netloc_char ?n"
      using casefold_netloc [OF hn] digits_netloc
      by (auto simp: netloc_char_def no_break_def split: option.splits)
    show "?path \<noteq> []" "hd ?path = CHR ''/''" by (fact path)+
    show "CHR ''?'' \<notin> set ?path" "CHR ''#'' \<notin> set (?path @ url_query p)" using parts(4) by auto
    show "list_all no_break (?path @ url_query p)" using parts(2) by (simp add: no_break_def)
    show "u = url_scheme p @ '':'' @ ''//'' @ ?n @ ?path @ (if url_query p = [] then [] else CHR ''?'' # url_query p)"
      unfolding u hh(2) using path g(1) by (auto simp: urlunsplit_def Let_def)
  qed
qed

lemma rstrip_append:
  assumes "c \<in> set r" and "\<not> is_space c"
  shows "rev (dropWhile is_space (rev (a @ r))) = a @ rev (dropWhile is_space (rev r))"
  using assms by (simp add: dropWhile_append1 [of c])

lemma normalize_again:
  assumes "http_scheme s" and "host_form s h n" and "list_all netloc_char n"
    and "r \<noteq> []" and "hd r = CHR ''/''" and "list_all no_break r" and "CHR ''#'' \<notin> set r"
    and "py_strip v = s @ '':'' @ ''//'' @ n @ r" and "partition_at CHR ''?'' r = (path, query)"
  shows "normalize_target_url v =
     Some (s @ '':'' @ ''//'' @ n @ path @ (case query of None \<Rightarrow> [] | Some q \<Rightarrow> if q = [] then [] else CHR ''?'' # q))"
proof -
  let ?p = "\<lparr>url_scheme = s, url_netloc = n, url_path = path,
     url_query = (case query of None \<Rightarrow> [] | Some q \<Rightarrow> q), url_fragment = []\<rparr>"
  have split: "urlsplit (py_strip v) = Some ?p"
    unfolding assms(8) urlsplit_again [OF assms(1,3,5,4,6,7)] assms(9) prod.case by (rule refl)
  have h: "h \<noteq> []" "casefold h = h" "CHR '':'' \<notin> set h" "s = ''http'' \<longrightarrow> h \<in> local_hosts"
    using assms(2) by (simp_all add: host_form_def)
  obtain k where n: "n = h \<and> k = None \<or> (\<exists>i. k = Some i \<and> i \<le> 65535 \<and> n = h @ '':'' @ nat_str i)"
    using assms(2) by (fastforce simp: host_form_def)
  have abs: "CHR ''@'' \<notin> set n" "CHR ''['' \<notin> set n"
    using assms(3) unfolding netloc_absent by simp_all
  have hi: "host_info ?p = (h, case k of None \<Rightarrow> [] | Some i \<Rightarrow> nat_str i)"
    using n h(3) host_info_plain [of ?p] abs
    by (elim disjE exE conjE) (simp_all add: partition_at_absent partition_at_found)
  obtain h' where h': "url_hostname ?p = Some h'" using url_hostname_some [of ?p] h(1) hi by auto
  have fold: "casefold h' = h" using url_hostname_fold(1) [OF h'] h(2) hi by simp
  have port: "url_port ?p = Some k"
    unfolding url_port_def hi snd_conv Let_def using n by (cases k) (auto simp: list_all_iff nat_str_digits)
  have user: "\<not> url_has_user ?p" using abs(1) by (simp add: url_has_user_def after_last_absent)
  have path: "path = [] \<or> hd path = CHR ''/''"
    using partition_at_parts [OF assms(9)] assms(4,5) by (cases path) (auto split: option.splits)
  have "path \<noteq> []"
    using partition_at_parts [OF assms(9)] assms(4,5) by (cases path) (auto split: option.splits)
  then have path: "path \<noteq> []" "hd path = CHR ''/''" using path by simp_all
  have netloc: "(case k of None \<Rightarrow> h | Some i \<Rightarrow> h @ '':'' @ nat_str i) = n" using n by auto
  have "s \<in> {''http'', ''https''}" "s \<noteq> []" using assms(1) by (auto simp: http_scheme_def)
  moreover have "\<not> (s = ''http'' \<and> h \<notin> {''localhost'', ''127.0.0.1'', ''::1''})"
    using h(4) by (simp add: local_hosts_def)
  ultimately show ?thesis
    unfolding normalize_target_url_def split h' port option.case Let_def fold
    using user path by (cases query) (simp_all add: urlunsplit_def netloc)
qed

text \<open>A target URL the constructor stores is accepted when the task is read back, and is then
  unchanged unless it ends in white space; only a bracketed (IPv6) host is excluded.\<close>

theorem target_url_read_back:
  assumes "normalize_target_url v = Some u" and "CHR ''['' \<notin> set v"
  shows "\<exists>u'. normalize_target_url u = Some u' \<and> (u' = u \<or> py_strip u \<noteq> u)"
proof -
  obtain s h n path q where f: "http_scheme s" "host_form s h n" "list_all netloc_char n"
    "path \<noteq> []" "hd path = CHR ''/''" "CHR ''?'' \<notin> set path" "CHR ''#'' \<notin> set (path @ q)"
    "list_all no_break (path @ q)"
    and u: "u = s @ '':'' @ ''//'' @ n @ path @ (if q = [] then [] else CHR ''?'' # q)"
    using normalize_target_url_form [OF assms] .
  let ?R = "path @ (if q = [] then [] else CHR ''?'' # q)"
  let ?r = "rev (dropWhile is_space (rev ?R))"
  have slash: "CHR ''/'' \<in> set ?R" "\<not> is_space CHR ''/''"
    using f(4,5) by (cases path; simp) (simp add: is_space_def)
  have "dropWhile is_space u = u" unfolding u using f(1) by (auto simp: http_scheme_def is_space_def)
  then have strip: "py_strip u = s @ '':'' @ ''//'' @ n @ ?r"
    unfolding py_strip_def using rstrip_append [OF slash, of "s @ '':'' @ ''//'' @ n"] by (simp add: u)
  have "dropWhile is_space (rev ?R) \<noteq> []" using slash by (simp only: dropWhile_eq_Nil_conv set_rev) blast
  then have r: "?r \<noteq> []" by simp
  have hd: "hd ?r = CHR ''/''" using hd_rev_dropWhile_rev [OF r] f(4,5) by simp
  have sub: "set ?r \<subseteq> set ?R" by (auto dest!: set_dropWhileD)
  have "list_all no_break ?R" "CHR ''#'' \<notin> set ?R" using f(7,8) by (auto simp: no_break_def)
  then have R: "list_all no_break ?r" "CHR ''#'' \<notin> set ?r" using sub unfolding list_all_iff by blast+
  obtain pa qu where pq: "partition_at CHR ''?'' ?r = (pa, qu)" by fastforce
  note again = normalize_again [OF f(1-3) r hd R strip pq]
  show ?thesis
  proof (cases "py_strip u = u")
    case True
    then have "?r = ?R" using strip u by simp
    moreover have "partition_at CHR ''?'' ?R = (path, if q = [] then None else Some q)"
      using f(6) by (simp add: partition_at_absent partition_at_found)
    ultimately have "pa = path" "qu = (if q = [] then None else Some q)" using pq by simp_all
    then show ?thesis using again u by simp
  next
    case False
    then show ?thesis using again by blast
  qed
qed

text \<open>Evaluation of the functions above on concrete URLs.\<close>

lemmas url_eval = normalize_target_url_def urlsplit_def split_scheme_def split_netloc_def brackets_ok_def
  url_hostname_def host_info_def after_last_def url_port_def url_has_user_def urlunsplit_def
  py_strip_def is_space_def is_alpha_def is_alnum_def is_digit_def scheme_char_def casefold_def casefold_char_def
  nat_str.simps digit_char_def digit_value_def char_of_def bit_0

lemma loopback_bracketed: "bracketed_host_ok ''::1''"
  by (simp add: bracketed_host_ok_def ipv6_address_ok_def ipv6_parts_def Let_def hextets_ok_def is_hex_def
      is_digit_def upt_rec casefold_char_def nth_Cons)

lemma target_url_read_back_witness:
  "\<exists>u'. normalize_target_url ''https://example.org:84/?x=1'' = Some u'
     \<and> (u' = ''https://example.org:84/?x=1'' \<or> py_strip ''https://example.org:84/?x=1'' \<noteq> ''https://example.org:84/?x=1'')"
proof (rule target_url_read_back)
  show "normalize_target_url '' HTTPS://Example.org:84?x=1'' = Some ''https://example.org:84/?x=1''"
    by (simp add: url_eval)
qed simp

text \<open>The address \<open>[::1]\<close> is among the hosts plain HTTP is allowed for, but its normal form loses
  the brackets, and reading the stored task back refuses it.\<close>

theorem ipv6_target_not_read_back:
  "normalize_target_url ''http://[::1]:8000/'' = Some ''http://::1:8000/''
   \<and> normalize_target_url ''http://::1:8000/'' = None"
proof
  have "split_scheme ''http://[::1]:8000/'' = (''http'', ''//[::1]:8000/'')" by (simp add: url_eval)
  then have "urlsplit ''http://[::1]:8000/'' = Some \<lparr>url_scheme = ''http'', url_netloc = ''[::1]:8000'',
      url_path = ''/'', url_query = [], url_fragment = []\<rparr>"
    by (simp add: urlsplit_def split_netloc_def brackets_ok_def loopback_bracketed)
  moreover have "py_strip ''http://[::1]:8000/'' = ''http://[::1]:8000/''" by (simp add: url_eval)
  ultimately show "normalize_target_url ''http://[::1]:8000/'' = Some ''http://::1:8000/''"
    by (simp add: url_eval)
  show "normalize_target_url ''http://::1:8000/'' = None" by (simp add: url_eval)
qed

end
