(* ===== verification/TaskPlanner.thy ===== *)
theory TaskPlanner
  imports TaskExecutor TaskUrls
begin

text \<open>
  The planner of agent tasks: \<open>app/services/task_planner.py\<close>. The extraction of the facts of an
  instruction (\<open>extract_task_intent\<close>, text processing with regular expressions) is a parameter.
\<close>

section \<open>Kinds of tasks\<close>

text \<open>\<open>_KIND_MARKERS\<close>; the Russian markers are given by their code points.\<close>

definition kind_markers :: "(string \<times> utext list) list" where
  "kind_markers =
     [(''train_ticket'', [[1087, 1086, 1077, 1079, 1076], [1078, 1076], [1088, 1078, 1076], codes ''train'']),
      (''flight_ticket'', [[1072, 1074, 1080, 1072], [1089, 1072, 1084, 1086, 1083], codes ''flight'']),
      (''hotel'', [[1086, 1090, 1077, 1083], [1075, 1086, 1089, 1090, 1080, 1085, 1080, 1094], codes ''hotel'']),
      (''theatre_ticket'', [[1090, 1077, 1072, 1090, 1088], [1089, 1087, 1077, 1082, 1090, 1072, 1082],
         codes ''theatre'', codes ''theater'']),
      (''cinema_ticket'', [[1082, 1080, 1085, 1086], [1089, 1077, 1072, 1085, 1089], codes ''cinema'', codes ''movie''])]"

definition infer_task_kind :: "utext \<Rightarrow> string" where
  "infer_task_kind instr =
     (let normalized = casefold_text instr in
      case find (\<lambda>(kind, markers). list_ex (\<lambda>m. py_contains m normalized) markers) kind_markers of
        None \<Rightarrow> ''generic_purchase'' | Some (kind, _) \<Rightarrow> kind)"

definition basic_profile_kinds :: "string list" where
  "basic_profile_kinds = [''train_ticket'', ''flight_ticket'', ''hotel'']"

definition document_kinds :: "string list" where
  "document_kinds = [''train_ticket'', ''flight_ticket'']"

section \<open>The plan\<close>

text \<open>A step with the fields the planner gives it; the others have their defaults.\<close>

definition draft_step :: "string \<Rightarrow> browser_action \<Rightarrow> string \<Rightarrow> string list \<Rightarrow> plan_step" where
  "draft_step i action summary deps =
     \<lparr>step_id = i, step_action = action, step_summary = codes summary, depends_on = deps, step_target = None,
      creates_charge = False, reversible = True, requested_fields = []\<rparr>"

definition opening_steps :: "string \<Rightarrow> plan_step list" where
  "opening_steps url =
     [(draft_step ''open_target'' Navigate ''Open the user-provided website'' [])\<lparr>step_target := Some url\<rparr>,
      draft_step ''inspect_page'' ReadPage ''Inspect the page and locate the relevant form'' [''open_target'']]"

definition people_steps :: "string \<Rightarrow> string \<Rightarrow> plan_step list" where
  "people_steps kind previous =
     (if kind \<in> set basic_profile_kinds then
        [(draft_step ''fill_people'' FillBasicProfile ''Fill basic details for the selected people'' [previous])
           \<lparr>requested_fields := [''first_name'', ''last_name'', ''birth_date'']\<rparr>]
      else [])"

definition document_steps :: "string \<Rightarrow> string \<Rightarrow> plan_step list" where
  "document_steps kind previous =
     (if kind \<in> set document_kinds then
        [(draft_step ''fill_documents'' FillSensitiveProfile ''Fill required identity document details after approval'' [previous])
           \<lparr>requested_fields := [''document_type'', ''document_number'']\<rparr>]
      else [])"

definition closing_steps :: "string \<Rightarrow> plan_step list" where
  "closing_steps previous =
     [draft_step ''choose_option'' SelectOption ''Choose the option that best matches the request'' [previous],
      draft_step ''open_review'' PrepareReview ''Advance to the review page without confirming the order'' [''choose_option''],
      (draft_step ''prepare_order'' SubmitOrder ''Prepare the order and stop before irreversible submission'' [''open_review''])
        \<lparr>reversible := False\<rparr>]"

text \<open>\<open>previous\<close> is the last step so far.\<close>

definition planned_steps :: "string \<Rightarrow> string \<Rightarrow> plan_step list" where
  "planned_steps kind url =
     (let people = people_steps kind ''inspect_page'';
          previous = (if people = [] then ''inspect_page'' else ''fill_people'');
          documents = document_steps kind previous;
          last_step = (if documents = [] then previous else ''fill_documents'')
      in opening_steps url @ people @ documents @ closing_steps last_step)"

fun each_made :: "('a \<Rightarrow> exn + 'b) \<Rightarrow> 'a list \<Rightarrow> exn + 'b list" where
  "each_made f [] = Inr []"
| "each_made f (x # xs) =
     (case f x of Inl e \<Rightarrow> Inl e
      | Inr y \<Rightarrow> (case each_made f xs of Inl e \<Rightarrow> Inl e | Inr ys \<Rightarrow> Inr (y # ys)))"

record plan_preview =
  preview_plan :: task_plan
  preview_kind :: string
  preview_intent :: task_intent
  preview_decisions :: "permission_decision list"

text \<open>\<open>inferred_kind or infer_task_kind(...)\<close>: an empty kind counts as none.\<close>

definition task_kind :: "agent_task \<Rightarrow> string" where
  "task_kind task =
     (case inferred_kind task of
        Some k \<Rightarrow> if k = [] then infer_task_kind (instruction task) else k
      | None \<Rightarrow> infer_task_kind (instruction task))"

definition build_task_plan ::
  "(utext \<Rightarrow> int \<Rightarrow> datetime \<Rightarrow> exn + task_intent) \<Rightarrow> agent_task \<Rightarrow> datetime \<Rightarrow> exn + plan_preview" where
  "build_task_plan extract_task_intent task now =
     (case extract_task_intent (instruction task) (int (length (person_ids task))) now of
        Inl e \<Rightarrow> Inl e
      | Inr facts \<Rightarrow>
          (case each_made make_plan_step (planned_steps (task_kind task) (target_url task)) of
             Inl e \<Rightarrow> Inl e
           | Inr ss \<Rightarrow>
               (case make_plan \<lparr>plan_task = task_id task,
                   plan_version = (case plan task of None \<Rightarrow> 1 | Some p \<Rightarrow> plan_version p + 1),
                   plan_created_at = now, steps = ss\<rparr> of
                  Inl e \<Rightarrow> Inl e
                | Inr p \<Rightarrow>
                    (case each_made (\<lambda>s. evaluate_browser_action task (to_action_request s)) (steps p) of
                       Inl e \<Rightarrow> Inl e
                     | Inr ds \<Rightarrow> Inr \<lparr>preview_plan = p, preview_kind = task_kind task, preview_intent = facts,
                         preview_decisions = ds\<rparr>))))"

section \<open>The plans it makes\<close>

lemma step_slugs [simp]:
  "step_slug ''open_target'' = ''open_target''" "step_slug ''inspect_page'' = ''inspect_page''"
  "step_slug ''fill_people'' = ''fill_people''" "step_slug ''fill_documents'' = ''fill_documents''"
  "step_slug ''choose_option'' = ''choose_option''" "step_slug ''open_review'' = ''open_review''"
  "step_slug ''prepare_order'' = ''prepare_order''"
  by (simp_all add: step_slug_def replace_char_def casefold_def casefold_char_def py_strip_def is_space_def)

lemma step_names [simp]:
  "simple_identifier ''open_target''" "simple_identifier ''inspect_page''" "simple_identifier ''fill_people''"
  "simple_identifier ''fill_documents''" "simple_identifier ''choose_option''" "simple_identifier ''open_review''"
  "simple_identifier ''prepare_order''"
  by (simp_all add: simple_identifier_def is_alnum_def is_alpha_def)

lemma field_names [simp]:
  "py_strip ''first_name'' = ''first_name''" "py_strip ''last_name'' = ''last_name''" "py_strip ''birth_date'' = ''birth_date''"
  "py_strip ''document_type'' = ''document_type''" "py_strip ''document_number'' = ''document_number''"
  by (simp_all add: py_strip_def is_space_def)

lemma each_made_all: "list_all P xs \<Longrightarrow> (\<And>x. P x \<Longrightarrow> f x = Inr (g x)) \<Longrightarrow> each_made f xs = Inr (map g xs)"
  by (induction xs) simp_all

definition normal_step :: "plan_step \<Rightarrow> plan_step" where
  "normal_step s = s\<lparr>step_summary := squeeze_text (step_summary s)\<rparr>"

lemma draft_step_fields [simp]:
  "step_id (draft_step i a m ds) = i" "step_action (draft_step i a m ds) = a" "step_summary (draft_step i a m ds) = codes m"
  "depends_on (draft_step i a m ds) = ds" "step_target (draft_step i a m ds) = None"
  "creates_charge (draft_step i a m ds) = False" "reversible (draft_step i a m ds) = True"
  "requested_fields (draft_step i a m ds) = []"
  by (simp_all add: draft_step_def)

lemmas planned_defs = planned_steps_def opening_steps_def people_steps_def document_steps_def closing_steps_def

lemma planned_valid: "length url \<le> 2048 \<Longrightarrow> list_all plan_step_valid (planned_steps kind url)"
  by (simp add: planned_defs plan_step_valid_def fits_def Let_def)

lemma planned_made: "length url \<le> 2048 \<Longrightarrow> each_made make_plan_step (planned_steps kind url) = Inr (map normal_step (planned_steps kind url))"
  by (simp add: planned_defs make_plan_step_def plan_step_valid_def fits_def Let_def accept_def normal_step_def)

lemma normal_step_fields [simp]:
  "step_id (normal_step s) = step_id s" "step_action (normal_step s) = step_action s" "depends_on (normal_step s) = depends_on s"
  "creates_charge (normal_step s) = creates_charge s" "reversible (normal_step s) = reversible s"
  "step_target (normal_step s) = step_target s" "to_action_request (normal_step s) = to_action_request s"
  by (simp_all add: normal_step_def to_action_request_def)

lemma planned_graph: "check_step_graph [] (map normal_step (planned_steps kind url))"
  by (simp add: planned_defs Let_def)

lemma normal_step_valid:
  assumes "plan_step_valid s" and "squeeze_text (step_summary s) \<noteq> []"
  shows "plan_step_valid (normal_step s)"
  using assms squeeze_text_length [of "step_summary s"] unfolding plan_step_valid_def normal_step_def by simp

lemma planned_summaries: "list_all (\<lambda>s. squeeze_text (step_summary s) \<noteq> []) (planned_steps kind url)"
  by (simp add: planned_defs Let_def squeeze_codes text_space_def)

lemma planned_normal_valid: "length url \<le> 2048 \<Longrightarrow> list_all plan_step_valid (map normal_step (planned_steps kind url))"
  using planned_valid [of url kind] planned_summaries [of kind url] normal_step_valid
  by (auto simp: list_all_iff)

text \<open>The target of a task is never a navigation to another origin.\<close>

lemma host_fold:
  assumes "host_form s h n"
  shows "casefold n = n"
proof -
  have "casefold_char c = c" if "is_digit c" for c
    using that by (auto simp: is_digit_def casefold_char_def Let_def)
  then have "casefold (nat_str k) = nat_str k" for k
    using nat_str_digits [of k] unfolding casefold_def by (intro map_idI) blast
  moreover have "casefold (CHR '':'' # r) = CHR '':'' # casefold r" for r
    by (simp add: casefold_def casefold_char_def)
  ultimately show ?thesis using assms by (auto simp: host_form_def)
qed

lemma own_origin:
  assumes "normalize_target_url v = Some (target_url t)" and "CHR ''['' \<notin> set v"
  shows "\<exists>o'. target_origin t = Some o' \<and> url_origin (target_url t) = Inr (Some o')"
proof -
  obtain s h n path q where f: "http_scheme s" "host_form s h n" "list_all netloc_char n"
    "path \<noteq> []" "hd path = CHR ''/''" "CHR ''?'' \<notin> set path" "CHR ''#'' \<notin> set (path @ q)"
    "list_all no_break (path @ q)"
    and u: "target_url t = s @ '':'' @ ''//'' @ n @ path @ (if q = [] then [] else CHR ''?'' # q)"
    using normalize_target_url_form [OF assms] .
  let ?R = "path @ (if q = [] then [] else CHR ''?'' # q)"
  have R: "hd ?R = CHR ''/''" "?R \<noteq> []" "list_all no_break ?R" "CHR ''#'' \<notin> set ?R"
    using f(4,5,7,8) by (auto simp: no_break_def)
  obtain p1 where p1: "urlsplit (target_url t) = Some p1" "url_scheme p1 = s" "url_netloc p1 = n"
    unfolding u urlsplit_again [OF f(1,3) R] by (cases "partition_at CHR ''?'' ?R") simp
  obtain u' where u': "normalize_target_url (target_url t) = Some u'"
    using target_url_read_back [OF assms] by blast
  let ?r = "rev (dropWhile is_space (rev ?R))"
  have slash: "CHR ''/'' \<in> set ?R" "\<not> is_space CHR ''/''"
    using f(4,5) by (cases path; simp) (simp add: is_space_def)
  have "dropWhile is_space (target_url t) = target_url t" unfolding u using f(1) by (auto simp: http_scheme_def is_space_def)
  then have strip: "py_strip (target_url t) = s @ '':'' @ ''//'' @ n @ ?r"
    unfolding py_strip_def using rstrip_append [OF slash, of "s @ '':'' @ ''//'' @ n"] by (simp add: u)
  have "dropWhile is_space (rev ?R) \<noteq> []" using slash by (simp only: dropWhile_eq_Nil_conv set_rev) blast
  then have r: "?r \<noteq> []" by simp
  have hd: "hd ?r = CHR ''/''" using hd_rev_dropWhile_rev [OF r] R(1) by simp
  have sub: "set ?r \<subseteq> set ?R" by (auto dest!: set_dropWhileD)
  have r': "list_all no_break ?r" "CHR ''#'' \<notin> set ?r" using R(3,4) sub unfolding list_all_iff by blast+
  obtain p2 where p2: "urlsplit (py_strip (target_url t)) = Some p2" "url_scheme p2 = s" "url_netloc p2 = n"
    unfolding strip urlsplit_again [OF f(1,3) hd r r'] by (cases "partition_at CHR ''?'' ?r") simp
  have n: "n \<noteq> []" using f(2) by (auto simp: host_form_def)
  have s: "casefold s = s" "s \<in> {''http'', ''https''}"
    using f(1) by (auto simp: http_scheme_def casefold_def casefold_char_def)
  show ?thesis
    using n s(2) unfolding target_origin_def url_origin_def p1(1) p2(1) by (simp add: p1 p2 s(1) host_fold [OF f(2)])
qed

text \<open>For a task whose target URL was stored by the constructor the planner makes a valid plan
  of the next version: it opens the target without asking, no step charges, and its last step is
  stopped for the user's confirmation.\<close>

theorem planner_contract:
  assumes "normalize_target_url v = Some (target_url t)" and "CHR ''['' \<notin> set v" and "length (target_url t) \<le> 2048"
    and "opt_all plan_valid (plan t)" and "is_aware now"
    and "extract (instruction t) (int (length (person_ids t))) now = Inr facts"
  shows "\<exists>pv. build_task_plan extract t now = Inr pv \<and> plan_valid (preview_plan pv)
     \<and> plan_task (preview_plan pv) = task_id t \<and> preview_intent pv = facts
     \<and> plan_version (preview_plan pv) = (case plan t of None \<Rightarrow> 1 | Some p \<Rightarrow> plan_version p + 1)
     \<and> length (preview_decisions pv) = length (steps (preview_plan pv))
     \<and> list_all (\<lambda>s. \<not> creates_charge s) (steps (preview_plan pv))
     \<and> hd (preview_decisions pv) = (if allow_navigation (permissions t) then allow_action ''navigation_allowed''
          else deny_action ''navigation_not_allowed'')
     \<and> last (preview_decisions pv) = ask_user ConfirmationRequired"
proof -
  let ?ss = "map normal_step (planned_steps (task_kind t) (target_url t))"
  let ?v = "case plan t of None \<Rightarrow> 1 | Some p \<Rightarrow> plan_version p + 1"
  let ?p = "\<lparr>plan_task = task_id t, plan_version = ?v, plan_created_at = now, steps = ?ss\<rparr>"
  have v: "1 \<le> ?v" using assms(4) by (cases "plan t") (auto simp: plan_valid_def plan_ok_def)
  have len: "1 \<le> length ?ss" "length ?ss \<le> 200" by (simp_all add: planned_defs Let_def)
  have p: "plan_valid ?p" "make_plan ?p = Inr ?p"
    using v len assms(5) planned_graph planned_normal_valid [OF assms(3)]
    by (simp_all add: plan_valid_def plan_ok_def make_plan_def)
  obtain o' where nav: "target_origin t = Some o'" "url_origin (target_url t) = Inr (Some o')"
    using own_origin [OF assms(1,2)] by blast
  have "\<exists>ds. each_made (\<lambda>s. evaluate_browser_action t (to_action_request s)) ?ss = Inr ds \<and> length ds = length ?ss
      \<and> hd ds = (if allow_navigation (permissions t) then allow_action ''navigation_allowed'' else deny_action ''navigation_not_allowed'')
      \<and> last ds = ask_user ConfirmationRequired"
    by (simp add: planned_defs Let_def evaluate_browser_action_def evaluate_navigation_def to_action_request_def nav)
  then obtain ds where ds: "each_made (\<lambda>s. evaluate_browser_action t (to_action_request s)) ?ss = Inr ds" "length ds = length ?ss"
      "hd ds = (if allow_navigation (permissions t) then allow_action ''navigation_allowed'' else deny_action ''navigation_not_allowed'')"
      "last ds = ask_user ConfirmationRequired"
    by blast
  have "build_task_plan extract t now = Inr \<lparr>preview_plan = ?p, preview_kind = task_kind t, preview_intent = facts, preview_decisions = ds\<rparr>"
    unfolding build_task_plan_def assms(6) sum.case planned_made [OF assms(3)] p(2) task_plan.simps ds(1) by (rule refl)
  moreover have "list_all (\<lambda>s. \<not> creates_charge s) ?ss" by (simp add: planned_defs Let_def)
  ultimately show ?thesis using p(1) ds by simp
qed

text \<open>A request for a train, as it is stored.\<close>

definition train_task :: agent_task where
  "train_task = \<lparr>task_id = 7, task_version = 0, instruction = codes ''buy'', target_url = ''https://example.org:84/?x=1'',
     person_ids = [1], task_status = Ready, control_mode = SafeAuto, inferred_kind = Some ''train_ticket'', intent = None,
     waiting_reason = None, permissions = default_policy, plan = None, journal = None, approvals = [],
     page = None, fill_plan = None, agent_run = None, clarifications = [], task_created_at = Aware 0\<rparr>"

definition no_facts :: task_intent where
  "no_facts = \<lparr>origin = None, destination = None, requested_date = None, earliest_time = None, latest_time = None,
     requested_quantity = None, participant_count = 1, search_terms = [], issues = []\<rparr>"

lemma planner_contract_witness:
  "\<exists>pv. build_task_plan (\<lambda>i n t. Inr no_facts) train_task (Aware 5) = Inr pv \<and> plan_valid (preview_plan pv)
     \<and> plan_version (preview_plan pv) = 1 \<and> last (preview_decisions pv) = ask_user ConfirmationRequired"
proof -
  have "normalize_target_url '' HTTPS://Example.org:84?x=1'' = Some (target_url train_task)"
    by (simp add: url_eval train_task_def)
  then show ?thesis
    using planner_contract [of "'' HTTPS://Example.org:84?x=1''" train_task "Aware 5" "\<lambda>i n t. Inr no_facts" no_facts]
    by (auto simp: train_task_def)
qed

end
