(* ===== verification/Polling.thy ===== *)
theory Polling
  imports Prelude Complex_Main
begin

text \<open>
  Polling with a deadline, as the readers of event histories do it: read, and as long as nothing is
  there sleep until the next poll or the deadline. The waiter (the clock of the event loop and its
  \<open>sleep\<close>) is a parameter on a state \<open>'w\<close> that others change in the meantime. Times of the clock are
  seconds, a float being a rational; a \<open>timedelta\<close> is a number of microseconds.
\<close>

section \<open>Rounding\<close>

text \<open>To the nearest integer, half to even.\<close>

definition round_half_even :: "rat \<Rightarrow> int" where
  "round_half_even r =
     (let f = \<lfloor>r\<rfloor>; d = r - of_int f in
      if d < 1 / 2 then f else if d > 1 / 2 then f + 1 else if even f then f else f + 1)"

lemma round_half_even_close: "r - 1 / 2 \<le> of_int (round_half_even r)"
proof -
  have "r - of_int \<lfloor>r\<rfloor> \<le> 1" by linarith
  then show ?thesis by (auto simp: round_half_even_def Let_def)
qed

text \<open>\<open>timedelta(seconds=x)\<close> and \<open>d.total_seconds()\<close>.\<close>

definition timedelta_of_seconds :: "rat \<Rightarrow> timedelta" where
  "timedelta_of_seconds x = round_half_even (x * 1000000)"

definition total_seconds :: "timedelta \<Rightarrow> rat" where
  "total_seconds d = of_int d / 1000000"

lemma timedelta_close: "x - 1 / 2000000 \<le> total_seconds (timedelta_of_seconds x)"
  using round_half_even_close [of "x * 1000000"] by (simp add: total_seconds_def timedelta_of_seconds_def field_simps)

lemma total_seconds_mono: "d \<le> e \<longleftrightarrow> total_seconds d \<le> total_seconds e"
  by (simp add: total_seconds_def divide_le_cancel)

section \<open>The loop\<close>

record ('w, 'e) waiter =
  monotonic :: "('w, 'e, rat) prog"
  sleep :: "timedelta \<Rightarrow> ('w, 'e, unit) prog"

text \<open>\<open>None\<close> is a loop that has not ended within \<open>fuel\<close> rounds.\<close>

fun wait_rounds ::
  "('w, 'e) waiter \<Rightarrow> ('w, 'e, 'p) prog \<Rightarrow> ('p \<Rightarrow> bool) \<Rightarrow> timedelta \<Rightarrow> rat \<Rightarrow> nat \<Rightarrow> ('w, 'e, 'p option) prog" where
  "wait_rounds wt read full poll deadline 0 = ret None"
| "wait_rounds wt read full poll deadline (Suc fuel) =
     bindE (monotonic wt) (\<lambda>now.
     if deadline - now \<le> 0 then bindE read (\<lambda>p. ret (Some p))
     else
       thenE (sleep wt (min poll (timedelta_of_seconds (deadline - now))))
       (bindE read (\<lambda>p.
        if full p then ret (Some p)
        else bindE (monotonic wt) (\<lambda>later.
          if later \<ge> deadline then ret (Some p) else wait_rounds wt read full poll deadline fuel))))"

definition wait_until ::
  "('w, 'e) waiter \<Rightarrow> ('w, 'e, 'p) prog \<Rightarrow> ('p \<Rightarrow> bool) \<Rightarrow> timedelta \<Rightarrow> timedelta \<Rightarrow> nat \<Rightarrow> ('w, 'e, 'p option) prog" where
  "wait_until wt read full poll timeout fuel =
     bindE read (\<lambda>p.
       if full p \<or> timeout \<le> 0 then ret (Some p)
       else bindE (monotonic wt) (\<lambda>now. wait_rounds wt read full poll (now + total_seconds timeout) fuel))"

section \<open>It ends\<close>

text \<open>What the loop relies on: time does not run backwards, a reading of the clock is the current time,
  and a sleep lasts as long as was asked, but at least a microsecond.\<close>

definition waiter_sound :: "('w \<Rightarrow> rat) \<Rightarrow> ('w, 'e) waiter \<Rightarrow> ('w, 'e, 'p) prog \<Rightarrow> bool" where
  "waiter_sound time_of wt read \<longleftrightarrow>
     (\<forall>w. wp (monotonic wt) (\<lambda>t w'. t = time_of w' \<and> time_of w \<le> time_of w') (\<lambda>_ _. True) w)
     \<and> (\<forall>d w. wp (sleep wt d) (\<lambda>_ w'. time_of w + max (total_seconds d) (1 / 1000000) \<le> time_of w') (\<lambda>_ _. True) w)
     \<and> (\<forall>w. wp read (\<lambda>_ w'. time_of w \<le> time_of w') (\<lambda>_ _. True) w)"

lemma waiter_steps:
  assumes "waiter_sound time_of wt read"
  shows "(\<And>t w'. t = time_of w' \<Longrightarrow> time_of w \<le> time_of w' \<Longrightarrow> Q1 t w') \<Longrightarrow> wp (monotonic wt) Q1 (\<lambda>_ _. True) w"
    and "(\<And>w'. time_of w + max (total_seconds d) (1 / 1000000) \<le> time_of w' \<Longrightarrow> Q2 () w') \<Longrightarrow> wp (sleep wt d) Q2 (\<lambda>_ _. True) w"
    and "(\<And>p w'. time_of w \<le> time_of w' \<Longrightarrow> Q3 p w') \<Longrightarrow> wp read Q3 (\<lambda>_ _. True) w"
proof -
  have f: "wp (monotonic wt) (\<lambda>t w'. t = time_of w' \<and> time_of w \<le> time_of w') (\<lambda>_ _. True) w"
    "wp (sleep wt d) (\<lambda>_ w'. time_of w + max (total_seconds d) (1 / 1000000) \<le> time_of w') (\<lambda>_ _. True) w"
    "wp read (\<lambda>_ w'. time_of w \<le> time_of w') (\<lambda>_ _. True) w"
    using assms unfolding waiter_sound_def by simp_all
  show "(\<And>t w'. t = time_of w' \<Longrightarrow> time_of w \<le> time_of w' \<Longrightarrow> Q1 t w') \<Longrightarrow> wp (monotonic wt) Q1 (\<lambda>_ _. True) w"
    by (rule wp_mono [OF f(1)]) simp_all
  show "(\<And>w'. time_of w + max (total_seconds d) (1 / 1000000) \<le> time_of w' \<Longrightarrow> Q2 () w') \<Longrightarrow> wp (sleep wt d) Q2 (\<lambda>_ _. True) w"
    by (rule wp_mono [OF f(2)]) simp_all
  show "(\<And>p w'. time_of w \<le> time_of w' \<Longrightarrow> Q3 p w') \<Longrightarrow> wp read Q3 (\<lambda>_ _. True) w"
    by (rule wp_mono [OF f(3)]) simp_all
qed

text \<open>One round: it returns, or leaves the deadline at least a polling interval closer, or at most a
  microsecond away.\<close>

lemma wait_round:
  assumes "waiter_sound time_of wt read"
    and "\<And>w'. time_of w + total_seconds poll \<le> time_of w' \<or> deadline - time_of w' \<le> 1 / 2000000 \<Longrightarrow>
      time_of w + 1 / 1000000 \<le> time_of w' \<Longrightarrow> time_of w' < deadline \<Longrightarrow>
      wp (wait_rounds wt read full poll deadline n) (\<lambda>p _. p \<noteq> None) (\<lambda>_ _. True) w'"
  shows "wp (wait_rounds wt read full poll deadline (Suc n)) (\<lambda>p _. p \<noteq> None) (\<lambda>_ _. True) w"
  unfolding wait_rounds.simps(2) wp_bindE wp_thenE wp_if wp_ret
proof (rule waiter_steps(1) [OF assms(1)])
  fix now w1 assume now: "now = time_of w1" "time_of w \<le> time_of w1"
  let ?d = "min poll (timedelta_of_seconds (deadline - now))"
  have last: "wp read (\<lambda>p s. Some p \<noteq> None) (\<lambda>_ _. True) w1"
    by (rule waiter_steps(3) [OF assms(1)]) simp
  have round: "wp (sleep wt ?d) (\<lambda>_. wp read (\<lambda>p s. if full p then Some p \<noteq> None
      else wp (monotonic wt) (\<lambda>later s. if deadline \<le> later then Some p \<noteq> None
        else wp (wait_rounds wt read full poll deadline n) (\<lambda>p _. p \<noteq> None) (\<lambda>_ _. True) s) (\<lambda>_ _. True) s) (\<lambda>_ _. True))
      (\<lambda>_ _. True) w1"
  proof (rule waiter_steps(2) [OF assms(1)], rule waiter_steps(3) [OF assms(1)])
    fix w2 and p :: 'c and w3
    assume w2: "time_of w1 + max (total_seconds ?d) (1 / 1000000) \<le> time_of w2" and w3: "time_of w2 \<le> time_of w3"
    have "wp (monotonic wt) (\<lambda>later s. if deadline \<le> later then Some p \<noteq> None
        else wp (wait_rounds wt read full poll deadline n) (\<lambda>p _. p \<noteq> None) (\<lambda>_ _. True) s) (\<lambda>_ _. True) w3"
    proof (rule waiter_steps(1) [OF assms(1)])
      fix later w4 assume w4: "later = time_of w4" "time_of w3 \<le> time_of w4"
      have far: "time_of w + total_seconds poll \<le> time_of w4 \<or> deadline - time_of w4 \<le> 1 / 2000000"
      proof (cases "poll \<le> timedelta_of_seconds (deadline - now)")
        case True
        then have "time_of w + total_seconds poll \<le> time_of w4"
          using now w2 w3 w4 max.cobounded1 [of "total_seconds poll" "1 / 1000000"] by (simp add: min_def)
        then show ?thesis ..
      next
        case False
        then have d: "?d = timedelta_of_seconds (deadline - now)" by simp
        have "deadline - time_of w4 \<le> 1 / 2000000"
          using now w2 [unfolded d] w3 w4 timedelta_close [of "deadline - now"]
            max.cobounded1 [of "total_seconds (timedelta_of_seconds (deadline - now))" "1 / 1000000"] by linarith
        then show ?thesis ..
      qed
      have "time_of w + 1 / 1000000 \<le> time_of w4" using now w2 w3 w4 by simp
      from assms(2) [OF far this] w4
      show "if deadline \<le> later then Some p \<noteq> None
        else wp (wait_rounds wt read full poll deadline n) (\<lambda>p _. p \<noteq> None) (\<lambda>_ _. True) w4" by simp
    qed
    then show "if full p then Some p \<noteq> None
      else wp (monotonic wt) (\<lambda>later s. if deadline \<le> later then Some p \<noteq> None
        else wp (wait_rounds wt read full poll deadline n) (\<lambda>p _. p \<noteq> None) (\<lambda>_ _. True) s) (\<lambda>_ _. True) w3" by simp
  qed
  show "if deadline - now \<le> 0 then wp read (\<lambda>p s. Some p \<noteq> None) (\<lambda>_ _. True) w1
    else wp (sleep wt ?d) (\<lambda>_. wp read (\<lambda>p s. if full p then Some p \<noteq> None
      else wp (monotonic wt) (\<lambda>later s. if deadline \<le> later then Some p \<noteq> None
        else wp (wait_rounds wt read full poll deadline n) (\<lambda>p _. p \<noteq> None) (\<lambda>_ _. True) s) (\<lambda>_ _. True) s) (\<lambda>_ _. True))
      (\<lambda>_ _. True) w1"
    using last round by (cases "deadline - now \<le> 0") (simp_all only: if_P if_not_P simp_thms)
qed

lemma wait_rounds_last:
  assumes "waiter_sound time_of wt read" and "deadline - time_of w \<le> 1 / 1000000"
  shows "wp (wait_rounds wt read full poll deadline (Suc n)) (\<lambda>p _. p \<noteq> None) (\<lambda>_ _. True) w"
  by (rule wait_round [OF assms(1)]) (use assms(2) in linarith)

lemma wait_rounds_end:
  assumes "waiter_sound time_of wt read"
  shows "deadline - time_of w \<le> total_seconds poll * of_nat n \<Longrightarrow>
    wp (wait_rounds wt read full poll deadline (Suc (Suc n))) (\<lambda>p _. p \<noteq> None) (\<lambda>_ _. True) w"
proof (induction n arbitrary: w)
  case (0 w)
  then show ?case by (intro wait_rounds_last [OF assms]) simp
next
  case (Suc n w)
  show ?case
  proof (rule wait_round [OF assms])
    fix w' assume "time_of w + total_seconds poll \<le> time_of w' \<or> deadline - time_of w' \<le> 1 / 2000000"
    then show "wp (wait_rounds wt read full poll deadline (Suc (Suc n))) (\<lambda>p _. p \<noteq> None) (\<lambda>_ _. True) w'"
    proof
      assume "time_of w + total_seconds poll \<le> time_of w'"
      then show ?thesis by (intro Suc.IH) (use Suc.prems in \<open>simp add: algebra_simps\<close>)
    next
      assume "deadline - time_of w' \<le> 1 / 2000000"
      then show ?thesis by (intro wait_rounds_last [OF assms]) simp
    qed
  qed
qed

lemma wait_until_ends:
  assumes "waiter_sound time_of wt read" and "timeout \<le> poll * int n"
  shows "wp (wait_until wt read full poll timeout (Suc (Suc n))) (\<lambda>p _. p \<noteq> None) (\<lambda>_ _. True) w"
  unfolding wait_until_def wp_bindE wp_if wp_ret
proof (rule waiter_steps(3) [OF assms(1)])
  fix p :: 'c and w1
  have "total_seconds timeout \<le> total_seconds (poll * int n)" using assms(2) by (simp add: total_seconds_mono [symmetric])
  then have t: "total_seconds timeout \<le> total_seconds poll * of_nat n" by (simp add: total_seconds_def)
  have "wp (monotonic wt) (\<lambda>now. wp (wait_rounds wt read full poll (now + total_seconds timeout) (Suc (Suc n)))
      (\<lambda>p _. p \<noteq> None) (\<lambda>_ _. True)) (\<lambda>_ _. True) w1"
    by (rule waiter_steps(1) [OF assms(1)], rule wait_rounds_end [OF assms(1)]) (use t in simp)
  then show "if full p \<or> timeout \<le> 0 then Some p \<noteq> None
    else wp (monotonic wt) (\<lambda>now. wp (wait_rounds wt read full poll (now + total_seconds timeout) (Suc (Suc n)))
      (\<lambda>p _. p \<noteq> None) (\<lambda>_ _. True)) (\<lambda>_ _. True) w1"
    by (simp del: wait_rounds.simps not_None_eq)
qed

end
