(* ===== verification/AgentLoop.thy ===== *)
theory AgentLoop
  imports AgentTasks Polling
begin

text \<open>
  The observe-decide-act loop of the agent: \<open>app/services/agent_loop.py\<close>, with the page stage of
  \<open>app/services/agent_decision.py\<close>. The browser runtime and the decision provider are parameters that
  act on a world \<open>'w\<close>. The provider receives what \<open>build_agent_decision_context\<close> builds its context
  from: the task with the current snapshot, the observations and the screenshot.
\<close>

section \<open>Page stages\<close>

datatype page_stage =
    AuthenticationStage | ReviewStage | VisualSelectionStage | FormEntryStage | OptionSelectionStage
  | BrowsingStage | UnknownStage

definition form_kinds :: "control_kind list" where
  "form_kinds = [TextKind, DateKind, EmailKind, TelKind, NumberKind]"

definition option_kinds :: "control_kind list" where
  "option_kinds = [SelectKind, RadioKind, CheckboxKind, ButtonKind]"

text \<open>The Russian terms are \<open>parol\<close>, \<open>kod podtverzhdeniya\<close>; \<open>oplatit\<close>, \<open>podtverdit zakaz\<close>,
  \<open>podtverdit pokupku\<close>, in Cyrillic.\<close>

definition authentication_terms :: "utext list" where
  "authentication_terms =
     [codes ''password'', codes ''passcode'', [1087, 1072, 1088, 1086, 1083],
      [1082, 1086, 1076, 32, 1087, 1086, 1076, 1090, 1074, 1077, 1088, 1078, 1076, 1077, 1085, 1080, 1103],
      codes ''verification code'']"

definition review_terms :: "utext list" where
  "review_terms =
     [codes ''confirm order'', codes ''confirm purchase'', codes ''pay now'', codes ''payment'',
      [1086, 1087, 1083, 1072, 1090, 1080, 1090, 1100],
      [1087, 1086, 1076, 1090, 1074, 1077, 1088, 1076, 1080, 1090, 1100, 32, 1079, 1072, 1082, 1072, 1079],
      [1087, 1086, 1076, 1090, 1074, 1077, 1088, 1076, 1080, 1090, 1100, 32, 1087, 1086, 1082, 1091, 1087, 1082, 1091]]"

definition control_text :: "page_control \<Rightarrow> utext" where
  "control_text c =
     casefold_text (py_join [32] (filter (\<lambda>part. part \<noteq> []) [label c, case field_name c of None \<Rightarrow> [] | Some f \<Rightarrow> f]))"

definition controls_contain_terms :: "page_control list \<Rightarrow> utext list \<Rightarrow> control_kind list \<Rightarrow> bool" where
  "controls_contain_terms cs terms kinds \<longleftrightarrow>
     list_ex (\<lambda>c. kind_of_control c \<in> set kinds \<and> list_ex (\<lambda>term. py_contains term (control_text c)) terms) cs"

text \<open>\<open>normalize_fuzzy_text\<close>: the words of the folded text, with the letter \<open>yo\<close> read as \<open>ye\<close>.\<close>

definition word_code :: "nat \<Rightarrow> bool" where
  "word_code n \<longleftrightarrow> (48 \<le> n \<and> n \<le> 57) \<or> (65 \<le> n \<and> n \<le> 90) \<or> n = 95 \<or> (97 \<le> n \<and> n \<le> 122)
     \<or> n \<in> {170, 178, 179, 181, 185, 186, 188, 189, 190} \<or> (192 \<le> n \<and> n \<le> 591 \<and> n \<noteq> 215 \<and> n \<noteq> 247)
     \<or> (1024 \<le> n \<and> n \<le> 1153) \<or> (1162 \<le> n \<and> n \<le> 1327)"

definition normalize_fuzzy_text :: "utext \<Rightarrow> utext" where
  "normalize_fuzzy_text t =
     py_join [32] (words_by (\<lambda>n. \<not> word_code n) (map (\<lambda>n. if n = 1105 then 1077 else n) (casefold_text t)))"

definition uninformative_visual :: "page_control \<Rightarrow> bool" where
  "uninformative_visual c \<longleftrightarrow>
     kind_of_control c = SvgKind \<and> normalize_fuzzy_text (label c) \<in> {codes ''svg'', codes ''visual svg''}"

definition classify_agent_page_stage :: "page_snapshot \<Rightarrow> page_stage" where
  "classify_agent_page_stage snapshot =
     (let cs = filter (\<lambda>c. \<not> control_disabled c) (controls snapshot) in
      if controls_contain_terms cs authentication_terms (form_kinds @ [ButtonKind]) then AuthenticationStage
      else if controls_contain_terms cs review_terms [ButtonKind, ClickableKind, LinkKind] then ReviewStage
      else if list_ex (\<lambda>c. kind_of_control c = CanvasKind \<or> kind_of_control c = SvgKind \<and> \<not> uninformative_visual c) cs
      then VisualSelectionStage
      else if list_ex (\<lambda>c. kind_of_control c \<in> set form_kinds) cs then FormEntryStage
      else if list_ex (\<lambda>c. kind_of_control c \<in> set option_kinds) cs then OptionSelectionStage
      else if list_ex (\<lambda>c. kind_of_control c \<in> {LinkKind, ClickableKind}) cs then BrowsingStage
      else UnknownStage)"

section \<open>Observations\<close>

record action_observation =
  observed_action :: string
  observed_target :: "utext option"
  observed_result :: string
  result_url :: "string option"
  result_page_stage :: "page_stage option"
  page_changed :: "bool option"
  visual_point :: "(rat \<times> rat) option"
  visual_end_point :: "(rat \<times> rat) option"
  zoom_direction_of :: "zoom_direction option"
  zoom_intensity :: "int option"

definition observation_ok :: "action_observation \<Rightarrow> bool" where
  "observation_ok a \<longleftrightarrow>
     1 \<le> length (observed_action a) \<and> length (observed_action a) \<le> 32 \<and> fits 200 (observed_target a)
     \<and> 1 \<le> length (observed_result a) \<and> length (observed_result a) \<le> 100 \<and> fits 2048 (result_url a)
     \<and> opt_all (\<lambda>n. 1 \<le> n \<and> n \<le> 3) (zoom_intensity a)"

fun command_action :: "browser_command \<Rightarrow> string" where
  "command_action (ClickCommand c) = ''click''"
| "command_action (ClickVisualCommand c x y) = ''click_visual''"
| "command_action (HoverVisualCommand c x y) = ''hover_visual''"
| "command_action (DragVisualCommand c sx sy ex ey) = ''drag_visual''"
| "command_action (ZoomVisualCommand c d n) = ''zoom_visual''"
| "command_action (FillCommand c s v) = ''fill''"
| "command_action (SelectCommand c t) = ''select''"
| "command_action (ScrollCommand d n) = ''scroll''"
| "command_action (WaitCommand r) = ''wait''"
| "command_action GoBackCommand = ''go_back''"
| "command_action (OpenUrlCommand u) = ''open_url''"
| "command_action (AskUserCommand q) = ''ask_user''"
| "command_action (FinishCommand out t) = ''finish''"

text \<open>\<open>f"{x:.3f}"\<close> for a non-negative float: the exact value rounded to three decimals, half to even.\<close>

definition format3 :: "rat \<Rightarrow> string" where
  "format3 r =
     (let n = nat (round_half_even (r * 1000)) in
      nat_str (n div 1000) @ ''.'' @ [digit_char (n div 100 mod 10), digit_char (n div 10 mod 10), digit_char (n mod 10)])"

definition point_text :: "rat \<Rightarrow> rat \<Rightarrow> string" where
  "point_text x y = ''('' @ format3 x @ '','' @ format3 y @ '')''"

fun zoom_value :: "zoom_direction \<Rightarrow> string" where
  "zoom_value ZoomIn = ''in''"
| "zoom_value ZoomOut = ''out''"

fun finish_value :: "finish_outcome \<Rightarrow> string" where
  "finish_value ReadyForUser = ''ready_for_user''"
| "finish_value GoalReached = ''goal_reached''"
| "finish_value NoMatchFound = ''no_match''"
| "finish_value NeedsUser = ''needs_user''"

fun command_target :: "browser_command \<Rightarrow> utext option" where
  "command_target (ClickVisualCommand c x y) = Some (codes (c @ ''@'' @ point_text x y))"
| "command_target (HoverVisualCommand c x y) = Some (codes (c @ ''@'' @ point_text x y))"
| "command_target (DragVisualCommand c sx sy ex ey) =
     Some (codes (c @ ''@'' @ point_text sx sy @ ''->'' @ point_text ex ey))"
| "command_target (ZoomVisualCommand c d n) = Some (codes (c @ '':'' @ zoom_value d @ '':'' @ int_str n))"
| "command_target (ClickCommand c) = Some (take 200 (codes c))"
| "command_target (FillCommand c s v) = Some (take 200 (codes c))"
| "command_target (SelectCommand c t) = Some (take 200 (codes c))"
| "command_target (OpenUrlCommand u) = Some (take 200 (codes u))"
| "command_target (AskUserCommand q) = Some (take 200 q)"
| "command_target (FinishCommand out t) = Some (take 200 (codes (finish_value out)))"
| "command_target (ScrollCommand d n) = None"
| "command_target (WaitCommand r) = None"
| "command_target GoBackCommand = None"

definition page_semantically_changed :: "page_snapshot \<Rightarrow> page_snapshot \<Rightarrow> bool" where
  "page_semantically_changed before after \<longleftrightarrow>
     (snapshot_url before, snapshot_title before, visible_text before, controls before)
     \<noteq> (snapshot_url after, snapshot_title after, visible_text after, controls after)"

definition observe_action :: "agent_decision \<Rightarrow> command_result \<Rightarrow> page_snapshot option \<Rightarrow> exn + action_observation" where
  "observe_action d r before =
     (let c = command d;
          seen = \<lparr>observed_action = command_action c, observed_target = command_target c,
            observed_result = command_reason r,
            result_url = map_option snapshot_url (command_snapshot r),
            result_page_stage = map_option classify_agent_page_stage (command_snapshot r),
            page_changed = (case (before, command_snapshot r) of
               (Some b, Some a) \<Rightarrow> Some (page_semantically_changed b a) | _ \<Rightarrow> None),
            visual_point = (case c of
               ClickVisualCommand _ x y \<Rightarrow> Some (x, y) | HoverVisualCommand _ x y \<Rightarrow> Some (x, y)
             | DragVisualCommand _ sx sy _ _ \<Rightarrow> Some (sx, sy) | _ \<Rightarrow> None),
            visual_end_point = (case c of DragVisualCommand _ _ _ ex ey \<Rightarrow> Some (ex, ey) | _ \<Rightarrow> None),
            zoom_direction_of = (case c of ZoomVisualCommand _ d _ \<Rightarrow> Some d | _ \<Rightarrow> None),
            zoom_intensity = (case c of ZoomVisualCommand _ _ n \<Rightarrow> Some n | _ \<Rightarrow> None)\<rparr>
      in accept (observation_ok seen) seen)"

text \<open>The observations of the steps of an earlier run, the latest twenty.\<close>

fun observe_steps :: "page_snapshot option \<Rightarrow> loop_step list \<Rightarrow> exn + action_observation list" where
  "observe_steps before [] = Inr []"
| "observe_steps before (s # ss) =
     (case observe_action (step_decision s) (step_result s) before of
        Inl e \<Rightarrow> Inl e
      | Inr a \<Rightarrow>
          (case observe_steps (case command_snapshot (step_result s) of None \<Rightarrow> before | Some p \<Rightarrow> Some p) ss of
             Inl e \<Rightarrow> Inl e | Inr as \<Rightarrow> Inr (a # as)))"

definition previous_observations :: "agent_task \<Rightarrow> exn + action_observation list" where
  "previous_observations task =
     (case agent_run task of None \<Rightarrow> Inr [] | Some r \<Rightarrow> observe_steps None (last_n 20 (loop_steps r)))"

section \<open>The loop\<close>

text \<open>\<open>capture_visual_context\<close> may be missing, and must return a text or \<open>None\<close>.\<close>

datatype capture = NoImage | Image string | NotAnImage

record 'w agent_runtime =
  observe :: "agent_task \<Rightarrow> ('w, exn, page_snapshot) prog"
  execute_command :: "agent_task \<Rightarrow> agent_decision \<Rightarrow> bool \<Rightarrow> ('w, exn, command_result) prog"
  capture_visual :: "(agent_task \<Rightarrow> ('w, exn, capture) prog) option"

record 'w decision_provider =
  decide :: "agent_task \<Rightarrow> action_observation list \<Rightarrow> string option \<Rightarrow> ('w, exn, agent_decision) prog"
  last_decision_metadata :: "'w \<Rightarrow> decision_metadata option"

definition capture_visual_context :: "'w agent_runtime \<Rightarrow> agent_task \<Rightarrow> ('w, exn, string option) prog" where
  "capture_visual_context runtime task =
     (case capture_visual runtime of
        None \<Rightarrow> ret None
      | Some f \<Rightarrow> bindE (f task) (\<lambda>r.
          case r of NoImage \<Rightarrow> ret None | Image s \<Rightarrow> ret (Some s) | NotAnImage \<Rightarrow> raise TypeError))"

definition finish_status :: "finish_outcome \<Rightarrow> loop_status" where
  "finish_status out =
     (if out = NoMatchFound then LoopNoMatch
      else if out \<in> {ReadyForUser, NeedsUser} then LoopWaiting else LoopCompleted)"

text \<open>The locals of the loop.\<close>

record loop_state =
  loop_task :: agent_task
  current_snapshot :: page_snapshot
  observations :: "action_observation list"
  taken :: "loop_step list"
  previous_command :: "browser_command option"
  repeated_commands :: int

definition loop_ends :: "loop_status \<Rightarrow> string \<Rightarrow> loop_state \<Rightarrow> ('w, exn, loop_result) prog" where
  "loop_ends ending reason st =
     liftE (make_loop_result \<lparr>loop_status = ending, loop_reason = reason, loop_snapshot = current_snapshot st,
       loop_steps = taken st\<rparr>)"

text \<open>\<open>fingerprint == previous_fingerprint\<close>: the JSON texts of two commands are equal exactly when the
  commands are.\<close>

definition count_command :: "browser_command \<Rightarrow> loop_state \<Rightarrow> loop_state" where
  "count_command c st =
     (if previous_command st = Some c then st\<lparr>repeated_commands := repeated_commands st + 1\<rparr>
      else st\<lparr>previous_command := Some c, repeated_commands := 1\<rparr>)"

text \<open>What an executed command adds to the locals.\<close>

definition record_command ::
  "int \<Rightarrow> agent_decision \<Rightarrow> decision_metadata option \<Rightarrow> command_result \<Rightarrow> loop_state \<Rightarrow> exn + loop_state" where
  "record_command sequence_number d meta result st =
     (case observe_action d result (Some (current_snapshot st)) of
        Inl e \<Rightarrow> Inl e
      | Inr seen \<Rightarrow>
          let st1 = st\<lparr>taken := taken st @ [\<lparr>step_sequence = sequence_number, step_decision = d, step_metadata = meta,
                step_result = result\<rparr>], observations := last_n 20 (observations st @ [seen])\<rparr>
          in Inr (case command_snapshot result of
              None \<Rightarrow> st1
            | Some p \<Rightarrow> st1\<lparr>current_snapshot := p, loop_task := (loop_task st1)\<lparr>page := Some p\<rparr>\<rparr>))"

fun loop_turns ::
  "'w decision_provider \<Rightarrow> 'w agent_runtime \<Rightarrow> int \<Rightarrow> bool \<Rightarrow> nat \<Rightarrow> int \<Rightarrow> loop_state \<Rightarrow> ('w, exn, loop_result) prog" where
  "loop_turns chooser runtime limit approved 0 sequence_number st =
     loop_ends LoopExhausted ''maximum_steps_reached'' st"
| "loop_turns chooser runtime limit approved (Suc left) sequence_number st =
     bindE (capture_visual_context runtime (loop_task st)) (\<lambda>image.
     bindE (decide chooser (loop_task st) (observations st) image) (\<lambda>d.
     let st1 = count_command (command d) st in
     if limit \<le> repeated_commands st1 then loop_ends LoopStalled ''repeated_command_limit'' st1
     else bindE (execute_command runtime (loop_task st1) d approved) (\<lambda>result.
       bindE (gets (last_decision_metadata chooser)) (\<lambda>meta.
       bindE (liftE (record_command sequence_number d meta result st1)) (\<lambda>st2.
       case command d of
         FinishCommand out _ \<Rightarrow> loop_ends (finish_status out) (command_reason result) st2
       | c \<Rightarrow>
           if (case c of AskUserCommand _ \<Rightarrow> True | _ \<Rightarrow> False) \<or> needs_user result
           then loop_ends LoopWaiting (command_reason result) st2
           else loop_turns chooser runtime limit approved left (sequence_number + 1) st2)))))"

definition run_agent_loop ::
  "agent_task \<Rightarrow> 'w decision_provider \<Rightarrow> 'w agent_runtime \<Rightarrow> int \<Rightarrow> int \<Rightarrow> bool \<Rightarrow> ('w, exn, loop_result) prog" where
  "run_agent_loop task chooser runtime max_steps repeated_command_limit approved =
     thenE (require (\<not> max_steps < 1) (ValueError ''max_steps must be at least one''))
     (thenE (require (\<not> repeated_command_limit < 2) (ValueError ''repeated_command_limit must be at least two''))
     (bindE (observe runtime task) (\<lambda>snapshot.
      bindE (liftE (previous_observations task)) (\<lambda>seen.
      loop_turns chooser runtime repeated_command_limit approved (nat max_steps) 1
        \<lparr>loop_task = task\<lparr>page := Some snapshot\<rparr>, current_snapshot = snapshot, observations = seen, taken = [],
         previous_command = None, repeated_commands = 0\<rparr>))))"

end
