(* ===== verification/PageMapper.thy ===== *)
theory PageMapper
  imports AgentTasks
begin

text \<open>
  Mapping the controls of a captured page to the people and the facts of a task:
  \<open>build_page_fill_plan\<close> of \<open>app/services/page_field_mapper.py\<close>. The Russian terms of the two tables
  are given by their code points.
\<close>

section \<open>Terms\<close>

definition field_terms :: "(profile_field \<times> utext list) list" where
  "field_terms =
     [
      (FirstNameField, [codes ''first name'',
         codes ''firstname'',
         codes ''given name'',
         [1080, 1084, 1103]]),
      (LastNameField, [codes ''last name'',
         codes ''lastname'',
         codes ''surname'',
         codes ''family name'',
         [1092, 1072, 1084, 1080, 1083, 1080, 1103]]),
      (BirthDateField, [codes ''birth date'',
         codes ''date of birth'',
         codes ''birthday'',
         [1076, 1072, 1090, 1072, 32, 1088, 1086, 1078, 1076, 1077, 1085, 1080, 1103],
         [1088, 1086, 1078, 1076, 1077, 1085, 1080, 1077]]),
      (DocumentNumberField, [codes ''document number'',
         codes ''passport number'',
         codes ''passport'',
         [1085, 1086, 1084, 1077, 1088, 32, 1076, 1086, 1082, 1091, 1084, 1077, 1085, 1090, 1072],
         [1085, 1086, 1084, 1077, 1088, 32, 1087, 1072, 1089, 1087, 1086, 1088, 1090, 1072],
         [1087, 1072, 1089, 1087, 1086, 1088, 1090]])]"

definition intent_field_terms :: "(intent_field \<times> utext list) list" where
  "intent_field_terms =
     [
      (OriginField, [codes ''origin'',
         codes ''departure city'',
         codes ''departure station'',
         codes ''from city'',
         [1086, 1090, 1082, 1091, 1076, 1072],
         [1075, 1086, 1088, 1086, 1076, 32, 1086, 1090, 1087, 1088, 1072, 1074, 1083, 1077, 1085, 1080, 1103],
         [1089, 1090, 1072, 1085, 1094, 1080, 1103, 32, 1086, 1090, 1087, 1088, 1072, 1074, 1083, 1077, 1085, 1080, 1103]]),
      (DestinationField, [codes ''destination'',
         codes ''arrival city'',
         codes ''arrival station'',
         codes ''to city'',
         [1082, 1091, 1076, 1072],
         [1075, 1086, 1088, 1086, 1076, 32, 1087, 1088, 1080, 1073, 1099, 1090, 1080, 1103],
         [1089, 1090, 1072, 1085, 1094, 1080, 1103, 32, 1087, 1088, 1080, 1073, 1099, 1090, 1080, 1103]]),
      (RequestedDateField, [codes ''travel date'',
         codes ''departure date'',
         codes ''check in date'',
         codes ''date'',
         [1076, 1072, 1090, 1072, 32, 1087, 1086, 1077, 1079, 1076, 1082, 1080],
         [1076, 1072, 1090, 1072, 32, 1086, 1090, 1087, 1088, 1072, 1074, 1083, 1077, 1085, 1080, 1103],
         [1076, 1072, 1090, 1072, 32, 1079, 1072, 1077, 1079, 1076, 1072],
         [1076, 1072, 1090, 1072]]),
      (EarliestTimeField, [codes ''earliest time'',
         codes ''time from'',
         codes ''not earlier'',
         [1074, 1088, 1077, 1084, 1103, 32, 1086, 1090],
         [1085, 1077, 32, 1088, 1072, 1085, 1100, 1096, 1077],
         [1087, 1086, 1089, 1083, 1077]]),
      (LatestTimeField, [codes ''latest time'',
         codes ''time until'',
         codes ''not later'',
         [1074, 1088, 1077, 1084, 1103, 32, 1076, 1086],
         [1085, 1077, 32, 1087, 1086, 1079, 1078, 1077]]),
      (RequestedQuantityField, [codes ''quantity'',
         codes ''ticket count'',
         codes ''guest count'',
         codes ''room count'',
         [1082, 1086, 1083, 1080, 1095, 1077, 1089, 1090, 1074, 1086],
         [1095, 1080, 1089, 1083, 1086, 32, 1073, 1080, 1083, 1077, 1090, 1086, 1074],
         [1095, 1080, 1089, 1083, 1086, 32, 1075, 1086, 1089, 1090, 1077, 1081]])]"

definition ignored_kinds :: "control_kind list" where
  "ignored_kinds = [ButtonKind, LinkKind, CheckboxKind, RadioKind, SelectKind]"

text \<open>\<open>_normalize\<close>: runs of \<open>_\<close> and \<open>-\<close> count as white space.\<close>

definition normalize_label :: "utext \<Rightarrow> utext" where
  "normalize_label t = squeeze_text (map (\<lambda>n. if n = 95 \<or> n = 45 then 32 else n) (casefold_text t))"

definition searchable_text :: "page_control \<Rightarrow> utext" where
  "searchable_text c = normalize_label (label c @ [32] @ (case field_name c of None \<Rightarrow> [] | Some f \<Rightarrow> f))"

definition contains_term :: "utext \<Rightarrow> utext \<Rightarrow> bool" where
  "contains_term searchable term =
     (let t = normalize_label term in
      if 32 \<in> set t then py_contains t searchable else t \<in> set (words_by text_space searchable))"

section \<open>Detection\<close>

definition detect_profile_field :: "page_control \<Rightarrow> profile_field option" where
  "detect_profile_field c =
     (if control_disabled c \<or> kind_of_control c \<in> set ignored_kinds then None
      else map_option fst (find (\<lambda>(f, terms). list_ex (\<lambda>term. py_contains term (searchable_text c)) terms) field_terms))"

text \<open>Whether the intent has a value for a field.\<close>

fun available :: "task_intent \<Rightarrow> intent_field \<Rightarrow> bool" where
  "available i OriginField \<longleftrightarrow> origin i \<noteq> None"
| "available i DestinationField \<longleftrightarrow> destination i \<noteq> None"
| "available i RequestedDateField \<longleftrightarrow> requested_date i \<noteq> None"
| "available i EarliestTimeField \<longleftrightarrow> earliest_time i \<noteq> None"
| "available i LatestTimeField \<longleftrightarrow> latest_time i \<noteq> None"
| "available i RequestedQuantityField \<longleftrightarrow> requested_quantity i \<noteq> None"
| "available i SearchTermField \<longleftrightarrow> False"

fun first_unbound_term :: "(utext \<Rightarrow> bool) \<Rightarrow> int list \<Rightarrow> int \<Rightarrow> utext list \<Rightarrow> int option" where
  "first_unbound_term found bound i [] = None"
| "first_unbound_term found bound i (term # terms) =
     (if i \<in> set bound then first_unbound_term found bound (i + 1) terms
      else if found (normalize_label term) then Some i
      else first_unbound_term found bound (i + 1) terms)"

definition detect_intent_binding ::
  "task_intent option \<Rightarrow> page_control \<Rightarrow> intent_field list \<Rightarrow> int list \<Rightarrow> exn + intent_binding option" where
  "detect_intent_binding wanted c bound_fields bound_terms =
     (case wanted of
        None \<Rightarrow> Inr None
      | Some i \<Rightarrow>
          if control_disabled c then Inr None
          else if kind_of_control c \<in> {ButtonKind, LinkKind} then Inr None
          else
            let searchable = searchable_text c;
                option_text = normalize_label (py_join [32] (options c));
                binding = (\<lambda>f n. let b = \<lparr>intent_control = control_id c, intent_field = f, search_term_index = n\<rparr>
                   in map_sum id Some (accept (intent_binding_valid b) b)) in
            (case find (\<lambda>(f, terms). available i f \<and> f \<notin> set bound_fields \<and> list_ex (contains_term searchable) terms)
                intent_field_terms of
               Some (f, _) \<Rightarrow> binding f None
             | None \<Rightarrow>
                 (case first_unbound_term (\<lambda>t. py_contains t searchable \<or> py_contains t option_text) bound_terms 0 (search_terms i) of
                    None \<Rightarrow> Inr None
                  | Some n \<Rightarrow> binding SearchTermField (Some n))))"

section \<open>The plan\<close>

text \<open>The locals of the loop over the controls.\<close>

record mapping_state =
  occurrences :: "profile_field list"
  map_bindings :: "field_binding list"
  map_intents :: "intent_binding list"
  map_unmatched :: "string list"

definition bound_fields_of :: "mapping_state \<Rightarrow> intent_field list" where
  "bound_fields_of st = filter (\<lambda>f. f \<noteq> SearchTermField) (map intent_field (map_intents st))"

definition bound_terms_of :: "mapping_state \<Rightarrow> int list" where
  "bound_terms_of st = List.map_filter search_term_index (map_intents st)"

text \<open>A control that is no profile field with a person left: an intent field, or unmatched.\<close>

definition map_intent :: "task_intent option \<Rightarrow> page_control \<Rightarrow> mapping_state \<Rightarrow> exn + mapping_state" where
  "map_intent wanted c st =
     (case detect_intent_binding wanted c (bound_fields_of st) (bound_terms_of st) of
        Inl e \<Rightarrow> Inl e
      | Inr (Some b) \<Rightarrow> Inr (st\<lparr>map_intents := map_intents st @ [b]\<rparr>)
      | Inr None \<Rightarrow>
          if control_required c \<and> \<not> control_disabled c
          then Inr (st\<lparr>map_unmatched := map_unmatched st @ [control_id c]\<rparr>) else Inr st)"

definition map_control :: "task_intent option \<Rightarrow> uuid list \<Rightarrow> page_control \<Rightarrow> mapping_state \<Rightarrow> exn + mapping_state" where
  "map_control wanted people c st =
     (case detect_profile_field c of
        None \<Rightarrow> map_intent wanted c st
      | Some f \<Rightarrow>
          let person_index = length (filter (\<lambda>g. g = f) (occurrences st));
              st1 = st\<lparr>occurrences := f # occurrences st\<rparr> in
          if person_index < length people then
            let b = \<lparr>bound_control = control_id c, profile_field = f, person_id = people ! person_index,
                sensitive = (f = DocumentNumberField)\<rparr>
            in map_sum id (\<lambda>b. st1\<lparr>map_bindings := map_bindings st @ [b]\<rparr>) (accept (field_binding_valid b) b)
          else map_intent wanted c st1)"

fun map_controls :: "task_intent option \<Rightarrow> uuid list \<Rightarrow> page_control list \<Rightarrow> mapping_state \<Rightarrow> exn + mapping_state" where
  "map_controls wanted people [] st = Inr st"
| "map_controls wanted people (c # cs) st =
     (case map_control wanted people c st of Inl e \<Rightarrow> Inl e | Inr st' \<Rightarrow> map_controls wanted people cs st')"

text \<open>\<open>identities\<close> are the identifiers of the loaded people; a missing one is a \<open>KeyError\<close>.\<close>

definition build_page_fill_plan :: "agent_task \<Rightarrow> uuid list \<Rightarrow> datetime \<Rightarrow> exn + page_fill_plan" where
  "build_page_fill_plan task identities now =
     (case page task of
        None \<Rightarrow> Inl (ValueError ''task has no captured page'')
      | Some snapshot \<Rightarrow>
          if \<not> list_all (\<lambda>p. p \<in> set identities) (person_ids task) then Inl KeyError
          else
            (case map_controls (intent task) (person_ids task) (controls snapshot)
                \<lparr>occurrences = [], map_bindings = [], map_intents = [], map_unmatched = []\<rparr> of
               Inl e \<Rightarrow> Inl e
             | Inr st \<Rightarrow> make_fill_plan \<lparr>fill_url = snapshot_url snapshot, fill_created_at = now,
                 bindings = map_bindings st, intent_bindings = map_intents st,
                 unmatched_required_controls = map_unmatched st\<rparr>))"

end
