(* ===== verification/TaskApi.thy ===== *)
theory TaskApi
  imports TaskPlanner AgentLoop PageMapper Identities
begin

text \<open>
  The endpoints of agent tasks: \<open>app/api/routes/tasks.py\<close> with the request models of
  \<open>app/schemas/task.py\<close>. The state holds the task repository and the identities beside the
  environment of an execution. A response other than success is an \<open>HTTPException\<close>; the browser
  driver and the decision provider are parameters, entered and left around a run as their context
  managers are.
\<close>

section \<open>State\<close>

record 'w task_env = "'w exec_env" +
  task_store :: task_repo
  people_store :: identity_repo

type_synonym ('w, 'a) task_api = "('w task_env, exn, 'a) prog"

definition on_tasks :: "(task_repo, exn, 'a) prog \<Rightarrow> ('w, 'a) task_api" where
  "on_tasks f s = (case f (task_store s) of (r, d) \<Rightarrow> (r, s\<lparr>task_store := d\<rparr>))"

definition on_people :: "(identity_repo, exn, 'a) prog \<Rightarrow> ('w, 'a) task_api" where
  "on_people f s = (case f (people_store s) of (r, d) \<Rightarrow> (r, s\<lparr>people_store := d\<rparr>))"

definition require_task :: "uuid \<Rightarrow> ('w, agent_task) task_api" where
  "require_task k =
     bindE (on_tasks (get_agent_task k)) (\<lambda>found.
       case found of None \<Rightarrow> raise (HTTPException 404 ''Task not found'') | Some t \<Rightarrow> ret t)"

definition load_task_people :: "agent_task \<Rightarrow> ('w, identity list) task_api" where
  "load_task_people t =
     mapE (\<lambda>p. bindE (on_people (get_identity p)) (\<lambda>found.
       case found of None \<Rightarrow> raise (HTTPException 409 ''person_no_longer_exists'') | Some i \<Rightarrow> ret i)) (person_ids t)"

text \<open>\<open>_update_task\<close>: the version read with \<open>task\<close> must still be the stored one.\<close>

definition save_task :: "agent_task \<Rightarrow> agent_task \<Rightarrow> ('w, agent_task) task_api" where
  "save_task task changed =
     tryElse (on_tasks (update_agent_task changed (task_version task)))
       (\<lambda>e. raise (if e = AgentTaskVersionConflictError then HTTPException 409 ''task_version_conflict'' else e))
       (\<lambda>updated. case updated of None \<Rightarrow> raise (HTTPException 404 ''Task not found'') | Some t \<Rightarrow> ret t)"

definition save_status :: "agent_task \<Rightarrow> task_status \<Rightarrow> ('w, agent_task) task_api" where
  "save_status task st = save_task task (task\<lparr>task_status := st, waiting_reason := None\<rparr>)"

definition invalid_transition_response :: exn where
  "invalid_transition_response = HTTPException 409 ''invalid_task_transition''"

definition approval_conflict :: exn where
  "approval_conflict = HTTPException 409 ''task_step_not_approvable''"

section \<open>Creating and reading\<close>

record task_request =
  wanted_instruction :: utext
  wanted_url :: string
  wanted_people :: "uuid list"
  wanted_kind :: "string option"
  wanted_permissions :: permission_policy
  wanted_mode :: control_mode

definition task_request_ok :: "task_request \<Rightarrow> bool" where
  "task_request_ok r \<longleftrightarrow>
     1 \<le> length (wanted_instruction r) \<and> length (wanted_instruction r) \<le> 4000
     \<and> 1 \<le> length (wanted_url r) \<and> length (wanted_url r) \<le> 2048
     \<and> 1 \<le> length (wanted_people r) \<and> length (wanted_people r) \<le> 100 \<and> fits 64 (wanted_kind r)"

definition missing_people :: "uuid list \<Rightarrow> ('w, uuid list) task_api" where
  "missing_people ps =
     bindE (mapE (\<lambda>p. bindE (on_people (get_identity p)) (\<lambda>i. ret (p, i = None))) ps) (\<lambda>xs.
     ret (map fst (filter snd xs)))"

definition create_task :: "task_request \<Rightarrow> datetime \<Rightarrow> ('w, agent_task) task_api" where
  "create_task r now =
     thenE (require (task_request_ok r) (HTTPException 422 ''request validation''))
     (bindE (missing_people (wanted_people r)) (\<lambda>missing.
      thenE (require (missing = []) (HTTPException 422 ''unknown_people''))
      (bindE draw_uuid (\<lambda>i.
       bindE (liftE (make_agent_task \<lparr>task_id = i, task_version = 0, instruction = wanted_instruction r,
         target_url = wanted_url r, person_ids = wanted_people r, task_status = Ready, control_mode = wanted_mode r,
         inferred_kind = wanted_kind r, intent = None, waiting_reason = None, permissions = wanted_permissions r,
         plan = None, journal = None, approvals = [], page = None, fill_plan = None, agent_run = None,
         clarifications = [], task_created_at = now\<rparr>)) (\<lambda>t.
       on_tasks (create_agent_task t))))))"

definition list_tasks :: "int \<Rightarrow> ('w, agent_task list) task_api" where
  "list_tasks limit =
     thenE (require (1 \<le> limit \<and> limit \<le> 500) (HTTPException 422 ''request validation''))
       (on_tasks (list_agent_tasks limit))"

definition get_task :: "uuid \<Rightarrow> ('w, agent_task) task_api" where
  "get_task k = require_task k"

section \<open>Planning\<close>

record plan_response =
  response_kind :: string
  response_intent :: task_intent
  response_plan :: task_plan
  response_permissions :: "(string \<times> permission_decision) list"

definition planned_task :: "plan_preview \<Rightarrow> agent_task \<Rightarrow> agent_task" where
  "planned_task pv t =
     t\<lparr>plan := Some (preview_plan pv), journal := None, approvals := [], page := None, fill_plan := None,
       inferred_kind := Some (preview_kind pv), intent := Some (preview_intent pv), task_status := Ready,
       waiting_reason := None\<rparr>"

definition prepare_task_plan ::
  "(utext \<Rightarrow> int \<Rightarrow> datetime \<Rightarrow> exn + task_intent) \<Rightarrow> uuid \<Rightarrow> datetime \<Rightarrow> ('w, plan_response) task_api" where
  "prepare_task_plan extract k now =
     bindE (require_task k) (\<lambda>t.
     thenE (require (task_status t \<notin> {RunningTask, CompletedTask, CancelledTask}) (HTTPException 409 ''task_cannot_be_planned''))
     (bindE (liftE (build_task_plan extract t now)) (\<lambda>pv.
      thenE (save_task t (planned_task pv t))
        (ret \<lparr>response_kind = preview_kind pv, response_intent = preview_intent pv, response_plan = preview_plan pv,
          response_permissions = zip (map step_id (steps (preview_plan pv))) (preview_decisions pv)\<rparr>))))"

definition map_task_page :: "uuid \<Rightarrow> datetime \<Rightarrow> ('w, agent_task) task_api" where
  "map_task_page k now =
     bindE (require_task k) (\<lambda>t.
     thenE (require (page t \<noteq> None) (HTTPException 409 ''page_not_captured''))
     (bindE (load_task_people t) (\<lambda>people.
      bindE (liftE (build_page_fill_plan t (map identity_id people) now)) (\<lambda>f.
      save_task t (t\<lparr>fill_plan := Some f\<rparr>)))))"

section \<open>Answers of the user\<close>

text \<open>The entry that blocks the task, if it can be approved under the step name of the request.\<close>

definition blocked_entry :: "agent_task \<Rightarrow> string \<Rightarrow> (task_plan \<times> journal_entry) option" where
  "blocked_entry t wanted =
     (case (task_status t = WaitingForUser, waiting_reason t, plan t, journal t) of
        (True, Some r, Some p, Some j) \<Rightarrow>
          if entries j = [] then None
          else
            let blocked = last (entries j) in
            if outcome blocked \<noteq> Blocked \<or> entry_step blocked \<noteq> kind_slug wanted then None
            else if reason_code blocked \<noteq> Some (reason_value r) then None
            else if list_ex (\<lambda>a. approved_step a = entry_step blocked \<and> consumed_at a = None) (approvals t) then None
            else Some (p, blocked)
      | _ \<Rightarrow> None)"

definition approve_task_step :: "uuid \<Rightarrow> string \<Rightarrow> datetime \<Rightarrow> ('w, agent_task) task_api" where
  "approve_task_step k wanted now =
     thenE (require (1 \<le> length wanted \<and> length wanted \<le> 64) (HTTPException 422 ''request validation''))
     (bindE (require_task k) (\<lambda>t.
      case blocked_entry t wanted of
        None \<Rightarrow> raise approval_conflict
      | Some (p, blocked) \<Rightarrow>
          bindE draw_uuid (\<lambda>i.
          bindE (liftE (reason_of_value (the (reason_code blocked)))) (\<lambda>r.
          bindE (liftE (make_approval \<lparr>approval_id = i, approved_version = plan_version p, approved_step = entry_step blocked,
            approval_reason = reason_value r, approved_at = now, consumed_at = None\<rparr>)) (\<lambda>a.
          save_task t (t\<lparr>approvals := approvals t @ [a], task_status := Ready, waiting_reason := None\<rparr>))))))"

definition pending_agent_question :: "agent_task \<Rightarrow> utext option" where
  "pending_agent_question t =
     (case agent_run t of
        None \<Rightarrow> None
      | Some r \<Rightarrow>
          if loop_steps r = [] then None
          else (case command (step_decision (last (loop_steps r))) of AskUserCommand q \<Rightarrow> Some q | _ \<Rightarrow> None))"

definition clarify_agent_task :: "uuid \<Rightarrow> utext \<Rightarrow> datetime \<Rightarrow> ('w, agent_task) task_api" where
  "clarify_agent_task k reply now =
     thenE (require (1 \<le> length reply \<and> length reply \<le> 2000) (HTTPException 422 ''request validation''))
     (bindE (require_task k) (\<lambda>t.
      case (task_status t = WaitingForUser \<and> waiting_reason t = Some ClarificationRequired, pending_agent_question t) of
        (True, Some q) \<Rightarrow>
          bindE (liftE (make_clarification \<lparr>question = q, answer = reply, clarified_at = now\<rparr>)) (\<lambda>c.
          save_task t (t\<lparr>clarifications := clarifications t @ [c], task_status := Ready, waiting_reason := None\<rparr>))
      | _ \<Rightarrow> raise (HTTPException 409 ''task_clarification_not_expected'')))"

section \<open>Execution\<close>

record task_settings =
  browser_automation_enabled :: bool
  production :: bool
  agent_llm_enabled :: bool
  llm_is_openai :: bool
  openai_key_set :: bool
  agent_llm_max_steps :: int

text \<open>The browser driver: entering its context, with whether the local network is allowed and the
  people of the task, leaving it, and what it runs.\<close>

record 'w browser_driver =
  enter_browser :: "bool \<Rightarrow> identity list \<Rightarrow> ('w, exn, unit) prog"
  leave_browser :: "('w, exn, unit) prog"
  step_runner :: "'w runner"
  agent_browser :: "'w agent_runtime"
  enter_provider :: "('w, exn, unit) prog"
  leave_provider :: "('w, exn, unit) prog"
  agent_provider :: "'w decision_provider"

text \<open>\<open>async with\<close>: the context is left on every exit of the body.\<close>

definition within_context :: "('s, exn, unit) prog \<Rightarrow> ('s, exn, unit) prog \<Rightarrow> ('s, exn, 'a) prog \<Rightarrow> ('s, exn, 'a) prog" where
  "within_context enter leave body =
     thenE enter (tryElse body (\<lambda>e. thenE leave (raise e)) (\<lambda>x. thenE leave (ret x)))"

definition is_builtin_demo_url :: "string \<Rightarrow> bool" where
  "is_builtin_demo_url url \<longleftrightarrow>
     (case urlsplit url of
        None \<Rightarrow> False
      | Some p \<Rightarrow> url_scheme p = ''http'' \<and> url_hostname p \<in> {Some ''127.0.0.1'', Some ''localhost'', Some ''::1''}
          \<and> url_path p \<in> {''/demo/cinema'', ''/demo/hotel''} \<and> url_query p = [] \<and> url_fragment p = [])"

definition in_session ::
  "'w browser_driver \<Rightarrow> task_settings \<Rightarrow> agent_task \<Rightarrow> identity list \<Rightarrow> ('w, 'a) task_api \<Rightarrow> ('w, 'a) task_api" where
  "in_session driver settings t people body =
     within_context (in_browser (enter_browser driver (\<not> production settings \<or> is_builtin_demo_url (target_url t)) people))
       (in_browser (leave_browser driver)) body"

text \<open>The \<open>except\<close> clauses of the two ways to execute.\<close>

definition plan_failure :: "exn \<Rightarrow> exn" where
  "plan_failure e =
     (case e of
        TaskExecutionError m \<Rightarrow> HTTPException 409 ''task_not_executable''
      | VisibleBrowserUnavailableError \<Rightarrow> HTTPException 503 ''visible_browser_unavailable''
      | ProcessExit \<Rightarrow> ProcessExit
      | _ \<Rightarrow> HTTPException 503 ''browser_driver_unavailable'')"

definition agent_failure :: "exn \<Rightarrow> exn" where
  "agent_failure e =
     (case e of
        AgentDecisionProviderError \<Rightarrow> HTTPException 503 ''agent_llm_unavailable''
      | VisibleBrowserUnavailableError \<Rightarrow> HTTPException 503 ''visible_browser_unavailable''
      | ProcessExit \<Rightarrow> ProcessExit
      | _ \<Rightarrow> HTTPException 503 ''browser_driver_unavailable'')"

definition agent_waiting_reason :: "string \<Rightarrow> user_action_reason" where
  "agent_waiting_reason code =
     (case map_of
        [(''sensitive_data_approval_required'', SensitiveDataApprovalRequired),
         (''authentication_required'', AuthenticationRequired),
         (''captcha_required'', CaptchaRequired),
         (''payment_required'', PaymentRequired),
         (''irreversible_click_requires_user'', ConfirmationRequired),
         (''finished_ready_for_user'', ConfirmationRequired)] code of
        None \<Rightarrow> ClarificationRequired | Some r \<Rightarrow> r)"

definition agent_result_status :: "agent_task \<Rightarrow> loop_result \<Rightarrow> task_status \<times> user_action_reason option" where
  "agent_result_status t r =
     (if loop_status r = LoopCompleted then (CompletedTask, None)
      else if loop_status r = LoopWaiting then (WaitingForUser, Some (agent_waiting_reason (loop_reason r)))
      else if loop_status r = LoopExhausted \<and> control_mode t = StepByStep then (Ready, None)
      else (FailedTask, None))"

definition apply_agent_result :: "agent_task \<Rightarrow> loop_result \<Rightarrow> exn + agent_task" where
  "apply_agent_result t r =
     (case merge_agent_loop_results (agent_run t) r 50 of
        Inl e \<Rightarrow> Inl e
      | Inr merged \<Rightarrow>
          Inr (t\<lparr>task_status := fst (agent_result_status t r), waiting_reason := snd (agent_result_status t r),
            page := Some (loop_snapshot r), fill_plan := None, agent_run := Some merged\<rparr>))"

definition execute_llm_agent ::
  "'w browser_driver \<Rightarrow> task_settings \<Rightarrow> agent_task \<Rightarrow> identity list \<Rightarrow> ('w, agent_task) task_api" where
  "execute_llm_agent driver settings t people =
     thenE (require (task_status t \<in> {Ready, RunningTask}) (HTTPException 409 ''task_not_executable''))
     (thenE (require (\<not> (llm_is_openai settings \<and> \<not> openai_key_set settings)) (HTTPException 503 ''agent_llm_not_configured''))
     (tryElse
        (in_session driver settings t people
          (within_context (in_browser (enter_provider driver)) (in_browser (leave_provider driver))
            (in_browser (run_agent_loop t (agent_provider driver) (agent_browser driver)
               (if control_mode t = StepByStep then 1 else agent_llm_max_steps settings) 3 False))))
        (\<lambda>e. raise (agent_failure e))
        (\<lambda>r. bindE (liftE (apply_agent_result t r)) (\<lambda>changed. save_task t changed))))"

text \<open>A task that waits for anything but an approval of sensitive data or a clarification is tried
  again.\<close>

definition unblocked :: "agent_task \<Rightarrow> agent_task" where
  "unblocked t =
     (if task_status t = WaitingForUser \<and> waiting_reason t \<in> {Some AuthenticationRequired, Some CaptchaRequired,
        Some ConfirmationRequired, Some PaymentRequired}
      then t\<lparr>task_status := Ready, waiting_reason := None\<rparr> else t)"

definition execute_task :: "'w browser_driver \<Rightarrow> task_settings \<Rightarrow> uuid \<Rightarrow> ('w, agent_task) task_api" where
  "execute_task driver settings k =
     thenE (require (browser_automation_enabled settings) (HTTPException 503 ''browser_automation_disabled''))
     (bindE (require_task k) (\<lambda>stored.
      thenE (require (control_mode stored \<noteq> PlanOnly) (HTTPException 409 ''task_execution_disabled''))
      (let t = unblocked stored in
       bindE (load_task_people t) (\<lambda>people.
       if agent_llm_enabled settings then execute_llm_agent driver settings t people
       else
         tryElse
           (in_session driver settings t people
             (execute_task_plan t (step_runner driver) (if control_mode t = StepByStep then Some 1 else None)))
           (\<lambda>e. raise (plan_failure e))
           (\<lambda>executed. save_task t executed)))))"

section \<open>Control\<close>

definition pause_task :: "uuid \<Rightarrow> ('w, agent_task) task_api" where
  "pause_task k =
     bindE (require_task k) (\<lambda>t.
     if task_status t \<in> {CompletedTask, CancelledTask, PausedTask} then raise invalid_transition_response
     else save_status t PausedTask)"

definition resume_task :: "uuid \<Rightarrow> ('w, agent_task) task_api" where
  "resume_task k =
     bindE (require_task k) (\<lambda>t.
     if task_status t \<notin> {PausedTask, FailedTask, Monitoring, WaitingForUser} then raise invalid_transition_response
     else save_status t Ready)"

definition cancel_task :: "uuid \<Rightarrow> ('w, unit) task_api" where
  "cancel_task k =
     bindE (require_task k) (\<lambda>t.
     if task_status t = CompletedTask then raise invalid_transition_response
     else if task_status t \<noteq> CancelledTask then thenE (save_status t CancelledTask) (ret ()) else ret ())"

end
