(* ===== verification/ExecutorContracts.thy ===== *)
theory ExecutorContracts
  imports TaskExecutor "HOL-Library.Sublist"
begin

text \<open>
  What the executor of a task plan guarantees: which calls of the browser runner it makes, how its
  journal follows the abstract machine of a plan, and in which states it leaves the task.
\<close>

section \<open>Effects of the building blocks\<close>

lemma wp_read_clock [wp]:
  "wp read_clock Q E s = Q (Aware (clock s (clock_tick s))) (s\<lparr>clock_tick := Suc (clock_tick s)\<rparr>)"
  by (simp add: wp_def read_clock_def)

lemma wp_draw_uuid [wp]: "wp draw_uuid Q E s = Q (id_source s (id_tick s)) (s\<lparr>id_tick := Suc (id_tick s)\<rparr>)"
  by (simp add: wp_def draw_uuid_def)

lemma wp_in_browser [wp]:
  "wp (in_browser f) Q E s =
     (case f (browser s) of (Inl e, w) \<Rightarrow> E e (s\<lparr>browser := w\<rparr>) | (Inr x, w) \<Rightarrow> Q x (s\<lparr>browser := w\<rparr>))"
  by (simp add: wp_def in_browser_def split: prod.splits sum.splits)

lemma bindE_cong:
  assumes "m s = m' s" and "\<And>x s'. m' s = (Inr x, s') \<Longrightarrow> f x s' = g x s'"
  shows "bindE m f s = bindE m' g s"
  using assms by (simp add: bindE_def split: prod.splits sum.splits)

lemma tryElse_cong: "m s = m' s \<Longrightarrow> tryElse m h k s = tryElse m' h k s"
  by (simp add: tryElse_def)

text \<open>The journal with one more entry.\<close>

definition journal_with :: "task_journal \<Rightarrow> journal_entry \<Rightarrow> task_journal" where
  "journal_with j e = \<lparr>journal_task = journal_task j, entries = entries j @ [e]\<rparr>"

lemma journal_with_simps [simp]:
  "journal_task (journal_with j e) = journal_task j" "entries (journal_with j e) = entries j @ [e]"
  by (simp_all add: journal_with_def)

text \<open>The entry that was appended, and that the journal is accepted with it.\<close>

definition appended :: "task_journal \<Rightarrow> task_plan \<Rightarrow> string \<Rightarrow> journal_outcome \<Rightarrow> datetime \<Rightarrow> string option \<Rightarrow> journal_entry \<Rightarrow> bool" where
  "appended j p sid out t reason e \<longleftrightarrow>
     entry_step e = sid \<and> outcome e = out \<and> entry_time e = t \<and> reason_code e = reason
     \<and> journal_entry_valid e \<and> check_entries [] 1 (entries j @ [e])
     \<and> journal_task j = plan_task p \<and> sid \<in> set (map step_id (steps p))"

lemma make_journal_entry_valid:
  assumes "make_journal_entry r = Inr e" and "squeeze_text (entry_message r) \<noteq> []"
  shows "journal_entry_valid e"
proof -
  have "length (squeeze_text (entry_message r)) \<le> length (entry_message r)" by (rule squeeze_text_length)
  then show ?thesis using assms by (auto simp: make_journal_entry_def journal_entry_valid_def)
qed

lemma append_wp:
  assumes "squeeze_text (codes message) \<noteq> []"
    and "\<And>e s'. appended j p sid out t reason e \<Longrightarrow> browser s' = browser s \<Longrightarrow> clock s' = clock s
          \<Longrightarrow> clock_tick s' = clock_tick s \<Longrightarrow> Q (journal_with j e) s'"
  shows "wp (append_task_journal_entry j p sid out message t reason None) Q (\<lambda>_ _. True) s"
proof -
  have "Q j' (s\<lparr>id_tick := Suc (id_tick s)\<rparr>)"
    if "journal_task j = plan_task p" "sid \<in> set (map step_id (steps p))"
      and e: "make_journal_entry \<lparr>entry_id = i, sequence = int (length (entries j)) + 1, entry_time = t,
         entry_step = sid, outcome = out, entry_message = codes message, reason_code = reason\<rparr> = Inr e"
      and j': "make_journal \<lparr>journal_task = journal_task j, entries = entries j @ [e]\<rparr> = Inr j'" for i e j'
  proof -
    have "appended j p sid out t reason e"
      using that make_journal_entry_valid [OF e] assms(1)
      by (auto simp: appended_def make_journal_entry_def make_journal_def)
    moreover have "j' = journal_with j e" using j' by (simp add: make_journal_def journal_with_def)
    ultimately show ?thesis using assms(2) by simp
  qed
  then show ?thesis
    unfolding append_task_journal_entry_def by (simp add: wp split: sum.splits)
qed

lemma journal_messages [simp]:
  "squeeze_text (codes ''Execution paused for a required user action'') \<noteq> []"
  "squeeze_text (codes ''Execution denied by the task permission policy'') \<noteq> []"
  "squeeze_text (codes ''Browser step started'') \<noteq> []"
  "squeeze_text (codes (if b then ''Browser step completed'' else ''Browser step failed'')) \<noteq> []"
  by (auto simp: codes_def intro!: squeeze_text_nonempty) (simp_all add: text_space_def)

section \<open>The calls of the runner\<close>

lemma evaluate_same:
  assumes "permissions t = permissions t'" and "target_url t = target_url t'"
  shows "evaluate_browser_action t r = evaluate_browser_action t' r"
proof -
  have "evaluate_navigation t = evaluate_navigation t'"
    using assms by (intro ext) (simp only: evaluate_navigation_def target_origin_def)
  then show ?thesis unfolding evaluate_browser_action_def assms(1) by (simp only:)
qed

text \<open>What holds of a call of the runner with task \<open>t\<close> and step \<open>s\<close>: the task is running and its
  journal ends with the start of \<open>s\<close>, every dependency of \<open>s\<close> has succeeded, and the policy allows
  the action, or an approval of this step for the reason the policy gives was consumed when it
  started.\<close>

definition call_permitted :: "task_plan \<Rightarrow> agent_task \<Rightarrow> plan_step \<Rightarrow> bool" where
  "call_permitted p t s \<longleftrightarrow>
     s \<in> set (steps p) \<and> task_status t = RunningTask
     \<and> (case (journal t, evaluate_browser_action t (to_action_request s)) of
          (Some j, Inr d) \<Rightarrow>
            entries j \<noteq> [] \<and> outcome (last (entries j)) = Started \<and> entry_step (last (entries j)) = step_id s
            \<and> set (depends_on s) \<subseteq> set (succeeded_ids j)
            \<and> (if requires_user d
               then reason_code (last (entries j)) = Some ''user_approved''
                 \<and> list_ex (\<lambda>a. approved_version a = plan_version p \<and> approved_step a = step_id s
                      \<and> approval_reason a = decision_reason d \<and> consumed_at a = Some (entry_time (last (entries j))))
                    (approvals t)
               else allowed d \<and> reason_code (last (entries j)) = Some (decision_reason d))
        | _ \<Rightarrow> False)"

lemma succeeded_ids_with:
  "succeeded_ids (journal_with j e) = succeeded_ids j @ (if outcome e = Succeeded then [entry_step e] else [])"
  by (simp add: succeeded_ids_def)

lemma consumed_in:
  assumes "find (usable_approval v sid reason) as = Some a"
  shows "list_ex (\<lambda>a. approved_version a = v \<and> approved_step a = sid \<and> approval_reason a = reason \<and> consumed_at a = Some t)
    (consume_approval a t as)"
proof -
  have a: "a \<in> set as" "usable_approval v sid reason a" using find_in [OF assms] by simp_all
  have "a\<lparr>consumed_at := Some t\<rparr> \<in> set (consume_approval a t as)"
    unfolding consume_approval_def set_map by (rule image_eqI [OF _ a(1)]) simp
  then show ?thesis
    unfolding list_ex_iff by (rule bexI [rotated]) (use a(2) in \<open>simp add: usable_approval_def\<close>)
qed

text \<open>The loop has passed over steps that succeeded, and its journal is that of the current task.\<close>

definition loop_at :: "string list \<Rightarrow> string list \<Rightarrow> task_journal \<Rightarrow> agent_task \<Rightarrow> bool" where
  "loop_at passed succeeded j t \<longleftrightarrow>
     task_status t = RunningTask \<and> journal t = Some j
     \<and> set succeeded = set (succeeded_ids j) \<and> set passed \<subseteq> set succeeded"

lemma run_step_permitted:
  fixes r1 :: "'w runner" and s0 :: "('w, 'z) exec_env_scheme"
  assumes "loop_at passed succeeded j current" and "set (depends_on step) \<subseteq> set passed" and "step \<in> set (steps p)"
    and d: "evaluate_browser_action current (to_action_request step) = Inr d"
    and appr: "approval = find (usable_approval (plan_version p) (step_id step) (decision_reason d)) (approvals current)"
    and ok: "requires_user d \<and> approval \<noteq> None \<or> \<not> requires_user d \<and> allowed d"
    and agree: "\<And>t s w. call_permitted p t s \<Longrightarrow> r1 t s w = r2 t s w"
  shows "run_step r1 p step d approval j current s0 = run_step r2 p step d approval j current s0"
proof -
  have permitted: "call_permitted p ((with_consumed approval started current)\<lparr>journal := Some (journal_with j e)\<rparr>) step"
    if e: "appended j p (step_id step) Started started (Some (start_reason d approval)) e" for e started
  proof -
    let ?t = "with_consumed approval started current"
    have t: "task_status ?t = RunningTask" "permissions ?t = permissions current" "target_url ?t = target_url current"
      using assms(1) by (auto simp: loop_at_def with_consumed_def split: option.splits)
    have ev: "evaluate_browser_action (?t\<lparr>journal := Some (journal_with j e)\<rparr>) (to_action_request step) = Inr d"
      using d t(2,3) by (subst evaluate_same [of _ current]) simp_all
    have deps: "set (depends_on step) \<subseteq> set (succeeded_ids (journal_with j e))"
      using assms(1,2) unfolding succeeded_ids_with loop_at_def by auto
    have "list_ex (\<lambda>a. approved_version a = plan_version p \<and> approved_step a = step_id step
        \<and> approval_reason a = decision_reason d \<and> consumed_at a = Some started) (approvals ?t)" if "requires_user d"
    proof -
      have "approval \<noteq> None" using ok that by simp
      then obtain a where a: "approval = Some a" by blast
      show ?thesis using consumed_in [OF appr [unfolded a, symmetric]] by (simp add: with_consumed_def a)
    qed
    then show ?thesis
      using assms(3) t(1) ok e deps ev by (auto simp: call_permitted_def appended_def start_reason_def split: if_splits)
  qed
  have started: "\<exists>e. x = journal_with j e \<and> appended j p (step_id step) Started t (Some (start_reason d approval)) e"
    if "append_task_journal_entry j p (step_id step) Started ''Browser step started'' t (Some (start_reason d approval)) None s
        = (Inr x, s')" for t and s s' :: "('w, 'z) exec_env_scheme" and x
    by (rule wp_result [OF append_wp that]) auto
  show ?thesis
    unfolding run_step_def Let_def
  proof (rule bindE_cong [OF refl], rule bindE_cong [OF refl], goal_cases)
    case (1 t s1 j1 s2)
    from started [OF 1(2)] obtain e where "j1 = journal_with j e"
      "appended j p (step_id step) Started t (Some (start_reason d approval)) e" by blast
    then show ?case
      by (intro tryElse_cong) (simp add: in_browser_def agree [OF permitted])
  qed
qed

text \<open>Everything a step that was run has done.\<close>

definition stepped ::
  "'w runner \<Rightarrow> task_plan \<Rightarrow> plan_step \<Rightarrow> permission_decision \<Rightarrow> step_approval option \<Rightarrow> task_journal \<Rightarrow> agent_task
     \<Rightarrow> time \<Rightarrow> task_journal \<Rightarrow> agent_task \<Rightarrow> step_result \<Rightarrow> bool" where
  "stepped runner p step d approval j current now j' t' result \<longleftrightarrow>
     (\<exists>e1 e2 t1 ts.
        appended j p (step_id step) Started (Aware now) (Some (start_reason d approval)) e1
        \<and> appended (journal_with j e1) p (step_id step) (if step_succeeded result then Succeeded else FailedStep)
            ts (result_reason result) e2
        \<and> j' = journal_with (journal_with j e1) e2
        \<and> t1 = (with_consumed approval (Aware now) current)\<lparr>journal := Some (journal_with j e1)\<rparr>
        \<and> ((\<exists>w. fst (runner t1 step w) = Inr result) \<or> result = browser_step_exception)
        \<and> t' = absorb_result result (t1\<lparr>journal := Some j'\<rparr>))"

lemma report_step_wp:
  assumes "\<And>e ts s'. appended j p (step_id step) (if step_succeeded result then Succeeded else FailedStep) ts (result_reason result) e
      \<Longrightarrow> clock s' = clock s \<Longrightarrow> clock_tick s \<le> clock_tick s'
      \<Longrightarrow> Q (journal_with j e, absorb_result result (t1\<lparr>journal := Some (journal_with j e)\<rparr>), result) s'"
  shows "wp (report_step p step j t1 result) Q (\<lambda>_ _. True) s"
  unfolding report_step_def wp_bindE wp_read_clock wp_ret
  by (rule append_wp) (simp_all add: assms)

lemma run_step_wp:
  fixes runner :: "'w runner" and s :: "('w, 'z) exec_env_scheme"
  assumes "\<And>j' t' result s'. stepped runner p step d approval j current (clock s (clock_tick s)) j' t' result
      \<Longrightarrow> clock s' = clock s \<Longrightarrow> clock_tick s \<le> clock_tick s' \<Longrightarrow> Q (j', t', result) s'"
  shows "wp (run_step runner p step d approval j current) Q (\<lambda>_ _. True) s"
  unfolding run_step_def Let_def wp_bindE wp_read_clock
proof (rule append_wp)
  let ?now = "Aware (clock s (clock_tick s))"
  fix e1 and s1 :: "('w, 'z) exec_env_scheme"
  assume e1: "appended j p (step_id step) Started ?now (Some (start_reason d approval)) e1"
    and s1: "clock s1 = clock (s\<lparr>clock_tick := Suc (clock_tick s)\<rparr>)"
      "clock_tick s1 = clock_tick (s\<lparr>clock_tick := Suc (clock_tick s)\<rparr>)"
  let ?t1 = "(with_consumed approval ?now current)\<lparr>journal := Some (journal_with j e1)\<rparr>"
  have report: "wp (report_step p step (journal_with j e1) ?t1 result) Q (\<lambda>_ _. True) (s1\<lparr>browser := w\<rparr>)"
    if "(\<exists>w. fst (runner ?t1 step w) = Inr result) \<or> result = browser_step_exception" for result w
  proof (rule report_step_wp, rule assms)
    fix e ts and s' :: "('w, 'z) exec_env_scheme"
    assume e: "appended (journal_with j e1) p (step_id step) (if step_succeeded result then Succeeded else FailedStep)
        ts (result_reason result) e"
      and s': "clock s' = clock (s1\<lparr>browser := w\<rparr>)" "clock_tick (s1\<lparr>browser := w\<rparr>) \<le> clock_tick s'"
    show "stepped runner p step d approval j current (clock s (clock_tick s)) (journal_with (journal_with j e1) e)
        (absorb_result result (?t1\<lparr>journal := Some (journal_with (journal_with j e1) e)\<rparr>)) result"
      unfolding stepped_def using e1 e that by blast
    show "clock s' = clock s" "clock_tick s \<le> clock_tick s'" using s' s1 by simp_all
  qed
  obtain x w where x: "runner ?t1 step (browser s1) = (x, w)" by fastforce
  show "wp (tryElse (in_browser (runner ?t1 step))
       (\<lambda>e. if e = ProcessExit then raise e else report_step p step (journal_with j e1) ?t1 browser_step_exception)
       (\<lambda>result. report_step p step (journal_with j e1) ?t1 result)) Q (\<lambda>_ _. True) s1"
  proof (cases x)
    case (Inl e)
    have "wp (report_step p step (journal_with j e1) ?t1 browser_step_exception) Q (\<lambda>_ _. True) (s1\<lparr>browser := w\<rparr>)"
      by (rule report) (rule disjI2, rule refl)
    then show ?thesis
      unfolding wp_tryElse wp_in_browser x Inl prod.case sum.case wp_if wp_raise
      by (cases "e = ProcessExit") (simp_all only: if_True if_False if_cancel)
  next
    case (Inr result)
    have f: "fst (runner ?t1 step (browser s1)) = Inr result" using x Inr by simp
    show ?thesis
      unfolding wp_tryElse wp_in_browser x Inr prod.case sum.case by (rule report, rule disjI1, rule exI, rule f)
  qed
qed simp

text \<open>A step keeps what the loop relies on, and records its success.\<close>

text \<open>The part of a task execution leaves alone.\<close>

definition task_core :: "agent_task \<Rightarrow> agent_task" where
  "task_core t = t\<lparr>task_status := Draft, waiting_reason := None, journal := None, approvals := [],
     page := None, fill_plan := None\<rparr>"

lemma task_core_updates [simp]:
  "task_core (t\<lparr>task_status := x1\<rparr>) = task_core t" "task_core (t\<lparr>waiting_reason := x2\<rparr>) = task_core t"
  "task_core (t\<lparr>journal := x3\<rparr>) = task_core t" "task_core (t\<lparr>approvals := x4\<rparr>) = task_core t"
  "task_core (t\<lparr>page := x5\<rparr>) = task_core t" "task_core (t\<lparr>fill_plan := x6\<rparr>) = task_core t"
  by (simp_all add: task_core_def)

lemma task_core_parts [simp]:
  "task_core (absorb_result r t) = task_core t" "task_core (with_consumed a n t) = task_core t"
  by (simp_all add: absorb_result_def with_consumed_def Let_def split: option.splits)

lemma absorb_parts [simp]:
  "task_status (absorb_result r t) = task_status t" "journal (absorb_result r t) = journal t"
  "approvals (absorb_result r t) = approvals t" "waiting_reason (absorb_result r t) = waiting_reason t"
  by (simp_all add: absorb_result_def Let_def split: option.splits)

lemma with_consumed_parts [simp]:
  "task_status (with_consumed a n t) = task_status t" "journal (with_consumed a n t) = journal t"
  "waiting_reason (with_consumed a n t) = waiting_reason t"
  by (simp_all add: with_consumed_def split: option.splits)

lemma task_core_fields:
  assumes "task_core t = task_core t'"
  shows "permissions t = permissions t'" and "target_url t = target_url t'" and "task_id t = task_id t'"
    and "plan t = plan t'" and "task_version t = task_version t'"
proof -
  have "permissions (task_core t) = permissions (task_core t')" "target_url (task_core t) = target_url (task_core t')"
    "task_id (task_core t) = task_id (task_core t')" "plan (task_core t) = plan (task_core t')"
    "task_version (task_core t) = task_version (task_core t')"
    using assms by simp_all
  then show "permissions t = permissions t'" and "target_url t = target_url t'" and "task_id t = task_id t'"
    and "plan t = plan t'" and "task_version t = task_version t'"
    by (simp_all add: task_core_def)
qed

lemma stepped_facts:
  assumes "stepped runner p step d approval j current now j' t' result"
  shows "task_core t' = task_core current" and "journal t' = Some j'" and "task_status t' = task_status current"
    and "waiting_reason t' = waiting_reason current" and "journal_task j' = journal_task j"
    and "succeeded_ids j' = succeeded_ids j @ (if step_succeeded result then [step_id step] else [])"
    and "\<exists>e1 e2. entries j' = entries j @ [e1, e2] \<and> outcome e1 = Started \<and> entry_step e1 = step_id step
      \<and> outcome e2 = (if step_succeeded result then Succeeded else FailedStep) \<and> entry_step e2 = step_id step
      \<and> reason_code e2 = result_reason result"
proof -
  obtain e1 e2 t1 ts where e: "appended j p (step_id step) Started (Aware now) (Some (start_reason d approval)) e1"
      "appended (journal_with j e1) p (step_id step) (if step_succeeded result then Succeeded else FailedStep)
         ts (result_reason result) e2"
    and j': "j' = journal_with (journal_with j e1) e2"
    and t1: "t1 = (with_consumed approval (Aware now) current)\<lparr>journal := Some (journal_with j e1)\<rparr>"
    and t': "t' = absorb_result result (t1\<lparr>journal := Some j'\<rparr>)"
    using assms unfolding stepped_def by blast
  show "task_core t' = task_core current" "journal t' = Some j'" "task_status t' = task_status current"
    "waiting_reason t' = waiting_reason current" by (simp_all add: t' t1)
  show "journal_task j' = journal_task j" by (simp add: j')
  show "succeeded_ids j' = succeeded_ids j @ (if step_succeeded result then [step_id step] else [])"
    using e by (simp add: j' succeeded_ids_with appended_def)
  show "\<exists>e1 e2. entries j' = entries j @ [e1, e2] \<and> outcome e1 = Started \<and> entry_step e1 = step_id step
      \<and> outcome e2 = (if step_succeeded result then Succeeded else FailedStep) \<and> entry_step e2 = step_id step
      \<and> reason_code e2 = result_reason result"
    using e by (intro exI [of _ e1] exI [of _ e2]) (simp add: j' appended_def)
qed

lemma loop_at_next:
  assumes "loop_at passed succeeded j current" and "stepped runner p step d approval j current now j' t' result"
    and "step_succeeded result"
  shows "loop_at (step_id step # passed) (step_id step # succeeded) j' t'"
  using assms(1,3) stepped_facts(2,3,6) [OF assms(2)] by (auto simp: loop_at_def)

lemma execute_steps_permitted:
  fixes r1 r2 :: "'w runner" and s :: "('w, 'z) exec_env_scheme"
  assumes agree: "\<And>t s w. call_permitted p t s \<Longrightarrow> r1 t s w = r2 t s w"
  shows "loop_at passed succeeded j current \<Longrightarrow> check_step_graph passed rest \<Longrightarrow> set rest \<subseteq> set (steps p) \<Longrightarrow>
    execute_steps r1 p m rest succeeded n j current s = execute_steps r2 p m rest succeeded n j current s"
proof (induction rest arbitrary: passed succeeded n j current s)
  case (Cons step rest)
  have g: "set (depends_on step) \<subseteq> set passed" "check_step_graph (step_id step # passed) rest" "step \<in> set (steps p)"
    using Cons.prems(2,3) by (auto simp: list_all_iff split: if_splits)
  show ?case
  proof (cases "step_id step \<in> set succeeded")
    case True
    have "loop_at (step_id step # passed) succeeded j current" using Cons.prems(1) True by (auto simp: loop_at_def)
    from Cons.IH [OF this g(2)] Cons.prems(3) True show ?thesis by simp
  next
    case False
    show ?thesis
      unfolding execute_steps.simps if_not_P [OF False]
    proof (rule bindE_cong [OF refl], goal_cases)
      case (1 d s1)
      let ?a = "find (usable_approval (plan_version p) (step_id step) (decision_reason d)) (approvals current)"
      have d: "evaluate_browser_action current (to_action_request step) = Inr d" using 1 by (simp add: liftE_def)
      show ?case
      proof (cases "requires_user d \<and> ?a \<noteq> None \<or> \<not> requires_user d \<and> allowed d")
        case True
        note same = run_step_permitted [OF Cons.prems(1) g(1,3) d refl True agree]
        have later: "execute_steps r1 p m rest (step_id step # succeeded) (n + 1) j' t' s2
            = execute_steps r2 p m rest (step_id step # succeeded) (n + 1) j' t' s2"
          if "run_step r2 p step d ?a j current s1 = (Inr (j', t', result), s2)" "step_succeeded result"
          for j' t' result and s2 :: "('w, 'z) exec_env_scheme"
        proof -
          have "stepped r2 p step d ?a j current (clock s1 (clock_tick s1)) j' t' result"
            by (rule wp_result [where Q = "\<lambda>(j', t', result) _. stepped r2 p step d ?a j current (clock s1 (clock_tick s1)) j' t' result",
                  OF run_step_wp that(1), simplified])
          from loop_at_next [OF Cons.prems(1) this that(2)] show ?thesis
            by (rule Cons.IH [OF _ g(2)]) (use Cons.prems(3) in simp)
        qed
        have gate: "\<not> (requires_user d \<and> \<not> (requires_user d \<and> ?a \<noteq> None))"
          "\<not> (\<not> allowed d \<and> \<not> (requires_user d \<and> ?a \<noteq> None))" using True by blast+
        show ?thesis
          unfolding Let_def if_not_P [OF gate(1)] if_not_P [OF gate(2)]
        proof (rule bindE_cong [OF same])
          fix x and s2 :: "('w, 'z) exec_env_scheme"
          assume run: "run_step r2 p step d ?a j current s1 = (Inr x, s2)"
          obtain j' t' result where x: "x = (j', t', result)" by (cases x)
          show "settle_step m (n + 1) (execute_steps r1 p m rest (step_id step # succeeded) (n + 1)) x s2
              = settle_step m (n + 1) (execute_steps r2 p m rest (step_id step # succeeded) (n + 1)) x s2"
          proof (cases "step_succeeded result")
            case True
            show ?thesis
              using later [OF run [unfolded x] True] True by (simp add: settle_step_def x del: execute_steps.simps)
          qed (simp add: settle_step_def x)
        qed
      next
        case stop: False
        show ?thesis
        proof (cases "requires_user d \<and> \<not> (requires_user d \<and> ?a \<noteq> None)")
          case True
          show ?thesis unfolding Let_def if_P [OF True] by (rule refl)
        next
          case False
          have deny: "\<not> allowed d \<and> \<not> (requires_user d \<and> ?a \<noteq> None)" using stop False by blast
          show ?thesis unfolding Let_def if_not_P [OF False] if_P [OF deny] by (rule refl)
        qed
      qed
    qed
  qed
qed simp

text \<open>C5: the executor calls the browser runner only on permitted steps: two runners that agree on
  permitted calls give the same execution, whatever they do on any other step.\<close>

theorem runner_called_only_when_permitted:
  fixes r1 r2 :: "'w runner" and s :: "('w, 'z) exec_env_scheme"
  assumes "plan task = Some p" and "plan_valid p"
    and "\<And>t step w. call_permitted p t step \<Longrightarrow> r1 t step w = r2 t step w"
  shows "execute_task_plan task r1 max_steps s = execute_task_plan task r2 max_steps s"
proof -
  let ?j = "initial_journal task"
  let ?t = "task\<lparr>task_status := RunningTask, waiting_reason := None, journal := Some ?j\<rparr>"
  have at: "loop_at [] (succeeded_ids ?j) ?j ?t" by (simp add: loop_at_def)
  have graph: "check_step_graph [] (steps p)" using assms(2) by (simp add: plan_valid_def plan_ok_def)
  have same: "execute_steps r1 p max_steps (steps p) (succeeded_ids ?j) 0 ?j ?t s
      = execute_steps r2 p max_steps (steps p) (succeeded_ids ?j) 0 ?j ?t s"
    by (rule execute_steps_permitted [where ?r1.0 = r1 and ?r2.0 = r2, OF _ at graph subset_refl]) (rule assms(3))
  show ?thesis
  proof (cases "task_status task \<notin> {Ready, RunningTask}")
    case True
    show ?thesis unfolding execute_task_plan_def assms(1) option.case Let_def if_P [OF True] by (rule refl)
  next
    case False
    show ?thesis unfolding execute_task_plan_def assms(1) option.case Let_def if_not_P [OF False] by (rule same)
  qed
qed

section \<open>The abstract machine of a plan\<close>

text \<open>What the journal says of a plan: the steps that are done, and the step that is running.\<close>

record progress =
  done_steps :: "string set"
  running_step :: "string option"

definition progress_entry :: "progress \<Rightarrow> journal_entry \<Rightarrow> progress" where
  "progress_entry a e =
     (case outcome e of
        Started \<Rightarrow> a\<lparr>running_step := Some (entry_step e)\<rparr>
      | Succeeded \<Rightarrow> \<lparr>done_steps = insert (entry_step e) (done_steps a), running_step = None\<rparr>
      | FailedStep \<Rightarrow> a\<lparr>running_step := None\<rparr>
      | Blocked \<Rightarrow> a)"

definition progress_of :: "task_journal \<Rightarrow> progress" where
  "progress_of j = foldl progress_entry \<lparr>done_steps = {}, running_step = None\<rparr> (entries j)"

text \<open>A step of the plan starts when none is running, it is not done, and every step before it in
  the plan is; a running step ends done or not.\<close>

inductive plan_move :: "task_plan \<Rightarrow> progress \<Rightarrow> progress \<Rightarrow> bool" for p where
  start: "\<lbrakk>steps p = before @ s # after; running_step a = None; step_id s \<notin> done_steps a;
      step_id ` set before \<subseteq> done_steps a\<rbrakk> \<Longrightarrow> plan_move p a (a\<lparr>running_step := Some (step_id s)\<rparr>)"
| succeed: "running_step a = Some i \<Longrightarrow> plan_move p a \<lparr>done_steps = insert i (done_steps a), running_step = None\<rparr>"
| give_up: "running_step a = Some i \<Longrightarrow> plan_move p a (a\<lparr>running_step := None\<rparr>)"

inductive_cases plan_move_running: "plan_move p \<lparr>done_steps = D, running_step = Some i\<rparr> b"

text \<open>In the abstract machine a step that is done or running has all its dependencies done.\<close>

definition dependencies_done :: "task_plan \<Rightarrow> progress \<Rightarrow> bool" where
  "dependencies_done p a \<longleftrightarrow>
     list_all (\<lambda>s. step_id s \<in> done_steps a \<or> running_step a = Some (step_id s) \<longrightarrow> set (depends_on s) \<subseteq> done_steps a)
       (steps p)"

lemma progress_with: "progress_of (journal_with j e) = progress_entry (progress_of j) e"
  by (simp add: progress_of_def)

lemma done_progress: "done_steps (progress_of j) = set (succeeded_ids j)"
proof -
  have "done_steps (foldl progress_entry a es) = done_steps a \<union> set (map entry_step (filter (\<lambda>e. outcome e = Succeeded) es))"
    for a es
    by (induction es arbitrary: a) (auto simp: progress_entry_def split: journal_outcome.split)
  then show ?thesis by (simp add: progress_of_def succeeded_ids_def)
qed

lemma stepped_moves:
  assumes "stepped runner p step d approval j current now j' t' result"
    and "running_step (progress_of j) = None" and "steps p = before @ step # after"
    and "step_id step \<notin> set (succeeded_ids j)" and "step_id ` set before \<subseteq> set (succeeded_ids j)"
  shows "(plan_move p)\<^sup>*\<^sup>* (progress_of j) (progress_of j')" and "running_step (progress_of j') = None"
proof -
  obtain e1 e2 where e: "j' = journal_with (journal_with j e1) e2" "outcome e1 = Started" "entry_step e1 = step_id step"
      "outcome e2 = (if step_succeeded result then Succeeded else FailedStep)" "entry_step e2 = step_id step"
    using assms(1) unfolding stepped_def appended_def by blast
  let ?a = "progress_of j"
  let ?b = "?a\<lparr>running_step := Some (step_id step)\<rparr>"
  have 1: "plan_move p ?a ?b"
    by (rule plan_move.start [OF assms(3,2)]) (use assms(4,5) in \<open>simp_all add: done_progress\<close>)
  have 2: "progress_of (journal_with j e1) = ?b" using e(2,3) by (simp add: progress_with progress_entry_def)
  have 3: "progress_of j' = (if step_succeeded result
      then \<lparr>done_steps = insert (step_id step) (done_steps ?b), running_step = None\<rparr> else ?b\<lparr>running_step := None\<rparr>)"
    unfolding e(1) progress_with [of "journal_with j e1"] 2 using e(4,5) by (simp add: progress_entry_def)
  have "plan_move p ?b (progress_of j')"
    unfolding 3 using plan_move.succeed [of ?b "step_id step" p] plan_move.give_up [of ?b "step_id step" p] by simp
  with 1 show "(plan_move p)\<^sup>*\<^sup>* ?a (progress_of j')" by (meson rtranclp.rtrancl_into_rtrancl rtranclp.rtrancl_refl)
  show "running_step (progress_of j') = None" unfolding 3 by simp
qed

section \<open>The outcome of an execution\<close>

lemma decision_kinds [simp]:
  "requires_user (ask_user r)" "\<not> allowed (ask_user r)" "\<not> requires_user (allow_action x)" "allowed (allow_action x)"
  "\<not> requires_user (deny_action x)" "\<not> allowed (deny_action x)"
  by (simp_all add: ask_user_def allow_action_def deny_action_def)

lemma navigation_asks: "evaluate_navigation t v = Inr d \<Longrightarrow> requires_user d \<Longrightarrow> \<exists>reason. d = ask_user reason"
  unfolding evaluate_navigation_def by (auto split: if_splits option.splits sum.splits)

lemma evaluate_asks:
  assumes "evaluate_browser_action t r = Inr d" and "requires_user d"
  shows "\<exists>reason. d = ask_user reason"
  using assms navigation_asks [of t "request_target r" d]
  by (cases "request_action r") (auto simp: evaluate_browser_action_def Let_def split: if_splits)

definition stopped_as :: "task_plan \<Rightarrow> int option \<Rightarrow> task_journal \<Rightarrow> task_journal \<Rightarrow> agent_task \<Rightarrow> bool" where
  "stopped_as p m j0 j t \<longleftrightarrow>
     (case task_status t of
        Prepared \<Rightarrow> waiting_reason t = None \<and> step_id ` set (steps p) \<subseteq> set (succeeded_ids j)
      | WaitingForUser \<Rightarrow>
          (case waiting_reason t of
             None \<Rightarrow> False
           | Some r \<Rightarrow> entries j \<noteq> [] \<and> outcome (last (entries j)) = Blocked
               \<and> reason_code (last (entries j)) = Some (reason_value r)
               \<and> entry_step (last (entries j)) \<notin> set (succeeded_ids j))
      | FailedTask \<Rightarrow> waiting_reason t = None \<and> entries j \<noteq> [] \<and> outcome (last (entries j)) = FailedStep
      | Monitoring \<Rightarrow> waiting_reason t = None \<and> entries j \<noteq> [] \<and> outcome (last (entries j)) = FailedStep
          \<and> reason_code (last (entries j)) = Some ''review_action_not_available''
      | Ready \<Rightarrow> waiting_reason t = None
          \<and> (case m of None \<Rightarrow> False
             | Some k \<Rightarrow> length (succeeded_ids j) = length (succeeded_ids j0) + nat (max 1 k))
      | _ \<Rightarrow> False)"

definition execution_result :: "task_plan \<Rightarrow> int option \<Rightarrow> task_journal \<Rightarrow> agent_task \<Rightarrow> agent_task \<Rightarrow> bool" where
  "execution_result p m j0 t0 t \<longleftrightarrow>
     (case journal t of
        None \<Rightarrow> False
      | Some j \<Rightarrow> task_core t = task_core t0 \<and> journal_task j = journal_task j0
          \<and> prefix (entries j0) (entries j)
          \<and> (plan_move p)\<^sup>*\<^sup>* (progress_of j0) (progress_of j) \<and> running_step (progress_of j) = None
          \<and> stopped_as p m j0 j t)"

text \<open>The loop with \<open>n\<close> steps executed.\<close>

definition loop_inv :: "task_plan \<Rightarrow> int option \<Rightarrow> task_journal \<Rightarrow> agent_task \<Rightarrow> string list \<Rightarrow> string list \<Rightarrow> int \<Rightarrow>
    task_journal \<Rightarrow> agent_task \<Rightarrow> bool" where
  "loop_inv p m j0 t0 passed succeeded n j t \<longleftrightarrow>
     loop_at passed succeeded j t \<and> waiting_reason t = None
     \<and> task_core t = task_core t0 \<and> journal_task j = journal_task j0
     \<and> prefix (entries j0) (entries j)
     \<and> (plan_move p)\<^sup>*\<^sup>* (progress_of j0) (progress_of j) \<and> running_step (progress_of j) = None
     \<and> 0 \<le> n \<and> length (succeeded_ids j) = length (succeeded_ids j0) + nat n
     \<and> (case m of None \<Rightarrow> True | Some k \<Rightarrow> n = 0 \<or> n < k)"

lemma stop_for_user_wp:
  assumes "loop_inv p m j0 t0 passed succeeded n j t" and "step_id step \<notin> set succeeded"
  shows "wp (stop_for_user p step (ask_user r) j t) (\<lambda>t' _. execution_result p m j0 t0 t') (\<lambda>_ _. True) s"
  unfolding stop_for_user_def wp_bindE wp_read_clock
proof (rule append_wp)
  fix e and s' :: "('w, 'z) exec_env_scheme"
  assume e: "appended j p (step_id step) Blocked (Aware (clock s (clock_tick s))) (Some (decision_reason (ask_user r))) e"
  have "execution_result p m j0 t0 (t\<lparr>task_status := WaitingForUser, waiting_reason := Some r, journal := Some (journal_with j e)\<rparr>)"
    using assms e
    by (auto simp: execution_result_def stopped_as_def loop_inv_def loop_at_def progress_with progress_entry_def
        appended_def succeeded_ids_with ask_user_def)
  then show "wp (liftE (reason_of_value (decision_reason (ask_user r))))
     (\<lambda>x. wp (ret (t\<lparr>task_status := WaitingForUser, waiting_reason := Some x, journal := Some (journal_with j e)\<rparr>))
       (\<lambda>t' _. execution_result p m j0 t0 t') (\<lambda>_ _. True)) (\<lambda>_ _. True) s'"
    by (simp add: wp ask_user_def)
qed simp

lemma stop_denied_wp:
  assumes "loop_inv p m j0 t0 passed succeeded n j t"
  shows "wp (stop_denied p step d j t) (\<lambda>t' _. execution_result p m j0 t0 t') (\<lambda>_ _. True) s"
  unfolding stop_denied_def wp_bindE wp_read_clock
proof (rule append_wp)
  fix e and s' :: "('w, 'z) exec_env_scheme"
  assume e: "appended j p (step_id step) FailedStep (Aware (clock s (clock_tick s))) (Some (decision_reason d)) e"
  have "progress_of (journal_with j e) = progress_of j"
    using assms e by (simp add: progress_with progress_entry_def appended_def loop_inv_def)
  then have "execution_result p m j0 t0 (t\<lparr>task_status := FailedTask, journal := Some (journal_with j e)\<rparr>)"
    using assms e
    by (auto simp: execution_result_def stopped_as_def loop_inv_def loop_at_def appended_def)
  then show "wp (ret (t\<lparr>task_status := FailedTask, journal := Some (journal_with j e)\<rparr>))
       (\<lambda>t' _. execution_result p m j0 t0 t') (\<lambda>_ _. True) s'"
    by (simp add: wp)
qed simp

lemma loop_inv_step:
  assumes inv: "loop_inv p m j0 t0 (map step_id before) succeeded n j t" and steps: "steps p = before @ step # after"
    and new: "step_id step \<notin> set succeeded"
    and stepped: "stepped runner p step d approval j t now j' t' result"
  shows "step_succeeded result \<Longrightarrow> (case m of None \<Rightarrow> True | Some k \<Rightarrow> \<not> k \<le> n + 1)
      \<Longrightarrow> loop_inv p m j0 t0 (map step_id (before @ [step])) (step_id step # succeeded) (n + 1) j' t'"
    and "step_succeeded result \<Longrightarrow> m = Some k \<Longrightarrow> k \<le> n + 1 \<Longrightarrow> execution_result p m j0 t0 (t'\<lparr>task_status := Ready\<rparr>)"
    and "\<not> step_succeeded result \<Longrightarrow> execution_result p m j0 t0 (t'\<lparr>task_status :=
      (if result_reason result = Some ''review_action_not_available'' then Monitoring else FailedTask)\<rparr>)"
proof -
  note f = stepped_facts [OF stepped]
  obtain e1 e2 where e: "entries j' = entries j @ [e1, e2]"
    "outcome e2 = (if step_succeeded result then Succeeded else FailedStep)" "reason_code e2 = result_reason result"
    using f(7) by blast
  have i: "loop_at (map step_id before) succeeded j t" "waiting_reason t = None" "task_core t = task_core t0"
    "journal_task j = journal_task j0" "prefix (entries j0) (entries j)"
    "(plan_move p)\<^sup>*\<^sup>* (progress_of j0) (progress_of j)" "running_step (progress_of j) = None"
    "0 \<le> n" "length (succeeded_ids j) = length (succeeded_ids j0) + nat n"
    and m: "case m of None \<Rightarrow> True | Some k \<Rightarrow> n = 0 \<or> n < k"
    using inv by (simp_all add: loop_inv_def)
  have seen: "step_id step \<notin> set (succeeded_ids j)" "step_id ` set before \<subseteq> set (succeeded_ids j)"
    using i(1) new by (auto simp: loop_at_def)
  note moves = stepped_moves [OF stepped i(7) steps seen]
  have path: "(plan_move p)\<^sup>*\<^sup>* (progress_of j0) (progress_of j')" using i(6) moves(1) by (rule rtranclp_trans)
  have ext: "prefix (entries j0) (entries j')" using i(5) e(1) by simp
  have count: "length (succeeded_ids j') = length (succeeded_ids j0) + nat (n + 1)" if "step_succeeded result"
    using f(6) i(8,9) that by simp
  show "loop_inv p m j0 t0 (map step_id (before @ [step])) (step_id step # succeeded) (n + 1) j' t'"
    if ok: "step_succeeded result" "case m of None \<Rightarrow> True | Some k \<Rightarrow> \<not> k \<le> n + 1"
  proof -
    have "loop_at (map step_id (before @ [step])) (step_id step # succeeded) j' t'"
      using loop_at_next [OF i(1) stepped ok(1)] unfolding loop_at_def by auto
    moreover have "case m of None \<Rightarrow> True | Some k \<Rightarrow> n + 1 = 0 \<or> n + 1 < k" using ok(2) by (cases m) simp_all
    ultimately show ?thesis
      unfolding loop_inv_def using f(1,4,5) i(2,3,4,8) path moves(2) ext count [OF ok(1)] by simp
  qed
  show "execution_result p m j0 t0 (t'\<lparr>task_status := Ready\<rparr>)"
    if ok: "step_succeeded result" "m = Some k" "k \<le> n + 1"
  proof -
    have "nat (n + 1) = nat (max 1 k)" using m ok(2,3) i(8) by auto
    then show ?thesis
      using f i(2,3,4) path moves(2) ext count [OF ok(1)] ok(2)
      by (simp add: execution_result_def stopped_as_def)
  qed
  show "execution_result p m j0 t0 (t'\<lparr>task_status :=
      (if result_reason result = Some ''review_action_not_available'' then Monitoring else FailedTask)\<rparr>)"
    if "\<not> step_succeeded result"
    using f i(2,3,4) path moves(2) ext e that by (simp add: execution_result_def stopped_as_def)
qed

lemma execute_steps_result:
  fixes runner :: "'w runner" and s :: "('w, 'z) exec_env_scheme"
  shows "loop_inv p m j0 t0 (map step_id before) succeeded n j t \<Longrightarrow> steps p = before @ rest \<Longrightarrow>
    wp (execute_steps runner p m rest succeeded n j t) (\<lambda>t' _. execution_result p m j0 t0 t') (\<lambda>_ _. True) s"
proof (induction rest arbitrary: before succeeded n j t s)
  case (Nil before succeeded n j t s)
  then have "execution_result p m j0 t0 (t\<lparr>task_status := Prepared\<rparr>)"
    by (auto simp: execution_result_def stopped_as_def loop_inv_def loop_at_def)
  then show ?case by (simp add: wp)
next
  case (Cons step rest before succeeded n j t s)
  show ?case
  proof (cases "step_id step \<in> set succeeded")
    case True
    have inv: "loop_inv p m j0 t0 (map step_id (before @ [step])) succeeded n j t"
      using Cons.prems(1) True by (auto simp: loop_inv_def loop_at_def)
    show ?thesis
      unfolding execute_steps.simps if_P [OF True] by (rule Cons.IH [OF inv]) (simp add: Cons.prems(2))
  next
    case new: False
    show ?thesis
    proof (cases "evaluate_browser_action t (to_action_request step)")
      case (Inl e)
      then show ?thesis using new by (simp add: wp_bindE wp_liftE)
    next
      case (Inr d)
      let ?a = "find (usable_approval (plan_version p) (step_id step) (decision_reason d)) (approvals t)"
      let ?go = "settle_step m (n + 1) (\<lambda>j' t'. execute_steps runner p m rest (step_id step # succeeded) (n + 1) j' t')"
      have run: "wp (bindE (run_step runner p step d ?a j t) ?go) (\<lambda>t' _. execution_result p m j0 t0 t') (\<lambda>_ _. True) s"
        unfolding wp_bindE
      proof (rule run_step_wp)
        fix j' t' result and s' :: "('w, 'z) exec_env_scheme"
        assume st: "stepped runner p step d ?a j t (clock s (clock_tick s)) j' t' result"
        note step = loop_inv_step [OF Cons.prems(1,2) new st]
        have go: "wp (execute_steps runner p m rest (step_id step # succeeded) (n + 1) j' t')
            (\<lambda>t' _. execution_result p m j0 t0 t') (\<lambda>_ _. True) s'"
          if "step_succeeded result" "case m of None \<Rightarrow> True | Some k \<Rightarrow> \<not> k \<le> n + 1"
          by (rule Cons.IH [OF step(1) [OF that]]) (simp add: Cons.prems(2))
        show "wp (?go (j', t', result)) (\<lambda>t' _. execution_result p m j0 t0 t') (\<lambda>_ _. True) s'"
        proof (cases "step_succeeded result")
          case ok: True
          show ?thesis
          proof (cases "case m of None \<Rightarrow> False | Some k \<Rightarrow> k \<le> n + 1")
            case True
            then obtain k where "m = Some k" "k \<le> n + 1" by (cases m) simp_all
            from step(2) [OF ok this] True ok show ?thesis
              unfolding settle_step_def prod.case by (simp add: wp_ret)
          next
            case False
            then have "case m of None \<Rightarrow> True | Some k \<Rightarrow> \<not> k \<le> n + 1" by (cases m) simp_all
            from go [OF ok this] False ok show ?thesis
              unfolding settle_step_def prod.case by (simp del: execute_steps.simps)
          qed
        next
          case False
          then show ?thesis
            unfolding settle_step_def prod.case using step(3) [OF False] by (simp add: wp_ret)
        qed
      qed
      show ?thesis
        unfolding execute_steps.simps if_not_P [OF new] wp_bindE [of "liftE _"] wp_liftE Inr sum.case Let_def
      proof (cases "requires_user d \<and> \<not> (requires_user d \<and> ?a \<noteq> None)")
        case True
        then obtain r where d: "d = ask_user r" using evaluate_asks [OF Inr] by blast
        show "wp (if requires_user d \<and> \<not> (requires_user d \<and> ?a \<noteq> None) then stop_for_user p step d j t
            else if \<not> allowed d \<and> \<not> (requires_user d \<and> ?a \<noteq> None) then stop_denied p step d j t
            else bindE (run_step runner p step d ?a j t) ?go) (\<lambda>t' _. execution_result p m j0 t0 t') (\<lambda>_ _. True) s"
          unfolding if_P [OF True] unfolding d by (rule stop_for_user_wp [OF Cons.prems(1) new])
      next
        case False
        show "wp (if requires_user d \<and> \<not> (requires_user d \<and> ?a \<noteq> None) then stop_for_user p step d j t
            else if \<not> allowed d \<and> \<not> (requires_user d \<and> ?a \<noteq> None) then stop_denied p step d j t
            else bindE (run_step runner p step d ?a j t) ?go) (\<lambda>t' _. execution_result p m j0 t0 t') (\<lambda>_ _. True) s"
          unfolding if_not_P [OF False]
          by (cases "\<not> allowed d \<and> \<not> (requires_user d \<and> ?a \<noteq> None)")
            (simp_all only: if_P if_not_P run stop_denied_wp [OF Cons.prems(1)] not_False_eq_True)
      qed
    qed
  qed
qed

lemma execute_task_plan_result:
  fixes s :: "('w, 'z) exec_env_scheme"
  assumes "plan task = Some p" and "running_step (progress_of (initial_journal task)) = None"
    and "execute_task_plan task runner m s = (Inr t', s')"
  shows "execution_result p m (initial_journal task) task t'"
proof -
  let ?j = "initial_journal task"
  let ?t = "task\<lparr>task_status := RunningTask, waiting_reason := None, journal := Some ?j\<rparr>"
  have "execute_steps runner p m (steps p) (succeeded_ids ?j) 0 ?j ?t s = (Inr t', s')"
    using assms(3) by (cases "task_status task \<in> {Ready, RunningTask}") (auto simp: execute_task_plan_def assms(1) raise_def Let_def)
  moreover have "loop_inv p m ?j task (map step_id []) (succeeded_ids ?j) 0 ?j ?t"
    using assms(2) by (auto simp: loop_inv_def loop_at_def split: option.splits)
  ultimately show ?thesis
    using wp_result [OF execute_steps_result [where before = "[]"]] by fastforce
qed

text \<open>Every move of the abstract machine keeps the dependencies of what is done and running.\<close>

lemma plan_move_dependencies:
  assumes "plan_move p a b" and "check_step_graph [] (steps p)" and "dependencies_done p a"
  shows "dependencies_done p b"
  using assms
proof (cases rule: plan_move.cases)
  case (start before s after)
  have ids: "distinct (map step_id (steps p))" using assms(2) unfolding check_step_graph_spec by simp
  have at: "length before < length (steps p)" "steps p ! length before = s" "take (length before) (steps p) = before"
    using start(2) by simp_all
  have "\<forall>i < length (steps p). \<forall>d \<in> set (depends_on (steps p ! i)). d \<in> set [] \<union> step_id ` set (take i (steps p))"
    using assms(2) unfolding check_step_graph_spec by (elim conjE)
  from this [rule_format, OF at(1), unfolded at(2,3)] have "set (depends_on s) \<subseteq> step_id ` set before" by auto
  then have s: "set (depends_on s) \<subseteq> done_steps a" using start(5) by (rule order_trans)
  have same: "s' = s" if "s' \<in> set (steps p)" "step_id s' = step_id s" for s'
  proof -
    have "s \<in> set (steps p)" using start(2) by simp
    with ids that show ?thesis by (simp add: distinct_map inj_on_def)
  qed
  show ?thesis
    using assms(3) s same start(1) unfolding dependencies_done_def list_all_iff by auto
next
  case (succeed i)
  then show ?thesis using assms(3) unfolding dependencies_done_def list_all_iff by auto
next
  case (give_up i)
  then show ?thesis using assms(3) unfolding dependencies_done_def list_all_iff by auto
qed

lemma plan_path_dependencies:
  assumes "(plan_move p)\<^sup>*\<^sup>* a b" and "check_step_graph [] (steps p)" and "dependencies_done p a"
  shows "dependencies_done p b"
  using assms(1,3) by (induction rule: rtranclp_induct) (auto intro: plan_move_dependencies [OF _ assms(2)])

text \<open>C9: what an execution adds to the journal is a path of the abstract machine of the plan, which
  ends with no step running; so steps only run after the steps before them are done, and the
  dependencies of every step done are done.\<close>

theorem execution_refines_plan:
  assumes "plan task = Some p" and "plan_valid p"
    and "running_step (progress_of (initial_journal task)) = None"
    and "dependencies_done p (progress_of (initial_journal task))"
    and "execute_task_plan task runner m s = (Inr t', s')"
  shows "\<exists>j. journal t' = Some j
     \<and> (plan_move p)\<^sup>*\<^sup>* (progress_of (initial_journal task)) (progress_of j)
     \<and> running_step (progress_of j) = None \<and> dependencies_done p (progress_of j)"
proof -
  have graph: "check_step_graph [] (steps p)" using assms(2) by (simp add: plan_valid_def plan_ok_def)
  obtain j where "journal t' = Some j" "(plan_move p)\<^sup>*\<^sup>* (progress_of (initial_journal task)) (progress_of j)"
      "running_step (progress_of j) = None"
    using execute_task_plan_result [OF assms(1,3,5)] by (auto simp: execution_result_def split: option.splits)
  then show ?thesis using plan_path_dependencies [OF _ graph assms(4)] by blast
qed

text \<open>C19: an execution that returns leaves the task prepared with every step done, waiting for the
  reason the last journal entry names, failed or monitoring with a failed step at the end of the
  journal, or ready after exactly the steps it was allowed; it only appends to the journal, and
  changes no other part of the request.\<close>

theorem execution_outcome:
  assumes "plan task = Some p" and "running_step (progress_of (initial_journal task)) = None"
    and "execute_task_plan task runner m s = (Inr t', s')"
  shows "\<exists>j. journal t' = Some j \<and> task_core t' = task_core task
     \<and> prefix (entries (initial_journal task)) (entries j) \<and> stopped_as p m (initial_journal task) j t'"
  using execute_task_plan_result [OF assms] by (auto simp: execution_result_def split: option.splits)

section \<open>A plan at work\<close>

definition demo_step :: "string \<Rightarrow> browser_action \<Rightarrow> string list \<Rightarrow> plan_step" where
  "demo_step i a deps = \<lparr>step_id = i, step_action = a, step_summary = codes ''step'', depends_on = deps,
     step_target = None, creates_charge = False, reversible = True, requested_fields = []\<rparr>"

definition demo_plan :: task_plan where
  "demo_plan = \<lparr>plan_task = 7, plan_version = 1, plan_created_at = Aware 0,
     steps = [demo_step ''a'' ReadPage [], demo_step ''b'' PrepareReview [''a'']]\<rparr>"

definition demo_task :: agent_task where
  "demo_task = \<lparr>task_id = 7, task_version = 0, instruction = codes ''buy'', target_url = ''https://a.b/'',
     person_ids = [1], task_status = Ready, control_mode = SafeAuto, inferred_kind = None, intent = None,
     waiting_reason = None, permissions = default_policy, plan = Some demo_plan, journal = None, approvals = [],
     page = None, fill_plan = None, agent_run = None, clarifications = [], task_created_at = Aware 0\<rparr>"

definition demo_runner :: "unit runner" where
  "demo_runner t s w = (Inr \<lparr>step_succeeded = True, result_reason = None, result_page = None, result_fill = None\<rparr>, w)"

definition demo_env :: "unit exec_env" where
  "demo_env = \<lparr>browser = (), id_source = (\<lambda>n. n), id_tick = 0, clock = (\<lambda>n. int n), clock_tick = 0\<rparr>"
lemmas run_eval = execute_task_plan_def initial_journal_def succeeded_ids_def evaluate_browser_action_def to_action_request_def
  run_step_def report_step_def settle_step_def stop_for_user_def append_task_journal_entry_def make_journal_entry_def journal_entry_valid_def make_journal_def
  bindE_def thenE_def require_def liftE_def ret_def read_clock_def draw_uuid_def in_browser_def tryElse_def accept_def Let_def
  allow_action_def ask_user_def start_reason_def with_consumed_def absorb_result_def fits_def

lemmas demo_eval = run_eval demo_task_def demo_plan_def demo_env_def demo_step_def default_policy_def demo_runner_def

lemma demo_runs: "\<exists>t s. execute_task_plan demo_task demo_runner None demo_env = (Inr t, s)"
  by (simp add: demo_eval)

lemma demo_plan_valid: "plan_valid demo_plan"
  by (simp add: plan_valid_def plan_ok_def demo_plan_def demo_step_def plan_step_valid_def step_slug_def
      simple_identifier_def replace_char_def is_alnum_def is_alpha_def casefold_def casefold_char_def py_strip_def
      is_space_def fits_def)

lemma demo_start: "progress_of (initial_journal demo_task) = \<lparr>done_steps = {}, running_step = None\<rparr>" "plan demo_task = Some demo_plan"
  by (simp_all add: progress_of_def initial_journal_def demo_task_def)

lemma runner_called_only_when_permitted_witness:
  "execute_task_plan demo_task demo_runner None demo_env
   = execute_task_plan demo_task (\<lambda>t s. if call_permitted demo_plan t s then demo_runner t s else raise TimeoutError) None demo_env"
  by (rule runner_called_only_when_permitted [OF demo_start(2) demo_plan_valid]) simp

lemma execution_refines_plan_witness:
  "\<exists>t' s' j. execute_task_plan demo_task demo_runner None demo_env = (Inr t', s') \<and> journal t' = Some j
     \<and> (plan_move demo_plan)\<^sup>*\<^sup>* (progress_of (initial_journal demo_task)) (progress_of j)
     \<and> running_step (progress_of j) = None \<and> dependencies_done demo_plan (progress_of j)"
proof -
  obtain t' s' where run: "execute_task_plan demo_task demo_runner None demo_env = (Inr t', s')" using demo_runs by blast
  have "dependencies_done demo_plan (progress_of (initial_journal demo_task))"
    "running_step (progress_of (initial_journal demo_task)) = None"
    by (simp_all add: demo_start dependencies_done_def list_all_iff)
  from execution_refines_plan [OF demo_start(2) demo_plan_valid this(2,1) run] run show ?thesis by blast
qed

lemma execution_outcome_witness:
  "\<exists>t' s' j. execute_task_plan demo_task demo_runner None demo_env = (Inr t', s') \<and> journal t' = Some j
     \<and> task_core t' = task_core demo_task \<and> prefix (entries (initial_journal demo_task)) (entries j)
     \<and> stopped_as demo_plan None (initial_journal demo_task) j t'"
proof -
  obtain t' s' where run: "execute_task_plan demo_task demo_runner None demo_env = (Inr t', s')" using demo_runs by blast
  have "running_step (progress_of (initial_journal demo_task)) = None" by (simp add: demo_start)
  from execution_outcome [OF demo_start(2) this run] run show ?thesis by blast
qed

end
