(* ===== verification/AgentLoopContracts.thy ===== *)
theory AgentLoopContracts
  imports AgentLoop ExecutorContracts
begin

text \<open>
  The agent loop is bounded: in the number of its steps, in how often it repeats a command, and in
  what it does after it should stop; and what it returns can be stored.
\<close>

section \<open>Repetitions\<close>

definition trailing :: "'a \<Rightarrow> 'a list \<Rightarrow> nat" where
  "trailing c xs = length (takeWhile (\<lambda>x. x = c) (rev xs))"

lemma trailing_snoc: "trailing c (xs @ [x]) = (if x = c then Suc (trailing c xs) else 0)"
  by (simp add: trailing_def)

lemma trailing_replicate: "m \<le> trailing c (xs @ replicate m c)"
  by (simp add: trailing_def takeWhile_append)

text \<open>No command occurs \<open>m\<close> times in a row.\<close>

definition no_run :: "nat \<Rightarrow> 'a list \<Rightarrow> bool" where
  "no_run m xs \<longleftrightarrow> (\<nexists>before c after. xs = before @ replicate m c @ after)"

lemma no_run_snoc:
  assumes "no_run m xs" and "\<And>c. trailing c (xs @ [x]) < m"
  shows "no_run m (xs @ [x])"
  unfolding no_run_def
proof
  assume "\<exists>before c after. xs @ [x] = before @ replicate m c @ after"
  then obtain before c after where e: "xs @ [x] = before @ replicate m c @ after" by blast
  show False
  proof (cases after rule: rev_cases)
    case Nil
    then show False using e trailing_replicate [of m c before] assms(2) [of c] by simp
  next
    case (snoc ys y)
    then have "xs = before @ replicate m c @ ys" using e by simp
    then show False using assms(1) unfolding no_run_def by blast
  qed
qed

lemma trailing_less:
  assumes "no_run m xs"
  shows "trailing c xs < m"
proof (rule ccontr)
  let ?n = "trailing c xs"
  assume "\<not> ?n < m"
  then have n: "replicate ?n c = replicate (?n - m) c @ replicate m c" by (simp flip: replicate_add)
  have "takeWhile (\<lambda>x. x = c) (rev xs) = replicate ?n c"
    unfolding trailing_def by (metis (mono_tags, lifting) replicate_eqI set_takeWhileD)
  then have "rev xs = replicate ?n c @ dropWhile (\<lambda>x. x = c) (rev xs)"
    using takeWhile_dropWhile_id [of "\<lambda>x. x = c" "rev xs"] by simp
  then have "xs = rev (dropWhile (\<lambda>x. x = c) (rev xs)) @ replicate ?n c"
    by (metis rev_append rev_replicate rev_rev_ident)
  then have "xs = (rev (dropWhile (\<lambda>x. x = c) (rev xs)) @ replicate (?n - m) c) @ replicate m c @ []"
    using n by simp
  then show False using assms unfolding no_run_def by blast
qed

section \<open>The turns of the loop\<close>

definition commands_of :: "loop_step list \<Rightarrow> browser_command list" where
  "commands_of ss = map (\<lambda>s. command (step_decision s)) ss"

text \<open>The status a run ends with after a command, if it is one to stop at: the outcome of a finish,
  and waiting when the command asks the user or its result needs one.\<close>

fun ending_of :: "browser_command \<Rightarrow> bool \<Rightarrow> loop_status option" where
  "ending_of (FinishCommand GoalReached t) asks = Some LoopCompleted"
| "ending_of (FinishCommand NoMatchFound t) asks = Some LoopNoMatch"
| "ending_of (FinishCommand ReadyForUser t) asks = Some LoopWaiting"
| "ending_of (FinishCommand NeedsUser t) asks = Some LoopWaiting"
| "ending_of (AskUserCommand q) asks = Some LoopWaiting"
| "ending_of c asks = (if asks then Some LoopWaiting else None)"

definition step_ending :: "loop_step \<Rightarrow> loop_status option" where
  "step_ending s = ending_of (command (step_decision s)) (needs_user (step_result s))"

abbreviation ends_loop :: "loop_step \<Rightarrow> bool" where
  "ends_loop s \<equiv> step_ending s \<noteq> None"

lemma ending_finish: "ending_of (FinishCommand out t) asks = Some (finish_status out)"
  by (cases out) (simp_all add: finish_status_def)

definition turn_inv :: "int \<Rightarrow> int \<Rightarrow> loop_state \<Rightarrow> bool" where
  "turn_inv limit n st \<longleftrightarrow>
     n = int (length (taken st)) + 1 \<and> renumber 1 (taken st) = taken st
     \<and> list_all (\<lambda>s. \<not> ends_loop s) (taken st)
     \<and> no_run (nat limit) (commands_of (taken st))
     \<and> 0 \<le> repeated_commands st
     \<and> (\<forall>c. int (trailing c (commands_of (taken st))) =
          (if previous_command st = Some c then repeated_commands st else 0))"

definition loop_outcome :: "int \<Rightarrow> int \<Rightarrow> loop_result \<Rightarrow> bool" where
  "loop_outcome max_steps limit r \<longleftrightarrow>
     int (length (loop_steps r)) \<le> max_steps \<and> renumber 1 (loop_steps r) = loop_steps r
     \<and> list_all (\<lambda>s. \<not> ends_loop s) (butlast (loop_steps r))
     \<and> no_run (nat limit) (commands_of (loop_steps r))
     \<and> (case loop_status r of
          LoopExhausted \<Rightarrow> int (length (loop_steps r)) = max_steps \<and> list_all (\<lambda>s. \<not> ends_loop s) (loop_steps r)
            \<and> loop_reason r = ''maximum_steps_reached''
        | LoopStalled \<Rightarrow> list_all (\<lambda>s. \<not> ends_loop s) (loop_steps r)
            \<and> (\<exists>c. int (trailing c (commands_of (loop_steps r))) = limit - 1)
            \<and> loop_reason r = ''repeated_command_limit''
        | ending \<Rightarrow> loop_steps r \<noteq> [] \<and> step_ending (last (loop_steps r)) = Some ending
            \<and> loop_reason r = command_reason (step_result (last (loop_steps r))))"

lemma renumber_append: "renumber n (xs @ ys) = renumber n xs @ renumber (n + int (length xs)) ys"
  by (induction n xs rule: renumber.induct) (simp_all add: algebra_simps)

text \<open>The locals after a command was recorded.\<close>

lemma record_command_taken:
  assumes "record_command n d meta result st = Inr st'"
  shows "taken st' = taken st @ [\<lparr>step_sequence = n, step_decision = d, step_metadata = meta, step_result = result\<rparr>]"
    and "previous_command st' = previous_command st" and "repeated_commands st' = repeated_commands st"
    and "current_snapshot st' = (case command_snapshot result of None \<Rightarrow> current_snapshot st | Some p \<Rightarrow> p)"
  using assms by (auto simp: record_command_def Let_def split: sum.splits option.splits)

lemma recorded_turn:
  assumes "turn_inv limit n st" and "record_command n d meta result (count_command (command d) st) = Inr st'"
    and "repeated_commands (count_command (command d) st) < limit"
  defines "s \<equiv> \<lparr>step_sequence = n, step_decision = d, step_metadata = meta, step_result = result\<rparr>"
  shows "taken st' = taken st @ [s]" and "renumber 1 (taken st') = taken st'"
    and "no_run (nat limit) (commands_of (taken st'))"
    and "\<not> ends_loop s \<Longrightarrow> turn_inv limit (n + 1) st'"
proof -
  let ?st = "count_command (command d) st"
  have same: "taken ?st = taken st" by (simp add: count_command_def)
  note r = record_command_taken [OF assms(2), unfolded same]
  show t: "taken st' = taken st @ [s]" using r(1) by (simp add: s_def)
  have inv: "n = int (length (taken st)) + 1" "renumber 1 (taken st) = taken st"
    "list_all (\<lambda>s. \<not> ends_loop s) (taken st)" "no_run (nat limit) (commands_of (taken st))" "0 \<le> repeated_commands st"
    "\<And>c. int (trailing c (commands_of (taken st))) = (if previous_command st = Some c then repeated_commands st else 0)"
    using assms(1) unfolding turn_inv_def by blast+
  show num: "renumber 1 (taken st') = taken st'" using inv(1,2) by (simp add: t renumber_append s_def)
  have cmds: "commands_of (taken st') = commands_of (taken st) @ [command d]" by (simp add: t commands_of_def s_def)
  have trail: "int (trailing c (commands_of (taken st'))) =
      (if previous_command st' = Some c then repeated_commands st' else 0)" for c
    unfolding cmds trailing_snoc r(2,3) using inv(6) [of c] by (simp add: count_command_def)
  have pos: "0 \<le> repeated_commands st'" using inv(5) by (simp add: r(3) count_command_def)
  have low: "trailing c (commands_of (taken st) @ [command d]) < nat limit" for c
    using trail [of c] assms(3) pos unfolding cmds r(3) by (auto split: if_splits)
  show run: "no_run (nat limit) (commands_of (taken st'))"
    unfolding cmds by (rule no_run_snoc [OF inv(4) low])
  show "turn_inv limit (n + 1) st'" if "\<not> ends_loop s"
    unfolding turn_inv_def using inv(1,3) num run trail pos that by (simp add: t)
qed

lemma wp_loop_ends:
  assumes "Q \<lparr>loop_status = ending, loop_reason = reason, loop_snapshot = current_snapshot st, loop_steps = taken st\<rparr> w"
  shows "wp (loop_ends ending reason st) Q (\<lambda>_ _. True) w"
  using assms by (simp add: loop_ends_def wp make_loop_result_def split: sum.splits)

lemma loop_turns_outcome:
  "2 \<le> limit \<Longrightarrow> turn_inv limit n st \<Longrightarrow> int (length (taken st)) + int left = max_steps \<Longrightarrow>
   wp (loop_turns chooser runtime limit approved left n st) (\<lambda>r _. loop_outcome max_steps limit r) (\<lambda>_ _. True) w"
proof (induction left arbitrary: n st w)
  case (0 n st w)
  then show ?case
    unfolding loop_turns.simps
    by (intro wp_loop_ends) (auto simp: loop_outcome_def turn_inv_def list_all_iff dest: in_set_butlastD)
next
  case (Suc left n st w)
  let ?Q = "\<lambda>r (_::'a). loop_outcome max_steps limit r"
  show ?case
    unfolding loop_turns.simps wp_bindE
  proof (rule wpI, goal_cases)
    case (1 image w1)
    show ?case
    proof (rule wpI, goal_cases)
      case (1 d w2)
      let ?st = "count_command (command d) st"
      show ?case
      proof (cases "limit \<le> repeated_commands ?st")
        case True
        have taken: "taken ?st = taken st" by (simp add: count_command_def)
        have "int (trailing (command d) (commands_of (taken st))) = limit - 1"
        proof -
          have t: "int (trailing (command d) (commands_of (taken st)))
              = (if previous_command st = Some (command d) then repeated_commands st else 0)"
            and run: "no_run (nat limit) (commands_of (taken st))" using Suc.prems(2) unfolding turn_inv_def by blast+
          then show ?thesis
            using True Suc.prems(1) trailing_less [OF run, of "command d"] by (auto simp: count_command_def split: if_splits)
        qed
        then have "\<exists>c. int (trailing c (commands_of (taken st))) = limit - 1" ..
        moreover have "renumber 1 (taken st) = taken st" "list_all (\<lambda>s. \<not> ends_loop s) (taken st)"
            "no_run (nat limit) (commands_of (taken st))" using Suc.prems(2) unfolding turn_inv_def by blast+
        ultimately show ?thesis
          unfolding Let_def if_P [OF True]
          by (intro wp_loop_ends)
            (use Suc.prems(3) taken in \<open>auto simp: loop_outcome_def list_all_iff dest: in_set_butlastD\<close>)
      next
        case False
        show ?thesis
          unfolding Let_def if_not_P [OF False] wp_bindE wp_gets wp_liftE
        proof (rule wpI, goal_cases)
          case (1 result w3)
          show ?case
          proof (cases "record_command n d (last_decision_metadata chooser w3) result ?st")
            case (Inr st')
            let ?s = "\<lparr>step_sequence = n, step_decision = d, step_metadata = last_decision_metadata chooser w3, step_result = result\<rparr>"
            note turn = recorded_turn [OF Suc.prems(2) Inr, unfolded not_le [symmetric], OF False]
            have count: "int (length (taken st')) + int left = max_steps" using Suc.prems(3) by (simp add: turn(1))
            have ended: "wp (loop_ends ending (command_reason result) st') ?Q (\<lambda>_ _. True) w3"
              if "step_ending ?s = Some ending" for ending
            proof (rule wp_loop_ends)
              have "list_all (\<lambda>s. \<not> ends_loop s) (taken st)" using Suc.prems(2) by (simp add: turn_inv_def)
              note facts = this count turn(1-3)
              have "ending \<noteq> LoopExhausted" "ending \<noteq> LoopStalled"
                using that by (auto simp: step_ending_def elim!: ending_of.elims split: if_splits)
              then show "loop_outcome max_steps limit \<lparr>loop_status = ending, loop_reason = command_reason result,
                  loop_snapshot = current_snapshot st', loop_steps = taken st'\<rparr>"
                using facts that by (cases ending) (simp_all add: loop_outcome_def)
            qed
            have again: "wp (loop_turns chooser runtime limit approved left (n + 1) st') ?Q (\<lambda>_ _. True) w3"
              if "\<not> ends_loop ?s"
              by (rule Suc.IH [OF Suc.prems(1) turn(4) count]) (use that in simp)
            show ?thesis
              using Inr ended again by (cases "command d") (auto simp: step_ending_def ending_finish simp del: loop_turns.simps)
          qed simp
        qed simp
      qed
    qed simp
  qed simp
qed

text \<open>C38: a run of the agent takes at most the allowed steps, numbers them from one, executes no
  command as often in a row as the repetition limit, and stops at the first step that finishes, asks
  or needs the user. Its status and reason are those of why it stopped: of the last command (its
  outcome when it is a finish, waiting otherwise) and its result, exhausted after all allowed steps,
  or stalled when the last command, executed one time less than the limit, was chosen again.\<close>

theorem agent_loop_outcome:
  assumes "run_agent_loop task chooser runtime max_steps limit approved w = (Inr r, w')"
  shows "loop_outcome max_steps limit r"
proof -
  have "wp (run_agent_loop task chooser runtime max_steps limit approved) (\<lambda>r _. loop_outcome max_steps limit r) (\<lambda>_ _. True) w"
    unfolding run_agent_loop_def wp_thenE wp_bindE wp_require wp_liftE
  proof (cases "max_steps < 1 \<or> limit < 2")
    case False
    have "turn_inv limit 1 \<lparr>loop_task = t, current_snapshot = p, observations = os, taken = [],
        previous_command = None, repeated_commands = 0\<rparr>" for t p os
      using False by (auto simp: turn_inv_def commands_of_def trailing_def no_run_def)
    then have turns: "wp (loop_turns chooser runtime limit approved (nat max_steps) 1 \<lparr>loop_task = t, current_snapshot = p,
        observations = os, taken = [], previous_command = None, repeated_commands = 0\<rparr>)
        (\<lambda>r _. loop_outcome max_steps limit r) (\<lambda>_ _. True) w" for t p os w
      by (rule loop_turns_outcome [rotated]) (use False in simp_all)
    show "if \<not> max_steps < 1 then if \<not> limit < 2 then wp (observe runtime task) (\<lambda>p s. case previous_observations task of
          Inl e \<Rightarrow> True | Inr os \<Rightarrow> wp (loop_turns chooser runtime limit approved (nat max_steps) 1
            \<lparr>loop_task = task\<lparr>page := Some p\<rparr>, current_snapshot = p, observations = os, taken = [],
             previous_command = None, repeated_commands = 0\<rparr>) (\<lambda>r _. loop_outcome max_steps limit r) (\<lambda>_ _. True) s)
          (\<lambda>_ _. True) w else True else True"
      by (auto intro!: wpI turns split: sum.splits simp del: loop_turns.simps)
  qed auto
  from wp_result [where Q = "\<lambda>r _. loop_outcome max_steps limit r", OF this assms] show ?thesis .
qed

definition blank_page :: page_snapshot where
  "blank_page = \<lparr>snapshot_url = ''https://a.b/'', snapshot_title = codes ''Shop'', captured_at = Aware 0, controls = [],
     visible_text = []\<rparr>"

definition finishing_provider :: "unit decision_provider" where
  "finishing_provider = \<lparr>decide = (\<lambda>t os image. ret \<lparr>command = FinishCommand GoalReached (codes ''ok''),
     rationale = codes ''ok'', expected_result = codes ''ok''\<rparr>), last_decision_metadata = (\<lambda>w. None)\<rparr>"

definition quiet_runtime :: "unit agent_runtime" where
  "quiet_runtime = \<lparr>observe = (\<lambda>t. ret blank_page), execute_command = (\<lambda>t d a. ret \<lparr>command_succeeded = True,
     command_reason = ''finished'', command_snapshot = None, needs_user = False\<rparr>), capture_visual = None\<rparr>"

lemma agent_loop_outcome_witness:
  "\<exists>r. run_agent_loop demo_task finishing_provider quiet_runtime 3 2 False () = (Inr r, ()) \<and> loop_outcome 3 2 r
     \<and> loop_status r = LoopCompleted \<and> length (loop_steps r) = 1"
proof -
  have "\<exists>r. run_agent_loop demo_task finishing_provider quiet_runtime 3 2 False () = (Inr r, ())
      \<and> loop_status r = LoopCompleted \<and> length (loop_steps r) = 1"
    by (simp add: run_agent_loop_def thenE_def bindE_def require_def ret_def liftE_def gets_def quiet_runtime_def
        previous_observations_def demo_task_def finishing_provider_def capture_visual_context_def count_command_def
        record_command_def observe_action_def observation_ok_def accept_def fits_def loop_ends_def make_loop_result_def
        reason_code_ok_def is_lower_def finish_status_def numeral_3_eq_3 Let_def)
  then obtain r where r: "run_agent_loop demo_task finishing_provider quiet_runtime 3 2 False () = (Inr r, ())"
      "loop_status r = LoopCompleted" "length (loop_steps r) = 1" by (elim exE conjE)
  from r agent_loop_outcome [OF r(1)] show ?thesis by blast
qed

end
