(* ===== verification/TaskValidity.thy ===== *)
theory TaskValidity
  imports TaskApi AgentLoopContracts
begin

text \<open>
  Every endpoint stores tasks that can be read back: validity of the stored tasks (\<open>agent_task_valid\<close>)
  is preserved, by planning, mapping, approving, executing, clarifying and every change of status.
\<close>

section \<open>Execution of a plan\<close>

text \<open>What an execution must keep, whatever the status.\<close>

definition parts_valid :: "agent_task \<Rightarrow> bool" where
  "parts_valid t \<longleftrightarrow> request_fields_ok t \<and> work_fields_ok t \<and> artifacts_ok t"

lemma agent_task_valid_parts: "agent_task_valid t \<longleftrightarrow> parts_valid t \<and> waiting_ok t"
  by (auto simp: agent_task_valid_def parts_valid_def)

lemma parts_valid_status [simp]:
  "parts_valid (t\<lparr>task_status := x\<rparr>) = parts_valid t" "parts_valid (t\<lparr>waiting_reason := w\<rparr>) = parts_valid t"
  by (simp_all add: parts_valid_def request_fields_ok_def work_fields_ok_def artifacts_ok_def plan_step_ids_def cong: option.case_cong)

text \<open>What the runner's results must satisfy: the constructor of \<open>BrowserStepResult\<close> and its parts,
  and a fill plan for the page that is then current.\<close>

definition result_fits :: "agent_task \<Rightarrow> step_result \<Rightarrow> bool" where
  "result_fits t r \<longleftrightarrow>
     opt_all page_snapshot_valid (result_page r) \<and> opt_all fill_plan_valid (result_fill r)
     \<and> (case result_fill r of
          None \<Rightarrow> True
        | Some f \<Rightarrow> map_option snapshot_url (case result_page r of None \<Rightarrow> page t | Some p \<Rightarrow> Some p) = Some (fill_url f))"

definition runner_sound :: "'w runner \<Rightarrow> bool" where
  "runner_sound runner \<longleftrightarrow> (\<forall>t s w. case fst (runner t s w) of Inl _ \<Rightarrow> True | Inr r \<Rightarrow> result_fits t r)"

lemma parts_valid_page:
  assumes "parts_valid t" and "page_snapshot_valid p"
  shows "parts_valid (t\<lparr>page := Some p, fill_plan := None\<rparr>)"
  using assms by (simp add: parts_valid_def request_fields_ok_def work_fields_ok_def artifacts_ok_def plan_step_ids_def cong: option.case_cong)

lemma parts_valid_fill:
  assumes "parts_valid t" and "fill_plan_valid f" and "page t = Some p" and "fill_url f = snapshot_url p"
  shows "parts_valid (t\<lparr>fill_plan := Some f\<rparr>)"
  using assms by (simp add: parts_valid_def request_fields_ok_def work_fields_ok_def artifacts_ok_def plan_step_ids_def cong: option.case_cong)

lemma parts_valid_absorb:
  assumes "parts_valid t" and "result_fits t r"
  shows "parts_valid (absorb_result r t)"
proof (cases "result_page r")
  case None
  show ?thesis
  proof (cases "result_fill r")
    case (Some f)
    then obtain p where "page t = Some p" "fill_url f = snapshot_url p" "fill_plan_valid f"
      using assms(2) None by (auto simp: result_fits_def)
    then show ?thesis using parts_valid_fill [OF assms(1)] None Some by (simp add: absorb_result_def)
  qed (use assms(1) None in \<open>simp add: absorb_result_def\<close>)
next
  case (Some p)
  then have t1: "parts_valid (t\<lparr>page := Some p, fill_plan := None\<rparr>)"
    using parts_valid_page [OF assms(1)] assms(2) by (simp add: result_fits_def)
  show ?thesis
  proof (cases "result_fill r")
    case (Some f)
    then have "fill_plan_valid f" "fill_url f = snapshot_url p"
      using assms(2) \<open>result_page r = Some p\<close> by (auto simp: result_fits_def)
    then show ?thesis
      using parts_valid_fill [OF t1, of f p] Some \<open>result_page r = Some p\<close> by (simp add: absorb_result_def)
  qed (use t1 \<open>result_page r = Some p\<close> in \<open>simp add: absorb_result_def\<close>)
qed

text \<open>Journals.\<close>

lemma journal_valid_with:
  assumes "journal_valid j" and "appended j p sid out t reason e"
  shows "journal_valid (journal_with j e)"
  using assms by (simp add: journal_valid_def appended_def)

lemma parts_valid_journal:
  assumes "parts_valid t" and "journal t = Some j" and "appended j p sid out time reason e"
  shows "parts_valid (t\<lparr>journal := Some (journal_with j e)\<rparr>)"
  using assms journal_valid_with [OF _ assms(3)]
  by (simp add: parts_valid_def request_fields_ok_def work_fields_ok_def artifacts_ok_def plan_step_ids_def cong: option.case_cong)

text \<open>Consuming an approval.\<close>

lemma consume_is_map:
  assumes "distinct (map approval_id as)" and "a \<in> set as"
  shows "consume_approval a t as = map (\<lambda>b. if approval_id b = approval_id a then b\<lparr>consumed_at := Some t\<rparr> else b) as"
proof -
  have "b = a" if "b \<in> set as" "approval_id b = approval_id a" for b
    using assms that by (simp add: distinct_map inj_on_def)
  then show ?thesis unfolding consume_approval_def by (intro map_cong) auto
qed

lemma check_consumed:
  assumes "check_approvals v ids [] [] as" and "a \<in> set as"
  shows "check_approvals v ids [] [] (consume_approval a t as)"
proof -
  have c: "distinct (map approval_id as)" "list_all (approval_fits v ids) as" "distinct (active_steps as)"
    using assms(1) unfolding check_approvals_spec by simp_all
  let ?f = "\<lambda>b. if approval_id b = approval_id a then b\<lparr>consumed_at := Some t\<rparr> else b"
  have m: "consume_approval a t as = map ?f as" by (rule consume_is_map [OF c(1) assms(2)])
  have ids: "map approval_id (map ?f as) = map approval_id as" by (simp add: comp_def if_distrib)
  have fits: "list_all (approval_fits v ids) (map ?f as)"
    using c(2) unfolding list_all_iff by (auto simp: approval_fits_def)
  have "active_steps (map ?f as) = map approved_step (filter (\<lambda>b. approval_id b \<noteq> approval_id a) (filter (\<lambda>b. consumed_at b = None) as))"
    unfolding active_steps_def by (induction as) simp_all
  then have "distinct (active_steps (map ?f as))"
    using c(3) unfolding active_steps_def by (simp add: distinct_map_filter del: filter_filter)
  then show ?thesis unfolding m check_approvals_spec ids using c(1) fits by simp
qed

definition approvals_before :: "time \<Rightarrow> agent_task \<Rightarrow> bool" where
  "approvals_before now t \<longleftrightarrow> list_all (\<lambda>a. instant (approved_at a) \<le> now) (approvals t)"

lemma parts_valid_consume:
  assumes "parts_valid t" and "a \<in> set (approvals t)" and "approvals_before now t"
  shows "parts_valid (t\<lparr>approvals := consume_approval a (Aware now) (approvals t)\<rparr>)"
    and "approvals_before n t \<Longrightarrow> approvals_before n (t\<lparr>approvals := consume_approval a (Aware now) (approvals t)\<rparr>)"
proof -
  let ?as = "consume_approval a (Aware now) (approvals t)"
  have valid: "list_all approval_valid (approvals t)" "check_approvals (map_option plan_version (plan t)) (plan_step_ids t) [] [] (approvals t)"
    using assms(1) by (simp_all add: parts_valid_def work_fields_ok_def artifacts_ok_def)
  have "approval_valid (a\<lparr>consumed_at := Some (Aware now)\<rparr>)"
    using valid(1) assms(2,3) by (simp add: list_all_iff approval_valid_def approvals_before_def)
  then have "list_all approval_valid ?as" using valid(1) by (auto simp: consume_approval_def list_all_iff)
  moreover have "check_approvals (map_option plan_version (plan t)) (plan_step_ids t) [] [] ?as"
    by (rule check_consumed [OF valid(2) assms(2)])
  moreover have "?as = [] \<longleftrightarrow> approvals t = []" by (simp add: consume_approval_def)
  ultimately show "parts_valid (t\<lparr>approvals := ?as\<rparr>)"
    using assms(1) by (simp add: parts_valid_def request_fields_ok_def work_fields_ok_def artifacts_ok_def plan_step_ids_def cong: option.case_cong)
  show "approvals_before n (t\<lparr>approvals := ?as\<rparr>)" if "approvals_before n t"
    using that assms(2) by (auto simp: approvals_before_def consume_approval_def list_all_iff)
qed

text \<open>The loop of the executor with an invariant on the journal and the task.\<close>

lemma execute_steps_keeps:
  fixes runner :: "'w runner" and s :: "('w, 'z) exec_env_scheme"
  assumes step: "\<And>j t step d approval i j' t' result.
      \<lbrakk>I j t; approval = find (usable_approval (plan_version p) (step_id step) (decision_reason d)) (approvals t);
       i \<ge> n0; stepped runner p step d approval j t (c i) j' t' result\<rbrakk> \<Longrightarrow> I j' t'"
    and entry: "\<And>j t (step :: plan_step) out time reason e.
      \<lbrakk>I j t; appended j p (step_id step) out time reason e\<rbrakk> \<Longrightarrow> R (t\<lparr>journal := Some (journal_with j e)\<rparr>)"
    and finish: "\<And>j t. I j t \<Longrightarrow> R t"
    and status: "\<And>t x. R t \<Longrightarrow> R (t\<lparr>task_status := x\<rparr>)" and reason: "\<And>t x. R t \<Longrightarrow> R (t\<lparr>waiting_reason := x\<rparr>)"
  shows "I j t \<Longrightarrow> clock s = c \<Longrightarrow> n0 \<le> clock_tick s \<Longrightarrow>
    wp (execute_steps runner p m rest succeeded n j t) (\<lambda>t' _. R t') (\<lambda>_ _. True) s"
proof (induction rest arbitrary: succeeded n j t s)
  case (Nil succeeded n j t s)
  then show ?case by (simp add: wp finish status)
next
  case (Cons step rest succeeded n j t s)
  show ?case
  proof (cases "step_id step \<in> set succeeded")
    case True
    show ?thesis unfolding execute_steps.simps if_P [OF True] by (rule Cons.IH [OF Cons.prems])
  next
    case new: False
    show ?thesis
    proof (cases "evaluate_browser_action t (to_action_request step)")
      case (Inl e)
      then show ?thesis using new by (simp add: wp_bindE wp_liftE)
    next
      case (Inr d)
      let ?a = "find (usable_approval (plan_version p) (step_id step) (decision_reason d)) (approvals t)"
      let ?go = "settle_step m (n + 1) (\<lambda>j' t'. execute_steps runner p m rest (step_id step # succeeded) (n + 1) j' t')"
      have run: "wp (bindE (run_step runner p step d ?a j t) ?go) (\<lambda>t' _. R t') (\<lambda>_ _. True) s"
        unfolding wp_bindE
      proof (rule run_step_wp)
        fix j' t' result and s' :: "('w, 'z) exec_env_scheme"
        assume st: "stepped runner p step d ?a j t (clock s (clock_tick s)) j' t' result"
          and s': "clock s' = clock s" "clock_tick s \<le> clock_tick s'"
        have inv: "I j' t'" using step [OF Cons.prems(1) refl Cons.prems(3)] st Cons.prems(2) by blast
        have "wp (execute_steps runner p m rest (step_id step # succeeded) (n + 1) j' t') (\<lambda>t' _. R t') (\<lambda>_ _. True) s'"
          by (rule Cons.IH [OF inv]) (use s' Cons.prems in simp_all)
        then show "wp (?go (j', t', result)) (\<lambda>t' _. R t') (\<lambda>_ _. True) s'"
          using finish [OF inv] by (simp add: settle_step_def wp_ret status del: execute_steps.simps)
      qed
      have user: "wp (stop_for_user p step d j t) (\<lambda>t' _. R t') (\<lambda>_ _. True) s"
        unfolding stop_for_user_def wp_bindE wp_read_clock
      proof (rule append_wp)
        fix e and s' :: "('w, 'z) exec_env_scheme"
        assume "appended j p (step_id step) Blocked (Aware (clock s (clock_tick s))) (Some (decision_reason d)) e"
        then have "R (t\<lparr>journal := Some (journal_with j e)\<rparr>)" by (rule entry [OF Cons.prems(1)])
        then have "R (t\<lparr>journal := Some (journal_with j e)\<rparr>\<lparr>waiting_reason := w\<rparr>\<lparr>task_status := WaitingForUser\<rparr>)" for w
          by (intro status reason)
        moreover have "t\<lparr>journal := Some (journal_with j e)\<rparr>\<lparr>waiting_reason := w\<rparr>\<lparr>task_status := WaitingForUser\<rparr>
            = t\<lparr>task_status := WaitingForUser, waiting_reason := w, journal := Some (journal_with j e)\<rparr>" for w by simp
        ultimately have "R (t\<lparr>task_status := WaitingForUser, waiting_reason := w, journal := Some (journal_with j e)\<rparr>)" for w
          by (simp only:)
        then show "wp (liftE (reason_of_value (decision_reason d))) (\<lambda>x. wp (ret (t\<lparr>task_status := WaitingForUser,
            waiting_reason := Some x, journal := Some (journal_with j e)\<rparr>)) (\<lambda>t' _. R t') (\<lambda>_ _. True)) (\<lambda>_ _. True) s'"
          by (simp add: wp split: sum.splits)
      qed simp
      have denied: "wp (stop_denied p step d j t) (\<lambda>t' _. R t') (\<lambda>_ _. True) s"
        unfolding stop_denied_def wp_bindE wp_read_clock
      proof (rule append_wp)
        fix e and s' :: "('w, 'z) exec_env_scheme"
        assume "appended j p (step_id step) FailedStep (Aware (clock s (clock_tick s))) (Some (decision_reason d)) e"
        then have "R (t\<lparr>journal := Some (journal_with j e)\<rparr>\<lparr>task_status := FailedTask\<rparr>)"
          by (intro status entry [OF Cons.prems(1)])
        moreover have "t\<lparr>journal := Some (journal_with j e)\<rparr>\<lparr>task_status := FailedTask\<rparr>
            = t\<lparr>task_status := FailedTask, journal := Some (journal_with j e)\<rparr>" by simp
        ultimately have "R (t\<lparr>task_status := FailedTask, journal := Some (journal_with j e)\<rparr>)" by (simp only:)
        then show "wp (ret (t\<lparr>task_status := FailedTask, journal := Some (journal_with j e)\<rparr>)) (\<lambda>t' _. R t') (\<lambda>_ _. True) s'"
          by (simp add: wp)
      qed simp
      show ?thesis
        unfolding execute_steps.simps if_not_P [OF new] wp_bindE [of "liftE _"] wp_liftE Inr sum.case Let_def wp_if
        using run user denied by (simp only: if_cancel split: if_split)
    qed
  qed
qed

text \<open>The execution of a plan keeps the task valid.\<close>

definition exec_parts :: "time \<Rightarrow> task_journal \<Rightarrow> agent_task \<Rightarrow> bool" where
  "exec_parts bound j t \<longleftrightarrow> parts_valid t \<and> journal t = Some j \<and> approvals_before bound t"

lemma stepped_valid:
  assumes "runner_sound runner" and "exec_parts bound j t" and "bound \<le> now"
    and "approval = find (usable_approval (plan_version p) (step_id step) (decision_reason d)) (approvals t)"
    and "stepped runner p step d approval j t now j' t' result"
  shows "exec_parts bound j' t'"
proof -
  obtain e1 e2 t1 ts where e: "appended j p (step_id step) Started (Aware now) (Some (start_reason d approval)) e1"
      "appended (journal_with j e1) p (step_id step) (if step_succeeded result then Succeeded else FailedStep)
         ts (result_reason result) e2"
    and j': "j' = journal_with (journal_with j e1) e2"
    and t1: "t1 = (with_consumed approval (Aware now) t)\<lparr>journal := Some (journal_with j e1)\<rparr>"
    and r: "(\<exists>w. fst (runner t1 step w) = Inr result) \<or> result = browser_step_exception"
    and t': "t' = absorb_result result (t1\<lparr>journal := Some j'\<rparr>)"
    using assms(5) unfolding stepped_def by blast
  have v: "parts_valid t" "journal t = Some j" "approvals_before bound t" using assms(2) by (simp_all add: exec_parts_def)
  have late: "approvals_before now t" using v(3) assms(3) by (auto simp: approvals_before_def list_all_iff)
  have c: "parts_valid (with_consumed approval (Aware now) t) \<and> approvals_before bound (with_consumed approval (Aware now) t)"
  proof (cases approval)
    case (Some a)
    have "a \<in> set (approvals t)" using assms(4) Some find_in by metis
    then show ?thesis using parts_valid_consume [OF v(1) _ late] v(3) Some by (simp add: with_consumed_def)
  qed (use v in \<open>simp add: with_consumed_def\<close>)
  have t1': "parts_valid t1" unfolding t1 by (rule parts_valid_journal [OF _ _ e(1)]) (use c v(2) in simp_all)
  then have t2: "parts_valid (t1\<lparr>journal := Some j'\<rparr>)"
    unfolding j' by (rule parts_valid_journal [OF _ _ e(2)]) (simp add: t1)
  have "result_fits t1 result"
    using r assms(1) by (auto simp: runner_sound_def browser_step_exception_def result_fits_def split: sum.splits)
  then have "result_fits (t1\<lparr>journal := Some j'\<rparr>) result" by (simp add: result_fits_def cong: option.case_cong)
  then have "parts_valid t'" unfolding t' by (rule parts_valid_absorb [OF t2])
  moreover have "approvals t' = approvals (with_consumed approval (Aware now) t)" by (simp add: t' t1)
  ultimately show ?thesis using c by (simp add: exec_parts_def approvals_before_def t')
qed

lemma execute_task_plan_parts:
  fixes s :: "('w, 'z) exec_env_scheme"
  assumes "runner_sound runner" and "parts_valid t"
    and "\<And>i. clock_tick s \<le> i \<Longrightarrow> approvals_before (clock s i) t"
  shows "wp (execute_task_plan t runner m) (\<lambda>t' _. parts_valid t') (\<lambda>_ _. True) s"
proof (cases "plan t")
  case None
  then show ?thesis by (simp add: execute_task_plan_def wp)
next
  case (Some p)
  let ?j = "initial_journal t"
  let ?t = "t\<lparr>task_status := RunningTask, waiting_reason := None, journal := Some ?j\<rparr>"
  have "parts_valid (t\<lparr>journal := Some ?j\<rparr>)"
  proof (cases "journal t")
    case None
    then show ?thesis
      using assms(2) Some by (simp add: parts_valid_def request_fields_ok_def work_fields_ok_def artifacts_ok_def
          plan_step_ids_def initial_journal_def journal_valid_def cong: option.case_cong)
  next
    case (Some j)
    then have "t\<lparr>journal := Some ?j\<rparr> = t" by (simp add: initial_journal_def)
    then show ?thesis using assms(2) by simp
  qed
  then have "parts_valid (t\<lparr>journal := Some ?j\<rparr>\<lparr>waiting_reason := None\<rparr>\<lparr>task_status := RunningTask\<rparr>)" by (simp only: parts_valid_status)
  moreover have "t\<lparr>journal := Some ?j\<rparr>\<lparr>waiting_reason := None\<rparr>\<lparr>task_status := RunningTask\<rparr> = ?t" by simp
  ultimately have "parts_valid ?t" by (simp only:)
  moreover have "journal ?t = Some ?j \<and> (\<forall>i \<ge> clock_tick s. approvals_before (clock s i) ?t)"
    using assms(3) by (simp add: approvals_before_def)
  ultimately have start: "parts_valid ?t \<and> journal ?t = Some ?j \<and> (\<forall>i \<ge> clock_tick s. approvals_before (clock s i) ?t)"
    by blast
  have run: "wp (execute_steps runner p m (steps p) (succeeded_ids ?j) 0 ?j ?t) (\<lambda>t' _. parts_valid t') (\<lambda>_ _. True) s"
  proof (rule execute_steps_keeps [where R = parts_valid and I = "\<lambda>j t. parts_valid t \<and> journal t = Some j \<and> (\<forall>i \<ge> clock_tick s. approvals_before (clock s i) t)"
        and c = "clock s" and ?n0.0 = "clock_tick s"])
    fix j t step d approval i j' t' result
    assume inv: "parts_valid t \<and> journal t = Some j \<and> (\<forall>i \<ge> clock_tick s. approvals_before (clock s i) t)"
      and a: "approval = find (usable_approval (plan_version p) (step_id step) (decision_reason d)) (approvals t)"
      and i: "clock_tick s \<le> i" and st: "stepped runner p step d approval j t (clock s i) j' t' result"
    have "exec_parts (clock s i) j' t'"
      by (rule stepped_valid [OF assms(1) _ order_refl a st]) (use inv i in \<open>simp add: exec_parts_def\<close>)
    moreover have "approvals_before (clock s k) t'" if k: "clock_tick s \<le> k" for k
    proof -
      have "approvals t' = approvals (with_consumed approval (Aware (clock s i)) t)"
        using st unfolding stepped_def by auto
      moreover have "approvals_before (clock s k) (with_consumed approval (Aware (clock s i)) t)"
      proof (cases approval)
        case None
        then show ?thesis using inv k by (simp add: with_consumed_def)
      next
        case (Some b)
        have "b \<in> set (approvals t)" using a Some find_in by metis
        then show ?thesis
          using parts_valid_consume(2) [of t b "clock s i" "clock s k"] inv i k Some by (simp add: with_consumed_def)
      qed
      ultimately show ?thesis by (simp add: approvals_before_def)
    qed
    ultimately show "parts_valid t' \<and> journal t' = Some j' \<and> (\<forall>i \<ge> clock_tick s. approvals_before (clock s i) t')"
      by (simp add: exec_parts_def)
  qed (use start parts_valid_journal in simp_all)
  show ?thesis
  proof (cases "task_status t \<notin> {Ready, RunningTask}")
    case True
    show ?thesis unfolding execute_task_plan_def Some option.case Let_def if_P [OF True] wp_raise by simp
  next
    case False
    show ?thesis unfolding execute_task_plan_def Some option.case Let_def if_not_P [OF False] by (rule run)
  qed
qed

text \<open>The entries of the journal name steps of the plan.\<close>

definition covered :: "task_plan \<Rightarrow> agent_task \<Rightarrow> bool" where
  "covered p t \<longleftrightarrow> plan t = Some p \<and> entry_step ` set (entries (initial_journal t)) \<subseteq> step_id ` set (steps p)"

lemma covered_at:
  "journal t = Some j \<Longrightarrow> covered p t \<longleftrightarrow> plan t = Some p \<and> entry_step ` set (entries j) \<subseteq> step_id ` set (steps p)"
  by (simp add: covered_def initial_journal_def)

lemma covered_with:
  assumes "covered p t" and "journal t = Some j" and "appended j p sid out time reason e"
  shows "covered p (t\<lparr>journal := Some (journal_with j e)\<rparr>)"
  using assms by (auto simp: covered_def initial_journal_def appended_def)

lemma execute_task_plan_covered:
  fixes s :: "('w, 'z) exec_env_scheme"
  assumes "covered p t"
  shows "wp (execute_task_plan t runner m) (\<lambda>t' _. covered p t') (\<lambda>_ _. True) s"
proof -
  have p: "plan t = Some p" using assms by (simp add: covered_def)
  let ?j = "initial_journal t"
  let ?t = "t\<lparr>task_status := RunningTask, waiting_reason := None, journal := Some ?j\<rparr>"
  have start: "covered p ?t \<and> journal ?t = Some ?j" using assms by (simp add: covered_def initial_journal_def)
  have run: "wp (execute_steps runner p m (steps p) (succeeded_ids ?j) 0 ?j ?t) (\<lambda>t' _. covered p t') (\<lambda>_ _. True) s"
  proof (rule execute_steps_keeps [where R = "covered p" and I = "\<lambda>j t. covered p t \<and> journal t = Some j"
        and c = "clock s" and ?n0.0 = "clock_tick s"])
    fix j t step d approval i j' t' result
    assume inv: "covered p t \<and> journal t = Some j" and st: "stepped runner p step d approval j t (clock s i) j' t' result"
    obtain e1 e2 t1 ts where e: "appended j p (step_id step) Started (Aware (clock s i)) (Some (start_reason d approval)) e1"
        "appended (journal_with j e1) p (step_id step) (if step_succeeded result then Succeeded else FailedStep) ts (result_reason result) e2"
      and j': "j' = journal_with (journal_with j e1) e2"
      using st unfolding stepped_def by blast
    have "plan t = Some p" using inv by (simp add: covered_def)
    then have "plan t' = Some p" "journal t' = Some j'"
      using stepped_facts(2) [OF st] task_core_fields(4) [OF stepped_facts(1) [OF st]] by simp_all
    moreover have "entries j' = entries j @ [e1, e2]" "entry_step e1 = step_id step" "entry_step e2 = step_id step"
      "step_id step \<in> set (map step_id (steps p))"
      using e by (simp_all add: j' appended_def)
    ultimately show "covered p t' \<and> journal t' = Some j'"
      using covered_at [of t j p] covered_at [of t' j' p] inv by simp
  next
    fix j t step out time reason e
    assume "covered p t \<and> journal t = Some j" and "appended j p (step_id (step :: plan_step)) out time reason e"
    then show "covered p (t\<lparr>journal := Some (journal_with j e)\<rparr>)" using covered_with by blast
  next
    fix t x y
    assume "covered p t"
    then show "covered p (t\<lparr>task_status := x\<rparr>)" "covered p (t\<lparr>waiting_reason := y\<rparr>)"
      by (simp_all add: covered_def initial_journal_def cong: option.case_cong)
  qed (use start in simp_all)
  show ?thesis
  proof (cases "task_status t \<notin> {Ready, RunningTask}")
    case True
    show ?thesis unfolding execute_task_plan_def p option.case Let_def if_P [OF True] wp_raise by simp
  next
    case False
    show ?thesis unfolding execute_task_plan_def p option.case Let_def if_not_P [OF False] by (rule run)
  qed
qed

section \<open>Runs of the agent\<close>

text \<open>The provider and the runtime return values their constructors accept.\<close>

definition agents_sound :: "'w decision_provider \<Rightarrow> 'w agent_runtime \<Rightarrow> bool" where
  "agents_sound chooser runtime \<longleftrightarrow>
     (\<forall>t w p. fst (observe runtime t w) = Inr p \<longrightarrow> page_snapshot_valid p)
     \<and> (\<forall>t os im w d. fst (decide chooser t os im w) = Inr d \<longrightarrow> decision_valid d)
     \<and> (\<forall>t d a w r. fst (execute_command runtime t d a w) = Inr r \<longrightarrow> command_result_valid r)
     \<and> (\<forall>w. opt_all metadata_valid (last_decision_metadata chooser w))"

definition turn_valid :: "int \<Rightarrow> loop_state \<Rightarrow> bool" where
  "turn_valid n st \<longleftrightarrow> 1 \<le> n \<and> page_snapshot_valid (current_snapshot st) \<and> list_all loop_step_valid (taken st)"

lemma loop_ends_valid: "turn_valid n st \<Longrightarrow> wp (loop_ends ending reason st) (\<lambda>r _. loop_result_valid r) (\<lambda>_ _. True) w"
  by (simp add: loop_ends_def wp make_loop_result_def accept_def loop_result_valid_def turn_valid_def)

lemma loop_turns_valid:
  assumes "agents_sound chooser runtime"
  shows "turn_valid n st \<Longrightarrow> wp (loop_turns chooser runtime limit approved left n st) (\<lambda>r _. loop_result_valid r) (\<lambda>_ _. True) w"
proof (induction left arbitrary: n st w)
  case (0 n st w)
  then show ?case unfolding loop_turns.simps by (rule loop_ends_valid)
next
  case (Suc left n st w)
  show ?case
    unfolding loop_turns.simps wp_bindE
  proof (rule wpI, goal_cases)
    case (1 image w1)
    show ?case
    proof (rule wpI, goal_cases)
      case (1 d w2)
      then have d: "decision_valid d" using assms unfolding agents_sound_def by (metis fst_conv)
      let ?st = "count_command (command d) st"
      have st: "turn_valid n ?st" using Suc.prems by (simp add: turn_valid_def count_command_def)
      show ?case
      proof (cases "limit \<le> repeated_commands ?st")
        case True
        show ?thesis unfolding Let_def if_P [OF True] by (rule loop_ends_valid [OF st])
      next
        case False
        show ?thesis
          unfolding Let_def if_not_P [OF False] wp_bindE wp_gets wp_liftE
        proof (rule wpI, goal_cases)
          case (1 result w3)
          then have r: "command_result_valid result" using assms unfolding agents_sound_def by (metis fst_conv)
          show ?case
          proof (cases "record_command n d (last_decision_metadata chooser w3) result ?st")
            case (Inr st')
            have "opt_all metadata_valid (last_decision_metadata chooser w3)" using assms unfolding agents_sound_def by blast
            then have st': "turn_valid (n + 1) st'"
              using record_command_taken [OF Inr] st d r
              by (auto simp: turn_valid_def loop_step_valid_def command_result_valid_def snapshot_option_valid_def opt_all_def
                  split: option.splits)
            show ?thesis
              unfolding Inr sum.case
              by (auto intro: loop_ends_valid [OF st'] Suc.IH [OF st'] simp: wp simp del: loop_turns.simps split: browser_command.split)
          qed simp
        qed simp
      qed
    qed simp
  qed simp
qed

lemma agent_loop_valid:
  assumes "agents_sound chooser runtime"
  shows "wp (run_agent_loop t chooser runtime n limit approved) (\<lambda>r _. loop_result_valid r) (\<lambda>_ _. True) w"
proof -
  have turns: "wp (loop_turns chooser runtime limit approved (nat n) 1 \<lparr>loop_task = t\<lparr>page := Some p\<rparr>, current_snapshot = p,
      observations = os, taken = [], previous_command = None, repeated_commands = 0\<rparr>) (\<lambda>r _. loop_result_valid r) (\<lambda>_ _. True) w'"
    if "page_snapshot_valid p" for p os w'
    by (rule loop_turns_valid [OF assms]) (use that in \<open>simp add: turn_valid_def\<close>)
  have page: "page_snapshot_valid p" if "observe runtime t w = (Inr p, w')" for p w'
    using assms that unfolding agents_sound_def by (metis fst_conv)
  show ?thesis
    unfolding run_agent_loop_def wp_thenE wp_bindE wp_require wp_liftE
    by (auto intro!: wpI turns page split: sum.splits simp del: loop_turns.simps)
qed

end
