(* ===== verification/TaskTypes.thy ===== *)
theory TaskTypes
  imports TaskValidity
begin

text \<open>
  The endpoints of agent tasks keep the stored tasks well typed: whatever a call does, every task in the
  repository afterwards is one its constructor accepts, so that it can be loaded again, and its plan and
  journal are such that the executor can go on with it.
\<close>

section \<open>The stored tasks\<close>

text \<open>A stored task is valid, the steps of its plan have normalised names, and its journal names only
  those steps and has none of them running.\<close>

definition plan_normal :: "agent_task \<Rightarrow> bool" where
  "plan_normal t \<longleftrightarrow>
     list_all (\<lambda>i. step_slug i = i) (plan_step_ids t)
     \<and> list_all (\<lambda>e. entry_step e \<in> set (plan_step_ids t)) (entries (initial_journal t))
     \<and> running_step (progress_of (initial_journal t)) = None"

definition stored_ok :: "agent_task \<Rightarrow> bool" where
  "stored_ok t \<longleftrightarrow> agent_task_valid t \<and> plan_normal t"

definition tasks_valid :: "'w task_env \<Rightarrow> bool" where
  "tasks_valid s \<longleftrightarrow> list_all (\<lambda>(k, t). task_id t = k \<and> stored_ok t) (task_store s)"

lemma tasks_valid_lookup: "tasks_valid s \<Longrightarrow> map_of (task_store s) k = Some t \<Longrightarrow> task_id t = k \<and> stored_ok t"
  by (auto simp: tasks_valid_def list_all_iff dest!: map_of_SomeD)

lemma tasks_valid_set:
  assumes "tasks_valid s" and "stored_ok t"
  shows "tasks_valid (s\<lparr>task_store := dict_set (task_id t) t (task_store s)\<rparr>)"
  using assms by (auto simp: tasks_valid_def list_all_iff dest!: dict_set_in)

lemmas stored_defs = stored_ok_def agent_task_valid_def request_fields_ok_def work_fields_ok_def waiting_ok_def
  artifacts_ok_def plan_normal_def plan_step_ids_def initial_journal_def

lemma stored_ok_version: "stored_ok t \<Longrightarrow> 0 \<le> v \<Longrightarrow> stored_ok (t\<lparr>task_version := v\<rparr>)"
  by (simp add: stored_defs cong: option.case_cong)

lemma stored_ok_status: "stored_ok t \<Longrightarrow> (x = WaitingForUser \<longleftrightarrow> w \<noteq> None) \<Longrightarrow> stored_ok (t\<lparr>task_status := x, waiting_reason := w\<rparr>)"
  by (simp add: stored_defs cong: option.case_cong)

lemma stored_version: "stored_ok t \<Longrightarrow> 0 \<le> task_version t"
  by (simp add: stored_defs)

section \<open>Rules for the building blocks\<close>

lemma require_task_wp:
  assumes "tasks_valid s"
    and "\<And>t. map_of (task_store s) k = Some t \<Longrightarrow> task_id t = k \<Longrightarrow> stored_ok t \<Longrightarrow> Q t s" and "\<And>e. E e s"
  shows "wp (require_task k) Q E s"
  using assms tasks_valid_lookup [OF assms(1), of k]
  by (cases "map_of (task_store s) k")
    (simp_all add: require_task_def on_tasks_def get_agent_task_def wp_def bindE_def gets_def raise_def ret_def)

lemma save_task_wp:
  assumes "tasks_valid s" and "stored_ok changed" and "0 \<le> task_version t"
  shows "wp (save_task t changed) (\<lambda>_. tasks_valid) (\<lambda>_. tasks_valid) s"
proof -
  let ?new = "changed\<lparr>task_version := task_version t + 1\<rparr>"
  have "tasks_valid (s\<lparr>task_store := dict_set (task_id ?new) ?new (task_store s)\<rparr>)"
    by (rule tasks_valid_set [OF assms(1) stored_ok_version]) (use assms(2,3) in simp_all)
  then show ?thesis
    using assms(1)
    by (simp add: save_task_def wp_def tryElse_def on_tasks_def update_agent_task_def raise_def ret_def Let_def split: option.splits)
qed

lemma save_status_wp:
  assumes "tasks_valid s" and "stored_ok t" and "x \<noteq> WaitingForUser"
  shows "wp (save_status t x) (\<lambda>_. tasks_valid) (\<lambda>_. tasks_valid) s"
  unfolding save_status_def
  by (rule save_task_wp [OF assms(1) stored_ok_status stored_version]) (use assms(2,3) in simp_all)

text \<open>What a program that stores nothing keeps: the tasks, and a clock that only runs forward.\<close>

definition at_rest :: "task_repo \<Rightarrow> (nat \<Rightarrow> time) \<Rightarrow> nat \<Rightarrow> 'w task_env \<Rightarrow> bool" where
  "at_rest d c n s \<longleftrightarrow> task_store s = d \<and> clock s = c \<and> n \<le> clock_tick s"

lemma at_rest_now: "at_rest (task_store s) (clock s) (clock_tick s) s"
  by (simp add: at_rest_def)

lemma keeps_read_clock [keeps_intro]: "keeps (at_rest d c n) read_clock"
  by (simp add: keeps_def wp_def at_rest_def read_clock_def)

lemma keeps_draw_uuid [keeps_intro]: "keeps (at_rest d c n) draw_uuid"
  by (simp add: keeps_def wp_def at_rest_def draw_uuid_def)

lemma keeps_in_browser [keeps_intro]: "keeps (at_rest d c n) (in_browser f)"
  by (simp add: keeps_def wp_def at_rest_def in_browser_def split: prod.splits sum.splits)

lemma keeps_on_people [keeps_intro]: "keeps (at_rest d c n) (on_people f)"
  by (simp add: keeps_def wp_def at_rest_def on_people_def split: prod.splits sum.splits)

lemma wp_keeps:
  "keeps I m \<Longrightarrow> I s \<Longrightarrow> (\<And>x s'. I s' \<Longrightarrow> Q x s') \<Longrightarrow> (\<And>e s'. I s' \<Longrightarrow> E e s') \<Longrightarrow> wp m Q E s"
  by (rule wp_mono [OF keeps_wp])

lemma at_rest_valid: "tasks_valid s \<Longrightarrow> at_rest (task_store s) c n s' \<Longrightarrow> tasks_valid s'"
  by (simp add: tasks_valid_def at_rest_def)

lemma quiet_people [keeps_intro]: "keeps (at_rest d c n) (load_task_people t)"
  unfolding load_task_people_def by (intro keeps_intro)

lemma quiet_missing [keeps_intro]: "keeps (at_rest d c n) (missing_people ps)"
  unfolding missing_people_def by (intro keeps_intro)

lemma quiet_append [keeps_intro]: "keeps (at_rest d c n) (append_task_journal_entry j p sid out msg t reason given)"
  unfolding append_task_journal_entry_def by (intro keeps_intro)

lemma quiet_run_step [keeps_intro]: "keeps (at_rest d c n) (run_step runner p step decision approval j current)"
  unfolding run_step_def report_step_def Let_def by (intro keeps_intro)

lemma quiet_steps: "keeps (at_rest d c n) (execute_steps runner p m rest succeeded k j current)"
proof (induction rest arbitrary: succeeded k j current)
  case (Cons step rest succeeded k j current)
  have settle: "keeps (at_rest d c n) (settle_step m (k + 1)
      (\<lambda>j' current'. execute_steps runner p m rest (step_id step # succeeded) (k + 1) j' current') x)" for x
    unfolding settle_step_def by (cases x) (auto intro!: keeps_intro Cons.IH)
  show ?case
    unfolding execute_steps.simps Let_def stop_for_user_def stop_denied_def
    by (intro keeps_intro settle Cons.IH)
qed (simp add: keeps_intro)

lemma quiet_execution [keeps_intro]: "keeps (at_rest d c n) (execute_task_plan t runner m)"
  unfolding execute_task_plan_def Let_def by (intro keeps_intro quiet_steps)

section \<open>Control\<close>

lemma pause_valid: "tasks_valid s \<Longrightarrow> wp (pause_task k) (\<lambda>_. tasks_valid) (\<lambda>_. tasks_valid) s"
  unfolding pause_task_def wp_bindE by (rule require_task_wp) (simp_all add: wp save_status_wp)

lemma resume_valid: "tasks_valid s \<Longrightarrow> wp (resume_task k) (\<lambda>_. tasks_valid) (\<lambda>_. tasks_valid) s"
  unfolding resume_task_def wp_bindE by (rule require_task_wp) (simp_all add: wp save_status_wp)

lemma cancel_valid: "tasks_valid s \<Longrightarrow> wp (cancel_task k) (\<lambda>_. tasks_valid) (\<lambda>_. tasks_valid) s"
  unfolding cancel_task_def wp_bindE by (rule require_task_wp) (simp_all add: wp save_status_wp)

section \<open>Planning\<close>

lemma planned_names: "list_all (\<lambda>i. step_slug i = i) (map step_id (planned_steps kind url))"
  by (simp add: planned_defs Let_def)

lemma inferred_kind_ok: "kind_ok (Some (infer_task_kind t))"
proof -
  have "infer_task_kind t \<in> insert ''generic_purchase'' (fst ` set kind_markers)"
    by (auto simp: infer_task_kind_def split: option.splits dest!: find_in intro!: rev_image_eqI)
  then show ?thesis
    by (auto simp: kind_markers_def kind_ok_def kind_slug_def simple_identifier_def is_alnum_def is_alpha_def
        replace_char_def py_strip_def is_space_def casefold_def casefold_char_def)
qed

lemma task_kind_ok: "kind_ok (inferred_kind t) \<Longrightarrow> kind_ok (Some (task_kind t))"
  using inferred_kind_ok [of "instruction t"] by (cases "inferred_kind t") (simp_all add: task_kind_def)

text \<open>The extraction of the facts returns what the constructor of \<open>TaskIntent\<close> accepts.\<close>

definition extracts_valid :: "(utext \<Rightarrow> int \<Rightarrow> datetime \<Rightarrow> exn + task_intent) \<Rightarrow> bool" where
  "extracts_valid extract \<longleftrightarrow> (\<forall>t n now i. extract t n now = Inr i \<longrightarrow> intent_valid i)"

lemma build_task_plan_result:
  assumes "build_task_plan extract t now = Inr pv" and "length (target_url t) \<le> 2048"
  shows "steps (preview_plan pv) = map normal_step (planned_steps (task_kind t) (target_url t))"
    and "plan_task (preview_plan pv) = task_id t" and "plan_valid (preview_plan pv)"
    and "preview_kind pv = task_kind t" and "\<exists>n. extract (instruction t) n now = Inr (preview_intent pv)"
  using assms(1) planned_normal_valid [OF assms(2)]
  by (auto simp: build_task_plan_def planned_made [OF assms(2)] make_plan_def plan_valid_def split: sum.splits)

lemma planned_stored:
  assumes "stored_ok t" and "extracts_valid extract" and "build_task_plan extract t now = Inr pv"
  shows "stored_ok (planned_task pv t)"
proof -
  have u: "length (target_url t) \<le> 2048" and k: "kind_ok (inferred_kind t)" using assms(1) by (simp_all add: stored_defs)
  note r = build_task_plan_result [OF assms(3) u]
  have "intent_valid (preview_intent pv)" using r(5) assms(2) by (auto simp: extracts_valid_def)
  moreover have "list_all (\<lambda>i. step_slug i = i) (map (step_id \<circ> normal_step) (planned_steps (task_kind t) (target_url t)))"
    using planned_names [of "task_kind t" "target_url t"] by (simp add: comp_def)
  ultimately show ?thesis
    using assms(1) r(1-4) task_kind_ok [OF k]
    by (simp add: stored_defs planned_task_def progress_of_def cong: option.case_cong)
qed

lemma prepare_valid:
  assumes "tasks_valid s" and "extracts_valid extract"
  shows "wp (prepare_task_plan extract k now) (\<lambda>_. tasks_valid) (\<lambda>_. tasks_valid) s"
  unfolding prepare_task_plan_def wp_bindE
proof (rule require_task_wp [OF assms(1)])
  fix t assume t: "stored_ok t"
  have "wp (save_task t (planned_task pv t)) (\<lambda>_. tasks_valid) (\<lambda>_. tasks_valid) s"
    if "build_task_plan extract t now = Inr pv" for pv
    by (rule save_task_wp [OF assms(1) planned_stored [OF t assms(2) that] stored_version [OF t]])
  then show "wp (thenE (require (task_status t \<notin> {RunningTask, CompletedTask, CancelledTask}) (HTTPException 409 ''task_cannot_be_planned''))
      (bindE (liftE (build_task_plan extract t now)) (\<lambda>pv. thenE (save_task t (planned_task pv t))
        (ret \<lparr>response_kind = preview_kind pv, response_intent = preview_intent pv, response_plan = preview_plan pv,
          response_permissions = zip (map step_id (steps (preview_plan pv))) (preview_decisions pv)\<rparr>))))
      (\<lambda>_. tasks_valid) (\<lambda>_. tasks_valid) s"
    using assms(1) by (simp add: wp split: sum.splits)
qed (rule assms(1))

section \<open>Mapping\<close>

lemma map_control_valid:
  assumes "map_control wanted people c st = Inr st'"
    and "list_all field_binding_valid (map_bindings st) \<and> list_all intent_binding_valid (map_intents st)"
  shows "list_all field_binding_valid (map_bindings st') \<and> list_all intent_binding_valid (map_intents st')"
proof -
  have i: "list_all field_binding_valid (map_bindings st2) \<and> list_all intent_binding_valid (map_intents st2)"
    if "map_intent wanted c st1 = Inr st2" "map_bindings st1 = map_bindings st" "map_intents st1 = map_intents st" for st1 st2
    using that assms(2)
    by (auto simp: map_intent_def detect_intent_binding_def accept_def Let_def split: sum.splits option.splits if_splits)
  show ?thesis
  proof (cases "detect_profile_field c")
    case None
    then show ?thesis using i [of st st'] assms(1) by (simp add: map_control_def)
  next
    case (Some f)
    show ?thesis
    proof (cases "length (filter (\<lambda>g. g = f) (occurrences st)) < length people")
      case True
      then show ?thesis using assms Some by (auto simp: map_control_def Let_def accept_def split: if_splits)
    next
      case False
      then show ?thesis
        using i [of "st\<lparr>occurrences := f # occurrences st\<rparr>" st'] assms(1) Some by (simp add: map_control_def Let_def)
    qed
  qed
qed

lemma map_controls_valid:
  "map_controls wanted people cs st = Inr st' \<Longrightarrow>
   list_all field_binding_valid (map_bindings st) \<and> list_all intent_binding_valid (map_intents st) \<Longrightarrow>
   list_all field_binding_valid (map_bindings st') \<and> list_all intent_binding_valid (map_intents st')"
proof (induction wanted people cs st rule: map_controls.induct)
  case (2 wanted people c cs st)
  then show ?case using map_control_valid by (fastforce split: sum.splits)
qed simp

lemma build_page_fill_plan_result:
  assumes "build_page_fill_plan t identities now = Inr f"
  obtains p where "page t = Some p" and "fill_url f = snapshot_url p" and "fill_plan_valid f"
proof -
  obtain p st where p: "page t = Some p" and st: "map_controls (intent t) (person_ids t) (controls p)
        \<lparr>occurrences = [], map_bindings = [], map_intents = [], map_unmatched = []\<rparr> = Inr st"
    and f: "make_fill_plan \<lparr>fill_url = snapshot_url p, fill_created_at = now, bindings = map_bindings st,
        intent_bindings = map_intents st, unmatched_required_controls = map_unmatched st\<rparr> = Inr f"
    using assms by (auto simp: build_page_fill_plan_def split: option.splits if_splits sum.splits)
  have "list_all field_binding_valid (map_bindings st) \<and> list_all intent_binding_valid (map_intents st)"
    by (rule map_controls_valid [OF st]) simp
  then show ?thesis using that [OF p] f by (auto simp: make_fill_plan_def fill_plan_valid_def)
qed

lemma mapped_stored:
  assumes "stored_ok t" and "build_page_fill_plan t identities now = Inr f"
  shows "stored_ok (t\<lparr>fill_plan := Some f\<rparr>)"
proof -
  obtain p where "page t = Some p" "fill_url f = snapshot_url p" "fill_plan_valid f"
    by (rule build_page_fill_plan_result [OF assms(2)])
  then show ?thesis using assms(1) by (simp add: stored_defs cong: option.case_cong)
qed

lemma map_page_valid:
  fixes s :: "'w task_env"
  assumes "tasks_valid s"
  shows "wp (map_task_page k now) (\<lambda>_. tasks_valid) (\<lambda>_. tasks_valid) s"
  unfolding map_task_page_def wp_bindE
proof (rule require_task_wp [OF assms])
  fix t assume t: "stored_ok t"
  have go: "wp (load_task_people t) (\<lambda>people. wp (bindE (liftE (build_page_fill_plan t (map identity_id people) now))
      (\<lambda>f. save_task t (t\<lparr>fill_plan := Some f\<rparr>))) (\<lambda>_. tasks_valid) (\<lambda>_. tasks_valid)) (\<lambda>_. tasks_valid) s"
  proof (rule wp_keeps [OF quiet_people at_rest_now])
    fix people and s' :: "'w task_env"
    assume "at_rest (task_store s) (clock s) (clock_tick s) s'"
    then have s': "tasks_valid s'" by (rule at_rest_valid [OF assms])
    have "wp (save_task t (t\<lparr>fill_plan := Some f\<rparr>)) (\<lambda>_. tasks_valid) (\<lambda>_. tasks_valid) s'"
      if "build_page_fill_plan t (map identity_id people) now = Inr f" for f
      by (rule save_task_wp [OF s' mapped_stored [OF t that] stored_version [OF t]])
    then show "wp (bindE (liftE (build_page_fill_plan t (map identity_id people) now))
        (\<lambda>f. save_task t (t\<lparr>fill_plan := Some f\<rparr>))) (\<lambda>_. tasks_valid) (\<lambda>_. tasks_valid) s'"
      using s' by (simp add: wp split: sum.splits)
  qed (use assms at_rest_valid in blast)
  show "wp (thenE (require (page t \<noteq> None) (HTTPException 409 ''page_not_captured'')) (bindE (load_task_people t) (\<lambda>people.
      bindE (liftE (build_page_fill_plan t (map identity_id people) now)) (\<lambda>f. save_task t (t\<lparr>fill_plan := Some f\<rparr>)))))
      (\<lambda>_. tasks_valid) (\<lambda>_. tasks_valid) s"
    unfolding wp_thenE wp_require wp_bindE [of "load_task_people t"] using go assms by simp
qed (rule assms)

section \<open>Answers of the user\<close>

lemma check_approvals_snoc:
  assumes "check_approvals v ids [] [] as" and "approval_id a \<notin> set (map approval_id as)"
    and "approval_fits v ids a" and "consumed_at a = None" and "approved_step a \<notin> set (active_steps as)"
  shows "check_approvals v ids [] [] (as @ [a])"
  using assms unfolding check_approvals_spec by (auto simp: active_steps_def)

lemma reason_names: "simple_identifier (reason_slug (reason_value r))" "reason_slug (reason_value r) = reason_value r"
  "reason_value r \<noteq> []" "length (reason_value r) \<le> 100"
  by (cases r; simp add: reason_slug_def simple_identifier_def is_alnum_def is_alpha_def py_strip_def is_space_def
      casefold_def casefold_char_def)+

lemma blocked_entry_result:
  assumes "blocked_entry t wanted = Some (p, e)"
  shows "\<exists>j. plan t = Some p \<and> journal t = Some j \<and> entries j \<noteq> [] \<and> e = last (entries j)
    \<and> entry_step e \<notin> set (active_steps (approvals t))"
  using assms
  by (auto simp: blocked_entry_def active_steps_def list_ex_iff Let_def split: option.splits bool.splits if_splits)

lemma approved_stored:
  assumes "stored_ok t" and b: "blocked_entry t wanted = Some (p, e)"
    and r: "reason_of_value (the (reason_code e)) = Inr r"
    and a: "make_approval \<lparr>approval_id = i, approved_version = plan_version p, approved_step = entry_step e,
      approval_reason = reason_value r, approved_at = now, consumed_at = None\<rparr> = Inr a"
    and fresh: "i \<notin> approval_id ` set (approvals t)"
  shows "stored_ok (t\<lparr>approvals := approvals t @ [a], task_status := Ready, waiting_reason := None\<rparr>)"
proof -
  obtain j where e: "plan t = Some p" "journal t = Some j" "entries j \<noteq> []" "e = last (entries j)"
      "entry_step e \<notin> set (active_steps (approvals t))"
    using blocked_entry_result [OF b] by metis
  have "e \<in> set (entries j)" using e by simp
  then have sid: "entry_step e \<in> set (map step_id (steps p))" "step_slug (entry_step e) = entry_step e"
    using assms(1) e(1,2) unfolding stored_ok_def plan_normal_def plan_step_ids_def initial_journal_def list_all_iff
    by auto
  have va: "approval_valid a" "approval_fits (Some (plan_version p)) (map step_id (steps p)) a" "approval_id a = i"
      "consumed_at a = None" "approved_step a = entry_step e"
    using a sid reason_names by (auto simp: make_approval_def approval_valid_def approval_fits_def)
  have "check_approvals (Some (plan_version p)) (map step_id (steps p)) [] [] (approvals t @ [a])"
    by (rule check_approvals_snoc) (use assms(1) va e fresh in \<open>simp_all add: stored_ok_def agent_task_valid_def artifacts_ok_def plan_step_ids_def\<close>)
  then show ?thesis
    using assms(1) va(1) e(1,2) by (simp add: stored_defs cong: option.case_cong)
qed

text \<open>Approvals get identifiers no stored approval has.\<close>

definition approval_ids_fresh :: "'w task_env \<Rightarrow> bool" where
  "approval_ids_fresh s \<longleftrightarrow>
     list_all (\<lambda>(k, t). id_source s (id_tick s) \<notin> set (map approval_id (approvals t))) (task_store s)"

lemma approve_valid:
  fixes s :: "'w task_env"
  assumes "tasks_valid s" and "approval_ids_fresh s"
  shows "wp (approve_task_step k wanted now) (\<lambda>_. tasks_valid) (\<lambda>_. tasks_valid) s"
proof -
  have go: "wp (require_task k) (\<lambda>t. wp (case blocked_entry t wanted of None \<Rightarrow> raise approval_conflict
      | Some (p, blocked) \<Rightarrow> bindE draw_uuid (\<lambda>i. bindE (liftE (reason_of_value (the (reason_code blocked)))) (\<lambda>r.
          bindE (liftE (make_approval \<lparr>approval_id = i, approved_version = plan_version p, approved_step = entry_step blocked,
            approval_reason = reason_value r, approved_at = now, consumed_at = None\<rparr>)) (\<lambda>a.
          save_task t (t\<lparr>approvals := approvals t @ [a], task_status := Ready, waiting_reason := None\<rparr>)))))
      (\<lambda>_. tasks_valid) (\<lambda>_. tasks_valid)) (\<lambda>_. tasks_valid) s"
  proof (rule require_task_wp [OF assms(1)])
    fix t assume found: "map_of (task_store s) k = Some t" and t: "stored_ok t"
    let ?i = "id_source s (id_tick s)"
    let ?s = "s\<lparr>id_tick := Suc (id_tick s)\<rparr>"
    have fresh: "?i \<notin> approval_id ` set (approvals t)"
      using assms(2) map_of_SomeD [OF found] by (auto simp: approval_ids_fresh_def list_all_iff)
    have s': "tasks_valid ?s" using assms(1) by (simp add: tasks_valid_def)
    have save: "wp (save_task t (t\<lparr>approvals := approvals t @ [a], task_status := Ready, waiting_reason := None\<rparr>))
        (\<lambda>_. tasks_valid) (\<lambda>_. tasks_valid) ?s"
      if "blocked_entry t wanted = Some (p, e)" "reason_of_value (the (reason_code e)) = Inr r"
        "make_approval \<lparr>approval_id = ?i, approved_version = plan_version p, approved_step = entry_step e,
          approval_reason = reason_value r, approved_at = now, consumed_at = None\<rparr> = Inr a" for p e r a
      by (rule save_task_wp [OF s' approved_stored [OF t that fresh] stored_version [OF t]])
    show "wp (case blocked_entry t wanted of None \<Rightarrow> raise approval_conflict
      | Some (p, blocked) \<Rightarrow> bindE draw_uuid (\<lambda>i. bindE (liftE (reason_of_value (the (reason_code blocked)))) (\<lambda>r.
          bindE (liftE (make_approval \<lparr>approval_id = i, approved_version = plan_version p, approved_step = entry_step blocked,
            approval_reason = reason_value r, approved_at = now, consumed_at = None\<rparr>)) (\<lambda>a.
          save_task t (t\<lparr>approvals := approvals t @ [a], task_status := Ready, waiting_reason := None\<rparr>)))))
      (\<lambda>_. tasks_valid) (\<lambda>_. tasks_valid) s"
    proof (cases "blocked_entry t wanted")
      case (Some x)
      then show ?thesis using save s' by (cases x) (simp add: wp split: sum.splits)
    qed (use assms(1) in \<open>simp add: wp\<close>)
  qed (rule assms(1))
  then show ?thesis unfolding approve_task_step_def wp_thenE wp_require wp_bindE [of "require_task k"] using assms(1) by simp
qed

lemma pending_question_valid:
  assumes "stored_ok t" and "pending_agent_question t = Some q"
  shows "bounded_text 500 q"
proof -
  obtain r where r: "agent_run t = Some r" "loop_steps r \<noteq> []" "command (step_decision (last (loop_steps r))) = AskUserCommand q"
    using assms(2) by (auto simp: pending_agent_question_def split: option.splits if_splits browser_command.splits)
  have "last (loop_steps r) \<in> set (loop_steps r)" using r(2) by simp
  moreover have "list_all loop_step_valid (loop_steps r)" using assms(1) r(1) by (simp add: stored_defs loop_result_valid_def)
  ultimately have "command_valid (AskUserCommand q)"
    using r(3) unfolding list_all_iff loop_step_valid_def decision_valid_def by metis
  then show ?thesis by simp
qed

lemma clarified_stored:
  assumes "stored_ok t" and "pending_agent_question t = Some q" and "1 \<le> length reply \<and> length reply \<le> 2000"
    and "make_clarification \<lparr>question = q, answer = reply, clarified_at = now\<rparr> = Inr c"
    and "length (clarifications t) < 50"
  shows "stored_ok (t\<lparr>clarifications := clarifications t @ [c], task_status := Ready, waiting_reason := None\<rparr>)"
proof -
  have "bounded_text n (squeeze_text x)" if "bounded_text n x" for n x
    using that squeeze_text_length [of x] by (simp add: bounded_text_def Suc_le_eq)
  then have "clarification_valid c"
    using assms(4) by (auto simp: make_clarification_def clarification_valid_def)
  then show ?thesis using assms(1,5) by (simp add: stored_defs cong: option.case_cong)
qed

lemma clarify_valid:
  fixes s :: "'w task_env"
  assumes "tasks_valid s" and "\<And>t. map_of (task_store s) k = Some t \<Longrightarrow> length (clarifications t) < 50"
  shows "wp (clarify_agent_task k reply now) (\<lambda>_. tasks_valid) (\<lambda>_. tasks_valid) s"
proof (cases "1 \<le> length reply \<and> length reply \<le> 2000")
  case True
  let ?body = "\<lambda>t. case (task_status t = WaitingForUser \<and> waiting_reason t = Some ClarificationRequired, pending_agent_question t) of
        (True, Some q) \<Rightarrow>
          bindE (liftE (make_clarification \<lparr>question = q, answer = reply, clarified_at = now\<rparr>)) (\<lambda>c.
          save_task t (t\<lparr>clarifications := clarifications t @ [c], task_status := Ready, waiting_reason := None\<rparr>))
      | _ \<Rightarrow> raise (HTTPException 409 ''task_clarification_not_expected'')"
  have "wp (require_task k) (\<lambda>t. wp (?body t) (\<lambda>_. tasks_valid) (\<lambda>_. tasks_valid)) (\<lambda>_. tasks_valid) s"
  proof (rule require_task_wp [OF assms(1)])
    fix t assume found: "map_of (task_store s) k = Some t" and t: "stored_ok t"
    have "wp (save_task t (t\<lparr>clarifications := clarifications t @ [c], task_status := Ready, waiting_reason := None\<rparr>))
        (\<lambda>_. tasks_valid) (\<lambda>_. tasks_valid) s"
      if "pending_agent_question t = Some q" "make_clarification \<lparr>question = q, answer = reply, clarified_at = now\<rparr> = Inr c" for q c
      by (rule save_task_wp [OF assms(1) clarified_stored [OF t that(1) True that(2) assms(2) [OF found]] stored_version [OF t]])
    then show "wp (?body t) (\<lambda>_. tasks_valid) (\<lambda>_. tasks_valid) s"
      using assms(1) by (simp add: wp split: option.splits bool.splits sum.splits)
  qed (rule assms(1))
  then show ?thesis unfolding clarify_agent_task_def wp_thenE wp_require if_P [OF True] wp_bindE [of "require_task k"] .
next
  case False
  then show ?thesis using assms(1) unfolding clarify_agent_task_def wp_thenE wp_require if_not_P [OF False] by simp
qed

section \<open>Creating\<close>

lemma kind_slug_again:
  assumes "simple_identifier (kind_slug k)"
  shows "kind_slug (kind_slug k) = kind_slug k"
proof -
  have c: "\<not> is_space c \<and> casefold_char c = c \<and> c \<noteq> CHR ''-''" if "c \<in> set (kind_slug k)" for c
  proof -
    have "is_alnum c \<or> c = CHR ''_''" using assms that by (simp add: simple_identifier_def list_all_iff)
    moreover have "\<not> (65 \<le> (of_char c :: nat) \<and> (of_char c :: nat) \<le> 90)"
      using that by (auto simp: kind_slug_def replace_char_def casefold_def casefold_char_def Let_def split: if_splits)
    ultimately show ?thesis
      by (auto simp: is_alnum_def is_alpha_def is_digit_def is_space_def casefold_char_def Let_def)
  qed
  have "dropWhile is_space s = s" if "set s \<subseteq> set (kind_slug k)" for s
    using that c by (cases s) auto
  then have "py_strip (kind_slug k) = kind_slug k" by (simp add: py_strip_def)
  moreover have "casefold (kind_slug k) = kind_slug k" using c by (simp add: casefold_def map_idI)
  moreover have "replace_char CHR ''-'' CHR ''_'' (kind_slug k) = kind_slug k" using c by (auto simp: replace_char_def intro: map_idI)
  ultimately show ?thesis by (simp add: kind_slug_def [of "kind_slug k"])
qed

lemma kind_slug_length: "length (kind_slug k) \<le> length k"
proof -
  have "length (py_strip k) \<le> length (dropWhile is_space k)"
    unfolding py_strip_def using length_dropWhile_le [of is_space "rev (dropWhile is_space k)"] by simp
  also have "\<dots> \<le> length k" by (rule length_dropWhile_le)
  finally show ?thesis by (simp add: kind_slug_def replace_char_def casefold_def)
qed

lemma kind_ok_normal: "kind_ok k \<Longrightarrow> kind_ok (map_option kind_slug k)"
  using kind_slug_length [of "the k"] kind_slug_again [of "the k"] by (cases k) (auto simp: kind_ok_def)

text \<open>The target URL of a request has no bracketed host and is short enough in its normal form.\<close>

definition plain_target :: "string \<Rightarrow> bool" where
  "plain_target v \<longleftrightarrow>
     CHR ''['' \<notin> set v \<and> (case normalize_target_url v of None \<Rightarrow> True | Some u \<Rightarrow> length u \<le> 2048)"

lemma created_stored:
  assumes "make_agent_task t = Inr t'" and "plain_target (target_url t)" and "plan t = None" and "fill_plan t = None"
  shows "stored_ok t'"
proof -
  have v: "agent_task_valid t" and t': "t' = t\<lparr>instruction := squeeze_text (instruction t),
      target_url := the (normalize_target_url (target_url t)), inferred_kind := map_option kind_slug (inferred_kind t)\<rparr>"
    using assms(1) by (simp_all add: make_agent_task_def)
  obtain u where u: "normalize_target_url (target_url t) = Some u"
    using v by (auto simp: agent_task_valid_def request_fields_ok_def)
  have "normalize_target_url u \<noteq> None" "length u \<le> 2048"
    using target_url_read_back [OF u] assms(2) u by (auto simp: plain_target_def)
  moreover have "1 \<le> length u" using \<open>normalize_target_url u \<noteq> None\<close> by (cases u) (simp_all add: url_eval)
  moreover have "bounded_text 4000 (squeeze_text (instruction t))"
    using v squeeze_text_length [of "instruction t"]
    by (simp add: agent_task_valid_def request_fields_ok_def bounded_text_def Suc_le_eq)
  moreover have "kind_ok (map_option kind_slug (inferred_kind t))"
    using v by (intro kind_ok_normal) (simp add: agent_task_valid_def work_fields_ok_def)
  moreover have "journal t = None" "approvals t = []"
    using v assms(3) by (auto simp: agent_task_valid_def artifacts_ok_def split: option.splits)
  ultimately show ?thesis
    using v assms(3,4) by (simp add: stored_defs t' u progress_of_def)
qed

lemma create_valid:
  fixes s :: "'w task_env"
  assumes "tasks_valid s" and "plain_target (wanted_url r)"
  shows "wp (create_task r now) (\<lambda>_. tasks_valid) (\<lambda>_. tasks_valid) s"
proof -
  let ?t = "\<lambda>i. \<lparr>task_id = i, task_version = 0, instruction = wanted_instruction r,
         target_url = wanted_url r, person_ids = wanted_people r, task_status = Ready, control_mode = wanted_mode r,
         inferred_kind = wanted_kind r, intent = None, waiting_reason = None, permissions = wanted_permissions r,
         plan = None, journal = None, approvals = [], page = None, fill_plan = None, agent_run = None,
         clarifications = [], task_created_at = now\<rparr>"
  have store: "wp (on_tasks (create_agent_task t)) (\<lambda>_. tasks_valid) (\<lambda>_. tasks_valid) s'"
    if "tasks_valid s'" "make_agent_task (?t i) = Inr t" for i t and s' :: "'w task_env"
  proof -
    have "stored_ok t" by (rule created_stored [OF that(2)]) (simp_all add: assms(2))
    from tasks_valid_set [OF that(1) this] show ?thesis by (simp add: wp_def on_tasks_def create_agent_task_def)
  qed
  have go: "wp (bindE draw_uuid (\<lambda>i. bindE (liftE (make_agent_task (?t i))) (\<lambda>t. on_tasks (create_agent_task t))))
      (\<lambda>_. tasks_valid) (\<lambda>_. tasks_valid) s'" if "tasks_valid s'" for s' :: "'w task_env"
  proof -
    have "tasks_valid (s'\<lparr>id_tick := Suc (id_tick s')\<rparr>)" using that by (simp add: tasks_valid_def)
    then show ?thesis using store by (simp add: wp split: sum.splits)
  qed
  have "wp (missing_people (wanted_people r)) (\<lambda>missing. wp (thenE (require (missing = []) (HTTPException 422 ''unknown_people''))
      (bindE draw_uuid (\<lambda>i. bindE (liftE (make_agent_task (?t i))) (\<lambda>t. on_tasks (create_agent_task t)))))
      (\<lambda>_. tasks_valid) (\<lambda>_. tasks_valid)) (\<lambda>_. tasks_valid) s"
  proof (rule wp_keeps [OF quiet_missing at_rest_now])
    fix missing and s' :: "'w task_env"
    assume "at_rest (task_store s) (clock s) (clock_tick s) s'"
    then have "tasks_valid s'" by (rule at_rest_valid [OF assms(1)])
    then show "wp (thenE (require (missing = []) (HTTPException 422 ''unknown_people''))
      (bindE draw_uuid (\<lambda>i. bindE (liftE (make_agent_task (?t i))) (\<lambda>t. on_tasks (create_agent_task t)))))
      (\<lambda>_. tasks_valid) (\<lambda>_. tasks_valid) s'"
      unfolding wp_thenE wp_require using go by simp
  qed (use assms(1) at_rest_valid in blast)
  then show ?thesis
    unfolding create_task_def wp_thenE wp_require wp_bindE [of "missing_people (wanted_people r)"] using assms(1) by simp
qed

section \<open>Executing\<close>

text \<open>The clock does not run behind the approvals that are stored.\<close>

definition clock_late :: "'w task_env \<Rightarrow> bool" where
  "clock_late s \<longleftrightarrow>
     (\<forall>i \<ge> clock_tick s. list_all (\<lambda>(k, t). approvals_before (clock s i) t) (task_store s))"

lemma unblocked_stored: "stored_ok t \<Longrightarrow> stored_ok (unblocked t)"
  using stored_ok_status [of t Ready None] by (simp add: unblocked_def)

lemma unblocked_parts [simp]: "approvals (unblocked t) = approvals t" "task_version (unblocked t) = task_version t"
  by (simp_all add: unblocked_def)

lemma executed_stored:
  fixes s :: "('w, 'z) exec_env_scheme"
  assumes "stored_ok t" and "runner_sound runner" and "\<And>i. clock_tick s \<le> i \<Longrightarrow> approvals_before (clock s i) t"
  shows "wp (execute_task_plan t runner m) (\<lambda>t' _. stored_ok t') (\<lambda>_ _. True) s"
proof (rule wpI)
  fix t' s' assume run: "execute_task_plan t runner m s = (Inr t', s')"
  obtain p where p: "plan t = Some p"
    using run by (cases "plan t") (auto simp: execute_task_plan_def raise_def)
  have parts: "parts_valid t'"
    by (rule wp_result [OF execute_task_plan_parts [OF assms(2) _ assms(3)] run])
      (use assms(1) in \<open>simp_all add: stored_ok_def agent_task_valid_parts\<close>)
  have none: "running_step (progress_of (initial_journal t)) = None" using assms(1) by (simp add: stored_ok_def plan_normal_def)
  have "covered p t" using assms(1) p by (auto simp: covered_def stored_ok_def plan_normal_def plan_step_ids_def list_all_iff)
  from wp_result [OF execute_task_plan_covered [OF this] run] have cov: "covered p t'" .
  from execute_task_plan_result [OF p none run] obtain j where j: "journal t' = Some j"
      "running_step (progress_of j) = None" "stopped_as p m (initial_journal t) j t'"
    by (auto simp: execution_result_def split: option.splits)
  have "waiting_ok t'"
    using j(3) by (auto simp: stopped_as_def waiting_ok_def split: task_status.splits option.splits)
  moreover have "plan_normal t'"
    using cov assms(1) p j(1,2)
    by (auto simp: plan_normal_def covered_at plan_step_ids_def stored_ok_def initial_journal_def covered_def list_all_iff)
  ultimately show "stored_ok t'" using parts by (simp add: stored_ok_def agent_task_valid_parts)
qed simp

lemma agent_stored:
  assumes "stored_ok t" and "loop_result_valid r" and "apply_agent_result t r = Inr t'"
  shows "stored_ok t'"
proof -
  obtain merged where m: "merge_agent_loop_results (agent_run t) r 50 = Inr merged"
    and t': "t' = t\<lparr>task_status := fst (agent_result_status t r), waiting_reason := snd (agent_result_status t r),
      page := Some (loop_snapshot r), fill_plan := None, agent_run := Some merged\<rparr>"
    using assms(3) by (auto simp: apply_agent_result_def split: sum.splits)
  have "list_all loop_step_valid (case agent_run t of None \<Rightarrow> [] | Some p \<Rightarrow> loop_steps p)"
    using assms(1) by (auto simp: stored_defs loop_result_valid_def split: option.splits)
  then have "list_all loop_step_valid (last_n 50 ((case agent_run t of None \<Rightarrow> [] | Some p \<Rightarrow> loop_steps p) @ loop_steps r))"
    using assms(2) set_last_n by (fastforce simp: list_all_iff loop_result_valid_def)
  then have "loop_result_valid merged"
    using m assms(2) renumber_valid by (auto simp: merge_agent_loop_results_def loop_result_valid_def Let_def)
  moreover have "fst (agent_result_status t r) = WaitingForUser \<longleftrightarrow> snd (agent_result_status t r) \<noteq> None"
    by (simp add: agent_result_status_def)
  ultimately show ?thesis
    using assms(1,2) by (simp add: stored_defs t' loop_result_valid_def cong: option.case_cong)
qed

text \<open>A context that stores nothing.\<close>

lemma within_context_wp:
  assumes "keeps I enter" and "keeps I leave" and "keeps I body" and "I s"
    and "\<And>s'. I s' \<Longrightarrow> wp body (\<lambda>x _. P x) (\<lambda>_ _. True) s'"
  shows "wp (within_context enter leave body) (\<lambda>x s'. P x \<and> I s') (\<lambda>_. I) s"
proof -
  have body: "wp body (\<lambda>x s'. P x \<and> I s') (\<lambda>_. I) s'" if "I s'" for s'
  proof (rule wpI)
    show "P x \<and> I s''" if "body s' = (Inr x, s'')" for x s''
      using wp_result [OF assms(5) that] wp_result [OF keeps_wp [OF assms(3)] that] \<open>I s'\<close> by blast
    show "I s''" if "body s' = (Inl e, s'')" for e s''
      using wp_error [OF keeps_wp [OF assms(3)] that] \<open>I s'\<close> by blast
  qed
  have fin: "wp leave (\<lambda>_ s'. P x \<and> I s') (\<lambda>_. I) s'" if "P x" "I s'" for x s'
    by (rule wp_keeps [OF assms(2) that(2)]) (simp_all add: that(1))
  have err: "wp leave (\<lambda>_. I) (\<lambda>_. I) s'" if "I s'" for s' by (rule keeps_wp [OF assms(2) that])
  have mid: "wp body (\<lambda>x. wp leave (\<lambda>_ s'. P x \<and> I s') (\<lambda>_. I)) (\<lambda>_. wp leave (\<lambda>_. I) (\<lambda>_. I)) s'" if "I s'" for s'
    by (rule wp_mono [OF body [OF that]]) (simp_all add: fin err)
  have "wp enter (\<lambda>_. wp body (\<lambda>x. wp leave (\<lambda>_ s'. P x \<and> I s') (\<lambda>_. I)) (\<lambda>_. wp leave (\<lambda>_. I) (\<lambda>_. I))) (\<lambda>_. I) s"
    by (rule wp_keeps [OF assms(1,4)]) (simp_all add: mid)
  then show ?thesis unfolding within_context_def wp_thenE wp_tryElse wp_raise wp_ret .
qed

lemma in_session_wp:
  assumes "keeps (at_rest d c n) body" and "at_rest d c n s"
    and "\<And>s'. at_rest d c n s' \<Longrightarrow> wp body (\<lambda>x _. P x) (\<lambda>_ _. True) s'"
  shows "wp (in_session driver settings t people body) (\<lambda>x s'. P x \<and> at_rest d c n s') (\<lambda>_. at_rest d c n) s"
  unfolding in_session_def
  by (rule within_context_wp [OF keeps_in_browser keeps_in_browser assms(1,2,3)])

lemma agent_in_browser:
  fixes s :: "'w task_env"
  assumes "agents_sound chooser runtime"
  shows "wp (in_browser (run_agent_loop t chooser runtime n limit approved)) (\<lambda>r _. loop_result_valid r) (\<lambda>_ _. True) s"
proof -
  obtain x w where x: "run_agent_loop t chooser runtime n limit approved (browser s) = (x, w)" by fastforce
  show ?thesis
  proof (cases x)
    case (Inr r)
    have "loop_result_valid r" by (rule wp_result [OF agent_loop_valid [OF assms] x [unfolded Inr]])
    then show ?thesis by (simp add: wp_in_browser x Inr)
  qed (simp add: wp_in_browser x)
qed

text \<open>The run and the storing of its result.\<close>

lemma stored_after:
  fixes s :: "'w task_env"
  assumes run: "wp session (\<lambda>x s'. P x \<and> at_rest (task_store s) c n s') (\<lambda>_. at_rest (task_store s) c n) s"
    and s: "tasks_valid s" and t: "0 \<le> task_version t"
    and change: "\<And>x t'. P x \<Longrightarrow> f x = Inr t' \<Longrightarrow> stored_ok t'"
  shows "wp (tryElse session (\<lambda>e. raise (h e)) (\<lambda>x. bindE (liftE (f x)) (\<lambda>t'. save_task t t'))) (\<lambda>_. tasks_valid) (\<lambda>_. tasks_valid) s"
  unfolding wp_tryElse wp_raise wp_bindE
proof (rule wp_mono [OF run])
  fix x s' assume x: "P x \<and> at_rest (task_store s) c n s'"
  then have s': "tasks_valid s'" using at_rest_valid [OF s] by blast
  have "wp (save_task t t') (\<lambda>_. tasks_valid) (\<lambda>_. tasks_valid) s'" if "f x = Inr t'" for t'
    by (rule save_task_wp [OF s' change t]) (use x that in auto)
  then show "wp (liftE (f x)) (\<lambda>t'. wp (save_task t t') (\<lambda>_. tasks_valid) (\<lambda>_. tasks_valid)) (\<lambda>_. tasks_valid) s'"
    using s' by (simp add: wp split: sum.splits)
next
  fix e s' assume "at_rest (task_store s) c n s'"
  then show "tasks_valid s'" by (rule at_rest_valid [OF s])
qed

definition driver_sound :: "'w browser_driver \<Rightarrow> bool" where
  "driver_sound driver \<longleftrightarrow> runner_sound (step_runner driver) \<and> agents_sound (agent_provider driver) (agent_browser driver)"

lemma llm_valid:
  fixes s :: "'w task_env"
  assumes "tasks_valid s" and "stored_ok t" and "driver_sound driver"
  shows "wp (execute_llm_agent driver settings t people) (\<lambda>_. tasks_valid) (\<lambda>_. tasks_valid) s"
proof -
  let ?loop = "\<lambda>n. in_browser (run_agent_loop t (agent_provider driver) (agent_browser driver) n 3 False)"
  let ?I = "at_rest (task_store s) (clock s) (clock_tick s)"
  have agents: "agents_sound (agent_provider driver) (agent_browser driver)" using assms(3) by (simp add: driver_sound_def)
  have inner: "wp (within_context (in_browser (enter_provider driver)) (in_browser (leave_provider driver)) (?loop n))
      (\<lambda>r s'. loop_result_valid r \<and> ?I s') (\<lambda>_. ?I) s'" if "?I s'" for n and s' :: "'w task_env"
    by (rule within_context_wp [OF keeps_in_browser keeps_in_browser keeps_in_browser that agent_in_browser [OF agents]])
  have quiet: "keeps ?I (within_context (in_browser (enter_provider driver)) (in_browser (leave_provider driver)) (?loop n))" for n
    unfolding within_context_def by (intro keeps_intro)
  have weak: "wp (within_context (in_browser (enter_provider driver)) (in_browser (leave_provider driver)) (?loop n))
      (\<lambda>r _. loop_result_valid r) (\<lambda>_ _. True) s'" if "?I s'" for n and s' :: "'w task_env"
    by (rule wp_mono [OF inner [OF that]]) simp_all
  note session = in_session_wp [OF quiet at_rest_now weak]
  have "wp (tryElse (in_session driver settings t people
        (within_context (in_browser (enter_provider driver)) (in_browser (leave_provider driver)) (?loop n)))
      (\<lambda>e. raise (agent_failure e)) (\<lambda>r. bindE (liftE (apply_agent_result t r)) (\<lambda>changed. save_task t changed)))
      (\<lambda>_. tasks_valid) (\<lambda>_. tasks_valid) s" for n
    by (rule stored_after [OF session assms(1) stored_version [OF assms(2)]]) (simp, rule agent_stored [OF assms(2)])
  then show ?thesis
    unfolding execute_llm_agent_def wp_thenE wp_require using assms(1) by simp
qed

lemma plan_run_valid:
  fixes s :: "'w task_env"
  assumes "tasks_valid s" and "stored_ok t" and "driver_sound driver"
    and "\<And>i. clock_tick s \<le> i \<Longrightarrow> approvals_before (clock s i) t"
  shows "wp (tryElse (in_session driver settings t people (execute_task_plan t (step_runner driver) m))
      (\<lambda>e. raise (plan_failure e)) (\<lambda>executed. save_task t executed)) (\<lambda>_. tasks_valid) (\<lambda>_. tasks_valid) s"
proof -
  have run: "wp (execute_task_plan t (step_runner driver) m) (\<lambda>t' _. stored_ok t') (\<lambda>_ _. True) s'"
    if "at_rest (task_store s) (clock s) (clock_tick s) s'" for s' :: "'w task_env"
    by (rule executed_stored [OF assms(2)]) (use assms(3,4) that in \<open>simp_all add: driver_sound_def at_rest_def\<close>)
  note session = in_session_wp [OF quiet_execution at_rest_now run]
  have "wp (tryElse (in_session driver settings t people (execute_task_plan t (step_runner driver) m))
      (\<lambda>e. raise (plan_failure e)) (\<lambda>executed. bindE (liftE (Inr executed)) (\<lambda>executed. save_task t executed)))
      (\<lambda>_. tasks_valid) (\<lambda>_. tasks_valid) s"
    by (rule stored_after [OF session assms(1) stored_version [OF assms(2)]]) simp_all
  then show ?thesis unfolding wp_tryElse wp_bindE wp_liftE sum.case .
qed

lemma execute_valid:
  fixes s :: "'w task_env"
  assumes "tasks_valid s" and "driver_sound driver" and "clock_late s"
  shows "wp (execute_task driver settings k) (\<lambda>_. tasks_valid) (\<lambda>_. tasks_valid) s"
proof -
  let ?run = "\<lambda>t people. if agent_llm_enabled settings then execute_llm_agent driver settings t people
       else tryElse (in_session driver settings t people
             (execute_task_plan t (step_runner driver) (if control_mode t = StepByStep then Some 1 else None)))
           (\<lambda>e. raise (plan_failure e)) (\<lambda>executed. save_task t executed)"
  let ?I = "at_rest (task_store s) (clock s) (clock_tick s)"
  have "wp (require_task k) (\<lambda>stored. wp (thenE (require (control_mode stored \<noteq> PlanOnly) (HTTPException 409 ''task_execution_disabled''))
      (let t = unblocked stored in bindE (load_task_people t) (?run t))) (\<lambda>_. tasks_valid) (\<lambda>_. tasks_valid)) (\<lambda>_. tasks_valid) s"
  proof (rule require_task_wp [OF assms(1)])
    fix stored assume found: "map_of (task_store s) k = Some stored" and ok: "stored_ok stored"
    let ?t = "unblocked stored"
    have t: "stored_ok ?t" by (rule unblocked_stored [OF ok])
    have late: "approvals_before (clock s i) ?t" if "clock_tick s \<le> i" for i
      using assms(3) that map_of_SomeD [OF found] by (fastforce simp: clock_late_def list_all_iff approvals_before_def)
    have run: "wp (?run ?t people) (\<lambda>_. tasks_valid) (\<lambda>_. tasks_valid) s'" if "?I s'" for people and s' :: "'w task_env"
    proof -
      have s': "tasks_valid s'" by (rule at_rest_valid [OF assms(1) that])
      have late': "approvals_before (clock s' i) ?t" if "clock_tick s' \<le> i" for i
        using late [of i] that \<open>?I s'\<close> by (simp add: at_rest_def)
      show ?thesis
        unfolding wp_if using llm_valid [OF s' t assms(2)] plan_run_valid [OF s' t assms(2) late'] by simp
    qed
    have "wp (load_task_people ?t) (\<lambda>people. wp (?run ?t people) (\<lambda>_. tasks_valid) (\<lambda>_. tasks_valid)) (\<lambda>_. tasks_valid) s"
      by (rule wp_keeps [OF quiet_people at_rest_now]) (use run assms(1) at_rest_valid in blast)+
    then show "wp (thenE (require (control_mode stored \<noteq> PlanOnly) (HTTPException 409 ''task_execution_disabled''))
      (let t = unblocked stored in bindE (load_task_people t) (?run t))) (\<lambda>_. tasks_valid) (\<lambda>_. tasks_valid) s"
      unfolding wp_thenE wp_require Let_def wp_bindE using assms(1) by simp
  qed (rule assms(1))
  then show ?thesis
    unfolding execute_task_def wp_thenE wp_require wp_bindE [of "require_task k"] using assms(1) by (simp add: Let_def)
qed

section \<open>All endpoints\<close>

datatype task_call =
    CreateTask task_request
  | ListTasks int
  | GetTask uuid
  | PlanTask uuid
  | MapPage uuid
  | ApproveStep uuid string
  | ClarifyTask uuid utext
  | ExecuteTask uuid
  | PauseTask uuid
  | ResumeTask uuid
  | CancelTask uuid

definition serve_task_call ::
  "(utext \<Rightarrow> int \<Rightarrow> datetime \<Rightarrow> exn + task_intent) \<Rightarrow> 'w browser_driver \<Rightarrow> task_settings \<Rightarrow> datetime
     \<Rightarrow> task_call \<Rightarrow> ('w, unit) task_api" where
  "serve_task_call extract driver settings now call =
     (case call of
        CreateTask r \<Rightarrow> thenE (create_task r now) (ret ())
      | ListTasks limit \<Rightarrow> thenE (list_tasks limit) (ret ())
      | GetTask k \<Rightarrow> thenE (get_task k) (ret ())
      | PlanTask k \<Rightarrow> thenE (prepare_task_plan extract k now) (ret ())
      | MapPage k \<Rightarrow> thenE (map_task_page k now) (ret ())
      | ApproveStep k step \<Rightarrow> thenE (approve_task_step k step now) (ret ())
      | ClarifyTask k reply \<Rightarrow> thenE (clarify_agent_task k reply now) (ret ())
      | ExecuteTask k \<Rightarrow> thenE (execute_task driver settings k) (ret ())
      | PauseTask k \<Rightarrow> thenE (pause_task k) (ret ())
      | ResumeTask k \<Rightarrow> thenE (resume_task k) (ret ())
      | CancelTask k \<Rightarrow> cancel_task k)"

text \<open>What the stored state and the environment must satisfy for a call: the target of a new task has a
  normal form that is read back, a new approval gets an unused identifier, the clarifications are not
  full, and the clock does not run behind the stored approvals.\<close>

definition call_fits :: "'w task_env \<Rightarrow> task_call \<Rightarrow> bool" where
  "call_fits s call \<longleftrightarrow>
     (case call of
        CreateTask r \<Rightarrow> plain_target (wanted_url r)
      | ApproveStep k step \<Rightarrow> approval_ids_fresh s
      | ClarifyTask k reply \<Rightarrow> (case map_of (task_store s) k of None \<Rightarrow> True | Some t \<Rightarrow> length (clarifications t) < 50)
      | ExecuteTask k \<Rightarrow> clock_late s
      | _ \<Rightarrow> True)"

lemma wp_discard: "wp m (\<lambda>_. P) (\<lambda>_. P) s \<Longrightarrow> wp (thenE m (ret ())) (\<lambda>_. P) (\<lambda>_. P) s"
  by (simp add: wp)

lemma reading_valid:
  "tasks_valid s \<Longrightarrow> wp (list_tasks n) (\<lambda>_. tasks_valid) (\<lambda>_. tasks_valid) s"
  "tasks_valid s \<Longrightarrow> wp (get_task k) (\<lambda>_. tasks_valid) (\<lambda>_. tasks_valid) s"
  by (simp add: list_tasks_def wp wp_def on_tasks_def list_agent_tasks_def thenE_def bindE_def require_def raise_def ret_def gets_def)
    (simp add: get_task_def require_task_wp)

lemma serve_valid:
  assumes "tasks_valid s" and "extracts_valid extract" and "driver_sound driver" and "call_fits s call"
  shows "wp (serve_task_call extract driver settings now call) (\<lambda>_. tasks_valid) (\<lambda>_. tasks_valid) s"
proof (cases call)
  case (CreateTask r)
  then show ?thesis using wp_discard [OF create_valid [OF assms(1)]] assms(4) by (simp add: serve_task_call_def call_fits_def)
next
  case (ListTasks n)
  then show ?thesis using wp_discard [OF reading_valid(1) [OF assms(1)]] by (simp add: serve_task_call_def)
next
  case (GetTask k)
  then show ?thesis using wp_discard [OF reading_valid(2) [OF assms(1)]] by (simp add: serve_task_call_def)
next
  case (PlanTask k)
  then show ?thesis using wp_discard [OF prepare_valid [OF assms(1,2)]] by (simp add: serve_task_call_def)
next
  case (MapPage k)
  then show ?thesis using wp_discard [OF map_page_valid [OF assms(1)]] by (simp add: serve_task_call_def)
next
  case (ApproveStep k step)
  then show ?thesis using wp_discard [OF approve_valid [OF assms(1)]] assms(4) by (simp add: serve_task_call_def call_fits_def)
next
  case (ClarifyTask k reply)
  have "length (clarifications t) < 50" if "map_of (task_store s) k = Some t" for t
    using assms(4) that by (simp add: call_fits_def ClarifyTask)
  then show ?thesis using wp_discard [OF clarify_valid [OF assms(1)]] ClarifyTask by (simp add: serve_task_call_def)
next
  case (ExecuteTask k)
  then show ?thesis using wp_discard [OF execute_valid [OF assms(1,3)]] assms(4) by (simp add: serve_task_call_def call_fits_def)
next
  case (PauseTask k)
  then show ?thesis using wp_discard [OF pause_valid [OF assms(1)]] by (simp add: serve_task_call_def)
next
  case (ResumeTask k)
  then show ?thesis using wp_discard [OF resume_valid [OF assms(1)]] by (simp add: serve_task_call_def)
next
  case (CancelTask k)
  then show ?thesis using cancel_valid [OF assms(1)] by (simp add: serve_task_call_def)
qed

text \<open>C8: every call of an endpoint of agent tasks that \<open>call_fits\<close> admits, whether it succeeds or ends in
  an error, leaves only tasks in the repository that their constructor accepts, so that each can be
  loaded again. Not admitted, because the property fails there, are a creation with a bracketed or
  overlong target URL, a fifty-first clarification (lemma \<open>clarification_limit_unchecked\<close>) and an
  execution with the clock behind the stored approvals; a new approval is taken to draw an unused
  identifier. What the page mapper extracts and what the browser reports are valid values.\<close>

theorem task_endpoints_keep_types:
  assumes "tasks_valid s" and "extracts_valid extract" and "driver_sound driver" and "call_fits s call"
    and "serve_task_call extract driver settings now call s = (r, s')"
  shows "tasks_valid s'"
proof (cases r)
  case (Inl e)
  with wp_error [OF serve_valid [OF assms(1-4)]] assms(5) show ?thesis by simp
next
  case (Inr u)
  with wp_result [OF serve_valid [OF assms(1-4)]] assms(5) show ?thesis by simp
qed

text \<open>A state with the two-step task, and a driver that lets every step succeed.\<close>

definition demo_tasks :: "unit task_env" where
  "demo_tasks = \<lparr>browser = (), id_source = (\<lambda>n. n), id_tick = 0, clock = (\<lambda>n. int n), clock_tick = 0,
     task_store = [(7, demo_task)], people_store = []\<rparr>"

definition demo_driver :: "unit browser_driver" where
  "demo_driver = \<lparr>enter_browser = (\<lambda>b people. ret ()), leave_browser = ret (), step_runner = demo_runner,
     agent_browser = quiet_runtime, enter_provider = ret (), leave_provider = ret (), agent_provider = finishing_provider\<rparr>"

definition demo_settings :: task_settings where
  "demo_settings = \<lparr>browser_automation_enabled = True, production = False, agent_llm_enabled = False,
     llm_is_openai = False, openai_key_set = False, agent_llm_max_steps = 5\<rparr>"

lemma demo_names: "step_slug ''a'' = ''a''" "step_slug ''b'' = ''b''"
  by (simp_all add: step_slug_def replace_char_def casefold_def casefold_char_def py_strip_def is_space_def)

lemma demo_stored: "stored_ok demo_task"
proof -
  have "normalize_target_url ''https://a.b/'' = Some ''https://a.b/''" by (simp add: url_eval)
  moreover have "squeeze_text (codes ''buy'') \<noteq> []" by (simp add: squeeze_codes text_space_def)
  ultimately show ?thesis
    using demo_plan_valid
    by (simp add: stored_defs demo_task_def bounded_text_def kind_ok_def progress_of_def)
      (simp add: demo_plan_def demo_step_def demo_names)
qed

lemma demo_sound: "driver_sound demo_driver"
  by (simp add: driver_sound_def demo_driver_def runner_sound_def demo_runner_def result_fits_def agents_sound_def
      quiet_runtime_def finishing_provider_def ret_def blank_page_def page_snapshot_valid_def page_snapshot_ok_def
      decision_valid_def decision_ok_def bounded_text_def squeeze_codes text_space_def command_result_valid_def
      snapshot_option_valid_def reason_code_ok_def is_lower_def)

lemma task_endpoints_keep_types_witness:
  "tasks_valid demo_tasks \<and>
   tasks_valid (snd (serve_task_call (\<lambda>t n now. Inr no_facts) demo_driver demo_settings (Aware 1) (ExecuteTask 7) demo_tasks))"
proof -
  have valid: "tasks_valid demo_tasks" using demo_stored by (simp add: tasks_valid_def demo_tasks_def demo_task_def)
  have "extracts_valid (\<lambda>t n now. Inr no_facts)" by (simp add: extracts_valid_def no_facts_def intent_valid_def fits_def)
  moreover have "call_fits demo_tasks (ExecuteTask 7)"
    by (simp add: call_fits_def clock_late_def demo_tasks_def approvals_before_def demo_task_def)
  ultimately show ?thesis
    using valid task_endpoints_keep_types [OF valid _ demo_sound] by (metis prod.collapse)
qed

text \<open>The endpoint of clarifications does not check the limit of fifty: it answers a task that has
  fifty with success and stores a task its constructor refuses.\<close>

theorem clarification_limit_unchecked:
  assumes "map_of (task_store s) k = Some t" and "task_id t = k" and "stored_ok t"
    and "waiting_reason t = Some ClarificationRequired" and "pending_agent_question t = Some q"
    and "length (clarifications t) = 50"
    and "1 \<le> length reply" and "length reply \<le> 2000" and "squeeze_text reply \<noteq> []"
  shows "\<exists>t' s'. clarify_agent_task k reply (Aware now) s = (Inr t', s') \<and> map_of (task_store s') k = Some t'
    \<and> \<not> agent_task_valid t'"
proof -
  let ?c = "\<lparr>question = squeeze_text q, answer = squeeze_text reply, clarified_at = Aware now\<rparr>"
  let ?t = "t\<lparr>clarifications := clarifications t @ [?c], task_status := Ready, waiting_reason := None,
     task_version := task_version t + 1\<rparr>"
  have "task_status t = WaitingForUser" using assms(3,4) by (simp add: stored_defs)
  moreover have "make_clarification \<lparr>question = q, answer = reply, clarified_at = Aware now\<rparr> = Inr ?c"
    using pending_question_valid [OF assms(3,5)] assms(7-9)
    by (simp add: make_clarification_def clarification_valid_def bounded_text_def)
  ultimately have "clarify_agent_task k reply (Aware now) s = (Inr ?t, s\<lparr>task_store := dict_set k ?t (task_store s)\<rparr>)"
    using assms(1,2,4,5,7,8)
    by (simp add: clarify_agent_task_def require_task_def save_task_def on_tasks_def get_agent_task_def update_agent_task_def
        thenE_def bindE_def require_def gets_def liftE_def ret_def tryElse_def Let_def)
  moreover have "\<not> agent_task_valid ?t" using assms(6) by (simp add: agent_task_valid_def work_fields_ok_def)
  ultimately show ?thesis by (intro exI conjI) (assumption, simp_all)
qed

definition asked_run :: loop_result where
  "asked_run = \<lparr>loop_status = LoopWaiting, loop_reason = ''user_input_required'', loop_snapshot = blank_page,
     loop_steps = [\<lparr>step_sequence = 1,
       step_decision = \<lparr>command = AskUserCommand (codes ''seat''), rationale = codes ''ok'', expected_result = codes ''ok''\<rparr>,
       step_metadata = None,
       step_result = \<lparr>command_succeeded = True, command_reason = ''user_input_required'', command_snapshot = None,
         needs_user = True\<rparr>\<rparr>]\<rparr>"

definition asking_task :: agent_task where
  "asking_task = demo_task\<lparr>task_status := WaitingForUser, waiting_reason := Some ClarificationRequired,
     agent_run := Some asked_run,
     clarifications := replicate 50 \<lparr>question = codes ''seat'', answer = codes ''ok'', clarified_at = Aware 0\<rparr>\<rparr>"

lemma asking_stored: "stored_ok asking_task"
proof -
  have "loop_result_valid asked_run"
    by (simp add: loop_result_valid_def asked_run_def reason_code_ok_def is_lower_def blank_page_def page_snapshot_valid_def
        page_snapshot_ok_def loop_step_valid_def decision_valid_def decision_ok_def bounded_text_def squeeze_codes text_space_def
        command_result_valid_def snapshot_option_valid_def)
  moreover have "clarification_valid \<lparr>question = codes ''seat'', answer = codes ''ok'', clarified_at = Aware 0\<rparr>"
    by (simp add: clarification_valid_def bounded_text_def squeeze_codes text_space_def)
  ultimately show ?thesis
    using demo_stored by (simp add: stored_defs asking_task_def list_all_iff cong: option.case_cong)
qed

lemma clarification_limit_unchecked_witness:
  "\<exists>t' s'. clarify_agent_task 7 (codes ''any'') (Aware 3) (demo_tasks\<lparr>task_store := [(7, asking_task)]\<rparr>) = (Inr t', s')
     \<and> \<not> agent_task_valid t'"
proof -
  have "\<exists>t' s'. clarify_agent_task 7 (codes ''any'') (Aware 3) (demo_tasks\<lparr>task_store := [(7, asking_task)]\<rparr>) = (Inr t', s')
      \<and> map_of (task_store s') 7 = Some t' \<and> \<not> agent_task_valid t'"
  proof (rule clarification_limit_unchecked [OF _ _ asking_stored])
    show "pending_agent_question asking_task = Some (codes ''seat'')"
      by (simp add: pending_agent_question_def asking_task_def asked_run_def)
  qed (simp_all add: asking_task_def demo_task_def squeeze_codes text_space_def)
  then show ?thesis by blast
qed

end
