(* ===== verification/EventHistory.thy ===== *)
theory EventHistory
  imports MissionStore EventLog Pagination Polling
begin

text \<open>
  The history of a mission's events: \<open>GetMissionEventHistory\<close> and \<open>WaitForMissionEventHistory\<close> of
  \<open>app/services/mission_event_history.py\<close>. The repositories and the projection readers are those the
  factories open, and the waiter is the event loop's clock: both are parameters, on a state \<open>'w\<close> that
  other requests change while one sleeps.
\<close>

section \<open>Pages\<close>

record event_page_request =
  after_sequence :: int
  page_limit :: int

definition event_page_request_ok :: "event_page_request \<Rightarrow> bool" where
  "event_page_request_ok r \<longleftrightarrow> 0 \<le> after_sequence r \<and> 1 \<le> page_limit r \<and> page_limit r \<le> 100"

definition make_event_page_request :: "event_page_request \<Rightarrow> exn + event_page_request" where
  "make_event_page_request r = (if event_page_request_ok r then Inr r else Inl ValidationError)"

record event_page =
  events_mission :: uuid
  events_after :: int
  latest_sequence :: int
  has_more :: bool
  page_items :: "execution_event list"

text \<open>The events that are fetched: one more than the page holds.\<close>

definition events_after_sequence :: "int \<Rightarrow> int \<Rightarrow> mission \<Rightarrow> execution_event list" where
  "events_after_sequence after fetch_limit m =
     first_n fetch_limit (filter (\<lambda>e. event_sequence e > after) (execution_log m))"

definition page_from_events :: "uuid \<Rightarrow> event_page_request \<Rightarrow> execution_event list \<Rightarrow> event_page" where
  "page_from_events k r fetched =
     (let items = first_n (page_limit r) fetched in
      \<lparr>events_mission = k, events_after = after_sequence r,
       latest_sequence = (if items = [] then after_sequence r else event_sequence (last items)),
       has_more = int (length fetched) > page_limit r, page_items = items\<rparr>)"

type_synonym 'w projection_reader = "uuid \<Rightarrow> int \<Rightarrow> int \<Rightarrow> ('w, exn, execution_event list) prog"

definition get_event_history ::
  "(uuid \<Rightarrow> ('w, exn, mission option) prog) \<Rightarrow> 'w projection_reader option \<Rightarrow> uuid \<Rightarrow> event_page_request
     \<Rightarrow> ('w, exn, event_page) prog" where
  "get_event_history get reader k r =
     bindE (get k) (\<lambda>found.
       case found of
         None \<Rightarrow> raise MissionNotFoundError
       | Some m \<Rightarrow>
           bindE (case reader of
               None \<Rightarrow> ret (events_after_sequence (after_sequence r) (page_limit r + 1) m)
             | Some list_after \<Rightarrow> list_after k (after_sequence r) (page_limit r + 1)) (\<lambda>fetched.
           ret (page_from_events (mission_id m) r fetched)))"

section \<open>Waiting\<close>

record 'w event_source =
  source_exists :: "uuid \<Rightarrow> ('w, exn, bool) prog"
  source_get :: "uuid \<Rightarrow> ('w, exn, mission option) prog"
  source_reader :: "'w projection_reader option"
  source_waiter :: "('w, exn) waiter"

definition read_once :: "'w event_source \<Rightarrow> uuid \<Rightarrow> event_page_request \<Rightarrow> ('w, exn, event_page) prog" where
  "read_once src k r =
     (case source_reader src of
        Some list_after \<Rightarrow>
          bindE (list_after k (after_sequence r) (page_limit r + 1)) (\<lambda>fetched. ret (page_from_events k r fetched))
      | None \<Rightarrow>
          bindE (source_get src k) (\<lambda>found.
            case found of
              None \<Rightarrow> raise MissionNotFoundError
            | Some m \<Rightarrow> ret (page_from_events (mission_id m) r
                (events_after_sequence (after_sequence r) (page_limit r + 1) m))))"

definition wait_for_event_history ::
  "'w event_source \<Rightarrow> timedelta \<Rightarrow> uuid \<Rightarrow> event_page_request \<Rightarrow> timedelta \<Rightarrow> nat \<Rightarrow> ('w, exn, event_page option) prog" where
  "wait_for_event_history src poll k r timeout fuel =
     bindE (source_exists src k) (\<lambda>found.
     thenE (require found MissionNotFoundError)
     (wait_until (source_waiter src) (read_once src k r) (\<lambda>p. page_items p \<noteq> []) poll timeout fuel))"

section \<open>The pages of a log\<close>

definition events_beyond :: "int \<Rightarrow> mission \<Rightarrow> execution_event list" where
  "events_beyond after m = filter (\<lambda>e. event_sequence e > after) (execution_log m)"

text \<open>The page after a sequence number, and where its reader goes on.\<close>

definition event_page_at :: "nat \<Rightarrow> int \<Rightarrow> mission \<Rightarrow> execution_event list \<times> int option" where
  "event_page_at limit after m =
     (let r = \<lparr>after_sequence = after, page_limit = int limit\<rparr>;
          p = page_from_events (mission_id m) r (events_after_sequence after (int limit + 1) m)
      in (page_items p, if has_more p then Some (latest_sequence p) else None))"

lemma event_page_cut:
  assumes "0 < k"
  shows "event_page_at k after m =
    (take k (events_beyond after m),
     if length (events_beyond after m) \<le> k then None else Some (event_sequence (last (take k (events_beyond after m)))))"
proof -
  let ?A = "events_beyond after m"
  have f: "events_after_sequence after (int k + 1) m = take (Suc k) ?A"
    by (simp add: events_after_sequence_def events_beyond_def first_n_def nat_add_distrib)
  have "take k (take (Suc k) ?A) = take k ?A" by (simp add: min_def)
  moreover have "int (length (take (Suc k) ?A)) > int k \<longleftrightarrow> \<not> length ?A \<le> k" by (auto simp: min_def)
  moreover have "take k ?A = [] \<longleftrightarrow> ?A = []" using assms by (cases ?A) auto
  ultimately show ?thesis
    unfolding event_page_at_def f page_from_events_def by (auto simp: Let_def first_n_def)
qed

lemma log_strict: "log_valid m \<Longrightarrow> sorted_wrt (<) (map event_sequence (execution_log m))"
  by (auto simp: log_valid_iff log_spec_def)

interpretation event_pages: cursor_pages event_page_at events_beyond log_valid
proof
  fix m k after c'
  assume m: "log_valid m" and k: "0 < (k :: nat)"
  show "fst (event_page_at k after m) = take k (events_beyond after m)" by (simp add: event_page_cut [OF k])
  show "snd (event_page_at k after m) = None \<longleftrightarrow> length (events_beyond after m) \<le> k" by (simp add: event_page_cut [OF k])
  show "events_beyond c' m = drop k (events_beyond after m)" if "snd (event_page_at k after m) = Some c'"
  proof -
    have l: "k < length (events_beyond after m)" and c': "c' = event_sequence (last (take k (events_beyond after m)))"
      using that by (auto simp: event_page_cut [OF k] split: if_splits)
    have "events_beyond b m = filter (\<lambda>e. above (Some b) (event_sequence e) \<and> True) (execution_log m)" for b
      by (simp add: events_beyond_def above_def)
    then show ?thesis using keyset_next [OF log_strict [OF m] _ k l, of "Some after" "\<lambda>e. True"] c' by simp
  qed
qed

section \<open>Waiting ends\<close>

text \<open>C40: waiting for events ends: when time does not run backwards and a sleep lasts as long as asked, and at
  least a microsecond, the loop returns, or raises what a read raises, after at most as many rounds as
  polling intervals fit into the timeout, and two more.\<close>

theorem event_wait_ends:
  assumes "waiter_sound time_of (source_waiter src) (read_once src k r)" and "timeout \<le> poll * int n"
  shows "fst (wait_for_event_history src poll k r timeout (Suc (Suc n)) w) \<noteq> Inr None"
proof -
  have "fst (wait_until (source_waiter src) (read_once src k r) (\<lambda>p. page_items p \<noteq> []) poll timeout (Suc (Suc n)) w1) \<noteq> Inr None" for w1
    using wp_result [OF wait_until_ends [OF assms]]
    by (cases "wait_until (source_waiter src) (read_once src k r) (\<lambda>p. page_items p \<noteq> []) poll timeout (Suc (Suc n)) w1") force
  then show ?thesis
    by (simp add: wait_for_event_history_def bindE_def thenE_def require_def ret_def raise_def split: prod.split sum.split)
qed

text \<open>A source whose clock, the state, advances by what is slept and one microsecond more.\<close>

definition quiet_source :: "rat event_source" where
  "quiet_source = \<lparr>source_exists = (\<lambda>k. ret True), source_get = (\<lambda>k. ret None),
     source_reader = Some (\<lambda>k after n. ret []),
     source_waiter = \<lparr>monotonic = gets id, sleep = (\<lambda>d. modify (\<lambda>t. t + max (total_seconds d) (1 / 1000000)))\<rparr>\<rparr>"

theorem event_wait_ends_witness:
  "fst (wait_for_event_history quiet_source 500000 7 \<lparr>after_sequence = 0, page_limit = 50\<rparr> 30000000 (Suc (Suc 60)) 0) \<noteq> Inr None"
proof (rule event_wait_ends)
  show "waiter_sound (\<lambda>t. t) (source_waiter quiet_source) (read_once quiet_source 7 \<lparr>after_sequence = 0, page_limit = 50\<rparr>)"
    by (simp add: waiter_sound_def quiet_source_def read_once_def wp)
qed simp

section \<open>Following the history\<close>

definition event_history_page :: "uuid \<Rightarrow> int \<Rightarrow> 'a mission_repo_scheme \<Rightarrow> int \<Rightarrow> execution_event list \<times> int option" where
  "event_history_page k limit s after =
     (case fst (get_event_history get_mission None k \<lparr>after_sequence = after, page_limit = limit\<rparr> s) of
        Inl e \<Rightarrow> ([], None)
      | Inr p \<Rightarrow> (page_items p, if has_more p then Some (latest_sequence p) else None))"

text \<open>A client that asks for the events after sequence zero, and then after the latest sequence of
  each page as long as there are more, receives the whole log of the mission: every event once and in
  order, whatever the size of the pages.\<close>

theorem event_history_complete:
  assumes "map_of (missions s) k = Some m" and "log_valid m" and "1 \<le> limit" and "length (execution_log m) < n"
  shows "follow (event_history_page k limit s) n 0 = execution_log m"
proof -
  have "event_history_page k limit s = (\<lambda>after. event_page_at (nat limit) after m)"
    using assms(1,3)
    by (simp add: fun_eq_iff event_history_page_def get_event_history_def get_mission_def gets_def bindE_def ret_def
        event_page_at_def Let_def)
  moreover have all: "events_beyond 0 m = execution_log m"
    using assms(2) by (auto simp: events_beyond_def log_valid_iff log_spec_def filter_id_conv)
  moreover have "follow (\<lambda>after. event_page_at (nat limit) after m) n 0 = events_beyond 0 m"
    by (rule event_pages.follow_rows [OF assms(2)]) (use assms(3,4) all in simp_all)
  ultimately show ?thesis by simp
qed

definition two_events :: mission where
  "two_events = (sample_mission Created)\<lparr>last_event_sequence := 2, execution_log :=
     [\<lparr>event_id = 5, correlation_id = 5, causation_id = None, event_sequence = 1, event_timestamp = Aware 0,
       event_type = ''mission_paused'', event_message = ''m'', event_metadata = []\<rparr>,
      \<lparr>event_id = 6, correlation_id = 5, causation_id = Some 5, event_sequence = 2, event_timestamp = Aware 1,
       event_type = ''mission_resumed'', event_message = ''m'', event_metadata = []\<rparr>]\<rparr>"

theorem event_history_complete_witness:
  "follow (event_history_page 7 1 \<lparr>missions = [(7, two_events)], attempts = [], fresh = (\<lambda>n. n), tick = 0\<rparr>) 3 0
     = execution_log two_events \<and> length (execution_log two_events) = 2"
proof
  show "follow (event_history_page 7 1 \<lparr>missions = [(7, two_events)], attempts = [], fresh = (\<lambda>n. n), tick = 0\<rparr>) 3 0 = execution_log two_events"
    by (rule event_history_complete) (simp_all add: log_valid_def two_events_def validate_event_sequence_def)
qed (simp add: two_events_def)

end
