(* ===== verification/MissionApi.thy ===== *)
theory MissionApi
  imports Lifecycle Identities EventHistory
begin

text \<open>
  The endpoints of missions: \<open>app/api/routes/missions.py\<close> with the request and response models of
  \<open>app/schemas/mission.py\<close>. The state holds the receipts of commands and of creations beside the state
  of the services. An exception that no \<open>except\<close> clause names leaves the endpoint as it is.
\<close>

section \<open>State\<close>

type_synonym 'w mission_api = "command_receipts \<times> creation_receipts \<times> 'w sys"

type_synonym ('w, 'a) mission_endpoint = "('w mission_api, exn, 'a) prog"

definition on_sys :: "('w sys, exn, 'a) prog \<Rightarrow> ('w, 'a) mission_endpoint" where
  "on_sys f = on_services (on_services f)"

definition on_mission_creations :: "(creation_receipts, exn, 'a) prog \<Rightarrow> ('w, 'a) mission_endpoint" where
  "on_mission_creations f = on_services (on_receipts f)"

section \<open>Versions\<close>

definition mission_etag :: "mission \<Rightarrow> string" where
  "mission_etag m = [CHR 0x22] @ int_str (last_event_sequence m) @ [CHR 0x22]"

definition mission_tagged :: "mission \<Rightarrow> mission \<times> string" where
  "mission_tagged m = (m, mission_etag m)"

text \<open>\<open>str.strip\<close> with one character.\<close>

definition strip_char :: "char \<Rightarrow> string \<Rightarrow> string" where
  "strip_char c s = rev (dropWhile (\<lambda>x. x = c) (rev (dropWhile (\<lambda>x. x = c) s)))"

definition invalid_mission_version :: exn where
  "invalid_mission_version = HTTPException 422 ''invalid_mission_version''"

definition mission_version_conflict :: exn where
  "mission_version_conflict = HTTPException 409 ''mission_version_conflict''"

definition ensure_mission_version :: "uuid \<Rightarrow> string option \<Rightarrow> ('w sys, exn, unit) prog" where
  "ensure_mission_version k if_match =
     (case if_match of
        None \<Rightarrow> ret ()
      | Some v \<Rightarrow>
          (case py_int (strip_char CHR 0x22 (py_strip v)) of
             None \<Rightarrow> raise invalid_mission_version
           | Some expected \<Rightarrow>
               if expected < 0 then raise invalid_mission_version
               else bindE (get_mission k) (\<lambda>found.
                 case found of
                   None \<Rightarrow> raise MissionNotFoundError
                 | Some m \<Rightarrow> if last_event_sequence m \<noteq> expected then raise mission_version_conflict else ret ())))"

section \<open>Errors as responses\<close>

definition mission_not_found :: exn where
  "mission_not_found = HTTPException 404 ''Mission not found''"

text \<open>The body of a handler, its \<open>except\<close> clauses, and the entity tag of the mission it answers with.\<close>

definition answering :: "(exn \<Rightarrow> exn) \<Rightarrow> ('w, mission) mission_endpoint \<Rightarrow> ('w, mission \<times> string) mission_endpoint" where
  "answering responses body = tryElse body (\<lambda>e. raise (responses e)) (\<lambda>m. ret (mission_tagged m))"

fun idempotency_responses :: "exn \<Rightarrow> exn" where
  "idempotency_responses MissionCommandIdempotencyConflictError = HTTPException 409 ''Idempotency key conflict''"
| "idempotency_responses MissionCommandInProgressError = HTTPException 409 ''Command is in progress''"
| "idempotency_responses MissionNotFoundError = mission_not_found"
| "idempotency_responses e = e"

fun update_responses :: "exn \<Rightarrow> exn" where
  "update_responses MissionNotFoundError = mission_not_found"
| "update_responses (MissionUpdateNotAllowedError st) = HTTPException 409 ''mission_update_not_allowed''"
| "update_responses InvalidMissionUpdateError = HTTPException 422 ''invalid_mission_update''"
| "update_responses e = e"

fun provider_responses :: "exn \<Rightarrow> exn" where
  "provider_responses MissionNotFoundError = mission_not_found"
| "provider_responses (MissionProviderSelectionNotAllowedError k st) = HTTPException 409 ''mission_provider_selection_not_allowed''"
| "provider_responses e = e"

fun schedule_responses :: "exn \<Rightarrow> exn" where
  "schedule_responses MissionNotFoundError = mission_not_found"
| "schedule_responses (MissionSchedulingNotAllowedError st) = HTTPException 409 ''mission_scheduling_not_allowed''"
| "schedule_responses (InvalidMissionScheduleError msg) = HTTPException 422 msg"
| "schedule_responses e = e"

fun pause_responses :: "exn \<Rightarrow> exn" where
  "pause_responses (MissionPauseNotAllowedError st) = HTTPException 409 ''mission_pause_not_allowed''"
| "pause_responses e = idempotency_responses e"

fun resume_responses :: "exn \<Rightarrow> exn" where
  "resume_responses (MissionResumeNotAllowedError st) = HTTPException 409 ''mission_resume_not_allowed''"
| "resume_responses e = idempotency_responses e"

fun retry_responses :: "exn \<Rightarrow> exn" where
  "retry_responses (MissionRetryNotAllowedError st) = HTTPException 409 ''mission_retry_not_allowed''"
| "retry_responses MissionAttemptsExhaustedError = HTTPException 409 ''mission_attempts_exhausted''"
| "retry_responses (InvalidMissionRetryTimeError msg) = HTTPException 422 msg"
| "retry_responses e = idempotency_responses e"

fun run_responses :: "exn \<Rightarrow> exn" where
  "run_responses (InvalidMissionRunError st) = HTTPException 409 (''Mission cannot be started from status '' @ [CHR 0x27] @ status_value st @ [CHR 0x27])"
| "run_responses (MissionNotReadyError msg) = HTTPException 409 msg"
| "run_responses e = idempotency_responses e"

fun confirm_responses :: "exn \<Rightarrow> exn" where
  "confirm_responses (InvalidMissionConfirmationError msg) = HTTPException 409 msg"
| "confirm_responses e = idempotency_responses e"

fun cancel_responses :: "exn \<Rightarrow> exn" where
  "cancel_responses (InvalidMissionCancellationError msg) = HTTPException 409 msg"
| "cancel_responses e = idempotency_responses e"

text \<open>The handlers of the application (\<open>app/api/exception_handlers.py\<close>) turn what an endpoint raises into
  a status and a code. A request that its model refuses never reaches the endpoint; any other exception
  without a handler is an internal error.\<close>

definition request_validation_error :: exn where
  "request_validation_error = HTTPException 422 ''request_validation_error''"

fun map_provider_resolution_error :: "exn \<Rightarrow> (nat \<times> string) option" where
  "map_provider_resolution_error (UnknownProviderError pid) = Some (422, ''unknown_provider'')"
| "map_provider_resolution_error (UnsupportedMissionTypeError pid mt) = Some (422, ''unsupported_mission_type'')"
| "map_provider_resolution_error (UnsupportedExecutionModeError mode pid) =
     Some (if pid \<noteq> None then 422 else 409, ''unsupported_execution_mode'')"
| "map_provider_resolution_error (NoSupportingProviderError mt) = Some (409, ''no_supporting_provider'')"
| "map_provider_resolution_error (AmbiguousProviderError mt ids) = Some (409, ''ambiguous_provider'')"
| "map_provider_resolution_error e = None"

fun app_response :: "exn \<Rightarrow> (nat \<times> string) option" where
  "app_response (HTTPException n c) = Some (n, c)"
| "app_response e = map_provider_resolution_error e"

section \<open>Requests\<close>

record mission_create =
  req_type :: "string option"
  req_mission_type :: mission_type
  req_origin :: string
  req_destination :: string
  req_departure_date :: int
  req_title :: string
  req_participant_ids :: "uuid list"
  req_provider :: string
  req_execution_mode :: execution_mode
  req_provider_id :: "string option"
  req_constraints :: train_constraints
  req_fallback_rules :: fallback_rules
  req_scheduled_at :: "datetime option"
  req_expires_at :: "datetime option"
  req_max_execution_attempts :: int

definition aware_request_time :: "datetime option \<Rightarrow> exn + datetime option" where
  "aware_request_time value =
     (case value of None \<Rightarrow> Inr None | Some t \<Rightarrow> if \<not> is_aware t then Inl ValidationError else Inr (Some t))"

text \<open>The validator of \<open>scheduled_at\<close> and \<open>expires_at\<close> reads the clock at \<open>now\<close>.\<close>

definition validate_request_time :: "time \<Rightarrow> datetime option \<Rightarrow> exn + datetime option" where
  "validate_request_time now value =
     (case value of
        None \<Rightarrow> Inr None
      | Some t \<Rightarrow>
          if \<not> is_aware t then Inl ValidationError
          else if instant t < now then Inl ValidationError else Inr (Some t))"

text \<open>\<open>validate_participants\<close>.\<close>

definition participants_request_ok :: "mission_create \<Rightarrow> bool" where
  "participants_request_ok r \<longleftrightarrow>
     distinct (req_participant_ids r)
     \<and> passengers_count (req_constraints r) = int (length (req_participant_ids r))
     \<and> (case (req_scheduled_at r, req_expires_at r) of
          (Some s, Some e) \<Rightarrow> \<not> instant s > instant e
        | _ \<Rightarrow> True)"

definition make_provider_request :: "string option \<Rightarrow> exn + string option" where
  "make_provider_request value =
     (case normalize_provider_id value of Inl e \<Rightarrow> Inl ValidationError | Inr p \<Rightarrow> Inr p)"

text \<open>\<open>MissionCreate(...)\<close>: the clock is read once for each of the two times.\<close>

definition make_mission_create :: "time \<Rightarrow> time \<Rightarrow> mission_create \<Rightarrow> exn + mission_create" where
  "make_mission_create now1 now2 raw =
     (case (validate_request_time now1 (req_scheduled_at raw), validate_request_time now2 (req_expires_at raw),
            make_provider_request (req_provider_id raw)) of
        (Inr s, Inr e, Inr p) \<Rightarrow>
          let r = raw\<lparr>req_scheduled_at := s, req_expires_at := e, req_provider_id := p\<rparr> in
          if req_participant_ids r = [] \<or> req_provider r = [] \<or> passengers_count (req_constraints r) < 1
             \<or> req_max_execution_attempts r < 1 \<or> 100 < req_max_execution_attempts r
          then Inl ValidationError
          else if \<not> participants_request_ok r then Inl ValidationError
          else Inr r
      | _ \<Rightarrow> Inl ValidationError)"

definition mission_to_domain :: "mission_create \<Rightarrow> ('a mission_repo_scheme, exn, mission) prog" where
  "mission_to_domain r =
     bindE new_uuid (\<lambda>i.
     bindE (liftE (make_train_payload (req_origin r) (req_destination r) (req_departure_date r))) (\<lambda>p.
     liftE (make_mission
       \<lparr>mission_id = i, legacy_type = TrainTicket, mission_type = req_mission_type r, payload = Some p,
        title = req_title r, status = (if req_scheduled_at r \<noteq> None then Waiting else Created),
        participant_ids = req_participant_ids r, provider = req_provider r,
        execution_mode = req_execution_mode r, provider_id = req_provider_id r,
        resolved_provider_id = None, reservation_id = None, constraints = req_constraints r,
        fallback_rules = req_fallback_rules r, scheduled_at = None, expires_at = None, claimed_at = None,
        execution_attempts = 0, max_execution_attempts = req_max_execution_attempts r,
        last_event_sequence = 0, execution_log = [], best_option = None, persisted_last_event_sequence = 0\<rparr>
       (req_scheduled_at r) (req_expires_at r) None)))"

text \<open>\<open>MissionUpdateRequest\<close>: a field is not given (\<open>None\<close>) or given; a given \<open>null\<close> is refused.\<close>

definition normalize_title :: "string option option \<Rightarrow> exn + string option option" where
  "normalize_title value =
     (case value of
        Some (Some v) \<Rightarrow> (case normalize_name 500 v of Inl e \<Rightarrow> Inl e | Inr n \<Rightarrow> Inr (Some (Some n)))
      | _ \<Rightarrow> Inr value)"

definition max_attempts_ok :: "int option option \<Rightarrow> bool" where
  "max_attempts_ok value \<longleftrightarrow> (case value of Some (Some n) \<Rightarrow> 1 \<le> n \<and> n \<le> 100 | _ \<Rightarrow> True)"

definition make_mission_update ::
  "string option option \<Rightarrow> fallback_rules option option \<Rightarrow> execution_mode option option \<Rightarrow> int option option
     \<Rightarrow> exn + mission_changes" where
  "make_mission_update ti fr em ma =
     (case normalize_title ti of
        Inl e \<Rightarrow> Inl ValidationError
      | Inr ti' \<Rightarrow>
          if \<not> max_attempts_ok ma then Inl ValidationError
          else if ti' = None \<and> fr = None \<and> em = None \<and> ma = None then Inl ValidationError
          else if ti' = Some None \<or> fr = Some None \<or> em = Some None \<or> ma = Some None then Inl ValidationError
          else Inr \<lparr>new_title = flatten_given ti', new_rules = flatten_given fr, new_mode = flatten_given em,
                 new_max_attempts = flatten_given ma\<rparr>)"

section \<open>Creation\<close>

definition unknown_participants :: "uuid list \<Rightarrow> ('w sys, exn, uuid list) prog" where
  "unknown_participants ids = gets (\<lambda>s. filter (\<lambda>p. map_of (identities s) p = None) ids)"

definition create_mission_new :: "mission_create \<Rightarrow> ('w sys, exn, mission) prog" where
  "create_mission_new r = bindE (mission_to_domain r) create_mission"

definition replay_mission :: "uuid \<Rightarrow> ('w sys, exn, mission) prog" where
  "replay_mission pid =
     bindE (get_mission pid) (\<lambda>previous. case previous of None \<Rightarrow> raise AssertionError | Some m \<Rightarrow> ret m)"

text \<open>The \<open>except\<close> clauses.\<close>

definition mission_creation_failed :: "string \<Rightarrow> string \<Rightarrow> exn \<Rightarrow> ('w, 'a) mission_endpoint" where
  "mission_creation_failed key fingerprint e =
     (if e = ResourceCreationConflictError then raise (HTTPException 409 ''idempotency_key_conflict'')
      else if e = ResourceCreationInProgressError then raise (HTTPException 409 ''idempotent_request_in_progress'')
      else thenE (on_mission_creations (abort_creation MissionScope key fingerprint)) (raise e))"

text \<open>\<open>fingerprint\<close> is the digest \<open>creation_fingerprint(mission)\<close> of the request.\<close>

definition create_mission_endpoint ::
  "mission_create \<Rightarrow> string \<Rightarrow> string option \<Rightarrow> ('w, mission \<times> string) mission_endpoint" where
  "create_mission_endpoint r fingerprint idempotency_key =
     bindE (on_sys (unknown_participants (req_participant_ids r))) (\<lambda>unknown.
     thenE (require (unknown = []) (HTTPException 422 ''unknown_participants''))
     (case idempotency_key of
        None \<Rightarrow> bindE (on_sys (create_mission_new r)) (\<lambda>m. ret (mission_tagged m))
      | Some key \<Rightarrow>
          tryElse
            (bindE (on_mission_creations (begin_creation MissionScope key fingerprint)) (\<lambda>previous.
               case previous of
                 Some pid \<Rightarrow> on_sys (replay_mission pid)
               | None \<Rightarrow> bindE (on_sys (create_mission_new r)) (\<lambda>created.
                   thenE (on_mission_creations (complete_creation MissionScope key (mission_id created))) (ret created))))
            (mission_creation_failed key fingerprint)
            (\<lambda>m. ret (mission_tagged m))))"

section \<open>Reading\<close>

text \<open>\<open>Query(ge=lo, le=hi)\<close>.\<close>

definition query_between :: "int \<Rightarrow> int \<Rightarrow> int \<Rightarrow> ('s, exn, unit) prog" where
  "query_between lo hi n = require (lo \<le> n \<and> n \<le> hi) request_validation_error"

definition list_missions_endpoint ::
  "mission_status option \<Rightarrow> mission_type option \<Rightarrow> int \<Rightarrow> ('w, mission list) mission_endpoint" where
  "list_missions_endpoint st mt limit = thenE (query_between 1 500 limit) (on_sys (list_missions st mt limit))"

definition list_mission_summaries_endpoint ::
  "mission_status option \<Rightarrow> mission_type option \<Rightarrow> int \<Rightarrow> ('w, mission_summary list) mission_endpoint" where
  "list_mission_summaries_endpoint st mt limit = thenE (query_between 1 500 limit) (on_sys (list_summaries st mt limit))"

record mission_summary_page =
  summary_items :: "mission_summary list"
  summary_has_more :: bool
  summary_next_cursor :: "uuid option"

definition summary_page_of :: "int \<Rightarrow> mission_summary list \<Rightarrow> mission_summary_page" where
  "summary_page_of limit candidates =
     (let has_more = int (length candidates) > limit; items = first_n limit candidates in
      \<lparr>summary_items = items, summary_has_more = has_more,
       summary_next_cursor = (if has_more then Some (summary_id (last items)) else None)\<rparr>)"

text \<open>The cursor, a base64 text in the code, is taken decoded.\<close>

definition page_mission_summaries ::
  "mission_status option \<Rightarrow> mission_type option \<Rightarrow> int \<Rightarrow> uuid option \<Rightarrow> ('w, mission_summary_page) mission_endpoint" where
  "page_mission_summaries st mt limit cursor =
     thenE (query_between 1 500 limit)
     (bindE (on_sys (list_summary_page_candidates st mt cursor (limit + 1))) (\<lambda>candidates.
      ret (summary_page_of limit candidates)))"

definition found_mission :: "uuid \<Rightarrow> ('w, mission) mission_endpoint" where
  "found_mission k =
     bindE (on_sys (get_mission k)) (\<lambda>found. case found of None \<Rightarrow> raise mission_not_found | Some m \<Rightarrow> ret m)"

definition get_mission_endpoint :: "uuid \<Rightarrow> string option \<Rightarrow> ('w, mission get_response) mission_endpoint" where
  "get_mission_endpoint k if_none_match =
     bindE (found_mission k) (\<lambda>m.
       if if_none_match_matches if_none_match (mission_etag m) then ret (NotModified (mission_etag m))
       else ret (Full m (mission_etag m)))"

definition get_mission_outcome_endpoint :: "uuid \<Rightarrow> ('w, mission_outcome \<times> string) mission_endpoint" where
  "get_mission_outcome_endpoint k =
     bindE (found_mission k) (\<lambda>m. ret (get_mission_outcome m, mission_etag m))"

record attempt_response =
  response_attempt_id :: uuid
  response_attempt_number :: int
  response_attempt_status :: attempt_status
  response_claimed_at :: datetime
  response_finished_at :: "datetime option"
  response_resolved_provider_id :: "string option"
  response_reservation_id :: "string option"

definition attempt_response_of :: "attempt \<Rightarrow> attempt_response" where
  "attempt_response_of a =
     \<lparr>response_attempt_id = attempt_id a, response_attempt_number = attempt_number a,
      response_attempt_status = attempt_status a, response_claimed_at = attempt_claimed_at a,
      response_finished_at = attempt_finished_at a, response_resolved_provider_id = attempt_resolved_provider_id a,
      response_reservation_id = attempt_reservation_id a\<rparr>"

definition get_execution_attempts_endpoint :: "uuid \<Rightarrow> ('w, uuid \<times> attempt_response list) mission_endpoint" where
  "get_execution_attempts_endpoint k =
     thenE (found_mission k)
     (bindE (on_sys (list_execution_attempts k)) (\<lambda>as. ret (k, map attempt_response_of as)))"

text \<open>The source of waiting and its polling interval are those \<open>dependencies.py\<close> wires; \<open>None\<close> is a wait
  that has not ended within \<open>fuel\<close> rounds.\<close>

definition get_event_history_endpoint ::
  "'w sys projection_reader option \<Rightarrow> 'w sys event_source \<Rightarrow> timedelta \<Rightarrow> nat \<Rightarrow> uuid \<Rightarrow> int \<Rightarrow> int \<Rightarrow> int
     \<Rightarrow> ('w, event_page option) mission_endpoint" where
  "get_event_history_endpoint reader src poll fuel k after limit wait_seconds =
     thenE (require (0 \<le> after) request_validation_error)
     (thenE (query_between 1 100 limit)
     (thenE (query_between 0 30 wait_seconds)
     (tryElse
        (bindE (liftE (make_event_page_request \<lparr>after_sequence = after, page_limit = limit\<rparr>)) (\<lambda>r.
         on_sys (if wait_seconds \<noteq> 0 then wait_for_event_history src poll k r (seconds wait_seconds) fuel
                 else bindE (get_event_history get_mission reader k r) (\<lambda>p. ret (Some p)))))
        (\<lambda>e. raise (if e = MissionNotFoundError then mission_not_found else e))
        ret)))"

definition preview_provider_resolution_endpoint :: "'w registry \<Rightarrow> uuid \<Rightarrow> ('w, preview) mission_endpoint" where
  "preview_provider_resolution_endpoint registry k =
     bindE (on_sys (get_mission k)) (\<lambda>found.
       tryElse (liftE (preview_resolution registry found))
         (\<lambda>e. raise (if e = MissionNotFoundError then mission_not_found else e)) ret)"

section \<open>Changing\<close>

definition update_mission_endpoint ::
  "uuid \<Rightarrow> 'w registry \<Rightarrow> mission_changes \<Rightarrow> string option \<Rightarrow> ('w, mission \<times> string) mission_endpoint" where
  "update_mission_endpoint k registry c if_match =
     answering update_responses (on_sys (thenE (ensure_mission_version k if_match) (update_mission_config k registry c)))"

definition set_mission_provider_endpoint ::
  "uuid \<Rightarrow> 'w registry \<Rightarrow> string option \<Rightarrow> string option \<Rightarrow> ('w, mission \<times> string) mission_endpoint" where
  "set_mission_provider_endpoint k registry pid if_match =
     answering provider_responses
       (on_sys (thenE (ensure_mission_version k if_match) (set_mission_provider k registry pid)))"

definition schedule_mission_endpoint ::
  "uuid \<Rightarrow> datetime option \<Rightarrow> string option \<Rightarrow> ('w, mission \<times> string) mission_endpoint" where
  "schedule_mission_endpoint k scheduled if_match =
     answering schedule_responses (on_sys (thenE (ensure_mission_version k if_match) (schedule_mission k scheduled None)))"

text \<open>The commands: the version is checked before the receipt of the idempotency key is looked at.\<close>

definition guarded_command ::
  "uuid \<Rightarrow> mission_command \<Rightarrow> string \<Rightarrow> string option \<Rightarrow> ('w sys, exn, mission) prog \<Rightarrow> ('w, mission) mission_endpoint" where
  "guarded_command k command key if_match execute =
     thenE (on_sys (ensure_mission_version k if_match))
     (execute_idempotent_mission_command k command key (\<lambda>s pid. map_of (missions (snd s)) pid) (on_services execute))"

definition pause_mission_endpoint :: "uuid \<Rightarrow> string \<Rightarrow> string option \<Rightarrow> ('w, mission \<times> string) mission_endpoint" where
  "pause_mission_endpoint k key if_match =
     answering pause_responses (guarded_command k PauseCommand key if_match (pause_mission k))"

definition resume_mission_endpoint :: "uuid \<Rightarrow> string \<Rightarrow> string option \<Rightarrow> ('w, mission \<times> string) mission_endpoint" where
  "resume_mission_endpoint k key if_match =
     answering resume_responses (guarded_command k ResumeCommand key if_match (resume_mission k))"

definition retry_mission_endpoint ::
  "uuid \<Rightarrow> datetime option \<Rightarrow> string \<Rightarrow> string option \<Rightarrow> ('w, mission \<times> string) mission_endpoint" where
  "retry_mission_endpoint k retry_at key if_match =
     answering retry_responses (guarded_command k RetryCommand key if_match (retry_mission k retry_at None Manual None))"

definition run_mission_endpoint ::
  "uuid \<Rightarrow> 'w registry \<Rightarrow> string \<Rightarrow> string option \<Rightarrow> ('w, mission \<times> string) mission_endpoint" where
  "run_mission_endpoint k registry key if_match =
     answering run_responses (guarded_command k RunCommand key if_match (run_mission k registry None False))"

definition confirm_mission_endpoint ::
  "uuid \<Rightarrow> 'w registry \<Rightarrow> string \<Rightarrow> string option \<Rightarrow> ('w, mission \<times> string) mission_endpoint" where
  "confirm_mission_endpoint k registry key if_match =
     answering confirm_responses (guarded_command k ConfirmCommand key if_match (confirm_mission k registry))"

definition cancel_mission_endpoint ::
  "uuid \<Rightarrow> 'w registry \<Rightarrow> string \<Rightarrow> string option \<Rightarrow> ('w, mission \<times> string) mission_endpoint" where
  "cancel_mission_endpoint k registry key if_match =
     answering cancel_responses (guarded_command k CancelCommand key if_match (cancel_mission k registry))"

end
