(* ===== verification/MissionApiContracts.thy ===== *)
theory MissionApiContracts
  imports MissionApi IdentityContracts ClaimContracts LifecycleContracts EngineContracts RunFrame
begin

text \<open>
  What the mission endpoints guarantee: a stale \<open>If-Match\<close> is refused by every changing endpoint, a
  current one changes nothing, a creation happens once per key, the pages of summaries cover a
  listing exactly once. What they do not: a command that has succeeded is not replayed to a request
  that repeats its \<open>If-Match\<close>, and the claim of a mission leaves its entity tag as it was.
\<close>

section \<open>Versions\<close>

lemma on_sys_run: "on_sys f (d, c, s) = (case f s of (x, t) \<Rightarrow> (x, (d, c, t)))"
  by (simp add: on_sys_def on_services_def split: prod.split)

lemma mission_etag_strip [simp]: "py_strip (mission_etag m) = mission_etag m"
  by (rule strip_id) (simp add: mission_etag_def is_space_def)

lemma strip_char_quoted:
  assumes "c \<notin> set s"
  shows "strip_char c ([c] @ s @ [c]) = s"
proof -
  have "dropWhile (\<lambda>x. x = c) (s @ [c]) = (if s = [] then [] else s @ [c])" using assms by (cases s) auto
  moreover have "dropWhile (\<lambda>x. x = c) (rev s) = rev s" using assms by (intro dropWhile_fix) (cases s rule: rev_cases; auto)
  ultimately show ?thesis by (simp add: strip_char_def)
qed

lemma quote_not_in_int: "CHR 0x22 \<notin> set (int_str n)"
  using int_str_chars [of "CHR 0x22" n] by (auto simp: is_digit_def)

lemma etag_version [simp]: "py_int (strip_char CHR 0x22 (py_strip (mission_etag m))) = Some (last_event_sequence m)"
  unfolding mission_etag_strip by (simp add: mission_etag_def strip_char_quoted [OF quote_not_in_int, simplified])

lemma ensure_version_etag:
  assumes "map_of (missions s) k = Some m" and "0 \<le> last_event_sequence m'"
  shows "ensure_mission_version k (Some (mission_etag m')) s =
    (if last_event_sequence m' = last_event_sequence m then (Inr (), s) else (Inl mission_version_conflict, s))"
  using assms
  by (simp add: ensure_mission_version_def bindE_def get_mission_def gets_def raise_def ret_def del: mission_etag_strip)

lemma ensure_version_state: "snd (ensure_mission_version k v s) = s"
  by (simp add: ensure_mission_version_def bindE_def get_mission_def gets_def raise_def ret_def split: option.split)

lemma ensure_version_absent: "ensure_mission_version k None s = (Inr (), s)"
  by (simp add: ensure_mission_version_def ret_def)

lemma ensure_version_none [simp]: "thenE (ensure_mission_version k None) f = f"
  by (simp add: ensure_mission_version_def thenE_def bindE_def ret_def fun_eq_iff)

lemma mission_etag_inj: "mission_etag m = mission_etag m' \<longleftrightarrow> last_event_sequence m = last_event_sequence m'"
  by (simp add: mission_etag_def)

lemma none_match_etag: "if_none_match_matches (Some (mission_etag m)) (mission_etag m') \<longleftrightarrow> last_event_sequence m = last_event_sequence m'"
proof -
  have q: "take 2 (mission_etag m) \<noteq> ''W/''" "mission_etag m \<noteq> ''*''" by (simp_all add: mission_etag_def)
  have "split_on CHR '','' (mission_etag m) = [mission_etag m]"
    using int_str_chars [of "CHR '',''" "last_event_sequence m"]
    by (intro split_on_absent) (auto simp: mission_etag_def is_digit_def)
  then show ?thesis by (simp add: if_none_match_matches_def Let_def q mission_etag_inj)
qed

section \<open>The changing endpoints\<close>

datatype mission_request =
    PatchMission mission_changes
  | PutProvider "string option"
  | PutSchedule "datetime option"
  | PostPause string
  | PostResume string
  | PostRetry "datetime option" string
  | PostRun string
  | PostConfirm string
  | PostCancel string

fun serve_mission :: "'w registry \<Rightarrow> uuid \<Rightarrow> mission_request \<Rightarrow> string option \<Rightarrow> ('w, mission \<times> string) mission_endpoint" where
  "serve_mission r k (PatchMission c) v = update_mission_endpoint k r c v"
| "serve_mission r k (PutProvider p) v = set_mission_provider_endpoint k r p v"
| "serve_mission r k (PutSchedule t) v = schedule_mission_endpoint k t v"
| "serve_mission r k (PostPause key) v = pause_mission_endpoint k key v"
| "serve_mission r k (PostResume key) v = resume_mission_endpoint k key v"
| "serve_mission r k (PostRetry t key) v = retry_mission_endpoint k t key v"
| "serve_mission r k (PostRun key) v = run_mission_endpoint k r key v"
| "serve_mission r k (PostConfirm key) v = confirm_mission_endpoint k r key v"
| "serve_mission r k (PostCancel key) v = cancel_mission_endpoint k r key v"

lemmas endpoint_defs = update_mission_endpoint_def set_mission_provider_endpoint_def schedule_mission_endpoint_def
  pause_mission_endpoint_def resume_mission_endpoint_def retry_mission_endpoint_def run_mission_endpoint_def
  confirm_mission_endpoint_def cancel_mission_endpoint_def

text \<open>Both shapes of an endpoint, before the version check and after it.\<close>

lemma answering_versioned:
  assumes "map_of (missions s) k = Some m" and "0 \<le> last_event_sequence m'"
    and "responses mission_version_conflict = mission_version_conflict"
  shows "answering responses (on_sys (thenE (ensure_mission_version k (Some (mission_etag m'))) f)) (d, c, s) =
    (if last_event_sequence m' = last_event_sequence m
     then answering responses (on_sys (thenE (ensure_mission_version k None) f)) (d, c, s)
     else (Inl mission_version_conflict, (d, c, s)))"
  unfolding ensure_version_none
  using ensure_version_etag [OF assms(1,2)] assms(3)
  by (simp add: answering_def tryElse_def on_sys_run thenE_def bindE_def raise_def)

lemma answering_command:
  fixes s :: "'w sys"
  assumes "map_of (missions s) k = Some m" and "0 \<le> last_event_sequence m'"
    and "responses mission_version_conflict = mission_version_conflict"
  shows "answering responses (guarded_command k command key (Some (mission_etag m')) f) (d, c, s) =
    (if last_event_sequence m' = last_event_sequence m
     then answering responses (guarded_command k command key None f) (d, c, s)
     else (Inl mission_version_conflict, (d, c, s)))"
  using ensure_version_etag [OF assms(1,2)] assms(3) ensure_version_absent [of k s]
  by (simp add: answering_def tryElse_def guarded_command_def on_sys_run thenE_def [of "on_sys x" for x] bindE_def raise_def)

text \<open>C36: every changing endpoint honours \<open>If-Match\<close>: sent with the entity tag of an earlier state of the
  mission, a request is refused with 409 and changes nothing, neither missions nor receipts nor the
  provider's world; sent with the current tag it does exactly what it does without one.\<close>

theorem stale_mission_version_refused:
  assumes "map_of (missions s) k = Some m" and "0 \<le> last_event_sequence m'"
  shows "serve_mission r k q (Some (mission_etag m')) (d, c, s) =
    (if last_event_sequence m' = last_event_sequence m then serve_mission r k q None (d, c, s)
     else (Inl mission_version_conflict, (d, c, s)))"
  by (cases q)
     (simp_all only: serve_mission.simps endpoint_defs,
      (rule answering_versioned [OF assms] answering_command [OF assms], simp add: mission_version_conflict_def)+)

theorem stale_mission_version_refused_witness:
  "serve_mission booking_registry 7 (PostCancel ''key'') (Some (mission_etag ((sample_mission Created)\<lparr>last_event_sequence := 4\<rparr>)))
     ([], [], demo_sys (sample_mission Created)) = (Inl mission_version_conflict, ([], [], demo_sys (sample_mission Created)))"
proof -
  have stored: "map_of (missions (demo_sys (sample_mission Created))) 7 = Some (sample_mission Created)"
    using demo_sys_mission [of "sample_mission Created"] by simp
  show ?thesis
    by (subst stale_mission_version_refused [OF stored]) simp_all
qed

section \<open>Repeating a command\<close>

text \<open>Every command that succeeds records an event, and so raises the version of its mission.\<close>

lemma log_grows: "event_types m = event_types m0 @ e # new \<Longrightarrow> length (execution_log m0) < length (execution_log m)"
  by (drule arg_cong [of _ _ length]) (simp add: event_types_def)

lemma decided_grows: "decided m0 st (e # new) m \<Longrightarrow> length (execution_log m0) < length (execution_log m)"
  unfolding decided_def by (elim conjE) (rule log_grows)

definition version_raised :: "uuid \<Rightarrow> mission \<Rightarrow> mission \<Rightarrow> 'w sys \<Rightarrow> bool" where
  "version_raised k m0 m s \<longleftrightarrow> map_of (missions s) k = Some m \<and> mission_id m = k \<and> last_event_sequence m0 < last_event_sequence m"

lemma version_raised_intro:
  assumes "keeps (others k s) f" and "repo_ok s" and "map_of (missions s) k = Some m0" and "f s = (Inr m, s')"
    and "wp f (\<lambda>m s'. map_of (missions s') k = Some m \<and> length (execution_log m0) < length (execution_log m)) E s"
  shows "version_raised k m0 m s'"
proof -
  have m: "map_of (missions s') k = Some m \<and> length (execution_log m0) < length (execution_log m)"
    using wp_result [OF assms(5,4)] .
  show ?thesis using version_grows [OF assms(1-4)] m by (simp add: version_raised_def)
qed

lemma pause_grows:
  assumes "repo_ok s" and "ids_ok s" and "map_of (missions s) k = Some m0" and "pause_mission k s = (Inr m, s')"
  shows "version_raised k m0 m s'"
  by (rule version_raised_intro [OF keeps_pause assms(1,3,4) wp_mono [OF pause_wp [where W = "\<lambda>_. True", OF assms(1,2) TrueI]]])
     (use assms(3) in \<open>auto simp: finished_def decided_grows\<close>)

lemma resume_grows:
  assumes "repo_ok s" and "ids_ok s" and "map_of (missions s) k = Some m0" and "resume_mission k s = (Inr m, s')"
  shows "version_raised k m0 m s'"
  by (rule version_raised_intro [OF keeps_resume assms(1,3,4) wp_mono [OF resume_wp [where W = "\<lambda>_. True", OF assms(1,2) TrueI]]])
     (use assms(3) in \<open>auto simp: finished_def decided_grows\<close>)

lemma retry_grows:
  assumes "repo_ok s" and "ids_ok s" and "map_of (missions s) k = Some m0"
    and "retry_mission k retry_at current trigger reason s = (Inr m, s')"
  shows "version_raised k m0 m s'"
proof (rule version_raised_intro [OF keeps_retry_mission assms(1,3,4) wp_mono [OF retry_wp [where W = "\<lambda>_. True", OF assms(1,2) TrueI]]])
  fix m s'
  have "length (execution_log m0) < length (execution_log m)" if "retried m0 t m" for t
    using that unfolding retried_def by (elim conjE) (rule log_grows)
  moreover assume "\<exists>m0 t now. map_of (missions s) k = Some m0 \<and> status m0 = Failed
        \<and> execution_attempts m0 < max_execution_attempts m0 \<and> now \<le> t
        \<and> (retry_at = None \<and> t = now \<or> retry_at = Some (Aware t))
        \<and> (current = None \<or> current = Some (Aware now)) \<and> finished k (\<lambda>_. True) (retried m0 t) m s'"
  ultimately show "map_of (missions s') k = Some m \<and> length (execution_log m0) < length (execution_log m)"
    using assms(3) by (auto simp: finished_def)
qed

lemma run_grows:
  assumes "repo_ok s" and "ids_ok s" and "map_of (missions s) k = Some m0" and "run_mission k r t allow s = (Inr m, s')"
  shows "version_raised k m0 m s'"
proof -
  obtain m1 pid where m1: "map_of (missions s) k = Some m1"
      "run_done ((core m1)\<lparr>resolved_provider_id := Some pid\<rparr>) (event_types m1 @ [''provider_resolved'']) m"
      and m: "map_of (missions s') k = Some m"
    by (rule run_result [OF assms(1,2,4)]) (rule that)
  have same: "m1 = m0" using m1(1) assms(3) by simp
  obtain new where "event_types m = (event_types m0 @ [''provider_resolved'']) @ new"
    using m1(2) unfolding run_done_def same by blast
  then have "length (execution_log m0) < length (execution_log m)" by (intro log_grows) simp
  then show ?thesis
    using version_grows [OF keeps_run_mission assms(1,3,4) m] m by (simp add: version_raised_def)
qed

lemma confirm_grows:
  assumes "repo_ok s" and "ids_ok s" and "map_of (missions s) k = Some m0" and "confirm_mission k r s = (Inr m, s')"
  shows "version_raised k m0 m s'"
  by (rule version_raised_intro [OF keeps_confirm_mission assms(1,3,4) wp_mono [OF confirm_mission_reply [OF assms(1,2)]]])
     (use assms(3) in \<open>auto simp: finished_def confirm_result_def decided_grows dest!: confirmed_result split: if_splits\<close>)

lemma cancel_grows:
  assumes "repo_ok s" and "ids_ok s" and "map_of (missions s) k = Some m0" and "cancel_mission k r s = (Inr m, s')"
  shows "version_raised k m0 m s'"
  by (rule version_raised_intro [OF keeps_cancel_mission assms(1,3,4) wp_mono [OF cancel_mission_reply [OF assms(1,2)]]])
     (use assms(3) in \<open>auto simp: finished_def cancel_result_def decided_grows dest!: cancelled_result split: if_splits\<close>)

lemma guarded_none:
  "guarded_command k command key None f (d, c, s) =
     execute_idempotent_mission_command k command key (\<lambda>s pid. map_of (missions (snd s)) pid) (on_services f) (d, c, s)"
  by (simp add: guarded_command_def thenE_def bindE_def on_sys_run ensure_version_absent)

lemma repeated_guarded:
  assumes "map_of (missions s) k = Some m0" and "0 \<le> last_event_sequence m0" and "map_of d key = None"
    and "responses mission_version_conflict = mission_version_conflict"
    and "\<And>m s'. f s = (Inr m, s') \<Longrightarrow> version_raised k m0 m s'"
    and "answering responses (guarded_command k command key (Some (mission_etag m0)) f) (d, c, s) = (Inr (m, tag), st)"
  shows "answering responses (guarded_command k command key (Some (mission_etag m0)) f) st = (Inl mission_version_conflict, st)
    \<and> answering responses (guarded_command k command key None f) st = (Inr (m, tag), st)"
proof -
  note versioned = answering_command [where responses = responses and command = command and key = key and f = f, OF _ assms(2,4)]
  have run: "answering responses (guarded_command k command key None f) (d, c, s) = (Inr (m, tag), st)"
    using assms(6) versioned [OF assms(1), of d c] by simp
  obtain x t where p: "f s = (x, t)" by fastforce
  then have p': "on_services f (c, s) = (x, (c, t))" by (simp add: on_services_def)
  show ?thesis
  proof (cases x)
    case (Inl e)
    then have "fst (answering responses (guarded_command k command key None f) (d, c, s)) = Inl (responses e)"
      using p' assms(3)
      by (simp add: answering_def tryElse_def guarded_none execute_idempotent_mission_command_def bindE_def on_receipts_def
          begin_command_def on_services_def [of "on_services x" for x] thenE_def abort_command_def raise_def)
    then show ?thesis using run by simp
  next
    case (Inr m1)
    have stored: "map_of (missions t) k = Some m1" "mission_id m1 = k" "last_event_sequence m0 < last_event_sequence m1"
      using assms(5) [of m1 t] p Inr by (simp_all add: version_raised_def)
    have "answering responses (guarded_command k command key None f) (d, c, s)
        = (Inr (mission_tagged m1), (dict_set key (k, command, Some k) d, c, t))"
      using execute_started [where execute = "on_services f" and t = "(c, s)", OF assms(3) p' [unfolded Inr]] stored(2)
      by (simp add: answering_def tryElse_def guarded_none ret_def)
    then have r: "(m, tag) = mission_tagged m1" and st: "st = (dict_set key (k, command, Some k) d, c, t)"
      using run by simp_all
    have "answering responses (guarded_command k command key (Some (mission_etag m0)) f) st = (Inl mission_version_conflict, st)"
      using versioned [OF stored(1)] stored(3) unfolding st by simp
    moreover have "answering responses (guarded_command k command key None f) st = (Inr (m, tag), st)"
      using stored(1) unfolding st r
      by (simp add: answering_def tryElse_def guarded_none execute_replayed [where pid = k] ret_def)
    ultimately show ?thesis by simp
  qed
qed

text \<open>The requests that carry an idempotency key: the six commands.\<close>

fun request_key :: "mission_request \<Rightarrow> string option" where
  "request_key (PostPause key) = Some key"
| "request_key (PostResume key) = Some key"
| "request_key (PostRetry t key) = Some key"
| "request_key (PostRun key) = Some key"
| "request_key (PostConfirm key) = Some key"
| "request_key (PostCancel key) = Some key"
| "request_key q = None"

text \<open>C37: the receipts of commands do not make a retry safe for a client that sends \<open>If-Match\<close>: the version
  is checked before the receipt is looked at, and the command itself has raised the version. After a
  command that succeeded, be it a pause, a resume, a retry, a run, a confirmation or a cancellation,
  the same request, with the same key and the same entity tag, is refused with 409; without
  \<open>If-Match\<close> it is answered with the stored result. Neither changes anything.\<close>

theorem repeated_command_refused:
  assumes "repo_ok s" and "ids_ok s" and "map_of (missions s) k = Some m0" and "0 \<le> last_event_sequence m0"
    and "request_key q = Some key" and "map_of d key = None"
    and "serve_mission r k q (Some (mission_etag m0)) (d, c, s) = (Inr (m, tag), st)"
  shows "serve_mission r k q (Some (mission_etag m0)) st = (Inl mission_version_conflict, st)
    \<and> serve_mission r k q None st = (Inr (m, tag), st)"
  using assms(5,7)
  by (cases q)
     (simp_all only: serve_mission.simps endpoint_defs request_key.simps option.inject option.distinct,
      (rule repeated_guarded [OF assms(3,4,6)],
       simp add: mission_version_conflict_def,
       rule pause_grows [OF assms(1-3)] resume_grows [OF assms(1-3)] retry_grows [OF assms(1-3)] run_grows [OF assms(1-3)]
         confirm_grows [OF assms(1-3)] cancel_grows [OF assms(1-3)], assumption, simp)+)

theorem repeated_command_refused_witness:
  "\<exists>m tag st. serve_mission booking_registry 7 (PostCancel ''key'') (Some (mission_etag (sample_mission Created))) ([], [], demo_sys (sample_mission Created))
      = (Inr (m, tag), st) \<and> status m = Cancelled
    \<and> serve_mission booking_registry 7 (PostCancel ''key'') (Some (mission_etag (sample_mission Created))) st = (Inl mission_version_conflict, st)"
proof -
  let ?m = "sample_mission Created"
  let ?s = "demo_sys ?m"
  have seq: "0 \<le> last_event_sequence ?m" and fresh: "map_of [] ''key'' = None" by simp_all
  have stored: "map_of (missions ?s) 7 = Some ?m" using demo_sys_mission [of ?m] by simp
  have ok: "repo_ok ?s" "ids_ok ?s" by (rule demo_sys_ok; simp add: demo_entry_ok)+
  have start: "exec 7 (\<lambda>_. True) False (core ?m) (event_types ?m) ?s"
    using initial_exec [where W = "\<lambda>_. True", OF ok TrueI stored] by simp
  have "wp (cancel_mission 7 booking_registry) (finished 7 (\<lambda>_. True) (decided ?m Cancelled [''mission_cancelled''])) (\<lambda>_ _. False) ?s"
  proof -
    have "wp (cancel_now 7) (finished 7 (\<lambda>_. True) (decided ?m Cancelled [''mission_cancelled''])) (\<lambda>_ _. False) ?s"
      by (rule cancel_now_wp [of 7 _ ?m "[]"]) (use start in \<open>simp_all add: can_transition_def\<close>)
    then show ?thesis
      using stored by (simp add: cancel_mission_def get_mission_def wp_bindE wp_gets wp_ret)
  qed
  then obtain m s' where p: "cancel_mission 7 booking_registry ?s = (Inr m, s')"
      and f: "finished 7 (\<lambda>_. True) (decided ?m Cancelled [''mission_cancelled'']) m s'"
    by (cases "cancel_mission 7 booking_registry ?s") (auto simp: wp_def split: sum.splits)
  have c: "status m = Cancelled" "mission_id m = 7"
    using f repo_ok_id [of s' 7 m] by (auto simp: finished_def dest: decided_status)
  have p': "on_services (cancel_mission 7 booking_registry) (([] :: creation_receipts), ?s) = (Inr m, ([], s'))"
    using p by (simp add: on_services_def)
  have keeps: "cancel_responses mission_version_conflict = mission_version_conflict" by (simp add: mission_version_conflict_def)
  have run: "serve_mission booking_registry 7 (PostCancel ''key'') (Some (mission_etag ?m)) ([], [], ?s)
      = (Inr (m, mission_etag m), ([(''key'', 7, CancelCommand, Some (mission_id m))], [], s'))"
    using execute_started [where execute = "on_services (cancel_mission 7 booking_registry)" and t = "([], ?s)", OF fresh p']
    unfolding serve_mission.simps cancel_mission_endpoint_def answering_command [where responses = cancel_responses, OF stored seq keeps]
    by (simp add: answering_def tryElse_def guarded_none ret_def mission_tagged_def)
  have key: "request_key (PostCancel ''key'') = Some ''key''" by simp
  show ?thesis
    using run c(1) conjunct1 [OF repeated_command_refused [OF ok stored seq key fresh run]] by blast
qed

section \<open>Claims and entity tags\<close>

text \<open>A claim does not show in the entity tag: claiming starts the processing of a mission and counts an
  attempt, but records no event, so a client that revalidates what it saw before the claim is told
  that the waiting mission has not changed.\<close>

theorem claim_keeps_entity_tag:
  assumes "repo_ok s" and "0 < limit" and "m \<in> set (due_missions now limit s)"
  shows "\<exists>rs s' m'. claim_due (Aware now) limit s = (Inr rs, s') \<and> m' \<in> set rs
    \<and> map_of (missions s) (mission_id m) = Some m \<and> map_of (missions s') (mission_id m) = Some m'
    \<and> status m = Waiting \<and> status m' = Processing \<and> execution_attempts m' = execution_attempts m + 1
    \<and> get_mission_endpoint (mission_id m) (Some (mission_etag m)) (d, c, s')
        = (Inr (NotModified (mission_etag m)), (d, c, s'))"
proof -
  obtain s' where c: "claim_due (Aware now) limit s = (Inr (map (claimed now) (due_missions now limit s)), s')"
    and st: "claimed_state now s (due_missions now limit s) s'"
    by (rule claim_due_result [OF assms(1,2)])
  note m = due_in [OF assms(1,3)]
  have here: "map_of (missions s') (mission_id m) = Some (claimed now m)"
    using st assms(3) m by (simp add: claimed_state_def)
  have "last_event_sequence (claimed now m) = last_event_sequence m" by (simp add: claimed_def)
  then have "last_event_sequence (claimed now m) = last_event_sequence m" "mission_etag (claimed now m) = mission_etag m"
    by (simp_all add: mission_etag_inj)
  then have "get_mission_endpoint (mission_id m) (Some (mission_etag m)) (d, c, s')
        = (Inr (NotModified (mission_etag m)), (d, c, s'))"
    using here by (simp add: get_mission_endpoint_def found_mission_def bindE_def on_sys_run get_mission_def gets_def ret_def
        none_match_etag)
  then show ?thesis using c here m assms(3)
    by (intro exI [of _ "map (claimed now) (due_missions now limit s)"] exI [of _ s'] exI [of _ "claimed now m"])
       (simp add: is_due_def)
qed

theorem claim_keeps_entity_tag_witness:
  "\<exists>rs s' m'. claim_due (Aware 9) 3 (demo_sys due_mission) = (Inr rs, s') \<and> m' \<in> set rs \<and> status m' = Processing
    \<and> get_mission_endpoint 7 (Some (mission_etag due_mission)) ([], [], s') = (Inr (NotModified (mission_etag due_mission)), ([], [], s'))"
proof -
  have ok: "repo_ok (demo_sys due_mission)"
    by (rule demo_sys_ok(1))
       (simp_all add: due_mission_def entry_ok_def claim_ok_def has_open_attempt_def log_valid_def validate_event_sequence_def)
  have due: "due_mission \<in> set (due_missions 9 3 (demo_sys due_mission))"
    by (simp add: due_missions_def demo_sys_def dict_values_def is_due_def due_mission_def has_exhausted_attempts_def
        sample_mission_def first_n_def)
  have id: "mission_id due_mission = 7" by (simp add: due_mission_def)
  from claim_keeps_entity_tag [OF ok _ due, of "[]" "[]", unfolded id] show ?thesis by auto
qed

section \<open>Creation\<close>

text \<open>A request that its model accepts and whose cities differ is turned into a mission.\<close>

definition cities_ok :: "mission_create \<Rightarrow> bool" where
  "cities_ok r \<longleftrightarrow> (\<exists>p. make_train_payload (req_origin r) (req_destination r) (req_departure_date r) = Inr p)"

definition participants_known :: "mission_create \<Rightarrow> 'w sys \<Rightarrow> bool" where
  "participants_known r s \<longleftrightarrow> (\<forall>p \<in> set (req_participant_ids r). map_of (identities s) p \<noteq> None)"

text \<open>What the stored mission shows of the request.\<close>

definition mission_of_request :: "mission_create \<Rightarrow> uuid \<Rightarrow> mission \<Rightarrow> bool" where
  "mission_of_request r i m \<longleftrightarrow>
     mission_id m = i \<and> title m = req_title r \<and> participant_ids m = req_participant_ids r
     \<and> map_option Inr (payload m) = Some (make_train_payload (req_origin r) (req_destination r) (req_departure_date r))
     \<and> execution_mode m = req_execution_mode r \<and> provider_id m = req_provider_id r
     \<and> constraints m = req_constraints r \<and> fallback_rules m = req_fallback_rules r
     \<and> map_option Aware (scheduled_at m) = req_scheduled_at r \<and> map_option Aware (expires_at m) = req_expires_at r
     \<and> max_execution_attempts m = req_max_execution_attempts r
     \<and> status m = (if req_scheduled_at r \<noteq> None then Waiting else Created)
     \<and> execution_log m = [] \<and> last_event_sequence m = 0 \<and> execution_attempts m = 0 \<and> claimed_at m = None"

lemma request_time_aware: "validate_request_time n t = Inr t' \<Longrightarrow> t' = t \<and> (\<exists>u. t = map_option Aware u)"
proof (cases t)
  case (Some d)
  assume "validate_request_time n t = Inr t'"
  then show ?thesis using Some
    by (cases d) (auto simp: validate_request_time_def split: if_splits intro: exI [of _ "Some x" for x])
qed (simp add: validate_request_time_def)

lemma request_facts:
  assumes "make_mission_create n1 n2 raw = Inr r"
  shows "req_participant_ids r \<noteq> []" "req_provider r \<noteq> []" "1 \<le> passengers_count (req_constraints r)"
    "1 \<le> req_max_execution_attempts r" "req_max_execution_attempts r \<le> 100"
    "normalize_provider_id (req_provider_id r) = Inr (req_provider_id r)"
    "\<exists>sch. req_scheduled_at r = map_option Aware sch" "\<exists>ex. req_expires_at r = map_option Aware ex"
    "participants_request_ok r"
proof -
  obtain t1 t2 p where t: "validate_request_time n1 (req_scheduled_at raw) = Inr t1"
      "validate_request_time n2 (req_expires_at raw) = Inr t2"
    and p: "make_provider_request (req_provider_id raw) = Inr p"
    using assms by (auto simp: make_mission_create_def split: sum.splits)
  let ?r = "raw\<lparr>req_scheduled_at := t1, req_expires_at := t2, req_provider_id := p\<rparr>"
  have c: "\<not> (req_participant_ids ?r = [] \<or> req_provider ?r = [] \<or> passengers_count (req_constraints ?r) < 1
             \<or> req_max_execution_attempts ?r < 1 \<or> 100 < req_max_execution_attempts ?r)"
    and ok: "participants_request_ok ?r" and r: "r = ?r"
    using assms unfolding make_mission_create_def t p by (simp_all add: Let_def split: if_splits)
  show "req_participant_ids r \<noteq> []" "req_provider r \<noteq> []" "1 \<le> passengers_count (req_constraints r)"
    "1 \<le> req_max_execution_attempts r" "req_max_execution_attempts r \<le> 100"
    using c unfolding r by simp_all
  show "participants_request_ok r" using ok unfolding r .
  have "normalize_provider_id (req_provider_id raw) = Inr p"
    using p by (simp add: make_provider_request_def split: sum.splits)
  then show "normalize_provider_id (req_provider_id r) = Inr (req_provider_id r)"
    unfolding r by (simp add: normalize_provider_id_idem)
  show "\<exists>sch. req_scheduled_at r = map_option Aware sch" "\<exists>ex. req_expires_at r = map_option Aware ex"
    using request_time_aware [OF t(1)] request_time_aware [OF t(2)] unfolding r by simp_all
qed

lemma to_domain_accepted:
  assumes "make_mission_create n1 n2 raw = Inr r" and "cities_ok r"
  obtains m where "mission_to_domain r s = (Inr m, s\<lparr>tick := Suc (tick s)\<rparr>)" and "mission_of_request r (fresh s (tick s)) m"
proof -
  note facts = request_facts [OF assms(1)]
  obtain p where p: "make_train_payload (req_origin r) (req_destination r) (req_departure_date r) = Inr p"
    using assms(2) unfolding cities_ok_def by blast
  obtain sch ex where t: "req_scheduled_at r = map_option Aware sch" "req_expires_at r = map_option Aware ex"
    using facts(7,8) by blast
  have tz: "validate_datetime_timezone (map_option Aware u) = Inr u" for u
    by (cases u) (simp_all add: validate_datetime_timezone_def)
  have order: "case (sch, ex) of (Some a, Some b) \<Rightarrow> a \<le> b | _ \<Rightarrow> True"
    using facts(9) by (auto simp: participants_request_ok_def t split: option.splits)
  let ?i = "fresh s (tick s)" and ?st = "if req_scheduled_at r \<noteq> None then Waiting else Created"
  let ?raw = "\<lparr>mission_id = ?i, legacy_type = TrainTicket, mission_type = req_mission_type r, payload = Some p,
        title = req_title r, status = ?st, participant_ids = req_participant_ids r, provider = req_provider r,
        execution_mode = req_execution_mode r, provider_id = req_provider_id r,
        resolved_provider_id = None, reservation_id = None, constraints = req_constraints r,
        fallback_rules = req_fallback_rules r, scheduled_at = None, expires_at = None, claimed_at = None,
        execution_attempts = 0, max_execution_attempts = req_max_execution_attempts r,
        last_event_sequence = 0, execution_log = [], best_option = None, persisted_last_event_sequence = 0\<rparr>"
  let ?m = "?raw\<lparr>scheduled_at := sch, expires_at := ex\<rparr>"
  have "mission_bounds_ok ?m" using facts(1-5) by (simp add: mission_bounds_ok_def)
  moreover have "mission_fields_ok ?m"
    using facts(4) order by (simp add: mission_fields_ok_def validate_event_sequence_def)
  ultimately have "make_mission ?raw (req_scheduled_at r) (req_expires_at r) None = Inr ?m"
    using facts(6) tz [of None]
    by (simp add: make_mission_def t tz validate_reservation_id_def normalize_provider_id_def [of None] Let_def)
  then have "mission_to_domain r s = (Inr ?m, s\<lparr>tick := Suc (tick s)\<rparr>)"
    by (simp add: mission_to_domain_def bindE_def new_uuid_def liftE_def p)
  moreover have "mission_of_request r ?i ?m" by (simp add: mission_of_request_def p t)
  ultimately show ?thesis using that by blast
qed

lemma participants_pass:
  assumes "participants_known r s"
  shows "on_sys (unknown_participants (req_participant_ids r)) (d, c, s) = (Inr [], (d, c, s))"
  using assms by (simp add: on_sys_run unknown_participants_def gets_def participants_known_def filter_empty_conv)

lemma skip: "thenE (ret ()) f = f"
  by (simp add: thenE_def bindE_def ret_def fun_eq_iff)

lemma create_endpoint_known:
  assumes "participants_known r s"
  shows "create_mission_endpoint r fp (Some key) (d, c, s) =
    tryElse
      (bindE (on_mission_creations (begin_creation MissionScope key fp)) (\<lambda>previous.
         case previous of
           Some pid \<Rightarrow> on_sys (replay_mission pid)
         | None \<Rightarrow> bindE (on_sys (create_mission_new r)) (\<lambda>created.
             thenE (on_mission_creations (complete_creation MissionScope key (mission_id created))) (ret created))))
      (mission_creation_failed key fp) (\<lambda>m. ret (mission_tagged m)) (d, c, s)"
  unfolding create_mission_endpoint_def bindE_def [of "on_sys (unknown_participants x)" for x] participants_pass [OF assms]
  by (simp add: require_def skip)

lemma on_creations_run: "on_mission_creations f (d, c, s) = (case f c of (x, c') \<Rightarrow> (x, (d, c', s)))"
  by (simp add: on_mission_creations_def on_services_def on_receipts_def split: prod.split)

lemma new_mission_stored:
  assumes "mission_to_domain r s = (Inr m, s\<lparr>tick := Suc (tick s)\<rparr>)"
  shows "create_mission_new r s = (Inr m, s\<lparr>tick := Suc (tick s), missions := dict_set (mission_id m) m (missions s)\<rparr>)"
  using assms by (simp add: create_mission_new_def bindE_def create_mission_def thenE_def modify_def ret_def store_mission_def)

lemma repeated_mission_creation:
  assumes "participants_known r s" and "map_of c (MissionScope, key) = Some (fp, Some pid)"
  shows "map_of (missions s) pid = Some m \<Longrightarrow>
      create_mission_endpoint r fp (Some key) (d, c, s) = (Inr (m, mission_etag m), (d, c, s))"
    and "fp2 \<noteq> fp \<Longrightarrow>
      create_mission_endpoint r fp2 (Some key) (d, c, s) = (Inl (HTTPException 409 ''idempotency_key_conflict''), (d, c, s))"
proof -
  note run = create_endpoint_known [OF assms(1)]
  show "create_mission_endpoint r fp (Some key) (d, c, s) = (Inr (m, mission_etag m), (d, c, s))"
    if "map_of (missions s) pid = Some m"
    using assms(2) that
    by (simp add: run tryElse_def bindE_def on_creations_run begin_creation_def on_sys_run replay_mission_def get_mission_def
        gets_def ret_def mission_tagged_def)
  show "create_mission_endpoint r fp2 (Some key) (d, c, s) = (Inl (HTTPException 409 ''idempotency_key_conflict''), (d, c, s))"
    if "fp2 \<noteq> fp"
    using assms(2) that
    by (simp add: run tryElse_def bindE_def on_creations_run begin_creation_def mission_creation_failed_def raise_def)
qed

lemma new_entry_ok:
  assumes "mission_of_request r i m" and "1 \<le> req_max_execution_attempts r"
  shows "entry_ok i m []"
  using assms
  by (simp add: mission_of_request_def entry_ok_def claim_ok_def has_open_attempt_def log_valid_def validate_event_sequence_def)

text \<open>C25: a request for a mission that its model accepts, with two different cities and participants that
  exist, creates the mission it describes, waiting exactly when it has a schedule, in a repository that
  stays sound. From then on, whatever else has changed, the same key and fingerprint create nothing and
  answer with the stored mission, and another fingerprint under that key is refused with 409.\<close>

theorem mission_created_once:
  fixes s :: "'w sys"
  assumes "make_mission_create n1 n2 raw = Inr r" and "cities_ok r" and "participants_known r s"
    and "repo_ok s" and "map_of (missions s) (fresh s (tick s)) = None" and "map_of c (MissionScope, key) = None"
  shows "\<exists>m c' s'. create_mission_endpoint r fp (Some key) (d, c, s) = (Inr (m, mission_etag m), (d, c', s'))
    \<and> mission_of_request r (fresh s (tick s)) m
    \<and> map_of (missions s') = (map_of (missions s))(mission_id m \<mapsto> m) \<and> repo_ok s'
    \<and> (\<forall>r2 d2 c2 (s2 :: 'w sys) m2. participants_known r2 s2 \<longrightarrow> map_of c2 (MissionScope, key) = map_of c' (MissionScope, key) \<longrightarrow>
         map_of (missions s2) (mission_id m) = Some m2 \<longrightarrow>
         create_mission_endpoint r2 fp (Some key) (d2, c2, s2) = (Inr (m2, mission_etag m2), (d2, c2, s2))
         \<and> (fp2 = fp \<or> create_mission_endpoint r2 fp2 (Some key) (d2, c2, s2)
              = (Inl (HTTPException 409 ''idempotency_key_conflict''), (d2, c2, s2))))"
proof -
  obtain m where m: "mission_to_domain r s = (Inr m, s\<lparr>tick := Suc (tick s)\<rparr>)" "mission_of_request r (fresh s (tick s)) m"
    by (rule to_domain_accepted [OF assms(1,2)])
  let ?i = "fresh s (tick s)"
  let ?c = "dict_set (MissionScope, key) (fp, Some (mission_id m)) c"
  let ?s = "s\<lparr>tick := Suc (tick s), missions := dict_set (mission_id m) m (missions s)\<rparr>"
  have run: "create_mission_endpoint r fp (Some key) (d, c, s) = (Inr (m, mission_etag m), (d, ?c, ?s))"
    using assms(6)
    by (simp add: create_endpoint_known [OF assms(3)] tryElse_def bindE_def on_creations_run begin_creation_def on_sys_run
        new_mission_stored [OF m(1)] thenE_def complete_creation_def ret_def mission_tagged_def dict_set_set)
  have id: "mission_id m = ?i" using m(2) by (simp add: mission_of_request_def)
  have "attempts_of s ?i = []" using assms(4,5) unfolding repo_ok_def by (metis option.simps(4))
  then have "entry_ok ?i m (attempts_of ?s ?i)"
    using new_entry_ok [OF m(2) request_facts(4) [OF assms(1)]] by simp
  then have "repo_ok ?s"
    by (intro repo_ok_change [OF assms(4), where k = ?i and m = m])
       (use assms(4) in \<open>simp_all add: repo_ok_def id\<close>)
  moreover have "create_mission_endpoint r2 fp (Some key) (d2, c2, s2) = (Inr (m2, mission_etag m2), (d2, c2, s2))
         \<and> (fp2 = fp \<or> create_mission_endpoint r2 fp2 (Some key) (d2, c2, s2)
              = (Inl (HTTPException 409 ''idempotency_key_conflict''), (d2, c2, s2)))"
    if "participants_known r2 s2" and "map_of c2 (MissionScope, key) = map_of ?c (MissionScope, key)"
      and "map_of (missions s2) (mission_id m) = Some m2" for r2 d2 c2 and s2 :: "'w sys" and m2
    using repeated_mission_creation(1) [where c = c2 and pid = "mission_id m" and fp = fp, OF that(1) _ that(3)]
      repeated_mission_creation(2) [where c = c2 and pid = "mission_id m" and fp = fp and ?fp2.0 = fp2, OF that(1)] that(2) by auto
  ultimately show ?thesis using run m(2)
    by (intro exI [of _ m] exI [of _ ?c] exI [of _ ?s] conjI allI impI) (simp_all add: id)
qed

definition demo_request :: "string \<Rightarrow> mission_create" where
  "demo_request dst =
     \<lparr>req_type = None, req_mission_type = TrainTicket, req_origin = ''Oslo'', req_destination = dst,
      req_departure_date = 739000, req_title = ''trip'', req_participant_ids = [3], req_provider = ''mock'',
      req_execution_mode = RequireConfirmation, req_provider_id = None,
      req_constraints = sample_constraints\<lparr>passengers_count := 1\<rparr>,
      req_fallback_rules = sample_rules, req_scheduled_at = Some (Aware 5), req_expires_at = None,
      req_max_execution_attempts = 3\<rparr>"

lemma demo_request_accepted: "make_mission_create 0 0 (demo_request dst) = Inr (demo_request dst)"
  by (simp add: make_mission_create_def demo_request_def validate_request_time_def make_provider_request_def
      normalize_provider_id_def participants_request_ok_def sample_constraints_def Let_def)

lemma demo_participants: "participants_known (demo_request dst) (demo_sys m)"
  by (simp add: participants_known_def demo_request_def demo_sys_def)

lemmas text_eval = make_train_payload_def py_strip_def is_space_def casefold_def casefold_char_def Let_def

theorem mission_created_once_witness:
  "\<exists>m c' s'. create_mission_endpoint (demo_request ''Bergen'') ''f'' (Some ''k'') ([], [], demo_sys (sample_mission Created))
      = (Inr (m, mission_etag m), ([], c', s'))
    \<and> mission_of_request (demo_request ''Bergen'') 100 m \<and> repo_ok s'"
proof -
  let ?s = "demo_sys (sample_mission Created)"
  have cities: "cities_ok (demo_request ''Bergen'')" by (simp add: cities_ok_def demo_request_def text_eval)
  have ok: "repo_ok ?s" by (rule demo_sys_ok(1)) (simp_all add: demo_entry_ok)
  have new: "fresh ?s (tick ?s) = 100" by (simp add: demo_sys_def)
  then have absent: "map_of (missions ?s) (fresh ?s (tick ?s)) = None" by (simp add: demo_sys_def)
  from mission_created_once [OF demo_request_accepted cities demo_participants ok absent, of "[]" "''k''" "''f''" "[]" "''f''"]
  show ?thesis unfolding new by auto
qed

lemma dict_del_set: "map_of d k = None \<Longrightarrow> dict_del k (dict_set k v d) = d"
  by (induction d) (auto simp: dict_del_def split: if_splits)

lemma train_payload_error: "make_train_payload a b n = Inl e \<Longrightarrow> e = ValidationError"
  by (auto simp: make_train_payload_def split: if_splits)

text \<open>The request model of a creation does not compare the two cities: with participants that exist, a
  request for a trip from a city to itself is accepted, and the conversion into a mission then raises a
  validation error inside the endpoint, for which the application has no response. No mission is
  stored, and the receipt of an idempotency key is given back.\<close>

theorem same_city_is_internal_error:
  assumes "participants_known r s" and "casefold (py_strip (req_origin r)) = casefold (py_strip (req_destination r))"
    and "map_of c (MissionScope, key) = None"
  shows "create_mission_endpoint r fp (Some key) (d, c, s) = (Inl ValidationError, (d, c, s\<lparr>tick := Suc (tick s)\<rparr>))
    \<and> create_mission_endpoint r fp None (d, c, s) = (Inl ValidationError, (d, c, s\<lparr>tick := Suc (tick s)\<rparr>))
    \<and> app_response ValidationError = None"
proof -
  have "make_train_payload (req_origin r) (req_destination r) (req_departure_date r) = Inl ValidationError"
    using assms(2) by (simp add: make_train_payload_def)
  then have new: "create_mission_new r s = (Inl ValidationError, s\<lparr>tick := Suc (tick s)\<rparr>)"
    by (simp add: create_mission_new_def mission_to_domain_def bindE_def new_uuid_def liftE_def)
  have "create_mission_endpoint r fp (Some key) (d, c, s) = (Inl ValidationError, (d, c, s\<lparr>tick := Suc (tick s)\<rparr>))"
    using assms(3)
    by (simp add: create_endpoint_known [OF assms(1)] tryElse_def bindE_def on_creations_run begin_creation_def on_sys_run new
        mission_creation_failed_def thenE_def abort_creation_def raise_def dict_del_set)
  moreover have "create_mission_endpoint r fp None (d, c, s) = (Inl ValidationError, (d, c, s\<lparr>tick := Suc (tick s)\<rparr>))"
    unfolding create_mission_endpoint_def bindE_def [of "on_sys (unknown_participants x)" for x] participants_pass [OF assms(1)]
    using new by (simp add: require_def skip bindE_def on_sys_run)
  ultimately show ?thesis by simp
qed

theorem same_city_is_internal_error_witness:
  "make_mission_create 0 0 (demo_request ''oslo '') = Inr (demo_request ''oslo '')
   \<and> fst (create_mission_endpoint (demo_request ''oslo '') ''f'' (Some ''k'') ([], [], demo_sys (sample_mission Created))) = Inl ValidationError"
proof -
  have "casefold (py_strip (req_origin (demo_request ''oslo ''))) = casefold (py_strip (req_destination (demo_request ''oslo '')))"
    unfolding demo_request_def mission_create.simps by code_simp
  from same_city_is_internal_error [OF demo_participants this, of "[]" "''k''" "''f''" "[]"] demo_request_accepted
  show ?thesis by simp
qed

section \<open>Pages of summaries\<close>

definition summaries_after ::
  "mission_status option \<Rightarrow> mission_type option \<Rightarrow> uuid option \<Rightarrow> 'w sys \<Rightarrow> mission_summary list" where
  "summaries_after st mt cursor s = map mission_summary_of
     (filter (\<lambda>m. above cursor (mission_id m) \<and> mission_matches st mt m) (sort_key mission_id (dict_values (missions s))))"

text \<open>What a client of the pages gets at a cursor, and where it goes on; \<open>None\<close> is the first page.\<close>

definition summary_page_at ::
  "mission_status option \<Rightarrow> mission_type option \<Rightarrow> nat \<Rightarrow> uuid option \<Rightarrow> 'w sys \<Rightarrow> mission_summary list \<times> uuid option option" where
  "summary_page_at st mt limit cursor s =
     (let p = summary_page_of (int limit) (first_n (int limit + 1) (summaries_after st mt cursor s))
      in (summary_items p, map_option Some (summary_next_cursor p)))"

lemma page_endpoint:
  fixes s :: "'w sys"
  assumes "0 < k" and "k \<le> 500"
  shows "page_mission_summaries st mt (int k) cursor (d, c, s) =
    (Inr (summary_page_of (int k) (first_n (int k + 1) (summaries_after st mt cursor s))), (d, c, s))"
proof -
  have "query_between 1 500 (int k) x = (Inr (), x)" for x :: "'w mission_api"
    using assms by (simp add: query_between_def require_def ret_def)
  then show ?thesis
    by (simp add: page_mission_summaries_def thenE_def bindE_def on_sys_run list_summary_page_candidates_def require_limit_def
        require_def ret_def gets_def summaries_after_def above_def)
qed

lemma summary_page_cut:
  assumes "0 < k"
  shows "summary_page_at st mt k cursor s =
    (take k (summaries_after st mt cursor s),
     if length (summaries_after st mt cursor s) \<le> k then None
     else Some (Some (summary_id (last (take k (summaries_after st mt cursor s))))))"
proof -
  let ?A = "summaries_after st mt cursor s"
  have f: "first_n (int k + 1) ?A = take (Suc k) ?A" by (simp add: first_n_def nat_add_distrib)
  have "take k (take (Suc k) ?A) = take k ?A" by (simp add: min_def)
  moreover have "int (length (take (Suc k) ?A)) > int k \<longleftrightarrow> \<not> length ?A \<le> k" by (auto simp: min_def)
  ultimately show ?thesis unfolding summary_page_at_def f summary_page_of_def by (auto simp: Let_def first_n_def)
qed

lemma mission_ids_distinct:
  assumes "repo_ok s"
  shows "distinct (map mission_id (dict_values (missions s)))"
proof -
  have d: "dict_ok (missions s)" using assms by (simp add: repo_ok_def)
  have "mission_id m = k" if "(k, m) \<in> set (missions s)" for k m
    using repo_ok_id [OF assms] that d by (simp add: dict_ok_def)
  then have "map mission_id (dict_values (missions s)) = map fst (missions s)" by (auto simp: dict_values_def)
  then show ?thesis using d by (simp add: dict_ok_def)
qed

interpretation summary_pages: cursor_pages "summary_page_at st mt" "summaries_after st mt" repo_ok for st mt
proof
  fix k :: nat and s :: "'w sys" and cursor c'
  assume ok: "repo_ok s" and k: "0 < k"
  let ?A = "summaries_after st mt cursor s"
  show "fst (summary_page_at st mt k cursor s) = take k ?A" by (simp add: summary_page_cut [OF k])
  show "snd (summary_page_at st mt k cursor s) = None \<longleftrightarrow> length ?A \<le> k" by (simp add: summary_page_cut [OF k])
  show "summaries_after st mt c' s = drop k ?A" if "snd (summary_page_at st mt k cursor s) = Some c'"
  proof -
    have l: "k < length ?A" and c': "c' = Some (summary_id (last (take k ?A)))"
      using that by (auto simp: summary_page_cut [OF k] split: if_splits)
    let ?M = "\<lambda>c. filter (\<lambda>m. above c (mission_id m) \<and> mission_matches st mt m) (sort_key mission_id (dict_values (missions s)))"
    have l': "k < length (?M cursor)" using l by (simp add: summaries_after_def)
    then have "take k (?M cursor) \<noteq> []" using k by (cases "?M cursor") simp_all
    then have "c' = Some (mission_id (last (take k (?M cursor))))"
      unfolding c' by (simp add: summaries_after_def take_map last_map mission_summary_of_def)
    then show ?thesis
      using keyset_next [OF strict_keys [OF mission_ids_distinct [OF ok]] refl k l']
      by (simp add: summaries_after_def drop_map)
  qed
qed

text \<open>A client that follows the cursors of the summary pages sees every mission that matches its filter
  exactly once, in the order of the identifiers, and then reaches a page without a cursor; a request
  for a page is answered with that page and changes nothing.\<close>

theorem mission_pages_complete:
  assumes "repo_ok s" and "0 < k" and "k \<le> 500" and "length (missions s) < n"
  shows "follow (\<lambda>cursor. summary_page_at st mt k cursor s) n None
      = map mission_summary_of (filter (mission_matches st mt) (sort_key mission_id (dict_values (missions s))))
    \<and> (\<exists>p. page_mission_summaries st mt (int k) cursor (d, c, s) = (Inr p, (d, c, s))
         \<and> (summary_items p, map_option Some (summary_next_cursor p)) = summary_page_at st mt k cursor s)"
proof -
  have "length (summaries_after st mt None s) \<le> length (missions s)"
    unfolding summaries_after_def by (simp add: le_trans [OF length_filter_le] dict_values_def)
  then have "follow (\<lambda>cursor. summary_page_at st mt k cursor s) n None = summaries_after st mt None s"
    using assms(4) by (intro summary_pages.follow_rows [OF assms(1,2)]) simp
  then show ?thesis
    using page_endpoint [OF assms(2,3), of st mt cursor d c s]
    by (simp add: summaries_after_def above_def summary_page_at_def Let_def)
qed

theorem mission_pages_complete_witness:
  "follow (\<lambda>cursor. summary_page_at None None 1 cursor (demo_sys (sample_mission Created))) 2 None
     = [mission_summary_of (sample_mission Created)]"
proof -
  let ?s = "demo_sys (sample_mission Created)"
  have "repo_ok ?s" by (rule demo_sys_ok(1)) (simp_all add: demo_entry_ok)
  from mission_pages_complete [OF this, of 1 2 None None None "[]" "[]"]
  show ?thesis by (simp add: demo_sys_def dict_values_def mission_matches_def)
qed

end
