(* ===== verification/MockTrain.thy ===== *)
theory MockTrain
  imports EngineContracts
begin

text \<open>
  The mock provider of train tickets (\<open>app/adapters/mock_train.py\<close>): the adapter of the default
  configuration, on a state with what it has answered under each idempotency key. Its operations are
  recorded by key in the sense of \<open>recorded_op\<close>, and the engine runs on it.
\<close>

section \<open>State\<close>

record mock_train =
  reservations_by_key :: "(string, reservation_result) dict"
  confirmations_by_key :: "(string, confirmation_result) dict"
  cancellations_by_key :: "(string, cancellation_result) dict"
  cancelled_reservation_ids :: "string list"
  option_ids :: "nat \<Rightarrow> uuid"
  option_tick :: nat

definition draw_option_id :: "(mock_train, exn, uuid) prog" where
  "draw_option_id w = (Inr (option_ids w (option_tick w)), w\<lparr>option_tick := Suc (option_tick w)\<rparr>)"

section \<open>Searching\<close>

text \<open>Naive times count microseconds from the day with ordinal 0; \<open>datetime\<close> ends with the year 9999,
  and an addition that leaves it raises \<open>OverflowError\<close>.\<close>

definition day_length :: int where
  "day_length = 86400000000"

definition minutes :: "int \<Rightarrow> timedelta" where
  "minutes n = seconds (60 * n)"

definition last_day :: int where
  "last_day = 3652059"

definition shift_time :: "int \<Rightarrow> timedelta \<Rightarrow> exn + int" where
  "shift_time t d = (if (last_day + 1) * day_length \<le> t + d then Inl (OtherError ''OverflowError'') else Inr (t + d))"

definition train_seat :: "int \<Rightarrow> int \<Rightarrow> int \<Rightarrow> seat_berth \<Rightarrow> bool \<Rightarrow> seat" where
  "train_seat carriage compartment n b toilet =
     \<lparr>carriage_number = carriage, compartment_number = compartment, seat_number = n, berth = b, near_toilet = toilet\<rparr>"

definition build_option ::
  "train_payload \<Rightarrow> string \<Rightarrow> int \<Rightarrow> int \<Rightarrow> int \<Rightarrow> seat list \<Rightarrow> (mock_train, exn, provider_option) prog" where
  "build_option p number price departure arrival ss =
     bindE draw_option_id (\<lambda>i. ret
       \<lparr>option_id = i, option_type = TrainOption, train_number = number, option_from_city = origin p,
        option_to_city = destination p, departure_at = Naive departure, arrival_at = Naive arrival,
        total_price = price, seats = ss, option_metadata = []\<rparr>)"

text \<open>Number, price, minutes after the first train, and seats of the four trains.\<close>

definition timetable :: "(string \<times> int \<times> int \<times> seat list) list" where
  "timetable =
     [(''001A'', 28400, 0,
       [train_seat 1 1 1 Lower False, train_seat 1 1 2 Upper False, train_seat 1 1 3 Lower False, train_seat 1 1 4 Upper False]),
      (''002B'', 25900, 30,
       [train_seat 1 2 5 Lower False, train_seat 1 2 6 Upper False, train_seat 1 2 7 Upper False, train_seat 1 2 8 Upper False]),
      (''003C'', 24000, 60,
       [train_seat 2 3 9 Lower False, train_seat 2 3 10 Upper False, train_seat 2 4 11 Lower False, train_seat 2 4 12 Upper False]),
      (''004D'', 22000, 120,
       [train_seat 3 5 13 Lower True, train_seat 3 5 14 Upper False, train_seat 3 5 15 Lower False, train_seat 3 5 16 Upper False])]"

definition mock_search :: "mission \<Rightarrow> identity list \<Rightarrow> (mock_train, exn, provider_option list) prog" where
  "mock_search m participants =
     (case payload m of
        None \<Rightarrow> raise AssertionError
      | Some p \<Rightarrow>
          let departure = departure_date p * day_length + minutes (20 * 60) in
          bindE (liftE (shift_time departure (minutes (10 * 60)))) (\<lambda>arrival.
          mapE (\<lambda>(number, price, offset, ss).
            bindE (liftE (shift_time departure (minutes offset))) (\<lambda>dep.
            bindE (liftE (shift_time arrival (minutes offset))) (\<lambda>arr.
            build_option p number price dep arr ss))) timetable))"

section \<open>Reserving, confirming, cancelling\<close>

definition mock_reserve :: "provider_option \<Rightarrow> mission \<Rightarrow> string \<Rightarrow> (mock_train, exn, reservation_result) prog" where
  "mock_reserve b m key w =
     (case map_of (reservations_by_key w) key of
        Some existing \<Rightarrow> (Inr existing, w)
      | None \<Rightarrow>
          (case make_reservation_result True (Some (''mock-reservation-'' @ key)) True
                  ''Mock reservation created. User confirmation required.'' of
             Inl e \<Rightarrow> (Inl e, w)
           | Inr r \<Rightarrow> (Inr r, w\<lparr>reservations_by_key := dict_set key r (reservations_by_key w)\<rparr>)))"

definition reserved_ids :: "mock_train \<Rightarrow> string option list" where
  "reserved_ids w = map result_reservation_id (dict_values (reservations_by_key w))"

definition mock_confirm :: "string \<Rightarrow> mission \<Rightarrow> string \<Rightarrow> (mock_train, exn, confirmation_result) prog" where
  "mock_confirm rid m key w =
     (case map_of (confirmations_by_key w) key of
        Some existing \<Rightarrow> (Inr existing, w)
      | None \<Rightarrow>
          let ok = (Some rid \<in> set (reserved_ids w) \<and> rid \<notin> set (cancelled_reservation_ids w));
              r = \<lparr>confirmation_success = ok, confirmation_message =
                (if ok then ''Mock reservation confirmed.'' else ''Mock reservation is unavailable for confirmation.'')\<rparr>
          in (Inr r, w\<lparr>confirmations_by_key := dict_set key r (confirmations_by_key w)\<rparr>))"

definition mock_cancel :: "string \<Rightarrow> mission \<Rightarrow> string \<Rightarrow> (mock_train, exn, cancellation_result) prog" where
  "mock_cancel rid m key w =
     (case map_of (cancellations_by_key w) key of
        Some existing \<Rightarrow> (Inr existing, w)
      | None \<Rightarrow>
          let ok = (Some rid \<in> set (reserved_ids w));
              r = \<lparr>cancellation_success = ok, cancellation_message =
                (if ok then ''Mock reservation cancelled.'' else ''Mock reservation was not found.'')\<rparr>
          in (Inr r, w\<lparr>cancelled_reservation_ids :=
                        (if ok then List.insert rid (cancelled_reservation_ids w) else cancelled_reservation_ids w),
                      cancellations_by_key := dict_set key r (cancellations_by_key w)\<rparr>))"

definition mock_train_adapter :: "mock_train adapter" where
  "mock_train_adapter =
     \<lparr>adapter_id = ''mock_train'',
      capabilities = [\<lparr>capability_mission_type = TrainTicket, supports_auto_purchase = True\<rparr>],
      search_options = mock_search, reserve_option = mock_reserve,
      confirm_reservation = mock_confirm, cancel_reservation = mock_cancel\<rparr>"

section \<open>Recorded by key\<close>

lemma strip_prefixed: "\<not> is_space c \<Longrightarrow> py_strip (c # s) \<noteq> []"
  by (simp add: py_strip_def dropWhile_eq_Nil_conv)

text \<open>The message of a reservation identifier keeps what \<open>ReservationResult\<close> strips of it.\<close>

definition mock_reservation :: "string \<Rightarrow> reservation_result" where
  "mock_reservation key =
     \<lparr>reservation_success = True, result_reservation_id = Some (py_strip (''mock-reservation-'' @ key)),
      requires_confirmation = True, reservation_message = ''Mock reservation created. User confirmation required.''\<rparr>"

lemma mock_reserve_new:
  "map_of (reservations_by_key w) key = None \<Longrightarrow>
     mock_reserve b m key w = (Inr (mock_reservation key), w\<lparr>reservations_by_key := dict_set key (mock_reservation key) (reservations_by_key w)\<rparr>)"
  by (simp add: mock_reserve_def make_reservation_result_def mock_reservation_def strip_prefixed is_space_def)

interpretation reservations: recorded_op "\<lambda>key (b, m). mock_reserve b m key" "\<lambda>w. map_of (reservations_by_key w)"
proof
  show "(case a of (b, m) \<Rightarrow> mock_reserve b m k) w = (Inr r, w)"
    if "map_of (reservations_by_key w) k = Some r" for w k r and a :: "provider_option \<times> mission"
    using that by (simp add: mock_reserve_def split: prod.split)
  show "\<exists>r w'. (case a of (b, m) \<Rightarrow> mock_reserve b m k) w = (Inr r, w') \<and> map_of (reservations_by_key w') = (map_of (reservations_by_key w))(k \<mapsto> r)"
    if "map_of (reservations_by_key w) k = None" for w k and a :: "provider_option \<times> mission"
    using mock_reserve_new [OF that] by (simp split: prod.split)
qed

interpretation confirmations: recorded_op "\<lambda>key (rid, m). mock_confirm rid m key" "\<lambda>w. map_of (confirmations_by_key w)"
  by unfold_locales (auto simp: mock_confirm_def Let_def split: prod.split)

interpretation cancellations: recorded_op "\<lambda>key (rid, m). mock_cancel rid m key" "\<lambda>w. map_of (cancellations_by_key w)"
  by unfold_locales (auto simp: mock_cancel_def Let_def split: prod.split)

section \<open>Bookings\<close>

text \<open>What the state of the provider always satisfies, and what no call takes back.\<close>

definition booked :: "mock_train \<Rightarrow> bool" where
  "booked w \<longleftrightarrow> (\<forall>key r. map_of (reservations_by_key w) key = Some r \<longrightarrow> r = mock_reservation key)
     \<and> (\<forall>rid \<in> set (cancelled_reservation_ids w). Some rid \<in> set (reserved_ids w))"

definition grown :: "mock_train \<Rightarrow> mock_train \<Rightarrow> bool" where
  "grown w w' \<longleftrightarrow> map_of (reservations_by_key w) \<subseteq>\<^sub>m map_of (reservations_by_key w')
     \<and> map_of (confirmations_by_key w) \<subseteq>\<^sub>m map_of (confirmations_by_key w')
     \<and> map_of (cancellations_by_key w) \<subseteq>\<^sub>m map_of (cancellations_by_key w')
     \<and> set (cancelled_reservation_ids w) \<subseteq> set (cancelled_reservation_ids w')"

lemma grown_refl [simp]: "grown w w"
  by (simp add: grown_def)

lemma grown_trans: "grown w w' \<Longrightarrow> grown w' w'' \<Longrightarrow> grown w w''"
  unfolding grown_def by (meson map_le_trans subset_trans)

lemma map_le_new: "map_of d k = None \<Longrightarrow> map_of d \<subseteq>\<^sub>m (map_of d)(k \<mapsto> v)"
  by (auto simp: map_le_def)

lemma dict_values_set: "map_of d k = None \<Longrightarrow> dict_values (dict_set k v d) = dict_values d @ [v]"
  by (induction d) (auto simp: dict_values_def split: if_splits)

definition booked_since :: "mock_train \<Rightarrow> mock_train \<Rightarrow> bool" where
  "booked_since w0 w \<longleftrightarrow> booked w \<and> grown w0 w"

lemma keeps_booked:
  assumes "\<And>w. booked w \<Longrightarrow> booked (snd (f w)) \<and> grown w (snd (f w))"
  shows "keeps (booked_since w0) f"
proof (rule keepsI)
  fix w assume w: "booked_since w0 w"
  then have "booked_since w0 (snd (f w))"
    using assms [of w] grown_trans [of w0 w "snd (f w)"] by (simp add: booked_since_def)
  then show "wp f (\<lambda>_. booked_since w0) (\<lambda>_. booked_since w0) w" by (cases "f w") (simp add: wp_def split: sum.split)
qed

lemma reserve_books: "keeps (booked_since w0) (mock_reserve b m key)"
proof (rule keeps_booked)
  fix w assume w: "booked w"
  show "booked (snd (mock_reserve b m key w)) \<and> grown w (snd (mock_reserve b m key w))"
  proof (cases "map_of (reservations_by_key w) key")
    case None
    show ?thesis using w
      by (simp add: mock_reserve_new [OF None])
         (auto simp: booked_def grown_def reserved_ids_def map_le_new None dict_values_set [OF None])
  qed (simp add: mock_reserve_def w)
qed

lemma confirm_books: "keeps (booked_since w0) (mock_confirm rid m key)"
proof (rule keeps_booked)
  fix w assume w: "booked w"
  show "booked (snd (mock_confirm rid m key w)) \<and> grown w (snd (mock_confirm rid m key w))"
  proof (cases "map_of (confirmations_by_key w) key")
    case None
    show ?thesis using w
      by (simp add: mock_confirm_def None Let_def booked_def grown_def reserved_ids_def map_le_new)
  qed (simp add: mock_confirm_def w)
qed

lemma cancel_books: "keeps (booked_since w0) (mock_cancel rid m key)"
proof (rule keeps_booked)
  fix w assume w: "booked w"
  show "booked (snd (mock_cancel rid m key w)) \<and> grown w (snd (mock_cancel rid m key w))"
  proof (cases "map_of (cancellations_by_key w) key")
    case None
    show ?thesis using w
      by (auto simp: mock_cancel_def None Let_def booked_def grown_def reserved_ids_def map_le_new)
  qed (simp add: mock_cancel_def w)
qed

lemma draw_books: "keeps (booked_since w0) draw_option_id"
  by (rule keeps_booked) (simp add: draw_option_id_def booked_def grown_def reserved_ids_def)

lemma search_books: "keeps (booked_since w0) (mock_search m participants)"
  unfolding mock_search_def build_option_def
  by (intro keeps_intro draw_books)

definition mock_registry :: "mock_train registry" where
  "mock_registry = \<lparr>adapters = [mock_train_adapter], adapters_by_id = [(''mock_train'', mock_train_adapter)]\<rparr>"

lemma mock_registry_made: "make_registry [mock_train_adapter] = Inr mock_registry"
  by (simp add: make_registry_def mock_registry_def mock_train_adapter_def strip_prefixed is_space_def)

lemma mock_registry_get: "registry_get mock_registry pid = Inr a \<Longrightarrow> a = mock_train_adapter"
  by (auto simp: registry_get_def mock_registry_def split: if_splits)

lemma mock_registry_ok: "registry_ok mock_registry"
  using mock_registry_made by (simp add: registry_ok_def mock_registry_def)

lemma mock_registry_resolve: "resolve mock_registry m = Inr a \<Longrightarrow> a = mock_train_adapter"
  using resolve_qualifies [OF mock_registry_ok] by (simp add: mock_registry_def)

datatype engine_call = RunCall "datetime option" bool | ConfirmCall | CancelCall

fun serve_engine :: "'w registry \<Rightarrow> uuid \<Rightarrow> engine_call \<Rightarrow> ('w sys, exn, mission) prog" where
  "serve_engine r k (RunCall t allow) = run_mission k r t allow"
| "serve_engine r k ConfirmCall = confirm_mission k r"
| "serve_engine r k CancelCall = cancel_mission k r"

text \<open>C14: on the mock provider the engine never loses or changes a booking: whatever run, confirmation or
  cancellation is asked for, and however it ends, every answer the provider has given under a key is
  still recorded, every reservation is the one of its key, and only reserved identifiers are cancelled.\<close>

theorem engine_keeps_bookings:
  assumes "repo_ok s" and "ids_ok s" and "booked (world s)"
  shows "booked (world (snd (serve_engine mock_registry k c s)))
    \<and> grown (world s) (world (snd (serve_engine mock_registry k c s)))"
proof -
  let ?W = "booked_since (world s)"
  have W: "?W (world s)" using assms(3) by (simp add: booked_since_def)
  have calls: "wp (confirm_reservation mock_train_adapter rid m key) (\<lambda>_. ?W) (\<lambda>_. ?W) w"
      "wp (cancel_reservation mock_train_adapter rid m key) (\<lambda>_. ?W) (\<lambda>_. ?W) w" if "?W w" for rid m key w
    using keeps_wp [OF confirm_books that] keeps_wp [OF cancel_books that] by (simp_all add: mock_train_adapter_def)
  have keep: "calls_keep ?W mode mock_train_adapter" for mode
    using keeps_wp [OF search_books] keeps_wp [OF reserve_books] keeps_wp [OF confirm_books]
    by (simp add: calls_keep_def mock_train_adapter_def)
  have "wp (serve_engine mock_registry k c) (\<lambda>_ s'. ?W (world s')) (\<lambda>_ s'. ?W (world s')) s"
  proof (cases c)
    case (RunCall t allow)
    have "wp (run_mission k mock_registry t allow)
     (\<lambda>m s'. \<exists>m0. map_of (missions s) k = Some m0 \<and> finished k ?W (run_returns mock_registry m0) m s') (\<lambda>_. interrupted k ?W) s"
      by (rule run_mission_wp [where W = ?W, OF assms(1,2) W]) (use keep mock_registry_resolve in blast)
    then show ?thesis unfolding RunCall serve_engine.simps
      by (rule wp_mono) (auto simp: finished_def interrupted_def)
  next
    case ConfirmCall
    show ?thesis unfolding ConfirmCall serve_engine.simps
      by (rule wp_mono [OF confirm_mission_wp [where W = ?W, OF assms(1,2) W]])
         (auto simp: finished_def interrupted_def dest!: mock_registry_get intro: calls(1))
  next
    case CancelCall
    show ?thesis unfolding CancelCall serve_engine.simps
      by (rule wp_mono [OF cancel_mission_wp [where W = ?W, OF assms(1,2) W]])
         (auto simp: finished_def interrupted_def dest!: mock_registry_get intro: calls(2))
  qed
  then have "?W (world (snd (serve_engine mock_registry k c s)))"
    by (cases "serve_engine mock_registry k c s") (auto simp: wp_def split: sum.splits)
  then show ?thesis by (simp add: booked_since_def)
qed

definition mock_sys :: "mission \<Rightarrow> mock_train sys" where
  "mock_sys m =
     \<lparr>missions = [(mission_id m, m)], attempts = [], fresh = (\<lambda>n. n + 100), tick = 0,
      identities = [(3, demo_identity)],
      world = \<lparr>reservations_by_key = [(''k'', mock_reservation ''k'')], confirmations_by_key = [],
        cancellations_by_key = [], cancelled_reservation_ids = [], option_ids = (\<lambda>n. n + 500), option_tick = 0\<rparr>,
      now_of = int, now_tick = 0\<rparr>"

theorem engine_keeps_bookings_witness:
  "grown (world (mock_sys (sample_mission Created)))
     (world (snd (serve_engine mock_registry 7 (RunCall None False) (mock_sys (sample_mission Created)))))"
proof -
  let ?m = "sample_mission Created" and ?s = "mock_sys (sample_mission Created)"
  have m: "mission_id ?m = 7" "execution_log ?m = []" by (simp_all add: sample_mission_def)
  have "repo_ok ?s" "ids_ok ?s"
    using repo_ok_single [of ?s 7 ?m] ids_ok_single [of ?s 7 ?m] demo_entry_ok [of Created] m
    by (simp_all add: mock_sys_def)
  moreover have "booked (world ?s)" by (simp add: booked_def mock_sys_def)
  ultimately show ?thesis using engine_keeps_bookings by blast
qed

text \<open>The mock provider answers a reservation, a confirmation or a cancellation once per key: a later
  call under the key, whatever it asks for, and whatever happened in between, returns the recorded answer
  and changes nothing. A reservation cancelled by a first answer is never confirmed by a later one.\<close>

theorem mock_answers_once:
  assumes "grown w' t"
  shows "(mock_reserve b m key w = (Inr r, w') \<longrightarrow> mock_reserve b' m' key t = (Inr r, t))
     \<and> (mock_confirm rid m key w = (Inr c, w') \<longrightarrow> mock_confirm rid' m' key t = (Inr c, t))
     \<and> (mock_cancel rid m key w = (Inr x, w') \<longrightarrow> mock_cancel rid' m' key t = (Inr x, t)
          \<and> (map_of (cancellations_by_key w) key = None \<and> cancellation_success x
               \<and> map_of (confirmations_by_key t) key' = None \<longrightarrow>
               (\<exists>c t'. mock_confirm rid m' key' t = (Inr c, t') \<and> \<not> confirmation_success c)))"
proof (intro conjI impI)
  show "mock_reserve b' m' key t = (Inr r, t)" if "mock_reserve b m key w = (Inr r, w')"
    using reservations.run_replays [of key "(b, m)" w r w' t "(b', m')"] that assms by (simp add: grown_def)
  show "mock_confirm rid' m' key t = (Inr c, t)" if "mock_confirm rid m key w = (Inr c, w')"
    using confirmations.run_replays [of key "(rid, m)" w c w' t "(rid', m')"] that assms by (simp add: grown_def)
  assume x: "mock_cancel rid m key w = (Inr x, w')"
  then show "mock_cancel rid' m' key t = (Inr x, t)"
    using cancellations.run_replays [of key "(rid, m)" w x w' t "(rid', m')"] assms by (simp add: grown_def)
  assume n: "map_of (cancellations_by_key w) key = None \<and> cancellation_success x \<and> map_of (confirmations_by_key t) key' = None"
  then have "rid \<in> set (cancelled_reservation_ids w')" using x by (auto simp: mock_cancel_def Let_def split: if_splits)
  then have "rid \<in> set (cancelled_reservation_ids t)" using assms by (auto simp: grown_def)
  then show "\<exists>c t'. mock_confirm rid m' key' t = (Inr c, t') \<and> \<not> confirmation_success c"
    using n by (simp add: mock_confirm_def Let_def)
qed

theorem mock_answers_once_witness:
  "mock_confirm ''other'' (sample_mission Created) ''k2''
       (snd (mock_confirm ''mock-reservation-k'' (sample_mission Created) ''k2'' (world (mock_sys (sample_mission Created)))))
     = mock_confirm ''mock-reservation-k'' (sample_mission Created) ''k2'' (world (mock_sys (sample_mission Created)))"
proof -
  let ?w = "world (mock_sys (sample_mission Created))" and ?m = "sample_mission Created"
  let ?c = "\<lparr>confirmation_success = True, confirmation_message = ''Mock reservation confirmed.''\<rparr>"
  let ?w' = "?w\<lparr>confirmations_by_key := [(''k2'', ?c)]\<rparr>"
  have "mock_confirm ''mock-reservation-k'' ?m ''k2'' ?w = (Inr ?c, ?w')"
    by (simp add: mock_confirm_def Let_def mock_sys_def reserved_ids_def dict_values_def mock_reservation_def
        py_strip_def is_space_def)
  then show ?thesis using mock_answers_once [OF grown_refl [of ?w'], where rid = "''mock-reservation-k''" and m = ?m
      and key = "''k2''" and w = ?w and c = ?c and rid' = "''other''" and m' = ?m] by simp
qed

end
