(* ===== verification/Outbox.thy ===== *)
theory Outbox
  imports Interfaces Domain Pagination
begin

text \<open>
  Notifications: the outbox table (\<open>app/repositories/sqlalchemy/notification_outbox.py\<close> on
  \<open>app/db/models/notification_outbox.py\<close>), the dispatcher (\<open>app/services/notification_outbox.py\<close>) and a
  cycle of its worker (\<open>app/services/notification_worker.py\<close>). The table is the list of its rows; a call
  of the repository is one committed transaction. Rows that an \<open>ORDER BY\<close> leaves equal come in the order
  of the table. The adapter that delivers a message is a parameter with a state of its own.
\<close>

section \<open>Messages\<close>

datatype outbox_status = OutPending | OutProcessing | OutDelivered | OutFailed

record outbox_message =
  message_id :: uuid
  message_mission :: uuid
  message_event :: uuid
  message_event_type :: string
  occurred_at :: time
  message_payload :: metadata
  recipient_ids :: "uuid list"
  outbox_status :: outbox_status
  delivery_attempts :: int
  available_at :: time
  message_claimed_at :: "time option"
  message_delivered_at :: "time option"
  last_error :: "string option"

type_synonym outbox = "outbox_message list"

record outbox_statistics =
  pending_count :: nat
  processing_count :: nat
  delivered_total :: nat
  failed_count :: nat
  ready_count :: nat
  oldest_pending_at :: "time option"

definition message_of :: "outbox \<Rightarrow> uuid \<Rightarrow> outbox_message option" where
  "message_of rows k = find (\<lambda>m. message_id m = k) rows"

definition change_rows :: "uuid list \<Rightarrow> (outbox_message \<Rightarrow> outbox_message) \<Rightarrow> outbox \<Rightarrow> outbox" where
  "change_rows ks f rows = map (\<lambda>m. if message_id m \<in> set ks then f m else m) rows"

section \<open>The table\<close>

definition outbox_time :: "datetime \<Rightarrow> (outbox, exn, unit) prog" where
  "outbox_time t = require (is_aware t) (ValueError ''time must be timezone-aware'')"

definition outbox_arguments :: "datetime \<Rightarrow> int \<Rightarrow> (outbox, exn, unit) prog" where
  "outbox_arguments t limit =
     thenE (outbox_time t) (require (\<not> limit < 1) (ValueError ''limit must be at least one''))"

definition count_status :: "outbox_status \<Rightarrow> outbox \<Rightarrow> nat" where
  "count_status st rows = length (filter (\<lambda>m. outbox_status m = st) rows)"

definition get_outbox_statistics :: "datetime \<Rightarrow> (outbox, exn, outbox_statistics) prog" where
  "get_outbox_statistics t =
     thenE (outbox_time t)
     (gets (\<lambda>rows.
       let pending = filter (\<lambda>m. outbox_status m = OutPending) rows in
       \<lparr>pending_count = count_status OutPending rows, processing_count = count_status OutProcessing rows,
        delivered_total = count_status OutDelivered rows, failed_count = count_status OutFailed rows,
        ready_count = length (filter (\<lambda>m. available_at m \<le> instant t) pending),
        oldest_pending_at = (if pending = [] then None else Some (Min (set (map available_at pending))))\<rparr>))"

definition get_message :: "uuid \<Rightarrow> (outbox, exn, outbox_message option) prog" where
  "get_message k = gets (\<lambda>rows. message_of rows k)"

text \<open>The latest message first.\<close>

definition page_key :: "outbox_message \<Rightarrow> int \<times> int" where
  "page_key m = (- occurred_at m, - int (message_id m))"

definition listed :: "outbox_status option \<Rightarrow> uuid option \<Rightarrow> outbox_message \<Rightarrow> bool" where
  "listed st mission m \<longleftrightarrow> (case st of None \<Rightarrow> True | Some x \<Rightarrow> outbox_status m = x)
     \<and> (case mission of None \<Rightarrow> True | Some k \<Rightarrow> message_mission m = k)"

definition list_messages :: "outbox_status option \<Rightarrow> uuid option \<Rightarrow> int \<Rightarrow> (outbox, exn, outbox_message list) prog" where
  "list_messages st mission limit =
     thenE (require (\<not> limit < 1) (ValueError ''limit must be at least one''))
     (gets (\<lambda>rows. first_n limit (sort_key page_key (filter (listed st mission) rows))))"

record outbox_cursor =
  cursor_occurred_at :: time
  cursor_message_id :: uuid

definition beyond_cursor :: "outbox_cursor option \<Rightarrow> outbox_message \<Rightarrow> bool" where
  "beyond_cursor c m \<longleftrightarrow>
     (case c of None \<Rightarrow> True
      | Some x \<Rightarrow> occurred_at m < cursor_occurred_at x
          \<or> (occurred_at m = cursor_occurred_at x \<and> message_id m < cursor_message_id x))"

definition list_message_page_candidates ::
  "outbox_status option \<Rightarrow> uuid option \<Rightarrow> outbox_cursor option \<Rightarrow> int \<Rightarrow> (outbox, exn, outbox_message list) prog" where
  "list_message_page_candidates st mission c limit =
     thenE (require (\<not> limit < 1) (ValueError ''limit must be at least one''))
     (gets (\<lambda>rows. first_n limit (sort_key page_key (filter (\<lambda>m. listed st mission m \<and> beyond_cursor c m) rows))))"

definition requeue_row :: "time \<Rightarrow> outbox_message \<Rightarrow> outbox_message" where
  "requeue_row t m = m\<lparr>outbox_status := OutPending, delivery_attempts := 0, available_at := t,
     message_claimed_at := None, message_delivered_at := None, last_error := None\<rparr>"

definition requeue_failed :: "uuid \<Rightarrow> datetime \<Rightarrow> (outbox, exn, outbox_message option) prog" where
  "requeue_failed k t =
     thenE (outbox_time t)
     (bindE (get_message k) (\<lambda>found.
       case found of
         None \<Rightarrow> ret None
       | Some m \<Rightarrow>
           if outbox_status m \<noteq> OutFailed then ret (Some m)
           else thenE (modify (change_rows [k] (requeue_row (instant t)))) (ret (Some (requeue_row (instant t) m)))))"

definition prunable :: "time \<Rightarrow> outbox_message \<Rightarrow> bool" where
  "prunable cutoff m \<longleftrightarrow> outbox_status m = OutDelivered
     \<and> (case message_delivered_at m of None \<Rightarrow> False | Some d \<Rightarrow> d < cutoff)"

definition prune_candidates :: "time \<Rightarrow> int \<Rightarrow> outbox \<Rightarrow> uuid list" where
  "prune_candidates cutoff limit rows =
     first_n limit (map message_id (sort_key (\<lambda>m. (the (message_delivered_at m), message_id m)) (filter (prunable cutoff) rows)))"

definition prune_delivered_before :: "datetime \<Rightarrow> int \<Rightarrow> bool \<Rightarrow> (outbox, exn, uuid list) prog" where
  "prune_delivered_before cutoff limit dry_run =
     thenE (outbox_arguments cutoff limit)
     (bindE (gets (prune_candidates (instant cutoff) limit)) (\<lambda>ks.
       if dry_run then ret ks
       else thenE (modify (filter (\<lambda>m. \<not> (message_id m \<in> set ks \<and> outbox_status m = OutDelivered)))) (ret ks)))"

definition ready :: "time \<Rightarrow> outbox_message \<Rightarrow> bool" where
  "ready t m \<longleftrightarrow> outbox_status m = OutPending \<and> available_at m \<le> t"

definition claimable :: "time \<Rightarrow> int \<Rightarrow> outbox \<Rightarrow> outbox_message list" where
  "claimable t limit rows = first_n limit (sort_key (\<lambda>m. (available_at m, occurred_at m)) (filter (ready t) rows))"

definition claim_row :: "time \<Rightarrow> outbox_message \<Rightarrow> outbox_message" where
  "claim_row t m = m\<lparr>outbox_status := OutProcessing, message_claimed_at := Some t, delivery_attempts := delivery_attempts m + 1\<rparr>"

definition claim_pending :: "datetime \<Rightarrow> int \<Rightarrow> (outbox, exn, outbox_message list) prog" where
  "claim_pending t limit =
     thenE (outbox_arguments t limit)
     (bindE (gets (claimable (instant t) limit)) (\<lambda>ms.
       thenE (modify (change_rows (map message_id ms) (claim_row (instant t))))
       (ret (map (claim_row (instant t)) ms))))"

definition deliver_row :: "time \<Rightarrow> outbox_message \<Rightarrow> outbox_message" where
  "deliver_row t m =
     (if outbox_status m \<noteq> OutProcessing then m
      else m\<lparr>outbox_status := OutDelivered, message_delivered_at := Some t, message_claimed_at := None, last_error := None\<rparr>)"

definition mark_delivered :: "uuid \<Rightarrow> datetime \<Rightarrow> (outbox, exn, unit) prog" where
  "mark_delivered k t = thenE (outbox_time t) (modify (change_rows [k] (deliver_row (instant t))))"

definition stale_claim :: "time \<Rightarrow> outbox_message \<Rightarrow> bool" where
  "stale_claim before m \<longleftrightarrow> outbox_status m = OutProcessing
     \<and> (case message_claimed_at m of None \<Rightarrow> False | Some c \<Rightarrow> c \<le> before)"

definition recover_row :: "time \<Rightarrow> outbox_message \<Rightarrow> outbox_message" where
  "recover_row t m = m\<lparr>outbox_status := OutPending, available_at := t, message_claimed_at := None,
     last_error := Some ''Delivery claim recovered after timeout.''\<rparr>"

definition recover_stale_claims :: "datetime \<Rightarrow> timedelta \<Rightarrow> int \<Rightarrow> (outbox, exn, outbox_message list) prog" where
  "recover_stale_claims t timeout limit =
     thenE (outbox_arguments t limit)
     (thenE (require (\<not> timeout \<le> 0) (ValueError ''claim_timeout must be greater than zero''))
     (bindE (gets (\<lambda>rows. first_n limit (sort_key (\<lambda>m. the (message_claimed_at m)) (filter (stale_claim (instant t - timeout)) rows))))
       (\<lambda>ms. thenE (modify (change_rows (map message_id ms) (recover_row (instant t))))
             (ret (map (recover_row (instant t)) ms)))))"

definition fail_row :: "time \<Rightarrow> string \<Rightarrow> int \<Rightarrow> outbox_message \<Rightarrow> outbox_message" where
  "fail_row retry_at error max_attempts m =
     (if outbox_status m \<noteq> OutProcessing then m
      else m\<lparr>outbox_status := (if max_attempts \<le> delivery_attempts m then OutFailed else OutPending),
             available_at := retry_at, message_claimed_at := None, last_error := Some (take 2000 error)\<rparr>)"

definition mark_delivery_failed :: "uuid \<Rightarrow> datetime \<Rightarrow> datetime \<Rightarrow> string \<Rightarrow> int \<Rightarrow> (outbox, exn, unit) prog" where
  "mark_delivery_failed k failed_at retry_at error max_attempts =
     thenE (outbox_time failed_at)
     (thenE (outbox_time retry_at)
     (thenE (require (\<not> instant retry_at < instant failed_at) (ValueError ''retry_at must not be before failed_at''))
     (thenE (require (\<not> max_attempts < 1) (ValueError ''max_attempts must be at least one''))
     (modify (change_rows [k] (fail_row (instant retry_at) error max_attempts))))))"

section \<open>Retry delay\<close>

text \<open>The loop of \<open>_exponential_retry_delay\<close>, with its early return.\<close>

fun double_delay :: "timedelta \<Rightarrow> nat \<Rightarrow> timedelta \<Rightarrow> timedelta" where
  "double_delay max_delay 0 delay = min delay max_delay"
| "double_delay max_delay (Suc n) delay =
     (if td_half max_delay \<le> delay then max_delay else double_delay max_delay n (delay * 2))"

definition exponential_retry_delay :: "timedelta \<Rightarrow> timedelta \<Rightarrow> int \<Rightarrow> timedelta" where
  "exponential_retry_delay base_delay max_delay attempt = double_delay max_delay (nat (attempt - 1)) base_delay"

section \<open>Dispatch\<close>

text \<open>What a delivery raises, as the dispatcher sees it: the adapters' own error with its text, the delay
  the receiver asks for and whether a retry makes sense; any other exception, by its text; or a
  cancellation or exit, which is not caught.\<close>

datatype delivery_failure = DeliveryError string "timedelta option" bool | Raised string | Interrupted

type_synonym 'w delivery = "outbox_message \<Rightarrow> ('w, delivery_failure, unit) prog"

record 'w outbox_sys =
  outbox :: outbox
  receiver :: 'w

definition on_outbox :: "(outbox, exn, 'a) prog \<Rightarrow> ('w outbox_sys, exn, 'a) prog" where
  "on_outbox f s = (case f (outbox s) of (r, rows) \<Rightarrow> (r, s\<lparr>outbox := rows\<rparr>))"

record dispatch_policy =
  retry_delay :: timedelta
  max_retry_delay :: timedelta
  max_attempts :: int

definition default_dispatch_policy :: dispatch_policy where
  "default_dispatch_policy = \<lparr>retry_delay = seconds 30, max_retry_delay = seconds 900, max_attempts = 5\<rparr>"

record dispatch_result =
  claimed_count :: nat
  delivered_count :: nat
  retry_scheduled_count :: nat
  permanently_failed_count :: nat

fun failure_text :: "delivery_failure \<Rightarrow> string" where
  "failure_text (DeliveryError msg d retryable) = msg"
| "failure_text (Raised msg) = msg"
| "failure_text Interrupted = []"

fun failure_retryable :: "delivery_failure \<Rightarrow> bool" where
  "failure_retryable (DeliveryError msg d retryable) = retryable"
| "failure_retryable _ = True"

fun requested_delay :: "dispatch_policy \<Rightarrow> outbox_message \<Rightarrow> delivery_failure \<Rightarrow> timedelta" where
  "requested_delay p m (DeliveryError msg (Some d) retryable) = d"
| "requested_delay p m _ = exponential_retry_delay (retry_delay p) (max_retry_delay p) (delivery_attempts m)"

definition delivery_failed ::
  "dispatch_policy \<Rightarrow> datetime \<Rightarrow> outbox_message \<Rightarrow> delivery_failure \<Rightarrow> dispatch_result \<Rightarrow> ('w outbox_sys, exn, dispatch_result) prog" where
  "delivery_failed p t m e res =
     thenE (on_outbox (mark_delivery_failed (message_id m) t (plus_delay t (requested_delay p m e)) (failure_text e)
        (if failure_retryable e then max_attempts p else delivery_attempts m)))
     (ret (if \<not> failure_retryable e \<or> max_attempts p \<le> delivery_attempts m
           then res\<lparr>permanently_failed_count := Suc (permanently_failed_count res)\<rparr>
           else res\<lparr>retry_scheduled_count := Suc (retry_scheduled_count res)\<rparr>))"

definition deliver_one ::
  "'w delivery \<Rightarrow> dispatch_policy \<Rightarrow> datetime \<Rightarrow> outbox_message \<Rightarrow> dispatch_result \<Rightarrow> ('w outbox_sys, exn, dispatch_result) prog" where
  "deliver_one deliver p t m res s =
     (case deliver m (receiver s) of
        (Inr _, w) \<Rightarrow> thenE (on_outbox (mark_delivered (message_id m) t))
            (ret (res\<lparr>delivered_count := Suc (delivered_count res)\<rparr>)) (s\<lparr>receiver := w\<rparr>)
      | (Inl Interrupted, w) \<Rightarrow> raise ProcessExit (s\<lparr>receiver := w\<rparr>)
      | (Inl e, w) \<Rightarrow> delivery_failed p t m e res (s\<lparr>receiver := w\<rparr>))"

fun deliver_all ::
  "'w delivery \<Rightarrow> dispatch_policy \<Rightarrow> datetime \<Rightarrow> outbox_message list \<Rightarrow> dispatch_result \<Rightarrow> ('w outbox_sys, exn, dispatch_result) prog" where
  "deliver_all deliver p t [] res = ret res"
| "deliver_all deliver p t (m # ms) res = bindE (deliver_one deliver p t m res) (deliver_all deliver p t ms)"

definition dispatch_pending_notifications ::
  "'w delivery \<Rightarrow> datetime \<Rightarrow> int \<Rightarrow> dispatch_policy \<Rightarrow> ('w outbox_sys, exn, dispatch_result) prog" where
  "dispatch_pending_notifications deliver t limit p =
     thenE (require (\<not> retry_delay p \<le> 0) (ValueError ''retry_delay must be greater than zero''))
     (thenE (require (\<not> max_retry_delay p < retry_delay p) (ValueError ''max_retry_delay must not be less than retry_delay''))
     (thenE (require (\<not> max_attempts p < 1) (ValueError ''max_attempts must be at least one''))
     (bindE (on_outbox (claim_pending t limit)) (\<lambda>ms.
       deliver_all deliver p t ms
         \<lparr>claimed_count = length ms, delivered_count = 0, retry_scheduled_count = 0, permanently_failed_count = 0\<rparr>))))"

text \<open>A cycle of the worker recovers abandoned claims first.\<close>

definition process_notification_worker_cycle ::
  "'w delivery \<Rightarrow> datetime \<Rightarrow> int \<Rightarrow> timedelta \<Rightarrow> dispatch_policy \<Rightarrow> ('w outbox_sys, exn, nat \<times> dispatch_result) prog" where
  "process_notification_worker_cycle deliver t limit claim_timeout p =
     bindE (on_outbox (recover_stale_claims t claim_timeout limit)) (\<lambda>recovered.
     bindE (dispatch_pending_notifications deliver t limit p) (\<lambda>res.
     ret (length recovered, res)))"

end
