(* ===== verification/OutboxContracts.thy ===== *)
theory OutboxContracts
  imports Outbox
begin

text \<open>
  What the outbox promises: the table stays well formed and loses no message that was not delivered,
  claims are exclusive, a dispatch settles every message it claimed, retry delays stay within their
  bounds, and a cycle delivers what an earlier worker left behind.
\<close>

section \<open>Rows\<close>

lemma change_rows_ids:
  "(\<And>m. message_id (f m) = message_id m) \<Longrightarrow> map message_id (change_rows ks f rows) = map message_id rows"
  by (simp add: change_rows_def)

lemma message_of_change:
  "(\<And>m. message_id (f m) = message_id m) \<Longrightarrow>
     message_of (change_rows ks f rows) k = map_option (if k \<in> set ks then f else id) (message_of rows k)"
  unfolding message_of_def change_rows_def by (induction rows) auto

lemma message_of_in:
  "distinct (map message_id rows) \<Longrightarrow> message_of rows k = Some m \<longleftrightarrow> m \<in> set rows \<and> message_id m = k"
  unfolding message_of_def by (induction rows) (auto simp: image_iff)

lemma row_ids [simp]:
  "message_id (claim_row t m) = message_id m" "message_id (deliver_row t m) = message_id m"
  "message_id (fail_row r e n m) = message_id m" "message_id (recover_row t m) = message_id m"
  "message_id (requeue_row t m) = message_id m"
  by (simp_all add: claim_row_def deliver_row_def fail_row_def recover_row_def requeue_row_def)

lemma distinct_picked:
  assumes "distinct (map f rows)"
  shows "distinct (map f (first_n n (sort_key g (filter P rows))))"
proof -
  have "distinct (map f (sort_key g (filter P rows)))" using assms by (simp add: distinct_map distinct_filter inj_on_def)
  then show ?thesis by (simp add: first_n_def flip: take_map)
qed

lemma set_picked: "set (first_n n (sort_key g (filter P rows))) \<subseteq> {m \<in> set rows. P m}"
  using set_take_subset [of "nat n" "sort_key g (filter P rows)"] by (auto simp: first_n_def)

lemma picked_satisfies:
  assumes "distinct (map message_id rows)" and "m \<in> set rows"
    and "message_id m \<in> message_id ` set (first_n n (sort_key g (filter P rows)))"
  shows "P m"
proof -
  obtain m' where m': "m' \<in> set (first_n n (sort_key g (filter P rows)))" "message_id m' = message_id m" using assms(3) by auto
  have "m' \<in> set rows" "P m'" using set_picked [THEN subsetD, OF m'(1)] by simp_all
  with m'(2) assms(1,2) show ?thesis by (auto simp: distinct_map inj_on_def)
qed

lemma claimable_ready: "m \<in> set (claimable t limit rows) \<Longrightarrow> m \<in> set rows \<and> ready t m"
  unfolding claimable_def by (drule subsetD [OF set_picked]) simp

lemma claimable_distinct: "distinct (map message_id rows) \<Longrightarrow> distinct (map message_id (claimable t limit rows))"
  unfolding claimable_def by (rule distinct_picked)

lemma claim_pending_accepted:
  "is_aware t \<Longrightarrow> 1 \<le> limit \<Longrightarrow> claim_pending t limit rows =
     (Inr (map (claim_row (instant t)) (claimable (instant t) limit rows)),
      change_rows (map message_id (claimable (instant t) limit rows)) (claim_row (instant t)) rows)"
  by (simp add: claim_pending_def outbox_arguments_def outbox_time_def thenE_def bindE_def require_def ret_def gets_def modify_def)

lemma claim_pending_refused:
  "\<not> is_aware t \<or> limit < 1 \<Longrightarrow> \<exists>msg. claim_pending t limit rows = (Inl (ValueError msg), rows)"
  by (auto simp: claim_pending_def outbox_arguments_def outbox_time_def thenE_def bindE_def require_def ret_def raise_def)

section \<open>Exclusive claims\<close>

definition outbox_claim :: "datetime \<times> int \<Rightarrow> outbox \<Rightarrow> uuid list \<times> outbox" where
  "outbox_claim r rows = (case claim_pending (fst r) (snd r) rows of
     (Inl e, rows') \<Rightarrow> ([], rows') | (Inr ms, rows') \<Rightarrow> (map message_id ms, rows'))"

definition ids_with :: "(outbox_message \<Rightarrow> bool) \<Rightarrow> outbox \<Rightarrow> uuid set" where
  "ids_with P rows = message_id ` {m \<in> set rows. P m}"

definition in_delivery :: "outbox_message \<Rightarrow> bool" where
  "in_delivery m \<longleftrightarrow> outbox_status m = OutProcessing"

lemma ids_with_map:
  "(\<And>m. message_id (g m) = message_id m) \<Longrightarrow> k \<in> ids_with Q (map g rows) \<longleftrightarrow> (\<exists>m \<in> set rows. k = message_id m \<and> Q (g m))"
  by (auto simp: ids_with_def image_iff Bex_def)

lemma ids_with_change:
  assumes "distinct (map message_id rows)" and "ms = first_n n (sort_key g (filter P rows))"
    and "\<And>m. message_id (f m) = message_id m" and "\<And>m. P m \<Longrightarrow> Q (f m)" and "\<And>m. P m \<Longrightarrow> \<not> Q m"
  shows "ids_with Q (change_rows (map message_id ms) f rows) = ids_with Q rows \<union> set (map message_id ms)"
proof -
  have sub: "set ms \<subseteq> {m \<in> set rows. P m}" unfolding assms(2) by (rule set_picked)
  have P: "P m" if "m \<in> set rows" and "message_id m \<in> message_id ` set ms" for m
    using picked_satisfies [OF assms(1) that(1), of n g P] that(2) assms(2) by simp
  show ?thesis
  proof (rule set_eqI)
    fix k
    have "k \<in> ids_with Q (change_rows (map message_id ms) f rows) \<longleftrightarrow>
        (\<exists>m \<in> set rows. k = message_id m \<and> Q (if message_id m \<in> message_id ` set ms then f m else m))"
      unfolding change_rows_def set_map by (rule ids_with_map) (simp add: assms(3))
    also have "\<dots> \<longleftrightarrow> (\<exists>m \<in> set rows. k = message_id m \<and> (message_id m \<in> message_id ` set ms \<or> Q m))"
      using P assms(4) by (auto split: if_splits)
    also have "\<dots> \<longleftrightarrow> k \<in> ids_with Q rows \<union> set (map message_id ms)"
      using sub by (auto simp: ids_with_def)
    finally show "k \<in> ids_with Q (change_rows (map message_id ms) f rows) \<longleftrightarrow> k \<in> ids_with Q rows \<union> set (map message_id ms)" .
  qed
qed

lemma outbox_claim_cases:
  obtains "is_aware (fst r)" and "1 \<le> snd r"
      and "outbox_claim r rows = (map message_id (claimable (instant (fst r)) (snd r) rows),
             change_rows (map message_id (claimable (instant (fst r)) (snd r) rows)) (claim_row (instant (fst r))) rows)"
    | "outbox_claim r rows = ([], rows)"
proof (cases "is_aware (fst r) \<and> 1 \<le> snd r")
  case True
  then show ?thesis using that(1) by (simp add: outbox_claim_def claim_pending_accepted comp_def)
next
  case False
  then show ?thesis using that(2) claim_pending_refused [of "fst r" "snd r" rows] by (auto simp: outbox_claim_def)
qed

interpretation outbox_queue: claim_queue outbox_claim "ids_with in_delivery" "\<lambda>rows. distinct (map message_id rows)"
proof
  fix rows :: outbox and r :: "datetime \<times> int"
  assume d: "distinct (map message_id rows)"
  let ?ms = "claimable (instant (fst r)) (snd r) rows"
  show "distinct (map message_id (snd (outbox_claim r rows)))"
    by (cases r rows rule: outbox_claim_cases) (use d in \<open>simp_all add: change_rows_ids\<close>)
  show "set (fst (outbox_claim r rows)) \<inter> ids_with in_delivery rows = {}"
  proof (cases r rows rule: outbox_claim_cases)
    case 1
    have "message_id m \<notin> ids_with in_delivery rows" if m: "m \<in> set ?ms" for m
    proof
      assume "message_id m \<in> ids_with in_delivery rows"
      then obtain m' where "m' \<in> set rows" "in_delivery m'" "message_id m' = message_id m" by (auto simp: ids_with_def)
      moreover have "m \<in> set rows" "ready (instant (fst r)) m" using claimable_ready [OF m] by simp_all
      ultimately show False using d by (auto simp: distinct_map inj_on_def in_delivery_def ready_def)
    qed
    then show ?thesis using 1 by auto
  qed simp
  show "ids_with in_delivery (snd (outbox_claim r rows)) = ids_with in_delivery rows \<union> set (fst (outbox_claim r rows))"
  proof (cases r rows rule: outbox_claim_cases)
    case 1
    show ?thesis unfolding 1(3) fst_conv snd_conv
      by (rule ids_with_change [OF d claimable_def]) (simp_all add: in_delivery_def claim_row_def ready_def)
  qed simp
  show "distinct (fst (outbox_claim r rows))"
    by (cases r rows rule: outbox_claim_cases) (simp_all add: claimable_distinct [OF d])
qed

section \<open>Retry delays\<close>

lemma double_delay_bounds:
  "0 < d \<Longrightarrow> d \<le> x \<Longrightarrow> d \<le> double_delay x n d \<and> double_delay x n d \<le> x"
proof (induction n arbitrary: d)
  case (Suc n)
  show ?case
  proof (cases "td_half x \<le> d")
    case False
    then have "d * 2 \<le> x" using td_half_bound(2) [of x] by linarith
    then show ?thesis using Suc.IH [of "d * 2"] Suc.prems False by auto
  qed (use Suc.prems in simp)
qed simp

lemma double_delay_mono:
  "0 < d \<Longrightarrow> d \<le> x \<Longrightarrow> double_delay x n d \<le> double_delay x (Suc n) d"
proof (induction n arbitrary: d)
  case 0
  show ?case using 0 td_half_bound(2) [of x] by simp
next
  case (Suc n)
  show ?case
  proof (cases "td_half x \<le> d")
    case False
    then have "d * 2 \<le> x" using td_half_bound(2) [of x] by linarith
    then show ?thesis using Suc.IH [of "d * 2"] Suc.prems(1) False by simp
  qed simp
qed

lemma double_delay_closed:
  assumes "even x"
  shows "0 < d \<Longrightarrow> d \<le> x \<Longrightarrow> double_delay x n d = min (d * 2 ^ n) x"
proof (induction n arbitrary: d)
  case (Suc n)
  have half: "2 * td_half x = x" using assms by (simp add: td_half_def Let_def)
  show ?case
  proof (cases "td_half x \<le> d")
    case True
    have "d * 1 \<le> d * 2 ^ n" using Suc.prems(1) by (intro mult_left_mono) simp_all
    then show ?thesis using True half by (simp add: algebra_simps min_def)
  next
    case False
    then show ?thesis using Suc.IH [of "d * 2"] Suc.prems(1) half by (simp add: algebra_simps)
  qed
qed simp

text \<open>The delay before a delivery is retried lies between the base delay and the maximum, never shrinks
  from one attempt to the next, and doubles with every attempt until the maximum, exactly so when the
  maximum is an even number of microseconds (halving rounds, so otherwise the maximum may be reached one
  microsecond early).\<close>

theorem delivery_delay_bounds:
  assumes "0 < base" and "base \<le> maxi"
  shows "base \<le> exponential_retry_delay base maxi n \<and> exponential_retry_delay base maxi n \<le> maxi
     \<and> exponential_retry_delay base maxi n \<le> exponential_retry_delay base maxi (n + 1)
     \<and> (even maxi \<longrightarrow> exponential_retry_delay base maxi n = min (base * 2 ^ nat (n - 1)) maxi)"
proof -
  have "exponential_retry_delay base maxi n \<le> exponential_retry_delay base maxi (n + 1)"
  proof (cases "1 \<le> n")
    case True
    then have "nat (n + 1 - 1) = Suc (nat (n - 1))" by simp
    then show ?thesis unfolding exponential_retry_delay_def using double_delay_mono [OF assms, of "nat (n - 1)"] by presburger
  qed (simp add: exponential_retry_delay_def)
  then show ?thesis
    using double_delay_bounds [OF assms, of "nat (n - 1)"] double_delay_closed [OF _ assms, of "nat (n - 1)"]
    by (simp add: exponential_retry_delay_def)
qed

theorem delivery_delay_bounds_witness:
  "exponential_retry_delay (seconds 30) (seconds 900) 4 = seconds 240"
  using delivery_delay_bounds [of "seconds 30" "seconds 900" 4] by (simp add: seconds_def)

section \<open>No notification is lost\<close>

text \<open>What every row and the whole table satisfy.\<close>

definition message_ok :: "outbox_message \<Rightarrow> bool" where
  "message_ok m \<longleftrightarrow> 0 \<le> delivery_attempts m
     \<and> (outbox_status m = OutProcessing \<longleftrightarrow> message_claimed_at m \<noteq> None)
     \<and> (outbox_status m = OutDelivered \<longleftrightarrow> message_delivered_at m \<noteq> None)
     \<and> (outbox_status m \<noteq> OutPending \<longrightarrow> 1 \<le> delivery_attempts m)"

definition outbox_ok :: "outbox \<Rightarrow> bool" where
  "outbox_ok rows \<longleftrightarrow> distinct (map message_id rows) \<and> list_all message_ok rows"

text \<open>The content of a message, which nothing changes; a delivered message does not change at all.\<close>

definition content :: "outbox_message \<Rightarrow> uuid \<times> uuid \<times> uuid \<times> string \<times> time \<times> metadata \<times> uuid list" where
  "content m = (message_id m, message_mission m, message_event m, message_event_type m, occurred_at m, message_payload m, recipient_ids m)"

definition evolves :: "outbox_message \<Rightarrow> outbox_message \<Rightarrow> bool" where
  "evolves m m' \<longleftrightarrow> content m' = content m \<and> message_ok m' \<and> (outbox_status m = OutDelivered \<longrightarrow> m' = m)"

datatype outbox_request =
    ClaimPending datetime int
  | MarkDelivered uuid datetime
  | MarkFailed uuid datetime datetime string int
  | RecoverStale datetime timedelta int
  | RequeueFailed uuid datetime
  | PruneDelivered datetime int bool

definition done_with :: "('s, 'e, 'a) prog \<Rightarrow> ('s, 'e, unit) prog" where
  "done_with f = bindE f (\<lambda>_. ret ())"

fun serve_outbox :: "outbox_request \<Rightarrow> (outbox, exn, unit) prog" where
  "serve_outbox (ClaimPending t limit) = done_with (claim_pending t limit)"
| "serve_outbox (MarkDelivered k t) = mark_delivered k t"
| "serve_outbox (MarkFailed k failed_at retry_at error n) = mark_delivery_failed k failed_at retry_at error n"
| "serve_outbox (RecoverStale t timeout limit) = done_with (recover_stale_claims t timeout limit)"
| "serve_outbox (RequeueFailed k t) = done_with (requeue_failed k t)"
| "serve_outbox (PruneDelivered cutoff limit dry) = done_with (prune_delivered_before cutoff limit dry)"

definition kept :: "outbox \<Rightarrow> outbox \<Rightarrow> bool" where
  "kept rows rows' \<longleftrightarrow> outbox_ok rows' \<and> (\<forall>m \<in> set rows. \<exists>m' \<in> set rows'. evolves m m')
     \<and> content ` set rows' \<subseteq> content ` set rows"

lemma evolves_refl: "message_ok m \<Longrightarrow> evolves m m"
  by (simp add: evolves_def)

lemma kept_refl: "outbox_ok rows \<Longrightarrow> kept rows rows"
  by (auto simp: kept_def outbox_ok_def list_all_iff intro: evolves_refl)

lemma kept_change:
  assumes "outbox_ok rows" and "\<And>m. m \<in> set rows \<Longrightarrow> message_id m \<in> set ks \<Longrightarrow> evolves m (f m)"
  shows "kept rows (change_rows ks f rows)"
proof -
  define g where "g m = (if message_id m \<in> set ks then f m else m)" for m
  have rows': "change_rows ks f rows = map g rows" by (simp add: change_rows_def g_def)
  have e: "evolves m (g m)" if "m \<in> set rows" for m
    using assms that by (auto simp: g_def outbox_ok_def list_all_iff intro: evolves_refl)
  then have c: "content (g m) = content m" "message_ok (g m)" if "m \<in> set rows" for m
    using that by (simp_all add: evolves_def)
  then have ids: "map message_id (map g rows) = map message_id rows" by (simp add: content_def)
  have "outbox_ok (map g rows)" unfolding outbox_ok_def ids using assms(1) c(2) by (simp add: outbox_ok_def list_all_iff)
  moreover have "content ` set (map g rows) = content ` set rows" using c(1) by (simp add: image_image)
  ultimately show ?thesis using e by (auto simp: kept_def rows')
qed

lemmas evolution = evolves_def content_def message_ok_def

lemma evolves_claim: "message_ok m \<Longrightarrow> ready t m \<Longrightarrow> evolves m (claim_row u m)"
  by (cases "outbox_status m") (simp_all add: evolution claim_row_def ready_def)

lemma evolves_deliver: "message_ok m \<Longrightarrow> evolves m (deliver_row u m)"
  by (cases "outbox_status m") (simp_all add: evolution deliver_row_def)

lemma evolves_fail: "message_ok m \<Longrightarrow> evolves m (fail_row u e n m)"
  by (cases "outbox_status m") (simp_all add: evolution fail_row_def)

lemma evolves_recover: "message_ok m \<Longrightarrow> stale_claim t m \<Longrightarrow> evolves m (recover_row u m)"
  by (cases "outbox_status m") (simp_all add: evolution recover_row_def stale_claim_def)

lemma evolves_requeue: "message_ok m \<Longrightarrow> outbox_status m = OutFailed \<Longrightarrow> evolves m (requeue_row u m)"
  by (cases "outbox_status m") (simp_all add: evolution requeue_row_def)

lemma outbox_okD: "outbox_ok rows \<Longrightarrow> distinct (map message_id rows)" "outbox_ok rows \<Longrightarrow> m \<in> set rows \<Longrightarrow> message_ok m"
  by (simp_all add: outbox_ok_def list_all_iff)

lemma kept_picked:
  assumes "outbox_ok rows" and "\<And>m. message_ok m \<Longrightarrow> P m \<Longrightarrow> evolves m (f m)"
  shows "kept rows (change_rows (map message_id (first_n n (sort_key g (filter P rows)))) f rows)"
proof (rule kept_change [OF assms(1)])
  fix m assume m: "m \<in> set rows" "message_id m \<in> set (map message_id (first_n n (sort_key g (filter P rows))))"
  have "P m" by (rule picked_satisfies [OF outbox_okD(1) [OF assms(1)] m(1)]) (use m(2) in simp)
  then show "evolves m (f m)" using assms(2) outbox_okD(2) [OF assms(1) m(1)] by simp
qed

lemma wp_outbox_arguments:
  "Q () rows \<Longrightarrow> (\<And>e. E e rows) \<Longrightarrow> wp (outbox_arguments t limit) Q E rows"
  "Q () rows \<Longrightarrow> (\<And>e. E e rows) \<Longrightarrow> wp (outbox_time t) Q E rows"
  by (simp_all add: outbox_arguments_def outbox_time_def wp)

lemma serve_outbox_kept:
  assumes "outbox_ok rows" and "\<And>cutoff limit. c \<noteq> PruneDelivered cutoff limit False"
  shows "wp (serve_outbox c) (\<lambda>_. kept rows) (\<lambda>_. kept rows) rows"
proof (cases c)
  case (ClaimPending t limit)
  show ?thesis unfolding ClaimPending serve_outbox.simps done_with_def claim_pending_def wp
    by (rule wp_outbox_arguments) (simp_all add: kept_refl [OF assms(1)] claimable_def kept_picked [OF assms(1) evolves_claim])
next
  case (MarkDelivered k t)
  show ?thesis unfolding MarkDelivered serve_outbox.simps mark_delivered_def wp
    by (rule wp_outbox_arguments) (simp_all add: kept_refl [OF assms(1)] kept_change [OF assms(1) evolves_deliver] outbox_okD(2) [OF assms(1)])
next
  case (MarkFailed k failed_at retry_at error n)
  have "kept rows (change_rows [k] (fail_row (instant retry_at) error n) rows)"
    by (rule kept_change [OF assms(1) evolves_fail]) (rule outbox_okD(2) [OF assms(1)])
  then show ?thesis unfolding MarkFailed serve_outbox.simps mark_delivery_failed_def outbox_time_def wp
    using kept_refl [OF assms(1)] by simp
next
  case (RecoverStale t timeout limit)
  show ?thesis unfolding RecoverStale serve_outbox.simps done_with_def recover_stale_claims_def wp
    by (rule wp_outbox_arguments) (simp_all add: kept_refl [OF assms(1)] kept_picked [OF assms(1) evolves_recover])
next
  case (RequeueFailed k t)
  have "kept rows (change_rows [k] (requeue_row (instant t)) rows)" if m: "message_of rows k = Some m" "outbox_status m = OutFailed" for m
  proof (rule kept_change [OF assms(1)])
    fix m' assume "m' \<in> set rows" "message_id m' \<in> set [k]"
    then have "m' = m" using m(1) message_of_in [OF outbox_okD(1) [OF assms(1)], of k m'] by simp
    then show "evolves m' (requeue_row (instant t) m')" using evolves_requeue m(2) outbox_okD(2) [OF assms(1) \<open>m' \<in> set rows\<close>] by simp
  qed
  then show ?thesis unfolding RequeueFailed serve_outbox.simps done_with_def requeue_failed_def get_message_def outbox_time_def wp
    using kept_refl [OF assms(1)] by (simp split: option.split)
next
  case (PruneDelivered cutoff limit dry)
  then have "dry" using assms(2) by (cases dry) simp_all
  then show ?thesis unfolding PruneDelivered serve_outbox.simps done_with_def prune_delivered_before_def wp
    by (intro wp_outbox_arguments) (simp_all add: kept_refl [OF assms(1)])
qed

lemma prune_kept:
  assumes "outbox_ok rows"
  shows "wp (serve_outbox (PruneDelivered cutoff limit False))
      (\<lambda>_ rows'. outbox_ok rows' \<and> set rows' \<subseteq> set rows \<and> (\<forall>m \<in> set rows. m \<in> set rows' \<or> prunable (instant cutoff) m))
      (\<lambda>_. kept rows) rows"
proof -
  have "prunable (instant cutoff) m" if "m \<in> set rows" and "message_id m \<in> set (prune_candidates (instant cutoff) limit rows)" for m
  proof (rule picked_satisfies [OF outbox_okD(1) [OF assms] that(1)])
    show "message_id m \<in> message_id ` set (first_n limit (sort_key (\<lambda>m. (the (message_delivered_at m), message_id m))
        (filter (prunable (instant cutoff)) rows)))"
      using that(2) by (simp add: prune_candidates_def first_n_def take_map)
  qed
  moreover have "outbox_ok (filter P rows)" for P
    using assms by (simp add: outbox_ok_def list_all_iff distinct_map_filter)
  ultimately show ?thesis unfolding serve_outbox.simps done_with_def prune_delivered_before_def wp
    by (intro wp_outbox_arguments) (use kept_refl [OF assms] in auto)
qed

text \<open>Whatever call of the outbox is served, and whether it succeeds or is refused, the table stays well
  formed (unique identifiers; a claim time exactly while in delivery, a delivery time exactly when
  delivered), no message is added or rewritten, a delivered message is never delivered again, and a
  message disappears only when it was delivered before the cutoff of a pruning.\<close>

theorem notifications_kept:
  assumes "outbox_ok rows" and "snd (serve_outbox c rows) = rows'"
  shows "outbox_ok rows' \<and> content ` set rows' \<subseteq> content ` set rows
     \<and> (\<forall>m \<in> set rows. (\<exists>m' \<in> set rows'. evolves m m')
          \<or> (\<exists>cutoff limit. c = PruneDelivered cutoff limit False \<and> prunable (instant cutoff) m))"
proof (cases "\<exists>cutoff limit. c = PruneDelivered cutoff limit False")
  case True
  then obtain cutoff limit where c: "c = PruneDelivered cutoff limit False" by blast
  show ?thesis using prune_kept [OF assms(1), of cutoff limit] assms c outbox_okD(2) [OF assms(1)]
    by (cases "serve_outbox c rows") (auto simp: wp_def kept_def image_mono split: sum.splits intro: evolves_refl)
next
  case False
  then show ?thesis using serve_outbox_kept [OF assms(1), of c] assms(2)
    by (cases "serve_outbox c rows") (auto simp: wp_def kept_def split: sum.splits)
qed

definition sample_message :: "uuid \<Rightarrow> time \<Rightarrow> outbox_message" where
  "sample_message k t =
     \<lparr>message_id = k, message_mission = 7, message_event = 100 + k, message_event_type = ''mission_completed'',
      occurred_at = t, message_payload = [], recipient_ids = [3], outbox_status = OutPending, delivery_attempts = 0,
      available_at = t, message_claimed_at = None, message_delivered_at = None, last_error = None\<rparr>"

lemma sample_outbox_ok: "outbox_ok [sample_message 1 0, sample_message 2 5]"
  by (simp add: outbox_ok_def message_ok_def sample_message_def)

theorem notifications_kept_witness:
  "outbox_ok (snd (serve_outbox (ClaimPending (Aware 9) 1) [sample_message 1 0, sample_message 2 5]))"
  using notifications_kept [OF sample_outbox_ok refl, of "ClaimPending (Aware 9) 1"] by (rule conjunct1)

text \<open>Workers that claim from the outbox one after another never get the same message, nor one that is
  in delivery already, and what they got is in delivery afterwards.\<close>

theorem notifications_claimed_once:
  assumes "distinct (map message_id rows)" and "claims outbox_claim workers rows = (ks, rows')"
  shows "distinct ks \<and> set ks \<inter> ids_with in_delivery rows = {} \<and> ids_with in_delivery rows' = ids_with in_delivery rows \<union> set ks"
  using outbox_queue.claims_exclusive [OF assms(1), of workers] assms(2) by simp

theorem notifications_claimed_once_witness:
  "distinct (fst (claims outbox_claim [(Aware 9, 1), (Aware 9, 3)] [sample_message 1 0, sample_message 2 5]))"
  using notifications_claimed_once [OF outbox_okD(1) [OF sample_outbox_ok] prod.collapse [symmetric], of "[(Aware 9, 1), (Aware 9, 3)]"]
  by (rule conjunct1)

section \<open>Dispatch\<close>

definition polite :: "'w delivery \<Rightarrow> bool" where
  "polite deliver \<longleftrightarrow> (\<forall>m w. case fst (deliver m w) of
     Inl Interrupted \<Rightarrow> False | Inl (DeliveryError msg (Some d) retryable) \<Rightarrow> 0 \<le> d | _ \<Rightarrow> True)"

definition policy_valid :: "dispatch_policy \<Rightarrow> bool" where
  "policy_valid p \<longleftrightarrow> 0 < retry_delay p \<and> retry_delay p \<le> max_retry_delay p \<and> 1 \<le> max_attempts p"

text \<open>How a message may stand after it was handed to the adapter.\<close>

definition accepts :: "'w delivery \<Rightarrow> outbox_message \<Rightarrow> bool" where
  "accepts deliver m \<longleftrightarrow> (\<forall>w. \<not> isl (fst (deliver m w)))"

definition settled_message :: "'w delivery \<Rightarrow> dispatch_policy \<Rightarrow> time \<Rightarrow> outbox_message \<Rightarrow> outbox_message \<Rightarrow> bool" where
  "settled_message deliver p t m m' \<longleftrightarrow> (accepts deliver m \<longrightarrow> outbox_status m' = OutDelivered) \<and> outbox_status m' \<noteq> OutProcessing \<and> delivery_attempts m' = delivery_attempts m
     \<and> (outbox_status m' = OutPending \<longrightarrow> t \<le> available_at m' \<and> delivery_attempts m' < max_attempts p)"

fun counted :: "outbox_status \<Rightarrow> dispatch_result \<Rightarrow> dispatch_result" where
  "counted OutDelivered res = res\<lparr>delivered_count := Suc (delivered_count res)\<rparr>"
| "counted OutPending res = res\<lparr>retry_scheduled_count := Suc (retry_scheduled_count res)\<rparr>"
| "counted OutFailed res = res\<lparr>permanently_failed_count := Suc (permanently_failed_count res)\<rparr>"
| "counted OutProcessing res = res"

lemma requested_delay_nonneg:
  assumes "polite deliver" and "policy_valid p" and "fst (deliver m w) = Inl e"
  shows "0 \<le> requested_delay p m e"
proof -
  have "0 \<le> exponential_retry_delay (retry_delay p) (max_retry_delay p) (delivery_attempts m)"
    using assms(2) double_delay_bounds [of "retry_delay p" "max_retry_delay p" "nat (delivery_attempts m - 1)"]
    by (simp add: policy_valid_def exponential_retry_delay_def)
  moreover have "case e of DeliveryError msg (Some d) retryable \<Rightarrow> 0 \<le> d | _ \<Rightarrow> True"
    using assms(1) [unfolded polite_def, rule_format, of m w] assms(3) by (cases e) (auto split: option.splits)
  ultimately show ?thesis by (cases "(p, m, e)" rule: requested_delay.cases) simp_all
qed

lemma deliver_one_settles:
  assumes "polite deliver" and "policy_valid p" and "message_of (outbox s) (message_id m) = Some m"
    and "outbox_status m = OutProcessing" and "1 \<le> delivery_attempts m"
  shows "\<exists>f w. deliver_one deliver p (Aware t) m res s =
        (Inr (counted (outbox_status (f m)) res), s\<lparr>receiver := w, outbox := change_rows [message_id m] f (outbox s)\<rparr>)
      \<and> (\<forall>x. message_id (f x) = message_id x) \<and> settled_message deliver p t m (f m)"
proof -
  obtain r w where d: "deliver m (receiver s) = (r, w)" by fastforce
  show ?thesis
  proof (cases r)
    case (Inr u)
    show ?thesis
    proof (intro exI conjI)
      show "deliver_one deliver p (Aware t) m res s =
        (Inr (counted (outbox_status (deliver_row t m)) res), s\<lparr>receiver := w, outbox := change_rows [message_id m] (deliver_row t) (outbox s)\<rparr>)"
        using assms(4) by (simp add: deliver_one_def d Inr thenE_def bindE_def on_outbox_def mark_delivered_def outbox_time_def
            require_def ret_def modify_def deliver_row_def)
    qed (use assms(4) in \<open>simp_all add: settled_message_def deliver_row_def\<close>)
  next
    case (Inl e)
    have e: "e \<noteq> Interrupted" using assms(1) [unfolded polite_def, rule_format, of m "receiver s"] d Inl by auto
    have delay: "0 \<le> requested_delay p m e" by (rule requested_delay_nonneg [OF assms(1,2), of m "receiver s"]) (simp add: d Inl)
    let ?n = "if failure_retryable e then max_attempts p else delivery_attempts m"
    let ?f = "fail_row (t + requested_delay p m e) (failure_text e) ?n"
    have n: "1 \<le> ?n" using assms(2,5) by (simp add: policy_valid_def)
    have "deliver_one deliver p (Aware t) m res s = delivery_failed p (Aware t) m e res (s\<lparr>receiver := w\<rparr>)"
      using e by (cases e) (simp_all add: deliver_one_def d Inl)
    also have "\<dots> = (Inr (counted (outbox_status (?f m)) res), s\<lparr>receiver := w, outbox := change_rows [message_id m] ?f (outbox s)\<rparr>)"
      using delay n assms(4) by (auto simp: delivery_failed_def thenE_def bindE_def on_outbox_def mark_delivery_failed_def outbox_time_def
          require_def ret_def modify_def fail_row_def)
    finally have run: "deliver_one deliver p (Aware t) m res s =
       (Inr (counted (outbox_status (?f m)) res), s\<lparr>receiver := w, outbox := change_rows [message_id m] ?f (outbox s)\<rparr>)" .
    have "\<not> accepts deliver m" using d Inl by (auto simp: accepts_def intro: exI [of _ "receiver s"])
    then show ?thesis
      by (intro exI [of _ ?f] exI [of _ w]) (use run assms(4) delay in \<open>auto simp: settled_message_def fail_row_def\<close>)
  qed
qed

definition status_of :: "outbox \<Rightarrow> outbox_message \<Rightarrow> outbox_status option" where
  "status_of rows m = map_option outbox_status (message_of rows (message_id m))"

definition tallied :: "outbox \<Rightarrow> outbox_message list \<Rightarrow> dispatch_result \<Rightarrow> dispatch_result \<Rightarrow> bool" where
  "tallied rows ms res res' \<longleftrightarrow> claimed_count res' = claimed_count res
     \<and> delivered_count res' = delivered_count res + count_list (map (status_of rows) ms) (Some OutDelivered)
     \<and> retry_scheduled_count res' = retry_scheduled_count res + count_list (map (status_of rows) ms) (Some OutPending)
     \<and> permanently_failed_count res' = permanently_failed_count res + count_list (map (status_of rows) ms) (Some OutFailed)"

lemma tallied_Cons:
  "status_of rows m = Some st \<Longrightarrow> tallied rows ms (counted st res) res' \<Longrightarrow> tallied rows (m # ms) res res'"
  by (cases st) (simp_all add: tallied_def)

lemma deliver_all_settles:
  assumes "polite deliver" and "policy_valid p"
  shows "distinct (map message_id ms) \<Longrightarrow>
     \<forall>m \<in> set ms. message_of (outbox s) (message_id m) = Some m \<and> outbox_status m = OutProcessing \<and> 1 \<le> delivery_attempts m \<Longrightarrow>
     \<exists>res' s'. deliver_all deliver p (Aware t) ms res s = (Inr res', s')
       \<and> (\<forall>k. k \<notin> message_id ` set ms \<longrightarrow> message_of (outbox s') k = message_of (outbox s) k)
       \<and> (\<forall>m \<in> set ms. \<exists>m'. message_of (outbox s') (message_id m) = Some m' \<and> settled_message deliver p t m m')
       \<and> tallied (outbox s') ms res res'"
proof (induction ms arbitrary: res s)
  case Nil
  then show ?case by (simp add: ret_def tallied_def)
next
  case (Cons m ms res s)
  obtain f w where one: "deliver_one deliver p (Aware t) m res s =
        (Inr (counted (outbox_status (f m)) res), s\<lparr>receiver := w, outbox := change_rows [message_id m] f (outbox s)\<rparr>)"
      and f: "\<And>x. message_id (f x) = message_id x" and m: "settled_message deliver p t m (f m)"
    using deliver_one_settles [OF assms, of s m t res] Cons.prems(2) by auto
  let ?s = "s\<lparr>receiver := w, outbox := change_rows [message_id m] f (outbox s)\<rparr>"
  have look: "message_of (outbox ?s) k = (if k = message_id m then Some (f m) else message_of (outbox s) k)" for k
    using Cons.prems(2) message_of_change [of f "[message_id m]" "outbox s" k, OF f] by (auto simp: option.map_id)
  have ms: "\<forall>x \<in> set ms. message_of (outbox ?s) (message_id x) = Some x \<and> outbox_status x = OutProcessing \<and> 1 \<le> delivery_attempts x"
  proof
    fix x assume x: "x \<in> set ms"
    have "message_id x \<noteq> message_id m" using Cons.prems(1) imageI [OF x, of message_id] by auto
    with x show "message_of (outbox ?s) (message_id x) = Some x \<and> outbox_status x = OutProcessing \<and> 1 \<le> delivery_attempts x"
      using Cons.prems(2) x look [of "message_id x"] by simp
  qed
  have "distinct (map message_id ms)" using Cons.prems(1) by simp
  from Cons.IH [OF this ms, of "counted (outbox_status (f m)) res"]
  obtain res' s' where rest: "deliver_all deliver p (Aware t) ms (counted (outbox_status (f m)) res) ?s = (Inr res', s')"
      and other: "\<forall>k. k \<notin> message_id ` set ms \<longrightarrow> message_of (outbox s') k = message_of (outbox ?s) k"
      and fin: "\<forall>m \<in> set ms. \<exists>m'. message_of (outbox s') (message_id m) = Some m' \<and> settled_message deliver p t m m'"
      and tally: "tallied (outbox s') ms (counted (outbox_status (f m)) res) res'"
    by (elim exE conjE)
  have here: "message_of (outbox s') (message_id m) = Some (f m)" using other [rule_format, of "message_id m"] look [of "message_id m"] Cons.prems(1) by simp
  show ?case
  proof (intro exI conjI)
    show "deliver_all deliver p (Aware t) (m # ms) res s = (Inr res', s')" using one rest by (simp add: bindE_def)
    show "\<forall>k. k \<notin> message_id ` set (m # ms) \<longrightarrow> message_of (outbox s') k = message_of (outbox s) k"
    proof (intro allI impI)
      fix k assume "k \<notin> message_id ` set (m # ms)"
      then show "message_of (outbox s') k = message_of (outbox s) k" using other [rule_format, of k] look [of k] by simp
    qed
    show "\<forall>x \<in> set (m # ms). \<exists>m'. message_of (outbox s') (message_id x) = Some m' \<and> settled_message deliver p t x m'"
      using fin here m by auto
    show "tallied (outbox s') (m # ms) res res'" by (rule tallied_Cons [OF _ tally]) (simp add: status_of_def here)
  qed
qed

lemma outcome_counts:
  "\<forall>x \<in> set xs. x = Some OutDelivered \<or> x = Some OutPending \<or> x = Some OutFailed \<Longrightarrow>
     length xs = count_list xs (Some OutDelivered) + count_list xs (Some OutPending) + count_list xs (Some OutFailed)"
  by (induction xs) auto

text \<open>What a dispatch leaves behind: its counts are those of the claimed messages by their outcome, none of
  them is still in delivery, those to be retried wait at least until now and have attempts left, and no
  other message has changed.\<close>

definition dispatched ::
  "'w delivery \<Rightarrow> dispatch_policy \<Rightarrow> time \<Rightarrow> outbox_message list \<Rightarrow> outbox \<Rightarrow> dispatch_result \<Rightarrow> outbox \<Rightarrow> bool" where
  "dispatched deliver p t ms rows res rows' \<longleftrightarrow>
     (let outcomes = map (status_of rows') ms in
        claimed_count res = length ms \<and> delivered_count res = count_list outcomes (Some OutDelivered)
        \<and> retry_scheduled_count res = count_list outcomes (Some OutPending)
        \<and> permanently_failed_count res = count_list outcomes (Some OutFailed))
     \<and> claimed_count res = delivered_count res + retry_scheduled_count res + permanently_failed_count res
     \<and> (\<forall>m \<in> set ms. \<exists>m'. message_of rows' (message_id m) = Some m' \<and> settled_message deliver p t (claim_row t m) m')
     \<and> (\<forall>k. k \<notin> message_id ` set ms \<longrightarrow> message_of rows' k = message_of rows k)"

lemma dispatch_returns:
  assumes "outbox_ok (outbox s)" and "policy_valid p" and "polite deliver" and "1 \<le> limit"
  shows "\<exists>res s'. dispatch_pending_notifications deliver (Aware t) limit p s = (Inr res, s')
     \<and> dispatched deliver p t (claimable t limit (outbox s)) (outbox s) res (outbox s')"
proof -
  define ms where "ms = claimable t limit (outbox s)"
  let ?s = "s\<lparr>outbox := change_rows (map message_id ms) (claim_row t) (outbox s)\<rparr>"
  let ?start = "\<lparr>claimed_count = length (map (claim_row t) ms), delivered_count = 0, retry_scheduled_count = 0, permanently_failed_count = 0\<rparr>"
  have ids: "distinct (map message_id (outbox s))" by (rule outbox_okD(1) [OF assms(1)])
  have d: "distinct (map message_id (map (claim_row t) ms))"
    using claimable_distinct [OF ids, of t limit] by (simp add: ms_def comp_def)
  have look: "message_of (outbox ?s) k = map_option (if k \<in> set (map message_id ms) then claim_row t else id) (message_of (outbox s) k)" for k
    using message_of_change [of "claim_row t" "map message_id ms" "outbox s" k] by simp
  have one: "message_of (outbox ?s) (message_id m) = Some (claim_row t m) \<and> 0 \<le> delivery_attempts m" if "m \<in> set ms" for m
  proof -
    have "m \<in> set (outbox s)" using claimable_ready that by (simp add: ms_def)
    then have "message_of (outbox s) (message_id m) = Some m" and "message_ok m"
      using message_of_in [OF ids] outbox_okD(2) [OF assms(1)] by simp_all
    then show ?thesis using look [of "message_id m"] that by (simp add: message_ok_def)
  qed
  have claimed: "\<forall>m \<in> set (map (claim_row t) ms). message_of (outbox ?s) (message_id m) = Some m \<and> outbox_status m = OutProcessing \<and> 1 \<le> delivery_attempts m"
    using one by (simp add: claim_row_def)
  from deliver_all_settles [OF assms(3,2) d claimed, of t ?start]
  obtain res s' where run: "deliver_all deliver p (Aware t) (map (claim_row t) ms) ?start ?s = (Inr res, s')"
      and other: "\<forall>k. k \<notin> message_id ` set (map (claim_row t) ms) \<longrightarrow> message_of (outbox s') k = message_of (outbox ?s) k"
      and fin: "\<forall>m \<in> set (map (claim_row t) ms). \<exists>m'. message_of (outbox s') (message_id m) = Some m' \<and> settled_message deliver p t m m'"
      and tally: "tallied (outbox s') (map (claim_row t) ms) ?start res"
    by (elim exE conjE)
  have same: "map (status_of (outbox s')) (map (claim_row t) ms) = map (status_of (outbox s')) ms"
    by (simp add: status_of_def)
  have each: "\<exists>m'. message_of (outbox s') (message_id m) = Some m' \<and> settled_message deliver p t (claim_row t m) m'" if "m \<in> set ms" for m
    using fin that by auto
  have "\<forall>x \<in> set (map (status_of (outbox s')) ms). x = Some OutDelivered \<or> x = Some OutPending \<or> x = Some OutFailed"
  proof
    fix x assume "x \<in> set (map (status_of (outbox s')) ms)"
    then obtain m where m: "m \<in> set ms" "x = status_of (outbox s') m" by auto
    from each [OF m(1)] obtain m' where m': "message_of (outbox s') (message_id m) = Some m'"
        "settled_message deliver p t (claim_row t m) m'" by blast
    then have "x = Some (outbox_status m')" "outbox_status m' \<noteq> OutProcessing"
      using m(2) by (simp_all add: status_of_def settled_message_def)
    then show "x = Some OutDelivered \<or> x = Some OutPending \<or> x = Some OutFailed" by (cases "outbox_status m'") simp_all
  qed
  from outcome_counts [OF this] have sum: "length ms = count_list (map (status_of (outbox s')) ms) (Some OutDelivered)
      + count_list (map (status_of (outbox s')) ms) (Some OutPending) + count_list (map (status_of (outbox s')) ms) (Some OutFailed)" by simp
  have rest: "message_of (outbox s') k = message_of (outbox s) k" if "k \<notin> message_id ` set ms" for k
    using other [rule_format, of k] look [of k] that by (simp add: image_image option.map_id)
  have "dispatch_pending_notifications deliver (Aware t) limit p s = (Inr res, s')"
    using run assms(2,4) claim_pending_accepted [of "Aware t" limit "outbox s"]
    by (simp add: dispatch_pending_notifications_def policy_valid_def thenE_def bindE_def require_def ret_def on_outbox_def ms_def)
  moreover have "dispatched deliver p t ms (outbox s) res (outbox s')"
    using tally sum each rest unfolding dispatched_def tallied_def same by (simp add: Let_def)
  ultimately show ?thesis unfolding ms_def by blast
qed

text \<open>C17: with an adapter that asks for no retry in the past and is not interrupted, a dispatch returns, and it
  has claimed the ready messages up to its limit, in the order of their due times, and settled each of
  them: delivered, failed for good, or to be retried later with attempts left; its counts say so, and no
  other message is touched. An adapter that accepts a message gets it marked delivered.\<close>

theorem dispatch_settles:
  assumes "outbox_ok (outbox s)" and "policy_valid p" and "polite deliver" and "1 \<le> limit"
  shows "\<exists>res s'. dispatch_pending_notifications deliver (Aware t) limit p s = (Inr res, s')
     \<and> dispatched deliver p t (claimable t limit (outbox s)) (outbox s) res (outbox s')"
  by (rule dispatch_returns [OF assms])

text \<open>A channel that refuses the first attempt of every message, with a busy receiver.\<close>

definition busy_channel :: "nat delivery" where
  "busy_channel m n = (if delivery_attempts m = 1 then (Inl (DeliveryError ''busy'' (Some (seconds 60)) True), Suc n) else (Inr (), n))"

definition outbox_demo :: "nat outbox_sys" where
  "outbox_demo = \<lparr>outbox = [sample_message 1 0, sample_message 2 5], receiver = 0\<rparr>"

theorem dispatch_settles_witness:
  "\<exists>res s'. dispatch_pending_notifications busy_channel (Aware 9) 100 default_dispatch_policy outbox_demo = (Inr res, s')
     \<and> claimed_count res = delivered_count res + retry_scheduled_count res + permanently_failed_count res"
proof -
  have "outbox_ok (outbox outbox_demo)" unfolding outbox_demo_def outbox_sys.simps by (rule sample_outbox_ok)
  moreover have "policy_valid default_dispatch_policy"
    by (simp add: policy_valid_def default_dispatch_policy_def seconds_def)
  moreover have "polite busy_channel" by (simp add: polite_def busy_channel_def seconds_def)
  ultimately show ?thesis using dispatch_settles [of outbox_demo default_dispatch_policy busy_channel 100 9]
    unfolding dispatched_def by fastforce
qed

section \<open>Worker cycles\<close>

lemma ids_satisfy:
  "distinct (map f xs) \<Longrightarrow> x \<in> set xs \<Longrightarrow> f x \<in> f ` set (filter P xs) \<Longrightarrow> P x"
  by (auto simp: distinct_map inj_on_def)

lemma length_filter_keys:
  assumes "distinct (map f xs)" and "distinct ks" and "set ks \<subseteq> f ` set xs"
  shows "length (filter (\<lambda>x. f x \<in> set ks) xs) = length ks"
proof -
  have "distinct (map f (filter (\<lambda>x. f x \<in> set ks) xs))" using assms(1) by (simp add: distinct_map_filter)
  moreover have "set (map f (filter (\<lambda>x. f x \<in> set ks) xs)) = set ks" using assms(3) by auto
  ultimately show ?thesis using distinct_card [OF assms(2)] distinct_card by fastforce
qed

lemma filter_full:
  "length (filter P xs) \<le> length (filter (\<lambda>x. P x \<and> Q x) xs) \<Longrightarrow> x \<in> set xs \<Longrightarrow> P x \<Longrightarrow> Q x"
proof (induction xs)
  case (Cons y xs)
  have "length (filter (\<lambda>x. P x \<and> Q x) xs) \<le> length (filter P xs)" by (induction xs) auto
  then show ?case using Cons by (auto split: if_splits)
qed simp

lemma accepts_polite:
  assumes "\<And>m. accepts deliver m"
  shows "polite deliver"
  unfolding polite_def
proof (intro allI)
  fix m w
  have "\<not> isl (fst (deliver m w))" using assms by (simp add: accepts_def)
  then show "case fst (deliver m w) of Inl Interrupted \<Rightarrow> False | Inl (DeliveryError msg (Some d) retryable) \<Rightarrow> 0 \<le> d | _ \<Rightarrow> True"
    by (cases "fst (deliver m w)") simp_all
qed

text \<open>What waits for a cycle at \<open>t\<close>: a message that is due, or one whose claim is at least the timeout old.\<close>

definition waits :: "time \<Rightarrow> timedelta \<Rightarrow> outbox_message \<Rightarrow> bool" where
  "waits t timeout m \<longleftrightarrow>
     outbox_status m = OutPending \<and> available_at m \<le> t
     \<or> outbox_status m = OutProcessing \<and> (case message_claimed_at m of None \<Rightarrow> False | Some c \<Rightarrow> c + timeout \<le> t)"

definition delivered_in :: "outbox \<Rightarrow> outbox_message \<Rightarrow> bool" where
  "delivered_in rows m \<longleftrightarrow> map_option outbox_status (message_of rows (message_id m)) = Some OutDelivered"

lemma all_delivered:
  "(\<And>m. m \<in> set ms \<Longrightarrow> delivered_in rows m) \<Longrightarrow> count_list (map (status_of rows) ms) (Some OutDelivered) = length ms"
  by (induction ms) (simp_all add: delivered_in_def status_of_def)

lemma waits_iff: "waits t timeout m \<longleftrightarrow> ready t m \<or> stale_claim (t - timeout) m"
  by (auto simp: waits_def ready_def stale_claim_def split: option.splits)

lemma picked_full:
  assumes "m \<in> set rows" and "P m" and "m \<notin> set (first_n n (sort_key g (filter P rows)))"
  shows "length (first_n n (sort_key g (filter P rows))) = nat n"
proof (rule ccontr)
  assume "length (first_n n (sort_key g (filter P rows))) \<noteq> nat n"
  then have "first_n n (sort_key g (filter P rows)) = sort_key g (filter P rows)" by (auto simp: first_n_def)
  then show False using assms by simp
qed

text \<open>After recovering stale claims: every waiting message is ready, or the batch is full.\<close>

lemma recovered_batch:
  fixes rows0 t timeout limit
  defines "stale \<equiv> first_n limit (sort_key (\<lambda>m. the (message_claimed_at m)) (filter (stale_claim (t - timeout)) rows0))"
  defines "rows \<equiv> change_rows (map message_id stale) (recover_row t) rows0"
  assumes "distinct (map message_id rows0)"
  shows "m \<in> set rows0 \<Longrightarrow> waits t timeout m \<Longrightarrow>
      message_id m \<in> message_id ` set (claimable t limit rows) \<or> length (claimable t limit rows) = nat limit" (is "_ \<Longrightarrow> _ \<Longrightarrow> ?A m")
    and "message_id ` set (claimable t limit rows) \<subseteq> message_id ` set (filter (waits t timeout) rows0)"
proof -
  have readied: "recover_row t x \<in> set rows \<and> ready t (recover_row t x)" if "x \<in> set stale" for x
  proof -
    have "x \<in> set rows0" using that set_picked unfolding stale_def by fastforce
    then show ?thesis using that by (auto simp: rows_def change_rows_def ready_def recover_row_def)
  qed
  have from_ready: "message_id x \<in> message_id ` set (claimable t limit rows) \<or> length (claimable t limit rows) = nat limit"
    if "x \<in> set rows" "ready t x" for x
    using picked_full [of x rows "ready t" limit "\<lambda>m. (available_at m, occurred_at m)"] that unfolding claimable_def by blast
  show "?A m" if m: "m \<in> set rows0" "waits t timeout m"
  proof (cases "stale_claim (t - timeout) m")
    case False
    then have "message_id m \<notin> message_id ` set stale" using picked_satisfies [OF assms(3) m(1)] unfolding stale_def by blast
    then have "m \<in> set rows" using m(1) by (force simp: rows_def change_rows_def)
    then show ?thesis using from_ready m(2) False by (simp add: waits_iff)
  next
    case True
    show ?thesis
    proof (cases "m \<in> set stale")
      case True
      then show ?thesis using from_ready [of "recover_row t m"] readied [of m] by simp
    next
      case False
      then have full: "length stale = nat limit"
        using picked_full [of m rows0 "stale_claim (t - timeout)"] m(1) True unfolding stale_def by blast
      have d: "distinct (map message_id stale)" unfolding stale_def by (rule distinct_picked [OF assms(3)])
      have sub: "message_id ` set stale \<subseteq> message_id ` set (filter (ready t) rows)"
      proof
        fix i assume "i \<in> message_id ` set stale"
        then obtain x where x: "x \<in> set stale" "i = message_id (recover_row t x)" by auto
        have "recover_row t x \<in> set (filter (ready t) rows)" using readied [OF x(1)] by simp
        then show "i \<in> message_id ` set (filter (ready t) rows)" unfolding x(2) by (rule imageI)
      qed
      have "length stale = card (message_id ` set stale)" using distinct_card [OF d] by simp
      also have "\<dots> \<le> card (message_id ` set (filter (ready t) rows))" by (rule card_mono [OF _ sub]) simp
      also have "\<dots> \<le> length (filter (ready t) rows)"
        using card_image_le [of "set (filter (ready t) rows)" message_id] card_length [of "filter (ready t) rows"] by simp
      finally show ?thesis using full by (simp add: claimable_def first_n_def)
    qed
  qed
  show "message_id ` set (claimable t limit rows) \<subseteq> message_id ` set (filter (waits t timeout) rows0)"
  proof
    fix i assume "i \<in> message_id ` set (claimable t limit rows)"
    then obtain x where x: "i = message_id x" "x \<in> set rows" "ready t x" using claimable_ready by blast
    then obtain y where y: "y \<in> set rows0" "x = (if message_id y \<in> message_id ` set stale then recover_row t y else y)"
      by (auto simp: rows_def change_rows_def)
    have "waits t timeout y"
      using picked_satisfies [OF assms(3) y(1)] x(3) y(2) unfolding waits_iff stale_def by (auto split: if_splits)
    then show "i \<in> message_id ` set (filter (waits t timeout) rows0)" using x(1) y by (auto split: if_splits)
  qed
qed

text \<open>C18: a cycle of the notification worker delivers what waits: with a channel that accepts messages and any
  limit, every message that is due, and every message an earlier worker claimed and left behind longer than
  the claim timeout, is marked delivered when the cycle returns, unless more messages wait than the limit
  admits; then exactly the limit's number of messages is delivered.\<close>

theorem worker_cycle_delivers:
  assumes "outbox_ok (outbox s)" and "policy_valid p" and "\<And>m. accepts deliver m" and "1 \<le> limit" and "0 < timeout"
  shows "\<exists>n res s'. process_notification_worker_cycle deliver (Aware t) limit timeout p s = (Inr (n, res), s')
     \<and> claimed_count res = delivered_count res
     \<and> (if int (length (filter (waits t timeout) (outbox s))) \<le> limit
        then \<forall>m \<in> set (outbox s). waits t timeout m \<longrightarrow> delivered_in (outbox s') m
        else int (delivered_count res) = limit
             \<and> int (length (filter (\<lambda>m. waits t timeout m \<and> delivered_in (outbox s') m) (outbox s))) = limit)"
proof -
  define stale where "stale = first_n limit (sort_key (\<lambda>m. the (message_claimed_at m)) (filter (stale_claim (t - timeout)) (outbox s)))"
  define rows where "rows = change_rows (map message_id stale) (recover_row t) (outbox s)"
  define batch where "batch = claimable t limit rows"
  let ?s = "s\<lparr>outbox := rows\<rparr>" and ?waiting = "filter (waits t timeout) (outbox s)"
  have ids: "distinct (map message_id (outbox s))" by (rule outbox_okD(1) [OF assms(1)])
  have "kept (outbox s) rows"
    unfolding rows_def stale_def by (rule kept_picked [OF assms(1)]) (rule evolves_recover)
  then have ok: "outbox_ok (outbox ?s)" by (simp add: kept_def)
  have "polite deliver" by (rule accepts_polite) (rule assms(3))
  from dispatch_returns [OF ok assms(2) this assms(4), of t]
  obtain res s' where run: "dispatch_pending_notifications deliver (Aware t) limit p ?s = (Inr res, s')"
      and settled: "dispatched deliver p t batch rows res (outbox s')" unfolding batch_def by (elim exE conjE) simp
  have d: "distinct (map message_id batch)"
    unfolding batch_def by (rule claimable_distinct) (use ok in \<open>simp add: outbox_okD(1)\<close>)
  note batched = recovered_batch [OF ids, where t = t and timeout = timeout and limit = limit, folded stale_def, folded rows_def, folded batch_def]
  have cycle: "process_notification_worker_cycle deliver (Aware t) limit timeout p s = (Inr (length stale, res), s')"
    using run assms(4,5) by (simp add: process_notification_worker_cycle_def recover_stale_claims_def outbox_arguments_def outbox_time_def
        thenE_def bindE_def require_def ret_def gets_def modify_def on_outbox_def stale_def rows_def)
  have accepted: "delivered_in (outbox s') m" if "message_id m \<in> message_id ` set batch" for m
  proof -
    from that obtain x where x: "x \<in> set batch" "message_id x = message_id m" by auto
    obtain m' where "message_of (outbox s') (message_id x) = Some m'" "settled_message deliver p t (claim_row t x) m'"
      using settled x(1) unfolding dispatched_def by blast
    then show ?thesis using assms(3) x(2) by (simp add: delivered_in_def settled_message_def)
  qed
  have left: "\<not> delivered_in (outbox s') m"
    if "m \<in> set (outbox s)" "waits t timeout m" "message_id m \<notin> message_id ` set batch" for m
  proof -
    have look: "message_of (outbox s) (message_id m) = Some m" using message_of_in [OF ids] that(1) by simp
    have "message_of (outbox s') (message_id m) = message_of rows (message_id m)"
      using settled that(3) unfolding dispatched_def by blast
    also have "\<dots> = map_option (if message_id m \<in> set (map message_id stale) then recover_row t else id) (Some m)"
      unfolding rows_def using message_of_change [of "recover_row t" "map message_id stale" "outbox s" "message_id m"]
        look by simp
    finally show ?thesis using that(2) by (auto simp: delivered_in_def recover_row_def waits_def)
  qed
  have inside: "waits t timeout m" if "m \<in> set (outbox s)" "message_id m \<in> message_id ` set batch" for m
    by (rule ids_satisfy [OF ids that(1) subsetD [OF batched(2) that(2)]])
  have "filter (\<lambda>m. waits t timeout m \<and> delivered_in (outbox s') m) (outbox s)
      = filter (\<lambda>m. message_id m \<in> set (map message_id batch)) (outbox s)"
    by (rule filter_cong) (use accepted left inside in auto)
  moreover have "length (filter (\<lambda>m. message_id m \<in> set (map message_id batch)) (outbox s)) = length batch"
    using length_filter_keys [OF ids d] batched(2) by fastforce
  ultimately have some: "length (filter (\<lambda>m. waits t timeout m \<and> delivered_in (outbox s') m) (outbox s)) = length batch" by simp
  have counts: "claimed_count res = length batch" "delivered_count res = length batch"
    using settled all_delivered [of batch "outbox s'"] accepted unfolding dispatched_def by (simp_all add: Let_def)
  have most: "length batch \<le> nat limit" by (simp add: batch_def claimable_def first_n_def)
  have full: "length batch = nat limit" if "length batch < length ?waiting"
  proof (rule ccontr)
    assume "length batch \<noteq> nat limit"
    then have "filter (\<lambda>m. waits t timeout m \<and> delivered_in (outbox s') m) (outbox s) = ?waiting"
      using batched(1) accepted by (intro filter_cong) auto
    then show False using some that by simp
  qed
  have all: "\<forall>m \<in> set (outbox s). waits t timeout m \<longrightarrow> delivered_in (outbox s') m" if "length ?waiting \<le> length batch"
    using filter_full [of "waits t timeout" "outbox s" "delivered_in (outbox s')"] some that by simp
  have "if int (length ?waiting) \<le> limit
      then \<forall>m \<in> set (outbox s). waits t timeout m \<longrightarrow> delivered_in (outbox s') m
      else int (delivered_count res) = limit
           \<and> int (length (filter (\<lambda>m. waits t timeout m \<and> delivered_in (outbox s') m) (outbox s))) = limit"
    using full all most assms(4) unfolding some counts by (cases "length ?waiting \<le> length batch") auto
  then show ?thesis using cycle counts by (intro exI [of _ "length stale"] exI [of _ res] exI [of _ s'] conjI) simp_all
qed

text \<open>A message that was claimed at time 1 by a worker that stopped is delivered by a later cycle.\<close>

definition abandoned_demo :: "nat outbox_sys" where
  "abandoned_demo = \<lparr>outbox = [claim_row 1 (sample_message 1 0)], receiver = 0\<rparr>"

theorem worker_cycle_delivers_witness:
  "\<exists>n res s'. process_notification_worker_cycle (\<lambda>m. ret ()) (Aware (seconds 600)) 100 (seconds 300) default_dispatch_policy abandoned_demo
       = (Inr (n, res), s') \<and> map_option outbox_status (message_of (outbox s') 1) = Some OutDelivered"
proof -
  have ok: "outbox_ok (outbox abandoned_demo)"
    by (simp add: abandoned_demo_def outbox_ok_def message_ok_def claim_row_def sample_message_def)
  have p: "policy_valid default_dispatch_policy" by (simp add: policy_valid_def default_dispatch_policy_def seconds_def)
  have a: "accepts (\<lambda>m. ret ()) m" for m by (simp add: accepts_def ret_def)
  have "claim_row 1 (sample_message 1 0) \<in> set (outbox abandoned_demo)" and
      "stale_claim (seconds 600 - seconds 300) (claim_row 1 (sample_message 1 0))"
      and "message_id (claim_row 1 (sample_message 1 0)) = 1"
    by (simp_all add: abandoned_demo_def stale_claim_def claim_row_def sample_message_def seconds_def)
  then show ?thesis
    using worker_cycle_delivers [OF ok p a, of 100 "seconds 300" "seconds 600"]
    by (fastforce simp: abandoned_demo_def seconds_def waits_iff delivered_in_def)
qed

end
