(* ===== verification/NotificationDelivery.thy ===== *)
theory NotificationDelivery
  imports OutboxContracts Engine
begin

text \<open>
  The delivery adapters (\<open>app/services/notification_delivery.py\<close>): lines of JSON, a webhook, and the routing
  by the notification preferences of the recipients, on the state of the identity repository and of what
  is behind the inner adapter. The HTTP client, the JSON text of a message and the keyed digest of a body
  are parameters.
\<close>

section \<open>Lines of JSON\<close>

definition json_line :: "(outbox_message \<Rightarrow> string) \<Rightarrow> string delivery" where
  "json_line dump m out = (Inr (), out @ dump m @ [CHR 0x0A])"

section \<open>Webhook\<close>

record hook_response =
  hook_status :: int
  retry_after_header :: "string option"

record webhook =
  hook_url :: string
  bearer_token :: "string option"
  signing_secret :: "string option"

type_synonym headers = "(string, string) dict"

type_synonym 'w poster = "string \<Rightarrow> string \<Rightarrow> headers \<Rightarrow> ('w, delivery_failure, hook_response) prog"

definition is_success :: "hook_response \<Rightarrow> bool" where
  "is_success r \<longleftrightarrow> 200 \<le> hook_status r \<and> hook_status r \<le> 299"

definition retry_after :: "hook_response \<Rightarrow> timedelta option" where
  "retry_after r =
     (case retry_after_header r of
        None \<Rightarrow> None
      | Some v \<Rightarrow>
          (case py_int v of
             None \<Rightarrow> None
           | Some n \<Rightarrow> if n \<le> 0 then None else Some (seconds (min n 86400))))"

definition is_retryable_status :: "int \<Rightarrow> bool" where
  "is_retryable_status n \<longleftrightarrow> n \<in> {408, 425, 429} \<or> n \<ge> 500"

definition hook_headers :: "(string \<Rightarrow> string \<Rightarrow> string) \<Rightarrow> webhook \<Rightarrow> outbox_message \<Rightarrow> string \<Rightarrow> headers" where
  "hook_headers sign h m body =
     [(''Content-Type'', ''application/json''), (''Idempotency-Key'', uuid_str (message_event m)),
      (''X-Purchase-Agent-Delivery-Version'', ''1'')]
     @ (case bearer_token h of None \<Rightarrow> [] | Some t \<Rightarrow> [(''Authorization'', ''Bearer '' @ t)])
     @ (case signing_secret h of None \<Rightarrow> [] | Some k \<Rightarrow> [(''X-Purchase-Agent-Signature'', ''sha256='' @ sign k body)])"

definition webhook_deliver ::
  "'w poster \<Rightarrow> (outbox_message \<Rightarrow> string) \<Rightarrow> (string \<Rightarrow> string \<Rightarrow> string) \<Rightarrow> webhook \<Rightarrow> 'w delivery" where
  "webhook_deliver post dump sign h m =
     (let body = dump m in
      bindE (post (hook_url h) body (hook_headers sign h m body)) (\<lambda>r.
        if \<not> is_success r
        then raise (DeliveryError (''Webhook returned HTTP '' @ int_str (hook_status r) @ ''.'')
               (retry_after r) (is_retryable_status (hook_status r)))
        else ret ()))"

section \<open>Routing\<close>

text \<open>\<open>sorted\<close> of the values of the set of channels.\<close>

definition sorted_channels :: "notification_channel list \<Rightarrow> string list" where
  "sorted_channels cs =
     (if Email \<in> set cs then [''email''] else []) @ (if Telegram \<in> set cs then [''telegram''] else [])
     @ (if Webhook \<in> set cs then [''webhook''] else [])"

definition recipient_entry :: "identity \<Rightarrow> json option" where
  "recipient_entry i =
     (let prefs = notification_prefs (identity_preferences i) in
      if \<not> notifications_enabled prefs then None
      else (case external_recipient_id prefs of
              None \<Rightarrow> None
            | Some ext \<Rightarrow> Some (JObj [(''identity_id'', JStr (uuid_str (identity_id i))),
                (''channels'', JList (map JStr (sorted_channels (channels prefs)))), (''external_recipient_id'', JStr ext)])))"

fun recipients_of :: "(uuid, identity) dict \<Rightarrow> uuid list \<Rightarrow> json list" where
  "recipients_of ids [] = []"
| "recipients_of ids (k # ks) =
     (case map_of ids k of
        None \<Rightarrow> recipients_of ids ks
      | Some i \<Rightarrow> (case recipient_entry i of None \<Rightarrow> recipients_of ids ks | Some r \<Rightarrow> r # recipients_of ids ks))"

definition with_recipients :: "json list \<Rightarrow> outbox_message \<Rightarrow> outbox_message" where
  "with_recipients rs m = m\<lparr>message_payload := dict_set ''recipients'' (JList rs) (message_payload m)\<rparr>"

definition routed :: "'w delivery \<Rightarrow> ((uuid, identity) dict \<times> 'w) delivery" where
  "routed inner m s =
     (case s of (ids, w) \<Rightarrow>
        let rs = recipients_of ids (recipient_ids m) in
        if rs = [] then (Inr (), s)
        else (case inner (with_recipients rs m) w of (r, w') \<Rightarrow> (r, (ids, w'))))"

section \<open>Contracts\<close>

text \<open>An HTTP client that raises its own exceptions only.\<close>

definition plain_poster :: "'w poster \<Rightarrow> bool" where
  "plain_poster post \<longleftrightarrow> (\<forall>url body hs w. case fst (post url body hs w) of Inl (Raised msg) \<Rightarrow> True | Inl e \<Rightarrow> False | Inr r \<Rightarrow> True)"

lemma retry_after_bounds: "retry_after r = Some d \<Longrightarrow> seconds 1 \<le> d \<and> d \<le> seconds 86400"
  by (auto simp: retry_after_def seconds_def split: option.splits if_splits)

lemma webhook_polite:
  assumes "plain_poster post"
  shows "polite (webhook_deliver post dump sign h)"
  unfolding polite_def
proof (intro allI)
  fix m w
  let ?hs = "hook_headers sign h m (dump m)"
  obtain r w' where p: "post (hook_url h) (dump m) ?hs w = (r, w')" by fastforce
  have r: "case r of Inl (Raised msg) \<Rightarrow> True | Inl e \<Rightarrow> False | Inr x \<Rightarrow> True"
    using assms [unfolded plain_poster_def, rule_format, of "hook_url h" "dump m" ?hs w] p by simp
  show "case fst (webhook_deliver post dump sign h m w) of
     Inl Interrupted \<Rightarrow> False | Inl (DeliveryError msg (Some d) retryable) \<Rightarrow> 0 \<le> d | _ \<Rightarrow> True"
  proof (cases r)
    case (Inl e)
    then show ?thesis using r by (cases e) (simp_all add: webhook_deliver_def Let_def bindE_def p)
  next
    case (Inr x)
    then show ?thesis using retry_after_bounds [of x]
      by (cases "retry_after x") (auto simp: webhook_deliver_def Let_def bindE_def p raise_def ret_def seconds_def)
  qed
qed

lemma routed_polite:
  assumes "polite inner"
  shows "polite (routed inner)"
  unfolding polite_def
proof (intro allI)
  fix m and s :: "(uuid, identity) dict \<times> 'a"
  obtain ids w where s: "s = (ids, w)" by (cases s)
  let ?m = "with_recipients (recipients_of ids (recipient_ids m)) m"
  show "case fst (routed inner m s) of
     Inl Interrupted \<Rightarrow> False | Inl (DeliveryError msg (Some d) retryable) \<Rightarrow> 0 \<le> d | _ \<Rightarrow> True"
    using assms [unfolded polite_def, rule_format, of ?m w]
    by (cases "inner ?m w") (simp add: s routed_def Let_def)
qed

text \<open>A webhook delivery succeeds exactly on a 2xx response. Any other status is a delivery error that may be
  retried for 408, 425, 429 and the server errors only, and the delay it passes on from the receiver lies
  between a second and a day. Every attempt carries the event's identifier as its idempotency key.\<close>

theorem webhook_outcome:
  assumes "post (hook_url h) (dump m) (hook_headers sign h m (dump m)) w = (Inr r, w')"
  shows "(is_success r \<longrightarrow> webhook_deliver post dump sign h m w = (Inr (), w'))
     \<and> (\<not> is_success r \<longrightarrow> (\<exists>msg d. webhook_deliver post dump sign h m w = (Inl (DeliveryError msg d (is_retryable_status (hook_status r))), w')
            \<and> (case d of None \<Rightarrow> True | Some x \<Rightarrow> seconds 1 \<le> x \<and> x \<le> seconds 86400)))
     \<and> map_of (hook_headers sign h m (dump m)) ''Idempotency-Key'' = Some (uuid_str (message_event m))"
proof (intro conjI impI)
  show "webhook_deliver post dump sign h m w = (Inr (), w')" if "is_success r"
    using that by (simp add: webhook_deliver_def Let_def bindE_def assms ret_def)
  assume n: "\<not> is_success r"
  show "\<exists>msg d. webhook_deliver post dump sign h m w = (Inl (DeliveryError msg d (is_retryable_status (hook_status r))), w')
            \<and> (case d of None \<Rightarrow> True | Some x \<Rightarrow> seconds 1 \<le> x \<and> x \<le> seconds 86400)"
    by (intro exI [of _ "''Webhook returned HTTP '' @ int_str (hook_status r) @ ''.''"] exI [of _ "retry_after r"])
      (use n retry_after_bounds [of r] in \<open>auto simp: webhook_deliver_def Let_def bindE_def assms raise_def split: option.split\<close>)
qed (simp add: hook_headers_def)

definition busy_response :: hook_response where
  "busy_response = \<lparr>hook_status = 503, retry_after_header = Some ''120''\<rparr>"

definition demo_hook :: webhook where
  "demo_hook = \<lparr>hook_url = ''https://example.com/hook'', bearer_token = None, signing_secret = None\<rparr>"

theorem webhook_outcome_witness:
  "fst (webhook_deliver (\<lambda>url body hs. ret busy_response) (\<lambda>m. ''{}'') (\<lambda>k b. b) demo_hook (sample_message 1 0) ()) \<noteq> Inr ()"
proof -
  have "\<not> is_success busy_response" by (simp add: is_success_def busy_response_def)
  moreover have "(\<lambda>url body hs. ret busy_response) (hook_url demo_hook) ''{}'' (hook_headers (\<lambda>k b. b) demo_hook (sample_message 1 0) ''{}'') () = (Inr busy_response, ())"
    by (simp add: ret_def)
  ultimately show ?thesis
    using webhook_outcome [of "\<lambda>url body hs. ret busy_response" demo_hook "\<lambda>m. ''{}''" "sample_message 1 0" "\<lambda>k b. b" "()" busy_response "()"]
    by fastforce
qed

text \<open>Routing sends a message to the inner adapter exactly when some recipient is known, has notifications
  switched on and has an external identifier; what it sends differs from the message only in the list of
  these recipients, and any other message counts as delivered without a call.\<close>

theorem routing_respects_preferences:
  "(let subscribed = (\<lambda>k. \<exists>i ext. map_of ids k = Some i \<and> notifications_enabled (notification_prefs (identity_preferences i))
          \<and> external_recipient_id (notification_prefs (identity_preferences i)) = Some ext) in
      ((\<exists>k \<in> set (recipient_ids m). subscribed k) \<longrightarrow>
         (\<exists>rs. length rs = length (filter subscribed (recipient_ids m))
            \<and> routed inner m (ids, w) = (case inner (m\<lparr>message_payload := dict_set ''recipients'' (JList rs) (message_payload m)\<rparr>) w of
                (r, w') \<Rightarrow> (r, (ids, w')))))
      \<and> ((\<forall>k \<in> set (recipient_ids m). \<not> subscribed k) \<longrightarrow> routed inner m (ids, w) = (Inr (), (ids, w))))"
proof -
  define subscribed where "subscribed k \<longleftrightarrow> (\<exists>i ext. map_of ids k = Some i \<and> notifications_enabled (notification_prefs (identity_preferences i))
          \<and> external_recipient_id (notification_prefs (identity_preferences i)) = Some ext)" for k
  have len: "length (recipients_of ids ks) = length (filter subscribed ks)" for ks
    by (induction ks) (auto simp: subscribed_def recipient_entry_def Let_def split: option.split)
  have none: "recipients_of ids (recipient_ids m) = [] \<longleftrightarrow> (\<forall>k \<in> set (recipient_ids m). \<not> subscribed k)"
    using len [of "recipient_ids m"] by (metis filter_empty_conv length_0_conv)
  show ?thesis unfolding Let_def subscribed_def [symmetric]
  proof (intro conjI impI)
    assume "\<exists>k \<in> set (recipient_ids m). subscribed k"
    then have "recipients_of ids (recipient_ids m) \<noteq> []" using none by blast
    then show "\<exists>rs. length rs = length (filter subscribed (recipient_ids m))
            \<and> routed inner m (ids, w) = (case inner (m\<lparr>message_payload := dict_set ''recipients'' (JList rs) (message_payload m)\<rparr>) w of
                (r, w') \<Rightarrow> (r, (ids, w')))"
      by (intro exI [of _ "recipients_of ids (recipient_ids m)"]) (simp add: len routed_def with_recipients_def Let_def)
  next
    assume "\<forall>k \<in> set (recipient_ids m). \<not> subscribed k"
    then show "routed inner m (ids, w) = (Inr (), (ids, w))" using none by (simp add: routed_def)
  qed
qed

end
