(* ===== verification/EventCodec.thy ===== *)
theory EventCodec
  imports EventLog Engine
begin

text \<open>
  The stored form of mission events: upcasting of older versions (\<open>app/services/mission_event_upcaster.py\<close>),
  the serializer (\<open>app/services/mission_event_serializer.py\<close>) and the log in the JSON column
  (\<open>app/services/mission_event_store.py\<close>). A raw event is a JSON object. What pydantic makes of a JSON value
  of a field is a parameter, as is the name-based \<open>uuid5\<close>; \<open>uuid.UUID\<close> of the standard library is written out.
\<close>

section \<open>Parsing identifiers\<close>

text \<open>\<open>s.replace(p, "")\<close>.\<close>

fun remove_all :: "string \<Rightarrow> string \<Rightarrow> string" where
  "remove_all p [] = []"
| "remove_all p (c # s) =
     (if p \<noteq> [] \<and> take (length p) (c # s) = p then remove_all p (drop (length p - 1) s) else c # remove_all p s)"

definition hex_value :: "char \<Rightarrow> nat option" where
  "hex_value c = (let n = (of_char c :: nat) in
     if 48 \<le> n \<and> n \<le> 57 then Some (n - 48)
     else if 97 \<le> n \<and> n \<le> 102 then Some (n - 87)
     else if 65 \<le> n \<and> n \<le> 70 then Some (n - 55) else None)"

text \<open>The digits of \<open>int(s, 16)\<close>, with single underscores between them.\<close>

fun hex_rest :: "nat \<Rightarrow> string \<Rightarrow> nat option" where
  "hex_rest acc [] = Some acc"
| "hex_rest acc (c # s) =
     (if c = CHR ''_'' then
        (case s of [] \<Rightarrow> None
         | d # ds \<Rightarrow> (case hex_value d of None \<Rightarrow> None | Some v \<Rightarrow> hex_rest (acc * 16 + v) ds))
      else (case hex_value c of None \<Rightarrow> None | Some v \<Rightarrow> hex_rest (acc * 16 + v) s))"

fun hex_number :: "string \<Rightarrow> nat option" where
  "hex_number [] = None"
| "hex_number (c # s) = (case hex_value c of None \<Rightarrow> None | Some v \<Rightarrow> hex_rest v s)"

text \<open>After the sign: an optional \<open>0x\<close>, itself optionally followed by an underscore.\<close>

definition hex_prefixed :: "string \<Rightarrow> nat option" where
  "hex_prefixed s =
     (if take 2 s \<in> {''0x'', ''0X''}
      then (case drop 2 s of c # t \<Rightarrow> if c = CHR ''_'' then hex_number t else hex_number (c # t) | [] \<Rightarrow> None)
      else hex_number s)"

definition int16 :: "string \<Rightarrow> int option" where
  "int16 s =
     (case py_strip s of
        [] \<Rightarrow> None
      | c # t \<Rightarrow>
          if c = CHR ''-'' then map_option (\<lambda>n. - int n) (hex_prefixed t)
          else if c = CHR ''+'' then map_option int (hex_prefixed t)
          else map_option int (hex_prefixed (c # t)))"

definition is_brace :: "char \<Rightarrow> bool" where
  "is_brace c \<longleftrightarrow> c = CHR 0x7B \<or> c = CHR 0x7D"

definition uuid_of_text :: "string \<Rightarrow> uuid option" where
  "uuid_of_text s =
     (let h = filter (\<lambda>c. c \<noteq> CHR ''-'')
                (rev (dropWhile is_brace (rev (dropWhile is_brace (remove_all ''uuid:'' (remove_all ''urn:'' s)))))) in
      if length h \<noteq> 32 then None
      else (case int16 h of None \<Rightarrow> None | Some n \<Rightarrow> if 0 \<le> n \<and> n < 2 ^ 128 then Some (nat n) else None))"

text \<open>\<open>UUID(str(v))\<close>: the text of a time, a list or an object is never that of an identifier.\<close>

fun uuid_of_json :: "json \<Rightarrow> uuid option" where
  "uuid_of_json (JStr s) = uuid_of_text s"
| "uuid_of_json (JInt n) = uuid_of_text (int_str n)"
| "uuid_of_json _ = None"

section \<open>Upcasting\<close>

type_synonym raw_event = metadata

record event_context =
  context_mission :: "uuid option"
  context_index :: "int option"
  previous_event_id :: "uuid option"
  previous_correlation_id :: "uuid option"

definition no_context :: event_context where
  "no_context = \<lparr>context_mission = None, context_index = None, previous_event_id = None, previous_correlation_id = None\<rparr>"

definition current_event_version :: int where
  "current_event_version = 3"

definition derive_legacy_event_id :: "(string \<Rightarrow> uuid) \<Rightarrow> uuid \<Rightarrow> int \<Rightarrow> uuid" where
  "derive_legacy_event_id uuid5 k n = uuid5 (''mission-event:v1:'' @ uuid_str k @ '':'' @ int_str n)"

record upcaster =
  source_version :: int
  target_version :: int
  upcast :: "event_context \<Rightarrow> raw_event \<Rightarrow> exn + raw_event"

definition upcast_v0 :: "event_context \<Rightarrow> raw_event \<Rightarrow> exn + raw_event" where
  "upcast_v0 c raw = Inr (dict_set ''schema_version'' (JInt 1) raw)"

definition upcast_v1 :: "(string \<Rightarrow> uuid) \<Rightarrow> event_context \<Rightarrow> raw_event \<Rightarrow> exn + raw_event" where
  "upcast_v1 uuid5 c raw =
     (case context_mission c of
        None \<Rightarrow> Inl (ValueError ''mission_id is required to upcast a legacy Mission event'')
      | Some k \<Rightarrow>
          (case map_of raw ''sequence'' of
             Some (JInt n) \<Rightarrow>
               if n < 1 then Inl (ValueError ''Legacy Mission event sequence must be positive'')
               else let up = dict_set ''schema_version'' (JInt 2) raw in
                 Inr (if map_of up ''event_id'' = None
                      then dict_set ''event_id'' (JStr (uuid_str (derive_legacy_event_id uuid5 k n))) up else up)
           | _ \<Rightarrow> Inl (ValueError ''Legacy Mission event sequence must be positive'')))"

definition upcast_v2 :: "event_context \<Rightarrow> raw_event \<Rightarrow> exn + raw_event" where
  "upcast_v2 c raw =
     (case map_of raw ''event_id'' of
        None \<Rightarrow> Inl KeyError
      | Some v \<Rightarrow>
          (case uuid_of_json v of
             None \<Rightarrow> Inl (ValueError ''badly formed hexadecimal UUID string'')
           | Some event \<Rightarrow>
               let up = dict_set ''schema_version'' (JInt 3) raw;
                   up = (if map_of up ''correlation_id'' = None
                         then dict_set ''correlation_id'' (JStr (uuid_str (case previous_correlation_id c of Some p \<Rightarrow> p | None \<Rightarrow> event))) up
                         else up)
               in Inr (if map_of up ''causation_id'' = None
                       then dict_set ''causation_id'' (json_of_option (\<lambda>p. JStr (uuid_str p)) (previous_event_id c)) up
                       else up)))"

definition default_upcasters :: "(string \<Rightarrow> uuid) \<Rightarrow> upcaster list" where
  "default_upcasters uuid5 =
     [\<lparr>source_version = 0, target_version = 1, upcast = upcast_v0\<rparr>,
      \<lparr>source_version = 1, target_version = 2, upcast = upcast_v1 uuid5\<rparr>,
      \<lparr>source_version = 2, target_version = 3, upcast = upcast_v2\<rparr>]"

section \<open>Errors\<close>

datatype codec_error =
    SchemaVersionError
  | UnsupportedVersion int
  | MissingUpcaster int
  | InvalidUpcastResult
  | InvalidRegistry
  | SerializationError
  | DeserializationError
  | Unhandled exn

section \<open>The registry of upcasters\<close>

type_synonym upcaster_registry = "(int, upcaster) dict"

fun add_upcasters :: "int \<Rightarrow> upcaster list \<Rightarrow> upcaster_registry \<Rightarrow> codec_error + upcaster_registry" where
  "add_upcasters current [] r = Inr r"
| "add_upcasters current (u # us) r =
     (if source_version u < 0 \<or> target_version u \<noteq> source_version u + 1 \<or> target_version u > current then Inl InvalidRegistry
      else if map_of r (source_version u) \<noteq> None then Inl InvalidRegistry
      else add_upcasters current us (dict_set (source_version u) u r))"

definition build_upcaster_registry :: "upcaster list \<Rightarrow> int \<Rightarrow> codec_error + upcaster_registry" where
  "build_upcaster_registry us current =
     (if current < 0 then Inl InvalidRegistry
      else (case add_upcasters current us [] of
              Inl e \<Rightarrow> Inl e
            | Inr r \<Rightarrow> if fst ` set r \<noteq> {0 ..< current} then Inl InvalidRegistry else Inr r))"

record event_serializer =
  current_version :: int
  upcaster_registry :: upcaster_registry

definition make_serializer :: "int \<Rightarrow> upcaster list \<Rightarrow> codec_error + event_serializer" where
  "make_serializer current us =
     (case build_upcaster_registry us current of
        Inl e \<Rightarrow> Inl e
      | Inr r \<Rightarrow> Inr \<lparr>current_version = current, upcaster_registry = r\<rparr>)"

text \<open>Python's \<open>==\<close> of a JSON value with an integer.\<close>

fun json_is_int :: "json option \<Rightarrow> int \<Rightarrow> bool" where
  "json_is_int (Some (JInt m)) n = (m = n)"
| "json_is_int (Some (JBool b)) n = ((if b then 1 else 0) = n)"
| "json_is_int _ n = False"

definition extract_schema_version :: "raw_event \<Rightarrow> codec_error + int" where
  "extract_schema_version raw =
     (case map_of raw ''schema_version'' of
        None \<Rightarrow> Inr 0
      | Some (JInt n) \<Rightarrow> if n < 0 then Inl SchemaVersionError else Inr n
      | Some _ \<Rightarrow> Inl SchemaVersionError)"

text \<open>The loop of \<open>_upcast_to_current\<close>, with the number of versions left: every registered upcaster raises
  the version by one.\<close>

fun upcast_loop :: "event_serializer \<Rightarrow> event_context \<Rightarrow> nat \<Rightarrow> int \<Rightarrow> raw_event \<Rightarrow> codec_error + raw_event" where
  "upcast_loop s c 0 v raw = Inr raw"
| "upcast_loop s c (Suc n) v raw =
     (case map_of (upcaster_registry s) v of
        None \<Rightarrow> Inl (MissingUpcaster v)
      | Some u \<Rightarrow>
          (case upcast u c raw of
             Inl e \<Rightarrow> Inl (Unhandled e)
           | Inr raw' \<Rightarrow>
               if \<not> json_is_int (map_of raw' ''schema_version'') (target_version u) then Inl InvalidUpcastResult
               else upcast_loop s c n (target_version u) raw'))"

definition upcast_to_current :: "event_serializer \<Rightarrow> event_context \<Rightarrow> raw_event \<Rightarrow> codec_error + raw_event" where
  "upcast_to_current s c raw =
     (case extract_schema_version raw of
        Inl e \<Rightarrow> Inl e
      | Inr v \<Rightarrow>
          if v > current_version s then Inl (UnsupportedVersion v)
          else (case upcast_loop s c (nat (current_version s - v)) v raw of
                  Inl e \<Rightarrow> Inl e
                | Inr raw' \<Rightarrow>
                    if \<not> json_is_int (map_of raw' ''schema_version'') (current_version s) then Inl InvalidUpcastResult
                    else Inr raw'))"

section \<open>Reading models\<close>

text \<open>What pydantic makes of a JSON value for a field of type \<open>UUID\<close>, \<open>datetime\<close>, \<open>int\<close> and \<open>str\<close>;
  \<open>None\<close> is a validation error.\<close>

record coercions =
  read_uuid :: "json \<Rightarrow> uuid option"
  read_time :: "json \<Rightarrow> datetime option"
  read_int :: "json \<Rightarrow> int option"
  read_text :: "json \<Rightarrow> string option"

text \<open>A required field, an optional field with a default, and a field that may be null.\<close>

definition required :: "(json \<Rightarrow> 'a option) \<Rightarrow> metadata \<Rightarrow> string \<Rightarrow> 'a option" where
  "required f d k = (case map_of d k of None \<Rightarrow> None | Some v \<Rightarrow> f v)"

definition defaulted :: "'a \<Rightarrow> (json \<Rightarrow> 'a option) \<Rightarrow> metadata \<Rightarrow> string \<Rightarrow> 'a option" where
  "defaulted x f d k = (case map_of d k of None \<Rightarrow> Some x | Some v \<Rightarrow> f v)"

fun nullable :: "(json \<Rightarrow> 'a option) \<Rightarrow> json \<Rightarrow> 'a option option" where
  "nullable f JNull = Some None"
| "nullable f v = map_option Some (f v)"

fun read_object :: "json \<Rightarrow> metadata option" where
  "read_object (JObj d) = Some d"
| "read_object _ = None"

fun read_all :: "(json \<Rightarrow> 'a option) \<Rightarrow> json list \<Rightarrow> 'a list option" where
  "read_all f [] = Some []"
| "read_all f (v # vs) =
     (case (f v, read_all f vs) of (Some x, Some xs) \<Rightarrow> Some (x # xs) | _ \<Rightarrow> None)"

fun read_list :: "(json \<Rightarrow> 'a option) \<Rightarrow> json \<Rightarrow> 'a list option" where
  "read_list f (JList vs) = read_all f vs"
| "read_list f _ = None"

text \<open>An enumeration is read by its value.\<close>

definition read_enum :: "coercions \<Rightarrow> ('a \<Rightarrow> string) \<Rightarrow> 'a list \<Rightarrow> json \<Rightarrow> 'a option" where
  "read_enum py value members v = (case read_text py v of None \<Rightarrow> None | Some s \<Rightarrow> find (\<lambda>x. value x = s) members)"

definition read_mission_type :: "coercions \<Rightarrow> json \<Rightarrow> mission_type option" where
  "read_mission_type py = read_enum py mission_type_value [TrainTicket]"

definition read_mode :: "coercions \<Rightarrow> json \<Rightarrow> selection_mode option" where
  "read_mode py = read_enum py selection_mode_value [Explicit, Automatic]"

definition read_reason :: "coercions \<Rightarrow> json \<Rightarrow> failure_reason option" where
  "read_reason py = read_enum py failure_reason_value
     [UnknownProvider, UnsupportedMissionType, UnsupportedExecutionMode, NoSupportingProvider, AmbiguousProvider]"

section \<open>Provider payloads\<close>

definition read_snapshot :: "coercions \<Rightarrow> json \<Rightarrow> snapshot option" where
  "read_snapshot py v =
     (case read_object v of
        None \<Rightarrow> None
      | Some d \<Rightarrow>
          (case (required (read_mode py) d ''selection_mode'', required (nullable (read_text py)) d ''requested_provider_id'',
                 required (read_text py) d ''resolved_provider_id'', required (read_list (read_text py)) d ''candidate_provider_ids'',
                 required (read_mission_type py) d ''mission_type'') of
             (Some mode, Some requested, Some resolved, Some candidates, Some mt) \<Rightarrow>
               (case make_snapshot mode requested resolved candidates mt of Inl e \<Rightarrow> None | Inr s \<Rightarrow> Some s)
           | _ \<Rightarrow> None))"

definition read_resolved :: "coercions \<Rightarrow> metadata \<Rightarrow> exn + resolved_payload" where
  "read_resolved py d =
     (case (required (read_text py) d ''provider_id'', required (read_mission_type py) d ''mission_type'',
            required (read_mode py) d ''selection_mode'', defaulted None (nullable (read_snapshot py)) d ''snapshot'') of
        (Some pid, Some mt, Some mode, Some snap) \<Rightarrow> make_resolved_payload pid mt mode snap
      | _ \<Rightarrow> Inl ValidationError)"

definition read_failed :: "coercions \<Rightarrow> metadata \<Rightarrow> exn + failed_payload" where
  "read_failed py d =
     (case (required (read_reason py) d ''reason'', required (read_mission_type py) d ''mission_type'',
            defaulted None (nullable (read_text py)) d ''requested_provider_id'',
            defaulted [] (read_list (read_text py)) d ''candidate_provider_ids'') of
        (Some reason, Some mt, Some requested, Some candidates) \<Rightarrow> make_failed_payload reason mt requested candidates
      | _ \<Rightarrow> Inl ValidationError)"

definition read_selection :: "coercions \<Rightarrow> metadata \<Rightarrow> exn + selection_payload" where
  "read_selection py d =
     (case (required (nullable (read_text py)) d ''previous_provider_id'', required (nullable (read_text py)) d ''new_provider_id'',
            required (read_mode py) d ''previous_selection_mode'', required (read_mode py) d ''new_selection_mode'') of
        (Some previous, Some new, Some pmode, Some nmode) \<Rightarrow> make_selection_payload previous new pmode nmode
      | _ \<Rightarrow> Inl ValidationError)"

definition generic_event_types :: "string list" where
  "generic_event_types =
     [''best_option_selected'', ''automatic_confirmation_failed'', ''automatic_confirmation_started'',
      ''automatic_confirmation_succeeded'', ''claim_recovered'', ''cancellation_failed'', ''cancellation_started'',
      ''cancellation_succeeded'', ''confirmation_failed'', ''confirmation_started'', ''confirmation_succeeded'',
      ''mission.completed'', ''mission.created'', ''mission_completed'', ''mission_cancelled'', ''mission_confirmed'',
      ''mission_created'', ''mission_expired'', ''mission_failed'', ''mission_paused'', ''mission_processing_failed'',
      ''mission_resumed'', ''mission_retry_scheduled'', ''mission_scheduled'', ''mission_search_completed'',
      ''mission_unscheduled'', ''mission_started'', ''mission_updated'', ''no_valid_option_found'', ''options_found'',
      ''participant_missing'', ''provider_operation_failed'', ''reservation_failed'', ''reservation_started'',
      ''reservation_succeeded'', ''search_started'', ''waiting_for_user_confirmation'']"

definition with_serialized_payload :: "coercions \<Rightarrow> execution_event \<Rightarrow> exn + execution_event" where
  "with_serialized_payload py e =
     (if event_type e = ''provider_resolved'' then
        map_sum id (\<lambda>p. e\<lparr>event_metadata := dump_resolved p\<rparr>) (read_resolved py (event_metadata e))
      else if event_type e = ''provider_resolution_failed'' then
        map_sum id (\<lambda>p. e\<lparr>event_metadata := dump_failed p\<rparr>) (read_failed py (event_metadata e))
      else if event_type e = ''provider_selection_changed'' then
        map_sum id (\<lambda>p. e\<lparr>event_metadata := dump_selection p\<rparr>) (read_selection py (event_metadata e))
      else if event_type e \<notin> set generic_event_types then Inl (ValueError ''Unknown Mission event type'')
      else Inr e)"

section \<open>Serializer\<close>

definition dump_event :: "execution_event \<Rightarrow> raw_event" where
  "dump_event e =
     [(''event_id'', JStr (uuid_str (event_id e))), (''correlation_id'', JStr (uuid_str (correlation_id e))),
      (''causation_id'', json_of_option (\<lambda>c. JStr (uuid_str c)) (causation_id e)), (''sequence'', JInt (event_sequence e)),
      (''timestamp'', JTime (event_timestamp e)), (''type'', JStr (event_type e)), (''message'', JStr (event_message e)),
      (''metadata'', JObj (event_metadata e))]"

definition validate_event_id :: "uuid \<Rightarrow> exn + unit" where
  "validate_event_id i = (if i = 0 then Inl (ValueError ''Mission event ID must not be nil'') else Inr ())"

fun codec_failure :: "codec_error \<Rightarrow> exn \<Rightarrow> codec_error" where
  "codec_failure wrapped (ValueError msg) = wrapped"
| "codec_failure wrapped ValidationError = wrapped"
| "codec_failure wrapped TypeError = wrapped"
| "codec_failure wrapped e = Unhandled e"

definition serialize_event :: "coercions \<Rightarrow> event_serializer \<Rightarrow> execution_event \<Rightarrow> codec_error + raw_event" where
  "serialize_event py s e =
     (case with_serialized_payload py e of
        Inl x \<Rightarrow> Inl (codec_failure SerializationError x)
      | Inr e' \<Rightarrow>
          (case validate_event_id (event_id e) of
             Inl x \<Rightarrow> Inl (codec_failure SerializationError x)
           | Inr _ \<Rightarrow> Inr (dict_set ''schema_version'' (JInt (current_version s)) (dump_event e'))))"

text \<open>\<open>ExecutionEvent.model_validate\<close>, with the identifiers its default factories would draw.\<close>

definition read_event :: "coercions \<Rightarrow> uuid \<times> uuid \<Rightarrow> raw_event \<Rightarrow> exn + execution_event" where
  "read_event py drawn d =
     (case (defaulted (fst drawn) (read_uuid py) d ''event_id'', defaulted (snd drawn) (read_uuid py) d ''correlation_id'',
            defaulted None (nullable (read_uuid py)) d ''causation_id'', required (read_int py) d ''sequence'',
            required (read_time py) d ''timestamp'', required (read_text py) d ''type'', required (read_text py) d ''message'',
            defaulted [] read_object d ''metadata'') of
        (Some i, Some c, Some cause, Some n, Some t, Some ty, Some msg, Some meta) \<Rightarrow>
          if n < 1 then Inl ValidationError
          else Inr \<lparr>event_id = i, correlation_id = c, causation_id = cause, event_sequence = n, event_timestamp = t,
                 event_type = ty, event_message = msg, event_metadata = meta\<rparr>
      | _ \<Rightarrow> Inl ValidationError)"

definition deserialize_event ::
  "coercions \<Rightarrow> event_serializer \<Rightarrow> uuid \<times> uuid \<Rightarrow> event_context \<Rightarrow> raw_event \<Rightarrow> codec_error + execution_event" where
  "deserialize_event py s drawn c raw =
     (case upcast_to_current s c raw of
        Inl (Unhandled x) \<Rightarrow> Inl (codec_failure DeserializationError x)
      | Inl e \<Rightarrow> Inl e
      | Inr current \<Rightarrow>
          (case read_event py drawn current of
             Inl x \<Rightarrow> Inl (codec_failure DeserializationError x)
           | Inr e \<Rightarrow>
               (case validate_event_id (event_id e) of
                  Inl x \<Rightarrow> Inl (codec_failure DeserializationError x)
                | Inr _ \<Rightarrow> map_sum (codec_failure DeserializationError) id (with_serialized_payload py e))))"

section \<open>The stored log\<close>

definition context_after :: "uuid option \<Rightarrow> execution_event list \<Rightarrow> event_context" where
  "context_after k es =
     \<lparr>context_mission = k, context_index = Some (int (length es)),
      previous_event_id = (if es = [] then None else Some (event_id (last es))),
      previous_correlation_id = (if es = [] then None else Some (correlation_id (last es)))\<rparr>"

fun restore_events ::
  "coercions \<Rightarrow> event_serializer \<Rightarrow> (nat \<Rightarrow> uuid \<times> uuid) \<Rightarrow> uuid option \<Rightarrow> execution_event list \<Rightarrow> raw_event list
     \<Rightarrow> codec_error + execution_event list" where
  "restore_events py s drawn k done_events [] = Inr done_events"
| "restore_events py s drawn k done_events (raw # raws) =
     (case deserialize_event py s (drawn (length done_events)) (context_after k done_events) raw of
        Inl e \<Rightarrow> Inl e
      | Inr e \<Rightarrow> restore_events py s drawn k (done_events @ [e]) raws)"

definition deserialize_log ::
  "coercions \<Rightarrow> event_serializer \<Rightarrow> (nat \<Rightarrow> uuid \<times> uuid) \<Rightarrow> uuid option \<Rightarrow> raw_event list \<Rightarrow> int \<Rightarrow> codec_error + execution_event list" where
  "deserialize_log py s drawn k raws last_seq =
     (case restore_events py s drawn k [] raws of
        Inl e \<Rightarrow> Inl e
      | Inr es \<Rightarrow> (case validate_event_sequence es last_seq of Inl x \<Rightarrow> Inl (Unhandled x) | Inr _ \<Rightarrow> Inr es))"

fun serialize_log :: "coercions \<Rightarrow> event_serializer \<Rightarrow> execution_event list \<Rightarrow> codec_error + raw_event list" where
  "serialize_log py s [] = Inr []"
| "serialize_log py s (e # es) =
     (case serialize_event py s e of
        Inl x \<Rightarrow> Inl x
      | Inr raw \<Rightarrow> map_sum id (\<lambda>raws. raw # raws) (serialize_log py s es))"

definition logged_after :: "execution_event list \<Rightarrow> int \<Rightarrow> execution_event list" where
  "logged_after es n = filter (\<lambda>e. n < event_sequence e) es"

definition indexed_after :: "execution_event list \<Rightarrow> int \<Rightarrow> (nat \<times> execution_event) list" where
  "indexed_after es n = filter (\<lambda>(i, e). n < event_sequence e) (enumerate 0 es)"

end
