(* ===== verification/EventCodecContracts.thy ===== *)
theory EventCodecContracts
  imports EventCodec
begin

text \<open>
  What the stored form of events promises: identifiers and payloads read back, a stored log gives back the
  log, a log of the oldest version becomes one causal chain, the registry holds exactly a chain of
  upcasters, and a version the program does not know is refused.
\<close>

section \<open>Identifiers\<close>

lemma of_hex_digit: "(of_char (hex_digit n) :: nat) = (if n mod 16 < 10 then 48 + n mod 16 else 87 + n mod 16)"
proof -
  have "list_all (\<lambda>k. (of_char (''0123456789abcdef'' ! k) :: nat) = (if k < 10 then 48 + k else 87 + k)) [0..<16]"
    by (simp add: upt_conv_Cons)
  then have table: "\<forall>k \<in> {0..<16}. (of_char (''0123456789abcdef'' ! k) :: nat) = (if k < 10 then 48 + k else 87 + k)"
    by (simp only: list_all_iff set_upt)
  have "n mod 16 \<in> {0..<16}" by simp
  from bspec [OF table this] show ?thesis by (simp add: hex_digit_def)
qed

lemma hex_value_digit [simp]: "hex_value (hex_digit n) = Some (n mod 16)"
proof -
  have "n mod 16 < 16" by simp
  then show ?thesis unfolding hex_value_def of_hex_digit Let_def by (auto simp del: mod_less_divisor)
qed

definition hexadecimal :: "char \<Rightarrow> bool" where
  "hexadecimal c \<longleftrightarrow> (let n = (of_char c :: nat) in (48 \<le> n \<and> n \<le> 57) \<or> (97 \<le> n \<and> n \<le> 102))"

lemma hexadecimal_digit [simp]: "hexadecimal (hex_digit n)"
proof -
  obtain k where "n mod 16 = k" "k < 16" by simp
  then show ?thesis by (auto simp: hexadecimal_def of_hex_digit)
qed

lemma hexadecimal_not:
  "hexadecimal c \<Longrightarrow> c \<notin> {CHR ''u'', CHR ''x'', CHR ''X'', CHR ''-'', CHR ''+'', CHR ''_'', CHR 0x7B, CHR 0x7D}"
  "hexadecimal c \<Longrightarrow> \<not> is_space c"
  by (auto simp: hexadecimal_def is_space_def Let_def)

lemma hex_digits_hexadecimal: "list_all hexadecimal (hex_digits d n)"
  by (induction d n rule: hex_digits.induct) simp_all

lemma hex_rest_fold:
  "list_all hexadecimal s \<Longrightarrow> hex_rest acc s = Some (foldl (\<lambda>a c. a * 16 + the (hex_value c)) acc s)"
proof (induction s arbitrary: acc)
  case (Cons c s)
  then have "c \<noteq> CHR ''_''" using hexadecimal_not(1) [of c] by simp
  moreover have "hex_value c \<noteq> None" using Cons.prems by (auto simp: hexadecimal_def hex_value_def Let_def)
  ultimately show ?case using Cons by auto
qed simp

lemma hex_rest_digits: "hex_rest acc (hex_digits d n) = Some (acc * 16 ^ d + n mod 16 ^ d)"
proof -
  have "foldl (\<lambda>a c. a * 16 + the (hex_value c)) acc (hex_digits d n) = acc * 16 ^ d + n mod 16 ^ d"
  proof (induction d arbitrary: n)
    case (Suc d)
    have m: "n mod 16 ^ Suc d = 16 * (n div 16 mod 16 ^ d) + n mod 16"
      unfolding power_Suc by (rule mod_mult2_eq)
    show ?case unfolding m by (simp add: Suc.IH)
  qed simp
  then show ?thesis by (simp add: hex_rest_fold hex_digits_hexadecimal)
qed

lemma hex_number_digits:
  assumes "0 < d"
  shows "hex_number (hex_digits d n) = Some (n mod 16 ^ d)"
proof -
  obtain c s where cs: "hex_digits d n = c # s" using assms by (cases "hex_digits d n") (auto dest: arg_cong [where f = length])
  have "hexadecimal c" using hex_digits_hexadecimal [of d n] by (simp add: cs)
  then have c: "c \<noteq> CHR ''_''" using hexadecimal_not(1) [of c] by simp
  have "hex_number (c # s) = hex_rest 0 (c # s)" using c by (simp split: option.split)
  then show ?thesis using hex_rest_digits [of 0 d n] cs by simp
qed

lemma remove_all_absent: "c \<notin> set s \<Longrightarrow> remove_all (c # p) s = s"
proof (induction s)
  case (Cons x s)
  then have "x \<noteq> c" "c \<notin> set s" by auto
  then show ?case using Cons.IH by simp
qed simp

lemma uuid_str_chars: "c \<in> set (uuid_str u) \<Longrightarrow> hexadecimal c \<or> c = CHR ''-''"
  using hex_digits_hexadecimal [of 32 u]
  by (auto simp: uuid_str_def Let_def list_all_iff dest!: in_set_takeD in_set_dropD)

lemma filter_id_if: "list_all P xs \<Longrightarrow> filter P xs = xs"
  by (induction xs) simp_all

lemma uuid_str_digits: "filter (\<lambda>c. c \<noteq> CHR ''-'') (uuid_str u) = hex_digits 32 u"
proof -
  define h where "h = hex_digits 32 u"
  have l: "length h = 32" by (simp add: h_def)
  have split: "h = take 8 h @ take 4 (drop 8 h) @ take 4 (drop 12 h) @ take 4 (drop 16 h) @ drop 20 h"
    using append_take_drop_id [of 8 h] append_take_drop_id [of 4 "drop 8 h"] append_take_drop_id [of 4 "drop 12 h"]
      append_take_drop_id [of 4 "drop 16 h"] by simp
  have P: "list_all (\<lambda>c. c \<noteq> CHR ''-'') h"
    using hex_digits_hexadecimal [of 32 u] hexadecimal_not(1) unfolding h_def list_all_iff by fastforce
  then have "list_all (\<lambda>c. c \<noteq> CHR ''-'') (take n (drop m h))" "list_all (\<lambda>c. c \<noteq> CHR ''-'') (drop m h)" for n m
    by (auto simp: list_all_iff dest!: in_set_takeD in_set_dropD)
  then have "filter (\<lambda>c. c \<noteq> CHR ''-'') (take n (drop m h)) = take n (drop m h)" "filter (\<lambda>c. c \<noteq> CHR ''-'') (drop m h) = drop m h" for n m
    by (simp_all only: filter_id_if)
  from this(1) [of 8 0] this(1) [of 4 8] this(1) [of 4 12] this(1) [of 4 16] this(2) [of 20]
  show ?thesis by (subst h_def [symmetric], subst split) (simp add: uuid_str_def Let_def flip: h_def)
qed

text \<open>The text of an identifier is read back.\<close>

lemma uuid_of_text_str:
  assumes "u < 2 ^ 128"
  shows "uuid_of_text (uuid_str u) = Some u"
proof -
  let ?h = "hex_digits 32 u"
  have nou: "CHR ''u'' \<notin> set (uuid_str u)" using uuid_str_chars hexadecimal_not(1) by fastforce
  have nob: "\<not> is_brace c" if "c \<in> set (uuid_str u)" for c
    using uuid_str_chars [OF that] hexadecimal_not(1) [of c] by (auto simp: is_brace_def)
  have strip: "rev (dropWhile is_brace (rev (dropWhile is_brace (uuid_str u)))) = uuid_str u"
  proof -
    have "dropWhile is_brace xs = xs" if "\<forall>c \<in> set xs. \<not> is_brace c" for xs using that by (cases xs) simp_all
    from this [of "uuid_str u"] this [of "rev (uuid_str u)"] nob show ?thesis by simp
  qed
  obtain c t where ct: "?h = c # t" by (cases ?h) (auto dest: arg_cong [where f = length])
  have hexes: "\<forall>x \<in> set ?h. hexadecimal x" using hex_digits_hexadecimal [of 32 u] by (simp add: list_all_iff)
  then have c: "hexadecimal c" by (simp add: ct)
  have "last ?h \<in> set ?h" unfolding ct by simp
  then have "\<not> is_space (hd ?h) \<and> \<not> is_space (last ?h)" using hexes hexadecimal_not(2) c by (simp add: ct)
  then have ps: "py_strip ?h = c # t" using strip_id [of ?h] by (simp add: ct)
  have noprefix: "take 2 ?h \<notin> {''0x'', ''0X''}"
  proof
    assume "take 2 ?h \<in> {''0x'', ''0X''}"
    then have "CHR ''x'' \<in> set (take 2 ?h) \<or> CHR ''X'' \<in> set (take 2 ?h)" by auto
    then show False using hexes hexadecimal_not(1) by (fastforce dest!: in_set_takeD)
  qed
  have "hex_prefixed ?h = Some (u mod 16 ^ 32)"
    unfolding hex_prefixed_def if_not_P [OF noprefix] by (rule hex_number_digits) simp
  then have "hex_prefixed (c # t) = Some (u mod 16 ^ 32)" unfolding ct .
  then have "int16 ?h = Some (int u)"
    using c hexadecimal_not(1) [of c] ps assms by (simp add: int16_def)
  then show ?thesis
    using assms remove_all_absent [OF nou] by (simp add: uuid_of_text_def strip uuid_str_digits nat_less_iff)
qed

section \<open>Payloads\<close>

text \<open>The coercions on the values the program writes itself.\<close>

definition canonical :: "coercions \<Rightarrow> bool" where
  "canonical py \<longleftrightarrow> (\<forall>u. u < 2 ^ 128 \<longrightarrow> read_uuid py (JStr (uuid_str u)) = Some u)
     \<and> (\<forall>t. read_time py (JTime t) = Some t) \<and> (\<forall>n. read_int py (JInt n) = Some n) \<and> (\<forall>s. read_text py (JStr s) = Some s)"

definition plain_coercions :: coercions where
  "plain_coercions = \<lparr>read_uuid = uuid_of_json, read_time = (\<lambda>v. case v of JTime t \<Rightarrow> Some t | _ \<Rightarrow> None),
     read_int = (\<lambda>v. case v of JInt n \<Rightarrow> Some n | _ \<Rightarrow> None), read_text = (\<lambda>v. case v of JStr s \<Rightarrow> Some s | _ \<Rightarrow> None)\<rparr>"

lemma plain_canonical: "canonical plain_coercions"
  using uuid_of_text_str by (simp add: canonical_def plain_coercions_def)

lemma read_text_str [simp]: "canonical py \<Longrightarrow> read_text py (JStr s) = Some s"
  by (simp add: canonical_def)

lemma read_mission_type_value [simp]: "canonical py \<Longrightarrow> read_mission_type py (JStr (mission_type_value mt)) = Some mt"
  by (cases mt) (simp add: read_mission_type_def read_enum_def)

lemma read_mode_value [simp]: "canonical py \<Longrightarrow> read_mode py (JStr (selection_mode_value mode)) = Some mode"
  by (cases mode) (simp_all add: read_mode_def read_enum_def)

lemma read_reason_value [simp]: "canonical py \<Longrightarrow> read_reason py (JStr (failure_reason_value reason)) = Some reason"
  by (cases reason) (simp_all add: read_reason_def read_enum_def)

lemma nullable_Some: "nullable f v = Some (Some x) \<Longrightarrow> f v = Some x"
  by (cases v) auto

lemma nullable_option [simp]:
  "(\<And>x. f (g x) = Some x) \<Longrightarrow> (\<And>x. g x \<noteq> JNull) \<Longrightarrow> nullable f (json_of_option g x) = Some x"
  by (cases x; cases "g (the x)") (auto dest: sym)

lemma read_all_map [simp]: "(\<And>x. f (g x) = Some x) \<Longrightarrow> read_all f (map g xs) = Some xs"
  by (induction xs) simp_all

text \<open>A payload that was made once is made again from its fields.\<close>

lemma normalized_again:
  "normalize_provider_id v = Inr w \<Longrightarrow> normalize_provider_id w = Inr w"
  by (auto simp: normalize_provider_id_def split: option.splits if_splits)

lemma candidates_again: "normalize_candidates ids = Inr cs \<Longrightarrow> normalize_candidates cs = Inr cs"
  by (auto simp: normalize_candidates_def comp_def split: if_splits)

lemma snapshot_again:
  assumes "make_snapshot mode req res cands mt = Inr s"
  shows "make_snapshot (snapshot_mode s) (snapshot_requested s) (snapshot_resolved s) (snapshot_candidates s) (snapshot_mission_type s) = Inr s"
proof -
  obtain r p cs where n: "normalize_provider_id req = Inr r" "normalize_provider_id (Some res) = Inr (Some p)" "normalize_candidates cands = Inr cs"
      and s: "s = \<lparr>snapshot_mode = mode, snapshot_requested = r, snapshot_resolved = p, snapshot_candidates = cs, snapshot_mission_type = mt\<rparr>"
      and ok: "cs \<noteq> []" "p \<in> set cs" "mode = Automatic \<longrightarrow> r = None" "mode \<noteq> Automatic \<longrightarrow> r = Some p"
    using assms by (auto simp: make_snapshot_def split: sum.splits option.splits if_splits)
  show ?thesis
    unfolding s using ok normalized_again [OF n(1)] normalized_again [OF n(2)] candidates_again [OF n(3)]
    by (auto simp: make_snapshot_def)
qed

lemma resolved_again:
  assumes "make_resolved_payload pid mt mode snap = Inr p"
  shows "make_resolved_payload (resolved_payload_provider p) (resolved_payload_type p) (resolved_payload_mode p) (resolved_payload_snapshot p) = Inr p"
    and "resolved_payload_snapshot p = snap"
proof -
  obtain n where n: "normalize_provider_id (Some pid) = Inr (Some n)"
      and p: "p = \<lparr>resolved_payload_provider = n, resolved_payload_type = mt, resolved_payload_mode = mode, resolved_payload_snapshot = snap\<rparr>"
      and ok: "case snap of None \<Rightarrow> True | Some s \<Rightarrow> n = snapshot_resolved s \<and> mt = snapshot_mission_type s \<and> mode = snapshot_mode s"
    using assms by (auto simp: make_resolved_payload_def split: sum.splits option.splits if_splits)
  show "make_resolved_payload (resolved_payload_provider p) (resolved_payload_type p) (resolved_payload_mode p) (resolved_payload_snapshot p) = Inr p"
    unfolding p using ok normalized_again [OF n] by (cases snap) (simp_all add: make_resolved_payload_def)
  show "resolved_payload_snapshot p = snap" by (simp add: p)
qed

lemma failed_again:
  assumes "make_failed_payload reason mt req cands = Inr p"
  shows "make_failed_payload (failed_reason p) (failed_mission_type p) (failed_requested p) (failed_candidates p) = Inr p"
proof -
  obtain r cs where n: "normalize_provider_id req = Inr r" "normalize_candidates cands = Inr cs" and ok: "reason_fields_ok reason r cs"
      and p: "p = \<lparr>failed_reason = reason, failed_mission_type = mt, failed_requested = r, failed_candidates = cs\<rparr>"
    using assms by (auto simp: make_failed_payload_def split: sum.splits if_splits)
  show ?thesis unfolding p using ok normalized_again [OF n(1)] candidates_again [OF n(2)] by (simp add: make_failed_payload_def)
qed

lemma selection_again:
  assumes "make_selection_payload a b x y = Inr p"
  shows "make_selection_payload (previous_provider_id p) (new_provider_id p) (previous_selection_mode p) (new_selection_mode p) = Inr p"
proof -
  obtain v w where n: "normalize_provider_id a = Inr v" "normalize_provider_id b = Inr w"
      and ok: "v \<noteq> w" "x = selection_mode_for v" "y = selection_mode_for w"
      and p: "p = \<lparr>previous_provider_id = v, new_provider_id = w, previous_selection_mode = x, new_selection_mode = y\<rparr>"
    using assms by (auto simp: make_selection_payload_def split: sum.splits if_splits)
  show ?thesis unfolding p using ok normalized_again [OF n(1)] normalized_again [OF n(2)] by (simp add: make_selection_payload_def)
qed

lemma read_snapshot_dump:
  assumes "canonical py" and "read_snapshot py v = Some s"
  shows "read_snapshot py (dump_snapshot s) = Some s"
proof -
  obtain mode req res cands mt where "make_snapshot mode req res cands mt = Inr s"
    using assms(2) by (auto simp: read_snapshot_def split: option.splits sum.splits)
  from snapshot_again [OF this] show ?thesis
    using assms(1) by (simp add: read_snapshot_def dump_snapshot_def required_def)
qed

lemma read_resolved_dump:
  assumes "canonical py" and "read_resolved py d = Inr p"
  shows "read_resolved py (dump_resolved p) = Inr p"
proof -
  obtain pid mt mode snap where made: "make_resolved_payload pid mt mode snap = Inr p"
      and snap: "defaulted None (nullable (read_snapshot py)) d ''snapshot'' = Some snap"
    using assms(2) by (auto simp: read_resolved_def split: option.splits)
  have "nullable (read_snapshot py) (json_of_option dump_snapshot snap) = Some snap"
  proof (cases snap)
    case (Some s)
    then obtain v where "read_snapshot py v = Some s"
      using snap nullable_Some [of "read_snapshot py" _ s] by (auto simp: defaulted_def split: option.splits)
    from read_snapshot_dump [OF assms(1) this] show ?thesis using Some by (simp add: dump_snapshot_def)
  qed simp
  then show ?thesis using resolved_again [OF made] assms(1)
    by (simp add: read_resolved_def dump_resolved_def required_def defaulted_def)
qed

lemma read_failed_dump:
  assumes "canonical py" and "read_failed py d = Inr p"
  shows "read_failed py (dump_failed p) = Inr p"
proof -
  obtain reason mt req cands where "make_failed_payload reason mt req cands = Inr p"
    using assms(2) by (auto simp: read_failed_def split: option.splits)
  from failed_again [OF this] show ?thesis
    using assms(1) by (simp add: read_failed_def dump_failed_def required_def defaulted_def)
qed

lemma read_selection_dump:
  assumes "canonical py" and "read_selection py d = Inr p"
  shows "read_selection py (dump_selection p) = Inr p"
proof -
  obtain a b x y where "make_selection_payload a b x y = Inr p"
    using assms(2) by (auto simp: read_selection_def split: option.splits)
  from selection_again [OF this] show ?thesis
    using assms(1) by (simp add: read_selection_def dump_selection_def required_def)
qed

lemma map_sum_Inr: "map_sum id f r = Inr y \<longleftrightarrow> (\<exists>x. r = Inr x \<and> y = f x)"
  by (cases r) auto

lemma payload_cases:
  assumes "with_serialized_payload py e = Inr e'"
  obtains p where "event_type e = ''provider_resolved''" and "read_resolved py (event_metadata e) = Inr p" and "e' = e\<lparr>event_metadata := dump_resolved p\<rparr>"
    | p where "event_type e = ''provider_resolution_failed''" and "read_failed py (event_metadata e) = Inr p" and "e' = e\<lparr>event_metadata := dump_failed p\<rparr>"
    | p where "event_type e = ''provider_selection_changed''" and "read_selection py (event_metadata e) = Inr p" and "e' = e\<lparr>event_metadata := dump_selection p\<rparr>"
    | "event_type e \<in> set generic_event_types" and "e' = e"
proof (cases "event_type e = ''provider_resolved''")
  case True
  then show ?thesis using assms that(1) by (auto simp: with_serialized_payload_def map_sum_Inr)
next
  case resolved: False
  show ?thesis
  proof (cases "event_type e = ''provider_resolution_failed''")
    case True
    then show ?thesis using assms that(2) by (auto simp: with_serialized_payload_def map_sum_Inr)
  next
    case failed: False
    show ?thesis
    proof (cases "event_type e = ''provider_selection_changed''")
      case True
      then show ?thesis using assms that(3) by (auto simp: with_serialized_payload_def map_sum_Inr)
    next
      case False
      then show ?thesis using assms that(4) resolved failed by (simp add: with_serialized_payload_def split: if_splits)
    qed
  qed
qed

lemma generic_not_provider:
  "t \<in> set generic_event_types \<Longrightarrow> t \<noteq> ''provider_resolved'' \<and> t \<noteq> ''provider_resolution_failed'' \<and> t \<noteq> ''provider_selection_changed''"
  by (auto simp: generic_event_types_def)

lemma payload_generic: "event_type e \<in> set generic_event_types \<Longrightarrow> with_serialized_payload py e = Inr e"
  using generic_not_provider [of "event_type e"] by (simp add: with_serialized_payload_def)

lemma payload_again:
  assumes "canonical py" and "with_serialized_payload py e = Inr e'"
  shows "with_serialized_payload py e' = Inr e'"
  using assms(2)
proof (cases rule: payload_cases)
  case (1 p)
  then show ?thesis using read_resolved_dump [OF assms(1) 1(2)] by (simp add: with_serialized_payload_def)
next
  case (2 p)
  then show ?thesis using read_failed_dump [OF assms(1) 2(2)] by (simp add: with_serialized_payload_def)
next
  case (3 p)
  then show ?thesis using read_selection_dump [OF assms(1) 3(2)] by (simp add: with_serialized_payload_def)
next
  case 4
  then show ?thesis using payload_generic by simp
qed

lemma payload_frame:
  assumes "with_serialized_payload py e = Inr e'"
  shows "\<exists>meta. e' = e\<lparr>event_metadata := meta\<rparr>"
  using assms by (cases rule: payload_cases) (auto intro: exI [of _ "event_metadata e"])

section \<open>A stored log reads back\<close>

definition in_range :: "execution_event \<Rightarrow> bool" where
  "in_range e \<longleftrightarrow> event_id e < 2 ^ 128 \<and> correlation_id e < 2 ^ 128
     \<and> (case causation_id e of None \<Rightarrow> True | Some c \<Rightarrow> c < 2 ^ 128)"

lemma read_event_dump:
  assumes "canonical py" and "in_range e" and "1 \<le> event_sequence e"
  shows "read_event py drawn (dict_set ''schema_version'' v (dump_event e)) = Inr e"
proof -
  have i: "read_uuid py (JStr (uuid_str (event_id e))) = Some (event_id e)"
      "read_uuid py (JStr (uuid_str (correlation_id e))) = Some (correlation_id e)"
    using assms(1,2) by (simp_all add: canonical_def in_range_def)
  have c: "nullable (read_uuid py) (json_of_option (\<lambda>c. JStr (uuid_str c)) (causation_id e)) = Some (causation_id e)"
    using assms(1,2) by (cases "causation_id e") (simp_all add: canonical_def in_range_def)
  have t: "read_time py (JTime t) = Some t" "read_int py (JInt n) = Some n" for t n
    using assms(1) by (simp_all add: canonical_def)
  show ?thesis using assms(1,3) i c t by (simp add: read_event_def dump_event_def required_def defaulted_def)
qed

lemma current_version_kept:
  "map_of raw ''schema_version'' = Some (JInt (current_version s)) \<Longrightarrow> 0 \<le> current_version s \<Longrightarrow>
     upcast_to_current s c raw = Inr raw"
  by (simp add: upcast_to_current_def extract_schema_version_def)

lemma serialize_event_cases:
  assumes "serialize_event py s e = Inr raw"
  obtains e' where "with_serialized_payload py e = Inr e'" and "event_id e \<noteq> 0"
    and "raw = dict_set ''schema_version'' (JInt (current_version s)) (dump_event e')"
  using assms by (auto simp: serialize_event_def validate_event_id_def split: sum.splits if_splits)

lemma event_reads_back:
  assumes "canonical py" and "0 \<le> current_version s" and "serialize_event py s e = Inr raw" and "in_range e" and "1 \<le> event_sequence e"
  shows "\<exists>e'. with_serialized_payload py e = Inr e' \<and> deserialize_event py s drawn c raw = Inr e' \<and> serialize_event py s e' = Inr raw"
proof -
  obtain e' where e': "with_serialized_payload py e = Inr e'" and i: "event_id e \<noteq> 0"
      and raw: "raw = dict_set ''schema_version'' (JInt (current_version s)) (dump_event e')"
    using assms(3) by (rule serialize_event_cases)
  obtain meta where m: "e' = e\<lparr>event_metadata := meta\<rparr>" using payload_frame [OF e'] by blast
  have up: "upcast_to_current s c raw = Inr raw" by (rule current_version_kept) (simp_all add: raw assms(2))
  have r: "read_event py drawn raw = Inr e'"
    unfolding raw by (rule read_event_dump [OF assms(1)]) (use assms(4,5) in \<open>simp_all add: m in_range_def\<close>)
  have again: "with_serialized_payload py e' = Inr e'" by (rule payload_again [OF assms(1) e'])
  have "event_id e' \<noteq> 0" using i by (simp add: m)
  then show ?thesis using e' again r up by (simp add: deserialize_event_def serialize_event_def validate_event_id_def raw)
qed

lemma log_reads_back:
  assumes "canonical py" and "0 \<le> current_version s"
  shows "serialize_log py s es = Inr raws \<Longrightarrow> \<forall>e \<in> set es. in_range e \<and> 1 \<le> event_sequence e \<Longrightarrow>
     \<exists>es'. restore_events py s drawn k prior raws = Inr (prior @ es') \<and> list_all2 (\<lambda>e e'. with_serialized_payload py e = Inr e') es es'
       \<and> serialize_log py s es' = Inr raws"
proof (induction es arbitrary: raws prior)
  case (Cons e es raws prior)
  obtain raw raws' where r: "serialize_event py s e = Inr raw" "serialize_log py s es = Inr raws'" "raws = raw # raws'"
    using Cons.prems(1) by (auto simp: map_sum_Inr split: sum.splits)
  obtain e' where e': "with_serialized_payload py e = Inr e'" "serialize_event py s e' = Inr raw"
      "deserialize_event py s (drawn (length prior)) (context_after k prior) raw = Inr e'"
    using event_reads_back [OF assms r(1)] Cons.prems(2) by (metis list.set_intros(1))
  obtain es' where "restore_events py s drawn k (prior @ [e']) raws' = Inr ((prior @ [e']) @ es')"
      "list_all2 (\<lambda>e e'. with_serialized_payload py e = Inr e') es es'" "serialize_log py s es' = Inr raws'"
    using Cons.IH [OF r(2), of "prior @ [e']"] Cons.prems(2) by auto
  then show ?case using e' r(3) by (intro exI [of _ "e' # es'"]) simp
qed simp

lemma same_sequence:
  "list_all2 (\<lambda>e e'. with_serialized_payload py e = Inr e') es es' \<Longrightarrow> check_events previous seen es' = check_events previous seen es"
proof (induction es es' arbitrary: previous seen rule: list_all2_induct)
  case (Cons e es e' es')
  obtain meta where m: "e' = e\<lparr>event_metadata := meta\<rparr>" using payload_frame [OF Cons.hyps(1)] by blast
  show ?case unfolding m by (cases "causation_id e") (simp_all add: Cons.IH)
qed simp

text \<open>C16: a log that was written to the store is read back: if every event of a valid log could be serialized,
  loading the stored form gives the log with the payload of each provider event in its normal form (and
  every other event as it was), and writing what was loaded gives the stored form again.\<close>

theorem stored_log_reads_back:
  assumes "canonical py" and "make_serializer current us = Inr s" and "serialize_log py s es = Inr raws"
    and "validate_event_sequence es last_seq = Inr ()" and "\<And>e. e \<in> set es \<Longrightarrow> in_range e"
  shows "\<exists>es'. deserialize_log py s drawn k raws last_seq = Inr es' \<and> serialize_log py s es' = Inr raws
     \<and> list_all2 (\<lambda>e e'. with_serialized_payload py e = Inr e') es es'
     \<and> filter (\<lambda>e. event_type e \<in> set generic_event_types) es' = filter (\<lambda>e. event_type e \<in> set generic_event_types) es"
proof -
  have cur: "0 \<le> current_version s"
    using assms(2) by (auto simp: make_serializer_def build_upcaster_registry_def split: sum.splits if_splits)
  have spec: "log_spec 0 [] es" using assms(4) unfolding validate_iff_check check_events_iff by simp
  have seq: "\<forall>e \<in> set es. in_range e \<and> 1 \<le> event_sequence e"
    using spec assms(5) by (auto simp: log_spec_def)
  from log_reads_back [OF assms(1) cur assms(3) seq, of drawn k "[]"]
  obtain es' where es': "restore_events py s drawn k [] raws = Inr es'" "list_all2 (\<lambda>e e'. with_serialized_payload py e = Inr e') es es'"
      "serialize_log py s es' = Inr raws" by auto
  have "validate_event_sequence es' last_seq = Inr ()"
    using assms(4) same_sequence [OF es'(2)] by (simp add: validate_iff_check)
  moreover have "filter (\<lambda>e. event_type e \<in> set generic_event_types) es' = filter (\<lambda>e. event_type e \<in> set generic_event_types) es"
    using es'(2)
  proof (induction es es' rule: list_all2_induct)
    case (Cons e es e' es')
    obtain meta where m: "e' = e\<lparr>event_metadata := meta\<rparr>" using payload_frame [OF Cons.hyps(1)] by blast
    show ?case
    proof (cases "event_type e \<in> set generic_event_types")
      case True
      then have "e' = e" using payload_generic [of e py] Cons.hyps(1) by simp
      then show ?thesis using Cons.IH True by simp
    next
      case False
      then show ?thesis using Cons.IH by (simp add: m)
    qed
  qed simp
  ultimately show ?thesis using es' by (auto simp: deserialize_log_def)
qed

definition standard_serializer :: "(string \<Rightarrow> uuid) \<Rightarrow> event_serializer" where
  "standard_serializer uuid5 = \<lparr>current_version = 3,
     upcaster_registry = [(0, \<lparr>source_version = 0, target_version = 1, upcast = upcast_v0\<rparr>),
      (1, \<lparr>source_version = 1, target_version = 2, upcast = upcast_v1 uuid5\<rparr>),
      (2, \<lparr>source_version = 2, target_version = 3, upcast = upcast_v2\<rparr>)]\<rparr>"

lemma standard_serializer_made: "make_serializer current_event_version (default_upcasters uuid5) = Inr (standard_serializer uuid5)"
proof -
  have "{0, 1, 2 :: int} = {0 ..< 3}" by auto
  then show ?thesis
    by (simp add: make_serializer_def build_upcaster_registry_def default_upcasters_def standard_serializer_def current_event_version_def)
qed

definition stored_event :: execution_event where
  "stored_event = \<lparr>event_id = 5, correlation_id = 5, causation_id = None, event_sequence = 1, event_timestamp = Aware 0,
     event_type = ''provider_resolved'', event_message = ''resolved'',
     event_metadata = [(''selection_mode'', JStr ''automatic''), (''mission_type'', JStr ''train_ticket''), (''provider_id'', JStr '' mock'')]\<rparr>"

lemma stored_event_payload:
  "with_serialized_payload plain_coercions stored_event = Inr (stored_event\<lparr>event_metadata :=
     [(''provider_id'', JStr ''mock''), (''mission_type'', JStr ''train_ticket''), (''selection_mode'', JStr ''automatic''), (''snapshot'', JNull)]\<rparr>)"
  by (simp add: with_serialized_payload_def stored_event_def read_resolved_def required_def defaulted_def plain_coercions_def
      read_mission_type_def read_mode_def read_enum_def mission_type_value_def make_resolved_payload_def normalize_provider_id_def
      py_strip_def is_space_def dump_resolved_def)

theorem stored_log_reads_back_witness:
  "\<exists>raws es'. serialize_log plain_coercions (standard_serializer (\<lambda>_. 1)) [stored_event] = Inr raws
     \<and> deserialize_log plain_coercions (standard_serializer (\<lambda>_. 1)) (\<lambda>n. (n, n)) None raws 1 = Inr es'
     \<and> map event_metadata es' \<noteq> map event_metadata [stored_event]"
proof -
  obtain raws where raws: "serialize_log plain_coercions (standard_serializer (\<lambda>_. 1)) [stored_event] = Inr raws"
    by (auto simp: serialize_event_def stored_event_payload validate_event_id_def) (simp add: stored_event_def)
  have v: "validate_event_sequence [stored_event] 1 = Inr ()" by (simp add: validate_event_sequence_def stored_event_def)
  have "in_range e" if "e \<in> set [stored_event]" for e using that by (simp add: in_range_def stored_event_def)
  from stored_log_reads_back [OF plain_canonical standard_serializer_made raws v this, of "\<lambda>n. (n, n)" None]
  obtain es' where es': "deserialize_log plain_coercions (standard_serializer (\<lambda>_. 1)) (\<lambda>n. (n, n)) None raws 1 = Inr es'"
      and p: "list_all2 (\<lambda>e e'. with_serialized_payload plain_coercions e = Inr e') [stored_event] es'" by blast
  then have "map event_metadata es' \<noteq> map event_metadata [stored_event]"
    by (auto simp: list_all2_Cons1 stored_event_payload) (simp add: stored_event_def)
  with raws es' show ?thesis by blast
qed

section \<open>Versions\<close>

text \<open>The loader never guesses at a version it does not know: a version above the current one is refused as
  unsupported, a version that is not a natural number as invalid, whatever else the event holds; and an
  event of a version the program writes itself passes the upcasters unchanged.\<close>

theorem unknown_version_refused:
  assumes "make_serializer current us = Inr s"
  shows "(map_of raw ''schema_version'' = Some (JInt n) \<and> current < n \<longrightarrow>
            deserialize_event py s drawn c raw = Inl (UnsupportedVersion n))
     \<and> (map_of raw ''schema_version'' = Some v \<and> (\<forall>n. v \<noteq> JInt n \<or> n < 0) \<longrightarrow>
            deserialize_event py s drawn c raw = Inl SchemaVersionError)
     \<and> (map_of raw ''schema_version'' = Some (JInt current) \<longrightarrow> upcast_to_current s c raw = Inr raw)"
proof -
  have cur: "0 \<le> current" "current_version s = current"
    using assms by (auto simp: make_serializer_def build_upcaster_registry_def split: sum.splits if_splits)
  have "deserialize_event py s drawn c raw = Inl (UnsupportedVersion n)"
    if "map_of raw ''schema_version'' = Some (JInt n)" and "current < n"
    using that cur by (simp add: deserialize_event_def upcast_to_current_def extract_schema_version_def)
  moreover have "deserialize_event py s drawn c raw = Inl SchemaVersionError"
    if "map_of raw ''schema_version'' = Some v" and "\<forall>n. v \<noteq> JInt n \<or> n < 0"
    using that by (cases v) (auto simp: deserialize_event_def upcast_to_current_def extract_schema_version_def)
  ultimately show ?thesis using cur current_version_kept [of raw s c] by blast
qed

theorem unknown_version_refused_witness:
  "deserialize_event plain_coercions (standard_serializer (\<lambda>_. 1)) (0, 0) no_context [(''schema_version'', JInt 4)] = Inl (UnsupportedVersion 4)"
  using unknown_version_refused [OF standard_serializer_made, of "[(''schema_version'', JInt 4)]" 4 plain_coercions "\<lambda>_. 1" "(0, 0)" no_context]
  by (simp add: current_event_version_def)

text \<open>An event of version 2 without an identifier escapes the loader as a bare \<open>KeyError\<close>, which is neither a
  version error nor a deserialization error.\<close>

lemma missing_event_id_escapes:
  "map_of raw ''schema_version'' = Some (JInt 2) \<Longrightarrow> map_of raw ''event_id'' = None \<Longrightarrow>
     deserialize_event py (standard_serializer uuid5) drawn c raw = Inl (Unhandled KeyError)"
  by (simp add: deserialize_event_def upcast_to_current_def extract_schema_version_def standard_serializer_def upcast_v2_def eval_nat_numeral)

section \<open>Logs of the oldest version\<close>

text \<open>An event as it was stored before it had a version, identifiers and causes.\<close>

definition legacy_raw :: "execution_event \<Rightarrow> raw_event" where
  "legacy_raw e =
     [(''sequence'', JInt (event_sequence e)), (''timestamp'', JTime (event_timestamp e)), (''type'', JStr (event_type e)),
      (''message'', JStr (event_message e)), (''metadata'', JObj (event_metadata e))]"

definition adopted :: "(string \<Rightarrow> uuid) \<Rightarrow> uuid \<Rightarrow> execution_event list \<Rightarrow> execution_event \<Rightarrow> execution_event" where
  "adopted uuid5 k prior e = (let i = derive_legacy_event_id uuid5 k (event_sequence e) in
     e\<lparr>event_id := i, correlation_id := (if prior = [] then i else correlation_id (last prior)),
       causation_id := (if prior = [] then None else Some (event_id (last prior)))\<rparr>)"

text \<open>A loaded event against a stored one: sequence number, time, type and message are the stored ones,
  and so are the metadata of an event without a provider payload; a provider payload is read and
  written back in its normal form.\<close>

definition content_kept :: "coercions \<Rightarrow> execution_event \<Rightarrow> execution_event \<Rightarrow> bool" where
  "content_kept py e e' \<longleftrightarrow>
     event_sequence e' = event_sequence e \<and> event_timestamp e' = event_timestamp e
     \<and> event_type e' = event_type e \<and> event_message e' = event_message e
     \<and> with_serialized_payload py e = Inr (e\<lparr>event_metadata := event_metadata e'\<rparr>)
     \<and> (event_type e \<in> set generic_event_types \<longrightarrow> event_metadata e' = event_metadata e)"

lemma payload_metadata:
  assumes "with_serialized_payload py e = Inr n"
  shows "n = e\<lparr>event_metadata := event_metadata n\<rparr>"
  using assms by (cases e) (auto simp: with_serialized_payload_def map_sum_Inr split: if_splits)

lemma payload_ids:
  assumes "with_serialized_payload py e = Inr n"
  shows "with_serialized_payload py (e\<lparr>event_id := i, correlation_id := c, causation_id := z\<rparr>)
     = Inr (n\<lparr>event_id := i, correlation_id := c, causation_id := z\<rparr>)"
  using assms by (auto simp: with_serialized_payload_def map_sum_Inr split: if_splits)

lemma adopted_content:
  assumes "with_serialized_payload py e = Inr n"
  shows "content_kept py e (adopted uuid5 k prior n)"
proof -
  have n: "n = e\<lparr>event_metadata := event_metadata n\<rparr>" by (rule payload_metadata [OF assms])
  have f: "event_sequence n = event_sequence e" "event_timestamp n = event_timestamp e" "event_type n = event_type e"
      "event_message n = event_message e" by (subst n, simp)+
  have m: "with_serialized_payload py e = Inr (e\<lparr>event_metadata := event_metadata n\<rparr>)" using assms n by simp
  have "event_metadata n = event_metadata e" if "event_type e \<in> set generic_event_types"
    using payload_generic [OF that, of py] assms by simp
  then show ?thesis using m by (simp add: content_kept_def adopted_def Let_def f)
qed

lemma content_functional:
  assumes "content_kept py e e'" and "content_kept py e e''"
  shows "legacy_raw e' = legacy_raw e''"
proof -
  have "e\<lparr>event_metadata := event_metadata e'\<rparr> = e\<lparr>event_metadata := event_metadata e''\<rparr>"
    using assms by (simp add: content_kept_def)
  from arg_cong [OF this, of event_metadata] show ?thesis using assms by (simp add: content_kept_def legacy_raw_def)
qed

lemma legacy_event_adopted:
  assumes "canonical py" and "1 \<le> event_sequence e" and "with_serialized_payload py e = Inr n"
    and "derive_legacy_event_id uuid5 k (event_sequence e) \<noteq> 0" and "derive_legacy_event_id uuid5 k (event_sequence e) < 2 ^ 128"
    and "\<forall>x \<in> set prior. event_id x < 2 ^ 128 \<and> correlation_id x < 2 ^ 128"
  shows "deserialize_event py (standard_serializer uuid5) drawn (context_after (Some k) prior) (legacy_raw e) = Inr (adopted uuid5 k prior n)"
proof -
  let ?i = "derive_legacy_event_id uuid5 k (event_sequence e)"
  let ?c = "if prior = [] then ?i else correlation_id (last prior)"
  let ?cause = "if prior = [] then None else Some (event_id (last prior))"
  let ?raw = "legacy_raw e @ [(''schema_version'', JInt 3), (''event_id'', JStr (uuid_str ?i)), (''correlation_id'', JStr (uuid_str ?c)),
     (''causation_id'', json_of_option (\<lambda>p. JStr (uuid_str p)) ?cause)]"
  have last: "prior \<noteq> [] \<Longrightarrow> event_id (last prior) < 2 ^ 128 \<and> correlation_id (last prior) < 2 ^ 128" using assms(6) by simp
  have uuid: "uuid_of_text (uuid_str ?i) = Some ?i" by (rule uuid_of_text_str [OF assms(5)])
  have "upcast_loop (standard_serializer uuid5) (context_after (Some k) prior) (Suc (Suc (Suc 0))) 0 (legacy_raw e) = Inr ?raw"
    using assms(2) uuid by (simp add: standard_serializer_def upcast_v0_def upcast_v1_def upcast_v2_def legacy_raw_def context_after_def)
  then have up: "upcast_to_current (standard_serializer uuid5) (context_after (Some k) prior) (legacy_raw e) = Inr ?raw"
    by (simp add: upcast_to_current_def extract_schema_version_def standard_serializer_def legacy_raw_def eval_nat_numeral)
  have ids: "read_uuid py (JStr (uuid_str ?i)) = Some ?i" "read_uuid py (JStr (uuid_str ?c)) = Some ?c"
    using assms(1,5) last by (simp_all add: canonical_def)
  have cause: "nullable (read_uuid py) (json_of_option (\<lambda>p. JStr (uuid_str p)) ?cause) = Some ?cause"
    using assms(1) last by (cases "prior = []") (simp_all add: canonical_def)
  have fields: "read_time py (JTime t) = Some t" "read_int py (JInt n) = Some n" for t n using assms(1) by (simp_all add: canonical_def)
  have "read_event py drawn ?raw = Inr (adopted uuid5 k prior e)"
    using ids cause fields assms(1,2) by (simp add: read_event_def legacy_raw_def required_def defaulted_def adopted_def Let_def)
  moreover have "event_id (adopted uuid5 k prior e) \<noteq> 0"
    using assms(4) by (simp add: adopted_def Let_def)
  moreover have "with_serialized_payload py (adopted uuid5 k prior e) = Inr (adopted uuid5 k prior n)"
  proof -
    have "event_sequence n = event_sequence e" by (subst payload_metadata [OF assms(3)]) simp
    then show ?thesis unfolding adopted_def Let_def by (simp add: payload_ids [OF assms(3)])
  qed
  ultimately show ?thesis
    using up by (simp add: deserialize_event_def validate_event_id_def)
qed

definition usable_ids :: "(string \<Rightarrow> uuid) \<Rightarrow> uuid \<Rightarrow> nat \<Rightarrow> bool" where
  "usable_ids uuid5 k n \<longleftrightarrow> distinct (map (\<lambda>j. derive_legacy_event_id uuid5 k (int j)) [1..<Suc n])
     \<and> list_all (\<lambda>j. derive_legacy_event_id uuid5 k (int j) \<noteq> 0 \<and> derive_legacy_event_id uuid5 k (int j) < 2 ^ 128) [1..<Suc n]"

lemma usable_idsD:
  "usable_ids uuid5 k n \<Longrightarrow> j \<in> set [1..<Suc n] \<Longrightarrow>
     derive_legacy_event_id uuid5 k (int j) \<noteq> 0 \<and> derive_legacy_event_id uuid5 k (int j) < 2 ^ 128"
  unfolding usable_ids_def list_all_iff by blast

lemma chained_last: "chained es \<Longrightarrow> last (0 # map event_sequence es) = int (length es)"
  by (cases es rule: rev_cases) (simp_all add: chained_snoc)

definition adopted_prefix :: "(string \<Rightarrow> uuid) \<Rightarrow> uuid \<Rightarrow> execution_event list \<Rightarrow> bool" where
  "adopted_prefix uuid5 k prior \<longleftrightarrow> chained prior \<and> log_spec 0 [] prior
     \<and> map event_id prior = map (\<lambda>j. derive_legacy_event_id uuid5 k (int j)) [1..<Suc (length prior)]"

lemma adopted_prefix_snoc:
  assumes "adopted_prefix uuid5 k prior" and "usable_ids uuid5 k n" and "length prior < n" and "event_sequence e = int (length prior) + 1"
  shows "adopted_prefix uuid5 k (prior @ [adopted uuid5 k prior e])"
proof -
  let ?d = "\<lambda>j. derive_legacy_event_id uuid5 k (int j)" and ?n = "Suc (length prior)" and ?e = "adopted uuid5 k prior e"
  have c: "chained prior" and l: "log_spec 0 [] prior" and ids: "map event_id prior = map ?d [1..<?n]"
    using assms(1) by (simp_all add: adopted_prefix_def)
  have e: "event_id ?e = ?d ?n" "event_sequence ?e = int ?n" using assms(4) by (simp_all add: adopted_def Let_def add.commute)
  have "distinct (map ?d [1..<Suc n])" using assms(2) by (simp add: usable_ids_def)
  moreover have "[1..<Suc n] = [1..<Suc ?n] @ [Suc ?n..<Suc n]" using assms(3) upt_add_eq_append [of 1 "Suc ?n" "n - ?n"] by simp
  ultimately have "distinct (map ?d [1..<Suc ?n])" by (metis distinct_append map_append)
  then have new: "?d ?n \<notin> set (map event_id prior)" unfolding ids by simp
  have "?n \<in> set [1..<Suc n]" using assms(3) by auto
  then have nonzero: "?d ?n \<noteq> 0" using usable_idsD [OF assms(2)] by blast
  have mem: "event_id (last prior) \<in> set (map event_id prior)" if "prior \<noteq> []" using that by simp
  have corr: "correlation_id (last prior) = event_id (prior ! 0)" if "prior \<noteq> []"
    using c that by (simp add: chained_def last_conv_nth)
  have ok: "event_ok (last prior)" if "prior \<noteq> []" using l that by (simp add: log_spec_def)
  have "chained (prior @ [?e])"
    unfolding chained_snoc using c e corr by (simp add: adopted_def Let_def nth_append)
  moreover have "log_spec 0 [] (prior @ [?e])"
  proof -
    have "last (0 # map event_sequence prior) < event_sequence ?e" unfolding chained_last [OF c] e(2) by simp
    moreover have "event_ok ?e"
    proof (cases "prior = []")
      case True
      then show ?thesis using nonzero e(1) by (simp add: event_ok_def adopted_def Let_def)
    next
      case False
      have "event_id (last prior) \<noteq> event_id ?e" using new mem [OF False] e(1) by metis
      then show ?thesis using nonzero e(1) ok [OF False] False by (simp add: event_ok_def adopted_def Let_def)
    qed
    ultimately show ?thesis unfolding log_spec_snoc using l new e(1) by simp
  qed
  moreover have "map event_id (prior @ [?e]) = map ?d [1..<Suc (length (prior @ [?e]))]"
    using ids e(1) by simp
  ultimately show ?thesis by (simp add: adopted_prefix_def)
qed

lemma prefix_in_range:
  assumes "adopted_prefix uuid5 k prior" and "usable_ids uuid5 k n" and "length prior \<le> n"
  shows "\<forall>x \<in> set prior. event_id x < 2 ^ 128 \<and> correlation_id x < 2 ^ 128"
proof -
  have ids: "event_id x < 2 ^ 128" if "x \<in> set prior" for x
  proof -
    have "event_id x \<in> set (map event_id prior)" using that by simp
    then have "event_id x \<in> set (map (\<lambda>j. derive_legacy_event_id uuid5 k (int j)) [1..<Suc (length prior)])"
      using assms(1) unfolding adopted_prefix_def by (simp only:)
    then obtain j where "j \<in> set [1..<Suc (length prior)]" "event_id x = derive_legacy_event_id uuid5 k (int j)"
      by (auto simp only: set_map)
    moreover from this have "j \<in> set [1..<Suc n]" using assms(3) by auto
    ultimately show ?thesis using usable_idsD [OF assms(2)] by presburger
  qed
  have "correlation_id x < 2 ^ 128" if "x \<in> set prior" for x
  proof -
    have "correlation_id x = event_id (prior ! 0)"
      using assms(1) that by (auto simp: adopted_prefix_def chained_def in_set_conv_nth)
    moreover have "prior ! 0 \<in> set prior" using that by (cases prior) auto
    ultimately show ?thesis using ids by simp
  qed
  with ids show ?thesis by blast
qed

lemma legacy_restored:
  assumes "canonical py" and "usable_ids uuid5 k n"
  shows "adopted_prefix uuid5 k prior \<Longrightarrow> length prior + length es = n \<Longrightarrow>
     map event_sequence es = map int [Suc (length prior)..<Suc n] \<Longrightarrow> list_all (\<lambda>e. \<exists>n. with_serialized_payload py e = Inr n) es \<Longrightarrow>
     \<exists>es'. restore_events py (standard_serializer uuid5) drawn (Some k) prior (map legacy_raw es) = Inr (prior @ es')
       \<and> adopted_prefix uuid5 k (prior @ es') \<and> list_all2 (content_kept py) es es'"
proof (induction es arbitrary: prior)
  case (Cons e es prior)
  obtain n0 where n0: "with_serialized_payload py e = Inr n0" using Cons.prems(4) by auto
  let ?e = "adopted uuid5 k prior n0"
  have up: "[Suc (length prior)..<Suc n] = Suc (length prior) # [Suc (Suc (length prior))..<Suc n]"
    using Cons.prems(2) by (intro upt_conv_Cons) simp
  then have seq: "event_sequence e = int (length prior) + 1" "map event_sequence es = map int [Suc (Suc (length prior))..<Suc n]"
    using Cons.prems(3) by simp_all
  have len: "length prior < n" using Cons.prems(2) by simp
  have "Suc (length prior) \<in> set [1..<Suc n]" using len by auto
  then have i: "derive_legacy_event_id uuid5 k (event_sequence e) \<noteq> 0" "derive_legacy_event_id uuid5 k (event_sequence e) < 2 ^ 128"
    using assms(2) seq(1) unfolding usable_ids_def list_all_iff by (metis of_nat_Suc add.commute)+
  have one: "deserialize_event py (standard_serializer uuid5) (drawn (length prior)) (context_after (Some k) prior) (legacy_raw e) = Inr ?e"
    by (rule legacy_event_adopted [OF assms(1) _ n0 i prefix_in_range [OF Cons.prems(1) assms(2)]]) (use seq(1) len in simp_all)
  have "adopted_prefix uuid5 k (prior @ [?e])"
    by (rule adopted_prefix_snoc [OF Cons.prems(1) assms(2) len]) (use seq(1) in \<open>subst payload_metadata [OF n0], simp\<close>)
  then obtain es' where "restore_events py (standard_serializer uuid5) drawn (Some k) (prior @ [?e]) (map legacy_raw es) = Inr ((prior @ [?e]) @ es')"
      "adopted_prefix uuid5 k ((prior @ [?e]) @ es')" "list_all2 (content_kept py) es es'"
    using Cons.IH [of "prior @ [?e]"] Cons.prems(2,4) seq(2) by auto
  then show ?case
    by (intro exI [of _ "?e # es'"]) (simp add: one adopted_content [OF n0])
qed simp

text \<open>C15: a log stored before events had identifiers, causes and a version is loaded as one causal chain: with
  sequence numbers from one on, each event gets the identifier derived from mission and sequence number,
  the first event starts the correlation, each later one is caused by its predecessor, and what the stored
  events held is kept, but for a provider payload, which is rewritten in its normal form. This holds for
  any log whose event types are known and whose provider payloads can be read. Loading it again gives the
  same log.\<close>

theorem legacy_log_is_chained:
  assumes "canonical py" and "usable_ids uuid5 k (length es)"
    and "map event_sequence es = map int [1..<Suc (length es)]" and "list_all (\<lambda>e. \<exists>n. with_serialized_payload py e = Inr n) es"
  shows "\<exists>es'. (\<forall>drawn. deserialize_log py (standard_serializer uuid5) drawn (Some k) (map legacy_raw es) (int (length es)) = Inr es')
     \<and> chained es' \<and> list_all2 (content_kept py) es es'
     \<and> map event_id es' = map (\<lambda>n. derive_legacy_event_id uuid5 k (int n)) [1..<Suc (length es)]"
proof -
  let ?s = "standard_serializer uuid5"
  have start: "adopted_prefix uuid5 k []" by (simp add: adopted_prefix_def chained_def log_spec_def)
  have each: "\<exists>es'. restore_events py ?s drawn (Some k) [] (map legacy_raw es) = Inr es' \<and> adopted_prefix uuid5 k es'
      \<and> list_all2 (content_kept py) es es' \<and> map event_id es' = map (\<lambda>n. derive_legacy_event_id uuid5 k (int n)) [1..<Suc (length es)]" for drawn
    using legacy_restored [OF assms(1,2) start, of es drawn] assms(3,4) list_all2_lengthD [of _ es] by (fastforce simp: adopted_prefix_def)
  have same: "es' = es''" if "length es' = length es''" "chained es'" "chained es''" "map event_id es' = map event_id es''"
      "list_all2 (content_kept py) es es'" "list_all2 (content_kept py) es es''" for es' es''
  proof (rule nth_equalityI [OF that(1)])
    fix i assume i: "i < length es'"
    have ids: "event_id (es' ! j) = event_id (es'' ! j)" if "j < length es'" for j
      using that arg_cong [OF \<open>map event_id es' = map event_id es''\<close>, of "\<lambda>xs. xs ! j"] \<open>length es' = length es''\<close> by simp
    have "legacy_raw (es' ! i) = legacy_raw (es'' ! i)" using content_functional that(5,6) i that(1) by (metis list_all2_conv_all_nth)
    moreover have "event_id (es' ! 0) = event_id (es'' ! 0)" "event_id (es' ! (i - 1)) = event_id (es'' ! (i - 1))"
      by (rule ids, use i in force, rule ids, use i in simp)
    then have "correlation_id (es' ! i) = correlation_id (es'' ! i)" "causation_id (es' ! i) = causation_id (es'' ! i)"
      using that(2,3) i that(1) by (simp_all add: chained_def)
    ultimately show "es' ! i = es'' ! i" using ids [OF i] by (simp add: legacy_raw_def)
  qed
  obtain es' where es': "restore_events py ?s (\<lambda>n. (0, 0)) (Some k) [] (map legacy_raw es) = Inr es'" "adopted_prefix uuid5 k es'"
      "list_all2 (content_kept py) es es'" "map event_id es' = map (\<lambda>n. derive_legacy_event_id uuid5 k (int n)) [1..<Suc (length es)]"
    using each [of "\<lambda>n. (0, 0)"] by blast
  have len: "length es' = length es" using es'(3) by (simp add: list_all2_lengthD)
  have "deserialize_log py ?s drawn (Some k) (map legacy_raw es) (int (length es)) = Inr es'" for drawn
  proof -
    obtain es'' where e: "restore_events py ?s drawn (Some k) [] (map legacy_raw es) = Inr es''" "adopted_prefix uuid5 k es''"
      "list_all2 (content_kept py) es es''" "map event_id es'' = map (\<lambda>n. derive_legacy_event_id uuid5 k (int n)) [1..<Suc (length es)]"
      using each [of drawn] by blast
    have "es'' = es'" by (rule same) (use e es' list_all2_lengthD [OF e(3)] len in \<open>simp_all add: adopted_prefix_def\<close>)
    moreover have "validate_event_sequence es' (int (length es)) = Inr ()"
      unfolding validate_iff_check check_events_iff using es'(2) len chained_last [of es'] by (simp add: adopted_prefix_def)
    ultimately show ?thesis using e(1) by (simp add: deserialize_log_def)
  qed
  then show ?thesis using es' by (auto simp: adopted_prefix_def)
qed

text \<open>A created mission and the resolution of its provider, whose stored payload is not in normal form.\<close>

definition legacy_pair :: "execution_event list" where
  "legacy_pair =
     [\<lparr>event_id = 0, correlation_id = 0, causation_id = None, event_sequence = 1, event_timestamp = Aware 0,
       event_type = ''mission_created'', event_message = ''created'', event_metadata = []\<rparr>,
      stored_event\<lparr>event_sequence := 2\<rparr>]"

theorem legacy_log_is_chained_witness:
  "\<exists>a b. deserialize_log plain_coercions (standard_serializer (\<lambda>s. of_char (last s))) (\<lambda>n. (0, 0)) (Some 7) (map legacy_raw legacy_pair) 2 = Inr [a, b]
     \<and> chained [a, b] \<and> event_metadata b = [(''provider_id'', JStr ''mock''), (''mission_type'', JStr ''train_ticket''),
         (''selection_mode'', JStr ''automatic''), (''snapshot'', JNull)]"
proof -
  let ?u = "(\<lambda>s. of_char (last s)) :: string \<Rightarrow> uuid"
  let ?e = "stored_event\<lparr>event_sequence := 2\<rparr>"
  have d: "derive_legacy_event_id ?u 7 1 = 49" "derive_legacy_event_id ?u 7 2 = 50"
    by (simp_all add: derive_legacy_event_id_def int_str_def nat_str.simps digit_char_def)
  have two: "[1..<Suc (length legacy_pair)] = [1, 2]" by (simp add: legacy_pair_def upt_rec)
  have u: "usable_ids ?u 7 (length legacy_pair)"
    unfolding usable_ids_def two using d by simp
  have seq: "map event_sequence legacy_pair = map int [1..<Suc (length legacy_pair)]"
    unfolding two by (simp add: legacy_pair_def)
  have second: "with_serialized_payload plain_coercions ?e = Inr (?e\<lparr>event_metadata :=
     [(''provider_id'', JStr ''mock''), (''mission_type'', JStr ''train_ticket''), (''selection_mode'', JStr ''automatic''), (''snapshot'', JNull)]\<rparr>)"
    by (simp add: with_serialized_payload_def stored_event_def read_resolved_def required_def defaulted_def plain_coercions_def
        read_mission_type_def read_mode_def read_enum_def mission_type_value_def make_resolved_payload_def normalize_provider_id_def
        py_strip_def is_space_def dump_resolved_def)
  have "list_all (\<lambda>e. \<exists>n. with_serialized_payload plain_coercions e = Inr n) legacy_pair"
    unfolding legacy_pair_def list_all_iff
    using second payload_generic by (auto simp: generic_event_types_def)
  from legacy_log_is_chained [OF plain_canonical u seq this]
  obtain es' where load: "\<And>drawn. deserialize_log plain_coercions (standard_serializer ?u) drawn (Some 7) (map legacy_raw legacy_pair)
      (int (length legacy_pair)) = Inr es'" and c: "chained es'" and kept: "list_all2 (content_kept plain_coercions) legacy_pair es'"
    by blast
  from kept obtain a b where es': "es' = [a, b]" and "content_kept plain_coercions ?e b"
    unfolding legacy_pair_def list_all2_Cons1 by blast
  then have "?e\<lparr>event_metadata := event_metadata b\<rparr> = ?e\<lparr>event_metadata :=
     [(''provider_id'', JStr ''mock''), (''mission_type'', JStr ''train_ticket''), (''selection_mode'', JStr ''automatic''), (''snapshot'', JNull)]\<rparr>"
    unfolding content_kept_def second by simp
  from arg_cong [OF this, of event_metadata] have "event_metadata b =
     [(''provider_id'', JStr ''mock''), (''mission_type'', JStr ''train_ticket''), (''selection_mode'', JStr ''automatic''), (''snapshot'', JNull)]"
    by simp
  moreover have "int (length legacy_pair) = 2" by (simp add: legacy_pair_def)
  ultimately show ?thesis using load [of "\<lambda>n. (0, 0)"] c unfolding es' by auto
qed

section \<open>The registry of upcasters\<close>

lemma dict_set_absent: "map_of d k = None \<Longrightarrow> dict_set k v d = d @ [(k, v)]"
  by (induction d) (auto split: if_splits)

definition adjacent :: "int \<Rightarrow> upcaster \<Rightarrow> bool" where
  "adjacent current u \<longleftrightarrow> 0 \<le> source_version u \<and> target_version u = source_version u + 1 \<and> target_version u \<le> current"

lemma add_upcasters_result:
  "add_upcasters current us r =
     (if list_all (adjacent current) us \<and> distinct (map source_version us) \<and> list_all (\<lambda>u. map_of r (source_version u) = None) us
      then Inr (r @ map (\<lambda>u. (source_version u, u)) us) else Inl InvalidRegistry)"
proof (induction us arbitrary: r)
  case (Cons u us)
  show ?case
  proof (cases "adjacent current u \<and> map_of r (source_version u) = None")
    case True
    then have "add_upcasters current (u # us) r = add_upcasters current us (r @ [(source_version u, u)])"
      by (auto simp: adjacent_def dict_set_absent)
    moreover have "list_all (\<lambda>x. map_of (r @ [(source_version u, u)]) (source_version x) = None) us
        \<longleftrightarrow> list_all (\<lambda>x. map_of r (source_version x) = None) us \<and> source_version u \<notin> set (map source_version us)"
    proof -
      have "map_of (r @ [(source_version u, u)]) v = None \<longleftrightarrow> map_of r v = None \<and> v \<noteq> source_version u" for v
        by (simp add: map_add_def split: option.split)
      then show ?thesis unfolding list_all_iff set_map image_iff by metis
    qed
    ultimately show ?thesis unfolding Cons.IH using True by auto
  next
    case False
    then show ?thesis by (auto simp: adjacent_def)
  qed
qed simp

text \<open>A set of upcasters is accepted exactly when it is a chain: every upcaster raises its version by one, no
  two start at the same version, and together they start at all the versions below the current one; and
  then the loader finds the upcaster of each of them.\<close>

theorem upcaster_registry_is_chain:
  "((\<exists>r. build_upcaster_registry us current = Inr r) \<longleftrightarrow>
      0 \<le> current \<and> (\<forall>u \<in> set us. target_version u = source_version u + 1)
      \<and> distinct (map source_version us) \<and> set (map source_version us) = {0 ..< current})
   \<and> (build_upcaster_registry us current = Inr r \<longrightarrow>
        (\<forall>v \<in> {0 ..< current}. \<exists>u \<in> set us. map_of r v = Some u \<and> source_version u = v))"
proof -
  let ?r = "map (\<lambda>u. (source_version u, u)) us"
  have build: "build_upcaster_registry us current =
      (if 0 \<le> current \<and> list_all (adjacent current) us \<and> distinct (map source_version us) \<and> set (map source_version us) = {0 ..< current}
       then Inr ?r else Inl InvalidRegistry)"
    by (auto simp: build_upcaster_registry_def add_upcasters_result image_image list_all_iff)
  have "list_all (adjacent current) us \<longleftrightarrow> (\<forall>u \<in> set us. target_version u = source_version u + 1)"
    if chain: "set (map source_version us) = {0 ..< current}"
  proof -
    have "0 \<le> source_version u \<and> source_version u + 1 \<le> current" if u: "u \<in> set us" for u
    proof -
      have "source_version u \<in> set (map source_version us)" using u by simp
      then have "source_version u \<in> {0 ..< current}" unfolding chain .
      then show ?thesis by simp
    qed
    then show ?thesis by (auto simp: list_all_iff adjacent_def)
  qed
  moreover have "\<exists>u \<in> set us. map_of r v = Some u \<and> source_version u = v"
    if b: "build_upcaster_registry us current = Inr r" and v: "v \<in> {0 ..< current}" for v
  proof -
    have r: "r = ?r" and d: "distinct (map source_version us)" and s: "set (map source_version us) = {0 ..< current}"
      using b unfolding build by (auto split: if_splits)
    obtain u where u: "u \<in> set us" "source_version u = v" using v s by (auto simp flip: s)
    have "map_of ?r v = Some u" using d u by (intro map_of_is_SomeI) (auto simp: comp_def)
    then show ?thesis using u r by blast
  qed
  ultimately show ?thesis unfolding build by auto
qed

theorem upcaster_registry_is_chain_witness:
  "\<exists>r. build_upcaster_registry (default_upcasters uuid5) 3 = Inr r"
  using upcaster_registry_is_chain [of "default_upcasters uuid5" 3] by (auto simp: default_upcasters_def)

end
