(* ===== verification/ProviderHistory.thy ===== *)
theory ProviderHistory
  imports EventCodecContracts EventHistory
begin

text \<open>
  The history of provider selections and resolutions of a mission
  (\<open>app/services/provider_resolution_history.py\<close>): pages by cursor and increments by sequence number, from
  the canonical log or from the projection table (\<open>app/services/provider_history_projection.py\<close>,
  \<open>app/repositories/sqlalchemy/provider_history.py\<close>). The table is the list of its rows. The state \<open>'w\<close> is
  what the repository and the waiter act on.
\<close>

section \<open>Items\<close>

datatype history_type = SelectionChanged | ProviderResolved | ResolutionFailed

fun history_type_value :: "history_type \<Rightarrow> string" where
  "history_type_value SelectionChanged = ''provider_selection_changed''"
| "history_type_value ProviderResolved = ''provider_resolved''"
| "history_type_value ResolutionFailed = ''provider_resolution_failed''"

definition history_type_of :: "string \<Rightarrow> history_type option" where
  "history_type_of s = find (\<lambda>t. history_type_value t = s) [SelectionChanged, ProviderResolved, ResolutionFailed]"

definition is_history_event :: "execution_event \<Rightarrow> bool" where
  "is_history_event e \<longleftrightarrow> history_type_of (event_type e) \<noteq> None"

datatype history_payload =
    SelectionPayload selection_payload
  | ResolvedPayload resolved_payload
  | FailedPayload failed_payload

fun dump_history_payload :: "history_payload \<Rightarrow> metadata" where
  "dump_history_payload (SelectionPayload p) = dump_selection p"
| "dump_history_payload (ResolvedPayload p) = dump_resolved p"
| "dump_history_payload (FailedPayload p) = dump_failed p"

fun payload_matches :: "history_type \<Rightarrow> history_payload \<Rightarrow> bool" where
  "payload_matches SelectionChanged (SelectionPayload p) = True"
| "payload_matches ProviderResolved (ResolvedPayload p) = True"
| "payload_matches ResolutionFailed (FailedPayload p) = True"
| "payload_matches _ _ = False"

record history_item =
  item_sequence :: int
  item_type :: history_type
  item_time :: datetime
  item_payload :: history_payload

definition make_history_item :: "int \<Rightarrow> history_type \<Rightarrow> datetime \<Rightarrow> history_payload \<Rightarrow> exn + history_item" where
  "make_history_item n ty t p =
     (if n < 1 \<or> \<not> payload_matches ty p then Inl ValidationError
      else Inr \<lparr>item_sequence = n, item_type = ty, item_time = t, item_payload = p\<rparr>)"

fun read_history_payload :: "coercions \<Rightarrow> history_type \<Rightarrow> metadata \<Rightarrow> exn + history_payload" where
  "read_history_payload py SelectionChanged d = map_sum id SelectionPayload (read_selection py d)"
| "read_history_payload py ProviderResolved d = map_sum id ResolvedPayload (read_resolved py d)"
| "read_history_payload py ResolutionFailed d = map_sum id FailedPayload (read_failed py d)"

definition history_item_of :: "coercions \<Rightarrow> execution_event \<Rightarrow> exn + history_item" where
  "history_item_of py e =
     (case history_type_of (event_type e) of
        None \<Rightarrow> Inl (ValueError ''Unsupported provider history event type'')
      | Some ty \<Rightarrow>
          (case read_history_payload py ty (event_metadata e) of
             Inl x \<Rightarrow> Inl x
           | Inr p \<Rightarrow> make_history_item (event_sequence e) ty (event_timestamp e) p))"

section \<open>Projection\<close>

record projection_event =
  projected_mission :: uuid
  projected_sequence :: int
  projected_type :: history_type
  projected_time :: datetime
  projected_payload :: history_payload
  projected_index :: nat

definition project_event :: "coercions \<Rightarrow> uuid \<Rightarrow> nat \<Rightarrow> execution_event \<Rightarrow> exn + projection_event option" where
  "project_event py k i e =
     (if \<not> is_history_event e then Inr None
      else (case history_item_of py e of
              Inl x \<Rightarrow> Inl x
            | Inr item \<Rightarrow> Inr (Some \<lparr>projected_mission = k, projected_sequence = item_sequence item, projected_type = item_type item,
                projected_time = item_time item, projected_payload = item_payload item, projected_index = i\<rparr>)))"

record history_row =
  row_mission :: uuid
  row_sequence :: int
  row_type :: string
  row_time :: time
  row_payload :: metadata
  row_index :: nat

type_synonym history_table = "history_row list"

definition history_row_of :: "projection_event \<Rightarrow> history_row" where
  "history_row_of p =
     \<lparr>row_mission = projected_mission p, row_sequence = projected_sequence p, row_type = history_type_value (projected_type p),
      row_time = instant (projected_time p), row_payload = dump_history_payload (projected_payload p), row_index = projected_index p\<rparr>"

definition append_history :: "projection_event list \<Rightarrow> history_table \<Rightarrow> history_table" where
  "append_history ps rows = rows @ map history_row_of ps"

text \<open>The projections of the events of a log, and how the repository extends the table by those that are
  new since a sequence number when it stores a mission.\<close>

definition project_indexed :: "coercions \<Rightarrow> uuid \<Rightarrow> (nat \<times> execution_event) list \<Rightarrow> ('s, exn, projection_event list) prog" where
  "project_indexed py k ies =
     bindE (mapE (\<lambda>ie. liftE (project_event py k (fst ie) (snd ie))) ies) (\<lambda>found. ret (List.map_filter id found))"

definition store_history :: "coercions \<Rightarrow> mission \<Rightarrow> int \<Rightarrow> (history_table, exn, unit) prog" where
  "store_history py m previous =
     bindE (project_indexed py (mission_id m) (indexed_after (execution_log m) previous)) (\<lambda>ps.
     if ps = [] then ret () else modify (append_history ps))"

definition projection_from_row :: "coercions \<Rightarrow> history_row \<Rightarrow> exn + projection_event" where
  "projection_from_row py row =
     (case history_type_of (row_type row) of
        None \<Rightarrow> Inl (ValueError ''not a valid ProviderHistoryEventType'')
      | Some ty \<Rightarrow>
          (case read_history_payload py ty (row_payload row) of
             Inl x \<Rightarrow> Inl x
           | Inr p \<Rightarrow>
               if row_sequence row < 1 then Inl ValidationError
               else Inr \<lparr>projected_mission = row_mission row, projected_sequence = row_sequence row, projected_type = ty,
                 projected_time = Aware (row_time row), projected_payload = p, projected_index = row_index row\<rparr>))"

record history_cursor =
  cursor_mission :: uuid
  cursor_time :: time
  cursor_index :: nat

definition beyond_history :: "history_cursor option \<Rightarrow> time \<Rightarrow> nat \<Rightarrow> bool" where
  "beyond_history c t i \<longleftrightarrow> (case c of None \<Rightarrow> True | Some x \<Rightarrow> t > cursor_time x \<or> (t = cursor_time x \<and> i > cursor_index x))"

definition rows_to_projections :: "coercions \<Rightarrow> history_row list \<Rightarrow> ('w, exn, projection_event list) prog" where
  "rows_to_projections py rows = mapE (\<lambda>row. liftE (projection_from_row py row)) rows"

definition history_list_since :: "coercions \<Rightarrow> history_table \<Rightarrow> uuid \<Rightarrow> int \<Rightarrow> int \<Rightarrow> ('w, exn, projection_event list) prog" where
  "history_list_since py table k since fetch_limit =
     rows_to_projections py (first_n fetch_limit (sort_key row_sequence
       (filter (\<lambda>r. row_sequence r > since) (filter (\<lambda>r. row_mission r = k) table))))"

definition history_list_all :: "coercions \<Rightarrow> history_table \<Rightarrow> uuid \<Rightarrow> ('w, exn, projection_event list) prog" where
  "history_list_all py table k = rows_to_projections py (sort_key row_sequence (filter (\<lambda>r. row_mission r = k) table))"

definition history_list_page ::
  "coercions \<Rightarrow> history_table \<Rightarrow> uuid \<Rightarrow> history_cursor option \<Rightarrow> int \<Rightarrow> ('w, exn, projection_event list) prog" where
  "history_list_page py table k c fetch_limit =
     rows_to_projections py (first_n fetch_limit (sort_key (\<lambda>r. (row_time r, row_index r))
       (filter (\<lambda>r. beyond_history c (row_time r) (row_index r)) (filter (\<lambda>r. row_mission r = k) table))))"

section \<open>Pages\<close>

record history_page_request =
  history_limit :: int
  history_cursor :: "history_cursor option"

definition make_history_page_request :: "history_page_request \<Rightarrow> exn + history_page_request" where
  "make_history_page_request r = (if 1 \<le> history_limit r \<and> history_limit r \<le> 100 then Inr r else Inl ValidationError)"

record history_page =
  history_mission :: uuid
  history_items :: "history_item list"
  history_page_limit :: int
  history_more :: bool
  history_next :: "history_cursor option"

text \<open>A cursor must be aware; the page checks that it fits the last item.\<close>

definition make_history_cursor :: "uuid \<Rightarrow> datetime \<Rightarrow> nat \<Rightarrow> exn + history_cursor" where
  "make_history_cursor k t i =
     (if is_aware t then Inr \<lparr>cursor_mission = k, cursor_time = instant t, cursor_index = i\<rparr> else Inl ValidationError)"

definition history_page_ok :: "history_page \<Rightarrow> bool" where
  "history_page_ok p \<longleftrightarrow>
     (if history_more p
      then (case history_next p of
              None \<Rightarrow> False
            | Some c \<Rightarrow> history_items p \<noteq> [] \<and> cursor_mission c = history_mission p
                \<and> Aware (cursor_time c) = item_time (last (history_items p)))
      else history_next p = None)"

definition make_history_page :: "history_page \<Rightarrow> exn + history_page" where
  "make_history_page p = (if history_page_ok p then Inr p else Inl ValidationError)"

definition invalid_history_cursor :: exn where
  "invalid_history_cursor = OtherError ''InvalidProviderHistoryCursorError''"

definition foreign_cursor :: "uuid \<Rightarrow> history_cursor option \<Rightarrow> bool" where
  "foreign_cursor k c \<longleftrightarrow> (case c of None \<Rightarrow> False | Some x \<Rightarrow> cursor_mission x \<noteq> k)"

text \<open>The provider events of a log with their places, in the order of time and place. Sorting or comparing
  an aware and a naive time raises.\<close>

definition history_key :: "nat \<times> execution_event \<Rightarrow> time \<times> nat" where
  "history_key ie = (instant (event_timestamp (snd ie)), fst ie)"

definition history_events :: "execution_event list \<Rightarrow> (nat \<times> execution_event) list" where
  "history_events entries = filter (\<lambda>ie. is_history_event (snd ie)) (enumerate 0 entries)"

definition aware_event :: "nat \<times> execution_event \<Rightarrow> bool" where
  "aware_event ie \<longleftrightarrow> is_aware (event_timestamp (snd ie))"

definition ordered_history :: "execution_event list \<Rightarrow> exn + (nat \<times> execution_event) list" where
  "ordered_history entries =
     (let es = history_events entries in
      if list_all aware_event es \<or> list_all (\<lambda>ie. \<not> aware_event ie) es then Inr (sort_key history_key es) else Inl TypeError)"

definition history_after :: "history_cursor option \<Rightarrow> (nat \<times> execution_event) list \<Rightarrow> exn + (nat \<times> execution_event) list" where
  "history_after c es =
     (case c of
        None \<Rightarrow> Inr es
      | Some x \<Rightarrow> if list_all aware_event es then Inr (filter (\<lambda>ie. history_key ie > (cursor_time x, cursor_index x)) es) else Inl TypeError)"

definition canonical_history_page :: "coercions \<Rightarrow> mission \<Rightarrow> history_page_request \<Rightarrow> ('w, exn, history_page) prog" where
  "canonical_history_page py m r =
     bindE (liftE (ordered_history (execution_log m))) (\<lambda>ordered.
     bindE (liftE (history_after (history_cursor r) ordered)) (\<lambda>rest.
     let fetched = first_n (history_limit r + 1) rest;
         visible = first_n (history_limit r) fetched;
         more = int (length fetched) > history_limit r
     in bindE (if more then bindE (liftE (make_history_cursor (mission_id m) (event_timestamp (snd (last visible))) (fst (last visible))))
                              (\<lambda>c. ret (Some c)) else ret None) (\<lambda>next_cursor.
        bindE (mapE (\<lambda>ie. liftE (history_item_of py (snd ie))) visible) (\<lambda>items.
        liftE (make_history_page \<lparr>history_mission = mission_id m, history_items = items, history_page_limit = history_limit r,
          history_more = more, history_next = next_cursor\<rparr>)))))"

definition projection_item :: "projection_event \<Rightarrow> exn + history_item" where
  "projection_item p = make_history_item (projected_sequence p) (projected_type p) (projected_time p) (projected_payload p)"

type_synonym 'w page_reader = "uuid \<Rightarrow> history_cursor option \<Rightarrow> int \<Rightarrow> ('w, exn, projection_event list) prog"

definition projected_history_page :: "'w page_reader \<Rightarrow> uuid \<Rightarrow> history_page_request \<Rightarrow> ('w, exn, history_page) prog" where
  "projected_history_page list_page k r =
     thenE (require (\<not> foreign_cursor k (history_cursor r)) invalid_history_cursor)
     (bindE (list_page k (history_cursor r) (history_limit r + 1)) (\<lambda>fetched.
      let visible = first_n (history_limit r) fetched;
          more = int (length fetched) > history_limit r
      in bindE (if more then bindE (liftE (make_history_cursor k (projected_time (last visible)) (projected_index (last visible))))
                               (\<lambda>c. ret (Some c)) else ret None) (\<lambda>next_cursor.
         bindE (mapE (\<lambda>p. liftE (projection_item p)) visible) (\<lambda>items.
         liftE (make_history_page \<lparr>history_mission = k, history_items = items, history_page_limit = history_limit r,
           history_more = more, history_next = next_cursor\<rparr>)))))"

definition get_provider_history ::
  "coercions \<Rightarrow> (uuid \<Rightarrow> ('w, exn, bool) prog) \<Rightarrow> (uuid \<Rightarrow> ('w, exn, mission option) prog) \<Rightarrow> 'w page_reader option
     \<Rightarrow> uuid \<Rightarrow> history_page_request \<Rightarrow> ('w, exn, history_page) prog" where
  "get_provider_history py exists get reader k r =
     bindE (exists k) (\<lambda>found.
     thenE (require found MissionNotFoundError)
     (case reader of
        Some list_page \<Rightarrow> projected_history_page list_page k r
      | None \<Rightarrow>
          bindE (get k) (\<lambda>read.
            case read of
              None \<Rightarrow> raise AssertionError
            | Some m \<Rightarrow>
                thenE (require (\<not> foreign_cursor (mission_id m) (history_cursor r)) invalid_history_cursor)
                (canonical_history_page py m r))))"

section \<open>Increments\<close>

record increment_request =
  since_sequence :: int
  increment_limit :: int
  wait_timeout :: timedelta

definition make_increment_request :: "increment_request \<Rightarrow> exn + increment_request" where
  "make_increment_request r =
     (if 0 \<le> since_sequence r \<and> 1 \<le> increment_limit r \<and> increment_limit r \<le> 500
         \<and> \<not> wait_timeout r < 0 \<and> \<not> wait_timeout r > seconds 30 then Inr r else Inl ValidationError)"

record increment =
  increment_mission :: uuid
  increment_since :: int
  increment_latest :: int
  increment_more :: bool
  increment_items :: "history_item list"

fun strictly_after :: "int \<Rightarrow> history_item list \<Rightarrow> bool" where
  "strictly_after previous [] = True"
| "strictly_after previous (x # xs) \<longleftrightarrow> \<not> item_sequence x \<le> previous \<and> strictly_after (item_sequence x) xs"

definition make_increment :: "increment \<Rightarrow> exn + increment" where
  "make_increment p =
     (if \<not> increment_latest p < increment_since p \<and> strictly_after (increment_since p) (increment_items p)
         \<and> (if increment_items p \<noteq> [] then increment_latest p = item_sequence (last (increment_items p))
            else increment_latest p = increment_since p \<and> \<not> increment_more p)
      then Inr p else Inl ValidationError)"

record 'w history_source =
  history_exists :: "uuid \<Rightarrow> ('w, exn, bool) prog"
  history_get :: "uuid \<Rightarrow> ('w, exn, mission option) prog"
  history_since :: "(uuid \<Rightarrow> int \<Rightarrow> int \<Rightarrow> ('w, exn, projection_event list) prog) option"
  history_waiter :: "('w, exn) waiter"

definition increment_of :: "uuid \<Rightarrow> int \<Rightarrow> bool \<Rightarrow> history_item list \<Rightarrow> exn + increment" where
  "increment_of k since further items =
     make_increment \<lparr>increment_mission = k, increment_since = since,
       increment_latest = (if items = [] then since else item_sequence (last items)), increment_more = further, increment_items = items\<rparr>"

definition read_increment_once :: "coercions \<Rightarrow> 'w history_source \<Rightarrow> uuid \<Rightarrow> int \<Rightarrow> int \<Rightarrow> ('w, exn, increment) prog" where
  "read_increment_once py src k since limit =
     (case history_since src of
        Some list_since \<Rightarrow>
          bindE (list_since k since (limit + 1)) (\<lambda>fetched.
          bindE (mapE (\<lambda>p. liftE (projection_item p)) (first_n limit fetched)) (\<lambda>items.
          liftE (increment_of k since (int (length fetched) > limit) items)))
      | None \<Rightarrow>
          bindE (history_get src k) (\<lambda>found.
            case found of
              None \<Rightarrow> raise MissionNotFoundError
            | Some m \<Rightarrow>
                let candidates = first_n (limit + 1) (filter (\<lambda>e. \<not> event_sequence e \<le> since \<and> is_history_event e) (execution_log m)) in
                bindE (mapE (\<lambda>e. liftE (history_item_of py e)) (first_n limit candidates)) (\<lambda>items.
                liftE (increment_of (mission_id m) since (int (length candidates) > limit) items))))"

definition wait_for_increment ::
  "coercions \<Rightarrow> 'w history_source \<Rightarrow> timedelta \<Rightarrow> uuid \<Rightarrow> increment_request \<Rightarrow> nat \<Rightarrow> ('w, exn, increment option) prog" where
  "wait_for_increment py src poll k r fuel =
     bindE (history_exists src k) (\<lambda>found.
     thenE (require found MissionNotFoundError)
     (wait_until (history_waiter src) (read_increment_once py src k (since_sequence r) (increment_limit r))
        (\<lambda>p. increment_items p \<noteq> []) poll (wait_timeout r) fuel))"

end
