(* ===== verification/SqlMissions.thy ===== *)
theory SqlMissions
  imports MissionStore ProviderHistory Outbox
begin

text \<open>
  The mission repository in the database (\<open>app/repositories/sqlalchemy/mission.py\<close> on
  \<open>app/db/models/mission.py\<close>, \<open>mission_event.py\<close>, \<open>mission_execution_attempt.py\<close>) with the two projections it
  maintains (\<open>app/repositories/sqlalchemy/mission_event.py\<close>, \<open>provider_history.py\<close>) and the outbox it feeds.

  A table is the list of its rows. A row of \<open>missions\<close> keeps the scalar columns and the nested models as the
  values they are read back as; the log is the JSON that the event store writes. A session works on its
  tables; \<open>commit\<close> saves them and an exception that leaves the session rolls back to what was saved. Sessions
  run one after the other: the row locks of \<open>FOR UPDATE SKIP LOCKED\<close> are not modelled. Rows that an
  \<open>ORDER BY\<close> leaves equal come in the order of the table. Constraints are checked when the session flushes.
\<close>

section \<open>Rows\<close>

record event_codec =
  codec_coercions :: coercions
  codec_serializer :: event_serializer
  codec_drawn :: "nat \<Rightarrow> uuid \<times> uuid"

fun codec_exn :: "codec_error \<Rightarrow> exn" where
  "codec_exn (Unhandled e) = e"
| "codec_exn SerializationError = OtherError ''MissionEventSerializationError''"
| "codec_exn DeserializationError = OtherError ''MissionEventDeserializationError''"
| "codec_exn _ = OtherError ''MissionEventSchemaVersionError''"

definition store_serialize :: "event_codec \<Rightarrow> execution_event list \<Rightarrow> exn + raw_event list" where
  "store_serialize c es = map_sum codec_exn id (serialize_log (codec_coercions c) (codec_serializer c) es)"

definition store_deserialize :: "event_codec \<Rightarrow> uuid \<Rightarrow> raw_event list \<Rightarrow> int \<Rightarrow> exn + execution_event list" where
  "store_deserialize c k raws n =
     map_sum codec_exn id (deserialize_log (codec_coercions c) (codec_serializer c) (codec_drawn c) (Some k) raws n)"

record mission_row =
  row_columns :: mission
  row_log :: "raw_event list"
  row_created :: time

definition mission_to_model :: "event_codec \<Rightarrow> time \<Rightarrow> mission \<Rightarrow> exn + mission_row" where
  "mission_to_model c now m =
     (case validate_event_sequence (execution_log m) (last_event_sequence m) of
        Inl e \<Rightarrow> Inl e
      | Inr _ \<Rightarrow>
          if payload m = None then Inl AssertionError
          else map_sum id (\<lambda>raws. \<lparr>row_columns = m\<lparr>execution_log := [], persisted_last_event_sequence := 0\<rparr>,
                 row_log = raws, row_created = now\<rparr>) (store_serialize c (execution_log m)))"

definition payload_from_column :: "train_payload option \<Rightarrow> exn + train_payload" where
  "payload_from_column p =
     (case p of None \<Rightarrow> Inl ValidationError | Some x \<Rightarrow> make_train_payload (origin x) (destination x) (departure_date x))"

definition mission_from_model :: "event_codec \<Rightarrow> mission_row \<Rightarrow> exn + mission" where
  "mission_from_model c row =
     (let cols = row_columns row;
          limit = (if max_execution_attempts cols = 0 then 3 else max_execution_attempts cols)
      in case store_deserialize c (mission_id cols) (row_log row) (last_event_sequence cols) of
           Inl e \<Rightarrow> Inl e
         | Inr entries \<Rightarrow>
             (case payload_from_column (payload cols) of
                Inl e \<Rightarrow> Inl e
              | Inr p \<Rightarrow>
                  let read = cols\<lparr>legacy_type := TrainTicket, payload := Some p,
                        max_execution_attempts := max limit (execution_attempts cols), execution_log := entries\<rparr>
                  in if status cols = Processing \<and> claimed_at cols = None then Inr (mark_event_sequence_persisted read)
                     else make_mission read (map_option Aware (scheduled_at cols)) (map_option Aware (expires_at cols))
                            (map_option Aware (claimed_at cols))))"

record event_row =
  event_row_mission :: uuid
  event_row_sequence :: int
  event_row_id :: uuid
  event_row_type :: string
  event_row_time :: time
  event_row_raw :: raw_event

section \<open>Tables and sessions\<close>

record mission_db =
  mission_table :: "mission_row list"
  attempt_table :: "attempt list"
  event_table :: "event_row list"
  provider_table :: history_table
  outbox_table :: outbox
  db_clock :: time
  db_fresh :: "nat \<Rightarrow> uuid"
  db_tick :: nat

definition row_id :: "mission_row \<Rightarrow> uuid" where
  "row_id row = mission_id (row_columns row)"

definition mission_row_of :: "uuid \<Rightarrow> mission_db \<Rightarrow> mission_row option" where
  "mission_row_of k db = find (\<lambda>row. row_id row = k) (mission_table db)"

text \<open>The keys, the unique and partial unique indices, the check and the foreign keys of the tables.\<close>

definition open_attempts :: "mission_db \<Rightarrow> attempt list" where
  "open_attempts db = filter (\<lambda>a. attempt_status a = AttemptProcessing) (attempt_table db)"

definition constraints_hold :: "mission_db \<Rightarrow> bool" where
  "constraints_hold db \<longleftrightarrow>
     distinct (map row_id (mission_table db))
     \<and> distinct (map attempt_id (attempt_table db))
     \<and> distinct (map (\<lambda>a. (attempt_mission_id a, attempt_number a)) (attempt_table db))
     \<and> distinct (map attempt_mission_id (open_attempts db))
     \<and> distinct (map (\<lambda>r. (event_row_mission r, event_row_sequence r)) (event_table db))
     \<and> distinct (map event_row_id (event_table db))
     \<and> distinct (map (\<lambda>r. (row_mission r, row_sequence r)) (provider_table db))
     \<and> list_all (\<lambda>r. history_type_of (row_type r) \<noteq> None) (provider_table db)
     \<and> distinct (map message_id (outbox_table db)) \<and> distinct (map message_event (outbox_table db))
     \<and> (let ks = set (map row_id (mission_table db)) in
          attempt_mission_id ` set (attempt_table db) \<subseteq> ks \<and> event_row_mission ` set (event_table db) \<subseteq> ks
          \<and> row_mission ` set (provider_table db) \<subseteq> ks \<and> message_mission ` set (outbox_table db) \<subseteq> ks)"

definition flush :: "(mission_db, exn, unit) prog" where
  "flush = bindE (gets constraints_hold) (\<lambda>ok. require ok (OtherError ''IntegrityError''))"

definition db_uuid :: "(mission_db, exn, uuid) prog" where
  "db_uuid = bindE (gets (\<lambda>db. db_fresh db (db_tick db))) (\<lambda>i. thenE (modify (\<lambda>db. db\<lparr>db_tick := Suc (db_tick db)\<rparr>)) (ret i))"

record sql_session =
  tables :: mission_db
  saved :: mission_db

definition on_tables :: "(mission_db, exn, 'a) prog \<Rightarrow> (sql_session, exn, 'a) prog" where
  "on_tables p s = (case p (tables s) of (r, db) \<Rightarrow> (r, s\<lparr>tables := db\<rparr>))"

definition commit :: "(sql_session, exn, unit) prog" where
  "commit = modify (\<lambda>s. s\<lparr>saved := tables s\<rparr>)"

definition rollback :: "(sql_session, exn, unit) prog" where
  "rollback = modify (\<lambda>s. s\<lparr>tables := saved s\<rparr>)"

definition db_session :: "(sql_session, exn, 'a) prog \<Rightarrow> (sql_session, exn, 'a) prog" where
  "db_session p = tryElse p (\<lambda>e. thenE rollback (raise e)) (\<lambda>r. thenE commit (ret r))"

section \<open>Projections\<close>

definition event_row_of :: "event_codec \<Rightarrow> uuid \<Rightarrow> execution_event \<Rightarrow> exn + event_row" where
  "event_row_of c k e =
     map_sum id (\<lambda>raws. \<lparr>event_row_mission = k, event_row_sequence = event_sequence e, event_row_id = event_id e,
       event_row_type = event_type e, event_row_time = instant (event_timestamp e), event_row_raw = hd raws\<rparr>) (store_serialize c [e])"

definition append_events :: "event_codec \<Rightarrow> uuid \<Rightarrow> execution_event list \<Rightarrow> (mission_db, exn, unit) prog" where
  "append_events c k es =
     bindE (mapE (\<lambda>e. liftE (event_row_of c k e)) es) (\<lambda>rows. modify (\<lambda>db. db\<lparr>event_table := event_table db @ rows\<rparr>))"

definition list_after :: "event_codec \<Rightarrow> uuid \<Rightarrow> int \<Rightarrow> int \<Rightarrow> (mission_db, exn, execution_event list) prog" where
  "list_after c k after fetch_limit =
     bindE (gets (\<lambda>db. first_n fetch_limit (sort_key event_row_sequence
         (filter (\<lambda>r. event_row_sequence r > after) (filter (\<lambda>r. event_row_mission r = k) (event_table db)))))) (\<lambda>rows.
     mapE (\<lambda>r. liftE (map_sum id hd (store_deserialize c k [event_row_raw r] (event_row_sequence r)))) rows)"

definition list_all_events :: "event_codec \<Rightarrow> uuid \<Rightarrow> (mission_db, exn, execution_event list) prog" where
  "list_all_events c k = list_after c k 0 2147483647"

definition notification_event_types :: "string set" where
  "notification_event_types =
     {''mission_cancelled'', ''mission_completed'', ''mission_expired'', ''mission_failed'', ''waiting_for_user_confirmation''}"

definition outbox_entry :: "mission \<Rightarrow> execution_event \<Rightarrow> raw_event \<Rightarrow> uuid \<Rightarrow> outbox_message" where
  "outbox_entry m e raw i =
     \<lparr>message_id = i, message_mission = mission_id m, message_event = event_id e, message_event_type = event_type e,
      occurred_at = instant (event_timestamp e), message_payload = raw, recipient_ids = participant_ids m,
      outbox_status = OutPending, delivery_attempts = 0, available_at = instant (event_timestamp e),
      message_claimed_at = None, message_delivered_at = None, last_error = None\<rparr>"

definition notify_event :: "event_codec \<Rightarrow> mission \<Rightarrow> execution_event \<Rightarrow> (mission_db, exn, unit) prog" where
  "notify_event c m e =
     (if event_type e \<notin> notification_event_types then ret ()
      else bindE db_uuid (\<lambda>i. bindE (liftE (store_serialize c [e])) (\<lambda>raws.
        modify (\<lambda>db. db\<lparr>outbox_table := outbox_table db @ [outbox_entry m e (hd raws) i]\<rparr>))))"

definition append_mission_events :: "event_codec \<Rightarrow> mission \<Rightarrow> int \<Rightarrow> (mission_db, exn, unit) prog" where
  "append_mission_events c m previous =
     (let es = logged_after (execution_log m) previous in
      if es = [] then ret () else thenE (append_events c (mission_id m) es) (forE es (notify_event c m)))"

definition append_provider_history_events :: "event_codec \<Rightarrow> mission \<Rightarrow> int \<Rightarrow> (mission_db, exn, unit) prog" where
  "append_provider_history_events c m previous db =
     (case store_history (codec_coercions c) m previous (provider_table db) of
        (r, table) \<Rightarrow> (r, db\<lparr>provider_table := table\<rparr>))"

section \<open>Creating and updating\<close>

definition sql_create :: "event_codec \<Rightarrow> mission \<Rightarrow> (mission_db, exn, mission) prog" where
  "sql_create c m =
     bindE (gets db_clock) (\<lambda>now.
     bindE (liftE (mission_to_model c now m)) (\<lambda>row.
     thenE (modify (\<lambda>db. db\<lparr>mission_table := mission_table db @ [row]\<rparr>))
     (thenE (append_mission_events c m 0)
     (thenE (append_provider_history_events c m 0)
     (thenE flush (liftE (mission_from_model c row)))))))"

definition change_attempts :: "(attempt \<Rightarrow> bool) \<Rightarrow> (attempt \<Rightarrow> attempt) \<Rightarrow> mission_db \<Rightarrow> mission_db" where
  "change_attempts p f db = db\<lparr>attempt_table := map (\<lambda>a. if p a then f a else a) (attempt_table db)\<rparr>"

definition is_open_of :: "mission \<Rightarrow> attempt \<Rightarrow> bool" where
  "is_open_of m a \<longleftrightarrow> attempt_mission_id a = mission_id m \<and> attempt_status a = AttemptProcessing"

definition close_open_attempt :: "mission \<Rightarrow> datetime \<Rightarrow> attempt_status \<Rightarrow> mission_db \<Rightarrow> mission_db" where
  "close_open_attempt m finished st =
     change_attempts (is_open_of m) (\<lambda>a. a\<lparr>attempt_status := st, attempt_finished_at := Some finished,
       attempt_resolved_provider_id := resolved_provider_id m, attempt_reservation_id := reservation_id m\<rparr>)"

definition synchronize_open_attempt :: "mission \<Rightarrow> (mission_db, exn, unit) prog" where
  "synchronize_open_attempt m =
     (if status m = Processing then
        (if resolved_provider_id m \<noteq> None
         then modify (change_attempts (is_open_of m) (\<lambda>a. a\<lparr>attempt_resolved_provider_id := resolved_provider_id m\<rparr>))
         else ret ())
      else (case attempt_status_of (status m) of
              None \<Rightarrow> ret ()
            | Some st \<Rightarrow>
                bindE (gets (\<lambda>db. list_ex (is_open_of m) (attempt_table db))) (\<lambda>open.
                if \<not> open then ret ()
                else bindE (liftE (mission_event_time m)) (\<lambda>finished. modify (close_open_attempt m finished st)))))"

definition is_version_of :: "mission \<Rightarrow> mission_row \<Rightarrow> bool" where
  "is_version_of m row \<longleftrightarrow> row_id row = mission_id m \<and> last_event_sequence (row_columns row) = persisted_last_event_sequence m"

definition sql_update :: "event_codec \<Rightarrow> mission \<Rightarrow> (mission_db, exn, mission) prog" where
  "sql_update c m =
     bindE (liftE (mission_to_model c 0 m)) (\<lambda>new.
     bindE (gets (\<lambda>db. length (filter (is_version_of m) (mission_table db)))) (\<lambda>rowcount.
     if rowcount = 0 then
       bindE (gets (mission_row_of (mission_id m))) (\<lambda>existing.
         raise (OtherError (if existing = None then ''RepositoryEntityNotFoundError'' else ''MissionEventSequenceConflictError'')))
     else
       thenE (modify (\<lambda>db. db\<lparr>mission_table :=
         map (\<lambda>row. if is_version_of m row then new\<lparr>row_created := row_created row\<rparr> else row) (mission_table db)\<rparr>))
       (thenE flush
       (thenE (synchronize_open_attempt m)
       (thenE flush
       (thenE (append_provider_history_events c m (persisted_last_event_sequence m))
       (thenE (append_mission_events c m (persisted_last_event_sequence m))
       (thenE flush (ret (mark_event_sequence_persisted m))))))))))"

section \<open>Queries\<close>

definition rows_to_missions :: "event_codec \<Rightarrow> mission_row list \<Rightarrow> ('s, exn, mission list) prog" where
  "rows_to_missions c rows = mapE (\<lambda>row. liftE (mission_from_model c row)) rows"

text \<open>The rows that satisfy a condition on their columns, in the order of a time, up to a limit.\<close>

definition select_rows :: "(mission \<Rightarrow> bool) \<Rightarrow> (mission \<Rightarrow> time option) \<Rightarrow> int \<Rightarrow> mission_db \<Rightarrow> mission_row list" where
  "select_rows p f limit db =
     first_n limit (sort_key (\<lambda>row. time_or 0 (f (row_columns row))) (filter (\<lambda>row. p (row_columns row)) (mission_table db)))"

definition sql_list_due :: "event_codec \<Rightarrow> datetime \<Rightarrow> int \<Rightarrow> (mission_db, exn, mission list) prog" where
  "sql_list_due c t limit =
     bindE (liftE (validate_list_due_arguments t limit)) (\<lambda>_.
     bindE (gets (select_rows (is_due (instant t)) scheduled_at limit)) (rows_to_missions c))"

definition sql_list_stale_processing :: "event_codec \<Rightarrow> datetime \<Rightarrow> timedelta \<Rightarrow> int \<Rightarrow> (mission_db, exn, mission list) prog" where
  "sql_list_stale_processing c t claim_timeout limit =
     bindE (liftE (validate_stale_processing_arguments t claim_timeout limit)) (\<lambda>_.
     bindE (gets (select_rows (is_stale (instant t - claim_timeout)) claimed_at limit)) (rows_to_missions c))"

definition row_matches :: "mission_status option \<Rightarrow> mission_type option \<Rightarrow> mission_row \<Rightarrow> bool" where
  "row_matches st mt row \<longleftrightarrow> (case st of None \<Rightarrow> True | Some x \<Rightarrow> status (row_columns row) = x)
     \<and> (case mt of None \<Rightarrow> True | Some x \<Rightarrow> mission_type (row_columns row) = x)"

definition oldest_first :: "mission_status option \<Rightarrow> mission_type option \<Rightarrow> int \<Rightarrow> mission_db \<Rightarrow> mission_row list" where
  "oldest_first st mt limit db =
     first_n limit (sort_key (\<lambda>row. (row_created row, row_id row)) (filter (row_matches st mt) (mission_table db)))"

definition row_summary :: "mission_row \<Rightarrow> mission_summary" where
  "row_summary row = (let cols = row_columns row in
     \<lparr>summary_id = mission_id cols, summary_type = mission_type cols, summary_title = title cols, summary_status = status cols,
      summary_execution_mode = execution_mode cols, summary_provider_id = provider_id cols,
      summary_resolved_provider_id = resolved_provider_id cols, summary_scheduled_at = scheduled_at cols,
      summary_expires_at = expires_at cols, summary_execution_attempts = execution_attempts cols,
      summary_max_execution_attempts = max_execution_attempts cols, summary_last_event_sequence = last_event_sequence cols,
      summary_participant_count = int (length (participant_ids cols))\<rparr>)"

definition sql_list :: "event_codec \<Rightarrow> mission_status option \<Rightarrow> mission_type option \<Rightarrow> int \<Rightarrow> (mission_db, exn, mission list) prog" where
  "sql_list c st mt limit = thenE (require_limit limit) (bindE (gets (oldest_first st mt limit)) (rows_to_missions c))"

definition sql_list_summaries :: "mission_status option \<Rightarrow> mission_type option \<Rightarrow> int \<Rightarrow> (mission_db, exn, mission_summary list) prog" where
  "sql_list_summaries st mt limit =
     thenE (require_limit limit) (bindE (gets (oldest_first st mt limit)) (\<lambda>rows. ret (map row_summary rows)))"

definition sql_list_summary_page_candidates ::
  "mission_status option \<Rightarrow> mission_type option \<Rightarrow> uuid option \<Rightarrow> int \<Rightarrow> (mission_db, exn, mission_summary list) prog" where
  "sql_list_summary_page_candidates st mt cursor limit =
     thenE (require_limit limit)
     (gets (\<lambda>db. map row_summary (first_n limit (sort_key row_id
        (filter (\<lambda>row. row_matches st mt row \<and> (case cursor of None \<Rightarrow> True | Some k \<Rightarrow> row_id row > k)) (mission_table db))))))"

definition count_rows :: "(mission \<Rightarrow> bool) \<Rightarrow> mission_db \<Rightarrow> int" where
  "count_rows p db = int (length (filter (\<lambda>row. p (row_columns row)) (mission_table db)))"

definition sql_get_statistics :: "datetime \<Rightarrow> timedelta \<Rightarrow> (mission_db, exn, mission_statistics) prog" where
  "sql_get_statistics t claim_timeout =
     bindE (liftE (validate_stale_processing_arguments t claim_timeout 1)) (\<lambda>_.
     bindE (gets (\<lambda>db.
       \<lparr>generated_at = t, total_missions = int (length (mission_table db)),
        missions_by_status = filter (\<lambda>(_, n). n > 0) (map (\<lambda>st. (st, count_rows (\<lambda>m. status m = st) db)) all_statuses),
        due_count = count_rows (is_due (instant t)) db, expired_pending_count = count_rows (is_expirable (instant t)) db,
        stale_processing_count = count_rows (is_stale (instant t - claim_timeout)) db,
        exhausted_waiting_count = count_rows (\<lambda>m. status m = Waiting \<and> has_exhausted_attempts m) db,
        claim_timeout_seconds = claim_timeout div 1000000\<rparr>)) (\<lambda>r.
     if claim_timeout_seconds r < 1 then raise ValidationError else ret r))"

definition sql_get :: "event_codec \<Rightarrow> uuid \<Rightarrow> (mission_db, exn, mission option) prog" where
  "sql_get c k =
     bindE (gets (mission_row_of k)) (\<lambda>found.
       case found of None \<Rightarrow> ret None | Some row \<Rightarrow> bindE (liftE (mission_from_model c row)) (\<lambda>m. ret (Some m)))"

definition sql_exists :: "uuid \<Rightarrow> (mission_db, exn, bool) prog" where
  "sql_exists k = gets (\<lambda>db. mission_row_of k db \<noteq> None)"

definition sql_references_identity :: "uuid \<Rightarrow> (mission_db, exn, bool) prog" where
  "sql_references_identity i = gets (\<lambda>db. \<exists>row \<in> set (mission_table db). i \<in> set (participant_ids (row_columns row)))"

definition attempt_from_model :: "attempt \<Rightarrow> exn + attempt" where
  "attempt_from_model a = make_attempt a"

definition sql_list_execution_attempts :: "uuid \<Rightarrow> (mission_db, exn, attempt list) prog" where
  "sql_list_execution_attempts k =
     bindE (gets (\<lambda>db. sort_key attempt_number (filter (\<lambda>a. attempt_mission_id a = k) (attempt_table db)))) (\<lambda>rows.
     mapE (\<lambda>a. liftE (attempt_from_model a)) rows)"

definition sql_clear :: "(mission_db, exn, unit) prog" where
  "sql_clear = thenE (modify (\<lambda>db. db\<lparr>mission_table := [], attempt_table := [], event_table := [], provider_table := [],
     outbox_table := []\<rparr>)) flush"

section \<open>Claiming, expiring, recovering\<close>

definition change_row :: "uuid \<Rightarrow> (mission_row \<Rightarrow> mission_row) \<Rightarrow> mission_db \<Rightarrow> mission_db" where
  "change_row k f db = db\<lparr>mission_table := map (\<lambda>row. if row_id row = k then f row else row) (mission_table db)\<rparr>"

definition claim_columns :: "time \<Rightarrow> mission_row \<Rightarrow> mission_row" where
  "claim_columns now row =
     row\<lparr>row_columns := (row_columns row)\<lparr>status := Processing, claimed_at := Some now,
       execution_attempts := execution_attempts (row_columns row) + 1\<rparr>\<rparr>"

definition sql_claim_one :: "datetime \<Rightarrow> mission_row \<Rightarrow> (mission_db, exn, mission_row) prog" where
  "sql_claim_one t row =
     (let new = claim_columns (instant t) row in
      thenE (modify (change_row (row_id row) (claim_columns (instant t))))
      (bindE db_uuid (\<lambda>i.
       thenE (modify (\<lambda>db. db\<lparr>attempt_table := attempt_table db @
         [\<lparr>attempt_id = i, attempt_mission_id = row_id new, attempt_number = execution_attempts (row_columns new),
           attempt_status = AttemptProcessing, attempt_claimed_at = t, attempt_finished_at = None,
           attempt_resolved_provider_id = None, attempt_reservation_id = None\<rparr>]\<rparr>)) (ret new))))"

definition sql_claim_due :: "event_codec \<Rightarrow> datetime \<Rightarrow> int \<Rightarrow> (sql_session, exn, mission list) prog" where
  "sql_claim_due c t limit =
     bindE (liftE (validate_list_due_arguments t limit)) (\<lambda>_.
     bindE (on_tables (bindE (gets (select_rows (is_due (instant t)) scheduled_at limit)) (\<lambda>due.
              bindE (mapE (sql_claim_one t) due) (\<lambda>claimed. thenE flush (ret claimed))))) (\<lambda>claimed.
     thenE commit (rows_to_missions c claimed)))"

definition store_outcome :: "event_codec \<Rightarrow> mission \<Rightarrow> bool \<Rightarrow> (mission_db, exn, unit) prog" where
  "store_outcome c m with_claim =
     bindE (liftE (store_serialize c (execution_log m))) (\<lambda>raws.
     modify (change_row (mission_id m) (\<lambda>row.
       row\<lparr>row_columns := (row_columns row)\<lparr>status := status m, last_event_sequence := last_event_sequence m,
         claimed_at := (if with_claim then claimed_at m else claimed_at (row_columns row))\<rparr>, row_log := raws\<rparr>)))"

definition sql_expire_one :: "event_codec \<Rightarrow> datetime \<Rightarrow> mission_row \<Rightarrow> (mission_db, exn, mission) prog" where
  "sql_expire_one c t row =
     bindE (liftE (mission_from_model c row)) (\<lambda>m.
     bindE (liftE (transition m Expired None False False)) (\<lambda>expired.
     thenE (require (expires_at expired \<noteq> None) AssertionError)
     (bindE db_uuid (\<lambda>i.
      bindE (liftE (record_event i t ''mission_expired'' ''Mission expired before execution.''
               [(''expires_at'', json_of_option (\<lambda>x. JTime (Aware x)) (expires_at expired)),
                (''previous_status'', JStr (status_value (status m)))] expired)) (\<lambda>m'.
      thenE (store_outcome c m' False)
      (thenE (append_mission_events c m' (last_event_sequence m)) (ret (mark_event_sequence_persisted m'))))))))"

definition sql_expire_due :: "event_codec \<Rightarrow> datetime \<Rightarrow> int \<Rightarrow> (sql_session, exn, mission list) prog" where
  "sql_expire_due c t limit =
     bindE (liftE (validate_list_due_arguments t limit)) (\<lambda>_.
     bindE (on_tables (bindE (gets (select_rows (is_expirable (instant t)) expires_at limit)) (\<lambda>rows.
              bindE (mapE (sql_expire_one c t) rows) (\<lambda>expired. thenE flush (ret expired))))) (\<lambda>expired.
     thenE commit (ret expired)))"

definition sql_recover_one :: "event_codec \<Rightarrow> datetime \<Rightarrow> mission_row \<Rightarrow> (mission_db, exn, mission) prog" where
  "sql_recover_one c t row =
     bindE (liftE (mission_from_model c row)) (\<lambda>m.
     bindE db_uuid (\<lambda>i.
     bindE (liftE (recover_stale i m t)) (\<lambda>m'.
     thenE (store_outcome c m' True)
     (thenE (modify (close_open_attempt m' t (if status m' = Failed then AttemptFailed else AttemptRecovered))) (ret m')))))"

definition sql_recover_stale_processing :: "event_codec \<Rightarrow> datetime \<Rightarrow> timedelta \<Rightarrow> int \<Rightarrow> (sql_session, exn, mission list) prog" where
  "sql_recover_stale_processing c t claim_timeout limit =
     bindE (liftE (validate_stale_processing_arguments t claim_timeout limit)) (\<lambda>_.
     bindE (on_tables (bindE (gets (select_rows (is_stale (instant t - claim_timeout)) claimed_at limit)) (\<lambda>rows.
              bindE (mapE (sql_recover_one c t) rows) (\<lambda>recovered. thenE flush (ret recovered))))) (\<lambda>recovered.
     thenE commit (ret recovered)))"

end
