(* ===== verification/ProviderHistoryContracts.thy ===== *)
theory ProviderHistoryContracts
  imports ProviderHistory
begin

text \<open>
  The projection of provider events refines the log: storing a mission keeps the table in step with the
  log, and what a reader gets from the table, pages and increments, is what the log itself gives. The
  pages of a history are complete.
\<close>

section \<open>Sorting images\<close>

lemma sort_key_map: "sort_key k (map f xs) = map f (sort_key (\<lambda>x. k (f x)) xs)"
proof -
  have "insort_key k (f x) (map f ys) = map f (insort_key (\<lambda>x. k (f x)) x ys)" for x ys
    by (induction ys) simp_all
  then show ?thesis by (induction xs) simp_all
qed

lemma sort_key_cong_set: "(\<And>x. x \<in> set xs \<Longrightarrow> f x = g x) \<Longrightarrow> sort_key f xs = sort_key g xs"
proof (induction xs)
  case (Cons x xs)
  have "insort_key f x ys = insort_key g x ys" if "\<forall>y \<in> set ys. f y = g y" for ys
    using that Cons.prems by (induction ys) simp_all
  then show ?case using Cons by simp
qed simp

lemma sort_key_sorted: "sorted (map k xs) \<Longrightarrow> sort_key k xs = xs"
  by (induction xs) (auto simp: insort_is_Cons)

lemma first_n_map: "first_n n (map f xs) = map f (first_n n xs)"
  by (simp add: first_n_def take_map)

lemma mapE_all:
  "(\<And>x. x \<in> set xs \<Longrightarrow> f x = ret (g x)) \<Longrightarrow> mapE f xs = ret (map g xs)"
  by (induction xs) (simp_all add: bindE_def ret_def fun_eq_iff)

lemma mapE_map: "mapE f (map g xs) = mapE (\<lambda>x. f (g x)) xs"
  by (induction xs) simp_all

lemma mapE_cong: "(\<And>x. x \<in> set xs \<Longrightarrow> f x = g x) \<Longrightarrow> mapE f xs = mapE g xs"
  by (induction xs) simp_all

lemma liftE_Inr: "liftE (Inr x) = ret x"
  by (simp add: liftE_def ret_def fun_eq_iff)

lemma bindE_ret: "bindE (ret x) f = f x"
  by (simp add: bindE_def ret_def fun_eq_iff)

section \<open>Events and their rows\<close>

lemma history_type_of_value [simp]: "history_type_of (history_type_value t) = Some t"
  by (cases t) (simp_all add: history_type_of_def)

definition readable :: "coercions \<Rightarrow> nat \<times> execution_event \<Rightarrow> bool" where
  "readable py ie \<longleftrightarrow> \<not> is_history_event (snd ie) \<or> (\<exists>item. history_item_of py (snd ie) = Inr item)"

definition the_item :: "coercions \<Rightarrow> execution_event \<Rightarrow> history_item" where
  "the_item py e = (case history_item_of py e of Inr item \<Rightarrow> item)"

definition projection :: "coercions \<Rightarrow> uuid \<Rightarrow> nat \<times> execution_event \<Rightarrow> projection_event" where
  "projection py k ie = (let item = the_item py (snd ie) in
     \<lparr>projected_mission = k, projected_sequence = item_sequence item, projected_type = item_type item,
      projected_time = item_time item, projected_payload = item_payload item, projected_index = fst ie\<rparr>)"

lemma history_item_cases:
  assumes "history_item_of py e = Inr item"
  obtains ty p where "history_type_of (event_type e) = Some ty" and "read_history_payload py ty (event_metadata e) = Inr p"
    and "item = \<lparr>item_sequence = event_sequence e, item_type = ty, item_time = event_timestamp e, item_payload = p\<rparr>"
    and "1 \<le> event_sequence e" and "payload_matches ty p"
  using assms by (auto simp: history_item_of_def make_history_item_def split: option.splits sum.splits if_splits)

lemma payload_read_again:
  assumes "canonical py" and "read_history_payload py ty d = Inr p"
  shows "read_history_payload py ty (dump_history_payload p) = Inr p"
  using assms(2) read_selection_dump [OF assms(1)] read_resolved_dump [OF assms(1)] read_failed_dump [OF assms(1)]
  by (cases ty) (auto simp: map_sum_Inr)

lemma project_event_readable:
  "readable py ie \<Longrightarrow> project_event py k (fst ie) (snd ie) = Inr (if is_history_event (snd ie) then Some (projection py k ie) else None)"
  by (auto simp: project_event_def readable_def projection_def the_item_def Let_def)

lemma row_read_back:
  assumes "canonical py" and "readable py ie" and "is_history_event (snd ie)" and "aware_event ie"
  shows "projection_from_row py (history_row_of (projection py k ie)) = Inr (projection py k ie)"
    and "projection_item (projection py k ie) = history_item_of py (snd ie)"
    and "row_mission (history_row_of (projection py k ie)) = k"
    and "(row_time (history_row_of (projection py k ie)), row_index (history_row_of (projection py k ie))) = history_key ie"
    and "row_sequence (history_row_of (projection py k ie)) = event_sequence (snd ie)"
    and "projected_time (projection py k ie) = event_timestamp (snd ie)" and "projected_index (projection py k ie) = fst ie"
proof -
  obtain item where item: "history_item_of py (snd ie) = Inr item" using assms(2,3) by (auto simp: readable_def)
  from item obtain ty p where ty: "history_type_of (event_type (snd ie)) = Some ty"
    and p: "read_history_payload py ty (event_metadata (snd ie)) = Inr p"
    and i: "item = \<lparr>item_sequence = event_sequence (snd ie), item_type = ty, item_time = event_timestamp (snd ie), item_payload = p\<rparr>"
    and n: "1 \<le> event_sequence (snd ie)" and m: "payload_matches ty p"
    by (rule history_item_cases)
  have proj: "projection py k ie = \<lparr>projected_mission = k, projected_sequence = event_sequence (snd ie), projected_type = ty,
      projected_time = event_timestamp (snd ie), projected_payload = p, projected_index = fst ie\<rparr>"
    by (simp add: projection_def the_item_def item i)
  have aware: "Aware (instant (event_timestamp (snd ie))) = event_timestamp (snd ie)"
    using assms(4) by (cases "event_timestamp (snd ie)") (simp_all add: aware_event_def)
  show "projection_from_row py (history_row_of (projection py k ie)) = Inr (projection py k ie)"
    using payload_read_again [OF assms(1) p] n aware by (simp add: projection_from_row_def history_row_of_def proj)
  show "projection_item (projection py k ie) = history_item_of py (snd ie)"
    using n m by (simp add: projection_item_def proj item i make_history_item_def)
  show "row_mission (history_row_of (projection py k ie)) = k"
    and "(row_time (history_row_of (projection py k ie)), row_index (history_row_of (projection py k ie))) = history_key ie"
    and "row_sequence (history_row_of (projection py k ie)) = event_sequence (snd ie)"
    and "projected_time (projection py k ie) = event_timestamp (snd ie)" and "projected_index (projection py k ie) = fst ie"
    by (simp_all add: history_row_of_def proj history_key_def)
qed

section \<open>The table follows the log\<close>

definition projections :: "coercions \<Rightarrow> uuid \<Rightarrow> (nat \<times> execution_event) list \<Rightarrow> projection_event list" where
  "projections py k ies = map (projection py k) (filter (\<lambda>ie. is_history_event (snd ie)) ies)"

lemma project_indexed_readable:
  assumes "list_all (readable py) ies"
  shows "project_indexed py k ies = ret (projections py k ies)"
proof -
  let ?g = "\<lambda>ie. if is_history_event (snd ie) then Some (projection py k ie) else None"
  have found: "List.map_filter id (map ?g ies) = projections py k ies"
    by (induction ies) (simp_all add: projections_def)
  show ?thesis unfolding project_indexed_def
    by (subst mapE_all [where g = ?g]) (use assms in \<open>simp_all add: list_all_iff project_event_readable liftE_Inr bindE_ret found\<close>)
qed

lemma enumerated: "ie \<in> set (enumerate n xs) \<Longrightarrow> snd ie \<in> set xs"
  by (cases ie) (auto simp: enumerate_eq_zip dest: set_zip_rightD)

text \<open>The rows of a mission are those of the provider events of its log, in the order of the log.\<close>

definition synced :: "coercions \<Rightarrow> uuid \<Rightarrow> execution_event list \<Rightarrow> history_table \<Rightarrow> bool" where
  "synced py k entries table \<longleftrightarrow> list_all (readable py) (enumerate 0 entries)
     \<and> filter (\<lambda>r. row_mission r = k) table = map history_row_of (projections py k (enumerate 0 entries))"

lemma indexed_after_new:
  assumes "\<forall>e \<in> set old. event_sequence e \<le> n" and "\<forall>e \<in> set new. n < event_sequence e"
  shows "indexed_after (old @ new) n = enumerate (length old) new"
proof -
  have "filter (\<lambda>(i, e). n < event_sequence e) (enumerate 0 old) = []"
    using assms(1) by (fastforce simp: filter_empty_conv dest: enumerated)
  moreover have "filter (\<lambda>(i, e). n < event_sequence e) (enumerate (length old) new) = enumerate (length old) new"
    using assms(2) by (fastforce simp: filter_id_conv dest: enumerated)
  ultimately show ?thesis by (simp add: indexed_after_def enumerate_append_eq)
qed

lemma projections_rows: "filter (\<lambda>r. row_mission r = k) (map history_row_of (projections py k' ies)) =
    (if k = k' then map history_row_of (projections py k' ies) else [])"
  by (auto simp: projections_def history_row_of_def projection_def Let_def filter_map comp_def filter_empty_conv)

section \<open>A mission whose provider was resolved twice\<close>

definition resolved_event :: "int \<Rightarrow> int \<Rightarrow> execution_event" where
  "resolved_event n t = stored_event\<lparr>event_sequence := n, event_timestamp := Aware t\<rparr>"

definition resolved_item :: "int \<Rightarrow> int \<Rightarrow> history_item" where
  "resolved_item n t = \<lparr>item_sequence = n, item_type = ProviderResolved, item_time = Aware t,
     item_payload = ResolvedPayload \<lparr>resolved_payload_provider = ''mock'', resolved_payload_type = TrainTicket, resolved_payload_mode = Automatic, resolved_payload_snapshot = None\<rparr>\<rparr>"

lemma resolved_read: "1 \<le> n \<Longrightarrow> history_item_of plain_coercions (resolved_event n t) = Inr (resolved_item n t)"
  by (simp add: history_item_of_def make_history_item_def resolved_item_def history_type_of_def resolved_event_def stored_event_def
      read_resolved_def required_def defaulted_def plain_coercions_def read_mission_type_def read_mode_def read_enum_def
      mission_type_value_def make_resolved_payload_def normalize_provider_id_def py_strip_def is_space_def)

lemma resolved_is_history: "is_history_event (resolved_event n t)"
  by (simp add: is_history_event_def history_type_of_def resolved_event_def stored_event_def)

lemma resolved_readable: "1 \<le> n \<Longrightarrow> readable plain_coercions (i, resolved_event n t)"
  by (simp add: readable_def resolved_read)

lemma resolved_aware: "aware_event (i, resolved_event n t)"
  by (simp add: aware_event_def resolved_event_def)

definition resolved_twice :: mission where
  "resolved_twice = (sample_mission Created)\<lparr>execution_log := [resolved_event 1 5] @ [resolved_event 2 3]\<rparr>"

lemma resolved_history: "history_events (execution_log resolved_twice) = [(0, resolved_event 1 5), (1, resolved_event 2 3)]"
  by (simp add: history_events_def resolved_twice_def resolved_is_history)

definition resolved_table :: history_table where
  "resolved_table = map (\<lambda>ie. history_row_of (projection plain_coercions 7 ie)) [(0, resolved_event 1 5), (1, resolved_event 2 3)]"

lemma resolved_synced: "synced plain_coercions 7 (execution_log resolved_twice) resolved_table"
  by (simp add: synced_def resolved_twice_def resolved_table_def resolved_readable resolved_is_history projections_def
      history_row_of_def projection_def Let_def)

text \<open>Storing a mission keeps the projection in step with its log: when the log has grown by events after the
  sequence number that was stored last, the table gets exactly the rows of the new provider events, each
  at its place in the log, and the rows of other missions do not change.\<close>

lemma store_history_follows:
  assumes "synced py (mission_id m) old table" and "execution_log m = old @ new"
    and "\<forall>e \<in> set old. event_sequence e \<le> previous" and "\<forall>e \<in> set new. previous < event_sequence e"
    and "list_all (\<lambda>e. readable py (0, e)) new"
  shows "\<exists>table'. store_history py m previous table = (Inr (), table') \<and> synced py (mission_id m) (execution_log m) table'
     \<and> (\<forall>k. k \<noteq> mission_id m \<longrightarrow> filter (\<lambda>r. row_mission r = k) table' = filter (\<lambda>r. row_mission r = k) table)"
proof -
  let ?k = "mission_id m" and ?new = "enumerate (length old) new"
  let ?ps = "projections py ?k ?new"
  have new: "list_all (readable py) ?new"
    using assms(5) by (auto simp: list_all_iff readable_def dest!: enumerated)
  have "store_history py m previous table = (Inr (), append_history ?ps table)"
    unfolding store_history_def assms(2) indexed_after_new [OF assms(3,4)] project_indexed_readable [OF new] bindE_ret
    by (simp add: ret_def modify_def append_history_def)
  moreover have "synced py ?k (old @ new) (append_history ?ps table)"
    using assms(1) new by (simp add: synced_def append_history_def projections_rows enumerate_append_eq) (simp add: projections_def)
  moreover have "filter (\<lambda>r. row_mission r = k) (append_history ?ps table) = filter (\<lambda>r. row_mission r = k) table" if "k \<noteq> ?k" for k
    using that by (simp add: append_history_def projections_rows)
  ultimately show ?thesis unfolding assms(2) by blast
qed

section \<open>Pages from the table\<close>

lemma synced_rows:
  assumes "synced py k entries table"
  shows "filter (\<lambda>r. row_mission r = k) table = map (\<lambda>ie. history_row_of (projection py k ie)) (history_events entries)"
    and "\<And>ie. ie \<in> set (history_events entries) \<Longrightarrow> readable py ie \<and> is_history_event (snd ie)"
  using assms by (simp_all add: synced_def projections_def history_events_def comp_def list_all_iff)

lemma rows_read_back:
  assumes "canonical py" and "\<And>ie. ie \<in> set ies \<Longrightarrow> readable py ie \<and> is_history_event (snd ie) \<and> aware_event ie"
  shows "rows_to_projections py (map (\<lambda>ie. history_row_of (projection py k ie)) ies) = ret (map (projection py k) ies)"
  unfolding rows_to_projections_def mapE_map
  by (rule mapE_all) (use row_read_back(1) [OF assms(1)] assms(2) in \<open>simp add: liftE_Inr\<close>)

text \<open>The events a request is about, in order.\<close>

definition history_left :: "execution_event list \<Rightarrow> history_cursor option \<Rightarrow> (nat \<times> execution_event) list" where
  "history_left entries c =
     filter (\<lambda>ie. beyond_history c (fst (history_key ie)) (snd (history_key ie))) (sort_key history_key (history_events entries))"

lemma history_left_canonical:
  assumes "list_all aware_event (history_events entries)"
  shows "ordered_history entries = Inr (sort_key history_key (history_events entries))"
    and "history_after c (sort_key history_key (history_events entries)) = Inr (history_left entries c)"
proof -
  show "ordered_history entries = Inr (sort_key history_key (history_events entries))"
    using assms by (simp add: ordered_history_def)
  have "list_all aware_event (sort_key history_key (history_events entries))" using assms by (simp add: list_all_iff)
  moreover have "beyond_history (Some x) (fst (history_key ie)) (snd (history_key ie)) \<longleftrightarrow> history_key ie > (cursor_time x, cursor_index x)" for x ie
    by (auto simp: beyond_history_def history_key_def)
  moreover have "beyond_history None t i" for t i by (simp add: beyond_history_def)
  ultimately show "history_after c (sort_key history_key (history_events entries)) = Inr (history_left entries c)"
    by (cases c) (simp_all add: history_after_def history_left_def)
qed

lemma history_left_in: "ie \<in> set (history_left entries c) \<Longrightarrow> ie \<in> set (history_events entries)"
  by (simp add: history_left_def)

lemma table_page:
  assumes "canonical py" and "synced py k entries table" and "list_all aware_event (history_events entries)"
  shows "history_list_page py table k c n = ret (map (projection py k) (first_n n (history_left entries c)))"
proof -
  let ?g = "\<lambda>ie. history_row_of (projection py k ie)" and ?E = "history_events entries"
  have all: "readable py ie \<and> is_history_event (snd ie) \<and> aware_event ie" if "ie \<in> set ?E" for ie
    using synced_rows(2) [OF assms(2) that] assms(3) that by (simp add: list_all_iff)
  have key: "(row_time (?g ie), row_index (?g ie)) = history_key ie" if "ie \<in> set ?E" for ie
    using row_read_back(4) [OF assms(1), of ie k] all [OF that] by simp
  then have key': "row_time (?g ie) = fst (history_key ie)" "row_index (?g ie) = snd (history_key ie)" if "ie \<in> set ?E" for ie
    using that by (metis fst_conv snd_conv)+
  have "filter (\<lambda>r. beyond_history c (row_time r) (row_index r)) (map ?g ?E)
      = map ?g (filter (\<lambda>ie. beyond_history c (fst (history_key ie)) (snd (history_key ie))) ?E)"
    unfolding filter_map comp_def using key' by (intro arg_cong [where f = "map ?g"] filter_cong) simp_all
  moreover have "sort_key (\<lambda>r. (row_time r, row_index r)) (map ?g xs) = map ?g (sort_key history_key xs)" if "set xs \<subseteq> set ?E" for xs
    unfolding sort_key_map using that key by (intro arg_cong [where f = "map ?g"] sort_key_cong_set) blast
  ultimately have rows: "first_n n (sort_key (\<lambda>r. (row_time r, row_index r)) (filter (\<lambda>r. beyond_history c (row_time r) (row_index r)) (map ?g ?E)))
      = map ?g (first_n n (history_left entries c))"
    by (simp add: first_n_map history_left_def filter_sort)
  show ?thesis unfolding history_list_page_def synced_rows(1) [OF assms(2)] rows
    by (rule rows_read_back [OF assms(1)]) (rule all, rule history_left_in, erule set_first_n)
qed

lemma projected_page_agrees:
  assumes "canonical py" and "synced py k (execution_log m) table" and "list_all aware_event (history_events (execution_log m))"
    and "mission_id m = k" and "1 \<le> history_limit r"
  shows "projected_history_page (history_list_page py table) k r =
     thenE (require (\<not> foreign_cursor k (history_cursor r)) invalid_history_cursor) (canonical_history_page py m r)"
proof -
  define F where "F = first_n (history_limit r + 1) (history_left (execution_log m) (history_cursor r))"
  define V where "V = first_n (history_limit r) F"
  have E: "readable py ie \<and> is_history_event (snd ie) \<and> aware_event ie" if "ie \<in> set (history_events (execution_log m))" for ie
    using synced_rows(2) [OF assms(2) that] assms(3) that by (simp add: list_all_iff)
  have V: "ie \<in> set V \<Longrightarrow> ie \<in> set (history_events (execution_log m))" for ie
    unfolding V_def F_def by (meson set_first_n history_left_in)
  have item: "projection_item (projection py k ie) = history_item_of py (snd ie)" if "ie \<in> set V" for ie
    using row_read_back(2) [OF assms(1)] E [OF V [OF that]] by blast
  have items: "mapE (\<lambda>p. liftE (projection_item p)) (map (projection py k) V) = mapE (\<lambda>ie. liftE (history_item_of py (snd ie))) V"
    unfolding mapE_map by (rule mapE_cong) (simp add: item)
  have cursor: "make_history_cursor k (projected_time (last (map (projection py k) V))) (projected_index (last (map (projection py k) V)))
      = make_history_cursor k (event_timestamp (snd (last V))) (fst (last V))" if "int (length F) > history_limit r"
  proof -
    have "V \<noteq> []" using that assms(5) by (auto simp: V_def first_n_def)
    then have "last V \<in> set V" by simp
    with E V have l: "readable py (last V)" "is_history_event (snd (last V))" "aware_event (last V)" by blast+
    have "last (map (projection py k) V) = projection py k (last V)" using \<open>V \<noteq> []\<close> by (rule last_map)
    then show ?thesis using row_read_back(6,7) [OF assms(1) l, of k] by simp
  qed
  have vis: "first_n (history_limit r) (map (projection py k) F) = map (projection py k) V" by (simp add: first_n_map V_def)
  show ?thesis
    unfolding projected_history_page_def table_page [OF assms(1-3)] canonical_history_page_def history_left_canonical [OF assms(3)]
      liftE_Inr bindE_ret assms(4) F_def [symmetric] Let_def vis items length_map V_def [symmetric]
    using cursor by (cases "int (length F) > history_limit r") (simp_all only: if_P if_not_P not_True_eq_False not_False_eq_True)
qed

text \<open>C23: the projection refines the log: when the table holds the rows of a mission's log, a page of provider
  history read from the table is the page read from the log, for every limit and cursor: the same items,
  the same next cursor, the same refusal of a cursor of another mission.\<close>

theorem projected_history_refines_log:
  assumes "canonical py" and "synced py k (execution_log m) table" and "list_all aware_event (history_events (execution_log m))"
    and "exists k w = (Inr True, w')" and "get k w' = (Inr (Some m), w')" and "mission_id m = k" and "1 \<le> history_limit r"
  shows "get_provider_history py exists get (Some (history_list_page py table)) k r w = get_provider_history py exists get None k r w"
  using fun_cong [OF projected_page_agrees [OF assms(1-3,6,7)], of w'] assms(4-6)
  by (simp add: get_provider_history_def bindE_def thenE_def require_def ret_def)

theorem projected_history_refines_log_witness:
  "get_provider_history plain_coercions (\<lambda>_. ret True) (\<lambda>_. ret (Some resolved_twice)) (Some (history_list_page plain_coercions resolved_table))
     7 \<lparr>history_limit = 1, history_cursor = None\<rparr> ()
   = get_provider_history plain_coercions (\<lambda>_. ret True) (\<lambda>_. ret (Some resolved_twice)) None 7 \<lparr>history_limit = 1, history_cursor = None\<rparr> ()"
  by (rule projected_history_refines_log [OF plain_canonical resolved_synced])
    (simp_all add: resolved_history resolved_aware, simp_all add: ret_def resolved_twice_def)

section \<open>Following the history\<close>

text \<open>A log whose provider events are aware and readable.\<close>

definition history_sound :: "coercions \<Rightarrow> mission \<Rightarrow> bool" where
  "history_sound py m \<longleftrightarrow> (\<forall>ie \<in> set (history_events (execution_log m)). readable py ie \<and> aware_event ie)"

definition history_from :: "coercions \<Rightarrow> history_cursor option \<Rightarrow> mission \<Rightarrow> history_item list" where
  "history_from py c m = map (\<lambda>ie. the_item py (snd ie)) (history_left (execution_log m) c)"

text \<open>What a client makes of a page: its items, and the cursor to go on with.\<close>

definition history_page_at :: "coercions \<Rightarrow> nat \<Rightarrow> history_cursor option \<Rightarrow> mission \<Rightarrow> history_item list \<times> history_cursor option option" where
  "history_page_at py limit c m =
     (case fst (canonical_history_page py m \<lparr>history_limit = int limit, history_cursor = c\<rparr> ()) of
        Inl e \<Rightarrow> ([], None)
      | Inr p \<Rightarrow> (history_items p, if history_more p then Some (history_next p) else None))"

lemma history_event_is: "ie \<in> set (history_events entries) \<Longrightarrow> is_history_event (snd ie)"
  by (simp add: history_events_def)

lemma sound_item:
  assumes "history_sound py m" and "ie \<in> set (history_events (execution_log m))"
  shows "history_item_of py (snd ie) = Inr (the_item py (snd ie))" and "item_time (the_item py (snd ie)) = Aware (fst (history_key ie))"
proof -
  obtain item where i: "history_item_of py (snd ie) = Inr item"
    using assms history_event_is [OF assms(2)] by (auto simp: history_sound_def readable_def)
  then show "history_item_of py (snd ie) = Inr (the_item py (snd ie))" by (simp add: the_item_def)
  have "aware_event ie" using assms by (simp add: history_sound_def)
  then show "item_time (the_item py (snd ie)) = Aware (fst (history_key ie))"
    by (rule_tac history_item_cases [OF i], cases "event_timestamp (snd ie)") (simp_all add: the_item_def i aware_event_def history_key_def)
qed

lemma history_page_cut:
  assumes "history_sound py m" and "0 < n"
  shows "history_page_at py n c m = (take n (history_from py c m),
     if length (history_from py c m) \<le> n then None
     else (let ie = last (take n (history_left (execution_log m) c)) in
       Some (Some \<lparr>cursor_mission = mission_id m, cursor_time = fst (history_key ie), cursor_index = snd (history_key ie)\<rparr>)))"
proof -
  let ?L = "history_left (execution_log m) c" and ?item = "\<lambda>ie. the_item py (snd ie)"
  have aware: "list_all aware_event (history_events (execution_log m))" using assms(1) by (simp add: history_sound_def list_all_iff)
  have fetched: "first_n (int n + 1) ?L = take (Suc n) ?L" by (simp add: first_n_def nat_add_distrib)
  have visible: "first_n (int n) es = take n es" for es :: "(nat \<times> execution_event) list" by (simp add: first_n_def)
  have more: "int n < int (length (take (Suc n) ?L)) \<longleftrightarrow> \<not> length ?L \<le> n" by auto
  have L: "ie \<in> set (history_events (execution_log m))" if "ie \<in> set (take n ?L)" for ie
    using that history_left_in by (meson in_set_takeD)
  have items: "mapE (\<lambda>ie. liftE (history_item_of py (snd ie))) (take n ?L) = (ret (map ?item (take n ?L)) :: (unit, exn, _) prog)"
    by (rule mapE_all) (simp add: sound_item(1) [OF assms(1) L] liftE_Inr)
  show ?thesis
  proof (cases "length ?L \<le> n")
    case True
    then have "canonical_history_page py m \<lparr>history_limit = int n, history_cursor = c\<rparr> () =
        (Inr \<lparr>history_mission = mission_id m, history_items = map ?item (take n ?L), history_page_limit = int n, history_more = False, history_next = None\<rparr>, ())"
      using items more unfolding canonical_history_page_def history_left_canonical [OF aware] liftE_Inr bindE_ret
      by (simp add: fetched visible min_def Let_def bindE_ret make_history_page_def history_page_ok_def liftE_Inr) (simp add: ret_def)
    then show ?thesis using True by (simp add: history_page_at_def history_from_def take_map)
  next
    case False
    let ?ie = "last (take n ?L)"
    have ne: "take n ?L \<noteq> []" using False assms(2) by (cases ?L) auto
    then have "?ie \<in> set (take n ?L)" by simp
    from sound_item(2) [OF assms(1) L [OF this]] L [OF this]
    have t: "item_time (?item ?ie) = Aware (fst (history_key ?ie))" and "aware_event ?ie"
      using assms(1) by (simp_all add: history_sound_def)
    then have cur: "make_history_cursor (mission_id m) (event_timestamp (snd ?ie)) (fst ?ie)
        = Inr \<lparr>cursor_mission = mission_id m, cursor_time = fst (history_key ?ie), cursor_index = snd (history_key ?ie)\<rparr>"
      by (simp add: make_history_cursor_def aware_event_def history_key_def)
    have "canonical_history_page py m \<lparr>history_limit = int n, history_cursor = c\<rparr> () =
        (Inr \<lparr>history_mission = mission_id m, history_items = map ?item (take n ?L), history_page_limit = int n, history_more = True,
          history_next = Some \<lparr>cursor_mission = mission_id m, cursor_time = fst (history_key ?ie), cursor_index = snd (history_key ?ie)\<rparr>\<rparr>, ())"
      using items more False ne t unfolding canonical_history_page_def history_left_canonical [OF aware] liftE_Inr bindE_ret
      by (simp add: fetched visible min_def Let_def bindE_ret make_history_page_def history_page_ok_def liftE_Inr cur last_map) (simp add: ret_def)
    then show ?thesis using False by (simp add: history_page_at_def history_from_def take_map Let_def)
  qed
qed

lemma history_keys_strict: "sorted_wrt (<) (map history_key (sort_key history_key (history_events entries)))"
proof (rule strict_keys)
  have "distinct (map fst (enumerate 0 entries))" by (simp add: enumerate_eq_zip)
  then have "distinct (map fst (history_events entries))" unfolding history_events_def by (rule distinct_map_filter)
  then have "distinct (map (\<lambda>ie. snd (history_key ie)) (history_events entries))" by (simp add: history_key_def)
  then show "distinct (map history_key (history_events entries))" by (auto simp: distinct_map inj_on_def)
qed

interpretation history_pages: cursor_pages "history_page_at py" "history_from py" "history_sound py" for py
proof
  fix m k c c'
  assume m: "history_sound py m" and k: "0 < (k :: nat)"
  let ?L = "history_left (execution_log m)"
  show "fst (history_page_at py k c m) = take k (history_from py c m)"
    by (simp add: history_page_cut [OF m k])
  show "snd (history_page_at py k c m) = None \<longleftrightarrow> length (history_from py c m) \<le> k"
    by (simp add: history_page_cut [OF m k] Let_def)
  show "history_from py c' m = drop k (history_from py c m)" if s: "snd (history_page_at py k c m) = Some c'"
  proof -
    have l: "k < length (?L c)"
      and c': "c' = Some \<lparr>cursor_mission = mission_id m, cursor_time = fst (history_key (last (take k (?L c)))), cursor_index = snd (history_key (last (take k (?L c))))\<rparr>"
      using s by (auto simp: history_page_cut [OF m k] history_from_def Let_def split: if_splits)
    define key where "key x = map_option (\<lambda>c. (cursor_time c, cursor_index c)) x" for x :: "history_cursor option"
    have b: "beyond_history x (fst (history_key ie)) (snd (history_key ie)) \<longleftrightarrow> above (key x) (history_key ie) \<and> True" for x ie
      by (cases x) (auto simp: beyond_history_def above_def key_def history_key_def)
    have "?L c' = drop k (?L c)"
      using keyset_next [OF history_keys_strict [of "execution_log m"] _ k l, of "key c" "\<lambda>_. True"] c'
      by (simp add: history_left_def b) (simp add: key_def)
    then show ?thesis by (simp add: history_from_def drop_map)
  qed
qed

lemma follow_cong:
  assumes "\<And>c. P c \<Longrightarrow> f c = g c" and "\<And>c items c'. P c \<Longrightarrow> g c = (items, Some c') \<Longrightarrow> P c'"
  shows "P c \<Longrightarrow> follow f n c = follow g n c"
proof (induction n arbitrary: c)
  case (Suc n c)
  obtain items next_cursor where p: "g c = (items, next_cursor)" by fastforce
  then have "f c = (items, next_cursor)" using assms(1) [OF Suc.prems] by simp
  with p show ?case using Suc.IH assms(2) [OF Suc.prems] by (cases next_cursor) simp_all
qed simp

text \<open>Reading a page of the log does not depend on the state it is read in.\<close>

definition agree :: "('s, exn, 'a) prog \<Rightarrow> ('t, exn, 'a) prog \<Rightarrow> bool" where
  "agree p q \<longleftrightarrow> (\<forall>s t. fst (p s) = fst (q t))"

lemma agree_liftE: "agree (liftE x) (liftE x)"
  by (simp add: agree_def liftE_def)

lemma agree_ret: "agree (ret x) (ret x)"
  by (simp add: agree_def ret_def)

lemma agree_bindE:
  assumes "agree p q" and "\<And>a. agree (f a) (g a)"
  shows "agree (bindE p f) (bindE q g)"
  unfolding agree_def
proof (intro allI)
  fix s t
  obtain r s' where p: "p s = (r, s')" by fastforce
  obtain r' t' where q: "q t = (r', t')" by fastforce
  have "r = r'" using assms(1) p q by (metis agree_def fst_conv)
  then show "fst (bindE p f s) = fst (bindE q g t)"
    using p q assms(2) by (cases r') (simp_all add: bindE_def agree_def)
qed

lemma agree_mapE: "(\<And>x. agree (f x) (g x)) \<Longrightarrow> agree (mapE f xs) (mapE g xs)"
  by (induction xs) (simp_all add: agree_ret agree_bindE)

lemma canonical_page_stateless: "agree (canonical_history_page py m q) (canonical_history_page py m q)"
  unfolding canonical_history_page_def Let_def
  by (intro agree_bindE agree_liftE agree_mapE) (simp add: agree_bindE agree_liftE agree_ret)

text \<open>A client of the service that follows the cursors of the pages.\<close>

definition provider_page :: "coercions \<Rightarrow> uuid \<Rightarrow> int \<Rightarrow> 'a mission_repo_scheme \<Rightarrow> history_cursor option \<Rightarrow> history_item list \<times> history_cursor option option" where
  "provider_page py k limit s c =
     (case fst (get_provider_history py exists_mission get_mission None k \<lparr>history_limit = limit, history_cursor = c\<rparr> s) of
        Inl e \<Rightarrow> ([], None)
      | Inr p \<Rightarrow> (history_items p, if history_more p then Some (history_next p) else None))"

text \<open>C24: a client that follows the cursors of a mission's provider history gets every selection, resolution and
  failed resolution of the log once, in the order of their times and, at one time, of the log, whatever
  the size of the pages.\<close>

theorem provider_history_complete:
  assumes "map_of (missions s) k = Some m" and "mission_id m = k" and "history_sound py m" and "1 \<le> limit"
    and "length (history_events (execution_log m)) < n"
  shows "follow (provider_page py k limit s) n None =
     map (\<lambda>ie. the_item py (snd ie)) (sort_key history_key (history_events (execution_log m)))"
proof -
  have lim: "int (nat limit) = limit" "0 < nat limit" using assms(4) by simp_all
  have page: "provider_page py k limit s c = history_page_at py (nat limit) c m" if "\<not> foreign_cursor k c" for c
  proof -
    have any: "fst (canonical_history_page py m q s) = fst (canonical_history_page py m q ())" for q and s :: "'a mission_repo_scheme"
      using canonical_page_stateless [of py m q] by (metis agree_def)
    show ?thesis using that assms(1,2) lim any
      by (simp add: provider_page_def history_page_at_def get_provider_history_def exists_mission_def get_mission_def gets_def
          bindE_def thenE_def require_def ret_def)
  qed
  have "follow (provider_page py k limit s) n None = follow (\<lambda>c. history_page_at py (nat limit) c m) n None"
  proof (rule follow_cong [where P = "\<lambda>c. \<not> foreign_cursor k c"])
    fix c items c' assume "history_page_at py (nat limit) c m = (items, Some c')"
    then show "\<not> foreign_cursor k c'"
      using assms(2) by (auto simp: history_page_cut [OF assms(3) lim(2)] Let_def foreign_cursor_def split: if_splits)
  qed (simp_all add: page foreign_cursor_def)
  also have "\<dots> = history_from py None m"
    by (rule history_pages.follow_rows [OF assms(3) lim(2)]) (use assms(5) in \<open>simp add: history_from_def history_left_def le_less_trans [OF length_filter_le]\<close>)
  also have "\<dots> = map (\<lambda>ie. the_item py (snd ie)) (sort_key history_key (history_events (execution_log m)))"
    by (simp add: history_from_def history_left_def beyond_history_def)
  finally show ?thesis .
qed

theorem provider_history_complete_witness:
  "follow (provider_page plain_coercions 7 1 \<lparr>missions = [(7, resolved_twice)], attempts = [], fresh = (\<lambda>n. n), tick = 0\<rparr>) 3 None
     = [resolved_item 2 3, resolved_item 1 5]"
proof -
  have order: "sort_key history_key [(0, resolved_event 1 5), (1, resolved_event 2 3)] = [(1, resolved_event 2 3), (0, resolved_event 1 5)]"
    by (simp add: history_key_def resolved_event_def)
  have sound: "history_sound plain_coercions resolved_twice"
    by (simp add: history_sound_def resolved_history resolved_readable resolved_aware)
  have "follow (provider_page plain_coercions 7 1 \<lparr>missions = [(7, resolved_twice)], attempts = [], fresh = (\<lambda>n. n), tick = 0\<rparr>) 3 None
      = map (\<lambda>ie. the_item plain_coercions (snd ie)) (sort_key history_key (history_events (execution_log resolved_twice)))"
    by (rule provider_history_complete [OF _ _ sound]) (simp_all add: resolved_history, simp add: resolved_twice_def)
  also have "\<dots> = [resolved_item 2 3, resolved_item 1 5]"
    unfolding resolved_history order by (simp add: the_item_def resolved_read)
  finally show ?thesis .
qed

end
