(* ===== verification/ProjectionCheck.thy ===== *)
theory ProjectionCheck
  imports SqlMissions
begin

text \<open>
  Checking and rebuilding the projections of the log: \<open>app/services/mission_event_projection.py\<close>,
  \<open>app/services/provider_history_verification.py\<close> and \<open>app/services/provider_history_rebuild.py\<close>. The
  repository and the reader of a check are parameters on a state \<open>'w\<close>; a rebuild acts on the tables.
\<close>

section \<open>Comparing the event projection\<close>

datatype verification_status = Consistent | Inconsistent

datatype 'f mismatch = Mismatch (mismatch_sequence: int) (mismatch_fields: "'f list")

datatype event_field = WholeEvent

record 'f verification =
  verified_mission :: uuid
  verification_status :: verification_status
  canonical_count :: nat
  projection_count :: nat
  missing_sequences :: "int list"
  unexpected_sequences :: "int list"
  mismatches :: "'f mismatch list"

definition make_mismatch :: "int \<Rightarrow> 'f list \<Rightarrow> exn + 'f mismatch" where
  "make_mismatch n fs = (if n < 1 then Inl ValidationError else Inr (Mismatch n fs))"

definition make_verification :: "'f verification \<Rightarrow> exn + 'f verification" where
  "make_verification v =
     (let differs = missing_sequences v \<noteq> [] \<or> unexpected_sequences v \<noteq> [] \<or> mismatches v \<noteq> []
            \<or> canonical_count v \<noteq> projection_count v
      in if verification_status v \<noteq> (if differs then Inconsistent else Consistent) then Inl ValidationError else Inr v)"

definition validate_unique_sequences :: "execution_event list \<Rightarrow> string \<Rightarrow> exn + unit" where
  "validate_unique_sequences es source =
     (if \<not> distinct (map event_sequence es) then Inl (ValueError (source @ '' event sequences must be unique'')) else Inr ())"

text \<open>The sequence numbers of one dictionary that the other has not, sorted.\<close>

definition only_in :: "int list \<Rightarrow> int list \<Rightarrow> int list" where
  "only_in ns others = sort (filter (\<lambda>n. n \<notin> set others) ns)"

definition common :: "int list \<Rightarrow> int list \<Rightarrow> int list" where
  "common ns others = sort (filter (\<lambda>n. n \<in> set others) ns)"

definition event_at :: "execution_event list \<Rightarrow> int \<Rightarrow> execution_event option" where
  "event_at es n = find (\<lambda>e. event_sequence e = n) es"

definition verification_of :: "uuid \<Rightarrow> int list \<Rightarrow> int list \<Rightarrow> 'f mismatch list \<Rightarrow> exn + 'f verification" where
  "verification_of k logged projected found =
     (let missing = only_in logged projected; unexpected = only_in projected logged in
      make_verification \<lparr>verified_mission = k,
        verification_status = (if missing \<noteq> [] \<or> unexpected \<noteq> [] \<or> found \<noteq> [] then Inconsistent else Consistent),
        canonical_count = length logged, projection_count = length projected, missing_sequences = missing,
        unexpected_sequences = unexpected, mismatches = found\<rparr>)"

definition compare_mission_event_projection ::
  "uuid \<Rightarrow> execution_event list \<Rightarrow> execution_event list \<Rightarrow> ('w, exn, event_field verification) prog" where
  "compare_mission_event_projection k logged projected =
     thenE (liftE (validate_unique_sequences logged ''canonical''))
     (thenE (liftE (validate_unique_sequences projected ''projection''))
     (let cs = map event_sequence logged; ps = map event_sequence projected in
      bindE (mapE (\<lambda>n. liftE (make_mismatch n [WholeEvent]))
               (filter (\<lambda>n. map_option dump_event (event_at logged n) \<noteq> map_option dump_event (event_at projected n)) (common cs ps)))
        (\<lambda>found. liftE (verification_of k cs ps found))))"

definition mission_event_projection_matches :: "execution_event list \<Rightarrow> execution_event list \<Rightarrow> bool" where
  "mission_event_projection_matches logged projected \<longleftrightarrow> map dump_event logged = map dump_event projected"

definition verify_mission_event_projection ::
  "(uuid \<Rightarrow> ('w, exn, mission option) prog) \<Rightarrow> (uuid \<Rightarrow> ('w, exn, execution_event list) prog)
     \<Rightarrow> uuid \<Rightarrow> ('w, exn, event_field verification) prog" where
  "verify_mission_event_projection get read_all_of k =
     bindE (get k) (\<lambda>found.
       case found of
         None \<Rightarrow> raise MissionNotFoundError
       | Some m \<Rightarrow> bindE (read_all_of k) (\<lambda>projected. compare_mission_event_projection k (execution_log m) projected))"

section \<open>Comparing the provider history\<close>

datatype history_field = EventTypeField | OccurredAtField | PayloadField

definition normalize_datetime :: "datetime \<Rightarrow> exn + time" where
  "normalize_datetime t =
     (if is_aware t then Inr (instant t) else Inl (ValueError ''provider history timestamp must be timezone-aware''))"

definition projected_at :: "projection_event list \<Rightarrow> int \<Rightarrow> projection_event option" where
  "projected_at ps n = find (\<lambda>p. projected_sequence p = n) ps"

definition compare_projected :: "projection_event \<Rightarrow> projection_event \<Rightarrow> exn + history_field list" where
  "compare_projected expected actual =
     (case (normalize_datetime (projected_time expected), normalize_datetime (projected_time actual)) of
        (Inr a, Inr b) \<Rightarrow> Inr
          ((if projected_type expected \<noteq> projected_type actual then [EventTypeField] else [])
           @ (if a \<noteq> b then [OccurredAtField] else [])
           @ (if dump_history_payload (projected_payload expected) \<noteq> dump_history_payload (projected_payload actual)
              then [PayloadField] else []))
      | (Inl e, _) \<Rightarrow> Inl e
      | (_, Inl e) \<Rightarrow> Inl e)"

definition history_mismatch :: "projection_event list \<Rightarrow> projection_event list \<Rightarrow> int \<Rightarrow> exn + history_field mismatch option" where
  "history_mismatch logged projected n =
     (case (projected_at logged n, projected_at projected n) of
        (Some x, Some y) \<Rightarrow>
          (case compare_projected x y of
             Inl e \<Rightarrow> Inl e
           | Inr fs \<Rightarrow> if fs = [] then Inr None else map_sum id Some (make_mismatch n fs))
      | _ \<Rightarrow> Inr None)"

definition compare_provider_history_projection ::
  "coercions \<Rightarrow> uuid \<Rightarrow> execution_event list \<Rightarrow> projection_event list \<Rightarrow> ('w, exn, history_field verification) prog" where
  "compare_provider_history_projection py k canonical_events projected =
     thenE (liftE (validate_unique_sequences canonical_events ''canonical''))
     (thenE (require (distinct (map projected_sequence projected)) (ValueError ''projection event sequences must be unique''))
     (bindE (project_indexed py k (enumerate 0 canonical_events)) (\<lambda>logged.
      let cs = map projected_sequence logged; ps = map projected_sequence projected in
      bindE (mapE (\<lambda>n. liftE (history_mismatch logged projected n)) (common cs ps)) (\<lambda>found.
      liftE (verification_of k cs ps (List.map_filter id found))))))"

definition verify_provider_history_projection ::
  "coercions \<Rightarrow> (uuid \<Rightarrow> ('w, exn, mission option) prog) \<Rightarrow> (uuid \<Rightarrow> ('w, exn, projection_event list) prog)
     \<Rightarrow> uuid \<Rightarrow> ('w, exn, history_field verification) prog" where
  "verify_provider_history_projection py get read_all_of k =
     bindE (get k) (\<lambda>found.
       case found of
         None \<Rightarrow> raise MissionNotFoundError
       | Some m \<Rightarrow> bindE (read_all_of k) (\<lambda>projected. compare_provider_history_projection py k (execution_log m) projected))"

section \<open>Rebuilding\<close>

definition rebuild_batch_size :: nat where
  "rebuild_batch_size = 500"

definition append_pending_events :: "event_codec \<Rightarrow> (uuid \<times> execution_event list) list \<Rightarrow> (mission_db, exn, unit) prog" where
  "append_pending_events c pending = forE pending (\<lambda>(k, es). append_events c k es)"

record event_rebuild =
  rebuilt_missions :: nat
  inserted_events :: nat

fun rebuild_events ::
  "event_codec \<Rightarrow> mission_row list \<Rightarrow> (uuid \<times> execution_event list) list \<Rightarrow> event_rebuild \<Rightarrow> (mission_db, exn, event_rebuild) prog" where
  "rebuild_events c [] pending r =
     (if pending \<noteq> [] then thenE (append_pending_events c pending) (thenE flush (ret r)) else ret r)"
| "rebuild_events c (row # rows) pending r =
     bindE (liftE (mission_from_model c row)) (\<lambda>m.
     let r = r\<lparr>rebuilt_missions := rebuilt_missions r + 1\<rparr>; es = execution_log m in
     if es = [] then rebuild_events c rows pending r
     else
       let pending = pending @ [(mission_id m, es)]; r = r\<lparr>inserted_events := inserted_events r + length es\<rparr> in
       if length pending \<ge> rebuild_batch_size
       then thenE (append_pending_events c pending) (thenE flush (rebuild_events c rows [] r))
       else rebuild_events c rows pending r)"

definition rebuild_mission_event_projection :: "event_codec \<Rightarrow> (mission_db, exn, event_rebuild) prog" where
  "rebuild_mission_event_projection c =
     thenE (modify (\<lambda>db. db\<lparr>event_table := []\<rparr>))
     (bindE (gets (\<lambda>db. sort_key row_id (mission_table db))) (\<lambda>rows.
      rebuild_events c rows [] \<lparr>rebuilt_missions = 0, inserted_events = 0\<rparr>))"

record history_rebuild =
  history_missions :: nat
  processed_provider_events :: nat
  inserted_rows :: nat

definition append_projections :: "projection_event list \<Rightarrow> (mission_db, exn, unit) prog" where
  "append_projections ps = modify (\<lambda>db. db\<lparr>provider_table := append_history ps (provider_table db)\<rparr>)"

fun rebuild_history ::
  "coercions \<Rightarrow> event_codec \<Rightarrow> mission_row list \<Rightarrow> projection_event list \<Rightarrow> nat \<Rightarrow> nat \<Rightarrow> (mission_db, exn, history_rebuild) prog" where
  "rebuild_history py c [] pending seen events =
     thenE (if pending \<noteq> [] then thenE (append_projections pending) flush else ret ())
       (ret \<lparr>history_missions = seen, processed_provider_events = events, inserted_rows = events\<rparr>)"
| "rebuild_history py c (row # rows) pending seen events =
     bindE (liftE (mission_from_model c row)) (\<lambda>m.
     bindE (project_indexed py (mission_id m) (enumerate 0 (execution_log m))) (\<lambda>ps.
     let pending = pending @ ps; events = events + length ps in
     if length pending \<ge> rebuild_batch_size
     then thenE (append_projections pending) (thenE flush (rebuild_history py c rows [] (Suc seen) events))
     else rebuild_history py c rows pending (Suc seen) events))"

definition rebuild_provider_history_projection :: "event_codec \<Rightarrow> (mission_db, exn, history_rebuild) prog" where
  "rebuild_provider_history_projection c =
     thenE (modify (\<lambda>db. db\<lparr>provider_table := []\<rparr>))
     (bindE (gets (\<lambda>db. sort_key row_id (mission_table db))) (\<lambda>rows.
      rebuild_history (codec_coercions c) c rows [] 0 0))"

end
