(* ===== verification/SqlMissionContracts.thy ===== *)
theory SqlMissionContracts
  imports SqlMissions ProviderHistoryContracts ProjectionCheck MissionLedger
begin

text \<open>
  The repository in the database keeps its projections in step with the stored logs, refuses a write whose
  version is old, and reads back what it stored; and what a schedule behind the expiry does to it.
\<close>

section \<open>Logs in normal form\<close>

definition codec_ok :: "event_codec \<Rightarrow> bool" where
  "codec_ok c \<longleftrightarrow> canonical (codec_coercions c) \<and> 0 \<le> current_version (codec_serializer c)"

text \<open>An event as the services write it: its payload is in the normal form of its model.\<close>

definition normal_event :: "event_codec \<Rightarrow> execution_event \<Rightarrow> bool" where
  "normal_event c e \<longleftrightarrow> with_serialized_payload (codec_coercions c) e = Inr e \<and> in_range e \<and> event_id e \<noteq> 0 \<and> 1 \<le> event_sequence e"

definition stored_raw :: "event_codec \<Rightarrow> execution_event \<Rightarrow> raw_event" where
  "stored_raw c e = dict_set ''schema_version'' (JInt (current_version (codec_serializer c))) (dump_event e)"

lemma serialize_normal:
  "normal_event c e \<Longrightarrow> serialize_event (codec_coercions c) (codec_serializer c) e = Inr (stored_raw c e)"
  by (simp add: serialize_event_def normal_event_def validate_event_id_def stored_raw_def)

lemma store_serialize_normal:
  "\<forall>e \<in> set es. normal_event c e \<Longrightarrow> store_serialize c es = Inr (map (stored_raw c) es)"
proof -
  assume "\<forall>e \<in> set es. normal_event c e"
  then have "serialize_log (codec_coercions c) (codec_serializer c) es = Inr (map (stored_raw c) es)"
    by (induction es) (simp_all add: serialize_normal)
  then show ?thesis by (simp add: store_serialize_def)
qed

lemma normal_same:
  assumes "list_all2 (\<lambda>e e'. with_serialized_payload py e = Inr e') es es'" and "\<forall>e \<in> set es. with_serialized_payload py e = Inr e"
  shows "es' = es"
  using assms by (induction rule: list_all2_induct) simp_all

lemma restore_normal:
  assumes "codec_ok c" and "\<forall>e \<in> set es. normal_event c e"
  shows "restore_events (codec_coercions c) (codec_serializer c) drawn k [] (map (stored_raw c) es) = Inr es"
proof -
  let ?py = "codec_coercions c"
  have ser: "serialize_log ?py (codec_serializer c) es = Inr (map (stored_raw c) es)"
    using assms(2) by (induction es) (simp_all add: serialize_normal)
  have py: "canonical ?py" "0 \<le> current_version (codec_serializer c)" using assms(1) by (simp_all add: codec_ok_def)
  have "\<forall>e \<in> set es. in_range e \<and> 1 \<le> event_sequence e" using assms(2) by (simp add: normal_event_def)
  from log_reads_back [OF py ser this, of drawn k "[]"]
  obtain es' where "restore_events ?py (codec_serializer c) drawn k [] (map (stored_raw c) es) = Inr es'"
      and "list_all2 (\<lambda>e e'. with_serialized_payload ?py e = Inr e') es es'" by auto
  moreover from this(2) have "es' = es" by (rule normal_same) (use assms(2) in \<open>simp add: normal_event_def\<close>)
  ultimately show ?thesis by simp
qed

lemma store_deserialize_normal:
  assumes "codec_ok c" and "\<forall>e \<in> set es. normal_event c e" and "validate_event_sequence es n = Inr ()"
  shows "store_deserialize c k (map (stored_raw c) es) n = Inr es"
  using restore_normal [OF assms(1,2)] assms(3) by (simp add: store_deserialize_def deserialize_log_def)

text \<open>A provider event in normal form is one its history item can be made of.\<close>

lemma normal_readable:
  assumes "normal_event c (snd ie)"
  shows "readable (codec_coercions c) ie"
proof (cases "history_type_of (event_type (snd ie))")
  case None
  then show ?thesis by (simp add: readable_def is_history_event_def)
next
  case (Some ty)
  then have ev: "event_type (snd ie) = history_type_value ty"
    using find_in [OF Some [unfolded history_type_of_def]] by simp
  have n: "\<not> event_sequence (snd ie) < 1" using assms by (simp add: normal_event_def)
  obtain p where "read_history_payload (codec_coercions c) ty (event_metadata (snd ie)) = Inr p" "payload_matches ty p"
    using assms ev by (cases ty) (auto simp: normal_event_def with_serialized_payload_def map_sum_Inr)
  then show ?thesis using Some n by (simp add: readable_def history_item_of_def make_history_item_def)
qed

section \<open>The projections in step with the logs\<close>

definition event_entry :: "event_codec \<Rightarrow> uuid \<Rightarrow> execution_event \<Rightarrow> event_row" where
  "event_entry c k e = \<lparr>event_row_mission = k, event_row_sequence = event_sequence e, event_row_id = event_id e,
     event_row_type = event_type e, event_row_time = instant (event_timestamp e), event_row_raw = stored_raw c e\<rparr>"

definition event_rows :: "uuid \<Rightarrow> mission_db \<Rightarrow> event_row list" where
  "event_rows k db = filter (\<lambda>r. event_row_mission r = k) (event_table db)"

text \<open>The log \<open>es\<close> as the row, the event projection and the provider history hold it.\<close>

definition stored_log :: "event_codec \<Rightarrow> mission_row \<Rightarrow> execution_event list \<Rightarrow> bool" where
  "stored_log c row es \<longleftrightarrow> (\<forall>e \<in> set es. normal_event c e)
     \<and> validate_event_sequence es (last_event_sequence (row_columns row)) = Inr () \<and> row_log row = map (stored_raw c) es"

definition projected_log :: "event_codec \<Rightarrow> uuid \<Rightarrow> execution_event list \<Rightarrow> mission_db \<Rightarrow> bool" where
  "projected_log c k es db \<longleftrightarrow> event_rows k db = map (event_entry c k) es \<and> synced (codec_coercions c) k es (provider_table db)"

definition in_step :: "event_codec \<Rightarrow> mission_db \<Rightarrow> bool" where
  "in_step c db \<longleftrightarrow> constraints_hold db
     \<and> (\<forall>row \<in> set (mission_table db). \<exists>es. stored_log c row es \<and> projected_log c (row_id row) es db)"

lemma event_row_of_normal: "normal_event c e \<Longrightarrow> event_row_of c k e = Inr (event_entry c k e)"
  by (simp add: event_row_of_def store_serialize_normal event_entry_def)

lemma append_events_normal:
  assumes "\<forall>e \<in> set es. normal_event c e"
  shows "append_events c k es db = (Inr (), db\<lparr>event_table := event_table db @ map (event_entry c k) es\<rparr>)"
proof -
  have "mapE (\<lambda>e. liftE (event_row_of c k e)) es = (ret (map (event_entry c k) es) :: (mission_db, exn, _) prog)"
    by (rule mapE_all) (use assms in \<open>simp add: event_row_of_normal liftE_Inr\<close>)
  then show ?thesis by (simp add: append_events_def bindE_ret modify_def)
qed

text \<open>The messages that the notification events of a mission become, with the identifiers drawn for them.\<close>

definition notified :: "execution_event list \<Rightarrow> execution_event list" where
  "notified es = filter (\<lambda>e. event_type e \<in> notification_event_types) es"

definition outbox_messages :: "event_codec \<Rightarrow> mission \<Rightarrow> execution_event list \<Rightarrow> mission_db \<Rightarrow> outbox" where
  "outbox_messages c m es db =
     map (\<lambda>(e, n). outbox_entry m e (stored_raw c e) (db_fresh db n)) (zip (notified es) [db_tick db ..< db_tick db + length (notified es)])"

lemma outbox_messages_Cons:
  "outbox_messages c m (e # es) db =
     (if event_type e \<in> notification_event_types
      then outbox_entry m e (stored_raw c e) (db_fresh db (db_tick db)) # outbox_messages c m es (db\<lparr>db_tick := Suc (db_tick db)\<rparr>)
      else outbox_messages c m es db)"
  by (simp add: outbox_messages_def notified_def upt_rec [of "db_tick db"] del: upt_Suc)

lemma notify_events_normal:
  assumes "\<forall>e \<in> set es. normal_event c e"
  shows "forE es (notify_event c m) db = (Inr (), db\<lparr>outbox_table := outbox_table db @ outbox_messages c m es db,
     db_tick := db_tick db + length (notified es)\<rparr>)"
  using assms
proof (induction es arbitrary: db)
  case Nil
  then show ?case by (simp add: ret_def outbox_messages_def notified_def)
next
  case (Cons e es)
  have raw: "store_serialize c [e] = Inr [stored_raw c e]" using Cons.prems by (simp add: store_serialize_normal)
  have step: "notify_event c m e db = (Inr (), if event_type e \<in> notification_event_types
      then db\<lparr>outbox_table := outbox_table db @ [outbox_entry m e (stored_raw c e) (db_fresh db (db_tick db))], db_tick := Suc (db_tick db)\<rparr>
      else db)"
    by (simp add: notify_event_def db_uuid_def raw bindE_def thenE_def gets_def modify_def ret_def liftE_def)
  show ?case
  proof (cases "event_type e \<in> notification_event_types")
    case True
    have "outbox_messages c m es (db\<lparr>outbox_table := x, db_tick := n\<rparr>) = outbox_messages c m es (db\<lparr>db_tick := n\<rparr>)" for x n
      by (simp add: outbox_messages_def)
    then show ?thesis using True Cons.prems
      by (simp add: thenE_def bindE_def step Cons.IH outbox_messages_Cons notified_def)
  next
    case False
    then show ?thesis using Cons.prems
      by (simp add: thenE_def bindE_def step Cons.IH outbox_messages_Cons) (simp add: notified_def)
  qed
qed

lemma append_mission_events_normal:
  assumes "\<forall>e \<in> set new. normal_event c e" and "logged_after (execution_log m) previous = new"
  shows "append_mission_events c m previous db = (Inr (), db\<lparr>event_table := event_table db @ map (event_entry c (mission_id m)) new,
     outbox_table := outbox_table db @ outbox_messages c m new db, db_tick := db_tick db + length (notified new)\<rparr>)"
proof (cases "new = []")
  case True
  then show ?thesis using assms(2) by (simp add: append_mission_events_def ret_def outbox_messages_def notified_def)
next
  case False
  have "outbox_messages c m new (db\<lparr>event_table := x\<rparr>) = outbox_messages c m new db" for x
    by (simp add: outbox_messages_def)
  then show ?thesis using False assms
    by (simp add: append_mission_events_def thenE_def bindE_def append_events_normal notify_events_normal)
qed

lemma append_provider_normal:
  assumes "\<forall>e \<in> set new. normal_event c e" and "execution_log m = old @ new"
    and "\<forall>e \<in> set old. event_sequence e \<le> previous" and "\<forall>e \<in> set new. previous < event_sequence e"
    and "synced (codec_coercions c) (mission_id m) old (provider_table db)"
  shows "\<exists>table. append_provider_history_events c m previous db = (Inr (), db\<lparr>provider_table := table\<rparr>)
     \<and> synced (codec_coercions c) (mission_id m) (old @ new) table
     \<and> (\<forall>k. k \<noteq> mission_id m \<longrightarrow> filter (\<lambda>r. row_mission r = k) table = filter (\<lambda>r. row_mission r = k) (provider_table db))"
proof -
  have "list_all (\<lambda>e. readable (codec_coercions c) (0, e)) new"
    using assms(1) normal_readable [of c "(0, e)" for e] by (simp add: list_all_iff)
  from store_history_follows [OF assms(5,2-4) this]
  show ?thesis by (auto simp: append_provider_history_events_def assms(2))
qed

section \<open>Updates\<close>

lemma wp_flush [wp]: "wp flush Q E db = (if constraints_hold db then Q () db else E (OtherError ''IntegrityError'') db)"
  by (simp add: flush_def wp)

lemma wp_sync_attempt:
  assumes "\<And>as. Q () (db\<lparr>attempt_table := as\<rparr>)" and "\<And>e. E e db"
  shows "wp (synchronize_open_attempt m) Q E db"
proof -
  have Q: "Q () db" using assms(1) [of "attempt_table db"] by simp
  show ?thesis
    using assms Q by (simp add: synchronize_open_attempt_def wp change_attempts_def close_open_attempt_def split: option.split sum.split)
qed

text \<open>What the constructor makes of a mission whose times are aware.\<close>

lemma make_mission_result:
  assumes "make_mission raw (map_option Aware sch) (map_option Aware ex) (map_option Aware cl) = Inr m" and "payload raw = Some p"
  obtains pid rpid rid where "m = raw\<lparr>payload := Some p, scheduled_at := sch, expires_at := ex, claimed_at := cl,
      provider_id := pid, resolved_provider_id := rpid, reservation_id := rid, persisted_last_event_sequence := last_event_sequence raw\<rparr>"
    and "normalize_provider_id (provider_id raw) = Inr pid" and "normalize_provider_id (resolved_provider_id raw) = Inr rpid"
    and "validate_reservation_id (reservation_id raw) = Inr rid" and "mission_bounds_ok m" and "mission_fields_ok m"
proof -
  have t: "validate_datetime_timezone (map_option Aware x) = Inr x" for x
    by (cases x) (simp_all add: validate_datetime_timezone_def)
  obtain pid where pid: "normalize_provider_id (provider_id raw) = Inr pid"
    using assms by (cases "normalize_provider_id (provider_id raw)") (simp_all add: make_mission_def t)
  obtain rpid where rpid: "normalize_provider_id (resolved_provider_id raw) = Inr rpid"
    using assms by (cases "normalize_provider_id (resolved_provider_id raw)") (simp_all add: make_mission_def t pid)
  obtain rid where rid: "validate_reservation_id (reservation_id raw) = Inr rid"
    using assms by (cases "validate_reservation_id (reservation_id raw)") (simp_all add: make_mission_def t pid rpid)
  let ?m = "raw\<lparr>payload := Some p, scheduled_at := sch, expires_at := ex, claimed_at := cl,
      provider_id := pid, resolved_provider_id := rpid, reservation_id := rid, persisted_last_event_sequence := last_event_sequence raw\<rparr>"
  have "make_mission raw (map_option Aware sch) (map_option Aware ex) (map_option Aware cl) =
      (if mission_bounds_ok ?m \<and> mission_fields_ok ?m then Inr ?m else Inl ValidationError)"
    unfolding make_mission_def t pid rpid rid by (simp only: sum.case prod.case assms(2) option.case Let_def)
  then have "mission_bounds_ok ?m \<and> mission_fields_ok ?m" and m: "m = ?m" using assms(1) by (simp_all only: split: if_splits) simp_all
  then show ?thesis using that [OF m pid rpid rid] by simp
qed

lemma make_mission_intro:
  assumes "payload raw = Some p" and "normalize_provider_id (provider_id raw) = Inr pid" and "normalize_provider_id (resolved_provider_id raw) = Inr rpid"
    and "validate_reservation_id (reservation_id raw) = Inr rid"
    and "m = raw\<lparr>payload := Some p, scheduled_at := sch, expires_at := ex, claimed_at := cl,
      provider_id := pid, resolved_provider_id := rpid, reservation_id := rid, persisted_last_event_sequence := last_event_sequence raw\<rparr>"
    and "mission_bounds_ok m" and "mission_fields_ok m"
  shows "make_mission raw (map_option Aware sch) (map_option Aware ex) (map_option Aware cl) = Inr m"
proof -
  have t: "validate_datetime_timezone (map_option Aware x) = Inr x" for x
    by (cases x) (simp_all add: validate_datetime_timezone_def)
  show ?thesis
    unfolding make_mission_def t assms(2-4) assms(5) [symmetric]
    by (simp only: sum.case prod.case assms(1) option.case Let_def assms(5) [symmetric] assms(6,7) simp_thms if_True)
qed

text \<open>What a row reads as.\<close>

definition row_read :: "mission_row \<Rightarrow> train_payload \<Rightarrow> execution_event list \<Rightarrow> mission" where
  "row_read row p es = (let cols = row_columns row in
     cols\<lparr>legacy_type := TrainTicket, payload := Some p,
       max_execution_attempts := max (if max_execution_attempts cols = 0 then 3 else max_execution_attempts cols) (execution_attempts cols),
       execution_log := es\<rparr>)"

lemma from_model_parts:
  assumes "mission_from_model c row = Inr m"
  obtains es p where "store_deserialize c (mission_id (row_columns row)) (row_log row) (last_event_sequence (row_columns row)) = Inr es"
    and "payload_from_column (payload (row_columns row)) = Inr p"
    and "m = mark_event_sequence_persisted (row_read row p es) \<and> status (row_columns row) = Processing \<and> claimed_at (row_columns row) = None
      \<or> make_mission (row_read row p es) (map_option Aware (scheduled_at (row_columns row))) (map_option Aware (expires_at (row_columns row)))
          (map_option Aware (claimed_at (row_columns row))) = Inr m"
proof -
  obtain es where d: "store_deserialize c (mission_id (row_columns row)) (row_log row) (last_event_sequence (row_columns row)) = Inr es"
    using assms unfolding mission_from_model_def Let_def
    by (cases "store_deserialize c (mission_id (row_columns row)) (row_log row) (last_event_sequence (row_columns row))") simp_all
  obtain p where p: "payload_from_column (payload (row_columns row)) = Inr p"
    using assms unfolding mission_from_model_def Let_def d by (cases "payload_from_column (payload (row_columns row))") simp_all
  show ?thesis
    by (rule that [OF d p]) (use assms in \<open>simp add: mission_from_model_def d p row_read_def Let_def split: if_splits\<close>)
qed

lemma row_read_payload: "payload (row_read row p es) = Some p"
  by (simp add: row_read_def Let_def)

lemma from_model_log:
  assumes "codec_ok c" and "stored_log c row es" and "mission_from_model c row = Inr m"
  shows "execution_log m = es" and "mission_id m = row_id row" and "last_event_sequence m = last_event_sequence (row_columns row)"
proof -
  have d: "store_deserialize c (mission_id (row_columns row)) (row_log row) (last_event_sequence (row_columns row)) = Inr es"
    using assms(1,2) by (simp add: stored_log_def store_deserialize_normal)
  obtain p where p: "m = mark_event_sequence_persisted (row_read row p es)
      \<or> make_mission (row_read row p es) (map_option Aware (scheduled_at (row_columns row))) (map_option Aware (expires_at (row_columns row)))
          (map_option Aware (claimed_at (row_columns row))) = Inr m"
    using from_model_parts [OF assms(3)] d by (metis sum.inject(2))
  have "execution_log m = execution_log (row_read row p es) \<and> mission_id m = mission_id (row_read row p es)
      \<and> last_event_sequence m = last_event_sequence (row_read row p es)"
    using p
  proof
    assume "make_mission (row_read row p es) (map_option Aware (scheduled_at (row_columns row))) (map_option Aware (expires_at (row_columns row)))
          (map_option Aware (claimed_at (row_columns row))) = Inr m"
    then show ?thesis by (rule make_mission_result [OF _ row_read_payload]) simp
  qed (simp add: mark_event_sequence_persisted_def)
  then show "execution_log m = es" and "mission_id m = row_id row" and "last_event_sequence m = last_event_sequence (row_columns row)"
    by (simp_all add: row_read_def row_id_def Let_def)
qed

lemma log_split:
  assumes "validate_event_sequence (es @ new) n = Inr ()" and "validate_event_sequence es p = Inr ()"
  shows "\<forall>e \<in> set es. event_sequence e \<le> p" and "\<forall>e \<in> set new. p < event_sequence e"
proof -
  have s: "sorted_wrt (<) (0 # map event_sequence (es @ new))"
    using assms(1) unfolding validate_iff_check check_events_iff log_spec_def by blast
  have p: "p = last (0 # map event_sequence es)"
    using assms(2) unfolding validate_iff_check check_events_iff by blast
  have "sorted_wrt (<) ((0 # map event_sequence es) @ map event_sequence new)" using s by simp
  then have "sorted_wrt (<) (0 # map event_sequence es)" and new: "\<forall>x \<in> set (0 # map event_sequence es). \<forall>e \<in> set new. x < event_sequence e"
    unfolding sorted_wrt_append by auto
  have "p \<in> set (0 # map event_sequence es)" unfolding p by (rule last_in_set) simp
  then show "\<forall>e \<in> set new. p < event_sequence e" using new by blast
  show "\<forall>e \<in> set es. event_sequence e \<le> p"
  proof (cases es rule: rev_cases)
    case (snoc ys y)
    then show ?thesis using s p by (auto simp: sorted_wrt_append less_imp_le)
  qed simp
qed

lemma logged_after_split:
  "\<forall>e \<in> set es. event_sequence e \<le> p \<Longrightarrow> \<forall>e \<in> set new. p < event_sequence e \<Longrightarrow> logged_after (es @ new) p = new"
  by (fastforce simp: logged_after_def filter_empty_conv filter_id_conv)

lemma in_step_row:
  assumes "in_step c db" and "row \<in> set (mission_table db)"
  obtains es where "stored_log c row es" and "projected_log c (row_id row) es db"
  using assms by (auto simp: in_step_def)

lemma in_step_unique:
  assumes "constraints_hold db" and "row \<in> set (mission_table db)" and "row' \<in> set (mission_table db)" and "row_id row = row_id row'"
  shows "row = row'"
proof -
  have "distinct (map row_id (mission_table db))" using assms(1) by (simp add: constraints_hold_def)
  then have "inj_on row_id (set (mission_table db))" by (simp add: distinct_map)
  from inj_onD [OF this assms(4,2,3)] show ?thesis .
qed

lemma in_step_change:
  assumes "in_step c db" and "constraints_hold db'"
    and rows: "\<And>row. row \<in> set (mission_table db') \<Longrightarrow>
        (row_id row = k \<and> stored_log c row es) \<or> (row_id row \<noteq> k \<and> row \<in> set (mission_table db))"
    and "projected_log c k es db'"
    and other: "\<And>k'. k' \<noteq> k \<Longrightarrow> event_rows k' db' = event_rows k' db
        \<and> filter (\<lambda>r. row_mission r = k') (provider_table db') = filter (\<lambda>r. row_mission r = k') (provider_table db)"
  shows "in_step c db'"
  unfolding in_step_def
proof (intro conjI ballI)
  fix row assume row: "row \<in> set (mission_table db')"
  show "\<exists>es. stored_log c row es \<and> projected_log c (row_id row) es db'"
  proof (cases "row_id row = k")
    case True
    then show ?thesis using rows [OF row] assms(4) by blast
  next
    case False
    then have "row \<in> set (mission_table db)" using rows [OF row] by blast
    then show ?thesis using in_step_row [OF assms(1)] other [OF False] by (metis projected_log_def synced_def)
  qed
qed (rule assms(2))




lemma row_of_in: "mission_row_of k db = Some row \<Longrightarrow> row \<in> set (mission_table db) \<and> row_id row = k"
  unfolding mission_row_of_def by (drule find_in) simp

lemma in_row_of:
  assumes "constraints_hold db" and "row \<in> set (mission_table db)"
  shows "mission_row_of (row_id row) db = Some row"
proof (cases "mission_row_of (row_id row) db")
  case None
  then show ?thesis using assms(2) by (auto simp: mission_row_of_def find_None_iff)
next
  case (Some row')
  then show ?thesis using row_of_in [OF Some] in_step_unique [OF assms(1) _ assms(2)] by simp
qed

lemma sql_get_result:
  assumes "sql_get c k db = (Inr (Some m), db)"
  obtains row where "row \<in> set (mission_table db)" and "row_id row = k" and "mission_from_model c row = Inr m"
proof -
  obtain row where row: "mission_row_of k db = Some row"
    using assms by (cases "mission_row_of k db") (simp_all add: sql_get_def bindE_def gets_def ret_def)
  moreover have "mission_from_model c row = Inr m"
    using assms row by (cases "mission_from_model c row") (simp_all add: sql_get_def bindE_def gets_def ret_def liftE_def)
  ultimately show ?thesis using that row_of_in by blast
qed

lemma to_model_result:
  assumes "mission_to_model c now m = Inr new" and "\<forall>e \<in> set (execution_log m). normal_event c e"
  shows "stored_log c new (execution_log m)" and "row_id new = mission_id m"
    and "last_event_sequence (row_columns new) = last_event_sequence m"
    and "validate_event_sequence (execution_log m) (last_event_sequence m) = Inr ()"
proof -
  have v: "validate_event_sequence (execution_log m) (last_event_sequence m) = Inr ()"
    using assms(1) by (cases "validate_event_sequence (execution_log m) (last_event_sequence m)") (simp_all add: mission_to_model_def)
  then have new: "new = \<lparr>row_columns = m\<lparr>execution_log := [], persisted_last_event_sequence := 0\<rparr>,
      row_log = map (stored_raw c) (execution_log m), row_created = now\<rparr>"
    using assms by (simp add: mission_to_model_def store_serialize_normal split: if_splits)
  show "stored_log c new (execution_log m)" and "row_id new = mission_id m"
    and "last_event_sequence (row_columns new) = last_event_sequence m"
    unfolding new using v assms(2) by (simp_all add: stored_log_def row_id_def)
  show "validate_event_sequence (execution_log m) (last_event_sequence m) = Inr ()" by (rule v)
qed

lemma stored_log_created: "stored_log c (row\<lparr>row_created := t\<rparr>) es = stored_log c row es" "row_id (row\<lparr>row_created := t\<rparr>) = row_id row"
  by (simp_all add: stored_log_def row_id_def)

lemma in_step_grow:
  assumes "in_step c db" and "constraints_hold db'" and "projected_log c k es db"
    and rows: "\<And>row. row \<in> set (mission_table db') \<Longrightarrow>
        (row_id row = k \<and> stored_log c row (es @ new)) \<or> (row_id row \<noteq> k \<and> row \<in> set (mission_table db))"
    and "event_table db' = event_table db @ map (event_entry c k) new"
    and "synced (codec_coercions c) k (es @ new) (provider_table db')"
    and "\<forall>k'. k' \<noteq> k \<longrightarrow> filter (\<lambda>r. row_mission r = k') (provider_table db') = filter (\<lambda>r. row_mission r = k') (provider_table db)"
  shows "in_step c db'"
proof (rule in_step_change [OF assms(1,2) rows])
  have "event_rows k db' = map (event_entry c k) (es @ new)"
    using assms(3,5) by (simp add: projected_log_def event_rows_def event_entry_def filter_map comp_def)
  then show "projected_log c k (es @ new) db'" using assms(6) by (simp add: projected_log_def)
  show "event_rows k' db' = event_rows k' db
      \<and> filter (\<lambda>r. row_mission r = k') (provider_table db') = filter (\<lambda>r. row_mission r = k') (provider_table db)" if "k' \<noteq> k" for k'
    using that assms(5,7) by (simp add: event_rows_def event_entry_def filter_map comp_def)
qed

text \<open>The last part of an update: the new events go to both projections and to the outbox.\<close>

definition grown_tables :: "event_codec \<Rightarrow> mission \<Rightarrow> execution_event list \<Rightarrow> execution_event list \<Rightarrow> mission_db \<Rightarrow> mission_db \<Rightarrow> bool" where
  "grown_tables c m old new db db' \<longleftrightarrow> constraints_hold db' \<and> mission_table db' = mission_table db
     \<and> event_table db' = event_table db @ map (event_entry c (mission_id m)) new
     \<and> outbox_table db' = outbox_table db @ outbox_messages c m new db
     \<and> synced (codec_coercions c) (mission_id m) (old @ new) (provider_table db')
     \<and> (\<forall>k'. k' \<noteq> mission_id m \<longrightarrow> filter (\<lambda>r. row_mission r = k') (provider_table db') = filter (\<lambda>r. row_mission r = k') (provider_table db))"

lemma append_all:
  assumes "\<forall>e \<in> set new. normal_event c e" and "execution_log m = old @ new"
    and "\<forall>e \<in> set old. event_sequence e \<le> p" and "\<forall>e \<in> set new. p < event_sequence e"
    and "synced (codec_coercions c) (mission_id m) old (provider_table db)"
  shows "wp (thenE (append_provider_history_events c m p) (thenE (append_mission_events c m p) (thenE flush (ret r))))
     (\<lambda>_. grown_tables c m old new db) (\<lambda>_ _. True) db"
proof -
  obtain table where t: "append_provider_history_events c m p db = (Inr (), db\<lparr>provider_table := table\<rparr>)"
      and s: "synced (codec_coercions c) (mission_id m) (old @ new) table"
      and o: "\<forall>k'. k' \<noteq> mission_id m \<longrightarrow> filter (\<lambda>r. row_mission r = k') table = filter (\<lambda>r. row_mission r = k') (provider_table db)"
    using append_provider_normal [OF assms] by blast
  have after: "logged_after (execution_log m) p = new" unfolding assms(2) by (rule logged_after_split [OF assms(3,4)])
  have out: "outbox_messages c m new (db\<lparr>provider_table := table\<rparr>) = outbox_messages c m new db"
    by (simp add: outbox_messages_def)
  show ?thesis
    unfolding wp_thenE wp_def [of "append_provider_history_events c m p"] t prod.case sum.case
      wp_def [of "append_mission_events c m p"] append_mission_events_normal [OF assms(1) after] out wp_flush wp_ret
    using s o by (simp add: grown_tables_def)
qed

lemma update_rows:
  assumes "constraints_hold db" and "row0 \<in> set (mission_table db)" and "row_id row0 = mission_id m" and "is_version_of m row0"
    and "row_id row = mission_id m" and "stored_log c row es"
    and "r \<in> set (map (\<lambda>r. if is_version_of m r then row\<lparr>row_created := row_created r\<rparr> else r) (mission_table db))"
  shows "(row_id r = mission_id m \<and> stored_log c r es) \<or> (row_id r \<noteq> mission_id m \<and> r \<in> set (mission_table db))"
proof -
  obtain r0 where r0: "r0 \<in> set (mission_table db)" "r = (if is_version_of m r0 then row\<lparr>row_created := row_created r0\<rparr> else r0)"
    using assms(7) by auto
  show ?thesis
  proof (cases "row_id r0 = mission_id m")
    case True
    then have "r0 = row0" using in_step_unique [OF assms(1) r0(1) assms(2)] assms(3) by simp
    then show ?thesis using r0(2) assms(4-6) by (simp add: stored_log_created)
  next
    case False
    then show ?thesis using r0 by (simp add: is_version_of_def)
  qed
qed

text \<open>The states a successful update can end in.\<close>

definition updated_tables :: "event_codec \<Rightarrow> mission \<Rightarrow> execution_event list \<Rightarrow> execution_event list \<Rightarrow> mission_row \<Rightarrow> mission_db \<Rightarrow> mission_db \<Rightarrow> bool" where
  "updated_tables c m old new row db db' \<longleftrightarrow>
     (\<exists>as. grown_tables c m old new (db\<lparr>mission_table := map (\<lambda>r. if is_version_of m r then row\<lparr>row_created := row_created r\<rparr> else r)
        (mission_table db), attempt_table := as\<rparr>) db')"

lemma wp_update:
  assumes "in_step c db" and "row0 \<in> set (mission_table db)" and "row_id row0 = mission_id m"
    and "stored_log c row0 old" and "projected_log c (mission_id m) old db"
    and "execution_log m = old @ new" and "\<forall>e \<in> set new. normal_event c e"
  shows "wp (sql_update c m) (\<lambda>_ db'. is_version_of m row0 \<and> (\<exists>row. mission_to_model c 0 m = Inr row \<and> updated_tables c m old new row db db')) (\<lambda>_ _. True) db"
proof (cases "mission_to_model c 0 m")
  case (Inl e)
  then show ?thesis by (simp add: sql_update_def wp)
next
  case (Inr row)
  have normal: "\<forall>e \<in> set (execution_log m). normal_event c e" using assms(4,6,7) by (auto simp: stored_log_def)
  have ch: "constraints_hold db" using assms(1) by (simp add: in_step_def)
  show ?thesis
  proof (cases "is_version_of m row0")
    case True
    let ?p = "persisted_last_event_sequence m"
    let ?db1 = "db\<lparr>mission_table := map (\<lambda>r. if is_version_of m r then row\<lparr>row_created := row_created r\<rparr> else r) (mission_table db)\<rparr>"
    have "validate_event_sequence old ?p = Inr ()" using assms(4) True by (simp add: stored_log_def is_version_of_def)
    moreover have "validate_event_sequence (old @ new) (last_event_sequence m) = Inr ()"
      using to_model_result(4) [OF Inr normal] assms(6) by simp
    ultimately have split: "\<forall>e \<in> set old. event_sequence e \<le> ?p" "\<forall>e \<in> set new. ?p < event_sequence e"
      by (blast dest: log_split)+
    have count: "length (filter (is_version_of m) (mission_table db)) \<noteq> 0" using True assms(2) by (auto simp: filter_empty_conv)
    have sync: "synced (codec_coercions c) (mission_id m) old (provider_table (?db1\<lparr>attempt_table := as\<rparr>))" for as
      using assms(5) by (simp add: projected_log_def)
    have rest: "wp (thenE (append_provider_history_events c m ?p) (thenE (append_mission_events c m ?p) (thenE flush (ret (mark_event_sequence_persisted m)))))
        (\<lambda>_. updated_tables c m old new row db) (\<lambda>_ _. True) (?db1\<lparr>attempt_table := as\<rparr>)" for as
      by (rule wp_mono [OF append_all [OF assms(7,6) split sync [of as]]]) (auto simp: updated_tables_def)
    have "wp (thenE (synchronize_open_attempt m) (thenE flush (thenE (append_provider_history_events c m ?p) (thenE (append_mission_events c m ?p)
        (thenE flush (ret (mark_event_sequence_persisted m))))))) (\<lambda>_. updated_tables c m old new row db) (\<lambda>_ _. True) ?db1"
      unfolding wp_thenE [of "synchronize_open_attempt m"]
    proof (rule wp_sync_attempt)
      fix as
      show "wp (thenE flush (thenE (append_provider_history_events c m ?p) (thenE (append_mission_events c m ?p)
          (thenE flush (ret (mark_event_sequence_persisted m)))))) (\<lambda>_. updated_tables c m old new row db) (\<lambda>_ _. True) (?db1\<lparr>attempt_table := as\<rparr>)"
        unfolding wp_thenE [of flush] wp_flush using rest [of as] by (simp only: if_bool_eq_conj simp_thms)
    qed simp
    then show ?thesis
      using True count by (simp add: sql_update_def Inr wp_bindE wp_liftE wp_gets wp_thenE [of "modify f" for f] wp_modify wp_thenE [of flush] wp_flush)
  next
    case False
    then have "filter (is_version_of m) (mission_table db) = []"
      using in_step_unique [OF ch _ assms(2)] assms(3) by (auto simp: filter_empty_conv is_version_of_def)
    then show ?thesis by (simp add: sql_update_def wp Inr)
  qed
qed

text \<open>C3: storing a mission keeps the database in step: if a mission that was read from the database has grown by
  new events, then a successful update leaves every stored log in step with both of its projections, the
  row holds the new log, and the outbox has got exactly one pending message for each new event that users
  are notified of, in order, addressed to the participants.\<close>

theorem update_keeps_in_step:
  assumes "codec_ok c" and "in_step c db" and "sql_get c (mission_id m) db = (Inr (Some m0), db)"
    and "execution_log m = execution_log m0 @ new" and "\<forall>e \<in> set new. normal_event c e"
    and "sql_update c m db = (Inr m', db')"
  shows "in_step c db' \<and> outbox_table db' = outbox_table db @ outbox_messages c m new db
     \<and> (\<exists>row. mission_row_of (mission_id m) db' = Some row \<and> stored_log c row (execution_log m))"
proof -
  let ?k = "mission_id m"
  obtain row0 where row0: "row0 \<in> set (mission_table db)" "row_id row0 = ?k" "mission_from_model c row0 = Inr m0"
    using assms(3) by (rule sql_get_result)
  have ch: "constraints_hold db" using assms(2) by (simp add: in_step_def)
  obtain es where es: "stored_log c row0 es" "projected_log c ?k es db"
    using in_step_row [OF assms(2) row0(1)] row0(2) by metis
  have log: "execution_log m = es @ new" using from_model_log(1) [OF assms(1) es(1) row0(3)] assms(4) by simp
  have normal: "\<forall>e \<in> set (execution_log m). normal_event c e" using es(1) assms(5) log by (auto simp: stored_log_def)
  from wp_result [OF wp_update [OF assms(2) row0(1,2) es log assms(5)] assms(6)]
  obtain row as where v: "is_version_of m row0" and row: "mission_to_model c 0 m = Inr row"
      and g: "grown_tables c m es new (db\<lparr>mission_table := map (\<lambda>r. if is_version_of m r then row\<lparr>row_created := row_created r\<rparr> else r)
        (mission_table db), attempt_table := as\<rparr>) db'"
    by (auto simp: updated_tables_def)
  note stored = to_model_result(1,2) [OF row normal]
  let ?table = "map (\<lambda>r. if is_version_of m r then row\<lparr>row_created := row_created r\<rparr> else r) (mission_table db)"
  have table: "mission_table db' = ?table" and hold: "constraints_hold db'" using g by (simp_all add: grown_tables_def)
  have "in_step c db'"
    by (rule in_step_grow [OF assms(2) hold es(2), of new])
      (use g update_rows [OF ch row0(1,2) v stored(2) stored(1) [unfolded log]] in \<open>simp_all add: grown_tables_def\<close>)
  moreover have "outbox_table db' = outbox_table db @ outbox_messages c m new db"
    using g by (simp add: grown_tables_def outbox_messages_def)
  moreover have "row\<lparr>row_created := row_created row0\<rparr> \<in> set (mission_table db')" unfolding table using row0(1) v by (auto simp: image_iff)
  then have "mission_row_of ?k db' = Some (row\<lparr>row_created := row_created row0\<rparr>)"
    using in_row_of [OF hold] stored(2) by (fastforce simp: stored_log_created)
  ultimately show ?thesis using stored(1) by (auto simp: stored_log_created)
qed

section \<open>A stored mission reads back\<close>

definition accepted_mission :: "mission \<Rightarrow> bool" where
  "accepted_mission m \<longleftrightarrow> legacy_type m = TrainTicket \<and> (\<exists>p. payload m = Some p \<and> payload_from_column (Some p) = Inr p)
     \<and> make_mission m (map_option Aware (scheduled_at m)) (map_option Aware (expires_at m)) (map_option Aware (claimed_at m)) = Inr m"

lemma accepted_row_reads:
  assumes "codec_ok c" and "\<forall>e \<in> set (execution_log m). normal_event c e" and "accepted_mission m"
  shows "mission_from_model c \<lparr>row_columns = m\<lparr>execution_log := [], persisted_last_event_sequence := 0\<rparr>,
     row_log = map (stored_raw c) (execution_log m), row_created = t\<rparr> = Inr m"
proof -
  obtain p where p: "payload m = Some p" "payload_from_column (Some p) = Inr p" and legacy: "legacy_type m = TrainTicket"
    using assms(3) by (auto simp: accepted_mission_def)
  have made: "make_mission m (map_option Aware (scheduled_at m)) (map_option Aware (expires_at m)) (map_option Aware (claimed_at m)) = Inr m"
    using assms(3) by (simp add: accepted_mission_def)
  from made p(1) obtain pid rpid rid where m: "m = m\<lparr>payload := Some p, scheduled_at := scheduled_at m, expires_at := expires_at m, claimed_at := claimed_at m,
        provider_id := pid, resolved_provider_id := rpid, reservation_id := rid, persisted_last_event_sequence := last_event_sequence m\<rparr>"
      and ids: "normalize_provider_id (provider_id m) = Inr pid" "normalize_provider_id (resolved_provider_id m) = Inr rpid"
        "validate_reservation_id (reservation_id m) = Inr rid" and ok: "mission_bounds_ok m" "mission_fields_ok m"
    by (rule make_mission_result)
  have claim: "status m = Processing \<Longrightarrow> claimed_at m \<noteq> None" and attempts: "execution_attempts m \<le> max_execution_attempts m"
      and valid: "validate_event_sequence (execution_log m) (last_event_sequence m) = Inr ()" and limit: "1 \<le> max_execution_attempts m"
    using ok by (auto simp: mission_fields_ok_def mission_bounds_ok_def)
  have d: "store_deserialize c (mission_id m) (map (stored_raw c) (execution_log m)) (last_event_sequence m) = Inr (execution_log m)"
    by (rule store_deserialize_normal [OF assms(1,2) valid])
  have raw: "m\<lparr>execution_log := [], persisted_last_event_sequence := 0, legacy_type := TrainTicket, payload := Some p,
        max_execution_attempts := max_execution_attempts m, execution_log := execution_log m\<rparr> = m\<lparr>persisted_last_event_sequence := 0\<rparr>"
    using legacy p(1) by (cases m) simp
  have "make_mission (m\<lparr>persisted_last_event_sequence := 0\<rparr>) (map_option Aware (scheduled_at m)) (map_option Aware (expires_at m)) (map_option Aware (claimed_at m)) = Inr m"
  proof (rule make_mission_intro)
    show "m = m\<lparr>persisted_last_event_sequence := 0, payload := Some p, scheduled_at := scheduled_at m, expires_at := expires_at m, claimed_at := claimed_at m,
        provider_id := pid, resolved_provider_id := rpid, reservation_id := rid,
        persisted_last_event_sequence := last_event_sequence (m\<lparr>persisted_last_event_sequence := 0\<rparr>)\<rparr>"
      using m by simp
  qed (use ids ok p in simp_all)
  moreover have "\<not> (status m = Processing \<and> claimed_at m = None)" using claim by blast
  ultimately show ?thesis
    using attempts limit d p(2) raw by (simp add: mission_from_model_def Let_def p(1) del: de_Morgan_conj)
qed

text \<open>C22: a mission that is stored reads back as itself: for a mission its constructor accepts, whose events are in
  normal form, writing the row and reading it again gives the same mission, with its log, and with the
  sequence number that later updates are checked against.\<close>

theorem stored_mission_reads_back:
  assumes "codec_ok c" and "\<forall>e \<in> set (execution_log m). normal_event c e" and "accepted_mission m"
  shows "\<exists>row. mission_to_model c t m = Inr row \<and> mission_from_model c row = Inr m \<and> persisted_last_event_sequence m = last_event_sequence (row_columns row)"
proof -
  obtain p where p: "payload m = Some p" using assms(3) by (auto simp: accepted_mission_def)
  have made: "make_mission m (map_option Aware (scheduled_at m)) (map_option Aware (expires_at m)) (map_option Aware (claimed_at m)) = Inr m"
    using assms(3) by (simp add: accepted_mission_def)
  have "validate_event_sequence (execution_log m) (last_event_sequence m) = Inr () \<and> persisted_last_event_sequence m = last_event_sequence m"
    using made p
  proof (rule make_mission_result)
    fix pid rpid rid
    assume m: "m = m\<lparr>payload := Some p, scheduled_at := scheduled_at m, expires_at := expires_at m, claimed_at := claimed_at m,
        provider_id := pid, resolved_provider_id := rpid, reservation_id := rid, persisted_last_event_sequence := last_event_sequence m\<rparr>"
      and "mission_fields_ok m"
    have "persisted_last_event_sequence m = last_event_sequence m"
      by (rule trans [OF arg_cong [OF m, of persisted_last_event_sequence]]) simp
    then show ?thesis using \<open>mission_fields_ok m\<close> by (simp add: mission_fields_ok_def)
  qed
  then show ?thesis
    using accepted_row_reads [OF assms, of t] store_serialize_normal [OF assms(2)] p by (simp add: mission_to_model_def)
qed

section \<open>Optimistic locking\<close>

lemma keeps_table_modify: "(\<And>db. mission_table (f db) = mission_table db) \<Longrightarrow> keeps (\<lambda>db. mission_table db = T) (modify f)"
  by (simp add: keeps_def wp)

lemma keeps_flush: "keeps I flush"
  by (simp add: keeps_def wp)

lemma keeps_table_append: "keeps (\<lambda>db. mission_table db = T) (append_mission_events c m p)"
  unfolding append_mission_events_def append_events_def notify_event_def db_uuid_def Let_def
  by (intro keeps_intro keeps_table_modify) simp_all

lemma keeps_table_provider: "keeps (\<lambda>db. mission_table db = T) (append_provider_history_events c m p)"
  by (auto simp: keeps_def wp_def append_provider_history_events_def split: prod.split sum.split)

lemma keeps_table_sync: "keeps (\<lambda>db. mission_table db = T) (synchronize_open_attempt m)"
  unfolding synchronize_open_attempt_def
  by (intro keeps_intro keeps_table_modify) (simp_all add: change_attempts_def close_open_attempt_def)

lemma update_table:
  assumes "sql_update c m db = (Inr r, db')"
  shows "\<exists>row. mission_to_model c 0 m = Inr row \<and> filter (is_version_of m) (mission_table db) \<noteq> []
     \<and> mission_table db' = map (\<lambda>r. if is_version_of m r then row\<lparr>row_created := row_created r\<rparr> else r) (mission_table db)"
proof -
  let ?T = "\<lambda>row. map (\<lambda>r. if is_version_of m r then row\<lparr>row_created := row_created r\<rparr> else r) (mission_table db)"
  have rest: "keeps (\<lambda>db. mission_table db = T) (thenE flush (thenE (synchronize_open_attempt m) (thenE flush
      (thenE (append_provider_history_events c m p) (thenE (append_mission_events c m p) (thenE flush (ret x)))))))" for T p x
    by (intro keeps_intro keeps_flush keeps_table_append keeps_table_provider keeps_table_sync)
  have "wp (sql_update c m) (\<lambda>_ db'. \<exists>row. mission_to_model c 0 m = Inr row \<and> filter (is_version_of m) (mission_table db) \<noteq> []
      \<and> mission_table db' = ?T row) (\<lambda>_ _. True) db"
  proof (cases "mission_to_model c 0 m")
    case (Inr row)
    show ?thesis
    proof (cases "filter (is_version_of m) (mission_table db) = []")
      case False
      have "wp (thenE flush (thenE (synchronize_open_attempt m) (thenE flush (thenE (append_provider_history_events c m (persisted_last_event_sequence m))
          (thenE (append_mission_events c m (persisted_last_event_sequence m)) (thenE flush (ret (mark_event_sequence_persisted m))))))))
          (\<lambda>_ db'. mission_table db' = ?T row) (\<lambda>_ _. True) (db\<lparr>mission_table := ?T row\<rparr>)"
        by (rule wp_mono [OF keeps_wp [OF rest]]) simp_all
      then show ?thesis using False Inr
        by (simp add: sql_update_def wp_bindE wp_liftE wp_gets wp_thenE [of "modify f" for f] wp_modify)
    qed (simp add: sql_update_def wp Inr)
  qed (simp add: sql_update_def wp)
  from wp_result [OF this assms] show ?thesis .
qed

text \<open>C10: of two writers that read the same version of a mission only the first is stored: when the first has
  recorded an event, the update of the second is refused as a conflict and its session leaves the database
  as the first writer left it.\<close>

theorem second_writer_refused:
  assumes "sql_update c m1 db = (Inr r, db')" and "last_event_sequence m1 \<noteq> persisted_last_event_sequence m1"
    and "mission_id m2 = mission_id m1" and "persisted_last_event_sequence m2 = persisted_last_event_sequence m1"
    and "mission_to_model c 0 m2 = Inr row2"
  shows "db_session (on_tables (sql_update c m2)) \<lparr>tables = db', saved = db'\<rparr>
     = (Inl (OtherError ''MissionEventSequenceConflictError''), \<lparr>tables = db', saved = db'\<rparr>)"
proof -
  obtain row where row: "mission_to_model c 0 m1 = Inr row" and some: "filter (is_version_of m1) (mission_table db) \<noteq> []"
      and table: "mission_table db' = map (\<lambda>r. if is_version_of m1 r then row\<lparr>row_created := row_created r\<rparr> else r) (mission_table db)"
    using update_table [OF assms(1)] by blast
  have new: "row_id row = mission_id m1" "last_event_sequence (row_columns row) = last_event_sequence m1"
    using row by (cases "store_serialize c (execution_log m1)";
        auto simp: mission_to_model_def row_id_def split: sum.splits if_splits)+
  have "\<not> is_version_of m2 r" if "r \<in> set (mission_table db')" for r
    using that assms(2-4) new unfolding table by (auto simp: is_version_of_def row_id_def)
  then have none: "filter (is_version_of m2) (mission_table db') = []" by (simp add: filter_empty_conv)
  obtain r0 where "r0 \<in> set (mission_table db)" "is_version_of m1 r0" using some by (auto simp: filter_empty_conv)
  then have "row\<lparr>row_created := row_created r0\<rparr> \<in> set (mission_table db')" unfolding table by (auto simp: image_iff)
  then have "mission_row_of (mission_id m2) db' \<noteq> None"
    using new(1) assms(3) by (auto simp: mission_row_of_def find_None_iff row_id_def)
  then have "sql_update c m2 db' = (Inl (OtherError ''MissionEventSequenceConflictError''), db')"
    using none by (simp add: sql_update_def assms(5) bindE_def liftE_def gets_def raise_def)
  then show ?thesis
    by (simp add: db_session_def on_tables_def tryElse_def rollback_def thenE_def bindE_def modify_def raise_def)
qed

section \<open>A schedule behind the expiry\<close>

lemma mapE_fails:
  assumes "x \<in> set xs" and "\<And>s. \<exists>e s'. f x s = (Inl e, s')"
  shows "\<exists>e s'. mapE f xs s = (Inl e, s')"
  using assms(1)
proof (induction xs arbitrary: s)
  case (Cons y ys)
  show ?case
  proof (cases "f y s")
    case (Pair r s1)
    show ?thesis
    proof (cases r)
      case (Inl e)
      then show ?thesis using Pair by (simp add: bindE_def)
    next
      case (Inr z)
      then have "x \<in> set ys" using Cons.prems assms(2) [of s] Pair by auto
      then obtain e s' where "mapE f ys s1 = (Inl e, s')" using Cons.IH by blast
      then show ?thesis using Pair Inr by (simp add: bindE_def)
    qed
  qed
qed simp

lemma late_schedule_unreadable:
  assumes "status (row_columns row) \<noteq> Processing" and "scheduled_at (row_columns row) = Some a" and "expires_at (row_columns row) = Some b" and "b < a"
  shows "\<exists>e. mission_from_model c row = Inl e"
proof (cases "mission_from_model c row")
  case (Inr m)
  obtain es p where "make_mission (row_read row p es) (map_option Aware (Some a)) (map_option Aware (Some b))
      (map_option Aware (claimed_at (row_columns row))) = Inr m"
    using from_model_parts [OF Inr] assms(1-3) by metis
  then have False
    by (rule make_mission_result [OF _ row_read_payload]) (use assms(4) in \<open>simp add: mission_fields_ok_def\<close>)
  then show ?thesis ..
qed simp

lemma session_failed:
  "p s = (Inl e, s') \<Longrightarrow> db_session p s = (Inl e, s'\<lparr>tables := saved s'\<rparr>)"
  by (simp add: db_session_def tryElse_def rollback_def thenE_def bindE_def modify_def raise_def)

lemma select_rows_in:
  "row \<in> set (select_rows p f limit db) \<Longrightarrow> row \<in> set (mission_table db) \<and> p (row_columns row) \<and> 0 < limit"
  unfolding select_rows_def first_n_def by (cases "0 < limit") (auto dest: in_set_takeD)

text \<open>C30: a mission whose schedule was put behind its expiry, which a retry does, stops the expiry of all missions
  once its expiry has passed: the row cannot be read as a mission any more, so every batch that selects it,
  whatever its limit and whether the mission is created, waiting or paused, raises and its session rolls back.
  No mission expires, and the worker, which expires before it claims, processes none.\<close>

theorem late_schedule_blocks_expiry:
  assumes "row \<in> set (select_rows (is_expirable now) expires_at limit (tables s))"
    and "scheduled_at (row_columns row) = Some a" and "expires_at (row_columns row) = Some b" and "b < a"
  shows "\<exists>e. db_session (sql_expire_due c (Aware now) limit) s = (Inl e, s\<lparr>tables := saved s\<rparr>)"
proof -
  let ?rows = "select_rows (is_expirable now) expires_at limit (tables s)"
  let ?body = "bindE (gets (select_rows (is_expirable now) expires_at limit)) (\<lambda>rows.
      bindE (mapE (sql_expire_one c (Aware now)) rows) (\<lambda>expired. thenE flush (ret expired)))"
  have "status (row_columns row) \<noteq> Processing" and "\<not> limit \<le> 0"
    using select_rows_in [OF assms(1)] by (auto simp: is_expirable_def)
  then obtain e0 where "mission_from_model c row = Inl e0" using late_schedule_unreadable [OF _ assms(2-4)] by blast
  then have "\<exists>e db'. sql_expire_one c (Aware now) row db = (Inl e, db')" for db
    by (simp add: sql_expire_one_def bindE_def liftE_def)
  then obtain e db' where "mapE (sql_expire_one c (Aware now)) ?rows (tables s) = (Inl e, db')"
    using mapE_fails [OF assms(1)] by metis
  then have "?body (tables s) = (Inl e, db')" by (simp add: bindE_def gets_def)
  then have "sql_expire_due c (Aware now) limit s = (Inl e, s\<lparr>tables := db'\<rparr>)"
    using \<open>\<not> limit \<le> 0\<close>
    by (simp add: sql_expire_due_def bindE_def [of "liftE x" for x] liftE_def validate_list_due_arguments_def)
      (simp add: bindE_def [of "on_tables x" for x] on_tables_def)
  from session_failed [of "sql_expire_due c (Aware now) limit" s, OF this] show ?thesis by simp
qed

section \<open>A database with one mission\<close>

definition plain_codec :: event_codec where
  "plain_codec = \<lparr>codec_coercions = plain_coercions, codec_serializer = standard_serializer (\<lambda>_. 1), codec_drawn = (\<lambda>n. (1, 1))\<rparr>"

lemma plain_codec_ok: "codec_ok plain_codec"
  by (simp add: codec_ok_def plain_codec_def plain_canonical standard_serializer_def)

definition stored_row :: "mission \<Rightarrow> mission_row" where
  "stored_row m = \<lparr>row_columns = m\<lparr>execution_log := [], persisted_last_event_sequence := 0\<rparr>, row_log = [], row_created = 0\<rparr>"

definition one_mission_db :: "mission \<Rightarrow> mission_db" where
  "one_mission_db m = \<lparr>mission_table = [stored_row m], attempt_table = [], event_table = [], provider_table = [], outbox_table = [],
     db_clock = 0, db_fresh = (\<lambda>n. n + 100), db_tick = 0\<rparr>"

lemma one_mission_constraints: "constraints_hold (one_mission_db m)"
  by (simp add: constraints_hold_def one_mission_db_def open_attempts_def)

lemma one_mission_in_step:
  assumes "last_event_sequence m = 0"
  shows "in_step plain_codec (one_mission_db m)"
proof -
  have "stored_log plain_codec (stored_row m) []"
    using assms by (simp add: stored_log_def stored_row_def validate_event_sequence_def)
  moreover have "projected_log plain_codec k [] (one_mission_db m)" for k
    by (simp add: projected_log_def event_rows_def one_mission_db_def synced_def projections_def)
  ultimately show ?thesis
    using one_mission_constraints [of m] by (auto simp: in_step_def one_mission_db_def)
qed

definition planned_mission :: "mission_status \<Rightarrow> time option \<Rightarrow> mission" where
  "planned_mission st t = (sample_mission st)\<lparr>scheduled_at := t\<rparr>"

lemma sample_accepted:
  assumes "status m = Processing \<longleftrightarrow> claimed_at m \<noteq> None" and "validate_event_sequence (execution_log m) (last_event_sequence m) = Inr ()"
    and "0 \<le> last_event_sequence m" and "persisted_last_event_sequence m = last_event_sequence m" and "expires_at m = None"
    and "m = (sample_mission st)\<lparr>scheduled_at := scheduled_at m, claimed_at := claimed_at m, last_event_sequence := last_event_sequence m,
        execution_log := execution_log m, persisted_last_event_sequence := persisted_last_event_sequence m\<rparr>"
  shows "accepted_mission m"
proof -
  let ?p = "\<lparr>origin = ''Oslo'', destination = ''Bergen'', departure_date = 739000\<rparr>"
  have f: "legacy_type m = TrainTicket" "payload m = Some ?p" "provider_id m = None" "resolved_provider_id m = None" "reservation_id m = None"
      "participant_ids m = [3]" "provider m = ''mock''" "execution_attempts m = 0" "max_execution_attempts m = 3" "constraints m = sample_constraints"
    by (subst assms(6), simp add: sample_mission_def)+
  have "payload_from_column (Some ?p) = Inr ?p"
    by (simp add: payload_from_column_def make_train_payload_def py_strip_def is_space_def casefold_def casefold_char_def)
  moreover have "make_mission m (map_option Aware (scheduled_at m)) (map_option Aware (expires_at m)) (map_option Aware (claimed_at m)) = Inr m"
  proof (rule make_mission_intro [OF f(2)])
    show "normalize_provider_id (provider_id m) = Inr None" "normalize_provider_id (resolved_provider_id m) = Inr None"
        "validate_reservation_id (reservation_id m) = Inr None"
      by (simp_all add: f normalize_provider_id_def validate_reservation_id_def)
    show "m = m\<lparr>payload := Some ?p, scheduled_at := scheduled_at m, expires_at := expires_at m, claimed_at := claimed_at m, provider_id := None,
        resolved_provider_id := None, reservation_id := None, persisted_last_event_sequence := last_event_sequence m\<rparr>"
      using f(2-5) assms(4) by (cases m) simp
    show "mission_bounds_ok m" using assms(3) by (simp add: mission_bounds_ok_def f sample_constraints_def)
    show "mission_fields_ok m" using assms(1,2,5) by (cases "scheduled_at m") (simp_all add: mission_fields_ok_def f)
  qed
  ultimately show ?thesis using f(1,2) by (simp add: accepted_mission_def)
qed

lemma planned_accepted: "accepted_mission (planned_mission st t)"
  by (rule sample_accepted [where st = st]) (simp_all add: planned_mission_def validate_event_sequence_def, simp_all add: sample_mission_def)

lemma planned_row_reads: "mission_from_model plain_codec (stored_row (planned_mission st t)) = Inr (planned_mission st t)"
  using accepted_row_reads [OF plain_codec_ok _ planned_accepted, of st t 0]
  by (simp add: stored_row_def) (simp add: planned_mission_def)

definition finished_event :: execution_event where
  "finished_event = \<lparr>event_id = 5, correlation_id = 5, causation_id = None, event_sequence = 1, event_timestamp = Aware 0,
     event_type = ''mission_completed'', event_message = ''done'', event_metadata = []\<rparr>"

definition finished_mission :: mission where
  "finished_mission = (sample_mission Completed)\<lparr>execution_log := [finished_event], last_event_sequence := 1\<rparr>"

lemma finished_event_normal: "normal_event c finished_event"
  by (simp add: normal_event_def finished_event_def in_range_def with_serialized_payload_def generic_event_types_def)

lemma finished_row:
  "mission_to_model plain_codec t finished_mission = Inr \<lparr>row_columns = finished_mission\<lparr>execution_log := []\<rparr>,
     row_log = [stored_raw plain_codec finished_event], row_created = t\<rparr>"
  using store_serialize_normal [of "[finished_event]" plain_codec]
  by (simp add: mission_to_model_def finished_mission_def finished_event_normal validate_event_sequence_def)
    (simp add: sample_mission_def finished_event_def)

definition finished_row_stored :: mission_row where
  "finished_row_stored = \<lparr>row_columns = finished_mission\<lparr>execution_log := []\<rparr>, row_log = [stored_raw plain_codec finished_event], row_created = 0\<rparr>"

definition finished_again :: mission where
  "finished_again = finished_mission\<lparr>persisted_last_event_sequence := 1\<rparr>"

lemma finished_accepted: "accepted_mission finished_again"
  by (rule sample_accepted [where st = Completed])
    (simp_all add: finished_again_def finished_mission_def validate_event_sequence_def, simp_all add: sample_mission_def finished_event_def)

lemma finished_row_reads: "mission_from_model plain_codec finished_row_stored = Inr finished_again"
proof -
  have e: "execution_log finished_again = [finished_event]" by (simp add: finished_again_def finished_mission_def)
  have "\<lparr>row_columns = finished_again\<lparr>execution_log := [], persisted_last_event_sequence := 0\<rparr>,
      row_log = map (stored_raw plain_codec) [finished_event], row_created = 0\<rparr> = finished_row_stored"
    by (simp add: finished_row_stored_def finished_again_def finished_mission_def) (simp add: sample_mission_def)
  then show ?thesis
    using accepted_row_reads [OF plain_codec_ok _ finished_accepted, of 0] by (simp add: e finished_event_normal)
qed

theorem stored_mission_reads_back_witness:
  "\<exists>row. mission_to_model plain_codec 0 finished_again = Inr row \<and> mission_from_model plain_codec row = Inr finished_again"
proof -
  have "execution_log finished_again = [finished_event]" by (simp add: finished_again_def finished_mission_def)
  then have "\<forall>e \<in> set (execution_log finished_again). normal_event plain_codec e" by (simp add: finished_event_normal)
  from stored_mission_reads_back [OF plain_codec_ok this finished_accepted] show ?thesis by blast
qed

lemma finished_provider: "append_provider_history_events c finished_mission p db = (Inr (), db)"
proof -
  have "project_event py k i finished_event = Inr None" for py k i
    by (simp add: project_event_def is_history_event_def history_type_of_def finished_event_def)
  then have "project_indexed py k (indexed_after [finished_event] p) = (ret [] :: (history_table, exn, _) prog)" for py k
    by (simp add: project_indexed_def indexed_after_def liftE_Inr bindE_ret)
  then show ?thesis
    by (simp add: append_provider_history_events_def store_history_def finished_mission_def bindE_ret) (simp add: ret_def)
qed

lemma finished_append:
  "append_mission_events plain_codec finished_mission 0 db = (Inr (), db\<lparr>event_table := event_table db @ [event_entry plain_codec 7 finished_event],
     outbox_table := outbox_table db @ [outbox_entry finished_mission finished_event (stored_raw plain_codec finished_event) (db_fresh db (db_tick db))],
     db_tick := Suc (db_tick db)\<rparr>)"
proof -
  have "logged_after (execution_log finished_mission) 0 = [finished_event]"
    by (simp add: logged_after_def finished_mission_def finished_event_def)
  from append_mission_events_normal [OF _ this, of plain_codec db]
  have "append_mission_events plain_codec finished_mission 0 db = (Inr (), db\<lparr>event_table := event_table db @ map (event_entry plain_codec (mission_id finished_mission)) [finished_event],
      outbox_table := outbox_table db @ outbox_messages plain_codec finished_mission [finished_event] db,
      db_tick := db_tick db + length (notified [finished_event])\<rparr>)" by (simp add: finished_event_normal)
  moreover have "notified [finished_event] = [finished_event]"
    by (simp add: notified_def notification_event_types_def finished_event_def)
  ultimately show ?thesis by (simp add: outbox_messages_def) (simp add: finished_mission_def)
qed

lemma finished_update:
  "\<exists>r db'. sql_update plain_codec finished_mission (one_mission_db (sample_mission Created)) = (Inr r, db')"
proof -
  let ?v = "is_version_of finished_mission"
  have v: "?v (stored_row (sample_mission Created))"
    by (simp add: is_version_of_def stored_row_def row_id_def finished_mission_def) (simp add: sample_mission_def)
  have p: "persisted_last_event_sequence finished_mission = 0" "status finished_mission = Completed" "mission_id finished_mission = 7"
    by (simp_all add: finished_mission_def) (simp add: sample_mission_def)
  have sync: "synchronize_open_attempt finished_mission (one_mission_db m\<lparr>mission_table := T\<rparr>) = (Inr (), one_mission_db m\<lparr>mission_table := T\<rparr>)" for m T
    by (simp add: synchronize_open_attempt_def p one_mission_db_def bindE_def gets_def ret_def)
  define row where "row = \<lparr>row_columns = finished_mission\<lparr>execution_log := []\<rparr>, row_log = [stored_raw plain_codec finished_event], row_created = (0 :: time)\<rparr>"
  have row: "row_id row = 7" "row\<lparr>row_created := 0\<rparr> = row" by (simp_all add: row_def row_id_def p)
  have one: "constraints_hold (one_mission_db m\<lparr>mission_table := [row]\<rparr>)" for m
    by (simp add: constraints_hold_def one_mission_db_def open_attempts_def)
  have two: "constraints_hold (one_mission_db m\<lparr>mission_table := [row], event_table := [event_entry plain_codec 7 e], outbox_table := [outbox_entry finished_mission e raw i], db_tick := n\<rparr>)"
    for m e raw i n
    using row(1) by (simp add: constraints_hold_def one_mission_db_def open_attempts_def event_entry_def outbox_entry_def p)
  have table: "mission_table (one_mission_db (sample_mission Created)) = [stored_row (sample_mission Created)]"
      "event_table (one_mission_db m) = []" "outbox_table (one_mission_db m) = []" "row_created (stored_row m) = 0" for m
    by (simp_all add: one_mission_db_def stored_row_def)
  show ?thesis
    by (simp add: sql_update_def finished_row row_def [symmetric] bindE_def [of "liftE x" for x] liftE_def)
      (simp add: bindE_def thenE_def gets_def modify_def flush_def require_def ret_def table v row sync p finished_provider finished_append one two)
qed

theorem update_keeps_in_step_witness:
  "\<exists>r db'. sql_update plain_codec finished_mission (one_mission_db (sample_mission Created)) = (Inr r, db')
     \<and> in_step plain_codec db' \<and> map message_event (outbox_table db') = [5]"
proof -
  let ?db = "one_mission_db (sample_mission Created)"
  obtain r db' where u: "sql_update plain_codec finished_mission ?db = (Inr r, db')" using finished_update by blast
  have "planned_mission Created None = sample_mission Created" by (simp add: planned_mission_def sample_mission_def)
  then have "mission_from_model plain_codec (stored_row (sample_mission Created)) = Inr (sample_mission Created)"
    using planned_row_reads [of Created None] by simp
  then have g: "sql_get plain_codec (mission_id finished_mission) ?db = (Inr (Some (sample_mission Created)), ?db)"
    by (simp add: sql_get_def mission_row_of_def one_mission_db_def stored_row_def row_id_def finished_mission_def
        bindE_def gets_def liftE_def ret_def)
  have n: "\<forall>e \<in> set [finished_event]. normal_event plain_codec e" by (simp add: finished_event_normal)
  from update_keeps_in_step [OF plain_codec_ok one_mission_in_step g _ n u]
  have "in_step plain_codec db' \<and> outbox_table db' = outbox_table ?db @ outbox_messages plain_codec finished_mission [finished_event] ?db"
    by (simp add: finished_mission_def)
  moreover have "map message_event (outbox_messages plain_codec finished_mission [finished_event] ?db) = [5]"
    by (simp add: outbox_messages_def notified_def notification_event_types_def outbox_entry_def finished_event_def)
  ultimately show ?thesis using u by (auto simp: one_mission_db_def)
qed

theorem second_writer_refused_witness:
  "\<exists>r db'. sql_update plain_codec finished_mission (one_mission_db (sample_mission Created)) = (Inr r, db')
     \<and> db_session (on_tables (sql_update plain_codec finished_mission)) \<lparr>tables = db', saved = db'\<rparr>
       = (Inl (OtherError ''MissionEventSequenceConflictError''), \<lparr>tables = db', saved = db'\<rparr>)"
proof -
  obtain r db' where u: "sql_update plain_codec finished_mission (one_mission_db (sample_mission Created)) = (Inr r, db')"
    using finished_update by blast
  have p: "last_event_sequence finished_mission = 1" "persisted_last_event_sequence finished_mission = 0"
    by (simp_all add: finished_mission_def) (simp add: sample_mission_def)
  have "db_session (on_tables (sql_update plain_codec finished_mission)) \<lparr>tables = db', saved = db'\<rparr>
       = (Inl (OtherError ''MissionEventSequenceConflictError''), \<lparr>tables = db', saved = db'\<rparr>)"
    by (rule second_writer_refused [OF u _ _ _ finished_row]) (simp_all add: p)
  with u show ?thesis by blast
qed

text \<open>A paused mission behind its expiry, before another overdue mission, in a batch of one.\<close>

theorem late_schedule_blocks_expiry_witness:
  "\<exists>e. db_session (sql_expire_due plain_codec (Aware 5) 1)
       \<lparr>tables = (one_mission_db (sample_mission Created))\<lparr>mission_table :=
            [stored_row ((sample_mission Waiting)\<lparr>mission_id := 8, expires_at := Some 5\<rparr>),
             stored_row ((planned_mission Paused (Some 9))\<lparr>expires_at := Some 4\<rparr>)]\<rparr>, saved = one_mission_db (sample_mission Created)\<rparr>
     = (Inl e, \<lparr>tables = one_mission_db (sample_mission Created), saved = one_mission_db (sample_mission Created)\<rparr>)"
proof -
  let ?m = "(planned_mission Paused (Some 9))\<lparr>expires_at := Some 4\<rparr>"
  let ?s = "\<lparr>tables = (one_mission_db (sample_mission Created))\<lparr>mission_table :=
      [stored_row ((sample_mission Waiting)\<lparr>mission_id := 8, expires_at := Some 5\<rparr>), stored_row ?m]\<rparr>,
      saved = one_mission_db (sample_mission Created)\<rparr>"
  have "\<exists>e. db_session (sql_expire_due plain_codec (Aware 5) 1) ?s = (Inl e, ?s\<lparr>tables := saved ?s\<rparr>)"
    by (rule late_schedule_blocks_expiry [where row = "stored_row ?m" and a = 9 and b = 4])
      (simp_all add: select_rows_def first_n_def is_expirable_def time_or_def stored_row_def planned_mission_def)
  then show ?thesis by simp
qed

end
