(* ===== verification/SqlClaims.thy ===== *)
theory SqlClaims
  imports SqlMissionContracts
begin

text \<open>
  The claim of the repository in the database refines that of the repository in memory: from states that hold
  the same missions and attempts both claim the same missions, and hold the same afterwards.
\<close>

section \<open>The simulation relation\<close>

definition holds_mission :: "event_codec \<Rightarrow> mission_row \<Rightarrow> mission \<Rightarrow> bool" where
  "holds_mission c row m \<longleftrightarrow> mission_from_model c row = Inr m
     \<and> row_columns row = m\<lparr>execution_log := [], persisted_last_event_sequence := 0\<rparr>"

definition holds_entry :: "event_codec \<Rightarrow> mission_row \<Rightarrow> uuid \<times> mission \<Rightarrow> bool" where
  "holds_entry c row km \<longleftrightarrow> fst km = row_id row \<and> holds_mission c row (snd km)"

definition stored_as :: "event_codec \<Rightarrow> mission_db \<Rightarrow> 'a mission_repo_scheme \<Rightarrow> bool" where
  "stored_as c db s \<longleftrightarrow> list_all2 (holds_entry c) (mission_table db) (missions s)
     \<and> (\<forall>k. attempts_of s k = filter (\<lambda>a. attempt_mission_id a = k) (attempt_table db))
     \<and> db_fresh db = fresh s \<and> db_tick db = tick s"

lemma holds_id: "holds_mission c row m \<Longrightarrow> row_id row = mission_id m"
  by (simp add: holds_mission_def row_id_def)

section \<open>Related lists\<close>

lemma insort_related:
  assumes "list_all2 R xs ys" and "R x y" and "\<And>x y. R x y \<Longrightarrow> f x = g y"
  shows "list_all2 R (insort_key f x xs) (insort_key g y ys)"
  using assms(1) by (induction rule: list_all2_induct) (auto simp: assms(2) assms(3) [OF assms(2)] dest: assms(3))

lemma sort_related:
  assumes "list_all2 R xs ys" and "\<And>x y. R x y \<Longrightarrow> f x = g y"
  shows "list_all2 R (sort_key f xs) (sort_key g ys)"
  using assms(1) by (induction rule: list_all2_induct) (simp_all add: insort_related assms(2))

lemma filter_related:
  assumes "list_all2 R xs ys" and "\<And>x y. R x y \<Longrightarrow> P x = Q y"
  shows "list_all2 (\<lambda>x y. R x y \<and> Q y) (filter P xs) (filter Q ys)"
  using assms(1) by (induction rule: list_all2_induct) (auto simp: assms(2))

lemma first_related: "list_all2 R xs ys \<Longrightarrow> list_all2 R (first_n n xs) (first_n n ys)"
  by (simp add: first_n_def list_all2_takeI)

lemma due_columns:
  assumes "holds_mission c row m"
  shows "is_due now (row_columns row) = is_due now m" and "scheduled_at (row_columns row) = scheduled_at m"
  using assms by (simp_all add: holds_mission_def is_due_def has_exhausted_attempts_def)

lemma due_related:
  assumes "stored_as c db s"
  shows "list_all2 (holds_mission c) (select_rows (is_due now) scheduled_at limit db) (due_missions now limit s)"
proof -
  have "list_all2 (holds_mission c) (mission_table db) (dict_values (missions s))"
    using assms unfolding stored_as_def dict_values_def list_all2_map2 by (auto elim: list_all2_mono simp: holds_entry_def)
  then have "list_all2 (\<lambda>row m. holds_mission c row m \<and> is_due now m)
      (filter (\<lambda>row. is_due now (row_columns row)) (mission_table db)) (filter (is_due now) (dict_values (missions s)))"
    by (rule filter_related) (rule due_columns)
  then have "list_all2 (\<lambda>row m. holds_mission c row m \<and> is_due now m)
      (select_rows (is_due now) scheduled_at limit db) (due_missions now limit s)"
    unfolding select_rows_def due_missions_def
    by (intro first_related sort_related) (auto simp: due_columns is_due_def time_or_def split: option.splits)
  then show ?thesis by (rule list_all2_mono) simp
qed

section \<open>Claiming one mission\<close>

lemma claimed_read:
  assumes "m = R\<lparr>payload := Some p, scheduled_at := sch, expires_at := ex, claimed_at := cl, provider_id := pid, resolved_provider_id := rpid,
      reservation_id := rid, persisted_last_event_sequence := last_event_sequence R\<rparr>"
    and "raw = R\<lparr>status := Processing, claimed_at := Some now, execution_attempts := execution_attempts m + 1,
      max_execution_attempts := max_execution_attempts m\<rparr>"
  shows "claimed now m = raw\<lparr>payload := Some p, scheduled_at := sch, expires_at := ex, claimed_at := Some now, provider_id := pid,
      resolved_provider_id := rpid, reservation_id := rid, persisted_last_event_sequence := last_event_sequence raw\<rparr>"
  unfolding assms by (cases R) (simp add: claimed_def)

lemma from_model_read:
  assumes "store_deserialize c (mission_id (row_columns row)) (row_log row) (last_event_sequence (row_columns row)) = Inr es"
    and "payload_from_column (payload (row_columns row)) = Inr p" and "claimed_at (row_columns row) \<noteq> None"
  shows "mission_from_model c row = make_mission (row_read row p es) (map_option Aware (scheduled_at (row_columns row)))
     (map_option Aware (expires_at (row_columns row))) (map_option Aware (claimed_at (row_columns row)))"
  using assms by (cases "claimed_at (row_columns row)") (simp_all add: mission_from_model_def row_read_def Let_def)

lemma claimed_holds:
  assumes "holds_mission c row m" and "is_due now m"
  shows "holds_mission c (claim_columns now row) (claimed now m)"
proof -
  let ?cols = "row_columns row" and ?row = "claim_columns now row"
  have cols: "?cols = m\<lparr>execution_log := [], persisted_last_event_sequence := 0\<rparr>" using assms(1) by (simp add: holds_mission_def)
  have m: "mission_from_model c row = Inr m" using assms(1) by (simp add: holds_mission_def)
  have st: "status ?cols \<noteq> Processing" using assms(2) cols by (simp add: is_due_def)
  obtain es p where d: "store_deserialize c (mission_id ?cols) (row_log row) (last_event_sequence ?cols) = Inr es"
      and p: "payload_from_column (payload ?cols) = Inr p"
      and made: "make_mission (row_read row p es) (map_option Aware (scheduled_at ?cols)) (map_option Aware (expires_at ?cols))
          (map_option Aware (claimed_at ?cols)) = Inr m"
    using from_model_parts [OF m] st by metis
  let ?R = "row_read row p es"
  from made obtain pid rpid rid where meq: "m = ?R\<lparr>payload := Some p, scheduled_at := scheduled_at ?cols, expires_at := expires_at ?cols,
        claimed_at := claimed_at ?cols, provider_id := pid, resolved_provider_id := rpid, reservation_id := rid,
        persisted_last_event_sequence := last_event_sequence ?R\<rparr>"
      and ids: "normalize_provider_id (provider_id ?R) = Inr pid" "normalize_provider_id (resolved_provider_id ?R) = Inr rpid"
        "validate_reservation_id (reservation_id ?R) = Inr rid"
      and ok: "mission_bounds_ok m" "mission_fields_ok m"
    by (rule make_mission_result [OF _ row_read_payload])
  have attempts: "execution_attempts m < max_execution_attempts m" using assms(2) by (simp add: is_due_def has_exhausted_attempts_def)
  have bounds: "mission_bounds_ok (claimed now m)" using ok(1) by (simp add: mission_bounds_ok_def claimed_def)
  have fields: "mission_fields_ok (claimed now m)" using ok(2) attempts by (simp add: mission_fields_ok_def claimed_def)
  have "1 \<le> max_execution_attempts m" using ok(1) by (simp add: mission_bounds_ok_def)
  then have read: "row_read ?row p es = ?R\<lparr>status := Processing, claimed_at := Some now,
      execution_attempts := execution_attempts m + 1, max_execution_attempts := max_execution_attempts m\<rparr>"
    using attempts by (simp add: row_read_def claim_columns_def Let_def cols)
  have kept: "provider_id (row_read ?row p es) = provider_id ?R" "resolved_provider_id (row_read ?row p es) = resolved_provider_id ?R"
      "reservation_id (row_read ?row p es) = reservation_id ?R" "payload (row_read ?row p es) = Some p"
    unfolding read by (simp_all add: row_read_payload)
  have "make_mission (row_read ?row p es) (map_option Aware (scheduled_at ?cols)) (map_option Aware (expires_at ?cols)) (map_option Aware (Some now))
      = Inr (claimed now m)"
    by (rule make_mission_intro [OF kept(4)], unfold kept, rule ids, rule ids, rule ids, rule claimed_read [OF meq read], rule bounds, rule fields)
  moreover have row: "row_columns ?row = ?cols\<lparr>status := Processing, claimed_at := Some now, execution_attempts := execution_attempts ?cols + 1\<rparr>"
      "row_log ?row = row_log row"
    by (simp_all add: claim_columns_def)
  have "mission_from_model c ?row = make_mission (row_read ?row p es) (map_option Aware (scheduled_at (row_columns ?row)))
      (map_option Aware (expires_at (row_columns ?row))) (map_option Aware (claimed_at (row_columns ?row)))"
    by (rule from_model_read) (simp_all add: row d p)
  ultimately have "mission_from_model c ?row = Inr (claimed now m)" unfolding row by simp
  moreover have "row_columns ?row = (claimed now m)\<lparr>execution_log := [], persisted_last_event_sequence := 0\<rparr>"
    by (simp add: claim_columns_def cols claimed_def)
  ultimately show ?thesis by (simp add: holds_mission_def)
qed

lemma holds_keys: "list_all2 (holds_entry c) T D \<Longrightarrow> map row_id T = map fst D"
  by (induction rule: list_all2_induct) (simp_all add: holds_entry_def)

lemma holds_set:
  assumes "list_all2 (holds_entry c) T D" and "dict_ok D" and "map_of D k = Some m"
    and "\<And>row. holds_mission c row m \<Longrightarrow> holds_mission c (f row) m'" and "\<And>row. row_id (f row) = row_id row"
  shows "list_all2 (holds_entry c) (map (\<lambda>row. if row_id row = k then f row else row) T) (dict_set k m' D)"
  using assms(1-3)
proof (induction T D rule: list_all2_induct)
  case (Cons row T km D)
  obtain k0 m0 where km: "km = (k0, m0)" by fastforce
  have h: "k0 = row_id row" "holds_mission c row m0" using Cons.hyps(1) by (simp_all add: holds_entry_def km)
  show ?case
  proof (cases "k0 = k")
    case True
    have "\<forall>r \<in> set T. row_id r \<noteq> k"
      using Cons.prems(1) True arg_cong [OF holds_keys [OF Cons.hyps(2)], of set] by (auto simp: km dict_ok_def)
    then have "map (\<lambda>row. if row_id row = k then f row else row) T = T" by (auto intro: map_idI)
    moreover have "holds_entry c (f row) (k, m')" using True h Cons.prems(2) assms(4,5) by (simp add: km holds_entry_def)
    ultimately show ?thesis using True h(1) Cons.hyps(2) by (simp add: km)
  next
    case False
    then show ?thesis using Cons h by (simp add: km holds_entry_def dict_ok_def)
  qed
qed simp

lemma sql_claim_one_eq:
  "sql_claim_one (Aware now) row db = (Inr (claim_columns now row),
     db\<lparr>mission_table := map (\<lambda>r. if row_id r = row_id row then claim_columns now r else r) (mission_table db), db_tick := Suc (db_tick db),
       attempt_table := attempt_table db @ [claim_attempt now (row_columns row) (db_fresh db (db_tick db))]\<rparr>)"
  by (simp add: sql_claim_one_def db_uuid_def change_row_def claim_columns_def claim_attempt_def row_id_def Let_def
      bindE_def thenE_def gets_def modify_def ret_def)

lemma claim_attempt_columns: "holds_mission c row m \<Longrightarrow> claim_attempt now (row_columns row) i = claim_attempt now m i"
  by (simp add: holds_mission_def claim_attempt_def)

definition claim_frame :: "mission_db \<Rightarrow> mission_db \<Rightarrow> bool" where
  "claim_frame db db' \<longleftrightarrow> event_table db' = event_table db \<and> provider_table db' = provider_table db \<and> outbox_table db' = outbox_table db
     \<and> map row_id (mission_table db') = map row_id (mission_table db)"

lemma claim_step_related:
  assumes "stored_as c db s" and "repo_ok s" and "holds_mission c row m" and "map_of (missions s) (mission_id m) = Some m" and "is_due now m"
  shows "\<exists>db' s'. sql_claim_one (Aware now) row db = (Inr (claim_columns now row), db') \<and> claim_one now m s = (Inr (claimed now m), s')
     \<and> stored_as c db' s' \<and> claim_frame db db' \<and> tick s' = Suc (tick s)
     \<and> map attempt_id (attempt_table db') = map attempt_id (attempt_table db) @ [fresh s (tick s)]"
proof -
  let ?k = "mission_id m" and ?a = "claim_attempt now m (fresh s (tick s))"
  let ?db = "db\<lparr>mission_table := map (\<lambda>r. if row_id r = ?k then claim_columns now r else r) (mission_table db), db_tick := Suc (db_tick db),
      attempt_table := attempt_table db @ [?a]\<rparr>"
  let ?s = "s\<lparr>missions := dict_set ?k (claimed now m) (missions s), tick := Suc (tick s),
      attempts := dict_set ?k (attempts_of s ?k @ [?a]) (attempts s)\<rparr>"
  have sql: "sql_claim_one (Aware now) row db = (Inr (claim_columns now row), ?db)"
    using assms(1) by (simp add: sql_claim_one_eq claim_attempt_columns [OF assms(3)] holds_id [OF assms(3)] stored_as_def)
  have "0 \<le> execution_attempts m" using repo_ok_entry [OF assms(2,4)] by (simp add: entry_ok_def)
  then have memory: "claim_one now m s = (Inr (claimed now m), ?s)" by (rule claim_one_eq [OF assms(4)])
  have "list_all2 (holds_entry c) (mission_table ?db) (missions ?s)"
  proof -
    have "list_all2 (holds_entry c) (map (\<lambda>r. if row_id r = ?k then claim_columns now r else r) (mission_table db))
        (dict_set ?k (claimed now m) (missions s))"
    proof (rule holds_set [OF _ _ assms(4)])
      show "list_all2 (holds_entry c) (mission_table db) (missions s)" using assms(1) by (simp add: stored_as_def)
      show "dict_ok (missions s)" using assms(2) by (simp add: repo_ok_def)
    qed (simp_all add: claimed_holds assms(5), simp add: claim_columns_def row_id_def)
    then show ?thesis by simp
  qed
  moreover have "attempts_of ?s k = filter (\<lambda>a. attempt_mission_id a = k) (attempt_table ?db)" for k
    using assms(1) by (simp add: stored_as_def attempts_of_def dict_get_or_def claim_attempt_def)
  ultimately have rel: "stored_as c ?db ?s" using assms(1) by (simp add: stored_as_def)
  have ids: "map row_id (mission_table ?db) = map row_id (mission_table db)" by (simp add: claim_columns_def row_id_def)
  show ?thesis
    by (rule exI [of _ ?db], rule exI [of _ ?s]) (use sql memory rel ids in \<open>simp add: claim_attempt_def claim_frame_def\<close>)
qed


section \<open>Claiming a batch\<close>

lemma claim_loop_related:
  assumes "list_all2 (holds_mission c) rows ms" and "stored_as c db s" and "repo_ok s" and "distinct (map mission_id ms)"
    and "\<And>m. m \<in> set ms \<Longrightarrow> map_of (missions s) (mission_id m) = Some m \<and> is_due now m"
  shows "\<exists>db' s'. mapE (sql_claim_one (Aware now)) rows db = (Inr (map (claim_columns now) rows), db')
     \<and> mapE (claim_one now) ms s = (Inr (map (claimed now) ms), s') \<and> stored_as c db' s' \<and> claim_frame db db'
     \<and> map attempt_id (attempt_table db') = map attempt_id (attempt_table db) @ map (fresh s) [tick s ..< tick s + length ms]"
  using assms
proof (induction rows ms arbitrary: db s rule: list_all2_induct)
  case Nil
  then show ?case by (intro exI [of _ db] exI [of _ s]) (simp add: ret_def claim_frame_def)
next
  case (Cons row rows m ms)
  have m: "map_of (missions s) (mission_id m) = Some m" "is_due now m" using Cons.prems(4) by simp_all
  obtain db1 s1 where sql: "sql_claim_one (Aware now) row db = (Inr (claim_columns now row), db1)"
      and mem: "claim_one now m s = (Inr (claimed now m), s1)" and rel: "stored_as c db1 s1"
      and frame: "claim_frame db db1" and tick: "tick s1 = Suc (tick s)"
      and as: "map attempt_id (attempt_table db1) = map attempt_id (attempt_table db) @ [fresh s (tick s)]"
    using claim_step_related [OF Cons.prems(1,2) Cons.hyps(1) m] by blast
  have "wp (mapE (claim_one now) [m]) (\<lambda>rs s'. rs = map (claimed now) [m] \<and> claimed_state now s [m] s') (\<lambda>_ _. False) s"
    by (rule claim_loop [OF Cons.prems(2)]) (use m in simp_all)
  then have st: "claimed_state now s [m] s1" by (simp add: wp_def bindE_def mem ret_def)
  then have s1: "repo_ok s1" "fresh s1 = fresh s" by (simp_all add: claimed_state_def)
  have rest: "map_of (missions s1) (mission_id m') = Some m' \<and> is_due now m'" if "m' \<in> set ms" for m'
  proof -
    have "mission_id m' \<noteq> mission_id m" using that Cons.prems(3) by (metis distinct.simps(2) image_eqI list.set_map list.simps(9))
    then show ?thesis using Cons.prems(4) [of m'] that st by (simp add: claimed_state_def)
  qed
  obtain db2 s2 where sql2: "mapE (sql_claim_one (Aware now)) rows db1 = (Inr (map (claim_columns now) rows), db2)"
      and mem2: "mapE (claim_one now) ms s1 = (Inr (map (claimed now) ms), s2)" and rel2: "stored_as c db2 s2" and frame2: "claim_frame db1 db2"
      and as2: "map attempt_id (attempt_table db2) = map attempt_id (attempt_table db1) @ map (fresh s1) [tick s1 ..< tick s1 + length ms]"
    using Cons.IH [OF rel s1(1) _ rest] Cons.prems(3) by auto
  have "mapE (sql_claim_one (Aware now)) (row # rows) db = (Inr (map (claim_columns now) (row # rows)), db2)"
    by (simp add: bindE_def sql sql2 ret_def)
  moreover have "mapE (claim_one now) (m # ms) s = (Inr (map (claimed now) (m # ms)), s2)"
    by (simp add: bindE_def mem mem2 ret_def)
  moreover have "claim_frame db db2" using frame frame2 by (simp add: claim_frame_def)
  moreover have "map attempt_id (attempt_table db2) = map attempt_id (attempt_table db) @ map (fresh s) [tick s ..< tick s + length (m # ms)]"
    using as as2 s1(2) tick by (simp add: upt_rec [of "tick s"] del: upt_Suc)
  ultimately show ?case using rel2 by blast
qed

text \<open>A key that is unique within each mission is unique with the mission.\<close>

lemma distinct_within:
  assumes "\<And>k. distinct (map g (filter (\<lambda>a. f a = k) xs))"
  shows "distinct (map (\<lambda>a. (f a, g a)) xs)"
  using assms
proof (induction xs)
  case (Cons x xs)
  have "distinct (map g (filter (\<lambda>a. f a = k) xs))" for k
    using Cons.prems [of k] by (simp split: if_splits)
  moreover have "g x \<notin> g ` {a \<in> set xs. f a = f x}" using Cons.prems [of "f x"] by simp
  ultimately show ?case using Cons.IH by force
qed simp

lemma distinct_single:
  assumes "\<And>k. length (filter (\<lambda>a. f a = k) xs) \<le> 1"
  shows "distinct (map f xs)"
  using assms
proof (induction xs)
  case (Cons x xs)
  have "length (filter (\<lambda>a. f a = k) xs) \<le> 1" for k
    using Cons.prems [of k] by (simp split: if_splits)
  moreover have "filter (\<lambda>a. f a = f x) xs = []" using Cons.prems [of "f x"] by simp
  ultimately show ?case using Cons.IH by (auto simp: filter_empty_conv)
qed simp

lemma one_open:
  assumes "\<forall>a \<in> set (butlast as). \<not> P a"
  shows "length (filter P as) \<le> 1"
  using assms by (cases as rule: rev_cases) (simp_all add: filter_empty_conv)

lemma stored_constraints:
  assumes "constraints_hold db" and "claim_frame db db'" and "stored_as c db' s" and "repo_ok s"
    and "distinct (map attempt_id (attempt_table db'))"
  shows "constraints_hold db'"
proof -
  let ?T = "attempt_table db'"
  have of: "attempts_of s k = filter (\<lambda>a. attempt_mission_id a = k) ?T" for k using assms(3) by (simp add: stored_as_def)
  have entry: "attempts_of s k = [] \<or> (\<exists>m. map_of (missions s) k = Some m \<and> entry_ok k m (attempts_of s k))" for k
    using assms(4) by (cases "map_of (missions s) k") (auto simp: repo_ok_def dest: spec [of _ k])
  have "distinct (map attempt_number (attempts_of s k))" for k
    using entry [of k] by (auto simp: entry_ok_def strict_sorted_iff)
  then have numbers: "distinct (map (\<lambda>a. (attempt_mission_id a, attempt_number a)) ?T)"
    unfolding of by (rule distinct_within)
  have "length (filter (\<lambda>a. attempt_status a = AttemptProcessing) (attempts_of s k)) \<le> 1" for k
  proof (cases "attempts_of s k = []")
    case False
    then have "\<forall>a \<in> set (butlast (attempts_of s k)). \<not> attempt_status a = AttemptProcessing"
      using entry [of k] by (auto simp: entry_ok_def)
    then show ?thesis by (rule one_open)
  qed simp
  then have open1: "distinct (map attempt_mission_id (open_attempts db'))"
    unfolding open_attempts_def of by (intro distinct_single) (simp add: conj_commute)
  have keys: "map row_id (mission_table db') = map fst (missions s)"
    by (rule holds_keys [where c = c]) (use assms(3) in \<open>simp add: stored_as_def\<close>)
  have "attempt_mission_id a \<in> set (map row_id (mission_table db'))" if "a \<in> set ?T" for a
  proof -
    have "attempts_of s (attempt_mission_id a) \<noteq> []" using that by (auto simp: of filter_empty_conv)
    then obtain m where "map_of (missions s) (attempt_mission_id a) = Some m" using entry by blast
    then show ?thesis unfolding keys by (force dest: map_of_SomeD)
  qed
  then have "attempt_mission_id ` set ?T \<subseteq> set (map row_id (mission_table db'))" by blast
  moreover have ids: "map row_id (mission_table db') = map row_id (mission_table db)" using assms(2) by (simp add: claim_frame_def)
  ultimately show ?thesis
    using assms(1,2,5) numbers open1 unfolding constraints_hold_def Let_def ids by (simp add: claim_frame_def)
qed

lemma claimed_read_back:
  assumes "list_all2 (holds_mission c) rows ms" and "\<And>m. m \<in> set ms \<Longrightarrow> is_due now m"
  shows "rows_to_missions c (map (claim_columns now) rows) = ret (map (claimed now) ms)"
  using assms
proof (induction rule: list_all2_induct)
  case (Cons row rows m ms)
  then have "mission_from_model c (claim_columns now row) = Inr (claimed now m)"
    using claimed_holds [OF Cons.hyps(1), of now] by (simp add: holds_mission_def)
  with Cons show ?case by (simp add: rows_to_missions_def liftE_Inr bindE_ret)
qed (simp add: rows_to_missions_def)

lemma distinct_drawn:
  assumes "distinct xs" and "inj f" and "\<And>n. t \<le> n \<Longrightarrow> f n \<notin> set xs"
  shows "distinct (xs @ map f [t ..< t + n])"
  using assms inj_on_subset [of f UNIV "{t ..< t + n}"] by (auto simp: distinct_map)

text \<open>C4: the claim on the database implements the claim in memory: when the tables hold the missions and the
  attempts of a repository in memory, both claim the same missions, in the same order, with the same
  attempts; the session has committed, the constraints hold, and the tables hold the repository's state
  again.\<close>

theorem sql_claim_refines_memory:
  assumes "stored_as c (tables ss) s" and "repo_ok s" and "constraints_hold (tables ss)" and "0 < limit"
    and "inj (fresh s)" and "\<And>n. tick s \<le> n \<Longrightarrow> fresh s n \<notin> attempt_id ` set (attempt_table (tables ss))"
  shows "\<exists>ms ss' s'. sql_claim_due c (Aware now) limit ss = (Inr ms, ss') \<and> claim_due (Aware now) limit s = (Inr ms, s')
     \<and> stored_as c (tables ss') s' \<and> saved ss' = tables ss' \<and> constraints_hold (tables ss')"
proof -
  let ?rows = "select_rows (is_due now) scheduled_at limit (tables ss)" and ?ms = "due_missions now limit s"
  have rel: "list_all2 (holds_mission c) ?rows ?ms" by (rule due_related [OF assms(1)])
  have d: "distinct (map mission_id ?ms)" unfolding query_defs by (rule selected_distinct [OF assms(2)])
  have sel: "map_of (missions s) (mission_id m) = Some m \<and> is_due now m" if "m \<in> set ?ms" for m
    using selected_in [OF assms(2) that [unfolded query_defs]] by simp
  obtain db' s' where sql: "mapE (sql_claim_one (Aware now)) ?rows (tables ss) = (Inr (map (claim_columns now) ?rows), db')"
      and mem: "mapE (claim_one now) ?ms s = (Inr (map (claimed now) ?ms), s')" and st: "stored_as c db' s'" and frame: "claim_frame (tables ss) db'"
      and as: "map attempt_id (attempt_table db') = map attempt_id (attempt_table (tables ss)) @ map (fresh s) [tick s ..< tick s + length ?ms]"
    using claim_loop_related [OF rel assms(1,2) d sel] by blast
  have "repo_ok s'"
    using claim_loop [OF assms(2) d sel, where E = "\<lambda>_ _. False"] mem by (simp add: wp_def claimed_state_def)
  moreover have "distinct (map attempt_id (attempt_table db'))"
    unfolding as by (rule distinct_drawn) (use assms(3,5,6) in \<open>simp_all add: constraints_hold_def\<close>)
  ultimately have hold: "constraints_hold db'" by (rule stored_constraints [OF assms(3) frame st])
  have "rows_to_missions c (map (claim_columns now) ?rows) = (ret (map (claimed now) ?ms) :: (sql_session, exn, mission list) prog)"
    by (rule claimed_read_back [OF rel]) (use sel in blast)
  then have "sql_claim_due c (Aware now) limit ss = (Inr (map (claimed now) ?ms), ss\<lparr>tables := db', saved := db'\<rparr>)"
    using assms(4) sql hold by (simp add: sql_claim_due_def validate_list_due_arguments_def bindE_def [of "liftE x" for x] liftE_def)
      (simp add: bindE_def on_tables_def gets_def thenE_def flush_def require_def ret_def commit_def modify_def)
  moreover have "claim_due (Aware now) limit s = (Inr (map (claimed now) ?ms), s')"
    using assms(4) mem by (simp add: claim_due_def validate_list_due_arguments_def bindE_def liftE_def gets_def)
  ultimately show ?thesis using st hold by force
qed

theorem sql_claim_refines_memory_witness:
  "\<exists>ss'. sql_claim_due plain_codec (Aware 5) 10 \<lparr>tables = one_mission_db (planned_mission Waiting (Some 0)), saved = one_mission_db (planned_mission Waiting (Some 0))\<rparr>
     = (Inr [claimed 5 (planned_mission Waiting (Some 0))], ss') \<and> saved ss' = tables ss'"
proof -
  let ?m = "planned_mission Waiting (Some 0)"
  let ?ss = "\<lparr>tables = one_mission_db ?m, saved = one_mission_db ?m\<rparr>"
  let ?s = "\<lparr>missions = [(7, ?m)], attempts = [], fresh = (\<lambda>n. n + 100), tick = 0\<rparr>"
  have m: "mission_id ?m = 7" "status ?m = Waiting" "scheduled_at ?m = Some 0" "expires_at ?m = None"
      "execution_attempts ?m = 0" "max_execution_attempts ?m = 3" "execution_log ?m = []" "claimed_at ?m = None" "last_event_sequence ?m = 0"
    by (simp_all add: planned_mission_def)
  have entry: "holds_entry plain_codec (stored_row ?m) (7, ?m)"
    by (simp add: holds_entry_def holds_mission_def planned_row_reads) (simp add: stored_row_def row_id_def m)
  have rel: "stored_as plain_codec (tables ?ss) ?s"
    using entry by (simp add: stored_as_def one_mission_db_def attempts_of_def dict_get_or_def)
  have ok: "repo_ok ?s"
    by (simp add: repo_ok_def attempts_of_def dict_get_or_def dict_ok_def)
      (simp add: entry_ok_def claim_ok_def has_open_attempt_def m log_valid_def validate_event_sequence_def)
  have hold: "constraints_hold (tables ?ss)" by (simp add: one_mission_constraints)
  from sql_claim_refines_memory [OF rel ok hold, of 10 5]
  obtain ms ss' s' where c: "sql_claim_due plain_codec (Aware 5) 10 ?ss = (Inr ms, ss')" "claim_due (Aware 5) 10 ?s = (Inr ms, s')" "saved ss' = tables ss'"
    by (auto simp: inj_def one_mission_db_def)
  have "due_missions 5 10 ?s = [?m]"
    by (simp add: due_missions_def is_due_def has_exhausted_attempts_def dict_values_def first_n_def m)
  then have "ms = [claimed 5 ?m]"
    using claim_due_result [OF ok, of 10 5] c(2) by (auto simp: claimed_def)
  with c show ?thesis by blast
qed

end
