(* ===== verification/ProjectionContracts.thy ===== *)
theory ProjectionContracts
  imports SqlMissionContracts
begin

text \<open>
  What the check of the event projection reports: it finds a projection consistent exactly when it holds the
  log, it finds the event missing that a recovery of a stale claim does not project, and a rebuild makes it
  consistent again.
\<close>

section \<open>The check\<close>

lemma make_verification_of:
  assumes "distinct cs" and "distinct ps"
  shows "verification_of k cs ps found = Inr \<lparr>verified_mission = k,
     verification_status = (if set cs = set ps \<and> found = [] then Consistent else Inconsistent),
     canonical_count = length cs, projection_count = length ps, missing_sequences = only_in cs ps,
     unexpected_sequences = only_in ps cs, mismatches = found\<rparr>"
proof -
  have m: "only_in cs ps = [] \<longleftrightarrow> set cs \<subseteq> set ps" "only_in ps cs = [] \<longleftrightarrow> set ps \<subseteq> set cs"
    by (auto simp: only_in_def simp flip: set_empty)
  have "length cs = length ps" if "set cs = set ps"
    using that distinct_card [OF assms(1)] distinct_card [OF assms(2)] by simp
  then show ?thesis using m by (auto simp: verification_of_def make_verification_def Let_def)
qed

lemma event_at_unique:
  assumes "distinct (map event_sequence es)" and "e \<in> set es"
  shows "event_at es (event_sequence e) = Some e"
proof (cases "event_at es (event_sequence e)")
  case None
  then show ?thesis using assms(2) by (auto simp: event_at_def find_None_iff)
next
  case (Some e')
  then have "e' \<in> set es" "event_sequence e' = event_sequence e" using find_in unfolding event_at_def by fastforce+
  then show ?thesis using assms Some by (auto simp: distinct_map inj_on_def)
qed

lemma compare_events:
  fixes w :: 'w
  assumes "distinct (map event_sequence es)" and "distinct (map event_sequence ps)" and "\<forall>e \<in> set es. 1 \<le> event_sequence e"
  defines "bad \<equiv> filter (\<lambda>n. map_option dump_event (event_at es n) \<noteq> map_option dump_event (event_at ps n))
      (common (map event_sequence es) (map event_sequence ps))"
  shows "compare_mission_event_projection k es ps w = (verification_of k (map event_sequence es) (map event_sequence ps)
     (map (\<lambda>n. Mismatch n [WholeEvent]) bad), w)"
proof -
  have "1 \<le> n" if "n \<in> set bad" for n using that assms(3) by (auto simp: bad_def common_def)
  then have "mapE (\<lambda>n. liftE (make_mismatch n [WholeEvent])) bad = (ret (map (\<lambda>n. Mismatch n [WholeEvent]) bad) :: ('w, exn, _) prog)"
    by (intro mapE_all) (force simp: make_mismatch_def liftE_Inr)
  then show ?thesis using assms(1,2)
    by (simp add: compare_mission_event_projection_def validate_unique_sequences_def thenE_def liftE_Inr bindE_ret bad_def [symmetric] Let_def)
      (simp add: liftE_def)
qed

lemma compare_missing:
  assumes "distinct (map event_sequence es)" and "distinct (map event_sequence ps)" and "\<forall>e \<in> set es. 1 \<le> event_sequence e"
    and "set (map event_sequence es) \<noteq> set (map event_sequence ps)"
  shows "\<exists>v. compare_mission_event_projection k es ps w = (Inr v, w) \<and> verification_status v = Inconsistent
     \<and> missing_sequences v = only_in (map event_sequence es) (map event_sequence ps)"
  unfolding compare_events [OF assms(1-3)] make_verification_of [OF assms(1,2)] using assms(4) by simp

lemma dump_sequence: "dump_event e = dump_event e' \<Longrightarrow> event_sequence e = event_sequence e'"
  by (simp add: dump_event_def)

lemma dump_partner:
  assumes "dump_event ` set es \<subseteq> dump_event ` set ps" and "e \<in> set es"
  obtains p where "p \<in> set ps" and "dump_event p = dump_event e" and "event_sequence p = event_sequence e"
proof -
  obtain p where p: "p \<in> set ps" "dump_event e = dump_event p" using subsetD [OF assms(1) imageI [OF assms(2)]] by (rule imageE)
  then show ?thesis using that [OF p(1)] dump_sequence [OF p(2)] by simp
qed

lemma dump_sequences:
  assumes "dump_event ` set es \<subseteq> dump_event ` set ps"
  shows "set (map event_sequence es) \<subseteq> set (map event_sequence ps)"
proof
  fix n assume "n \<in> set (map event_sequence es)"
  then obtain e where e: "e \<in> set es" "n = event_sequence e" by auto
  from dump_partner [OF assms e(1)] obtain p where "p \<in> set ps" "event_sequence p = event_sequence e" .
  then show "n \<in> set (map event_sequence ps)" using e(2) by (simp add: image_iff) metis
qed

definition agree_at :: "execution_event list \<Rightarrow> execution_event list \<Rightarrow> int \<Rightarrow> bool" where
  "agree_at es ps n \<longleftrightarrow> map_option dump_event (event_at es n) = map_option dump_event (event_at ps n)"

lemma agree_dumps:
  assumes "distinct (map event_sequence es)" and "distinct (map event_sequence ps)"
    and "set (map event_sequence es) \<subseteq> set (map event_sequence ps)" and "\<forall>n \<in> set (map event_sequence es). agree_at es ps n"
  shows "dump_event ` set es \<subseteq> dump_event ` set ps"
proof
  fix d assume "d \<in> dump_event ` set es"
  then obtain e where e: "e \<in> set es" "d = dump_event e" by auto
  then have "event_sequence e \<in> set (map event_sequence ps)" using assms(3) by auto
  then obtain p where p: "p \<in> set ps" "event_sequence p = event_sequence e" by auto
  have "agree_at es ps (event_sequence e)" using assms(4) e(1) by simp
  then have "dump_event e = dump_event p"
    using event_at_unique [OF assms(1) e(1)] event_at_unique [OF assms(2) p(1)] p(2) by (simp add: agree_at_def)
  then show "d \<in> dump_event ` set ps" using e(2) p(1) by simp
qed

lemma dumps_agree:
  assumes "distinct (map event_sequence es)" and "distinct (map event_sequence ps)"
  shows "(set (map event_sequence es) = set (map event_sequence ps) \<and> (\<forall>n \<in> set (map event_sequence es). agree_at es ps n))
    \<longleftrightarrow> dump_event ` set es = dump_event ` set ps"
proof
  assume l: "set (map event_sequence es) = set (map event_sequence ps) \<and> (\<forall>n \<in> set (map event_sequence es). agree_at es ps n)"
  have "agree_at ps es n" if "n \<in> set (map event_sequence ps)" for n
  proof -
    have "n \<in> set (map event_sequence es)" using that l by blast
    then show ?thesis using l by (metis agree_at_def)
  qed
  then show "dump_event ` set es = dump_event ` set ps"
    using agree_dumps [OF assms] agree_dumps [OF assms(2,1)] l by (metis subset_antisym subset_refl)
next
  assume r: "dump_event ` set es = dump_event ` set ps"
  have "agree_at es ps n" if n: "n \<in> set (map event_sequence es)" for n
  proof -
    obtain e where e: "e \<in> set es" "n = event_sequence e" using n by auto
    obtain p where "p \<in> set ps" "dump_event p = dump_event e" "event_sequence p = event_sequence e"
      using dump_partner [OF equalityD1 [OF r] e(1)] .
    then show ?thesis using e event_at_unique [OF assms(1) e(1)] event_at_unique [OF assms(2), of p] by (simp add: agree_at_def)
  qed
  then show "set (map event_sequence es) = set (map event_sequence ps) \<and> (\<forall>n \<in> set (map event_sequence es). agree_at es ps n)"
    using dump_sequences [OF equalityD1 [OF r]] dump_sequences [OF equalityD2 [OF r]] by (intro conjI subset_antisym) blast+
qed

text \<open>C31: the check of the event projection is exact: for a log and a projection with unique sequence numbers it
  always reports; it reports consistency exactly when the projection stores the events of the log and no
  others; and otherwise the missing sequence numbers are those of the log that the projection has not, and
  the unexpected ones the reverse, in order.\<close>

theorem projection_check_exact:
  assumes "distinct (map event_sequence es)" and "distinct (map event_sequence ps)" and "\<forall>e \<in> set es. 1 \<le> event_sequence e"
  shows "\<exists>v. compare_mission_event_projection k es ps w = (Inr v, w)
     \<and> (verification_status v = Consistent \<longleftrightarrow> dump_event ` set es = dump_event ` set ps)
     \<and> set (missing_sequences v) = set (map event_sequence es) - set (map event_sequence ps) \<and> sorted (missing_sequences v)
     \<and> set (unexpected_sequences v) = set (map event_sequence ps) - set (map event_sequence es) \<and> sorted (unexpected_sequences v)"
proof -
  define bad where "bad = filter (\<lambda>n. map_option dump_event (event_at es n) \<noteq> map_option dump_event (event_at ps n))
      (common (map event_sequence es) (map event_sequence ps))"
  have "bad = [] \<longleftrightarrow> (\<forall>n \<in> set (map event_sequence es). agree_at es ps n)"
    if "set (map event_sequence es) = set (map event_sequence ps)"
    unfolding bad_def filter_empty_conv agree_at_def using that by (simp add: common_def)
  then have "set (map event_sequence es) = set (map event_sequence ps) \<and> bad = [] \<longleftrightarrow> dump_event ` set es = dump_event ` set ps"
    using dumps_agree [OF assms(1,2)] by blast
  then show ?thesis
    unfolding compare_events [OF assms] make_verification_of [OF assms(1,2)] bad_def [symmetric]
    by (auto simp: only_in_def)
qed

section \<open>Reading the projection\<close>

lemma valid_log:
  assumes "validate_event_sequence es n = Inr ()"
  shows "sorted_wrt (<) (map event_sequence es)" and "\<forall>e \<in> set es. 1 \<le> event_sequence e"
    and "\<And>e. e \<in> set es \<Longrightarrow> validate_event_sequence [e] (event_sequence e) = Inr ()"
    and "distinct (map event_sequence es)"
proof -
  have s: "sorted_wrt (<) (0 # map event_sequence es)" and ok: "\<forall>e \<in> set es. event_ok e"
    using assms unfolding validate_iff_check check_events_iff log_spec_def by blast+
  show "sorted_wrt (<) (map event_sequence es)" and pos: "\<forall>e \<in> set es. 1 \<le> event_sequence e" using s by auto
  then show "distinct (map event_sequence es)" by (simp add: strict_sorted_iff)
  show "validate_event_sequence [e] (event_sequence e) = Inr ()" if "e \<in> set es" for e
    using that ok pos unfolding validate_iff_check check_events_iff log_spec_def by auto
qed

lemma list_all_reads:
  assumes "codec_ok c" and "\<forall>e \<in> set es. normal_event c e" and "validate_event_sequence es n = Inr ()"
    and "event_rows k db = map (event_entry c k) es" and "length (event_table db) < 2147483647"
  shows "list_all_events c k db = (Inr es, db)"
proof -
  note v = valid_log [OF assms(3)]
  let ?rows = "map (event_entry c k) es"
  have "filter (\<lambda>r. event_row_sequence r > 0) ?rows = ?rows"
    using v(2) by (fastforce simp: filter_id_conv event_entry_def)
  moreover have "sort_key event_row_sequence ?rows = ?rows"
    using v(1) by (intro sort_key_sorted) (simp add: comp_def event_entry_def strict_sorted_iff)
  moreover have "length ?rows \<le> 2147483646"
    using assms(5) length_filter_le [of "\<lambda>r. event_row_mission r = k" "event_table db"] unfolding assms(4) [unfolded event_rows_def] by simp
  then have "first_n 2147483647 ?rows = ?rows" by (simp add: first_n_def)
  ultimately have rows: "first_n 2147483647 (sort_key event_row_sequence (filter (\<lambda>r. event_row_sequence r > 0) (filter (\<lambda>r. event_row_mission r = k) (event_table db)))) = ?rows"
    using assms(4) by (simp add: event_rows_def)
  have read: "store_deserialize c k [stored_raw c e] (event_sequence e) = Inr [e]" if "e \<in> set es" for e
    using store_deserialize_normal [OF assms(1), of "[e]"] assms(2) v(3) that by simp
  have "mapE (\<lambda>r. liftE (map_sum id hd (store_deserialize c k [event_row_raw r] (event_row_sequence r)))) ?rows = (ret es :: (mission_db, exn, _) prog)"
    unfolding mapE_map by (subst mapE_all [where g = "\<lambda>e. e"]) (simp_all add: event_entry_def read liftE_Inr)
  then show ?thesis
    unfolding list_all_events_def list_after_def bindE_def [of "gets f" for f] gets_def prod.case sum.case rows by (simp only: ret_def)
qed

section \<open>Recovered claims\<close>

lemma recover_stale_log:
  assumes "recover_stale i m t = Inr m'"
  shows "\<exists>e. execution_log m' = execution_log m @ [e] \<and> event_type e = ''claim_recovered'' \<and> event_sequence e = last_event_sequence m + 1"
proof -
  obtain m1 msg meta where t: "transition m (if has_exhausted_attempts m then Failed else Waiting) (Some t) True False = Inr m1"
    and r: "record_event i t ''claim_recovered'' msg meta m1 = Inr m'"
    using assms by (auto simp: recover_stale_def Let_def split: sum.splits)
  have f: "execution_log m1 = execution_log m" "last_event_sequence m1 = last_event_sequence m"
    using transition_frame [OF t] by simp_all
  from r obtain ev where "execution_log m' = execution_log m1 @ [ev]" "event_type ev = ''claim_recovered''"
      "event_sequence ev = last_event_sequence m1 + 1"
    by (rule record_event_cases)
  then show ?thesis using f by auto
qed

lemma keeps_events_modify: "(\<And>db. event_table (f db) = event_table db) \<Longrightarrow> keeps (\<lambda>db. event_table db = T) (modify f)"
  by (simp add: keeps_def wp)

lemma keeps_events_recover: "keeps (\<lambda>db. event_table db = T) (sql_recover_one c t row)"
  unfolding sql_recover_one_def store_outcome_def db_uuid_def
  by (intro keeps_intro keeps_events_modify) (simp_all add: change_row_def close_open_attempt_def change_attempts_def)

lemma recover_one_result:
  assumes "sql_recover_one c t row db = (Inr m', db')"
  shows "\<exists>m i. mission_from_model c row = Inr m \<and> recover_stale i m t = Inr m'"
proof -
  have "wp (sql_recover_one c t row) (\<lambda>m' _. \<exists>m i. mission_from_model c row = Inr m \<and> recover_stale i m t = Inr m') (\<lambda>_ _. True) db"
    by (simp add: sql_recover_one_def store_outcome_def db_uuid_def wp split: sum.split) blast
  from wp_result [OF this assms] show ?thesis .
qed

lemma recover_all_result:
  assumes "mapE (sql_recover_one c t) rows db = (Inr ms, db')"
  shows "event_table db' = event_table db \<and> (\<forall>m' \<in> set ms. \<exists>row \<in> set rows. \<exists>m i. mission_from_model c row = Inr m \<and> recover_stale i m t = Inr m')"
  using assms
proof (induction rows arbitrary: db ms)
  case (Cons row rows)
  obtain m1 db1 where one: "sql_recover_one c t row db = (Inr m1, db1)"
    using Cons.prems by (cases "sql_recover_one c t row db") (auto simp: bindE_def split: sum.splits)
  obtain ms1 where rest: "mapE (sql_recover_one c t) rows db1 = (Inr ms1, db')" and ms: "ms = m1 # ms1"
    using Cons.prems one by (auto simp: bindE_def ret_def split: prod.splits sum.splits)
  have "event_table db1 = event_table db" using keepsD [OF keeps_events_recover [of "event_table db" c t row], of db] one by simp
  then show ?case using Cons.IH [OF rest] recover_one_result [OF one] ms by auto
qed (simp add: ret_def)


lemma recovery_tables:
  assumes "sql_recover_stale_processing c t claim_timeout limit ss = (Inr ms, ss')"
  shows "\<exists>rows. set rows \<subseteq> set (mission_table (tables ss)) \<and> mapE (sql_recover_one c t) rows (tables ss) = (Inr ms, tables ss')"
proof -
  let ?rows = "select_rows (is_stale (instant t - claim_timeout)) claimed_at limit (tables ss)"
  have "set ?rows \<subseteq> set (mission_table (tables ss))"
    by (auto simp: select_rows_def dest!: set_first_n)
  moreover have "mapE (sql_recover_one c t) ?rows (tables ss) = (Inr ms, tables ss')"
  proof (cases "mapE (sql_recover_one c t) ?rows (tables ss)")
    case (Pair r db)
    then show ?thesis using assms
      by (cases r) (auto simp: sql_recover_stale_processing_def bindE_def liftE_def on_tables_def gets_def thenE_def flush_def
          require_def ret_def raise_def commit_def modify_def split: sum.splits if_splits)
  qed
  ultimately show ?thesis by blast
qed

text \<open>C29: a recovery of stale claims leaves the event projection behind: each recovered mission has a
  \<open>claim_recovered\<close> event at the end of its log which the projection does not get, so a reader of the
  projection sees the log without it and the check reports its sequence number as missing.\<close>

theorem recovery_leaves_projection_behind:
  assumes "codec_ok c" and "in_step c (tables ss)" and "sql_recover_stale_processing c t claim_timeout limit ss = (Inr ms, ss')"
    and "m \<in> set ms" and "length (event_table (tables ss)) < 2147483647"
  shows "\<exists>es e v. execution_log m = es @ [e] \<and> event_type e = ''claim_recovered''
     \<and> list_all_events c (mission_id m) (tables ss') = (Inr es, tables ss')
     \<and> compare_mission_event_projection (mission_id m) (execution_log m) es w = (Inr v, w)
     \<and> verification_status v = Inconsistent \<and> missing_sequences v = [event_sequence e]"
proof -
  obtain rows where rows: "set rows \<subseteq> set (mission_table (tables ss))" "mapE (sql_recover_one c t) rows (tables ss) = (Inr ms, tables ss')"
    using recovery_tables [OF assms(3)] by blast
  note all = recover_all_result [OF rows(2)]
  obtain row m0 i where row: "row \<in> set rows" and m0: "mission_from_model c row = Inr m0" "recover_stale i m0 t = Inr m"
    using all assms(4) by blast
  obtain es where es: "stored_log c row es" "projected_log c (row_id row) es (tables ss)"
    using in_step_row [OF assms(2)] row rows(1) by blast
  note f = from_model_log [OF assms(1) es(1) m0(1)]
  obtain e where e: "execution_log m = es @ [e]" "event_type e = ''claim_recovered''" "event_sequence e = last_event_sequence m0 + 1"
    using recover_stale_log [OF m0(2)] f(1) by blast
  have valid: "validate_event_sequence es (last_event_sequence m0) = Inr ()" and normal: "\<forall>e \<in> set es. normal_event c e"
    using es(1) f(3) by (simp_all add: stored_log_def)
  have id: "mission_id m = row_id row" using recover_stale_result(3) [OF m0(2)] f(2) by simp
  have table: "event_rows (row_id row) (tables ss') = map (event_entry c (row_id row)) es" "length (event_table (tables ss')) < 2147483647"
    using es(2) all assms(5) by (simp_all add: projected_log_def event_rows_def)
  have read: "list_all_events c (mission_id m) (tables ss') = (Inr es, tables ss')"
    unfolding id by (rule list_all_reads [OF assms(1) normal valid table])
  note v = valid_log [OF valid]
  have below: "event_sequence x \<le> last_event_sequence m0" if "x \<in> set es" for x
    using log_split(1) [of es "[]", OF _ valid] valid that by simp
  have "0 \<le> last_event_sequence m0"
    using valid unfolding validate_iff_check check_events_iff log_spec_def by (cases es rule: rev_cases) (auto simp: sorted_wrt_append)
  then have d: "distinct (map event_sequence (es @ [e]))" and pos: "\<forall>x \<in> set (es @ [e]). 1 \<le> event_sequence x"
    using v(2,4) below e(3) by fastforce+
  have missing: "only_in (map event_sequence (es @ [e])) (map event_sequence es) = [event_sequence e]"
    using below e(3) by (fastforce simp: only_in_def filter_empty_conv)
  have "event_sequence e \<notin> set (map event_sequence es)" using below e(3) by fastforce
  then have "set (map event_sequence (es @ [e])) \<noteq> set (map event_sequence es)" by auto
  then show ?thesis
    using e(1,2) read missing compare_missing [OF d v(4) pos, of "mission_id m" w] by simp
qed

section \<open>Rebuilding\<close>

definition row_events :: "event_codec \<Rightarrow> mission_row \<Rightarrow> execution_event list" where
  "row_events c row = (case mission_from_model c row of Inl e \<Rightarrow> [] | Inr m \<Rightarrow> execution_log m)"

definition entries_of :: "event_codec \<Rightarrow> (uuid \<times> execution_event list) list \<Rightarrow> event_row list" where
  "entries_of c xs = concat (map (\<lambda>(k, es). map (event_entry c k) es) xs)"

definition rows_events :: "event_codec \<Rightarrow> mission_row list \<Rightarrow> (uuid \<times> execution_event list) list" where
  "rows_events c rows = map (\<lambda>row. (row_id row, row_events c row)) rows"

lemma append_pending_normal:
  assumes "\<forall>(k, es) \<in> set pending. \<forall>e \<in> set es. normal_event c e"
  shows "append_pending_events c pending db = (Inr (), db\<lparr>event_table := event_table db @ entries_of c pending\<rparr>)"
  using assms
proof (induction pending arbitrary: db)
  case (Cons p pending)
  then show ?case
    by (cases p) (simp add: append_pending_events_def thenE_def bindE_def append_events_normal entries_of_def)
qed (simp add: append_pending_events_def ret_def entries_of_def)

lemma rebuild_loop:
  assumes "codec_ok c" and "\<forall>row \<in> set rows. \<exists>es. stored_log c row es" and "\<forall>(k, es) \<in> set pending. \<forall>e \<in> set es. normal_event c e"
  shows "wp (rebuild_events c rows pending r) (\<lambda>r' db'. mission_table db' = mission_table db
       \<and> event_table db' = event_table db @ entries_of c (pending @ rows_events c rows)
       \<and> rebuilt_missions r' = rebuilt_missions r + length rows
       \<and> inserted_events r' = inserted_events r + length (entries_of c (rows_events c rows))
       \<and> (\<forall>row \<in> set rows. \<exists>m. mission_from_model c row = Inr m)) (\<lambda>_ _. True) db"
  using assms(2,3)
proof (induction rows arbitrary: pending r db)
  case Nil
  have p: "wp (append_pending_events c pending) Q E db = Q () (db\<lparr>event_table := event_table db @ entries_of c pending\<rparr>)" for Q and E :: "exn \<Rightarrow> mission_db \<Rightarrow> bool"
    by (simp add: wp_def append_pending_normal [OF Nil.prems(2)])
  show ?case by (simp add: wp p rows_events_def) (simp add: entries_of_def)
next
  case (Cons row rows)
  show ?case
  proof (cases "mission_from_model c row")
    case (Inr m)
    obtain es where es: "stored_log c row es" using Cons.prems(1) by auto
    note f = from_model_log [OF assms(1) es Inr]
    have here: "rows_events c (row # rows) = (row_id row, es) # rows_events c rows"
      by (simp add: rows_events_def row_events_def Inr f(1))
    have stored: "\<forall>row \<in> set rows. \<exists>es. stored_log c row es" using Cons.prems(1) by simp
    let ?pending = "pending @ [(row_id row, es)]"
    have normal: "\<forall>(k, es) \<in> set ?pending. \<forall>e \<in> set es. normal_event c e" using Cons.prems(2) es by (auto simp: stored_log_def)
    have p: "wp (append_pending_events c ?pending) Q E db = Q () (db\<lparr>event_table := event_table db @ entries_of c ?pending\<rparr>)" for Q and E :: "exn \<Rightarrow> mission_db \<Rightarrow> bool"
      by (simp add: wp_def append_pending_normal [OF normal])
    have e: "entries_of c (xs @ ys) = entries_of c xs @ entries_of c ys" for xs ys by (simp add: entries_of_def)
    have e1: "entries_of c ((row_id row, es) # xs) = map (event_entry c (row_id row)) es @ entries_of c xs" "entries_of c [] = []"
        "entries_of c ((row_id row, []) # xs) = entries_of c xs" for xs
      by (simp_all add: entries_of_def)
    let ?r = "r\<lparr>rebuilt_missions := rebuilt_missions r + 1\<rparr>"
    let ?r' = "?r\<lparr>inserted_events := inserted_events r + length es\<rparr>"
    let ?Q = "\<lambda>r' db'. mission_table db' = mission_table db \<and> event_table db' = event_table db @ entries_of c (pending @ rows_events c (row # rows))
       \<and> rebuilt_missions r' = rebuilt_missions r + length (row # rows)
       \<and> inserted_events r' = inserted_events r + length (entries_of c (rows_events c (row # rows)))
       \<and> (\<forall>row \<in> set (row # rows). \<exists>m. mission_from_model c row = Inr m)"
    have skip: "wp (rebuild_events c rows pending ?r) ?Q (\<lambda>_ _. True) db" if "es = []"
    proof (rule wp_mono [OF Cons.IH [OF stored Cons.prems(2)]])
      show "?Q x s'" if "mission_table s' = mission_table db \<and> event_table s' = event_table db @ entries_of c (pending @ rows_events c rows)
          \<and> rebuilt_missions x = rebuilt_missions ?r + length rows
          \<and> inserted_events x = inserted_events ?r + length (entries_of c (rows_events c rows))
          \<and> (\<forall>row \<in> set rows. \<exists>m. mission_from_model c row = Inr m)" for x s'
        using that \<open>es = []\<close> by (simp add: here e e1 Inr)
    qed
    have keep: "wp (rebuild_events c rows ?pending ?r') ?Q (\<lambda>_ _. True) db"
      by (rule wp_mono [OF Cons.IH [OF stored normal]]) (simp_all add: here e e1 Inr)
    have emptied: "wp (rebuild_events c rows [] ?r') ?Q (\<lambda>_ _. True) (db\<lparr>event_table := event_table db @ entries_of c ?pending\<rparr>)"
      by (rule wp_mono [OF Cons.IH [OF stored, of "[]"]]) (simp_all add: here e e1 Inr)
    have "wp (thenE (append_pending_events c ?pending) (thenE flush (rebuild_events c rows [] ?r'))) ?Q (\<lambda>_ _. True) db"
      unfolding wp_thenE p wp_flush using emptied by simp
    then show ?thesis using skip keep
      by (simp only: rebuild_events.simps Inr wp_bindE wp_liftE sum.case Let_def f(1,2) wp_if) (simp split: if_splits)
  qed (simp add: wp)
qed

lemma rows_events_of:
  assumes "distinct (map row_id rows)" and "row \<in> set rows"
  shows "filter (\<lambda>r. event_row_mission r = row_id row) (entries_of c (rows_events c rows)) = map (event_entry c (row_id row)) (row_events c row)"
  using assms
proof (induction rows)
  case (Cons x xs)
  have other: "filter (\<lambda>r. event_row_mission r = k) (map (event_entry c k') es) = (if k = k' then map (event_entry c k') es else [])" for k k' es
    by (auto simp: event_entry_def filter_empty_conv filter_id_conv)
  have none: "filter (\<lambda>r. event_row_mission r = k) (entries_of c (rows_events c ys)) = []" if "k \<notin> row_id ` set ys" for k ys
    using that by (induction ys) (auto simp: rows_events_def entries_of_def event_entry_def filter_empty_conv)
  have cons: "entries_of c (rows_events c (x # xs)) = map (event_entry c (row_id x)) (row_events c x) @ entries_of c (rows_events c xs)"
    by (simp add: rows_events_def entries_of_def)
  show ?case
  proof (cases "row = x")
    case True
    then show ?thesis using Cons.prems(1) none [of "row_id x" xs] by (simp add: cons other)
  next
    case False
    then have in_xs: "row \<in> set xs" using Cons.prems(2) by simp
    moreover have "row_id x \<notin> row_id ` set xs" using Cons.prems(1) by simp
    ultimately have "row \<in> set xs" "row_id row \<noteq> row_id x" by (blast, metis imageI)
    then show ?thesis using Cons.IH Cons.prems(1) by (simp add: cons other)
  qed
qed simp

text \<open>C32: a rebuild makes the event projection consistent again: when it returns, it has read every mission, its
  counts are those of the missions and of the rows it wrote, the projection of every stored log reads as
  that log, and the check reports it consistent.\<close>

theorem rebuild_restores_projection:
  assumes "codec_ok c" and "constraints_hold db" and "\<forall>row \<in> set (mission_table db). \<exists>es. stored_log c row es"
    and "rebuild_mission_event_projection c db = (Inr r, db')" and "length (event_table db') < 2147483647"
  shows "mission_table db' = mission_table db \<and> rebuilt_missions r = length (mission_table db) \<and> inserted_events r = length (event_table db')
     \<and> (\<forall>row \<in> set (mission_table db'). \<forall>es. stored_log c row es \<longrightarrow> list_all_events c (row_id row) db' = (Inr es, db')
          \<and> (\<exists>v. compare_mission_event_projection (row_id row) es es w = (Inr v, w) \<and> verification_status v = Consistent))"
proof -
  let ?db = "db\<lparr>event_table := []\<rparr>" and ?rows = "sort_key row_id (mission_table db)"
  have stored: "\<forall>row \<in> set ?rows. \<exists>es. stored_log c row es" using assms(3) by simp
  have "rebuild_events c ?rows [] \<lparr>rebuilt_missions = 0, inserted_events = 0\<rparr> ?db = (Inr r, db')"
    using assms(4) by (simp add: rebuild_mission_event_projection_def thenE_def bindE_def gets_def modify_def)
  from wp_result [OF rebuild_loop [OF assms(1) stored] this]
  have res: "mission_table db' = mission_table db" "event_table db' = entries_of c (rows_events c ?rows)"
      "rebuilt_missions r = length (mission_table db)" "inserted_events r = length (event_table db')"
      "\<forall>row \<in> set (mission_table db). \<exists>m. mission_from_model c row = Inr m"
    by simp_all
  have "distinct (map row_id (mission_table db))" using assms(2) by (simp add: constraints_hold_def)
  then have d: "distinct (map row_id ?rows)" by (simp add: distinct_map)
  have each: "list_all_events c (row_id row) db' = (Inr es, db')
      \<and> (\<exists>v. compare_mission_event_projection (row_id row) es es w = (Inr v, w) \<and> verification_status v = Consistent)"
    if row: "row \<in> set (mission_table db')" and es: "stored_log c row es" for row es
  proof -
    obtain m where m: "mission_from_model c row = Inr m" using row res(1,5) by auto
    have "row_events c row = es" using from_model_log(1) [OF assms(1) es m] by (simp add: row_events_def m)
    then have rows: "event_rows (row_id row) db' = map (event_entry c (row_id row)) es"
      using rows_events_of [OF d, of row c] row res(1,2) by (simp add: event_rows_def)
    have valid: "validate_event_sequence es (last_event_sequence (row_columns row)) = Inr ()" and normal: "\<forall>e \<in> set es. normal_event c e"
      using es by (simp_all add: stored_log_def)
    have "list_all_events c (row_id row) db' = (Inr es, db')" by (rule list_all_reads [OF assms(1) normal valid rows assms(5)])
    moreover note v = valid_log [OF valid]
    have "filter (\<lambda>n. map_option dump_event (event_at es n) \<noteq> map_option dump_event (event_at es n))
        (common (map event_sequence es) (map event_sequence es)) = []" by simp
    then have "\<exists>v. compare_mission_event_projection (row_id row) es es w = (Inr v, w) \<and> verification_status v = Consistent"
      unfolding compare_events [OF v(4) v(4) v(2)] make_verification_of [OF v(4) v(4)] by simp
    ultimately show ?thesis by blast
  qed
  show ?thesis using res(1,3,4) each by blast
qed

section \<open>A database with a stale claim\<close>

theorem projection_check_exact_witness:
  "\<exists>v. compare_mission_event_projection 7 [finished_event] [] () = (Inr v, ()) \<and> verification_status v = Inconsistent"
proof -
  have "\<forall>e \<in> set [finished_event]. 1 \<le> event_sequence e" by (simp add: finished_event_def)
  from projection_check_exact [OF _ _ this, of "[]" 7 "()"]
  obtain v where v: "compare_mission_event_projection 7 [finished_event] [] () = (Inr v, ())" "verification_status v \<noteq> Consistent"
    by auto
  then show ?thesis by (cases "verification_status v") auto
qed

lemma finished_rebuild:
  assumes "db = (one_mission_db finished_mission)\<lparr>mission_table := [finished_row_stored]\<rparr>"
  shows "\<exists>r db'. rebuild_mission_event_projection plain_codec db = (Inr r, db') \<and> inserted_events r = 1
     \<and> length (event_table db') = 1"
proof -
  let ?db = "db\<lparr>event_table := map (event_entry plain_codec 7) [finished_event]\<rparr>"
  have m: "execution_log finished_again = [finished_event]" "mission_id finished_again = 7"
    by (simp_all add: finished_again_def finished_mission_def sample_mission_def)
  have table: "mission_table db = [finished_row_stored]" by (simp add: assms)
  have "row_id finished_row_stored = 7" by (simp add: row_id_def finished_row_stored_def finished_mission_def sample_mission_def)
  then have hold: "constraints_hold ?db"
    by (simp add: assms constraints_hold_def one_mission_db_def open_attempts_def event_entry_def)
  have pending: "append_pending_events plain_codec [(7, [finished_event])] (db\<lparr>event_table := []\<rparr>) = (Inr (), ?db)"
    by (simp add: append_pending_events_def thenE_def bindE_def ret_def append_events_normal finished_event_normal)
  show ?thesis
    by (simp add: rebuild_mission_event_projection_def table finished_row_reads m Let_def rebuild_batch_size_def)
      (simp add: thenE_def bindE_def liftE_def gets_def modify_def flush_def require_def ret_def table finished_row_reads m Let_def rebuild_batch_size_def pending hold [simplified])
qed

theorem rebuild_restores_projection_witness:
  "\<exists>r db'. rebuild_mission_event_projection plain_codec ((one_mission_db finished_mission)\<lparr>mission_table := [finished_row_stored]\<rparr>) = (Inr r, db')
     \<and> inserted_events r = 1 \<and> list_all_events plain_codec 7 db' = (Inr [finished_event], db')"
proof -
  let ?db = "(one_mission_db finished_mission)\<lparr>mission_table := [finished_row_stored]\<rparr>"
  have stored: "stored_log plain_codec finished_row_stored [finished_event]"
    by (simp add: stored_log_def finished_event_normal finished_row_stored_def finished_mission_def validate_event_sequence_def)
      (simp add: finished_event_def)
  have hold: "constraints_hold ?db" by (simp add: constraints_hold_def one_mission_db_def open_attempts_def)
  have all: "\<forall>row \<in> set (mission_table ?db). \<exists>es. stored_log plain_codec row es" using stored by auto
  obtain r db' where r: "rebuild_mission_event_projection plain_codec ?db = (Inr r, db')" "inserted_events r = 1" "length (event_table db') = 1"
    using finished_rebuild [of ?db] by auto
  from rebuild_restores_projection [OF plain_codec_ok hold all r(1), of "()"] r(3)
  have "mission_table db' = [finished_row_stored] \<and> (\<forall>row \<in> set (mission_table db'). \<forall>es. stored_log plain_codec row es
      \<longrightarrow> list_all_events plain_codec (row_id row) db' = (Inr es, db'))"
    by simp
  moreover have "row_id finished_row_stored = 7"
    by (simp add: row_id_def finished_row_stored_def finished_mission_def sample_mission_def)
  ultimately show ?thesis using r(1,2) stored by auto
qed

definition claimed_mission :: mission where
  "claimed_mission = (planned_mission Processing None)\<lparr>claimed_at := Some 0\<rparr>"

lemma claimed_accepted: "accepted_mission claimed_mission"
  by (rule sample_accepted [where st = Processing])
    (simp_all add: claimed_mission_def planned_mission_def validate_event_sequence_def, simp_all add: sample_mission_def)

lemma claimed_row_reads: "mission_from_model plain_codec (stored_row claimed_mission) = Inr claimed_mission"
  using accepted_row_reads [OF plain_codec_ok _ claimed_accepted, of 0]
  by (simp add: stored_row_def claimed_mission_def planned_mission_def sample_mission_def)

definition recovered_event :: execution_event where
  "recovered_event = \<lparr>event_id = 100, correlation_id = 100, causation_id = None, event_sequence = 1, event_timestamp = Aware 100,
     event_type = ''claim_recovered'', event_message = ''Mission recovered after a stale claim.'',
     event_metadata = [(''previous_claimed_at'', JTime (Aware 0)), (''attempts_exhausted'', JBool False)]\<rparr>"

lemma claimed_recovers:
  "recover_stale 100 claimed_mission (Aware 100) = Inr (claimed_mission\<lparr>status := Waiting, claimed_at := None,
     execution_log := [recovered_event], last_event_sequence := 1\<rparr>)"
proof -
  have m: "status claimed_mission = Processing" "claimed_at claimed_mission = Some 0" "execution_log claimed_mission = []"
      "last_event_sequence claimed_mission = 0" "has_exhausted_attempts claimed_mission = False"
    by (simp_all add: claimed_mission_def planned_mission_def has_exhausted_attempts_def sample_mission_def)
  show ?thesis
    by (simp add: recover_stale_def Let_def m transition_def can_transition_def record_event_def last_event_def recovered_event_def)
qed

lemma recovered_event_normal: "normal_event c recovered_event"
  by (simp add: normal_event_def recovered_event_def in_range_def with_serialized_payload_def generic_event_types_def)

lemma claimed_recovery:
  "\<exists>m ss'. sql_recover_stale_processing plain_codec (Aware 100) 10 5 \<lparr>tables = one_mission_db claimed_mission, saved = one_mission_db claimed_mission\<rparr>
     = (Inr [m], ss')"
proof -
  let ?db = "one_mission_db claimed_mission" and ?m = "claimed_mission\<lparr>status := Waiting, claimed_at := None, execution_log := [recovered_event], last_event_sequence := 1\<rparr>"
  have m: "status claimed_mission = Processing" "claimed_at claimed_mission = Some 0" "mission_id claimed_mission = 7"
    by (simp_all add: claimed_mission_def planned_mission_def sample_mission_def)
  have sel: "select_rows (is_stale 90) claimed_at 5 ?db = [stored_row claimed_mission]"
    by (simp add: select_rows_def one_mission_db_def is_stale_def stored_row_def m first_n_def)
  have outcome: "store_serialize plain_codec [recovered_event] = Inr [stored_raw plain_codec recovered_event]"
    using store_serialize_normal [of "[recovered_event]"] by (simp add: recovered_event_normal)
  obtain db' where one: "sql_recover_one plain_codec (Aware 100) (stored_row claimed_mission) ?db = (Inr ?m, db')"
      and hold: "constraints_hold db'"
    by (simp add: sql_recover_one_def claimed_row_reads bindE_def liftE_def db_uuid_def gets_def thenE_def modify_def ret_def one_mission_db_def
       claimed_recovers store_outcome_def outcome)
      (simp add: constraints_hold_def close_open_attempt_def change_attempts_def change_row_def open_attempts_def stored_row_def row_id_def m)
  show ?thesis
    using one hold by (simp add: sql_recover_stale_processing_def validate_stale_processing_arguments_def validate_list_due_arguments_def
        bindE_def liftE_def on_tables_def gets_def sel thenE_def flush_def require_def ret_def commit_def modify_def)
qed

theorem recovery_leaves_projection_behind_witness:
  "\<exists>m ss' es v. sql_recover_stale_processing plain_codec (Aware 100) 10 5 \<lparr>tables = one_mission_db claimed_mission, saved = one_mission_db claimed_mission\<rparr>
     = (Inr [m], ss') \<and> list_all_events plain_codec (mission_id m) (tables ss') = (Inr es, tables ss')
     \<and> compare_mission_event_projection (mission_id m) (execution_log m) es () = (Inr v, ()) \<and> verification_status v = Inconsistent"
proof -
  let ?ss = "\<lparr>tables = one_mission_db claimed_mission, saved = one_mission_db claimed_mission\<rparr>"
  obtain m ss' where r: "sql_recover_stale_processing plain_codec (Aware 100) 10 5 ?ss = (Inr [m], ss')"
    using claimed_recovery by blast
  have step: "in_step plain_codec (tables ?ss)"
    using one_mission_in_step [of claimed_mission] by (simp add: claimed_mission_def planned_mission_def sample_mission_def)
  have few: "length (event_table (tables ?ss)) < 2147483647" by (simp add: one_mission_db_def)
  from recovery_leaves_projection_behind [OF plain_codec_ok step r _ few, of m "()"]
  obtain es v where "list_all_events plain_codec (mission_id m) (tables ss') = (Inr es, tables ss')"
      "compare_mission_event_projection (mission_id m) (execution_log m) es () = (Inr v, ())" "verification_status v = Inconsistent"
    by auto
  with r show ?thesis by blast
qed

end
