(* ===== verification/RequestLimits.thy ===== *)
theory RequestLimits
  imports Domain Complex_Main
begin

text \<open>
  The limits the HTTP server puts on requests: the rate limiter (\<open>app/api/middleware/rate_limit.py\<close>) and the
  limit on the size of bodies (\<open>request_body_limit.py\<close>). The application behind them is a parameter with a
  state \<open>'w\<close>; it returns the messages it has sent and the exception it ended with, if any. Readings of the
  monotonic clock are rational numbers of seconds, so rounding of floating point is not modelled; the digest
  of an API key is a parameter.
\<close>

section \<open>Requests and responses\<close>

record http_scope =
  scope_type :: string
  scope_method :: "string option"
  scope_path :: "string option"
  scope_headers :: "(string \<times> string) list"
  scope_client :: "(string \<times> int) option"

datatype reply_message = ReplyStart int "(string \<times> string) list" | ReplyBody json bool

type_synonym 'w asgi_app = "http_scope \<Rightarrow> 'w \<Rightarrow> (reply_message list \<times> exn option) \<times> 'w"

section \<open>Who sent a request\<close>

definition should_limit :: "http_scope \<Rightarrow> bool" where
  "should_limit s \<longleftrightarrow> scope_type s = ''http'' \<and> scope_method s \<noteq> Some ''OPTIONS''
     \<and> scope_path s \<notin> {Some ''/health'', Some ''/ready''}"

text \<open>Of two headers of one name the last one counts.\<close>

definition scope_header :: "http_scope \<Rightarrow> string \<Rightarrow> string option" where
  "scope_header s name = map_of (rev (map (\<lambda>(n, v). (casefold n, v)) (scope_headers s))) name"

definition client_id :: "(string \<Rightarrow> string) \<Rightarrow> http_scope \<Rightarrow> string" where
  "client_id digest s =
     (case scope_header s ''x-admin-api-key'' of
        Some (c # cs) \<Rightarrow> ''admin:'' @ digest (c # cs)
      | _ \<Rightarrow> (case scope_header s ''x-api-key'' of
          Some (c # cs) \<Rightarrow> ''client:'' @ digest (c # cs)
        | _ \<Rightarrow> ''ip:'' @ (case scope_client s of None \<Rightarrow> ''unknown'' | Some (host, _) \<Rightarrow> host)))"

section \<open>The rate limiter\<close>

record rate_limiter =
  request_limit :: int
  window_seconds :: rat
  max_clients :: int
  request_times :: "(string, rat list) dict"

definition make_rate_limiter :: "int \<Rightarrow> rat \<Rightarrow> int \<Rightarrow> exn + rate_limiter" where
  "make_rate_limiter limit window clients =
     (if limit < 1 then Inl (ValueError ''request_limit must be at least one'')
      else if window \<le> 0 then Inl (ValueError ''window_seconds must be greater than zero'')
      else if clients < 1 then Inl (ValueError ''max_clients must be at least one'')
      else Inr \<lparr>request_limit = limit, window_seconds = window, max_clients = clients, request_times = []\<rparr>)"

text \<open>The entry that was used least recently is the first.\<close>

definition evict_client_if_full :: "rate_limiter \<Rightarrow> (string, rat list) dict" where
  "evict_client_if_full l =
     (if int (length (request_times l)) \<ge> max_clients l then tl (request_times l) else request_times l)"

definition reset_after :: "rate_limiter \<Rightarrow> rat \<Rightarrow> rat \<Rightarrow> int" where
  "reset_after l now first = max 1 \<lceil>first + window_seconds l - now\<rceil>"

datatype rate_decision = RateRefused int | RateAdmitted int int

definition count_request :: "string \<Rightarrow> rat \<Rightarrow> rate_limiter \<Rightarrow> rate_decision \<times> rate_limiter" where
  "count_request c now l =
     (let (seen, d) = (case map_of (request_times l) c of
              None \<Rightarrow> ([], evict_client_if_full l @ [(c, [])])
            | Some ts \<Rightarrow> (ts, dict_del c (request_times l) @ [(c, ts)]));
          ts = dropWhile (\<lambda>t. t \<le> now - window_seconds l) seen
      in if int (length ts) \<ge> request_limit l
         then (RateRefused (reset_after l now (hd ts)), l\<lparr>request_times := dict_set c ts d\<rparr>)
         else let ts = ts @ [now] in
           (RateAdmitted (request_limit l - int (length ts)) (reset_after l now (hd ts)), l\<lparr>request_times := dict_set c ts d\<rparr>))"

definition rate_limit_response :: "rate_limiter \<Rightarrow> int \<Rightarrow> reply_message list" where
  "rate_limit_response l n =
     [ReplyStart 429 [(''Retry-After'', int_str n), (''RateLimit-Limit'', int_str (request_limit l)),
        (''RateLimit-Remaining'', ''0''), (''RateLimit-Reset'', int_str n)],
      ReplyBody (JObj [(''detail'', JObj [(''code'', JStr ''rate_limit_exceeded''),
        (''message'', JStr ''Too many requests. Retry after the indicated delay.''), (''retry_after_seconds'', JInt n)])]) False]"

fun add_rate_limit_headers :: "rate_limiter \<Rightarrow> int \<Rightarrow> int \<Rightarrow> reply_message \<Rightarrow> reply_message" where
  "add_rate_limit_headers l remaining reset (ReplyStart code hs) =
     ReplyStart code (hs @ [(''ratelimit-limit'', int_str (request_limit l)),
       (''ratelimit-remaining'', int_str remaining), (''ratelimit-reset'', int_str reset)])"
| "add_rate_limit_headers l remaining reset m = m"

record 'w limited_app =
  limiter :: rate_limiter
  readings :: "nat \<Rightarrow> rat"
  readings_taken :: nat
  behind :: 'w

text \<open>A call of the middleware. The counting happens in one go, before the application is awaited.\<close>

definition rate_limit_call :: "(string \<Rightarrow> string) \<Rightarrow> 'w asgi_app \<Rightarrow> http_scope \<Rightarrow> 'w limited_app
     \<Rightarrow> (reply_message list \<times> exn option) \<times> 'w limited_app" where
  "rate_limit_call digest app s st =
     (if \<not> should_limit s then (case app s (behind st) of (r, w) \<Rightarrow> (r, st\<lparr>behind := w\<rparr>))
      else let now = readings st (readings_taken st) in
        case count_request (client_id digest s) now (limiter st) of
          (RateRefused n, l) \<Rightarrow> ((rate_limit_response l n, None), st\<lparr>limiter := l, readings_taken := Suc (readings_taken st)\<rparr>)
        | (RateAdmitted remaining reset, l) \<Rightarrow>
            (case app s (behind st) of ((ms, e), w) \<Rightarrow>
               ((map (add_rate_limit_headers l remaining reset) ms, e),
                st\<lparr>limiter := l, readings_taken := Suc (readings_taken st), behind := w\<rparr>)))"

section \<open>The limit on bodies\<close>

text \<open>\<open>int\<close> of a text of digits: Python refuses to convert more than 4300 of them.\<close>

definition int_of_digits :: "string \<Rightarrow> exn + int" where
  "int_of_digits v =
     (if 4300 < length v then Inl (ValueError ''Exceeds the limit (4300 digits) for integer string conversion'')
      else Inr (int (foldl (\<lambda>n c. 10 * n + digit_value c) 0 v)))"

text \<open>The header \<open>content-length\<close>: \<open>None\<close> if absent, -1 if not a number or given twice.\<close>

definition content_length :: "http_scope \<Rightarrow> exn + int option" where
  "content_length s =
     (case map snd (filter (\<lambda>(n, v). casefold n = ''content-length'') (scope_headers s)) of
        [] \<Rightarrow> Inr None
      | [v] \<Rightarrow> if v \<noteq> [] \<and> list_all is_digit v then map_sum id Some (int_of_digits v) else Inr (Some (-1))
      | _ \<Rightarrow> Inr (Some (-1)))"





section \<open>The limiter is bounded\<close>

definition limiter_ok :: "rate_limiter \<Rightarrow> bool" where
  "limiter_ok l \<longleftrightarrow> 1 \<le> request_limit l \<and> 0 < window_seconds l \<and> 1 \<le> max_clients l
     \<and> dict_ok (request_times l) \<and> int (length (request_times l)) \<le> max_clients l
     \<and> (\<forall>ts \<in> snd ` set (request_times l). int (length ts) \<le> request_limit l)"

lemma make_rate_limiter_ok: "make_rate_limiter limit window clients = Inr l \<Longrightarrow> limiter_ok l \<and> request_limit l = limit \<and> window_seconds l = window
    \<and> max_clients l = clients \<and> request_times l = []"
  by (auto simp: make_rate_limiter_def limiter_ok_def split: if_splits)

lemma make_rate_limiter_total: "1 \<le> limit \<Longrightarrow> 0 < window \<Longrightarrow> 1 \<le> clients \<Longrightarrow> \<exists>l. make_rate_limiter limit window clients = Inr l"
  by (simp add: make_rate_limiter_def)

text \<open>The table after a request of \<open>c\<close>, with the times \<open>ts\<close> it is to have: \<open>c\<close> comes last.\<close>

definition used_last :: "string \<Rightarrow> rat list \<Rightarrow> rate_limiter \<Rightarrow> (string, rat list) dict" where
  "used_last c ts l = (if map_of (request_times l) c = None then evict_client_if_full l else dict_del c (request_times l)) @ [(c, ts)]"

definition times_left :: "string \<Rightarrow> rat \<Rightarrow> rate_limiter \<Rightarrow> rat list" where
  "times_left c now l = dropWhile (\<lambda>t. t \<le> now - window_seconds l) (dict_get_or [] (request_times l) c)"

lemma dict_set_last: "c \<notin> fst ` set d \<Longrightarrow> dict_set c ts (d @ [(c, x)]) = d @ [(c, ts)]"
  by (induction d) auto

lemma evict_subset: "set (evict_client_if_full l) \<subseteq> set (request_times l)"
  by (cases "request_times l") (auto simp: evict_client_if_full_def)

lemma absent_after_evict: "map_of (request_times l) c = None \<Longrightarrow> c \<notin> fst ` set (evict_client_if_full l)"
  using evict_subset [of l] unfolding map_of_eq_None_iff by blast

lemma absent_after_del: "c \<notin> fst ` set (dict_del c d)"
  by (auto simp: dict_del_def)

lemma count_request_eq:
  "count_request c now l =
     (let ts = times_left c now l in
      if int (length ts) \<ge> request_limit l
      then (RateRefused (reset_after l now (hd ts)), l\<lparr>request_times := used_last c ts l\<rparr>)
      else (RateAdmitted (request_limit l - int (length (ts @ [now]))) (reset_after l now (hd (ts @ [now]))),
            l\<lparr>request_times := used_last c (ts @ [now]) l\<rparr>))"
  by (auto simp: count_request_def Let_def times_left_def used_last_def dict_get_or_def dict_set_last absent_after_evict absent_after_del
      split: option.split)

lemma length_del: "map_of d c \<noteq> None \<Longrightarrow> length (dict_del c d) < length d"
proof (induction d)
  case (Cons p d)
  then show ?case
    using length_filter_le [of "\<lambda>(k', _). k' \<noteq> c" d] by (cases p) (auto simp: dict_del_def less_Suc_eq_le split: if_splits)
qed simp

lemma used_last_here: "map_of (used_last c ts l) c = Some ts"
proof -
  have "c \<notin> fst ` set (if map_of (request_times l) c = None then evict_client_if_full l else dict_del c (request_times l))"
    by (simp add: absent_after_evict absent_after_del)
  then show ?thesis unfolding used_last_def by (simp add: map_of_eq_None_iff [symmetric] map_add_def split: option.split)
qed

lemma used_last_ok:
  assumes "limiter_ok l" and "int (length ts) \<le> request_limit l"
  shows "limiter_ok (l\<lparr>request_times := used_last c ts l\<rparr>)"
proof -
  let ?d = "if map_of (request_times l) c = None then evict_client_if_full l else dict_del c (request_times l)"
  have sub: "set ?d \<subseteq> set (request_times l)"
    using evict_subset by (auto simp: dict_del_def)
  have ok: "dict_ok ?d"
    using assms(1) by (auto simp: limiter_ok_def dict_ok_def evict_client_if_full_def dict_del_def map_tl distinct_tl distinct_map_filter)
  have "c \<notin> fst ` set ?d" by (simp add: absent_after_evict absent_after_del)
  moreover have "int (length ?d) < max_clients l"
    using assms(1) length_del [of "request_times l" c] by (auto simp: limiter_ok_def evict_client_if_full_def)
  ultimately show ?thesis
    using assms ok sub by (fastforce simp: limiter_ok_def used_last_def dict_ok_def)
qed

lemma count_request_ok: "limiter_ok l \<Longrightarrow> limiter_ok (snd (count_request c now l))"
proof -
  assume ok: "limiter_ok l"
  have "int (length (times_left c now l)) \<le> request_limit l"
  proof (cases "map_of (request_times l) c")
    case (Some ts)
    then have "int (length ts) \<le> request_limit l" using ok by (force simp: limiter_ok_def dest: map_of_SomeD)
    moreover have "length (times_left c now l) \<le> length ts" by (simp add: times_left_def dict_get_or_def Some length_dropWhile_le)
    ultimately show ?thesis by linarith
  qed (use ok in \<open>simp add: times_left_def dict_get_or_def limiter_ok_def\<close>)
  then show ?thesis unfolding count_request_eq using used_last_ok [OF ok] by (simp add: Let_def)
qed

text \<open>The limiter keeps its bounds: whatever requests come, it holds at most the allowed number of clients and
  for each at most the allowed number of times. An admitted request is told how many are left; a refused one
  is told a delay of at least a second, and it is enough: the client that comes back no sooner is
  admitted.\<close>

theorem rate_limiter_bounded:
  assumes "limiter_ok l" and "count_request c now l = (d, l')"
  shows "limiter_ok l' \<and> (case d of
       RateAdmitted remaining reset \<Rightarrow> 0 \<le> remaining \<and> remaining < request_limit l \<and> 1 \<le> reset
     | RateRefused delay \<Rightarrow> 1 \<le> delay
         \<and> (\<forall>later \<ge> now + of_int delay. \<exists>remaining reset l''. count_request c later l' = (RateAdmitted remaining reset, l'')))"
proof -
  let ?ts = "times_left c now l"
  have ok: "limiter_ok l'" using count_request_ok [OF assms(1), of c now] assms(2) by simp
  have lim: "1 \<le> request_limit l" using assms(1) by (simp add: limiter_ok_def)
  show ?thesis
  proof (cases "int (length ?ts) \<ge> request_limit l")
    case False
    then show ?thesis using assms(2) ok lim by (auto simp: count_request_eq Let_def reset_after_def)
  next
    case True
    then have d: "d = RateRefused (reset_after l now (hd ?ts))" and l': "l' = l\<lparr>request_times := used_last c ?ts l\<rparr>"
      using assms(2) by (simp_all add: count_request_eq Let_def)
    have table: "map_of (request_times l') c = Some ?ts" by (simp add: l' used_last_here)
    have left: "int (length (times_left c later l')) < request_limit l'" if "now + of_int (reset_after l now (hd ?ts)) \<le> later" for later
    proof -
      obtain t ts where ts: "?ts = t # ts" using True lim by (cases ?ts) auto
      have "int (length ?ts) \<le> request_limit l'" using ok table by (force simp: limiter_ok_def dest: map_of_SomeD)
      moreover have "t + window_seconds l - now \<le> of_int \<lceil>t + window_seconds l - now\<rceil>" by (rule le_of_int_ceiling)
      then have "t \<le> later - window_seconds l" using that by (simp add: reset_after_def ts) linarith
      then have "times_left c later l' = dropWhile (\<lambda>t. t \<le> later - window_seconds l) ts"
        unfolding times_left_def [of c later l'] dict_get_or_def table by (simp add: ts l')
      then have "length (times_left c later l') \<le> length ts" by (simp add: length_dropWhile_le)
      ultimately show ?thesis by (simp add: ts)
    qed
    have "\<exists>remaining reset l''. count_request c later l' = (RateAdmitted remaining reset, l'')"
      if "now + of_int (reset_after l now (hd ?ts)) \<le> later" for later
      using left [OF that] by (simp add: count_request_eq [of c later l'] Let_def)
    moreover have "1 \<le> reset_after l now (hd ?ts)" by (simp add: reset_after_def)
    ultimately show ?thesis using ok by (simp add: d)
  qed
qed

section \<open>The limiter is a sliding window\<close>

text \<open>What is asked of a limiter, without a table: a request is admitted when fewer than \<open>cap\<close> requests of
  the client were admitted in the window of length \<open>w\<close> that ends with it.\<close>

fun sliding_window :: "int \<Rightarrow> rat \<Rightarrow> (rat \<times> string) list \<Rightarrow> (rat \<times> string) list \<Rightarrow> bool list" where
  "sliding_window cap w h [] = []"
| "sliding_window cap w h ((now, c) # xs) =
     (let ok = int (length (filter (\<lambda>(u, d). d = c \<and> now - w < u) h)) < cap
      in ok # sliding_window cap w (if ok then h @ [(now, c)] else h) xs)"

fun rate_answers :: "rate_limiter \<Rightarrow> (rat \<times> string) list \<Rightarrow> bool list" where
  "rate_answers l [] = []"
| "rate_answers l ((now, c) # xs) =
     (case count_request c now l of
        (RateAdmitted _ _, l') \<Rightarrow> True # rate_answers l' xs
      | (RateRefused _, l') \<Rightarrow> False # rate_answers l' xs)"

text \<open>The table holds what is left of the admitted requests of each client.\<close>

definition tracks :: "rate_limiter \<Rightarrow> (rat \<times> string) list \<Rightarrow> rat \<Rightarrow> bool" where
  "tracks l h now \<longleftrightarrow> sorted (map fst h) \<and> (\<forall>(u, d) \<in> set h. u \<le> now)
     \<and> (\<forall>c. case map_of (request_times l) c of
          None \<Rightarrow> (\<forall>(u, d) \<in> set h. d \<noteq> c)
        | Some ts \<Rightarrow> (\<exists>cut \<le> now - window_seconds l. ts = map fst (filter (\<lambda>(u, d). d = c \<and> cut < u) h)))"

lemma dropWhile_sorted: "sorted xs \<Longrightarrow> dropWhile (\<lambda>t. t \<le> a) xs = filter (\<lambda>t. a < t) (xs :: rat list)"
proof (induction xs)
  case (Cons x xs)
  show ?case
  proof (cases "x \<le> a")
    case False
    then have "\<forall>y \<in> set (x # xs). a < y" using Cons.prems by fastforce
    then show ?thesis using False by (simp add: filter_True)
  qed (use Cons in simp)
qed simp

lemma tracksD:
  assumes "tracks l h now"
  shows "map_of (request_times l) c = None \<Longrightarrow> \<forall>(u, d) \<in> set h. d \<noteq> c"
    and "map_of (request_times l) c = Some ts \<Longrightarrow> \<exists>cut \<le> now - window_seconds l. ts = map fst (filter (\<lambda>(u, d). d = c \<and> cut < u) h)"
    and "sorted (map fst h)" and "\<forall>(u, d) \<in> set h. u \<le> now"
proof -
  have "case map_of (request_times l) c of
          None \<Rightarrow> (\<forall>(u, d) \<in> set h. d \<noteq> c)
        | Some ts \<Rightarrow> (\<exists>cut \<le> now - window_seconds l. ts = map fst (filter (\<lambda>(u, d). d = c \<and> cut < u) h))"
    using assms unfolding tracks_def by blast
  then show "map_of (request_times l) c = None \<Longrightarrow> \<forall>(u, d) \<in> set h. d \<noteq> c"
    and "map_of (request_times l) c = Some ts \<Longrightarrow> \<exists>cut \<le> now - window_seconds l. ts = map fst (filter (\<lambda>(u, d). d = c \<and> cut < u) h)"
    by simp_all
  show "sorted (map fst h)" "\<forall>(u, d) \<in> set h. u \<le> now" using assms unfolding tracks_def by blast+
qed

lemma sorted_fst_filter: "sorted (map fst h) \<Longrightarrow> sorted (map fst (filter P h))"
  by (induction h) auto

lemma times_left_window:
  assumes "tracks l h before" and "before \<le> now"
  shows "times_left c now l = map fst (filter (\<lambda>(u, d). d = c \<and> now - window_seconds l < u) h)"
proof (cases "map_of (request_times l) c")
  case None
  then have "\<forall>(u, d) \<in> set h. d \<noteq> c" by (rule tracksD(1) [OF assms(1)])
  then have "filter (\<lambda>(u, d). d = c \<and> now - window_seconds l < u) h = []" by (auto simp: filter_empty_conv)
  then show ?thesis by (simp add: times_left_def dict_get_or_def None)
next
  case (Some ts)
  obtain cut where cut: "cut \<le> before - window_seconds l" and ts: "ts = map fst (filter (\<lambda>(u, d). d = c \<and> cut < u) h)"
    using tracksD(2) [OF assms(1) Some] by blast
  have "sorted ts" unfolding ts by (intro sorted_fst_filter tracksD(3) [OF assms(1)])
  then have "times_left c now l = filter (\<lambda>t. now - window_seconds l < t) ts"
    by (simp add: times_left_def dict_get_or_def Some dropWhile_sorted)
  also have "\<dots> = map fst (filter (\<lambda>(u, d). d = c \<and> now - window_seconds l < u) h)"
    unfolding ts filter_map filter_filter using cut assms(2) by (intro arg_cong [of _ _ "map fst"] filter_cong) auto
  finally show ?thesis .
qed

lemma tracks_step:
  assumes "tracks l h before" and "before \<le> now" and "limiter_ok l" and "new = [] \<or> new = [(now, c)]"
    and "fst ` set (request_times l) \<subseteq> C" and "finite C" and "int (card C) \<le> max_clients l" and "c \<in> C"
  shows "tracks (l\<lparr>request_times := used_last c (times_left c now l @ map fst new) l\<rparr>) (h @ new) now
     \<and> fst ` set (used_last c (times_left c now l @ map fst new) l) \<subseteq> C"
proof -
  let ?d = "if map_of (request_times l) c = None then evict_client_if_full l else dict_del c (request_times l)"
  have "int (length (request_times l)) < max_clients l" if "map_of (request_times l) c = None"
  proof -
    have "fst ` set (request_times l) \<subseteq> C - {c}" using that assms(5) by (auto simp: map_of_eq_None_iff)
    then have "card (fst ` set (request_times l)) \<le> card C - 1" using assms(6,8) card_mono [of "C - {c}"] by fastforce
    moreover have "card (fst ` set (request_times l)) = length (request_times l)"
      using assms(3) distinct_card [of "map fst (request_times l)"] by (simp add: limiter_ok_def dict_ok_def)
    moreover have "0 < card C" using assms(6,8) by (auto simp: card_gt_0_iff)
    ultimately show ?thesis using assms(7) by linarith
  qed
  then have d: "map_of ?d = (map_of (request_times l))(c := None)"
    by (cases "map_of (request_times l) c") (auto simp: evict_client_if_full_def fun_upd_idem)
  have in_C: "fst ` set ?d \<subseteq> C" using assms(5) evict_subset [of l] by (auto simp: dict_del_def)
  have look: "map_of (used_last c ts l) k = (if k = c then Some ts else map_of (request_times l) k)" for k ts
    using d by (simp add: used_last_def map_add_def split: option.split)
  have mono: "cut \<le> now - window_seconds l" if "cut \<le> before - window_seconds l" for cut using that assms(2) by linarith
  have here: "times_left c now l @ map fst new = map fst (filter (\<lambda>(u, d). d = c \<and> now - window_seconds l < u) (h @ new))"
    using assms(3,4) unfolding times_left_window [OF assms(1,2)] by (auto simp: limiter_ok_def)
  have there: "case map_of (request_times l) k of
          None \<Rightarrow> (\<forall>(u, d) \<in> set (h @ new). d \<noteq> k)
        | Some ts \<Rightarrow> (\<exists>cut \<le> now - window_seconds l. ts = map fst (filter (\<lambda>(u, d). d = k \<and> cut < u) (h @ new)))" if "k \<noteq> c" for k
  proof -
    have same: "filter (\<lambda>(u, d). d = k \<and> cut < u) (h @ new) = filter (\<lambda>(u, d). d = k \<and> cut < u) h" for cut
      using assms(4) that by auto
    show ?thesis
    proof (cases "map_of (request_times l) k")
      case None
      then show ?thesis using tracksD(1) [OF assms(1) None] assms(4) that by auto
    next
      case (Some ts)
      then show ?thesis using tracksD(2) [OF assms(1) Some] mono unfolding same by auto
    qed
  qed
  have "tracks (l\<lparr>request_times := used_last c (times_left c now l @ map fst new) l\<rparr>) (h @ new) now"
    unfolding tracks_def
  proof (intro conjI allI)
    show "sorted (map fst (h @ new))" using tracksD(3,4) [OF assms(1)] assms(2,4) by (fastforce simp: sorted_append)
    show "\<forall>(u, d) \<in> set (h @ new). u \<le> now" using tracksD(4) [OF assms(1)] assms(2,4) by fastforce
    fix k
    show "case map_of (request_times (l\<lparr>request_times := used_last c (times_left c now l @ map fst new) l\<rparr>)) k of
          None \<Rightarrow> (\<forall>(u, d) \<in> set (h @ new). d \<noteq> k)
        | Some ts \<Rightarrow> (\<exists>cut \<le> now - window_seconds (l\<lparr>request_times := used_last c (times_left c now l @ map fst new) l\<rparr>).
            ts = map fst (filter (\<lambda>(u, d). d = k \<and> cut < u) (h @ new)))"
    proof (cases "k = c")
      case True
      show ?thesis using here by (auto simp: look True)
    next
      case False
      have "map_of (request_times (l\<lparr>request_times := used_last c (times_left c now l @ map fst new) l\<rparr>)) k = map_of (request_times l) k"
          "window_seconds (l\<lparr>request_times := used_last c (times_left c now l @ map fst new) l\<rparr>) = window_seconds l"
        using False by (simp_all add: look)
      then show ?thesis using there [OF False] by (simp only:)
    qed
  qed
  moreover have "fst ` set (used_last c (times_left c now l @ map fst new) l) \<subseteq> C"
    using in_C assms(8) by (simp add: used_last_def)
  ultimately show ?thesis by blast
qed

lemma answers_track:
  assumes "tracks l h before" and "sorted (map fst xs)" and "\<forall>(u, d) \<in> set xs. before \<le> u" and "limiter_ok l"
    and "fst ` set (request_times l) \<subseteq> C" and "snd ` set xs \<subseteq> C" and "finite C" and "int (card C) \<le> max_clients l"
  shows "rate_answers l xs = sliding_window (request_limit l) (window_seconds l) h xs"
  using assms
proof (induction xs arbitrary: l h before)
  case (Cons x xs)
  obtain now c where x: "x = (now, c)" by fastforce
  let ?ts = "times_left c now l"
  have le: "before \<le> now" and c: "c \<in> C" and rest: "sorted (map fst xs)" "\<forall>(u, d) \<in> set xs. now \<le> u" "snd ` set xs \<subseteq> C"
    using Cons.prems(2,3,6) by (auto simp: x)
  have len: "length ?ts = length (filter (\<lambda>(u, d). d = c \<and> now - window_seconds l < u) h)"
    unfolding times_left_window [OF Cons.prems(1) le] by simp
  note step = tracks_step [OF Cons.prems(1) le Cons.prems(4) _ Cons.prems(5,7,8) c]
  note IH = Cons.IH [OF _ rest(1,2) _ _ rest(3) Cons.prems(7)]
  note ok = count_request_ok [OF Cons.prems(4), of c now]
  show ?case
  proof (cases "int (length ?ts) \<ge> request_limit l")
    case True
    then have r: "count_request c now l = (RateRefused (reset_after l now (hd ?ts)), l\<lparr>request_times := used_last c ?ts l\<rparr>)"
      by (simp add: count_request_eq Let_def)
    have "rate_answers (l\<lparr>request_times := used_last c ?ts l\<rparr>) xs = sliding_window (request_limit l) (window_seconds l) h xs"
      using IH [of "l\<lparr>request_times := used_last c ?ts l\<rparr>" h] step [of "[]"] ok r Cons.prems(8) by simp
    then show ?thesis using True by (simp add: x r len Let_def)
  next
    case False
    then have r: "count_request c now l = (RateAdmitted (request_limit l - int (length (?ts @ [now]))) (reset_after l now (hd (?ts @ [now]))),
        l\<lparr>request_times := used_last c (?ts @ [now]) l\<rparr>)"
      by (simp add: count_request_eq Let_def)
    have "rate_answers (l\<lparr>request_times := used_last c (?ts @ [now]) l\<rparr>) xs
        = sliding_window (request_limit l) (window_seconds l) (h @ [(now, c)]) xs"
      using IH [of "l\<lparr>request_times := used_last c (?ts @ [now]) l\<rparr>" "h @ [(now, c)]"] step [of "[(now, c)]"] ok r Cons.prems(8) by simp
    then show ?thesis using False by (simp add: x r len Let_def)
  qed
qed simp

text \<open>No window holds more than the cap.\<close>

definition window_count :: "rat \<Rightarrow> string \<Rightarrow> rat \<Rightarrow> (rat \<times> string) list \<Rightarrow> nat" where
  "window_count w c t h = length (filter (\<lambda>(u, d). d = c \<and> t - w < u \<and> u \<le> t) h)"

definition admitted_of :: "(rat \<times> string) list \<Rightarrow> bool list \<Rightarrow> (rat \<times> string) list" where
  "admitted_of xs answers = map fst (filter snd (zip xs answers))"

lemma window_capped:
  assumes "\<And>c t. int (window_count w c t h) \<le> cap" and "\<forall>(u, d) \<in> set h. u \<le> before"
    and "sorted (map fst xs)" and "\<forall>(u, d) \<in> set xs. before \<le> u" and "0 < w"
  shows "int (window_count w c t (h @ admitted_of xs (sliding_window cap w h xs))) \<le> cap"
  using assms
proof (induction xs arbitrary: h before)
  case (Cons x xs)
  obtain now k where x: "x = (now, k)" by fastforce
  have rest: "sorted (map fst xs)" "\<forall>(u, d) \<in> set xs. now \<le> u" and le: "before \<le> now" using Cons.prems(3,4) by (auto simp: x)
  have h: "\<forall>(u, d) \<in> set h. u \<le> now" using Cons.prems(2) le by fastforce
  show ?case
  proof (cases "int (length (filter (\<lambda>(u, d). d = k \<and> now - w < u) h)) < cap")
    case False
    then show ?thesis using Cons.IH [OF Cons.prems(1) h rest Cons.prems(5)] by (simp add: x admitted_of_def)
  next
    case True
    have "int (window_count w d t (h @ [(now, k)])) \<le> cap" for d t
    proof (cases "d = k \<and> t - w < now \<and> now \<le> t")
      case True': True
      have "length (filter (\<lambda>(u, e). e = d \<and> t - w < u \<and> u \<le> t) h) \<le> length (filter (\<lambda>(u, e). e = k \<and> now - w < u) h)"
        unfolding length_filter_conv_card
        by (rule card_mono) (use True' in auto)
      then show ?thesis using True' \<open>int (length (filter (\<lambda>(u, d). d = k \<and> now - w < u) h)) < cap\<close> by (simp add: window_count_def)
    next
      case False
      then have "window_count w d t (h @ [(now, k)]) = window_count w d t h" by (auto simp: window_count_def)
      then show ?thesis using Cons.prems(1) by simp
    qed
    then have "int (window_count w c t ((h @ [(now, k)]) @ admitted_of xs (sliding_window cap w (h @ [(now, k)]) xs))) \<le> cap"
      by (rule Cons.IH [OF _ _ rest Cons.prems(5)]) (use h in auto)
    then show ?thesis using True by (simp add: x admitted_of_def)
  qed
qed (simp add: admitted_of_def)

text \<open>C34: as long as no more clients come than the limiter has room for, it is an exact sliding window: a request is
  admitted exactly when its client had fewer than the limit admitted in the window that ends with it, so that
  no window of the configured length, wherever it ends, ever holds more admitted requests of a client than
  the limit.\<close>

theorem rate_limit_is_sliding_window:
  assumes "make_rate_limiter cap window clients = Inr l" and "sorted (map fst xs)" and "int (card (snd ` set xs)) \<le> clients"
  shows "rate_answers l xs = sliding_window cap window [] xs
     \<and> int (window_count window c t (admitted_of xs (rate_answers l xs))) \<le> cap"
proof -
  note made = make_rate_limiter_ok [OF assms(1)]
  have l: "limiter_ok l" "request_limit l = cap" "window_seconds l = window" "max_clients l = clients" "request_times l = []"
    using made by simp_all
  define first where "first = (if xs = [] then 0 else fst (hd xs))"
  have first: "\<forall>(u, d) \<in> set xs. first \<le> u" using assms(2) by (cases xs) (auto simp: first_def)
  have "tracks l [] first" by (simp add: tracks_def l(5))
  then have same: "rate_answers l xs = sliding_window cap window [] xs"
    using answers_track [OF _ assms(2) first l(1), of "[]" "snd ` set xs"] assms(3) by (simp add: l)
  have "1 \<le> cap" "0 < window" using l(1) by (simp_all add: limiter_ok_def l(2,3))
  then have "int (window_count window c t ([] @ admitted_of xs (sliding_window cap window [] xs))) \<le> cap"
    by (intro window_capped [OF _ _ assms(2) first]) (simp_all add: window_count_def)
  then show ?thesis unfolding same by simp
qed

theorem rate_limit_is_sliding_window_witness:
  "\<exists>l. make_rate_limiter 1 60 2 = Inr l \<and> rate_answers l [(0, ''a''), (5, ''a''), (7, ''b''), (61, ''a'')] = [True, False, True, True]"
proof -
  obtain l where l: "make_rate_limiter 1 60 2 = Inr l" using make_rate_limiter_total [of 1 60 2] by auto
  let ?xs = "[(0, ''a''), (5, ''a''), (7, ''b''), (61, ''a'')] :: (rat \<times> string) list"
  have "rate_answers l ?xs = sliding_window 1 60 [] ?xs"
    by (rule conjunct1 [OF rate_limit_is_sliding_window [OF l]]) (simp_all add: insert_commute)
  then show ?thesis using l by (simp add: Let_def)
qed

theorem rate_limiter_bounded_witness:
  "\<exists>l r s l'. make_rate_limiter 1 60 2 = Inr l \<and> count_request ''a'' 5 (snd (count_request ''a'' 0 l)) = (RateRefused 55, l')
     \<and> (\<exists>l''. count_request ''a'' 60 l' = (RateAdmitted r s, l''))"
proof -
  obtain l where l: "make_rate_limiter 1 60 2 = Inr l" using make_rate_limiter_total [of 1 60 2] by auto
  note made = make_rate_limiter_ok [OF l]
  have one: "snd (count_request ''a'' 0 l) = l\<lparr>request_times := [(''a'', [0])]\<rparr>"
    using made by (simp add: count_request_def evict_client_if_full_def)
  have two: "count_request ''a'' 5 (snd (count_request ''a'' 0 l)) = (RateRefused 55, l\<lparr>request_times := [(''a'', [0])]\<rparr>)"
    unfolding one using made by (simp add: count_request_def reset_after_def dict_del_def)
  have "limiter_ok (snd (count_request ''a'' 0 l))" by (rule count_request_ok) (use made in simp)
  from rate_limiter_bounded [OF this two]
  have "\<exists>r s l''. count_request ''a'' 60 (l\<lparr>request_times := [(''a'', [0])]\<rparr>) = (RateAdmitted r s, l'')" by simp
  then show ?thesis using l two by blast
qed

section \<open>A client is what its headers say\<close>

text \<open>The key that tells clients apart is not checked before: a client that sends a new one with every
  request is never refused.\<close>

lemma unknown_client_admitted:
  "limiter_ok l \<Longrightarrow> map_of (request_times l) c = None \<Longrightarrow> \<exists>remaining reset l'. count_request c now l = (RateAdmitted remaining reset, l')"
  by (simp add: count_request_eq times_left_def dict_get_or_def Let_def limiter_ok_def)

section \<open>Bodies within the limit\<close>




text \<open>The error is that of the conversion, of a single header of digits.\<close>

lemma content_length_raises:
  "content_length s = Inl e \<Longrightarrow>
     \<exists>v. map snd (filter (\<lambda>(n, v). casefold n = ''content-length'') (scope_headers s)) = [v] \<and> list_all is_digit v \<and> 4300 < length v"
  by (auto simp: content_length_def int_of_digits_def split: list.splits if_splits)

end
