(* ===== verification/SqlReceipts.thy ===== *)
theory SqlReceipts
  imports Receipts
begin

text \<open>
  The idempotency receipts in the database: \<open>app/repositories/sqlalchemy/mission_command_idempotency.py\<close> and
  \<open>resource_creation_idempotency.py\<close> on the tables of \<open>app/db/models/mission_command.py\<close> and
  \<open>resource_creation_receipt.py\<close>. A table is a list of rows with the clock of the database beside it, which
  stamps new rows; a statement is one step. Both stores do what the stores in memory do, which Receipts shows
  to be receipt stores; pruning drops old completed receipts only.
\<close>

section \<open>Mission commands\<close>

record command_row =
  command_key :: string
  command_mission :: uuid
  command_type :: mission_command
  command_result :: "uuid option"
  command_created :: time

record command_table =
  command_rows :: "command_row list"
  command_clock :: time

definition command_row_of :: "command_table \<Rightarrow> string \<Rightarrow> command_row option" where
  "command_row_of s key = find (\<lambda>r. command_key r = key) (command_rows s)"

text \<open>\<open>INSERT ... ON CONFLICT DO NOTHING\<close>, and the row that is there where the key was taken.\<close>

definition sql_begin_command :: "string \<Rightarrow> uuid \<Rightarrow> mission_command \<Rightarrow> (command_table, exn, uuid option) prog" where
  "sql_begin_command key mid command s =
     (case command_row_of s key of
        None \<Rightarrow> (Inr None, s\<lparr>command_rows := command_rows s @
          [\<lparr>command_key = key, command_mission = mid, command_type = command, command_result = None, command_created = command_clock s\<rparr>]\<rparr>)
      | Some receipt \<Rightarrow>
          if command_mission receipt \<noteq> mid \<or> command_type receipt \<noteq> command then (Inl MissionCommandIdempotencyConflictError, s)
          else (case command_result receipt of None \<Rightarrow> (Inl MissionCommandInProgressError, s) | Some r \<Rightarrow> (Inr (Some r), s)))"

definition sql_complete_command :: "string \<Rightarrow> uuid \<Rightarrow> (command_table, exn, unit) prog" where
  "sql_complete_command key mid =
     modify (\<lambda>s. s\<lparr>command_rows := map (\<lambda>r. if command_key r = key then r\<lparr>command_result := Some mid\<rparr> else r) (command_rows s)\<rparr>)"

definition sql_abort_command :: "string \<Rightarrow> uuid \<Rightarrow> mission_command \<Rightarrow> (command_table, exn, unit) prog" where
  "sql_abort_command key mid command =
     modify (\<lambda>s. s\<lparr>command_rows := filter (\<lambda>r. \<not> (command_key r = key \<and> command_mission r = mid
       \<and> command_type r = command \<and> command_result r = None)) (command_rows s)\<rparr>)"

section \<open>Creation of resources\<close>

record creation_row =
  creation_row_scope :: creation_scope
  creation_row_key :: string
  request_fingerprint :: string
  created_resource :: "uuid option"
  creation_created :: time

record creation_table =
  creation_rows :: "creation_row list"
  creation_clock :: time

definition creation_row_id :: "creation_row \<Rightarrow> creation_scope \<times> string" where
  "creation_row_id r = (creation_row_scope r, creation_row_key r)"

definition creation_row_of :: "creation_table \<Rightarrow> creation_scope \<times> string \<Rightarrow> creation_row option" where
  "creation_row_of s k = find (\<lambda>r. creation_row_id r = k) (creation_rows s)"

definition sql_begin_creation :: "creation_scope \<Rightarrow> string \<Rightarrow> string \<Rightarrow> (creation_table, exn, uuid option) prog" where
  "sql_begin_creation scope key fingerprint s =
     (case creation_row_of s (scope, key) of
        None \<Rightarrow> (Inr None, s\<lparr>creation_rows := creation_rows s @
          [\<lparr>creation_row_scope = scope, creation_row_key = key, request_fingerprint = fingerprint, created_resource = None,
            creation_created = creation_clock s\<rparr>]\<rparr>)
      | Some receipt \<Rightarrow>
          if request_fingerprint receipt \<noteq> fingerprint then (Inl ResourceCreationConflictError, s)
          else (case created_resource receipt of None \<Rightarrow> (Inl ResourceCreationInProgressError, s) | Some r \<Rightarrow> (Inr (Some r), s)))"

definition sql_complete_creation :: "creation_scope \<Rightarrow> string \<Rightarrow> uuid \<Rightarrow> (creation_table, exn, unit) prog" where
  "sql_complete_creation scope key resource_id =
     modify (\<lambda>s. s\<lparr>creation_rows := map (\<lambda>r. if creation_row_id r = (scope, key) then r\<lparr>created_resource := Some resource_id\<rparr> else r)
       (creation_rows s)\<rparr>)"

definition sql_abort_creation :: "creation_scope \<Rightarrow> string \<Rightarrow> string \<Rightarrow> (creation_table, exn, unit) prog" where
  "sql_abort_creation scope key fingerprint =
     modify (\<lambda>s. s\<lparr>creation_rows := filter (\<lambda>r. \<not> (creation_row_id r = (scope, key) \<and> request_fingerprint r = fingerprint
       \<and> created_resource r = None)) (creation_rows s)\<rparr>)"

text \<open>Pruning. The rows are ordered by time, then scope, then key; \<open>rank\<close> is the place of a scope and key in
  the order of the database. A deletion returns the same keys, in an order the database chooses.\<close>

definition prunable_creation :: "time \<Rightarrow> creation_row \<Rightarrow> bool" where
  "prunable_creation cutoff r \<longleftrightarrow> created_resource r \<noteq> None \<and> creation_created r < cutoff"

definition prune_order :: "(creation_scope \<times> string \<Rightarrow> nat) \<Rightarrow> creation_row \<Rightarrow> time \<times> nat" where
  "prune_order rank r = (creation_created r, rank (creation_row_id r))"

definition prune_keys :: "(creation_scope \<times> string \<Rightarrow> nat) \<Rightarrow> time \<Rightarrow> int \<Rightarrow> creation_row list \<Rightarrow> (creation_scope \<times> string) list" where
  "prune_keys rank cutoff limit rows =
     map creation_row_id (first_n limit (sort_key (prune_order rank) (filter (prunable_creation cutoff) rows)))"

definition prune_completed_before ::
  "(creation_scope \<times> string \<Rightarrow> nat) \<Rightarrow> datetime \<Rightarrow> int \<Rightarrow> bool \<Rightarrow> (creation_table, exn, (creation_scope \<times> string) list) prog" where
  "prune_completed_before rank cutoff limit dry_run =
     thenE (require (is_aware cutoff) (ValueError ''cutoff must be timezone-aware''))
     (thenE (require (0 < limit) (ValueError ''limit must be greater than zero''))
     (bindE (gets (\<lambda>s. prune_keys rank (instant cutoff) limit (creation_rows s))) (\<lambda>ks.
      if dry_run then ret ks
      else thenE (modify (\<lambda>s. s\<lparr>creation_rows := filter (\<lambda>r. creation_row_id r \<notin> set ks) (creation_rows s)\<rparr>)) (ret ks))))"

section \<open>The stores in memory are implemented\<close>

definition commands_held :: "command_table \<Rightarrow> command_receipts \<Rightarrow> bool" where
  "commands_held s d \<longleftrightarrow> distinct (map command_key (command_rows s))
     \<and> (\<forall>key. map_option (\<lambda>r. (command_mission r, command_type r, command_result r)) (command_row_of s key) = map_of d key)"

definition creations_held :: "creation_table \<Rightarrow> creation_receipts \<Rightarrow> bool" where
  "creations_held s d \<longleftrightarrow> distinct (map creation_row_id (creation_rows s))
     \<and> (\<forall>k. map_option (\<lambda>r. (request_fingerprint r, created_resource r)) (creation_row_of s k) = map_of d k)"

text \<open>Two programs on related states give one answer and leave related states.\<close>

definition same_answer :: "('s \<Rightarrow> 't \<Rightarrow> bool) \<Rightarrow> ('s, exn, 'a) prog \<Rightarrow> ('t, exn, 'a) prog \<Rightarrow> 's \<Rightarrow> 't \<Rightarrow> bool" where
  "same_answer R p q s t \<longleftrightarrow> fst (p s) = fst (q t) \<and> R (snd (p s)) (snd (q t))"

lemma find_append: "find P (xs @ ys) = (case find P xs of None \<Rightarrow> find P ys | Some x \<Rightarrow> Some x)"
  by (induction xs) auto

lemma find_change:
  "(\<And>x. f (g x) = f x) \<Longrightarrow> find (\<lambda>x. f x = k) (map (\<lambda>x. if f x = k' then g x else x) xs)
     = map_option (\<lambda>x. if k = k' then g x else x) (find (\<lambda>x. f x = k) xs)"
  by (induction xs) auto

lemma find_key_None: "find (\<lambda>x. f x = k) xs = None \<longleftrightarrow> k \<notin> f ` set xs"
  by (auto simp: find_None_iff)

lemma find_remove:
  assumes "distinct (map f xs)"
  shows "find (\<lambda>x. f x = k) (filter (\<lambda>x. \<not> (f x = k' \<and> Q x)) xs)
     = (case find (\<lambda>x. f x = k) xs of None \<Rightarrow> None | Some x \<Rightarrow> if k = k' \<and> Q x then None else Some x)"
  using assms
proof (induction xs)
  case (Cons y ys)
  have "find (\<lambda>x. f x = k) (filter R ys) = None" if "f y = k" for R
    using Cons.prems that unfolding find_key_None by auto
  then show ?case using Cons by (auto split: option.splits)
qed simp

lemma find_distinct_key: "distinct (map f xs) \<Longrightarrow> x \<in> set xs \<Longrightarrow> f x = k \<Longrightarrow> find (\<lambda>y. f y = k) xs = Some x"
  by (induction xs) force+

lemma begin_command_held: "commands_held s d \<Longrightarrow> same_answer commands_held (sql_begin_command key mid c) (begin_command key mid c) s d"
proof -
  assume held: "commands_held s d"
  then have at: "map_of d k = map_option (\<lambda>r. (command_mission r, command_type r, command_result r)) (command_row_of s k)" for k
    by (simp add: commands_held_def)
  show ?thesis
  proof (cases "command_row_of s key")
    case None
    then have "key \<notin> command_key ` set (command_rows s)" by (simp add: command_row_of_def find_key_None)
    moreover have "command_row_of (s\<lparr>command_rows := command_rows s @ [r]\<rparr>) k = (if k = key then Some r else command_row_of s k)"
      if "command_key r = key" for r k
      using that None by (auto simp: command_row_of_def find_append split: option.split)
    ultimately show ?thesis
      using held None at by (auto simp: same_answer_def sql_begin_command_def begin_command_def commands_held_def)
  next
    case (Some r)
    then show ?thesis
      using held at [of key]
      by (auto simp: same_answer_def sql_begin_command_def begin_command_def split: option.split)
  qed
qed

lemma complete_command_held:
  assumes "commands_held s d" and "map_of d key \<noteq> None"
  shows "same_answer commands_held (sql_complete_command key mid) (complete_command key mid) s d"
proof -
  have at: "map_of d k = map_option (\<lambda>r. (command_mission r, command_type r, command_result r)) (command_row_of s k)" for k
    using assms(1) by (simp add: commands_held_def)
  let ?s = "s\<lparr>command_rows := map (\<lambda>r. if command_key r = key then r\<lparr>command_result := Some mid\<rparr> else r) (command_rows s)\<rparr>"
  have row: "command_row_of ?s k = (if k = key then map_option (\<lambda>r. r\<lparr>command_result := Some mid\<rparr>) (command_row_of s k) else command_row_of s k)" for k
    by (cases "k = key") (simp_all add: command_row_of_def find_change option.map_ident)
  have "map command_key (command_rows ?s) = map command_key (command_rows s)" by simp
  then have "distinct (map command_key (command_rows ?s))" using assms(1) unfolding commands_held_def by (simp only:)
  moreover obtain r where r: "command_row_of s key = Some r" using assms(2) at [of key] by auto
  ultimately show ?thesis
    using assms(1) at row by (auto simp: same_answer_def sql_complete_command_def complete_command_def modify_def commands_held_def)
qed

lemma abort_command_held:
  assumes "commands_held s d"
  shows "same_answer commands_held (sql_abort_command key mid c) (abort_command key mid c) s d"
proof -
  have at: "map_of d k = map_option (\<lambda>r. (command_mission r, command_type r, command_result r)) (command_row_of s k)" for k
    using assms by (simp add: commands_held_def)
  have distinct: "distinct (map command_key (command_rows s))" using assms by (simp add: commands_held_def)
  let ?Q = "\<lambda>r. command_mission r = mid \<and> command_type r = c \<and> command_result r = None"
  define s2 where "s2 = s\<lparr>command_rows := filter (\<lambda>r. \<not> (command_key r = key \<and> ?Q r)) (command_rows s)\<rparr>"
  have row: "command_row_of s2 k = (case command_row_of s k of None \<Rightarrow> None | Some r \<Rightarrow> if k = key \<and> ?Q r then None else Some r)" for k
    using find_remove [OF distinct, of k key ?Q] by (simp add: command_row_of_def s2_def)
  have "map_of d key = Some (mid, c, None) \<longleftrightarrow> (\<exists>r. command_row_of s key = Some r \<and> ?Q r)" by (auto simp: at)
  moreover have "distinct (map command_key (command_rows s2))" using distinct by (simp add: s2_def distinct_map_filter)
  moreover have "sql_abort_command key mid c s = (Inr (), s2)" by (simp add: sql_abort_command_def modify_def s2_def)
  ultimately show ?thesis
    unfolding same_answer_def abort_command_def commands_held_def
    by (auto simp: row at simp del: split_paired_All split: option.split)
qed

lemma creation_row_id_simps [simp]:
  "creation_row_id (r\<lparr>created_resource := x\<rparr>) = creation_row_id r"
  "creation_row_id \<lparr>creation_row_scope = a, creation_row_key = b, request_fingerprint = f, created_resource = x, creation_created = t\<rparr> = (a, b)"
  by (simp_all add: creation_row_id_def)

lemma begin_creation_held: "creations_held s d \<Longrightarrow> same_answer creations_held (sql_begin_creation scope key fp) (begin_creation scope key fp) s d"
proof -
  assume held: "creations_held s d"
  then have at: "map_of d k = map_option (\<lambda>r. (request_fingerprint r, created_resource r)) (creation_row_of s k)" for k
    by (simp add: creations_held_def del: split_paired_All)
  show ?thesis
  proof (cases "creation_row_of s (scope, key)")
    case None
    then have "(scope, key) \<notin> creation_row_id ` set (creation_rows s)" by (simp add: creation_row_of_def find_key_None)
    moreover have "creation_row_of (s\<lparr>creation_rows := creation_rows s @ [r]\<rparr>) k = (if k = (scope, key) then Some r else creation_row_of s k)"
      if "creation_row_id r = (scope, key)" for r k
      using that None by (auto simp: creation_row_of_def find_append split: option.split)
    ultimately show ?thesis
      using held None at by (auto simp: same_answer_def sql_begin_creation_def begin_creation_def creations_held_def simp del: split_paired_All)
  next
    case (Some r)
    then show ?thesis
      using held at [of "(scope, key)"]
      by (auto simp: same_answer_def sql_begin_creation_def begin_creation_def split: option.split)
  qed
qed

lemma complete_creation_held:
  assumes "creations_held s d" and "map_of d (scope, key) \<noteq> None"
  shows "same_answer creations_held (sql_complete_creation scope key mid) (complete_creation scope key mid) s d"
proof -
  have at: "map_of d k = map_option (\<lambda>r. (request_fingerprint r, created_resource r)) (creation_row_of s k)" for k
    using assms(1) by (simp add: creations_held_def del: split_paired_All)
  let ?s = "s\<lparr>creation_rows := map (\<lambda>r. if creation_row_id r = (scope, key) then r\<lparr>created_resource := Some mid\<rparr> else r) (creation_rows s)\<rparr>"
  have row: "creation_row_of ?s k = (if k = (scope, key) then map_option (\<lambda>r. r\<lparr>created_resource := Some mid\<rparr>) (creation_row_of s k) else creation_row_of s k)" for k
    by (cases "k = (scope, key)") (simp_all add: creation_row_of_def find_change option.map_ident)
  have "map creation_row_id (creation_rows ?s) = map creation_row_id (creation_rows s)" by simp
  then have "distinct (map creation_row_id (creation_rows ?s))" using assms(1) unfolding creations_held_def by (simp only:)
  moreover obtain r where r: "creation_row_of s (scope, key) = Some r" using assms(2) at [of "(scope, key)"] by auto
  ultimately show ?thesis
    using assms(1) at row by (auto simp: same_answer_def sql_complete_creation_def complete_creation_def modify_def creations_held_def simp del: split_paired_All)
qed

lemma abort_creation_held:
  assumes "creations_held s d"
  shows "same_answer creations_held (sql_abort_creation scope key fp) (abort_creation scope key fp) s d"
proof -
  have at: "map_of d k = map_option (\<lambda>r. (request_fingerprint r, created_resource r)) (creation_row_of s k)" for k
    using assms by (simp add: creations_held_def del: split_paired_All)
  have distinct: "distinct (map creation_row_id (creation_rows s))" using assms by (simp add: creations_held_def del: split_paired_All)
  let ?Q = "\<lambda>r. request_fingerprint r = fp \<and> created_resource r = None"
  define s2 where "s2 = s\<lparr>creation_rows := filter (\<lambda>r. \<not> (creation_row_id r = (scope, key) \<and> ?Q r)) (creation_rows s)\<rparr>"
  have row: "creation_row_of s2 k = (case creation_row_of s k of None \<Rightarrow> None | Some r \<Rightarrow> if k = (scope, key) \<and> ?Q r then None else Some r)" for k
    using find_remove [OF distinct, of k "(scope, key)" ?Q] by (simp add: creation_row_of_def s2_def)
  have "map_of d (scope, key) = Some (fp, None) \<longleftrightarrow> (\<exists>r. creation_row_of s (scope, key) = Some r \<and> ?Q r)" by (auto simp: at)
  moreover have "distinct (map creation_row_id (creation_rows s2))" using distinct by (simp add: s2_def distinct_map_filter)
  moreover have "sql_abort_creation scope key fp s = (Inr (), s2)" by (simp add: sql_abort_creation_def modify_def s2_def)
  ultimately show ?thesis
    unfolding same_answer_def abort_creation_def creations_held_def
    by (auto simp: row at simp del: split_paired_All split: option.split)
qed

section \<open>Sequences of calls\<close>

datatype receipt_call =
    BeginCommand string uuid mission_command
  | CompleteCommand string uuid
  | AbortCommand string uuid mission_command
  | BeginCreation creation_scope string string
  | CompleteCreation creation_scope string uuid
  | AbortCreation creation_scope string string

definition on_left :: "('s, exn, 'a) prog \<Rightarrow> 's \<times> 't \<Rightarrow> (exn + 'a) \<times> ('s \<times> 't)" where
  "on_left p st = (case p (fst st) of (r, s) \<Rightarrow> (r, (s, snd st)))"

definition on_right :: "('t, exn, 'a) prog \<Rightarrow> 's \<times> 't \<Rightarrow> (exn + 'a) \<times> ('s \<times> 't)" where
  "on_right p st = (case p (snd st) of (r, t) \<Rightarrow> (r, (fst st, t)))"

definition no_value :: "(exn + unit) \<times> 's \<Rightarrow> (exn + uuid option) \<times> 's" where
  "no_value = map_prod (map_sum id (\<lambda>_. None)) id"

fun sql_serve :: "receipt_call \<Rightarrow> command_table \<times> creation_table \<Rightarrow> (exn + uuid option) \<times> (command_table \<times> creation_table)" where
  "sql_serve (BeginCommand key mid c) st = on_left (sql_begin_command key mid c) st"
| "sql_serve (CompleteCommand key mid) st = no_value (on_left (sql_complete_command key mid) st)"
| "sql_serve (AbortCommand key mid c) st = no_value (on_left (sql_abort_command key mid c) st)"
| "sql_serve (BeginCreation scope key fp) st = on_right (sql_begin_creation scope key fp) st"
| "sql_serve (CompleteCreation scope key i) st = no_value (on_right (sql_complete_creation scope key i) st)"
| "sql_serve (AbortCreation scope key fp) st = no_value (on_right (sql_abort_creation scope key fp) st)"

fun memory_serve :: "receipt_call \<Rightarrow> command_receipts \<times> creation_receipts \<Rightarrow> (exn + uuid option) \<times> (command_receipts \<times> creation_receipts)" where
  "memory_serve (BeginCommand key mid c) st = on_left (begin_command key mid c) st"
| "memory_serve (CompleteCommand key mid) st = no_value (on_left (complete_command key mid) st)"
| "memory_serve (AbortCommand key mid c) st = no_value (on_left (abort_command key mid c) st)"
| "memory_serve (BeginCreation scope key fp) st = on_right (begin_creation scope key fp) st"
| "memory_serve (CompleteCreation scope key i) st = no_value (on_right (complete_creation scope key i) st)"
| "memory_serve (AbortCreation scope key fp) st = no_value (on_right (abort_creation scope key fp) st)"

fun answers :: "('c \<Rightarrow> 's \<Rightarrow> 'r \<times> 's) \<Rightarrow> 'c list \<Rightarrow> 's \<Rightarrow> 'r list" where
  "answers serve [] s = []"
| "answers serve (c # cs) s = (case serve c s of (r, s') \<Rightarrow> r # answers serve cs s')"

text \<open>A completion of a receipt that is not there raises \<open>KeyError\<close> in memory and does nothing in the database.\<close>

fun keyed :: "receipt_call \<Rightarrow> command_receipts \<times> creation_receipts \<Rightarrow> bool" where
  "keyed (CompleteCommand key mid) d = (map_of (fst d) key \<noteq> None)"
| "keyed (CompleteCreation scope key i) d = (map_of (snd d) (scope, key) \<noteq> None)"
| "keyed _ d = True"

fun always_keyed :: "receipt_call list \<Rightarrow> command_receipts \<times> creation_receipts \<Rightarrow> bool" where
  "always_keyed [] d = True"
| "always_keyed (c # cs) d = (keyed c d \<and> always_keyed cs (snd (memory_serve c d)))"

definition receipts_held :: "command_table \<times> creation_table \<Rightarrow> command_receipts \<times> creation_receipts \<Rightarrow> bool" where
  "receipts_held st d \<longleftrightarrow> commands_held (fst st) (fst d) \<and> creations_held (snd st) (snd d)"

lemma on_left_same:
  "same_answer commands_held p q (fst st) (fst d) \<Longrightarrow> receipts_held st d \<Longrightarrow> same_answer receipts_held (on_left p) (on_left q) st d"
  by (cases "p (fst st)"; cases "q (fst d)") (simp add: same_answer_def on_left_def receipts_held_def)

lemma on_right_same:
  "same_answer creations_held p q (snd st) (snd d) \<Longrightarrow> receipts_held st d \<Longrightarrow> same_answer receipts_held (on_right p) (on_right q) st d"
  by (cases "p (snd st)"; cases "q (snd d)") (simp add: same_answer_def on_right_def receipts_held_def)

lemma no_value_same: "same_answer R p q s t \<Longrightarrow> fst (no_value (p s)) = fst (no_value (q t)) \<and> R (snd (no_value (p s))) (snd (no_value (q t)))"
  by (cases "p s"; cases "q t") (simp add: same_answer_def no_value_def)

lemma serve_same:
  assumes "receipts_held st d" and "keyed c d"
  shows "fst (sql_serve c st) = fst (memory_serve c d) \<and> receipts_held (snd (sql_serve c st)) (snd (memory_serve c d))"
proof -
  have held: "commands_held (fst st) (fst d)" "creations_held (snd st) (snd d)" using assms(1) by (simp_all add: receipts_held_def)
  note left = on_left_same [OF _ assms(1)] and right = on_right_same [OF _ assms(1)]
  show ?thesis
  proof (cases c)
    case (BeginCommand key mid cmd)
    then show ?thesis using left [OF begin_command_held [OF held(1)]] by (simp add: same_answer_def)
  next
    case (CompleteCommand key mid)
    then show ?thesis using assms(2) no_value_same [OF left [OF complete_command_held [OF held(1)]]] by simp
  next
    case (AbortCommand key mid cmd)
    then show ?thesis using no_value_same [OF left [OF abort_command_held [OF held(1)]]] by simp
  next
    case (BeginCreation scope key fp)
    then show ?thesis using right [OF begin_creation_held [OF held(2)]] by (simp add: same_answer_def)
  next
    case (CompleteCreation scope key i)
    then show ?thesis using assms(2) no_value_same [OF right [OF complete_creation_held [OF held(2)]]] by simp
  next
    case (AbortCreation scope key fp)
    then show ?thesis using no_value_same [OF right [OF abort_creation_held [OF held(2)]]] by simp
  qed
qed

text \<open>C33: the receipts in the database answer as those in memory: for any sequence of beginnings, completions and
  abortions of commands and creations, in which only receipts that are there are completed, every answer and
  every refusal is the same, starting from tables and dictionaries that hold the same receipts.\<close>

theorem sql_receipts_refine_memory:
  assumes "receipts_held st d" and "always_keyed cs d"
  shows "answers sql_serve cs st = answers memory_serve cs d"
  using assms
proof (induction cs arbitrary: st d)
  case (Cons c cs)
  obtain r st' where sql: "sql_serve c st = (r, st')" by (cases "sql_serve c st")
  obtain r' d' where mem: "memory_serve c d = (r', d')" by (cases "memory_serve c d")
  have "keyed c d" "always_keyed cs d'" using Cons.prems(2) by (simp_all add: mem)
  with serve_same [OF Cons.prems(1), of c] show ?case using Cons.IH [of st' d'] by (simp add: sql mem)
qed simp

theorem sql_receipts_refine_memory_witness:
  "answers sql_serve [BeginCommand ''k'' 7 PauseCommand, BeginCommand ''k'' 7 PauseCommand, CompleteCommand ''k'' 7,
       BeginCommand ''k'' 7 PauseCommand, BeginCommand ''k'' 7 ResumeCommand]
     (\<lparr>command_rows = [], command_clock = 0\<rparr>, \<lparr>creation_rows = [], creation_clock = 0\<rparr>)
   = [Inr None, Inl MissionCommandInProgressError, Inr None, Inr (Some 7), Inl MissionCommandIdempotencyConflictError]"
proof -
  have "receipts_held (\<lparr>command_rows = [], command_clock = 0\<rparr>, \<lparr>creation_rows = [], creation_clock = 0\<rparr>) ([], [])"
    by (simp add: receipts_held_def commands_held_def creations_held_def command_row_of_def creation_row_of_def)
  then have "answers sql_serve [BeginCommand ''k'' 7 PauseCommand, BeginCommand ''k'' 7 PauseCommand, CompleteCommand ''k'' 7,
       BeginCommand ''k'' 7 PauseCommand, BeginCommand ''k'' 7 ResumeCommand]
     (\<lparr>command_rows = [], command_clock = 0\<rparr>, \<lparr>creation_rows = [], creation_clock = 0\<rparr>)
     = answers memory_serve [BeginCommand ''k'' 7 PauseCommand, BeginCommand ''k'' 7 PauseCommand, CompleteCommand ''k'' 7,
       BeginCommand ''k'' 7 PauseCommand, BeginCommand ''k'' 7 ResumeCommand] ([], [])"
    by (rule sql_receipts_refine_memory) (simp add: on_left_def no_value_def begin_command_def complete_command_def)
  also have "\<dots> = [Inr None, Inl MissionCommandInProgressError, Inr None, Inr (Some 7), Inl MissionCommandIdempotencyConflictError]"
    by (simp add: on_left_def no_value_def begin_command_def complete_command_def)
  finally show ?thesis .
qed

section \<open>Pruning\<close>

text \<open>Pruning drops, of the completed receipts older than the cutoff, no more than the limit, and touches no
  other receipt, in particular none of a request that is in progress; a dry run drops none.\<close>

theorem pruning_drops_completed:
  assumes "distinct (map creation_row_id (creation_rows s))" and "prune_completed_before rank (Aware cutoff) limit dry_run s = (Inr ks, s')"
  shows "int (length ks) \<le> limit
     \<and> (\<forall>k \<in> set ks. \<exists>r. creation_row_of s k = Some r \<and> prunable_creation cutoff r)
     \<and> creation_row_of s' k = (if \<not> dry_run \<and> k \<in> set ks then None else creation_row_of s k)"
proof -
  have ks: "ks = prune_keys rank cutoff limit (creation_rows s)" and lim: "0 < limit"
    and s': "s' = (if dry_run then s else s\<lparr>creation_rows := filter (\<lambda>r. creation_row_id r \<notin> set ks) (creation_rows s)\<rparr>)"
    using assms(2) by (auto simp: prune_completed_before_def thenE_def bindE_def require_def gets_def ret_def modify_def raise_def split: if_splits)
  have "int (length ks) \<le> limit" unfolding ks prune_keys_def length_map by (rule length_first_n [OF less_imp_le [OF lim]])
  moreover have "\<exists>r. creation_row_of s k = Some r \<and> prunable_creation cutoff r" if in_ks: "k \<in> set ks" for k
  proof -
    obtain r where in_first: "r \<in> set (take (nat limit) (sort_key (prune_order rank) (filter (prunable_creation cutoff) (creation_rows s))))"
        and k: "creation_row_id r = k"
      using in_ks by (auto simp: ks prune_keys_def first_n_def)
    have r: "r \<in> set (creation_rows s)" "prunable_creation cutoff r" "creation_row_id r = k"
      using in_set_takeD [OF in_first] k by simp_all
    then have "find (\<lambda>x. creation_row_id x = k) (creation_rows s) = Some r"
      using assms(1) by (intro find_distinct_key) auto
    then show ?thesis using r(2) by (auto simp: creation_row_of_def)
  qed
  moreover have "find (\<lambda>r. creation_row_id r = k) (filter (\<lambda>r. creation_row_id r \<notin> set ks) xs)
      = (if k \<in> set ks then None else find (\<lambda>r. creation_row_id r = k) xs)" for xs
    by (induction xs) auto
  ultimately show ?thesis by (auto simp: s' creation_row_of_def)
qed

end
