(* ===== verification/WorkerHealth.thy ===== *)
theory WorkerHealth
  imports Domain Polling
begin

text \<open>
  Watching the running program: heartbeats of workers (\<open>app/domain/worker_health.py\<close> and the table of
  \<open>app/repositories/sqlalchemy/worker_heartbeat.py\<close>), the traffic state of an instance
  (\<open>app/services/runtime_state.py\<close>) and the counters of the HTTP server (\<open>app/services/http_metrics.py\<close>).
  Durations are rational numbers.
\<close>

section \<open>Heartbeats\<close>

datatype worker_kind = MissionWorkerKind | NotificationWorkerKind

record worker_heartbeat =
  worker_kind_of :: worker_kind
  instance_id :: string
  started_at :: datetime
  heartbeat_at :: datetime
  last_success_at :: "datetime option"
  consecutive_failures :: int

definition make_worker_heartbeat :: "worker_heartbeat \<Rightarrow> exn + worker_heartbeat" where
  "make_worker_heartbeat h =
     (if instance_id h = [] \<or> 255 < length (instance_id h) \<or> consecutive_failures h < 0 \<or> \<not> is_aware (started_at h)
         \<or> \<not> is_aware (heartbeat_at h) \<or> (case last_success_at h of None \<Rightarrow> False | Some t \<Rightarrow> \<not> is_aware t)
      then Inl ValidationError else Inr h)"

record worker_health =
  health_kind :: worker_kind
  health_instance :: string
  healthy :: bool
  health_heartbeat_at :: datetime
  heartbeat_age_seconds :: rat
  health_last_success_at :: "datetime option"
  health_failures :: int

definition evaluate_worker_health :: "worker_heartbeat \<Rightarrow> datetime \<Rightarrow> timedelta \<Rightarrow> exn + worker_health" where
  "evaluate_worker_health h current_time max_age =
     (if max_age \<le> 0 then Inl (ValueError ''max_age must be greater than zero'')
      else if \<not> is_aware current_time then Inl (ValueError ''current_time must be timezone-aware'')
      else let age = max 0 (total_seconds (instant current_time - instant (heartbeat_at h))) in
        Inr \<lparr>health_kind = worker_kind_of h, health_instance = instance_id h,
          healthy = (age \<le> total_seconds max_age \<and> consecutive_failures h = 0),
          health_heartbeat_at = heartbeat_at h, heartbeat_age_seconds = of_int (round_half_even (age * 1000)) / 1000,
          health_last_success_at = last_success_at h, health_failures = consecutive_failures h\<rparr>)"

text \<open>The table, by its primary key.\<close>

type_synonym heartbeat_table = "worker_heartbeat list"

definition is_worker :: "worker_kind \<Rightarrow> string \<Rightarrow> worker_heartbeat \<Rightarrow> bool" where
  "is_worker kind i h \<longleftrightarrow> worker_kind_of h = kind \<and> instance_id h = i"

definition beat_again :: "datetime \<Rightarrow> bool \<Rightarrow> worker_heartbeat \<Rightarrow> worker_heartbeat" where
  "beat_again t success h =
     (if success then h\<lparr>heartbeat_at := t, last_success_at := Some t, consecutive_failures := 0\<rparr>
      else h\<lparr>heartbeat_at := t, consecutive_failures := consecutive_failures h + 1\<rparr>)"

definition record_heartbeat :: "worker_kind \<Rightarrow> string \<Rightarrow> datetime \<Rightarrow> bool \<Rightarrow> (heartbeat_table, exn, worker_heartbeat) prog" where
  "record_heartbeat kind i t success =
     bindE (gets (find (is_worker kind i))) (\<lambda>found.
       case found of
         None \<Rightarrow>
           let h = \<lparr>worker_kind_of = kind, instance_id = i, started_at = t, heartbeat_at = t,
                    last_success_at = (if success then Some t else None), consecutive_failures = (if success then 0 else 1)\<rparr>
           in thenE (modify (\<lambda>rows. rows @ [h])) (liftE (make_worker_heartbeat h))
       | Some h \<Rightarrow>
           thenE (modify (map (\<lambda>r. if is_worker kind i r then beat_again t success r else r)))
             (liftE (make_worker_heartbeat (beat_again t success h))))"

definition get_heartbeat :: "worker_kind \<Rightarrow> string \<Rightarrow> (heartbeat_table, exn, worker_heartbeat option) prog" where
  "get_heartbeat kind i =
     bindE (gets (find (is_worker kind i))) (\<lambda>found.
       case found of None \<Rightarrow> ret None | Some h \<Rightarrow> liftE (map_sum id Some (make_worker_heartbeat h)))"

section \<open>Draining\<close>

record runtime_snapshot =
  accepting_traffic :: bool
  draining_since :: "datetime option"

type_synonym runtime_state = "datetime option"

definition runtime_snapshot_of :: "runtime_state \<Rightarrow> runtime_snapshot" where
  "runtime_snapshot_of since = \<lparr>accepting_traffic = (since = None), draining_since = since\<rparr>"

definition begin_draining :: "datetime \<Rightarrow> (runtime_state, exn, runtime_snapshot) prog" where
  "begin_draining t =
     thenE (require (is_aware t) (ValueError ''current_time must be timezone-aware''))
     (thenE (modify (\<lambda>since. if since = None then Some t else since)) (gets runtime_snapshot_of))"

definition resume_traffic :: "(runtime_state, exn, runtime_snapshot) prog" where
  "resume_traffic = thenE (modify (\<lambda>_. None)) (gets runtime_snapshot_of)"

section \<open>Counters\<close>

record http_metrics =
  total_requests :: int
  in_flight_requests :: int
  requests_by_method :: "(string, int) dict"
  responses_by_status_class :: "(string, int) dict"
  total_duration_ms :: rat
  max_duration_ms :: rat

definition no_requests :: http_metrics where
  "no_requests = \<lparr>total_requests = 0, in_flight_requests = 0, requests_by_method = [], responses_by_status_class = [],
     total_duration_ms = 0, max_duration_ms = 0\<rparr>"

definition start_request :: "http_metrics \<Rightarrow> http_metrics" where
  "start_request m = m\<lparr>in_flight_requests := in_flight_requests m + 1\<rparr>"

definition count_up :: "string \<Rightarrow> (string, int) dict \<Rightarrow> (string, int) dict" where
  "count_up k d = dict_set k (dict_get_or 0 d k + 1) d"

definition finish_request :: "string \<Rightarrow> int \<Rightarrow> rat \<Rightarrow> http_metrics \<Rightarrow> http_metrics" where
  "finish_request method_name status_code duration m =
     m\<lparr>in_flight_requests := max 0 (in_flight_requests m - 1), total_requests := total_requests m + 1,
       requests_by_method := count_up method_name (requests_by_method m),
       responses_by_status_class := count_up (int_str (status_code div 100) @ ''xx'') (responses_by_status_class m),
       total_duration_ms := total_duration_ms m + duration, max_duration_ms := max (max_duration_ms m) duration\<rparr>"

definition reset_metrics :: "http_metrics \<Rightarrow> http_metrics" where
  "reset_metrics m = no_requests"

section \<open>Contracts\<close>

definition worker_ok :: "worker_kind \<Rightarrow> string \<Rightarrow> (datetime \<times> bool) list \<Rightarrow> worker_heartbeat \<Rightarrow> bool" where
  "worker_ok kind i beats h \<longleftrightarrow> is_worker kind i h \<and> started_at h = fst (hd beats) \<and> heartbeat_at h = fst (last beats)
     \<and> consecutive_failures h = int (length (takeWhile (\<lambda>(t, ok). \<not> ok) (rev beats)))
     \<and> last_success_at h = map_option fst (find snd (rev beats))"

fun record_beats :: "worker_kind \<Rightarrow> string \<Rightarrow> (datetime \<times> bool) list \<Rightarrow> heartbeat_table \<Rightarrow> heartbeat_table" where
  "record_beats kind i [] rows = rows"
| "record_beats kind i ((t, ok) # beats) rows = record_beats kind i beats (snd (record_heartbeat kind i t ok rows))"

lemma record_beats_snoc: "record_beats kind i (beats @ [(t, ok)]) rows = snd (record_heartbeat kind i t ok (record_beats kind i beats rows))"
  by (induction kind i beats rows rule: record_beats.induct) simp_all

lemma is_worker_again [simp]: "is_worker kind i (beat_again t ok h) = is_worker kind i h"
  by (simp add: is_worker_def beat_again_def)

lemma find_fresh: "find P rows = None \<Longrightarrow> find P (rows @ [h]) = (if P h then Some h else None)"
  by (induction rows) (auto split: if_splits)

lemma find_again:
  "find (is_worker kind i) (map (\<lambda>r. if is_worker kind i r then beat_again t ok r else r) rows)
     = map_option (beat_again t ok) (find (is_worker kind i) rows)"
  by (induction rows) auto

text \<open>What the table says of a worker: from its first beat on, when it started, when it was last heard of, when
  it last succeeded, and how many of its last cycles have failed in a row.\<close>

theorem heartbeats_tell:
  assumes "beats \<noteq> []" and "find (is_worker kind i) rows = None"
  shows "\<exists>h. find (is_worker kind i) (record_beats kind i beats rows) = Some h \<and> worker_ok kind i beats h"
  using assms(1)
proof (induction beats rule: rev_nonempty_induct)
  case (single b)
  obtain t ok where b: "b = (t, ok)" by fastforce
  let ?h = "\<lparr>worker_kind_of = kind, instance_id = i, started_at = t, heartbeat_at = t,
      last_success_at = (if ok then Some t else None), consecutive_failures = (if ok then 0 else 1)\<rparr>"
  have "is_worker kind i ?h" by (simp add: is_worker_def)
  then have "find (is_worker kind i) (rows @ [?h]) = Some ?h" using find_fresh [OF assms(2)] by simp
  moreover have "record_beats kind i [b] rows = rows @ [?h]"
    using assms(2) by (simp add: b record_heartbeat_def bindE_def gets_def thenE_def modify_def liftE_def Let_def)
  moreover have "worker_ok kind i [b] ?h" by (simp add: worker_ok_def b is_worker_def)
  ultimately show ?case by (simp only:) blast
next
  case (snoc b beats)
  obtain h where h: "find (is_worker kind i) (record_beats kind i beats rows) = Some h" "worker_ok kind i beats h" using snoc.IH by blast
  obtain t ok where b: "b = (t, ok)" by fastforce
  have "find (is_worker kind i) (record_beats kind i (beats @ [b]) rows) = Some (beat_again t ok h)"
    unfolding b record_beats_snoc using h(1)
    by (simp add: record_heartbeat_def bindE_def gets_def thenE_def modify_def liftE_def find_again)
  moreover have "worker_ok kind i (beats @ [b]) (beat_again t ok h)"
    using h(2) snoc.hyps by (auto simp: worker_ok_def b beat_again_def is_worker_def)
  ultimately show ?case by blast
qed

text \<open>A worker is reported healthy exactly when its last cycle has succeeded and it was heard of within the limit.\<close>

lemma healthy_iff:
  assumes "0 < max_age" and "worker_ok kind i beats h" and "beats \<noteq> []"
  shows "\<exists>r. evaluate_worker_health h (Aware now) max_age = Inr r
     \<and> (healthy r \<longleftrightarrow> snd (last beats) \<and> now \<le> instant (fst (last beats)) + max_age)"
proof -
  obtain bs b where beats: "beats = bs @ [b]" using assms(3) by (cases beats rule: rev_cases) auto
  have "consecutive_failures h = 0 \<longleftrightarrow> snd b" using assms(2) by (auto simp: worker_ok_def beats split: prod.splits)
  moreover have "max 0 (total_seconds (now - instant (fst b))) \<le> total_seconds max_age \<longleftrightarrow> now \<le> instant (fst b) + max_age"
    using assms(1) total_seconds_mono [of "now - instant (fst b)" max_age] total_seconds_mono [of 0 max_age]
    by (auto simp: total_seconds_def [of 0])
  ultimately show ?thesis
    using assms(1,2) by (auto simp: evaluate_worker_health_def Let_def worker_ok_def beats)
qed

lemma draining_keeps_first: "begin_draining (Aware t) (Some s) = (Inr \<lparr>accepting_traffic = False, draining_since = Some s\<rparr>, Some s)"
  by (simp add: begin_draining_def runtime_snapshot_of_def thenE_def bindE_def require_def modify_def gets_def ret_def)

end
