(* ===== verification/Spec2Isabelle.thy ===== *)
theory Spec2Isabelle
  imports EngineContracts ClaimContracts MissionWorker IdentityContracts TaskTypes MissionApiContracts MockTrain
    NotificationDelivery SqlClaims ProjectionContracts RequestLimits SqlReceipts WorkerHealth
begin

text \<open>
  Verification library of the purchase agent (the Python program under \<open>src/app\<close>).

  The program. A client stores a purchase mission (a train trip with constraints and participants)
  through the HTTP API. A worker polls for missions that are due, claims them, and hands each to the mission
  engine, which resolves a provider adapter, searches, ranks the options by the rules, reserves the best one
  where the mode of the mission asks for it, and either waits for the user's confirmation or confirms by
  itself. The services record what they do to a mission as events at the end of its log; the SQL repository projects the logs
  into two further tables and writes the messages for the participants into an outbox, which the notification
  worker delivers. Beside the missions stand the agent tasks: an instruction becomes a plan of browser
  actions, which an executor carries out step by step, asking the user where the permission policy wants it,
  or which a loop around a language model carries out command by command.

  Style. Python code that keeps state is translated into functions of the exception-state monad of Prelude
  (\<open>'s \<Rightarrow> (exn + 'a) \<times> 's\<close>): a raise is an \<open>Inl\<close> which keeps the changes made before it, as in Python.
  Objects that the code shares and mutates are looked up in the state of the repository under their
  identifier; objects that are copied (\<open>model_copy\<close>) are values. Pydantic validators are functions from raw
  fields to \<open>exn + record\<close>. Times are microseconds on one axis, with a case for a time without zone where
  the code tells the two apart.

  Foundations.
  \<^item> Prelude: the monad with its weakest-precondition rules (collection \<open>wp\<close>), dictionaries that keep
    the order of insertion, sorting and limits, times, strings.
  \<^item> Interfaces: the contracts on which more than one component rests, as locales: \<open>claim_queue\<close>
    (interpreted on the mission repository in ClaimContracts and on the outbox in OutboxContracts),
    \<open>receipt_store\<close> (on the receipts of commands and of creations in Receipts), \<open>recorded_op\<close> (on the three
    operations of the mock provider in MockTrain), \<open>versioned_store\<close> (on identities, their preferences, and
    agent tasks).
  \<^item> Pagination: \<open>cursor_pages\<close>, what following the cursors of a paged listing yields, once for all
    (interpreted in EventHistory, MissionApiContracts, ProviderHistoryContracts; the pages of identities rest on its
    lemmas on keyset listings).
  \<^item> Polling: reading again until a deadline, and that it ends. The fuel \<open>wait_rounds\<close> is the number of
    polls that fit before the deadline plus two (the first read and the last, shortened sleep);
    \<open>event_wait_ends\<close> shows that it is never used up when the clock does not run backwards and a sleep
    lasts as long as it should.
  \<^item> Texts, Urls: text as Unicode code points with the Python string functions the program uses, and the
    parts of \<open>urllib.parse\<close> for ASCII texts.

  Missions.
  \<^item> Domain: \<open>domain/mission.py, execution.py, execution_attempt.py, identity.py, provider.py, provider_resolution.py\<close> and the
    domain errors: the record of a mission with every validator of its constructor (\<open>make_mission\<close> runs
    them in order), \<open>record_event\<close>, \<open>with_provider_selection\<close>.
  \<^item> EventLog: the validation loop of a log against its declarative specification, and that recording
    an event keeps a log valid and causally chained.
  \<^item> StateMachine: \<open>services/mission_state_machine.py\<close> and the outcome view; the table of transitions as a
    step relation, with reachability by rule induction.
  \<^item> RuleEngine: \<open>services/rule_engine.py\<close>, the score of every option and the choice of the best.
  \<^item> Providers: adapters (records of functions on a state of their own, which is a parameter), the
    registry, the resolver, the payloads of resolution events, the preview.
  \<^item> MissionStore, MissionLedger: \<open>storage/memory.py\<close>, the repository in memory with its attempts, and
    the invariant \<open>repo_ok\<close>: attempts are numbered upwards, only the last one can be open, and it is open
    exactly while the mission is processing.
  \<^item> Runtime, MissionWork, RunFrame: the state the services see, the steps they are built from, and what
    they leave alone: other missions, and the balance of a mission's version and log.
  \<^item> Engine, EngineRun, EngineContracts: \<open>services/mission_engine.py\<close>: running, confirming, cancelling;
    the stages of a run and then the contracts: the outcome of a run, the ledger, the audit trail, what a
    search-only mission never does, and that confirming and cancelling end a mission as its provider
    answered (\<open>settled\<close> ties the end of the mission to the reply of the call).
  \<^item> ClaimContracts: claiming, recovering and expiring in memory: that workers never share a mission, and that
    exactly the stale claims are recovered, oldest first.
  \<^item> Lifecycle, LifecycleContracts: pausing, resuming, scheduling, retrying, the configuration and the
    choice of a provider.
  \<^item> DueProcessor, MissionWorker: the retry policy, the batch of due missions with its error handling, and
    the polling loop of the worker.
  \<^item> Demo: a small concrete system on which the theorems above are instantiated.

  The database.
  \<^item> EventCodec, EventCodecContracts: \<open>services/mission_event_upcaster.py, mission_event_serializer.py,
    mission_event_store.py\<close>: the stored form of events, the upcasters from versions 0, 1 and 2, the registry.
    \<open>upcast_loop\<close> recurses on the number of versions left. A written log reads back; a log of the oldest
    version, provider payloads included, becomes one causal chain; an unknown version is refused; what a coercion of pydantic does is a
    parameter (\<open>coercions\<close>) of which the theorems need only that it keeps values already in normal form
    (\<open>canonical\<close>).
  \<^item> SqlMissions: \<open>repositories/sqlalchemy/mission.py\<close> and \<open>mission_event.py\<close> with the models of
    \<open>db/models\<close> and the session of \<open>db/session.py\<close>. A database is a record of five tables; \<open>flush\<close> checks
    the keys and constraints of the models; a session holds the tables and what was committed last.
  \<^item> SqlMissionContracts: \<open>in_step\<close>, the relation between the stored logs and their two projections, and that
    an update keeps it and writes the outbox; optimistic locking; a stored mission reads back; a mission
    scheduled behind its expiry stops all expiry.
  \<^item> SqlClaims: the simulation relation \<open>stored_as\<close> between the tables and the repository in memory, and
    that claiming on the one implements claiming on the other.
  \<^item> ProjectionCheck, ProjectionContracts: \<open>services/mission_event_projection.py,
    provider_history_verification.py, provider_history_rebuild.py\<close>: the check is exact, a rebuild makes the
    projection read as the logs, and a recovery of stale claims leaves it behind.
  \<^item> ProviderHistory, ProviderHistoryContracts: \<open>services/provider_resolution_history.py\<close> with its projection
    and table: pages and increments read from the table are those of the log, and the pages are complete.

  Notifications and the mock provider.
  \<^item> Outbox, OutboxContracts: the outbox table, \<open>services/notification_outbox.py\<close> and a cycle of
    \<open>notification_worker.py\<close>: no undelivered message is lost, claims are exclusive, a dispatch settles what it
    claimed, a cycle delivers what waits up to its limit. The delivery channel is a parameter with a state.
  \<^item> NotificationDelivery: \<open>services/notification_delivery.py\<close>: JSON lines, the webhook (the HTTP client and the
    signature are parameters), the routing by the preferences of the recipients.
  \<^item> MockTrain: \<open>adapters/mock_train.py\<close>, an adapter with a world of its own; the engine on top of it never
    loses or changes a booking.

  The HTTP API.
  \<^item> Receipts: idempotency receipts of commands and creations; a command runs at most once per key.
  \<^item> Identities, IdentityContracts: the endpoints of identities with entity tags and pages.
  \<^item> EventHistory: the pages of a mission's events and waiting for new ones.
  \<^item> MissionApi, MissionApiContracts: the endpoints of missions: \<open>If-Match\<close>, receipts, creation, summaries;
    no command that succeeded is repeated to a client that sends \<open>If-Match\<close>.
  \<^item> SqlReceipts: the receipts in the database answer any sequence of calls as those in memory do.
  \<^item> RequestLimits: \<open>api/middleware/rate_limit.py\<close>, an exact sliding window as long as no client is evicted, and
    \<open>request_body_limit.py\<close>.
  \<^item> WorkerHealth: the heartbeats of the workers, the draining of a process and the counters of its requests.

  Agent tasks.
  \<^item> AgentTasks, TaskPlans, BrowserPage, AgentRuns: the domain of tasks, plans, captured pages and commands,
    with every constructor.
  \<^item> TaskPlanner, TaskUrls, PageMapper: the plan for a task, the normal form of its target, and the mapping of
    the controls of a page to the people and facts of the task.
  \<^item> TaskExecutor, ExecutorContracts: the permission gate and the executor: which runner calls it makes, the
    abstract machine of a plan it refines, and how an execution ends. The runner is a parameter.
  \<^item> AgentLoop, AgentLoopContracts: the observe-decide-act loop with its bounds on steps and repetitions.
  \<^item> TaskApi, TaskValidity, TaskTypes: the endpoints of tasks, and that whatever they do every stored task is
    one its constructor accepts.

  Parameters and limits of the model.
  Parameters, each an argument of the definitions that use it or a field of the state: the clock (a sequence
  of readings), \<open>uuid4\<close> (a sequence of identifiers; what is relied on, that they differ, is the hypothesis
  \<open>ids_ok\<close> or injectivity), \<open>uuid5\<close>, digests and signatures, the coercions of pydantic, provider adapters,
  the HTTP client, the browser driver and the decision provider of the agent.

  Not modelled: row locks and the interleaving of database sessions (an operation on the tables is one step;
  \<open>FOR UPDATE SKIP LOCKED\<close> is what makes it one), the SQL repositories other than those of missions, events,
  provider history, outbox, receipts and heartbeats, external provider adapters, command line tools and
  configuration, the administrative, health and web routes, the patterns of the task intent parser,
  the selection of the context for a decision, and the text of cursors, which the model takes decoded.
\<close>

end
